(* ===== verification/Prelude.thy ===== *)
theory Prelude
  imports
    Complex_Main
    "HOL-Library.Multiset"
    "HOL-Library.AList"
    "HOL-Library.Char_ord"
    "HOL-Library.List_Lexorder"
begin

text \<open>
  Shared ground of the development: the lemma collections the component theories fill, the
  JavaScript containers the code uses (a \<open>Map\<close> is an association list in insertion order,
  a stable \<open>Array.prototype.sort\<close> is an insertion sort by comparator), and the generic
  facts on lists, association lists and sums that several components need.

  A JavaScript string is a HOL \<open>string\<close>: a list of code units below 256. Relational
  operators on strings (\<open>date <= other\<close>) are the lexicographic order on code units, which
  is the library's order on \<open>char list\<close>.
\<close>

named_theorems split_defs "definitions of the split-expense component"
named_theorems store_defs "definitions of the in-memory stores"
named_theorems auth_defs "definitions of the identity component"
named_theorems ledger_defs "definitions of the ledger component"
named_theorems js_simps "evaluation rules for the JavaScript standard library"

section \<open>JavaScript Map and Set\<close>

text \<open>
  A \<open>Map\<close> keeps insertion order: \<open>set\<close> on a present key keeps its position and on a
  fresh key appends, which is \<open>AList.update\<close>; \<open>get\<close> is \<open>map_of\<close>.
\<close>

type_synonym ('k, 'v) jsmap = "('k \<times> 'v) list"

abbreviation map_set :: "'k \<Rightarrow> 'v \<Rightarrow> ('k, 'v) jsmap \<Rightarrow> ('k, 'v) jsmap" where
  "map_set \<equiv> AList.update"

abbreviation map_delete :: "'k \<Rightarrow> ('k, 'v) jsmap \<Rightarrow> ('k, 'v) jsmap" where
  "map_delete \<equiv> AList.delete"

definition get_or :: "('k, 'v) jsmap \<Rightarrow> 'k \<Rightarrow> 'v \<Rightarrow> 'v" where
  "get_or m k d = (case map_of m k of None \<Rightarrow> d | Some v \<Rightarrow> v)"

text \<open>\<open>Set.prototype.add\<close>: a set is the list of its members in insertion order.\<close>

definition set_add :: "'a \<Rightarrow> 'a list \<Rightarrow> 'a list" where
  "set_add x xs = (if x \<in> set xs then xs else xs @ [x])"

definition set_of :: "'a list \<Rightarrow> 'a list" where
  "set_of xs = foldl (\<lambda>s x. set_add x s) [] xs"

lemma map_of_map_set [simp]: "map_of (map_set k v m) k' = (if k' = k then Some v else map_of m k')"
  by (simp add: update_conv)

lemma distinct_map_set [intro]: "distinct (map fst m) \<Longrightarrow> distinct (map fst (map_set k v m))"
  by (rule distinct_update)

lemma keys_map_set: "set (map fst (map_set k v m)) = insert k (set (map fst m))"
  by (induction m) auto

lemma map_set_entry: "(k, v) \<in> set (map_set k' v' m) \<Longrightarrow> (k, v) \<in> set m \<or> k = k' \<and> v = v'"
  by (induction m) (auto split: if_splits)

lemma get_or_map_set [simp]: "get_or (map_set k v m) k' d = (if k' = k then v else get_or m k' d)"
  by (simp add: get_or_def)

lemma get_or_Nil [simp]: "get_or [] k d = d"
  by (simp add: get_or_def)

lemma set_set_add [simp]: "set (set_add x xs) = insert x (set xs)"
  by (auto simp: set_add_def)

lemma distinct_set_add: "distinct xs \<Longrightarrow> distinct (set_add x xs)"
  by (auto simp: set_add_def)

lemma set_of_aux:
  "set (foldl (\<lambda>s x. set_add x s) acc xs) = set acc \<union> set xs \<and>
   (distinct acc \<longrightarrow> distinct (foldl (\<lambda>s x. set_add x s) acc xs))"
  by (induction xs arbitrary: acc) (auto simp: distinct_set_add)

lemma set_set_of [simp]: "set (set_of xs) = set xs"
  using set_of_aux [of "[]" xs] by (simp add: set_of_def)

lemma distinct_set_of [simp]: "distinct (set_of xs)"
  using set_of_aux [of "[]" xs] by (simp add: set_of_def)

lemma set_of_distinct_aux:
  "distinct (acc @ xs) \<Longrightarrow> foldl (\<lambda>s x. set_add x s) acc xs = acc @ xs"
  by (induction xs arbitrary: acc) (auto simp: set_add_def)

lemma set_of_distinct [simp]: "distinct xs \<Longrightarrow> set_of xs = xs"
  using set_of_distinct_aux [of "[]" xs] by (simp add: set_of_def)

section \<open>Sums over maps\<close>

text \<open>The sum of the values of a number-valued map: what balances and totals are proved about.\<close>

definition map_total :: "('k, 'v::comm_monoid_add) jsmap \<Rightarrow> 'v" where
  "map_total m = sum_list (map snd m)"

lemma map_total_Nil [simp]: "map_total [] = 0"
  by (simp add: map_total_def)

lemma map_total_set:
  fixes m :: "('k, int) jsmap"
  shows "distinct (map fst m) \<Longrightarrow> map_total (map_set k v m) = map_total m - get_or m k 0 + v"
proof (induction m)
  case (Cons p m)
  show ?case
  proof (cases "fst p = k")
    case True
    then show ?thesis by (cases p) (simp add: map_total_def get_or_def)
  next
    case False
    with Cons show ?thesis by (cases p) (simp add: map_total_def get_or_def)
  qed
qed (simp add: map_total_def get_or_def)

text \<open>Over distinct keys that include every key with a non-zero value, the values sum to the total.\<close>

lemma sum_values_over:
  fixes m :: "('k, int) jsmap"
  assumes "distinct ks" and "distinct (map fst m)" and "\<And>k. k \<notin> set ks \<Longrightarrow> get_or m k 0 = 0"
  shows "sum_list (map (\<lambda>k. get_or m k 0) ks) = map_total m"
  using assms(2,3)
proof (induction m)
  case (Cons p m)
  obtain k v where p: "p = (k, v)" by (cases p)
  have absent: "get_or m k 0 = 0"
    using Cons.prems(1) p by (metis distinct.simps(2) fst_conv get_or_def list.simps(9)
        map_of_eq_None_iff option.case(1) set_map)
  have "get_or m x 0 = 0" if "x \<notin> set ks" for x
    using Cons.prems(2) [OF that] absent p by (cases "x = k") (auto simp: get_or_def)
  then have IH: "sum_list (map (\<lambda>k. get_or m k 0) ks) = map_total m"
    using Cons by simp
  have "(\<lambda>x. get_or (p # m) x 0) = (\<lambda>x. get_or m x 0 + (if x = k then v else 0))"
    using absent p by (auto simp: get_or_def)
  then have "sum_list (map (\<lambda>x. get_or (p # m) x 0) ks)
      = map_total m + sum_list (map (\<lambda>x. if x = k then v else 0) ks)"
    using IH by (simp add: sum_list_addf)
  moreover have "sum_list (map (\<lambda>x. if x = k then v else 0) ks) = (if k \<in> set ks then v else 0)"
    using assms(1) by (induction ks) auto
  moreover have "k \<notin> set ks \<Longrightarrow> v = 0"
    using Cons.prems(2) [of k] p by (simp add: get_or_def)
  ultimately show ?case using p by (auto simp: map_total_def)
qed (simp add: map_total_def get_or_def)

section \<open>Array.prototype.sort\<close>

text \<open>
  \<open>sort\<close> is stable and, for a comparator that is a total preorder, its result is determined
  by the specification; an insertion sort computes it.
\<close>

fun js_insert :: "('a \<Rightarrow> 'a \<Rightarrow> int) \<Rightarrow> 'a \<Rightarrow> 'a list \<Rightarrow> 'a list" where
  "js_insert cmp x [] = [x]"
| "js_insert cmp x (y # ys) = (if cmp x y \<le> 0 then x # y # ys else y # js_insert cmp x ys)"

fun js_sort :: "('a \<Rightarrow> 'a \<Rightarrow> int) \<Rightarrow> 'a list \<Rightarrow> 'a list" where
  "js_sort cmp [] = []"
| "js_sort cmp (x # xs) = js_insert cmp x (js_sort cmp xs)"

definition preorder_cmp :: "('a \<Rightarrow> 'a \<Rightarrow> int) \<Rightarrow> bool" where
  "preorder_cmp cmp \<longleftrightarrow> (\<forall>x y. cmp x y \<le> 0 \<or> cmp y x \<le> 0) \<and>
     (\<forall>x y z. cmp x y \<le> 0 \<longrightarrow> cmp y z \<le> 0 \<longrightarrow> cmp x z \<le> 0)"

text \<open>A comparator chain \<open>f(a, b) || g(a, b)\<close>: the second decides where the first is 0.\<close>

definition cmp_or :: "('a \<Rightarrow> 'a \<Rightarrow> int) \<Rightarrow> ('a \<Rightarrow> 'a \<Rightarrow> int) \<Rightarrow> 'a \<Rightarrow> 'a \<Rightarrow> int" where
  "cmp_or f g a b = (if f a b = 0 then g a b else f a b)"

lemma mset_js_insert [simp]: "mset (js_insert cmp x xs) = add_mset x (mset xs)"
  by (induction xs) auto

lemma mset_js_sort [simp]: "mset (js_sort cmp xs) = mset xs"
  by (induction xs) auto

lemma set_js_sort [simp]: "set (js_sort cmp xs) = set xs"
  by (metis mset_js_sort set_mset_mset)

lemma length_js_sort [simp]: "length (js_sort cmp xs) = length xs"
  by (metis mset_js_sort size_mset)

lemma js_sort_Nil_iff [simp]: "js_sort cmp xs = [] \<longleftrightarrow> xs = []"
  by (metis length_0_conv length_js_sort)

lemma distinct_map_js_sort: "distinct (map f (js_sort cmp xs)) \<longleftrightarrow> distinct (map f xs)"
proof -
  have "mset (map f (js_sort cmp xs)) = mset (map f xs)" by simp
  then show ?thesis by (metis mset_eq_imp_distinct_iff)
qed

lemma sum_list_js_sort:
  fixes f :: "'a \<Rightarrow> 'b::comm_monoid_add"
  shows "sum_list (map f (js_sort cmp xs)) = sum_list (map f xs)"
proof -
  have "mset (map f (js_sort cmp xs)) = mset (map f xs)" by simp
  then show ?thesis by (metis sum_mset_sum_list)
qed

lemma sorted_wrt_js_insert:
  assumes "preorder_cmp cmp" and "sorted_wrt (\<lambda>x y. cmp x y \<le> 0) xs"
  shows "sorted_wrt (\<lambda>x y. cmp x y \<le> 0) (js_insert cmp x xs)"
  using assms(2)
proof (induction xs)
  case (Cons y ys)
  have mem: "set (js_insert cmp x ys) = insert x (set ys)"
    by (metis mset_js_insert set_mset_add_mset_insert set_mset_mset)
  show ?case
  proof (cases "cmp x y \<le> 0")
    case True
    with Cons.prems assms(1) show ?thesis by (auto simp: preorder_cmp_def)
  next
    case False
    with assms(1) have "cmp y x \<le> 0" by (auto simp: preorder_cmp_def)
    with False Cons mem show ?thesis by auto
  qed
qed simp

lemma sorted_wrt_js_sort:
  "preorder_cmp cmp \<Longrightarrow> sorted_wrt (\<lambda>x y. cmp x y \<le> 0) (js_sort cmp xs)"
  by (induction xs) (auto intro: sorted_wrt_js_insert)

lemma js_sort_head_least:
  assumes "preorder_cmp cmp" and "js_sort cmp xs = y # ys" and "x \<in> set xs"
  shows "cmp y x \<le> 0"
proof -
  have "x \<in> set (y # ys)" by (metis assms(2,3) set_js_sort)
  moreover have "sorted_wrt (\<lambda>x y. cmp x y \<le> 0) (y # ys)"
    by (metis assms(1,2) sorted_wrt_js_sort)
  moreover have "cmp y y \<le> 0" using assms(1) by (auto simp: preorder_cmp_def)
  ultimately show ?thesis by auto
qed

lemma preorder_cmp_key [intro]: "preorder_cmp (\<lambda>a b. f a - f b)" for f :: "'a \<Rightarrow> int"
  by (auto simp: preorder_cmp_def)

lemma preorder_cmp_key_desc [intro]: "preorder_cmp (\<lambda>a b. f b - f a)" for f :: "'a \<Rightarrow> int"
  by (auto simp: preorder_cmp_def)

section \<open>Comparing strings\<close>

text \<open>The order of code units as a comparator, and what the code needs of a collation.\<close>

definition code_unit_compare :: "string \<Rightarrow> string \<Rightarrow> int" where
  "code_unit_compare a b = (if a < b then -1 else if a = b then 0 else 1)"

text \<open>
  \<open>localeCompare\<close> is the collation of the host's locale. It is a parameter \<open>lc\<close> of the
  definitions that use it; the code relies on it being a total preorder under which equal
  strings compare 0.
\<close>

definition collation :: "(string \<Rightarrow> string \<Rightarrow> int) \<Rightarrow> bool" where
  "collation lc \<longleftrightarrow> preorder_cmp lc \<and> (\<forall>a. lc a a = 0)"

lemma collation_code_unit: "collation code_unit_compare"
  by (auto simp: collation_def preorder_cmp_def code_unit_compare_def split: if_splits)

section \<open>Lists\<close>

lemma sum_list_map_filter_if:
  fixes f :: "'a \<Rightarrow> 'b::comm_monoid_add"
  shows "sum_list (map f (filter P xs)) = sum_list (map (\<lambda>x. if P x then f x else 0) xs)"
  by (induction xs) auto

lemma sum_list_indicator:
  fixes c :: int
  shows "distinct ks \<Longrightarrow>
    sum_list (map (\<lambda>k. if k = a then c else 0) ks) = (if a \<in> set ks then c else 0)"
  by (induction ks) auto

lemma sum_list_map_uminus: "sum_list (map (\<lambda>x. - f x) xs) = - sum_list (map f xs)"
  for f :: "'a \<Rightarrow> int"
  by (induction xs) auto

lemma foldl_add_sum_list: "foldl (\<lambda>acc x. acc + f x) a xs = a + sum_list (map f xs)"
  for a :: "'b::comm_monoid_add"
  by (induction xs arbitrary: a) (auto simp: ac_simps)

text \<open>\<open>findIndex\<close> and the in-place update at the first match.\<close>

fun update_first :: "('a \<Rightarrow> bool) \<Rightarrow> ('a \<Rightarrow> 'a) \<Rightarrow> 'a list \<Rightarrow> 'a list" where
  "update_first P f [] = []"
| "update_first P f (x # xs) = (if P x then f x # xs else x # update_first P f xs)"

fun remove_first :: "('a \<Rightarrow> bool) \<Rightarrow> 'a list \<Rightarrow> 'a list" where
  "remove_first P [] = []"
| "remove_first P (x # xs) = (if P x then xs else x # remove_first P xs)"

lemma length_update_first [simp]: "length (update_first P f xs) = length xs"
  by (induction xs) auto

lemma update_first_none [simp]: "\<not> (\<exists>x \<in> set xs. P x) \<Longrightarrow> update_first P f xs = xs"
  by (induction xs) auto

lemma map_update_first_frame:
  "(\<And>x. x \<in> set xs \<Longrightarrow> P x \<Longrightarrow> g (f x) = g x) \<Longrightarrow> map g (update_first P f xs) = map g xs"
  by (induction xs) auto

lemma set_update_first_subset: "set (update_first P f xs) \<subseteq> set xs \<union> f ` {x \<in> set xs. P x}"
  by (induction xs) auto

end
