(* ===== verification/JsNum.thy ===== *)
theory JsNum
  imports Prelude
begin

text \<open>
  JavaScript numbers. Money amounts, counts and times are integers below \<open>2 ^ 53\<close> in
  magnitude, on which the arithmetic of the language is exact: they are \<open>int\<close>. A quotient,
  a percentage or a ratio is a binary64 value: it is a rational, and every operation on such
  values rounds with \<open>fl\<close>, to nearest with ties to even on a 53-bit significand, as IEEE 754
  prescribes. The exponent is unbounded here: the values of the code lie far inside the range
  of binary64, so neither overflow nor subnormal numbers occur.

  \<open>num\<close> is a number as a client may send it, with the values that validation must refuse.
\<close>

datatype num = Num rat | NaN | Infinity bool

fun isInteger :: "num \<Rightarrow> bool" where
  "isInteger (Num q) = (of_int \<lfloor>q\<rfloor> = q)"
| "isInteger _ = False"

fun isFinite :: "num \<Rightarrow> bool" where
  "isFinite (Num q) = True"
| "isFinite _ = False"

fun int_of_num :: "num \<Rightarrow> int" where
  "int_of_num (Num q) = \<lfloor>q\<rfloor>"
| "int_of_num _ = 0"

definition max_safe_integer :: int where
  "max_safe_integer = 2 ^ 53 - 1"

definition isSafeInteger :: "num \<Rightarrow> bool" where
  "isSafeInteger n \<longleftrightarrow> isInteger n \<and> \<bar>int_of_num n\<bar> \<le> max_safe_integer"

text \<open>\<open>n > c\<close> and \<open>n <= c\<close> for a client's number: every comparison with NaN is false.\<close>

fun num_le :: "num \<Rightarrow> rat \<Rightarrow> bool" where
  "num_le (Num q) c = (q \<le> c)"
| "num_le NaN c = False"
| "num_le (Infinity pos) c = (\<not> pos)"

lemma int_of_num_integer: "isInteger n \<Longrightarrow> n = Num (of_int (int_of_num n))"
  by (cases n) auto

text \<open>What \<open>Number.isInteger(n) && n > 0\<close> accepts.\<close>

lemma positive_integer_iff:
  "isInteger n \<and> \<not> num_le n 0 \<longleftrightarrow> (\<exists>k > 0. n = Num (of_int k))"
proof (cases n)
  case (Num q)
  show ?thesis
  proof (cases "of_int \<lfloor>q\<rfloor> = q")
    case True
    then obtain k where "q = of_int k" by metis
    then show ?thesis using Num by (auto simp: not_le)
  next
    case False
    then show ?thesis using Num by auto
  qed
qed simp_all

section \<open>Powers of two and the binary exponent\<close>

definition pow2 :: "int \<Rightarrow> rat" where
  "pow2 k = (if 0 \<le> k then 2 ^ nat k else 1 / 2 ^ nat (- k))"

function nlog2 :: "int \<Rightarrow> nat" where
  "nlog2 n = (if n \<le> 1 then 0 else Suc (nlog2 (n div 2)))"
  by pat_completeness auto
termination
  by (relation "measure nat") auto

declare nlog2.simps [simp del]

text \<open>The binary exponent of a positive rational: \<open>pow2 (ilog2 x) \<le> x < pow2 (ilog2 x + 1)\<close>.\<close>

definition ilog2 :: "rat \<Rightarrow> int" where
  "ilog2 x = (let (n, d) = quotient_of x;
                  k = int (nlog2 n) - int (nlog2 d)
              in if pow2 k \<le> x then k else k - 1)"

lemma pow2_powi: "pow2 k = 2 powi k"
  by (simp add: pow2_def power_int_def inverse_eq_divide power_one_over)

lemma pow2_pos [simp]: "0 < pow2 k"
  by (simp add: pow2_def)

lemma pow2_nonzero [simp]: "pow2 k \<noteq> 0"
  using pow2_pos [of k] by linarith

lemma pow2_add: "pow2 (j + k) = pow2 j * pow2 k"
  by (simp add: pow2_powi power_int_add)

lemma pow2_0 [simp]: "pow2 0 = 1"
  by (simp add: pow2_def)

lemma pow2_1 [simp]: "pow2 1 = 2"
  by (simp add: pow2_def)

lemma pow2_nat: "pow2 (int n) = 2 ^ n"
  by (simp add: pow2_def)

lemma pow2_mono: "j \<le> k \<Longrightarrow> pow2 j \<le> pow2 k"
  by (simp add: pow2_powi power_int_increasing)

lemma pow2_strict_mono: "j < k \<Longrightarrow> pow2 j < pow2 k"
  by (simp add: pow2_powi power_int_strict_increasing)

lemma pow2_less_iff: "pow2 j < pow2 k \<longleftrightarrow> j < k"
  by (meson linorder_not_le pow2_mono pow2_strict_mono)

lemma nlog2_bounds: "0 < n \<Longrightarrow> 2 ^ nlog2 n \<le> n \<and> n < 2 ^ Suc (nlog2 n)"
proof (induction n rule: nlog2.induct)
  case (1 n)
  show ?case
  proof (cases "n \<le> 1")
    case True
    with "1.prems" show ?thesis by (simp add: nlog2.simps [of n])
  next
    case False
    with "1.IH" have "2 ^ nlog2 (n div 2) \<le> n div 2 \<and> n div 2 < 2 * 2 ^ nlog2 (n div 2)" by simp
    then have "2 * 2 ^ nlog2 (n div 2) \<le> n \<and> n < 2 * (2 * 2 ^ nlog2 (n div 2))" by linarith
    with False show ?thesis by (simp add: nlog2.simps [of n])
  qed
qed

lemma ilog2_bounds:
  assumes "0 < x"
  shows "pow2 (ilog2 x) \<le> x \<and> x < pow2 (ilog2 x + 1)"
proof -
  obtain n d where q: "quotient_of x = (n, d)" by (cases "quotient_of x")
  have d: "0 < d" and x: "x = of_int n / of_int d"
    using q by (auto dest: quotient_of_denom_pos quotient_of_div)
  with assms have n: "0 < n" by (simp add: zero_less_divide_iff)
  define a b where "a = nlog2 n" and "b = nlog2 d"
  have a: "2 ^ a \<le> n" "n < 2 * 2 ^ a"
    using nlog2_bounds [of n] n unfolding a_def by simp_all
  have b: "2 ^ b \<le> d" "d < 2 * 2 ^ b"
    using nlog2_bounds [of d] d unfolding b_def by simp_all
  have "(of_int (2 ^ a) :: rat) \<le> of_int n" "(of_int n :: rat) < of_int (2 * 2 ^ a)"
    unfolding of_int_le_iff of_int_less_iff by (rule a)+
  then have ra: "(2::rat) ^ a \<le> of_int n" "(of_int n :: rat) < 2 * 2 ^ a" by simp_all
  have "(of_int (2 ^ b) :: rat) \<le> of_int d" "(of_int d :: rat) < of_int (2 * 2 ^ b)"
    unfolding of_int_le_iff of_int_less_iff by (rule b)+
  then have rb: "(2::rat) ^ b \<le> of_int d" "(of_int d :: rat) < 2 * 2 ^ b" by simp_all
  let ?k = "int a - int b"
  have k: "pow2 ?k = 2 ^ a / 2 ^ b"
    by (simp add: pow2_powi power_int_diff)
  have up: "x < pow2 (?k + 1)"
  proof -
    have "x < 2 * 2 ^ a / 2 ^ b"
      unfolding x using ra rb d n by (intro frac_less) auto
    then show ?thesis by (simp add: pow2_add k mult.commute)
  qed
  have lo: "pow2 (?k - 1) \<le> x"
  proof -
    have "2 ^ a / (2 * 2 ^ b) \<le> x"
      unfolding x using ra rb d n by (intro frac_le) auto
    moreover have "pow2 (?k - 1) = 2 ^ a / (2 * 2 ^ b)"
      by (simp add: pow2_powi power_int_diff)
    ultimately show ?thesis by simp
  qed
  have "ilog2 x = (if pow2 ?k \<le> x then ?k else ?k - 1)"
    by (simp add: ilog2_def q a_def b_def)
  with up lo show ?thesis by auto
qed

lemma ilog2_unique: "0 < x \<Longrightarrow> pow2 k \<le> x \<Longrightarrow> x < pow2 (k + 1) \<Longrightarrow> ilog2 x = k"
  using ilog2_bounds [of x] pow2_less_iff [of "ilog2 x" "k + 1"] pow2_less_iff [of k "ilog2 x + 1"]
  by linarith

lemma ilog2_mono: "0 < x \<Longrightarrow> x \<le> y \<Longrightarrow> ilog2 x \<le> ilog2 y"
  using ilog2_bounds [of x] ilog2_bounds [of y] pow2_less_iff [of "ilog2 x" "ilog2 y + 1"]
  by linarith

section \<open>Rounding to binary64\<close>

definition round_even :: "rat \<Rightarrow> int" where
  "round_even x = (let f = \<lfloor>x\<rfloor>; r = x - of_int f
     in if r < 1 / 2 then f else if r > 1 / 2 then f + 1 else if even f then f else f + 1)"

definition fl_pos :: "rat \<Rightarrow> rat" where
  "fl_pos x = (let u = pow2 (ilog2 x - 52) in of_int (round_even (x / u)) * u)"

definition fl :: "rat \<Rightarrow> rat" where
  "fl x = (if x = 0 then 0 else if 0 < x then fl_pos x else - fl_pos (- x))"

lemma round_even_of_int [simp]: "round_even (of_int n) = n"
  by (simp add: round_even_def)

lemma round_even_mono: "x \<le> y \<Longrightarrow> round_even x \<le> round_even y"
proof (cases "\<lfloor>x\<rfloor> = \<lfloor>y\<rfloor>")
  case True
  moreover assume "x \<le> y"
  ultimately show ?thesis by (auto simp: round_even_def Let_def)
next
  case False
  moreover assume "x \<le> y"
  ultimately have "\<lfloor>x\<rfloor> + 1 \<le> \<lfloor>y\<rfloor>" using floor_mono [of x y] by linarith
  then show ?thesis by (auto simp: round_even_def Let_def)
qed

lemma round_even_error: "\<bar>of_int (round_even x) - x\<bar> \<le> 1 / 2"
proof -
  have "of_int \<lfloor>x\<rfloor> \<le> x" "x < of_int \<lfloor>x\<rfloor> + 1" by linarith+
  then show ?thesis by (auto simp: round_even_def Let_def abs_le_iff)
qed

lemma significand_bounds:
  assumes "0 < x"
  shows "2 ^ 52 \<le> x / pow2 (ilog2 x - 52) \<and> x / pow2 (ilog2 x - 52) < 2 ^ 53"
proof -
  have lo: "pow2 52 * pow2 (ilog2 x - 52) = pow2 (ilog2 x)"
    by (simp flip: pow2_add)
  have hi: "pow2 53 * pow2 (ilog2 x - 52) = pow2 (ilog2 x + 1)"
    by (simp add: add.commute flip: pow2_add)
  have "pow2 52 = 2 ^ 52" "pow2 53 = 2 ^ 53" by (simp_all add: pow2_def)
  with lo hi ilog2_bounds [OF assms] show ?thesis
    by (simp add: pos_le_divide_eq pos_divide_less_eq)
qed

lemma round_even_bounds:
  "of_int a \<le> x \<Longrightarrow> x \<le> of_int b \<Longrightarrow> a \<le> round_even x \<and> round_even x \<le> b"
  using round_even_mono [of "of_int a" x] round_even_mono [of x "of_int b"] by simp

lemma fl_pos_bounds:
  assumes "0 < x"
  shows "pow2 (ilog2 x) \<le> fl_pos x \<and> fl_pos x \<le> pow2 (ilog2 x + 1)"
proof -
  let ?u = "pow2 (ilog2 x - 52)"
  have "2 ^ 52 \<le> round_even (x / ?u) \<and> round_even (x / ?u) \<le> 2 ^ 53"
    using significand_bounds [OF assms] by (intro round_even_bounds) auto
  then have "(2 ^ 52 :: rat) \<le> of_int (round_even (x / ?u))"
    and "of_int (round_even (x / ?u)) \<le> (2 ^ 53 :: rat)"
    by (metis of_int_le_iff of_int_numeral of_int_power,
        metis of_int_le_iff of_int_numeral of_int_power)
  then have "2 ^ 52 * ?u \<le> fl_pos x" and "fl_pos x \<le> 2 ^ 53 * ?u"
    by (simp_all add: fl_pos_def Let_def mult_right_mono)
  moreover have "2 ^ 52 * ?u = pow2 (ilog2 x)" and "2 ^ 53 * ?u = pow2 (ilog2 x + 1)"
    using pow2_add [of 52 "ilog2 x - 52"] pow2_add [of 53 "ilog2 x - 52"]
    by (simp_all add: pow2_def [of 52] pow2_def [of 53] add.commute)
  ultimately show ?thesis by simp
qed

lemma fl_pos_pos: "0 < x \<Longrightarrow> 0 < fl_pos x"
  using fl_pos_bounds [of x] pow2_pos [of "ilog2 x"] by linarith

lemma fl_pos_mono:
  assumes "0 < x" and "x \<le> y"
  shows "fl_pos x \<le> fl_pos y"
proof (cases "ilog2 x = ilog2 y")
  case True
  let ?u = "pow2 (ilog2 y - 52)"
  have "round_even (x / ?u) \<le> round_even (y / ?u)"
    using assms(2) by (intro round_even_mono divide_right_mono) (auto simp: less_imp_le)
  then have "(of_int (round_even (x / ?u)) :: rat) \<le> of_int (round_even (y / ?u))"
    by (simp only: of_int_le_iff)
  then show ?thesis using True by (simp add: fl_pos_def Let_def mult_right_mono less_imp_le)
next
  case False
  with ilog2_mono [OF assms] have "pow2 (ilog2 x + 1) \<le> pow2 (ilog2 y)"
    by (intro pow2_mono) simp
  with fl_pos_bounds [of x] fl_pos_bounds [of y] assms show ?thesis by linarith
qed

lemma fl_0 [simp]: "fl 0 = 0"
  by (simp add: fl_def)

lemma fl_uminus: "fl (- x) = - fl x"
  by (auto simp: fl_def)

theorem fl_mono: "x \<le> y \<Longrightarrow> fl x \<le> fl y"
  using fl_pos_pos [of y] fl_pos_pos [of "- x"] fl_pos_mono [of x y] fl_pos_mono [of "- y" "- x"]
  by (auto simp: fl_def not_less)

text \<open>A value with a significand of at most 53 bits is a binary64 number: rounding keeps it.\<close>

lemma fl_pos_exact:
  assumes "0 < x" and "x = of_int m * pow2 k" and "\<bar>m\<bar> < 2 ^ 53"
  shows "fl_pos x = x"
proof -
  have m: "0 < m" using assms(1,2) pow2_pos [of k] by (auto simp: zero_less_mult_iff)
  let ?e = "ilog2 x"
  have "x < pow2 53 * pow2 k"
  proof -
    have "(of_int m :: rat) < 2 ^ 53"
      using assms(3) m by (metis abs_of_pos of_int_less_iff of_int_numeral of_int_power)
    then show ?thesis using assms(2) by (simp add: pow2_def [of 53])
  qed
  then have "pow2 ?e < pow2 (53 + k)"
    using ilog2_bounds [OF assms(1)] by (simp add: pow2_add)
  then have k: "?e - 52 \<le> k" by (simp add: pow2_less_iff)
  have "x / pow2 (?e - 52) = of_int m * pow2 (k - (?e - 52))"
    using assms(2) by (simp add: pow2_powi power_int_diff)
  also have "\<dots> = of_int (m * 2 ^ nat (k - (?e - 52)))"
    using k by (simp add: pow2_def)
  finally have q: "x / pow2 (?e - 52) = of_int (m * 2 ^ nat (k - (?e - 52)))" .
  have "fl_pos x = of_int (round_even (x / pow2 (?e - 52))) * pow2 (?e - 52)"
    by (simp only: fl_pos_def Let_def)
  also have "\<dots> = x / pow2 (?e - 52) * pow2 (?e - 52)"
    by (simp only: q round_even_of_int)
  finally show ?thesis by simp
qed

lemma fl_exact:
  assumes "x = of_int m * pow2 k" and "\<bar>m\<bar> < 2 ^ 53"
  shows "fl x = x"
proof -
  consider "x = 0" | "0 < x" | "0 < - x" by linarith
  then show ?thesis
  proof cases
    case 3
    with fl_pos_exact [of "- x" "- m" k] assms show ?thesis by (simp add: fl_def)
  qed (use fl_pos_exact [of x m k] assms in \<open>auto simp: fl_def\<close>)
qed

lemma fl_int: "\<bar>n\<bar> < 2 ^ 53 \<Longrightarrow> fl (of_int n) = of_int n"
  by (rule fl_exact [of _ n 0]) auto

lemma fl_error: "\<bar>fl x - x\<bar> \<le> \<bar>x\<bar> / 2 ^ 53"
proof -
  have pos: "\<bar>fl_pos y - y\<bar> \<le> y / 2 ^ 53" if y: "0 < y" for y
  proof -
    let ?u = "pow2 (ilog2 y - 52)"
    have "fl_pos y - y = (of_int (round_even (y / ?u)) - y / ?u) * ?u"
      by (simp add: fl_pos_def Let_def left_diff_distrib)
    then have "\<bar>fl_pos y - y\<bar> \<le> 1 / 2 * ?u"
      using round_even_error [of "y / ?u"] by (simp add: abs_mult less_imp_le)
    moreover have "2 ^ 52 * ?u \<le> y"
      using significand_bounds [OF y] by (simp add: pos_le_divide_eq)
    ultimately show ?thesis by (simp add: field_simps)
  qed
  consider "x = 0" | "0 < x" | "0 < - x" by linarith
  then show ?thesis
  proof cases
    case 3
    with pos [of "- x"] show ?thesis by (simp add: fl_def)
  qed (use pos [of x] in \<open>auto simp: fl_def\<close>)
qed

section \<open>Math.round, Math.floor, Math.ceil and toFixed\<close>

text \<open>\<open>Math.round\<close> takes a tie towards plus infinity.\<close>

definition js_round :: "rat \<Rightarrow> int" where
  "js_round x = \<lfloor>x + 1 / 2\<rfloor>"

text \<open>\<open>Number(x.toFixed(d))\<close>: the nearest decimal of \<open>d\<close> places, read back as a binary64.\<close>

definition to_fixed :: "nat \<Rightarrow> rat \<Rightarrow> rat" where
  "to_fixed d x = (let n = js_round (\<bar>x\<bar> * 10 ^ d) in (if x < 0 then - 1 else 1) * of_int n / 10 ^ d)"

definition number_of_to_fixed :: "nat \<Rightarrow> rat \<Rightarrow> rat" where
  "number_of_to_fixed d x = fl (to_fixed d x)"

lemma js_round_of_int [simp]: "js_round (of_int n) = n"
  by (simp add: js_round_def floor_unique)

lemma js_round_mono: "x \<le> y \<Longrightarrow> js_round x \<le> js_round y"
  by (simp add: js_round_def floor_mono)

lemma js_round_bounds:
  "of_int a \<le> x \<Longrightarrow> x \<le> of_int b \<Longrightarrow> a \<le> js_round x \<and> js_round x \<le> b"
  using js_round_mono [of "of_int a" x] js_round_mono [of x "of_int b"] by simp

lemma js_round_near: "\<bar>x - of_int n\<bar> < 1 / 2 \<Longrightarrow> js_round x = n"
  unfolding js_round_def by (rule floor_unique) linarith+

lemma js_round_error: "\<bar>of_int (js_round x) - x\<bar> \<le> 1 / 2"
  unfolding js_round_def by linarith

text \<open>
  The quotient is rounded to binary64 before the floor is taken; for amounts below
  \<open>2 ^ 53\<close> the rounding error is smaller than the gap to the next integer.
\<close>

lemma floor_fl_div:
  assumes "0 \<le> a" and "a < 2 ^ 53" and "0 < n"
  shows "\<lfloor>fl (of_int a / of_int n)\<rfloor> = a div n"
proof (rule floor_unique)
  let ?x = "of_int a / of_int n :: rat"
  have div: "a div n = \<lfloor>?x\<rfloor>" by (simp add: floor_divide_of_int_eq)
  have "a div n \<le> a" using zdiv_mono2 [of a 1 n] assms by simp
  moreover have "0 \<le> a div n" using assms by (simp add: pos_imp_zdiv_nonneg_iff)
  ultimately have "\<bar>a div n\<bar> < 2 ^ 53" using assms(2) by linarith
  then have "fl (of_int (a div n)) = of_int (a div n)" by (rule fl_int)
  moreover have "fl (of_int (a div n)) \<le> fl ?x" unfolding div by (rule fl_mono) linarith
  ultimately show "of_int (a div n) \<le> fl ?x" by simp
  have "\<bar>fl ?x - ?x\<bar> \<le> \<bar>?x\<bar> / 2 ^ 53" by (rule fl_error)
  moreover have "\<bar>?x\<bar> / 2 ^ 53 < 1 / of_int n"
  proof -
    have "(of_int a :: rat) < 2 ^ 53" using assms(2)
      by (metis of_int_less_iff of_int_numeral of_int_power)
    with assms show ?thesis by (simp add: field_simps)
  qed
  moreover have "?x + 1 / of_int n \<le> of_int (a div n) + 1"
  proof -
    have "a + 1 \<le> (a div n + 1) * n"
      unfolding distrib_right using pos_mod_bound [OF assms(3), of a] div_mult_mod_eq [of a n]
      by linarith
    then have "(of_int (a + 1) :: rat) \<le> of_int ((a div n + 1) * n)" by (simp only: of_int_le_iff)
    with assms(3) show ?thesis by (simp add: field_simps)
  qed
  ultimately show "fl ?x < of_int (a div n) + 1" by linarith
qed

end
