(* ===== verification/SplitMath.thy ===== *)
theory SplitMath
  imports JsNum
begin

text \<open>
  The arithmetic of shared expenses, \<open>domain/split/split.ts\<close> with the types of
  \<open>domain/split/types.ts\<close>: dividing an amount into shares, checking explicit shares,
  the net position of each member, and the list of payments that settles a group.
  Amounts are whole minor units, of any size a client sends (a \<open>num\<close>): the code checks only that they are whole, so
  sums and products are those of binary64, which are exact below \<open>2 ^ 53\<close>.
\<close>

section \<open>Arithmetic of whole numbers\<close>

text \<open>
  The sum and the product of two whole numbers, rounded to binary64: whole again. What is left out is the overflow to
  \<open>Infinity\<close> above \<open>2 ^ 1023\<close>.
\<close>

definition nadd :: "int \<Rightarrow> int \<Rightarrow> int" where
  "nadd a b = \<lfloor>fl (of_int (a + b))\<rfloor>"

definition nmul :: "int \<Rightarrow> int \<Rightarrow> int" where
  "nmul a b = \<lfloor>fl (of_int (a * b))\<rfloor>"

lemma fl_int_le: "\<bar>n\<bar> \<le> 2 ^ 53 \<Longrightarrow> fl (of_int n) = of_int n"
proof (cases "\<bar>n\<bar> < 2 ^ 53")
  case False
  moreover assume "\<bar>n\<bar> \<le> 2 ^ 53"
  ultimately have "\<bar>n\<bar> = 2 ^ 53" by linarith
  then have "n = sgn n * 2 ^ 53" "\<bar>sgn n\<bar> < 2 ^ 53" by (auto simp: abs_if split: if_splits)
  moreover from this have "(of_int n :: rat) = of_int (sgn n) * pow2 53" by (metis of_int_mult of_int_numeral of_int_power pow2_nat of_nat_numeral)
  ultimately show ?thesis using fl_exact [of "of_int n" "sgn n" 53] by blast
qed (rule fl_int)

lemma nadd_exact [simp]: "\<bar>a + b\<bar> \<le> 2 ^ 53 \<Longrightarrow> nadd a b = a + b"
  unfolding nadd_def by (simp only: fl_int_le floor_of_int)

lemma nmul_exact: "\<bar>a * b\<bar> \<le> 2 ^ 53 \<Longrightarrow> nmul a b = a * b"
  unfolding nmul_def by (simp only: fl_int_le floor_of_int)

lemma nadd_uminus [simp]: "nadd a (- a) = 0"
  by (simp add: nadd_def)

text \<open>Once beyond the range of exact sums, a sum of positive numbers stays there.\<close>

lemma nadd_beyond: "2 ^ 53 \<le> a + b \<Longrightarrow> 2 ^ 53 \<le> nadd a b"
proof -
  assume "2 ^ 53 \<le> a + b"
  then have "fl (of_int (2 ^ 53)) \<le> fl (of_int (a + b))" by (intro fl_mono) (simp only: of_int_le_iff)
  moreover have "fl (of_int (2 ^ 53)) = of_int (2 ^ 53)" by (rule fl_int_le) simp
  ultimately show ?thesis unfolding nadd_def by (simp only: le_floor_iff)
qed

section \<open>Types\<close>

datatype splitMethod = Equal | Shares

datatype 'n share = Share (share_user: string) (share_amount: 'n)

record splitParticipant =
  pt_expenseId :: string
  pt_userId :: string
  pt_amount :: int

record splitExpense =
  ex_id :: string
  ex_groupId :: string
  ex_description :: string
  ex_category :: string
  ex_amount :: int
  ex_currency :: string
  ex_paidBy :: string
  ex_method :: splitMethod
  ex_date :: string
  ex_createdAt :: string
  ex_participants :: "splitParticipant list"

record splitSettlement =
  st_id :: string
  st_groupId :: string
  st_from :: string
  st_to :: string
  st_amount :: int
  st_currency :: string
  st_note :: string
  st_createdAt :: string

datatype suggestion = Suggestion (sg_from: string) (sg_to: string) (sg_amount: int)

datatype range_error =
    AmountNotPositiveInteger
  | NoMember
  | ShareNotPositiveInteger
  | DuplicateShare
  | SharesTotal int num

section \<open>Dividing an amount\<close>

text \<open>
  \<open>memberIds.map\<close> with the closure's \<open>remainder\<close> counted down: the callback of the map is
  called from left to right.
\<close>

fun split_map :: "int \<Rightarrow> int \<Rightarrow> string list \<Rightarrow> int share list" where
  "split_map base remainder [] = []"
| "split_map base remainder (userId # rest) =
     (let extra = (if remainder > 0 then 1 else 0)
      in Share userId (nadd base extra) # split_map base (nadd remainder (- extra)) rest)"

definition splitEqually :: "num \<Rightarrow> string list \<Rightarrow> range_error + int share list" where
  "splitEqually amount memberIds =
     (if \<not> isInteger amount \<or> num_le amount 0 then Inl AmountNotPositiveInteger
      else if memberIds = [] then Inl NoMember
      else let a = int_of_num amount;
               n = int (length memberIds);
               base = \<lfloor>fl (of_int a / of_int n)\<rfloor>;
               remainder = nadd a (- nmul base n)
           in Inr (split_map base remainder memberIds))"

fun check_shares :: "num \<Rightarrow> string list \<Rightarrow> int \<Rightarrow> num share list \<Rightarrow> range_error + unit" where
  "check_shares amount seen acc [] =
     (if Num (of_int acc) \<noteq> amount then Inl (SharesTotal acc amount) else Inr ())"
| "check_shares amount seen acc (share # rest) =
     (if \<not> isInteger (share_amount share) \<or> num_le (share_amount share) 0
      then Inl ShareNotPositiveInteger
      else if share_user share \<in> set seen then Inl DuplicateShare
      else check_shares amount (set_add (share_user share) seen)
             (nadd acc (int_of_num (share_amount share))) rest)"

definition assertSharesReconcile :: "num \<Rightarrow> num share list \<Rightarrow> range_error + unit" where
  "assertSharesReconcile amount shares = check_shares amount [] 0 shares"

section \<open>Net positions\<close>

definition bump :: "string \<Rightarrow> int \<Rightarrow> (string, int) jsmap \<Rightarrow> (string, int) jsmap" where
  "bump userId delta balances = map_set userId (nadd (get_or balances userId 0) delta) balances"

definition bump_expense :: "string \<Rightarrow> (string, int) jsmap \<Rightarrow> splitExpense \<Rightarrow> (string, int) jsmap" where
  "bump_expense currency balances expense =
     (if ex_currency expense \<noteq> currency then balances
      else foldl (\<lambda>b p. bump (pt_userId p) (- pt_amount p) b)
             (bump (ex_paidBy expense) (ex_amount expense) balances)
             (ex_participants expense))"

definition bump_settlement ::
  "string \<Rightarrow> (string, int) jsmap \<Rightarrow> splitSettlement \<Rightarrow> (string, int) jsmap" where
  "bump_settlement currency balances settlement =
     (if st_currency settlement \<noteq> currency then balances
      else bump (st_to settlement) (- st_amount settlement)
             (bump (st_from settlement) (st_amount settlement) balances))"

definition computeNetBalances ::
  "splitExpense list \<Rightarrow> splitSettlement list \<Rightarrow> string \<Rightarrow> (string, int) jsmap" where
  "computeNetBalances expenses settlements currency =
     foldl (bump_settlement currency) (foldl (bump_expense currency) [] expenses) settlements"

definition balancesFor :: "(string, int) jsmap \<Rightarrow> string list \<Rightarrow> (string \<times> int) list" where
  "balancesFor balances memberIds = map (\<lambda>u. (u, get_or balances u 0)) memberIds"

section \<open>Suggested payments\<close>

definition by_amount_desc :: "int share \<Rightarrow> int share \<Rightarrow> int" where
  "by_amount_desc a b = share_amount b - share_amount a"

text \<open>One iteration of the while loop: the payment, and both lists after the shifts.\<close>

fun settle_head :: "int share \<Rightarrow> int share list \<Rightarrow> int \<Rightarrow> int share list" where
  "settle_head c rest amount =
     (if nadd (share_amount c) (- amount) = 0 then rest
      else Share (share_user c) (nadd (share_amount c) (- amount)) # rest)"

lemma js_sort_Cons_length: "js_sort cmp xs = y # ys \<Longrightarrow> length xs = Suc (length ys)"
  by (metis length_Cons length_js_sort)

lemma settle_head_length:
  "length (settle_head c cs m) \<le> Suc (length cs)"
  "m = share_amount c \<Longrightarrow> length (settle_head c cs m) = length cs"
  by simp_all

function settle_loop :: "int share list \<Rightarrow> int share list \<Rightarrow> suggestion list" where
  "settle_loop creditors debtors =
     (case (js_sort by_amount_desc creditors, js_sort by_amount_desc debtors) of
        (c # cs, d # ds) \<Rightarrow>
          (let amount = min (share_amount c) (share_amount d)
           in Suggestion (share_user d) (share_user c) amount #
                settle_loop (settle_head c cs amount) (settle_head d ds amount))
      | _ \<Rightarrow> [])"
  by pat_completeness auto

termination
proof (relation "measure (\<lambda>(cs, ds). length cs + length ds)")
  fix creditors debtors cs ds amount and c d :: "int share"
  fix x y :: "int share list"
  assume "(x, y) = (js_sort by_amount_desc creditors, js_sort by_amount_desc debtors)"
    and "x = c # cs" and "y = d # ds" and m: "amount = min (share_amount c) (share_amount d)"
  then have "length creditors = Suc (length cs)" and "length debtors = Suc (length ds)"
    by (metis js_sort_Cons_length prod.inject)+
  moreover have "amount = share_amount c \<or> amount = share_amount d" using m by linarith
  ultimately show "((settle_head c cs amount, settle_head d ds amount), creditors, debtors)
      \<in> measure (\<lambda>(cs, ds). length cs + length ds)"
    using settle_head_length(1) [of c cs amount] settle_head_length(2) [of amount c cs]
      settle_head_length(1) [of d ds amount] settle_head_length(2) [of amount d ds] by auto
qed simp

definition creditors_of :: "(string, int) jsmap \<Rightarrow> int share list" where
  "creditors_of balances = map (\<lambda>(u, v). Share u v) (filter (\<lambda>(u, v). v > 0) balances)"

definition debtors_of :: "(string, int) jsmap \<Rightarrow> int share list" where
  "debtors_of balances = map (\<lambda>(u, v). Share u (- v)) (filter (\<lambda>(u, v). v < 0) balances)"

definition suggestSettlements :: "(string, int) jsmap \<Rightarrow> suggestion list" where
  "suggestSettlements balances = settle_loop (creditors_of balances) (debtors_of balances)"

declare settle_loop.simps [simp del]

section \<open>Facts on shares\<close>

lemma split_map_users [simp]: "map share_user (split_map b r us) = us"
  by (induction us arbitrary: r) (auto simp: Let_def)

lemma length_split_map [simp]: "length (split_map b r us) = length us"
  by (metis length_map split_map_users)

lemma split_map_sum:
  "0 \<le> b \<Longrightarrow> b < 2 ^ 53 \<Longrightarrow> 0 \<le> r \<Longrightarrow> r \<le> int (length us) \<Longrightarrow> r < 2 ^ 53 \<Longrightarrow>
   sum_list (map share_amount (split_map b r us)) = b * int (length us) + r"
  by (induction us arbitrary: r) (auto simp: Let_def algebra_simps)

lemma split_map_nth:
  "i < length us \<Longrightarrow> 0 \<le> b \<Longrightarrow> b < 2 ^ 53 \<Longrightarrow> 0 \<le> r \<Longrightarrow> r < 2 ^ 53 \<Longrightarrow>
   share_amount (split_map b r us ! i) = b + (if int i < r then 1 else 0)"
  by (induction us arbitrary: r i) (auto simp: Let_def nth_Cons split: nat.splits)

lemma splitEqually_ok:
  assumes "0 < a" and "a < 2 ^ 53" and "us \<noteq> []"
  shows "splitEqually (Num (of_int a)) us =
    Inr (split_map (a div int (length us)) (a mod int (length us)) us)"
proof -
  let ?n = "int (length us)"
  have n: "0 < ?n" using assms(3) by simp
  define q where "q = a div ?n * ?n"
  have "0 \<le> q" using assms(1) n by (simp add: q_def pos_imp_zdiv_nonneg_iff)
  moreover have "a - q = a mod ?n" unfolding q_def by (rule minus_div_mult_eq_mod)
  moreover have "0 \<le> a mod ?n" using n by simp
  ultimately have "nmul (a div ?n) ?n = q" and "nadd a (- q) = a mod ?n"
    using assms(2) by (simp_all add: nmul_exact q_def [symmetric])
  then have "nadd a (- nmul (a div ?n) ?n) = a mod ?n" by simp
  then show ?thesis
    using floor_fl_div [of a ?n] assms n by (simp add: splitEqually_def Let_def)
qed

lemma share_bounds:
  assumes "0 < a" and "a < 2 ^ 53" and "us \<noteq> []"
  shows "0 \<le> a div int (length us)" and "a div int (length us) < 2 ^ 53"
    and "0 \<le> a mod int (length us)" and "a mod int (length us) < 2 ^ 53"
    and "a mod int (length us) \<le> int (length us)"
proof -
  let ?n = "int (length us)"
  have n: "0 < ?n" using assms(3) by simp
  show "0 \<le> a div ?n" "0 \<le> a mod ?n" using assms(1) n by (simp_all add: pos_imp_zdiv_nonneg_iff)
  show "a div ?n < 2 ^ 53" using zdiv_mono2 [of a 1 ?n] assms n by simp
  show "a mod ?n < 2 ^ 53" using zmod_le_nonneg_dividend [of a ?n] assms by simp
  show "a mod ?n \<le> ?n" using pos_mod_bound [OF n, of a] by simp
qed

section \<open>Facts on balances\<close>

text \<open>The entries of a group as changes of one position each, in the order in which they are posted.\<close>

definition expense_entries :: "splitExpense \<Rightarrow> (string \<times> int) list" where
  "expense_entries e = (ex_paidBy e, ex_amount e) # map (\<lambda>p. (pt_userId p, - pt_amount p)) (ex_participants e)"

definition settlement_entries :: "splitSettlement \<Rightarrow> (string \<times> int) list" where
  "settlement_entries x = [(st_from x, st_amount x), (st_to x, - st_amount x)]"

definition entries :: "splitExpense list \<Rightarrow> splitSettlement list \<Rightarrow> string \<Rightarrow> (string \<times> int) list" where
  "entries es ss c = concat (map expense_entries (filter (\<lambda>e. ex_currency e = c) es)) @
     concat (map settlement_entries (filter (\<lambda>x. st_currency x = c) ss))"

definition post :: "(string, int) jsmap \<Rightarrow> (string \<times> int) list \<Rightarrow> (string, int) jsmap" where
  "post b ds = foldl (\<lambda>b (u, d). bump u d b) b ds"

lemma post_append: "post b (ds @ ds') = post (post b ds) ds'"
  by (simp add: post_def)

lemma post_expense: "ex_currency e = c \<Longrightarrow> bump_expense c b e = post b (expense_entries e)"
  by (simp add: bump_expense_def post_def expense_entries_def foldl_map)

lemma post_settlement: "st_currency x = c \<Longrightarrow> bump_settlement c b x = post b (settlement_entries x)"
  by (simp add: bump_settlement_def post_def settlement_entries_def)

lemma computeNetBalances_post: "computeNetBalances es ss c = post [] (entries es ss c)"
proof -
  have "foldl (bump_expense c) b es = post b (concat (map expense_entries (filter (\<lambda>e. ex_currency e = c) es)))" for b
  proof (induction es arbitrary: b)
    case (Cons e es)
    then show ?case
      by (cases "ex_currency e = c") (simp_all add: post_expense post_append, simp add: bump_expense_def)
  qed (simp add: post_def)
  moreover have "foldl (bump_settlement c) b ss = post b (concat (map settlement_entries (filter (\<lambda>x. st_currency x = c) ss)))" for b
  proof (induction ss arbitrary: b)
    case (Cons x ss)
    then show ?case
      by (cases "st_currency x = c") (simp_all add: post_settlement post_append, simp add: bump_settlement_def)
  qed (simp add: post_def)
  ultimately show ?thesis by (simp add: computeNetBalances_def entries_def post_append)
qed

text \<open>
  The volume of a group is all that was ever entered, without signs. As long as it is below \<open>2 ^ 53\<close>, every sum the
  code makes is exact.
\<close>

definition moved :: "(string \<times> int) list \<Rightarrow> int" where
  "moved ds = sum_list (map (\<lambda>(u, d). \<bar>d\<bar>) ds)"

definition volume :: "splitExpense list \<Rightarrow> splitSettlement list \<Rightarrow> int" where
  "volume es ss = sum_list (map (\<lambda>e. moved (expense_entries e)) es) + sum_list (map (\<lambda>x. moved (settlement_entries x)) ss)"

lemma moved_nonneg [simp]: "0 \<le> moved ds"
  by (auto simp: moved_def intro!: sum_list_nonneg)

lemma moved_simps [simp]: "moved [] = 0" "moved ((u, d) # ds) = \<bar>d\<bar> + moved ds" "moved (ds @ ds') = moved ds + moved ds'"
  by (simp_all add: moved_def)

lemma moved_filter: "moved (concat (map f (filter P xs))) \<le> sum_list (map (\<lambda>x. moved (f x)) xs)"
  by (induction xs) (auto simp: add_increasing)

lemma moved_entries: "moved (entries es ss c) \<le> volume es ss"
  unfolding volume_def entries_def moved_simps by (intro add_mono moved_filter)

lemma volume_append: "volume es (ss @ paid) = volume es ss + sum_list (map (\<lambda>x. moved (settlement_entries x)) paid)"
  by (simp add: volume_def)

lemma volume_grows: "volume es ss \<le> volume es (ss @ paid)"
  unfolding volume_append by (auto intro!: sum_list_nonneg)

definition position :: "(string \<times> int) list \<Rightarrow> string \<Rightarrow> int" where
  "position ds v = sum_list (map (\<lambda>(u, d). if u = v then d else 0) ds)"

lemma post_facts:
  assumes "distinct (map fst b)" and "\<And>v. \<bar>get_or b v 0\<bar> + moved ds < 2 ^ 53"
  shows "distinct (map fst (post b ds)) \<and> get_or (post b ds) v 0 = get_or b v 0 + position ds v \<and>
    map_total (post b ds) = map_total b + sum_list (map snd ds)"
  using assms
proof (induction ds arbitrary: b)
  case (Cons p ds)
  obtain u d where p: "p = (u, d)" by force
  have "\<bar>get_or b u 0\<bar> + \<bar>d\<bar> + moved ds < 2 ^ 53" using Cons.prems(2) [of u] by (simp add: p)
  then have "\<bar>get_or b u 0 + d\<bar> \<le> 2 ^ 53" using moved_nonneg [of ds] by linarith
  then have step: "bump u d b = map_set u (get_or b u 0 + d) b" by (simp add: bump_def)
  have "\<bar>get_or (bump u d b) w 0\<bar> + moved ds < 2 ^ 53" for w
    using Cons.prems(2) [of w] by (auto simp: p step)
  with Cons.IH [of "bump u d b"] Cons.prems(1) show ?case
    by (simp add: p step distinct_map_set map_total_set post_def position_def)
qed (simp add: post_def position_def)

lemma position_bound: "\<bar>position ds v\<bar> \<le> moved ds"
proof (induction ds)
  case (Cons p ds)
  then show ?case by (cases p) (auto simp: position_def)
qed (simp add: position_def)

text \<open>An expense whose participants' amounts sum to its amount, as the service creates it.\<close>

definition balanced_expense :: "splitExpense \<Rightarrow> bool" where
  "balanced_expense e \<longleftrightarrow> sum_list (map pt_amount (ex_participants e)) = ex_amount e"

lemma entries_cancel: "list_all balanced_expense es \<Longrightarrow> sum_list (map snd (entries es ss c)) = 0"
proof -
  assume b: "list_all balanced_expense es"
  have neg: "sum_list (map (\<lambda>p. - pt_amount p) ps) = - sum_list (map pt_amount ps)" for ps
    by (induction ps) simp_all
  have "sum_list (map snd (concat (map expense_entries (filter P es)))) = 0" for P
    using b by (induction es) (auto simp: expense_entries_def balanced_expense_def comp_def neg)
  moreover have "sum_list (map snd (concat (map settlement_entries (filter P ss)))) = 0" for P
    by (induction ss) (auto simp: settlement_entries_def)
  ultimately show ?thesis by (simp add: entries_def)
qed

text \<open>What each kind of entry contributes to a member's position.\<close>

definition expense_effect :: "string \<Rightarrow> string \<Rightarrow> splitExpense \<Rightarrow> int" where
  "expense_effect c v e = (if ex_currency e \<noteq> c then 0
     else (if ex_paidBy e = v then ex_amount e else 0)
        - sum_list (map pt_amount (filter (\<lambda>p. pt_userId p = v) (ex_participants e))))"

definition settlement_effect :: "string \<Rightarrow> string \<Rightarrow> splitSettlement \<Rightarrow> int" where
  "settlement_effect c v s = (if st_currency s \<noteq> c then 0
     else (if st_from s = v then st_amount s else 0) - (if st_to s = v then st_amount s else 0))"

lemma position_entries:
  "position (entries es ss c) v = sum_list (map (expense_effect c v) es) + sum_list (map (settlement_effect c v) ss)"
proof -
  have app: "position (ds @ ds') v = position ds v + position ds' v" for ds ds' by (simp add: position_def)
  have ps: "position (map (\<lambda>p. (pt_userId p, - pt_amount p)) ps) v =
      - sum_list (map pt_amount (filter (\<lambda>p. pt_userId p = v) ps))" for ps
    by (induction ps) (auto simp: position_def)
  have e: "position (expense_entries e) v = expense_effect c v e" if "ex_currency e = c" for e
    using ps [of "ex_participants e"] that by (auto simp: expense_entries_def expense_effect_def position_def)
  have x: "position (settlement_entries x) v = settlement_effect c v x" if "st_currency x = c" for x
    using that by (auto simp: settlement_entries_def settlement_effect_def position_def)
  have "position (concat (map expense_entries (filter (\<lambda>e. ex_currency e = c) es))) v =
      sum_list (map (expense_effect c v) es)"
    by (induction es) (auto simp: app e position_def [of "[]"], simp add: expense_effect_def)
  moreover have "position (concat (map settlement_entries (filter (\<lambda>x. st_currency x = c) ss))) v =
      sum_list (map (settlement_effect c v) ss)"
    by (induction ss) (auto simp: app x position_def [of "[]"], simp add: settlement_effect_def)
  ultimately show ?thesis by (simp add: entries_def app)
qed

text \<open>Below that volume the balances are those of exact arithmetic.\<close>

lemma net_balances:
  assumes "volume es ss < 2 ^ 53"
  shows "distinct (map fst (computeNetBalances es ss c))"
    and "get_or (computeNetBalances es ss c) v 0 =
      sum_list (map (expense_effect c v) es) + sum_list (map (settlement_effect c v) ss)"
    and "\<bar>get_or (computeNetBalances es ss c) v 0\<bar> < 2 ^ 53"
    and "list_all balanced_expense es \<Longrightarrow> map_total (computeNetBalances es ss c) = 0"
proof -
  have v: "moved (entries es ss c) < 2 ^ 53" using moved_entries [of es ss c] assms by linarith
  then have f: "distinct (map fst (post [] (entries es ss c))) \<and>
      get_or (post [] (entries es ss c)) w 0 = position (entries es ss c) w \<and>
      map_total (post [] (entries es ss c)) = sum_list (map snd (entries es ss c))" for w
    using post_facts [of "[]" "entries es ss c" w] by (simp add: get_or_Nil map_total_def)
  show "distinct (map fst (computeNetBalances es ss c))"
    "get_or (computeNetBalances es ss c) v 0 =
      sum_list (map (expense_effect c v) es) + sum_list (map (settlement_effect c v) ss)"
    using f by (simp_all add: computeNetBalances_post position_entries)
  show "\<bar>get_or (computeNetBalances es ss c) v 0\<bar> < 2 ^ 53"
    using f v position_bound [of "entries es ss c" v] unfolding computeNetBalances_post by simp
  show "list_all balanced_expense es \<Longrightarrow> map_total (computeNetBalances es ss c) = 0"
    using f entries_cancel [of es ss c] by (simp add: computeNetBalances_post)
qed

section \<open>Facts on the suggested payments\<close>

definition owed :: "int share list \<Rightarrow> string \<Rightarrow> int" where
  "owed xs u = sum_list (map (\<lambda>s. if share_user s = u then share_amount s else 0) xs)"

definition positive_shares :: "int share list \<Rightarrow> bool" where
  "positive_shares xs \<longleftrightarrow> (\<forall>s \<in> set xs. 0 < share_amount s \<and> share_amount s < 2 ^ 53)"

definition paid_by :: "suggestion list \<Rightarrow> string \<Rightarrow> int" where
  "paid_by sgs u = sum_list (map (\<lambda>s. if sg_from s = u then sg_amount s else 0) sgs)"

definition received_by :: "suggestion list \<Rightarrow> string \<Rightarrow> int" where
  "received_by sgs u = sum_list (map (\<lambda>s. if sg_to s = u then sg_amount s else 0) sgs)"

abbreviation shares_total :: "int share list \<Rightarrow> int" where
  "shares_total xs \<equiv> sum_list (map share_amount xs)"

lemma owed_Cons: "owed (x # xs) u = (if share_user x = u then share_amount x else 0) + owed xs u"
  by (simp add: owed_def)

lemma owed_js_sort [simp]: "owed (js_sort cmp xs) u = owed xs u"
  by (simp add: owed_def sum_list_js_sort)

lemma positive_js_sort [simp]: "positive_shares (js_sort cmp xs) = positive_shares xs"
  by (simp add: positive_shares_def)

lemma settle_head_exact:
  assumes "positive_shares (c # cs)" and "0 < m" and "m \<le> share_amount c"
  shows "settle_head c cs m = (if share_amount c = m then cs else Share (share_user c) (share_amount c - m) # cs)"
proof -
  have "nadd (share_amount c) (- m) = share_amount c - m"
    using assms by (simp add: positive_shares_def)
  then show ?thesis by simp
qed

lemma settle_head_facts:
  assumes "positive_shares (c # cs)" and "0 < m" and "m \<le> share_amount c"
  shows "owed (settle_head c cs m) u = owed (c # cs) u - (if share_user c = u then m else 0)"
    and "shares_total (settle_head c cs m) = shares_total (c # cs) - m"
    and "positive_shares (settle_head c cs m)"
    and "share_user ` set (settle_head c cs m) \<subseteq> share_user ` set (c # cs)"
  using assms unfolding settle_head_exact [OF assms] by (auto simp: owed_Cons positive_shares_def)

lemma smaller_head:
  "positive_shares (c # cs) \<Longrightarrow> positive_shares (d # ds) \<Longrightarrow> m = min (share_amount c) (share_amount d) \<Longrightarrow>
   0 < m \<and> m \<le> share_amount c \<and> m \<le> share_amount d"
  by (simp add: positive_shares_def)

lemma positive_total_Nil: "positive_shares xs \<Longrightarrow> shares_total xs = 0 \<Longrightarrow> xs = []"
proof (induction xs)
  case (Cons x xs)
  have "0 \<le> shares_total xs"
    using Cons.prems(1) by (intro sum_list_nonneg) (auto simp: positive_shares_def less_imp_le)
  with Cons.prems show ?case by (simp add: positive_shares_def)
qed simp

text \<open>Induction over the loop, with the list of payments it has still to make.\<close>

lemma settle_loop_stop:
  "cs = [] \<or> ds = [] \<Longrightarrow> settle_loop cs ds = []"
  by (subst settle_loop.simps) (auto split: list.splits)

lemma settle_loop_step:
  "js_sort by_amount_desc cs = c # cs' \<Longrightarrow> js_sort by_amount_desc ds = d # ds' \<Longrightarrow>
   m = min (share_amount c) (share_amount d) \<Longrightarrow>
   settle_loop cs ds = Suggestion (share_user d) (share_user c) m #
     settle_loop (settle_head c cs' m) (settle_head d ds' m)"
  by (subst settle_loop.simps) (simp add: Let_def del: settle_head.simps)

lemma settle_induct [case_names Stop Step]:
  assumes stop: "\<And>cs ds. cs = [] \<or> ds = [] \<Longrightarrow> P cs ds []"
    and step: "\<And>cs ds c cs' d ds' m sgs.
      js_sort by_amount_desc cs = c # cs' \<Longrightarrow> js_sort by_amount_desc ds = d # ds' \<Longrightarrow>
      m = min (share_amount c) (share_amount d) \<Longrightarrow>
      P (settle_head c cs' m) (settle_head d ds' m) sgs \<Longrightarrow>
      P cs ds (Suggestion (share_user d) (share_user c) m # sgs)"
  shows "P cs ds (settle_loop cs ds)"
proof (induction cs ds rule: settle_loop.induct)
  case (1 cs ds)
  show ?case
  proof (cases "cs = [] \<or> ds = []")
    case True
    then show ?thesis by (simp add: settle_loop_stop stop)
  next
    case False
    then obtain c cs' d ds' where *: "js_sort by_amount_desc cs = c # cs'"
      "js_sort by_amount_desc ds = d # ds'"
      by (metis js_sort_Nil_iff neq_Nil_conv)
    have "P (settle_head c cs' (min (share_amount c) (share_amount d)))
            (settle_head d ds' (min (share_amount c) (share_amount d)))
            (settle_loop (settle_head c cs' (min (share_amount c) (share_amount d)))
            (settle_head d ds' (min (share_amount c) (share_amount d))))"
      using "1.IH" [OF refl *] by blast
    then show ?thesis unfolding settle_loop_step [OF * refl] by (rule step [OF * refl])
  qed
qed

text \<open>Sorting changes neither a user's amount nor the total nor the positivity of the list.\<close>

lemma sorted_list_facts:
  assumes "js_sort cmp xs = x # xs'"
  shows "owed xs u = owed (x # xs') u" and "shares_total xs = shares_total (x # xs')"
    and "positive_shares xs = positive_shares (x # xs')" and "length xs = Suc (length xs')"
    and "set xs = insert x (set xs')"
  using assms owed_js_sort [of cmp xs u] sum_list_js_sort [of share_amount cmp xs]
    positive_js_sort [of cmp xs] js_sort_Cons_length [OF assms] set_js_sort [of cmp xs]
  by simp_all

definition settled_by :: "int share list \<Rightarrow> int share list \<Rightarrow> suggestion list \<Rightarrow> bool" where
  "settled_by cs ds sgs \<longleftrightarrow>
     (\<forall>u. received_by sgs u = owed cs u \<and> paid_by sgs u = owed ds u)"

lemma settle_loop_settles:
  "positive_shares cs \<Longrightarrow> positive_shares ds \<Longrightarrow> shares_total cs = shares_total ds \<Longrightarrow>
   settled_by cs ds (settle_loop cs ds)"
proof (induction cs ds rule: settle_induct)
  case (Stop cs ds)
  then have "cs = [] \<and> ds = []" using positive_total_Nil by fastforce
  then show ?case by (simp add: settled_by_def received_by_def paid_by_def owed_def)
next
  case (Step cs ds c cs' d ds' m sgs)
  note c = sorted_list_facts [OF Step.hyps(1)] and d = sorted_list_facts [OF Step.hyps(2)]
  have p: "positive_shares (c # cs')" "positive_shares (d # ds')" using Step.prems by (simp_all only: c(3) d(3))
  note m = smaller_head [OF p Step.hyps(3)]
  note hc = settle_head_facts [OF p(1), of m] and hd = settle_head_facts [OF p(2), of m]
  have "settled_by (settle_head c cs' m) (settle_head d ds' m) sgs"
    using Step.prems m unfolding c(2) d(2)
    by (intro Step.IH) (simp_all add: hc hd del: settle_head.simps)
  then show ?case
    using m by (auto simp: settled_by_def received_by_def paid_by_def c(1) d(1) hc(1) hd(1)
        simp del: settle_head.simps)
qed

lemma settle_loop_positive:
  "positive_shares cs \<Longrightarrow> positive_shares ds \<Longrightarrow>
   \<forall>s \<in> set (settle_loop cs ds). 0 < sg_amount s \<and>
     sg_from s \<in> share_user ` set ds \<and> sg_to s \<in> share_user ` set cs"
proof (induction cs ds rule: settle_induct)
  case (Step cs ds c cs' d ds' m sgs)
  note c = sorted_list_facts [OF Step.hyps(1)] and d = sorted_list_facts [OF Step.hyps(2)]
  have p: "positive_shares (c # cs')" "positive_shares (d # ds')" using Step.prems by (simp_all only: c(3) d(3))
  note m = smaller_head [OF p Step.hyps(3)]
  have h: "positive_shares (settle_head c cs' m)" "positive_shares (settle_head d ds' m)"
    "share_user ` set (settle_head c cs' m) \<subseteq> share_user ` set cs"
    "share_user ` set (settle_head d ds' m) \<subseteq> share_user ` set ds"
    using settle_head_facts(3,4) [OF p(1), of m] settle_head_facts(3,4) [OF p(2), of m] m
    by (simp_all add: c(5) d(5) del: settle_head.simps)
  from Step.IH [OF h(1,2)] h(3,4) m show ?case unfolding c(5) d(5) by auto
qed simp

lemma settle_loop_count:
  "positive_shares cs \<Longrightarrow> positive_shares ds \<Longrightarrow> shares_total cs = shares_total ds \<Longrightarrow>
   (if cs = [] then settle_loop cs ds = []
    else length (settle_loop cs ds) + 1 \<le> length cs + length ds)"
proof (induction cs ds rule: settle_induct)
  case (Stop cs ds)
  then have "cs = [] \<and> ds = []" using positive_total_Nil by fastforce
  then show ?case by simp
next
  case (Step cs ds c cs' d ds' m sgs)
  note c = sorted_list_facts [OF Step.hyps(1)] and d = sorted_list_facts [OF Step.hyps(2)]
  have p: "positive_shares (c # cs')" "positive_shares (d # ds')" using Step.prems by (simp_all only: c(3) d(3))
  note m = smaller_head [OF p Step.hyps(3)]
  note hc = settle_head_facts [OF p(1), of m] and hd = settle_head_facts [OF p(2), of m]
  have "if settle_head c cs' m = [] then sgs = []
      else length sgs + 1 \<le> length (settle_head c cs' m) + length (settle_head d ds' m)"
    using Step.prems m unfolding c(2) d(2)
    by (intro Step.IH) (simp_all add: hc hd del: settle_head.simps)
  moreover have "length (settle_head c cs' m) + length (settle_head d ds' m)
      \<le> Suc (length cs' + length ds')"
    using Step.hyps(3) by (auto simp: min_def)
  moreover have "cs \<noteq> []" using c(4) by auto
  ultimately show ?case unfolding c(4) d(4) by (auto split: if_splits simp del: settle_head.simps)
qed

text \<open>The creditors and debtors of a map of balances.\<close>

lemma owed_creditors:
  "distinct (map fst b) \<Longrightarrow> owed (creditors_of b) u = max 0 (get_or b u 0)"
proof (induction b)
  case (Cons p b)
  have "u \<notin> set (map fst b) \<Longrightarrow> get_or b u 0 = 0"
    by (metis get_or_def map_of_eq_None_iff option.case(1) set_map)
  with Cons show ?case
    by (cases p) (auto simp: creditors_of_def owed_def get_or_def max_def)
qed (simp add: creditors_of_def owed_def)

lemma owed_debtors:
  "distinct (map fst b) \<Longrightarrow> owed (debtors_of b) u = max 0 (- get_or b u 0)"
proof (induction b)
  case (Cons p b)
  have "u \<notin> set (map fst b) \<Longrightarrow> get_or b u 0 = 0"
    by (metis get_or_def map_of_eq_None_iff option.case(1) set_map)
  with Cons show ?case
    by (cases p) (auto simp: debtors_of_def owed_def get_or_def max_def)
qed (simp add: debtors_of_def owed_def)

lemma creditors_minus_debtors:
  "shares_total (creditors_of b) - shares_total (debtors_of b) = map_total b"
  by (induction b) (auto simp: creditors_of_def debtors_of_def map_total_def)

definition bounded_balances :: "(string, int) jsmap \<Rightarrow> bool" where
  "bounded_balances b \<longleftrightarrow> distinct (map fst b) \<and> (\<forall>v. \<bar>get_or b v 0\<bar> < 2 ^ 53)"

lemma bounded_entry: "bounded_balances b \<Longrightarrow> (u, v) \<in> set b \<Longrightarrow> get_or b u 0 = v \<and> \<bar>v\<bar> < 2 ^ 53"
proof -
  assume b: "bounded_balances b" and m: "(u, v) \<in> set b"
  then have "get_or b u 0 = v" by (simp add: get_or_def bounded_balances_def)
  with b show "get_or b u 0 = v \<and> \<bar>v\<bar> < 2 ^ 53" unfolding bounded_balances_def by metis
qed

lemma positive_creditors: "bounded_balances b \<Longrightarrow> positive_shares (creditors_of b)"
  by (fastforce simp: positive_shares_def creditors_of_def dest: bounded_entry)

lemma positive_debtors: "bounded_balances b \<Longrightarrow> positive_shares (debtors_of b)"
  by (fastforce simp: positive_shares_def debtors_of_def dest: bounded_entry)

lemma bounded_net: "volume es ss < 2 ^ 53 \<Longrightarrow> bounded_balances (computeNetBalances es ss c)"
  by (simp only: bounded_balances_def net_balances(1,3) simp_thms)

lemma suggestions_settled:
  assumes "bounded_balances b" and "map_total b = 0"
  shows "get_or b u 0 + paid_by (suggestSettlements b) u - received_by (suggestSettlements b) u = 0"
proof -
  have "settled_by (creditors_of b) (debtors_of b) (suggestSettlements b)"
    unfolding suggestSettlements_def using creditors_minus_debtors [of b] assms
    by (intro settle_loop_settles positive_creditors positive_debtors) simp_all
  moreover have "distinct (map fst b)" using assms(1) by (simp add: bounded_balances_def)
  ultimately show ?thesis by (simp add: settled_by_def owed_creditors owed_debtors max_def)
qed

lemma suggestion_names:
  assumes "bounded_balances b"
  shows "\<forall>s \<in> set (suggestSettlements b). 0 < sg_amount s \<and>
    get_or b (sg_from s) 0 \<noteq> 0 \<and> get_or b (sg_to s) 0 \<noteq> 0"
  using settle_loop_positive [OF positive_creditors [OF assms] positive_debtors [OF assms]]
  unfolding suggestSettlements_def
  by (fastforce simp: creditors_of_def debtors_of_def dest: bounded_entry [OF assms])

text \<open>A list of recorded settlements that are the suggested payments, in the group's currency.\<close>

definition records :: "string \<Rightarrow> splitSettlement list \<Rightarrow> suggestion list \<Rightarrow> bool" where
  "records c paid sgs \<longleftrightarrow> list_all (\<lambda>s. st_currency s = c) paid \<and>
     map (\<lambda>s. Suggestion (st_from s) (st_to s) (st_amount s)) paid = sgs"

lemma records_effect:
  "records c paid sgs \<Longrightarrow>
   sum_list (map (settlement_effect c u) paid) = paid_by sgs u - received_by sgs u"
proof (induction paid arbitrary: sgs)
  case (Cons s paid)
  then have "records c paid (tl sgs)" by (auto simp: records_def)
  from Cons.IH [OF this] Cons.prems show ?case
    by (auto simp: records_def settlement_effect_def paid_by_def received_by_def)
qed (simp add: records_def paid_by_def received_by_def)

section \<open>Properties\<close>

text \<open>dividing a positive integer amount below \<open>2 ^ 53\<close> among at least one member gives
  one share per member, in the order of the members; the shares sum exactly to the amount; the
  first \<open>a mod n\<close> members get one unit more than the others, whose share is \<open>a div n\<close>.\<close>

theorem splitEqually_exact:
  assumes "0 < a" and "a < 2 ^ 53" and "us \<noteq> []"
  shows "\<exists>shares. splitEqually (Num (of_int a)) us = Inr shares \<and>
    map share_user shares = us \<and>
    sum_list (map share_amount shares) = a \<and>
    (\<forall>i. i < length us \<longrightarrow> share_amount (shares ! i) =
       a div int (length us) + (if int i < a mod int (length us) then 1 else 0))"
proof -
  let ?s = "split_map (a div int (length us)) (a mod int (length us)) us"
  note b = share_bounds [OF assms]
  have "sum_list (map share_amount ?s) = a" using split_map_sum [OF b(1,2,3,5,4)] by simp
  then show ?thesis using splitEqually_ok [OF assms] b by (simp add: split_map_nth)
qed

theorem splitEqually_exact_witness:
  "(\<exists>shares. splitEqually (Num (of_int 1000)) [''a'', ''b'', ''c''] = Inr shares \<and>
      sum_list (map share_amount shares) = 1000) \<and>
   splitEqually (Num 1000) [''a'', ''b'', ''c''] =
     Inr [Share ''a'' 334, Share ''b'' 333, Share ''c'' 333]"
proof
  show "\<exists>shares. splitEqually (Num (of_int 1000)) [''a'', ''b'', ''c''] = Inr shares \<and>
      sum_list (map share_amount shares) = 1000"
    using splitEqually_exact [of 1000 "[''a'', ''b'', ''c'']"] by auto
qed code_simp

lemma check_shares_beyond:
  "2 ^ 53 \<le> acc \<Longrightarrow> int_of_num amount < 2 ^ 53 \<Longrightarrow> check_shares amount seen acc shares \<noteq> Inr ()"
proof (induction shares arbitrary: seen acc)
  case (Cons s shares)
  show ?case
  proof (cases "isInteger (share_amount s) \<and> \<not> num_le (share_amount s) 0")
    case True
    then obtain k where k: "0 < k" "share_amount s = Num (of_int k)" using positive_integer_iff by blast
    with Cons.prems have "2 ^ 53 \<le> nadd acc k" by (intro nadd_beyond) linarith
    from Cons.IH [OF this Cons.prems(2)] k show ?thesis by auto
  qed auto
qed auto

lemma check_shares_ok_iff:
  assumes "int_of_num amount < 2 ^ 53" and "0 \<le> acc" and "acc < 2 ^ 53"
  shows "check_shares amount seen acc shares = Inr () \<longleftrightarrow>
     (\<forall>s \<in> set shares. \<exists>n > 0. share_amount s = Num (of_int n)) \<and>
     distinct (map share_user shares) \<and> set (map share_user shares) \<inter> set seen = {} \<and>
     amount = Num (of_int (acc + sum_list (map (int_of_num \<circ> share_amount) shares)))"
  using assms(2,3)
proof (induction shares arbitrary: seen acc)
  case (Cons s shares)
  show ?case
  proof (cases "isInteger (share_amount s) \<and> \<not> num_le (share_amount s) 0")
    case False
    then show ?thesis using positive_integer_iff [of "share_amount s"] by auto
  next
    case True
    then obtain k where k: "0 < k" "share_amount s = Num (of_int k)" using positive_integer_iff by blast
    show ?thesis
    proof (cases "acc + k < 2 ^ 53")
      case True
      with Cons.prems(1) k(1) have "nadd acc k = acc + k" by simp
      then show ?thesis
        using Cons.IH [of "acc + k" "set_add (share_user s) seen"] Cons.prems(1) True k by (auto simp: add.assoc)
    next
      case False
      then have "2 ^ 53 \<le> nadd acc k" by (intro nadd_beyond) linarith
      from check_shares_beyond [OF this assms(1)]
      have "check_shares amount seen acc (s # shares) \<noteq> Inr ()" using k by auto
      moreover have "amount \<noteq> Num (of_int (acc + sum_list (map (int_of_num \<circ> share_amount) (s # shares))))"
        if all: "\<forall>s \<in> set (s # shares). \<exists>n > 0. share_amount s = Num (of_int n)"
      proof
        assume "amount = Num (of_int (acc + sum_list (map (int_of_num \<circ> share_amount) (s # shares))))"
        then have "int_of_num amount = acc + k + sum_list (map (int_of_num \<circ> share_amount) shares)"
          using k(2) by (simp add: add.assoc del: of_int_add)
        moreover have "0 \<le> sum_list (map (int_of_num \<circ> share_amount) shares)"
          using all by (intro sum_list_nonneg) fastforce
        ultimately show False using False assms(1) by linarith
      qed
      ultimately show ?thesis by blast
    qed
  qed
qed auto

text \<open>the explicit shares of an expense below \<open>2 ^ 53\<close> are accepted exactly when each is a positive integer,
  no member has two, and they sum to the amount; otherwise the check throws.\<close>

theorem assertSharesReconcile_iff:
  assumes "int_of_num amount < 2 ^ 53"
  shows "assertSharesReconcile amount shares = Inr () \<longleftrightarrow>
     list_all (\<lambda>s. isInteger (share_amount s) \<and> \<not> num_le (share_amount s) 0) shares \<and>
     distinct (map share_user shares) \<and>
     amount = Num (of_int (sum_list (map (int_of_num \<circ> share_amount) shares)))"
  by (simp add: assertSharesReconcile_def check_shares_ok_iff [OF assms] positive_integer_iff list_all_iff)

text \<open>When the participants of each expense sum to its amount, the net positions of a group
  sum to zero, whatever settlements were made, as long as the volume of the group is below \<open>2 ^ 53\<close>.\<close>

theorem net_balances_zero_sum:
  assumes "list_all balanced_expense expenses" and "volume expenses settlements < 2 ^ 53"
  shows "sum_list (map snd (computeNetBalances expenses settlements currency)) = 0"
  using net_balances(4) [OF assms(2,1)] by (simp add: map_total_def)

definition demo_expense :: splitExpense where
  "demo_expense = \<lparr>ex_id = ''e1'', ex_groupId = ''g'', ex_description = ''dinner'',
     ex_category = ''food'', ex_amount = 1000, ex_currency = ''USD'', ex_paidBy = ''a'',
     ex_method = Equal, ex_date = ''2026-01-02'', ex_createdAt = ''2026-01-02'',
     ex_participants = map (\<lambda>(u, a). \<lparr>pt_expenseId = ''e1'', pt_userId = u, pt_amount = a\<rparr>)
       [(''a'', 334), (''b'', 333), (''c'', 333)]\<rparr>"

theorem net_balances_zero_sum_witness:
  "sum_list (map snd (computeNetBalances [demo_expense] [] ''USD'')) = 0 \<and>
   computeNetBalances [demo_expense] [] ''USD'' = [(''a'', 666), (''b'', -333), (''c'', -333)]"
proof
  show "sum_list (map snd (computeNetBalances [demo_expense] [] ''USD'')) = 0"
    by (rule net_balances_zero_sum)
      (simp_all add: demo_expense_def balanced_expense_def volume_def expense_entries_def)
qed code_simp

text \<open>C2: as long as all that is entered in the group, the payments included, adds up to less than \<open>2 ^ 53\<close> minor
  units, recording the suggested payments as settlements brings every member's position to exactly zero: the
  suggestions settle the group.\<close>

theorem suggestions_settle_group:
  assumes "list_all balanced_expense expenses" and "volume expenses (settlements @ paid) < 2 ^ 53"
    and "records currency paid
           (suggestSettlements (computeNetBalances expenses settlements currency))"
  shows "get_or (computeNetBalances expenses (settlements @ paid) currency) u 0 = 0"
proof -
  let ?b = "computeNetBalances expenses settlements currency"
  have v: "volume expenses settlements < 2 ^ 53" using volume_grows assms(2) by (rule le_less_trans)
  have "get_or (computeNetBalances expenses (settlements @ paid) currency) u 0
      = get_or ?b u 0 + (paid_by (suggestSettlements ?b) u - received_by (suggestSettlements ?b) u)"
    by (simp add: net_balances(2) [OF v] net_balances(2) [OF assms(2)] records_effect [OF assms(3)])
  moreover have "get_or ?b u 0 + paid_by (suggestSettlements ?b) u - received_by (suggestSettlements ?b) u = 0"
    by (rule suggestions_settled [OF bounded_net [OF v] net_balances(4) [OF v assms(1)]])
  ultimately show ?thesis by simp
qed

definition demo_payment :: "string \<Rightarrow> string \<Rightarrow> int \<Rightarrow> splitSettlement" where
  "demo_payment u v a = \<lparr>st_id = ''s'', st_groupId = ''g'', st_from = u, st_to = v,
     st_amount = a, st_currency = ''USD'', st_note = [], st_createdAt = ''2026-01-03''\<rparr>"

lemma demo_suggestions:
  "suggestSettlements (computeNetBalances [demo_expense] [] ''USD'')
     = [Suggestion ''b'' ''a'' 333, Suggestion ''c'' ''a'' 333]"
  by code_simp

theorem suggestions_settle_group_witness:
  "get_or (computeNetBalances [demo_expense]
     ([] @ [demo_payment ''b'' ''a'' 333, demo_payment ''c'' ''a'' 333]) ''USD'') ''a'' 0 = 0"
proof (rule suggestions_settle_group)
  show "list_all balanced_expense [demo_expense]" by (simp add: demo_expense_def balanced_expense_def)
  show "volume [demo_expense] ([] @ [demo_payment ''b'' ''a'' 333, demo_payment ''c'' ''a'' 333]) < 2 ^ 53"
    by (simp add: demo_expense_def volume_def expense_entries_def demo_payment_def settlement_entries_def)
  show "records ''USD'' [demo_payment ''b'' ''a'' 333, demo_payment ''c'' ''a'' 333]
      (suggestSettlements (computeNetBalances [demo_expense] [] ''USD''))"
    by (simp add: demo_suggestions records_def demo_payment_def)
qed

text \<open>
  Beyond that volume the sums round. The code accepts a settlement of any whole number; one of \<open>10 ^ 20\<close> swallows the
  share of the one who pays it and of the one who is paid, and the positions no longer sum to zero.
\<close>

lemma huge_settlement_loses_money:
  "computeNetBalances [demo_expense] [demo_payment ''b'' ''a'' (10 ^ 20)] ''USD'' =
     [(''a'', - (10 ^ 20)), (''b'', 10 ^ 20), (''c'', -333)]"
  by code_simp

text \<open>the suggestions are positive payments from members who owe to members who are owed, and
  there is at least one fewer of them than there are members with a non-zero position.\<close>

theorem suggestions_shape:
  assumes "list_all balanced_expense expenses" and "volume expenses settlements < 2 ^ 53"
    and "b = computeNetBalances expenses settlements currency"
    and "sgs = suggestSettlements b" and "sgs \<noteq> []"
  shows "list_all (\<lambda>s. 0 < sg_amount s \<and> get_or b (sg_from s) 0 < 0 \<and> 0 < get_or b (sg_to s) 0) sgs
    \<and> length sgs + 1 \<le> length (filter (\<lambda>p. snd p \<noteq> 0) b)"
proof
  have bb: "bounded_balances b" using bounded_net [OF assms(2)] assms(3) by simp
  note p = positive_creditors [OF bb] positive_debtors [OF bb]
  show "list_all (\<lambda>s. 0 < sg_amount s \<and> get_or b (sg_from s) 0 < 0 \<and> 0 < get_or b (sg_to s) 0) sgs"
    using settle_loop_positive [OF p]
    unfolding assms(4) suggestSettlements_def list_all_iff
    by (fastforce simp: creditors_of_def debtors_of_def dest: bounded_entry [OF bb])
  have "length (creditors_of b) + length (debtors_of b) = length (filter (\<lambda>p. snd p \<noteq> 0) b)"
    by (induction b) (auto simp: creditors_of_def debtors_of_def)
  moreover have "shares_total (creditors_of b) = shares_total (debtors_of b)"
    using creditors_minus_debtors [of b] net_balances(4) [OF assms(2,1), of currency] assms(3) by simp
  ultimately show "length sgs + 1 \<le> length (filter (\<lambda>p. snd p \<noteq> 0) b)"
    using settle_loop_count [OF p] assms(4,5)
    by (simp add: suggestSettlements_def split: if_splits)
qed

theorem suggestions_shape_witness:
  "length (suggestSettlements (computeNetBalances [demo_expense] [] ''USD'')) + 1
     \<le> length (filter (\<lambda>p. snd p \<noteq> 0) (computeNetBalances [demo_expense] [] ''USD''))"
  using suggestions_shape [of "[demo_expense]" "[]" "computeNetBalances [demo_expense] [] ''USD''"
      "''USD''" "suggestSettlements (computeNetBalances [demo_expense] [] ''USD'')"]
  by (simp add: demo_suggestions, simp add: demo_expense_def balanced_expense_def volume_def expense_entries_def)

text \<open>Decides that a list of payments settles all positions.\<close>

definition settles :: "(string, int) jsmap \<Rightarrow> suggestion list \<Rightarrow> bool" where
  "settles b sgs \<longleftrightarrow> list_all (\<lambda>u. get_or b u 0 + paid_by sgs u - received_by sgs u = 0)
     (remdups (map fst b @ map sg_from sgs @ map sg_to sgs))"

text \<open>the comment on the suggestions promises the fewest possible payments, and the greedy
  choice does not give it: for these five positions it makes four payments where three settle
  everybody.\<close>

theorem suggestions_not_fewest:
  "let b = [(''a'', 5), (''b'', 4), (''c'', -4), (''d'', -3), (''e'', -2)]
   in settles b (suggestSettlements b) \<and> length (suggestSettlements b) = 4 \<and>
      settles b [Suggestion ''c'' ''b'' 4, Suggestion ''d'' ''a'' 3, Suggestion ''e'' ''a'' 2]"
  by code_simp

text \<open>an amount smaller than the number of members gives some member a share of zero, which
  the check of explicit shares refuses and the participants' type documents as positive.\<close>

theorem splitEqually_zero_share:
  assumes "0 < a" and "a < int (length us)" and "int (length us) < 2 ^ 53" and "distinct us"
  shows "\<exists>shares. splitEqually (Num (of_int a)) us = Inr shares \<and>
    (\<exists>s \<in> set shares. share_amount s = 0) \<and>
    assertSharesReconcile (Num (of_int a))
      (map (\<lambda>s. Share (share_user s) (Num (of_int (share_amount s)))) shares) \<noteq> Inr ()"
proof -
  have us: "us \<noteq> []" using assms(1,2) by auto
  obtain shares where s: "splitEqually (Num (of_int a)) us = Inr shares"
      "map share_user shares = us"
      "\<And>i. i < length us \<Longrightarrow> share_amount (shares ! i) =
        a div int (length us) + (if int i < a mod int (length us) then 1 else 0)"
    using splitEqually_exact [of a us] assms us by force
  have len: "length shares = length us" using s(2) by (metis length_map)
  let ?i = "nat a"
  have i: "?i < length us" using assms(1,2) by linarith
  then have "share_amount (shares ! ?i) = 0" using s(3) [of ?i] assms(1,2) by simp
  then have z: "\<exists>s \<in> set shares. share_amount s = 0" using i len nth_mem by metis
  then have "assertSharesReconcile (Num (of_int a))
      (map (\<lambda>s. Share (share_user s) (Num (of_int (share_amount s)))) shares) \<noteq> Inr ()"
    using assms(2,3) by (fastforce simp: assertSharesReconcile_def check_shares_ok_iff)
  with s(1) z show ?thesis by blast
qed

theorem splitEqually_zero_share_witness:
  "\<exists>shares. splitEqually (Num (of_int 1)) [''a'', ''b''] = Inr shares \<and>
     (\<exists>s \<in> set shares. share_amount s = 0)"
  using splitEqually_zero_share [of 1 "[''a'', ''b'']"] by auto

end
