(* ===== verification/JsString.thy ===== *)
theory JsString
  imports JsNum
begin

text \<open>
  The string library of JavaScript as far as the code uses it. A string is a list of code
  units below 256, so case mapping is that of the Latin-1 block: the two lower-case letters
  whose capitals lie outside it (the micro sign and y with diaeresis) stay as they are.
\<close>

section \<open>Characters\<close>

definition code :: "char \<Rightarrow> nat" where
  "code c = of_char c"

definition in_range :: "char \<Rightarrow> nat \<Rightarrow> nat \<Rightarrow> bool" where
  "in_range c lo hi \<longleftrightarrow> lo \<le> code c \<and> code c \<le> hi"

definition is_digit :: "char \<Rightarrow> bool" where
  "is_digit c \<longleftrightarrow> in_range c 48 57"

definition is_upper :: "char \<Rightarrow> bool" where
  "is_upper c \<longleftrightarrow> in_range c 65 90"

definition is_lower :: "char \<Rightarrow> bool" where
  "is_lower c \<longleftrightarrow> in_range c 97 122"

definition is_alpha :: "char \<Rightarrow> bool" where
  "is_alpha c \<longleftrightarrow> is_upper c \<or> is_lower c"

definition is_word :: "char \<Rightarrow> bool" where
  "is_word c \<longleftrightarrow> is_alpha c \<or> is_digit c \<or> code c = 95"

text \<open>White space as \<open>trim\<close> and the class \<open>\s\<close> understand it.\<close>

definition is_space :: "char \<Rightarrow> bool" where
  "is_space c \<longleftrightarrow> in_range c 9 13 \<or> code c = 32 \<or> code c = 160"

definition char_lower :: "char \<Rightarrow> char" where
  "char_lower c =
     (if is_upper c \<or> (in_range c 192 222 \<and> code c \<noteq> 215) then char_of (code c + 32) else c)"

definition char_upper :: "char \<Rightarrow> string" where
  "char_upper c =
     (if is_lower c \<or> (in_range c 224 254 \<and> code c \<noteq> 247) then [char_of (code c - 32)]
      else if code c = 223 then ''SS'' else [c])"

section \<open>Strings\<close>

definition toLowerCase :: "string \<Rightarrow> string" where
  "toLowerCase s = map char_lower s"

definition toUpperCase :: "string \<Rightarrow> string" where
  "toUpperCase s = concat (map char_upper s)"

definition trimStart :: "string \<Rightarrow> string" where
  "trimStart s = dropWhile is_space s"

definition trimEnd :: "string \<Rightarrow> string" where
  "trimEnd s = rev (dropWhile is_space (rev s))"

definition trim :: "string \<Rightarrow> string" where
  "trim s = trimEnd (trimStart s)"

fun startsWith :: "string \<Rightarrow> string \<Rightarrow> bool" where
  "startsWith s [] = True"
| "startsWith [] (p # ps) = False"
| "startsWith (c # s) (p # ps) = (c = p \<and> startsWith s ps)"

fun contains :: "string \<Rightarrow> string \<Rightarrow> bool" where
  "contains [] p = (p = [])"
| "contains (c # s) p = (startsWith (c # s) p \<or> contains s p)"

definition endsWith :: "string \<Rightarrow> string \<Rightarrow> bool" where
  "endsWith s p = startsWith (rev s) (rev p)"

fun join :: "string \<Rightarrow> string list \<Rightarrow> string" where
  "join sep [] = []"
| "join sep [x] = x"
| "join sep (x # y # xs) = x @ sep @ join sep (y # xs)"

text \<open>\<open>split\<close> on a one-character separator.\<close>

fun split_char :: "char \<Rightarrow> string \<Rightarrow> string list" where
  "split_char sep [] = [[]]"
| "split_char sep (c # s) =
     (if c = sep then [] # split_char sep s
      else (case split_char sep s of [] \<Rightarrow> [[c]] | w # ws \<Rightarrow> (c # w) # ws))"

text \<open>\<open>s.slice(a, b)\<close> for indices in range.\<close>

definition slice :: "nat \<Rightarrow> nat \<Rightarrow> 'a list \<Rightarrow> 'a list" where
  "slice a b s = take (b - a) (drop a s)"

text \<open>A \<open>string | null\<close> in a condition: null and the empty string are false.\<close>

fun truthy :: "string option \<Rightarrow> bool" where
  "truthy None = False"
| "truthy (Some s) = (s \<noteq> [])"

section \<open>Numerals\<close>

definition digit_char :: "nat \<Rightarrow> char" where
  "digit_char d = char_of (48 + d)"

definition digit_val :: "char \<Rightarrow> nat" where
  "digit_val c = code c - 48"

fun nat_string :: "nat \<Rightarrow> string" where
  "nat_string n = (if n < 10 then [digit_char n] else nat_string (n div 10) @ [digit_char (n mod 10)])"

declare nat_string.simps [simp del]

definition int_string :: "int \<Rightarrow> string" where
  "int_string i = (if i < 0 then CHR 0x2D # nat_string (nat (- i)) else nat_string (nat i))"

definition padStart :: "nat \<Rightarrow> char \<Rightarrow> string \<Rightarrow> string" where
  "padStart n c s = replicate (n - length s) c @ s"

text \<open>The value of a string of digits.\<close>

definition parse_nat :: "string \<Rightarrow> nat" where
  "parse_nat s = foldl (\<lambda>n c. n * 10 + digit_val c) 0 s"

section \<open>Facts\<close>

lemma code_char_of [simp]: "n < 256 \<Longrightarrow> code (char_of n) = n"
  by (simp add: code_def)

lemma digit_val_char [simp]: "d < 10 \<Longrightarrow> digit_val (digit_char d) = d"
  by (simp add: digit_val_def digit_char_def)

lemma is_digit_char [simp]: "d < 10 \<Longrightarrow> is_digit (digit_char d)"
  by (simp add: is_digit_def in_range_def digit_char_def)

lemma digit_val_less: "is_digit c \<Longrightarrow> digit_val c < 10"
  by (auto simp: is_digit_def in_range_def digit_val_def)

lemma digit_char_val: "is_digit c \<Longrightarrow> digit_char (digit_val c) = c"
  by (auto simp: is_digit_def in_range_def digit_val_def digit_char_def code_def)

lemma digit_char_eq_iff [simp]: "a < 10 \<Longrightarrow> b < 10 \<Longrightarrow> digit_char a = digit_char b \<longleftrightarrow> a = b"
  by (metis digit_val_char)

lemma digit_char_less_iff: "a < 10 \<Longrightarrow> b < 10 \<Longrightarrow> digit_char a < digit_char b \<longleftrightarrow> a < b"
  by (simp add: digit_char_def less_char_def)

lemma parse_nat_append: "parse_nat (s @ [c]) = parse_nat s * 10 + digit_val c"
  by (simp add: parse_nat_def)

lemma parse_nat_Nil [simp]: "parse_nat [] = 0"
  by (simp add: parse_nat_def)

lemma parse_nat_aux: "foldl (\<lambda>n c. n * 10 + digit_val c) k s = k * 10 ^ length s + parse_nat s"
proof (induction s arbitrary: k)
  case (Cons c s)
  have "parse_nat (c # s) = digit_val c * 10 ^ length s + parse_nat s"
    using Cons [of "digit_val c"] by (simp add: parse_nat_def)
  with Cons [of "k * 10 + digit_val c"] show ?case by (simp add: algebra_simps)
qed simp

lemma parse_nat_string [simp]: "parse_nat (nat_string n) = n"
proof (induction n rule: nat_string.induct)
  case (1 n)
  then show ?case
    by (subst nat_string.simps) (auto simp: parse_nat_append parse_nat_def)
qed

lemma nat_string_ne [simp]: "nat_string n \<noteq> []"
  by (subst nat_string.simps) simp

lemma nat_string_digits: "list_all is_digit (nat_string n)"
proof (induction n rule: nat_string.induct)
  case (1 n)
  then show ?case by (subst nat_string.simps) auto
qed

lemma parse_nat_bound: "list_all is_digit s \<Longrightarrow> parse_nat s < 10 ^ length s"
proof (induction s rule: rev_induct)
  case (snoc c s)
  then have "parse_nat s < 10 ^ length s" "digit_val c < 10" by (auto simp: digit_val_less)
  then show ?case by (simp add: parse_nat_append)
qed simp

lemma parse_nat_zeros [simp]: "parse_nat (replicate k (digit_char 0) @ s) = parse_nat s"
proof (induction k)
  case (Suc k)
  then show ?case by (simp add: parse_nat_def)
qed simp

text \<open>A number written with a fixed count of digits, and the order of such strings.\<close>

fun fixed_digits :: "nat \<Rightarrow> nat \<Rightarrow> string" where
  "fixed_digits 0 k = []"
| "fixed_digits (Suc n) k = fixed_digits n (k div 10) @ [digit_char (k mod 10)]"

lemma length_fixed_digits [simp]: "length (fixed_digits n k) = n"
  by (induction n arbitrary: k) auto

lemma fixed_digits_0: "fixed_digits n 0 = replicate n (digit_char 0)"
  by (induction n) (auto simp: replicate_append_same)

lemma fixed_digits_all: "list_all is_digit (fixed_digits n k)"
  by (induction n arbitrary: k) auto

lemma parse_fixed_digits [simp]: "k < 10 ^ n \<Longrightarrow> parse_nat (fixed_digits n k) = k"
  by (induction n arbitrary: k) (auto simp: parse_nat_append)

lemma fixed_four: "fixed_digits 4 n = [digit_char (n div 10 div 10 div 10 mod 10),
  digit_char (n div 10 div 10 mod 10), digit_char (n div 10 mod 10), digit_char (n mod 10)]"
proof -
  have four: "(4 :: nat) = Suc (Suc (Suc (Suc 0)))" by simp
  show ?thesis unfolding four by (simp only: fixed_digits.simps append.simps)
qed

lemma fixed_two: "fixed_digits 2 n = [digit_char (n div 10 mod 10), digit_char (n mod 10)]"
  by (simp add: numeral_2_eq_2)

lemma padStart_snoc: "padStart (Suc n) c (s @ [x]) = padStart n c s @ [x]"
  by (simp add: padStart_def)

lemma padStart_nat_string: "0 < n \<Longrightarrow> k < 10 ^ n \<Longrightarrow> padStart n (digit_char 0) (nat_string k) = fixed_digits n k"
proof (induction n arbitrary: k)
  case (Suc n)
  show ?case
  proof (cases "k < 10")
    case True
    then show ?thesis
      by (subst nat_string.simps) (simp add: padStart_def fixed_digits_0)
  next
    case False
    then have "0 < n" using Suc.prems(2) by (cases n) auto
    moreover have "k div 10 < 10 ^ n" using Suc.prems(2) by (simp add: div_less_iff_less_mult mult.commute)
    ultimately have "0 < n" "k div 10 < 10 ^ n" by simp_all
    with False Suc.IH [of "k div 10"] show ?thesis
      by (subst nat_string.simps) (simp add: padStart_snoc)
  qed
qed simp

lemma list_less_append: "length xs = length ys \<Longrightarrow> xs < ys \<Longrightarrow> xs @ us < ys @ (vs :: string)"
  by (simp add: list_less_def lexord_sufI)

lemma list_less_append_same: "us < vs \<Longrightarrow> xs @ us < xs @ (vs :: string)"
  by (simp add: list_less_def lexord_append_leftI)

lemma fixed_digits_less: "a < b \<Longrightarrow> b < 10 ^ n \<Longrightarrow> fixed_digits n a < fixed_digits n b"
proof (induction n arbitrary: a b)
  case (Suc n)
  show ?case
  proof (cases "a div 10 = b div 10")
    case True
    then have "a mod 10 < b mod 10" using Suc.prems(1) by (metis div_mult_mod_eq nat_add_left_cancel_less)
    with True show ?thesis by (simp add: list_less_append_same digit_char_less_iff)
  next
    case False
    then have "a div 10 < b div 10" using Suc.prems(1) by (metis div_le_mono le_neq_implies_less less_imp_le)
    then have "fixed_digits n (a div 10) < fixed_digits n (b div 10)" using Suc by simp
    then show ?thesis by (simp add: list_less_append)
  qed
qed simp

lemma startsWith_prefix: "startsWith s p \<longleftrightarrow> (\<exists>t. s = p @ t)"
  by (induction s p rule: startsWith.induct) auto

lemma contains_iff: "contains s p \<longleftrightarrow> (\<exists>a b. s = a @ p @ b)"
proof (induction s)
  case (Cons c s)
  have "(\<exists>a b. c # s = a @ p @ b) \<longleftrightarrow> (\<exists>b. c # s = p @ b) \<or> (\<exists>a b. s = a @ p @ b)"
    by (metis (no_types, opaque_lifting) append_Cons append_Nil list.exhaust list.inject)
  with Cons show ?case by (simp add: startsWith_prefix)
qed auto

lemma set_trim: "set (trim s) \<subseteq> set s"
  unfolding trim_def trimStart_def trimEnd_def by (auto dest!: set_dropWhileD)

lemma trim_ends:
  assumes "trim s \<noteq> []"
  shows "\<not> is_space (hd (trim s)) \<and> \<not> is_space (last (trim s))"
proof -
  let ?r = "rev (trimStart s)"
  have t: "trim s = rev (dropWhile is_space ?r)" by (simp add: trim_def trimEnd_def)
  with assms have ne: "dropWhile is_space ?r \<noteq> []" by simp
  then have "\<not> is_space (last (trim s))" unfolding t by (simp add: last_rev hd_dropWhile)
  moreover have "hd (trim s) = hd (trimStart s)"
  proof -
    obtain xs where "?r = xs @ dropWhile is_space ?r" by (metis takeWhile_dropWhile_id)
    then have "trimStart s = rev (dropWhile is_space ?r) @ rev xs" by (metis rev_append rev_rev_ident)
    with ne t show ?thesis by (metis hd_append2 rev_is_Nil_conv)
  qed
  moreover have "trimStart s \<noteq> []" using ne by auto
  then have "\<not> is_space (hd (trimStart s))" by (simp add: trimStart_def hd_dropWhile)
  ultimately show ?thesis by simp
qed

lemma split_char_not_Nil: "split_char sep s \<noteq> []"
  by (cases s) (auto split: list.splits)

lemma join_split_char: "join [sep] (split_char sep s) = s"
proof (induction s)
  case (Cons c s)
  obtain w ws where "split_char sep s = w # ws"
    by (metis neq_Nil_conv split_char_not_Nil)
  with Cons show ?case by (cases ws) auto
qed simp

section \<open>Evaluation of decimals\<close>

text \<open>Natural numbers evaluate in unary; decimals are computed over integers.\<close>

definition int_digit :: "int \<Rightarrow> char" where
  "int_digit k = digit_char (nat k)"

lemma int_digit_code [code]:
  "int_digit k = (if k \<le> 0 then CHR ''0'' else if k = 1 then CHR ''1'' else if k = 2 then CHR ''2''
     else if k = 3 then CHR ''3'' else if k = 4 then CHR ''4'' else if k = 5 then CHR ''5'' else if k = 6 then CHR ''6''
     else if k = 7 then CHR ''7'' else if k = 8 then CHR ''8'' else if k = 9 then CHR ''9'' else digit_char (nat k))"
proof -
  have d: "CHR ''0'' = digit_char 0" "CHR ''1'' = digit_char 1" "CHR ''2'' = digit_char 2" "CHR ''3'' = digit_char 3"
    "CHR ''4'' = digit_char 4" "CHR ''5'' = digit_char 5" "CHR ''6'' = digit_char 6" "CHR ''7'' = digit_char 7"
    "CHR ''8'' = digit_char 8" "CHR ''9'' = digit_char 9"
    by code_simp+
  show ?thesis unfolding d by (simp add: int_digit_def)
qed

definition digits_of :: "int \<Rightarrow> string" where
  "digits_of k = nat_string (nat k)"

lemma digits_of_code [code]:
  "digits_of k = (if k < 10 then [int_digit k] else digits_of (k div 10) @ [int_digit (k mod 10)])"
proof -
  have "nat k div 10 = nat (k div 10)" "nat k mod 10 = nat (k mod 10)" if "10 \<le> k"
    using that nat_div_distrib [of k 10] nat_mod_distrib [of k 10] by simp_all
  then show ?thesis
    by (subst digits_of_def, subst nat_string.simps) (auto simp: digits_of_def int_digit_def nat_less_iff)
qed

lemma nat_string_code [code]: "nat_string n = digits_of (int n)"
  by (simp add: digits_of_def)

lemma int_string_code [code]: "int_string i = (if i < 0 then CHR 0x2D # digits_of (- i) else digits_of i)"
  by (simp add: int_string_def digits_of_def)

definition parse_int :: "string \<Rightarrow> int" where
  "parse_int s = int (parse_nat s)"

lemma parse_int_code [code]: "parse_int s = foldl (\<lambda>n c. n * 10 + int (digit_val c)) 0 s"
proof -
  have "int (foldl (\<lambda>n c. n * 10 + digit_val c) a s) = foldl (\<lambda>n c. n * 10 + int (digit_val c)) (int a) s" for a
    by (induction s arbitrary: a) simp_all
  from this [of 0] show ?thesis by (simp add: parse_int_def parse_nat_def)
qed

end
