(* ===== verification/SplitPort.thy ===== *)
theory SplitPort
  imports SplitMath JsString
begin

text \<open>
  The port \<open>SplitStore\<close> of \<open>ports/index.ts\<close>, through which the shared-expense service reaches
  its store, with the row types of \<open>domain/split/types.ts\<close>. The port is a record of
  operations on a state of any type, as the service is constructed with any implementation.

  The contract is the locale \<open>split_port\<close>: a state shows, for each group id, the group, its
  members, its expenses and its settlements (a \<open>splitView\<close>); every operation acts on this view
  as its abstract counterpart does, and reads return what the view holds.
\<close>

section \<open>Rows\<close>

datatype splitRole = Admin | Member

datatype invitationStatus = Pending | Accepted | Declined | Revoked | Left | RemovedFrom

record splitGroup =
  gr_id :: string
  gr_name :: string
  gr_currency :: string
  gr_createdBy :: "string option"
  gr_createdAt :: string
  gr_archivedAt :: "string option"

record splitMember =
  mb_groupId :: string
  mb_userId :: string
  mb_role :: splitRole
  mb_joinedAt :: string

record splitInvitation =
  iv_id :: string
  iv_groupId :: string
  iv_invitee :: string
  iv_invitedBy :: "string option"
  iv_status :: invitationStatus
  iv_createdAt :: string
  iv_decidedAt :: "string option"

datatype store_error =
    NotActiveMember
  | NotAdministrator
  | AlreadyMember
  | AlreadyPending
  | NotAMember

datatype removal = Removed | NotFound | Creator | BalanceNonzero | Forbidden

section \<open>The operations of the port\<close>

record 's split_ops =
  op_getGroup :: "'s \<Rightarrow> string \<Rightarrow> string \<Rightarrow> splitGroup option"
  op_createGroup :: "'s \<Rightarrow> splitGroup \<Rightarrow> splitMember \<Rightarrow> 's"
  op_archiveGroup :: "string \<Rightarrow> 's \<Rightarrow> string \<Rightarrow> string \<Rightarrow> bool \<times> 's"
  op_listMembers :: "'s \<Rightarrow> string \<Rightarrow> string \<Rightarrow> splitMember list"
  op_createInvitation :: "'s \<Rightarrow> string \<Rightarrow> splitInvitation \<Rightarrow> store_error + 's"
  op_acceptInvitation :: "string \<Rightarrow> 's \<Rightarrow> string \<Rightarrow> string \<Rightarrow> splitMember option \<times> 's"
  op_declineInvitation :: "string \<Rightarrow> 's \<Rightarrow> string \<Rightarrow> string \<Rightarrow> bool \<times> 's"
  op_revokeInvitation :: "string \<Rightarrow> 's \<Rightarrow> string \<Rightarrow> string \<Rightarrow> string \<Rightarrow> bool \<times> 's"
  op_removeMember :: "string \<Rightarrow> 's \<Rightarrow> string \<Rightarrow> string \<Rightarrow> string \<Rightarrow> removal \<times> 's"
  op_listExpenses :: "'s \<Rightarrow> string \<Rightarrow> string \<Rightarrow> splitExpense list"
  op_addExpense :: "'s \<Rightarrow> string \<Rightarrow> splitExpense \<Rightarrow> store_error + splitExpense \<times> 's"
  op_listSettlements :: "'s \<Rightarrow> string \<Rightarrow> string \<Rightarrow> splitSettlement list"
  op_addSettlement :: "'s \<Rightarrow> string \<Rightarrow> splitSettlement \<Rightarrow> store_error + splitSettlement \<times> 's"

section \<open>The abstract ledger\<close>

record splitView =
  vw_group :: "string \<Rightarrow> splitGroup option"
  vw_members :: "string \<Rightarrow> string set"
  vw_expenses :: "string \<Rightarrow> splitExpense multiset"
  vw_settlements :: "string \<Rightarrow> splitSettlement multiset"

definition abs_create :: "splitGroup \<Rightarrow> string \<Rightarrow> splitView \<Rightarrow> splitView" where
  "abs_create g u v = v\<lparr>vw_group := (vw_group v)(gr_id g \<mapsto> g),
     vw_members := (vw_members v)(gr_id g := {u})\<rparr>"

definition abs_archive :: "string \<Rightarrow> splitGroup \<Rightarrow> string \<Rightarrow> splitView \<Rightarrow> splitView" where
  "abs_archive gid g now v =
     v\<lparr>vw_group := (vw_group v)(gid \<mapsto> g\<lparr>gr_archivedAt := Some now\<rparr>)\<rparr>"

definition abs_join :: "string \<Rightarrow> string \<Rightarrow> splitView \<Rightarrow> splitView" where
  "abs_join gid u v = v\<lparr>vw_members := (vw_members v)(gid := insert u (vw_members v gid))\<rparr>"

definition abs_remove :: "string \<Rightarrow> string \<Rightarrow> splitView \<Rightarrow> splitView" where
  "abs_remove gid u v = v\<lparr>vw_members := (vw_members v)(gid := vw_members v gid - {u})\<rparr>"

definition abs_expense :: "splitExpense \<Rightarrow> splitView \<Rightarrow> splitView" where
  "abs_expense e v = v\<lparr>vw_expenses :=
     (vw_expenses v)(ex_groupId e := add_mset e (vw_expenses v (ex_groupId e)))\<rparr>"

definition abs_settle :: "splitSettlement \<Rightarrow> splitView \<Rightarrow> splitView" where
  "abs_settle x v = v\<lparr>vw_settlements :=
     (vw_settlements v)(st_groupId x := add_mset x (vw_settlements v (st_groupId x)))\<rparr>"

text \<open>A member's position in a group, from the entries the view holds.\<close>

definition view_net :: "splitView \<Rightarrow> string \<Rightarrow> string \<Rightarrow> string \<Rightarrow> int" where
  "view_net v gid c u = (\<Sum>e \<in># vw_expenses v gid. expense_effect c u e)
     + (\<Sum>x \<in># vw_settlements v gid. settlement_effect c u x)"

text \<open>All that was entered in a group; below \<open>2 ^ 53\<close> the sums of an implementation are exact.\<close>

definition view_volume :: "splitView \<Rightarrow> string \<Rightarrow> int" where
  "view_volume v gid = (\<Sum>e \<in># vw_expenses v gid. moved (expense_entries e))
     + (\<Sum>x \<in># vw_settlements v gid. moved (settlement_entries x))"

lemma moved_sum_nonneg: "0 \<le> (\<Sum>x \<in># M. moved (f x))"
  by (induction M) simp_all

definition exact_sums :: "splitView \<Rightarrow> string \<Rightarrow> bool" where
  "exact_sums v gid \<longleftrightarrow> view_volume v gid < 2 ^ 53"

lemma view_volume_lists:
  "mset es = vw_expenses v gid \<Longrightarrow> mset ss = vw_settlements v gid \<Longrightarrow> volume es ss = view_volume v gid"
  by (simp add: view_volume_def volume_def flip: sum_mset_sum_list)

lemma view_net_lists:
  assumes "mset es = vw_expenses v gid" and "mset ss = vw_settlements v gid" and "exact_sums v gid"
  shows "get_or (computeNetBalances es ss c) u 0 = view_net v gid c u"
proof -
  have "volume es ss < 2 ^ 53" using view_volume_lists [OF assms(1,2)] assms(3) by (simp add: exact_sums_def)
  then show ?thesis
    using assms(1,2) by (simp add: view_net_def net_balances(2) flip: sum_mset_sum_list)
qed

section \<open>The contract\<close>

locale split_port =
  fixes ops :: "'s split_ops" and inv :: "'s \<Rightarrow> bool" and view :: "'s \<Rightarrow> splitView"
  assumes getGroup: "inv s \<Longrightarrow> op_getGroup ops s u gid =
      (if u \<in> vw_members (view s) gid then vw_group (view s) gid else None)"
    and listMembers: "inv s \<Longrightarrow> op_getGroup ops s u gid = Some g \<Longrightarrow>
      distinct (map mb_userId (op_listMembers ops s u gid)) \<and>
      set (map mb_userId (op_listMembers ops s u gid)) = vw_members (view s) gid"
    and listExpenses: "inv s \<Longrightarrow> op_getGroup ops s u gid = Some g \<Longrightarrow>
      mset (op_listExpenses ops s u gid) = vw_expenses (view s) gid"
    and listSettlements: "inv s \<Longrightarrow> op_getGroup ops s u gid = Some g \<Longrightarrow>
      mset (op_listSettlements ops s u gid) = vw_settlements (view s) gid"
    and createGroup: "inv s \<Longrightarrow>
      inv (op_createGroup ops s g m) \<and>
      view (op_createGroup ops s g m) = abs_create g (mb_userId m) (view s)"
    and archiveGroup: "inv s \<Longrightarrow> op_archiveGroup ops now s u gid = (ok, s') \<Longrightarrow>
      inv s' \<and> (view s' = view s \<or>
        (\<exists>g. vw_group (view s) gid = Some g \<and> view s' = abs_archive gid g now (view s)))"
    and createInvitation: "inv s \<Longrightarrow> op_createInvitation ops s u i = Inr s' \<Longrightarrow>
      inv s' \<and> view s' = view s"
    and acceptInvitation: "inv s \<Longrightarrow> op_acceptInvitation ops now s u iid = (joined, s') \<Longrightarrow>
      inv s' \<and> (view s' = view s \<or> (\<exists>gid. view s' = abs_join gid u (view s)))"
    and declineInvitation: "inv s \<Longrightarrow> op_declineInvitation ops now s u iid = (ok, s') \<Longrightarrow>
      inv s' \<and> view s' = view s"
    and revokeInvitation: "inv s \<Longrightarrow> op_revokeInvitation ops now s u gid iid = (ok, s') \<Longrightarrow>
      inv s' \<and> view s' = view s"
    and removeMember: "inv s \<Longrightarrow> op_removeMember ops now s u gid t = (rem, s') \<Longrightarrow>
      inv s' \<and> (if rem = Removed
        then view s' = abs_remove gid t (view s) \<and>
             (\<exists>g. vw_group (view s) gid = Some g \<and> gr_createdBy g \<noteq> Some t \<and>
                  (exact_sums (view s) gid \<longrightarrow> view_net (view s) gid (gr_currency g) t = 0))
        else view s' = view s)"
    and addExpense: "inv s \<Longrightarrow> op_addExpense ops s u e = Inr (e', s') \<Longrightarrow>
      inv s' \<and> e' = e \<and> u \<in> vw_members (view s) (ex_groupId e) \<and> view s' = abs_expense e (view s)"
    and addSettlement: "inv s \<Longrightarrow> op_addSettlement ops s u x = Inr (x', s') \<Longrightarrow>
      inv s' \<and> x' = x \<and> u \<in> vw_members (view s) (st_groupId x) \<and> view s' = abs_settle x (view s)"
begin

lemma getGroup_Some: "inv s \<Longrightarrow> op_getGroup ops s u gid = Some g \<Longrightarrow>
   u \<in> vw_members (view s) gid \<and> vw_group (view s) gid = Some g"
  by (auto simp: getGroup split: if_splits)

text \<open>A non-member is shown nothing of a group.\<close>

lemma getGroup_outsider: "inv s \<Longrightarrow> u \<notin> vw_members (view s) gid \<Longrightarrow> op_getGroup ops s u gid = None"
  by (simp add: getGroup)

lemma volume_read:
  "inv s \<Longrightarrow> op_getGroup ops s u gid = Some g \<Longrightarrow>
   volume (op_listExpenses ops s u gid) (op_listSettlements ops s u gid) = view_volume (view s) gid"
  by (rule view_volume_lists) (simp_all add: listExpenses listSettlements)

lemma balance_read:
  "inv s \<Longrightarrow> op_getGroup ops s u gid = Some g \<Longrightarrow> exact_sums (view s) gid \<Longrightarrow>
   get_or (computeNetBalances (op_listExpenses ops s u gid) (op_listSettlements ops s u gid) c) t 0
     = view_net (view s) gid c t"
  by (rule view_net_lists) (simp_all add: listExpenses listSettlements)

end

end
