(* ===== verification/SplitStore.thy ===== *)
theory SplitStore
  imports SplitPort
begin

text \<open>
  The store of shared-expense groups, \<open>InMemorySplitStore\<close> of \<open>infra/in-memory-store.ts\<close>,
  which the repository's tests use as the contract of the \<open>SplitStore\<close> port. Its state is the
  five maps of the class; a method that mutates is a function from the state to the new state.
  The time of \<open>new Date()\<close> is an argument \<open>now\<close>, and \<open>localeCompare\<close> the argument \<open>lc\<close>.

  The class implements the port: \<open>in_memory_splits\<close> is its record of operations, and the
  interpretation of \<open>split_port\<close> at the end discharges the contract.
\<close>

section \<open>State\<close>

record splitState =
  ss_groups :: "(string, splitGroup) jsmap"
  ss_members :: "(string, splitMember list) jsmap"
  ss_expenses :: "(string, splitExpense list) jsmap"
  ss_settlements :: "(string, splitSettlement list) jsmap"
  ss_invitations :: "(string, splitInvitation) jsmap"

definition emptySplitState :: splitState where
  "emptySplitState = \<lparr>ss_groups = [], ss_members = [], ss_expenses = [], ss_settlements = [],
     ss_invitations = []\<rparr>"

section \<open>Operations\<close>

definition membersOf :: "splitState \<Rightarrow> string \<Rightarrow> splitMember list" where
  "membersOf s groupId = get_or (ss_members s) groupId []"

definition memberIds :: "splitState \<Rightarrow> string \<Rightarrow> string list" where
  "memberIds s groupId = map mb_userId (membersOf s groupId)"

definition listGroups :: "(string \<Rightarrow> string \<Rightarrow> int) \<Rightarrow> splitState \<Rightarrow> string \<Rightarrow> splitGroup list" where
  "listGroups lc s userId =
     js_sort (cmp_or (\<lambda>a b. lc (gr_createdAt a) (gr_createdAt b)) (\<lambda>a b. lc (gr_id a) (gr_id b)))
       (filter (\<lambda>g. \<not> truthy (gr_archivedAt g) \<and> userId \<in> set (memberIds s (gr_id g)))
          (map snd (ss_groups s)))"

definition getGroup :: "splitState \<Rightarrow> string \<Rightarrow> string \<Rightarrow> splitGroup option" where
  "getGroup s userId groupId =
     (case map_of (ss_groups s) groupId of
        None \<Rightarrow> None
      | Some g \<Rightarrow> if userId \<in> set (memberIds s groupId) then Some g else None)"

definition createGroup :: "splitState \<Rightarrow> splitGroup \<Rightarrow> splitMember \<Rightarrow> splitState" where
  "createGroup s grp membership =
     s\<lparr>ss_groups := map_set (gr_id grp) grp (ss_groups s),
       ss_members := map_set (gr_id grp) [membership] (ss_members s)\<rparr>"

definition archiveGroup :: "string \<Rightarrow> splitState \<Rightarrow> string \<Rightarrow> string \<Rightarrow> bool \<times> splitState" where
  "archiveGroup now s userId groupId =
     (case getGroup s userId groupId of
        None \<Rightarrow> (False, s)
      | Some g \<Rightarrow>
          if truthy (gr_archivedAt g) then (False, s)
          else (True, s\<lparr>ss_groups := map_set groupId (g\<lparr>gr_archivedAt := Some now\<rparr>) (ss_groups s)\<rparr>))"

definition listMembers ::
  "(string \<Rightarrow> string \<Rightarrow> int) \<Rightarrow> splitState \<Rightarrow> string \<Rightarrow> string \<Rightarrow> splitMember list" where
  "listMembers lc s userId groupId =
     (if getGroup s userId groupId = None then []
      else js_sort (cmp_or (\<lambda>a b. lc (mb_joinedAt a) (mb_joinedAt b))
                           (\<lambda>a b. lc (mb_userId a) (mb_userId b)))
             (membersOf s groupId))"

definition isAdmin :: "splitState \<Rightarrow> string \<Rightarrow> string \<Rightarrow> bool" where
  "isAdmin s userId groupId \<longleftrightarrow>
     list_ex (\<lambda>m. mb_userId m = userId \<and> mb_role m = Admin) (membersOf s groupId)"

definition createInvitation ::
  "splitState \<Rightarrow> string \<Rightarrow> splitInvitation \<Rightarrow> store_error + splitState" where
  "createInvitation s userId invitation =
     (case getGroup s userId (iv_groupId invitation) of
        None \<Rightarrow> Inl NotActiveMember
      | Some g \<Rightarrow>
          if truthy (gr_archivedAt g) then Inl NotActiveMember
          else if \<not> isAdmin s userId (iv_groupId invitation) then Inl NotAdministrator
          else if iv_invitee invitation \<in> set (memberIds s (iv_groupId invitation))
          then Inl AlreadyMember
          else if list_ex (\<lambda>e. iv_groupId e = iv_groupId invitation \<and>
                    iv_invitee e = iv_invitee invitation \<and> iv_status e = Pending)
                 (map snd (ss_invitations s))
          then Inl AlreadyPending
          else Inr (s\<lparr>ss_invitations :=
                 map_set (iv_id invitation) invitation (ss_invitations s)\<rparr>))"

definition listInvitations :: "splitState \<Rightarrow> string \<Rightarrow> splitInvitation list" where
  "listInvitations s userId =
     filter (\<lambda>i. iv_invitee i = userId \<and> iv_status i = Pending) (map snd (ss_invitations s))"

definition listGroupInvitations :: "splitState \<Rightarrow> string \<Rightarrow> string \<Rightarrow> splitInvitation list" where
  "listGroupInvitations s userId groupId =
     (if getGroup s userId groupId = None \<or> \<not> isAdmin s userId groupId then []
      else filter (\<lambda>i. iv_groupId i = groupId) (map snd (ss_invitations s)))"

definition decide :: "string \<Rightarrow> invitationStatus \<Rightarrow> splitInvitation \<Rightarrow> splitInvitation" where
  "decide now status i = i\<lparr>iv_status := status, iv_decidedAt := Some now\<rparr>"

definition acceptInvitation ::
  "string \<Rightarrow> splitState \<Rightarrow> string \<Rightarrow> string \<Rightarrow> splitMember option \<times> splitState" where
  "acceptInvitation now s userId invitationId =
     (case map_of (ss_invitations s) invitationId of
        None \<Rightarrow> (None, s)
      | Some i \<Rightarrow>
          if iv_invitee i \<noteq> userId \<or> iv_status i \<noteq> Pending then (None, s)
          else (case map_of (ss_groups s) (iv_groupId i) of
             None \<Rightarrow> (None, s)
           | Some g \<Rightarrow>
               if truthy (gr_archivedAt g) then (None, s)
               else let membership = \<lparr>mb_groupId = iv_groupId i, mb_userId = userId,
                          mb_role = Member, mb_joinedAt = now\<rparr>;
                        rows = membersOf s (iv_groupId i);
                        rows' = (if userId \<in> set (map mb_userId rows) then rows
                                 else rows @ [membership])
                    in (Some membership,
                        s\<lparr>ss_members := map_set (iv_groupId i) rows' (ss_members s),
                          ss_invitations :=
                            map_set invitationId (decide now Accepted i) (ss_invitations s)\<rparr>)))"

definition declineInvitation ::
  "string \<Rightarrow> splitState \<Rightarrow> string \<Rightarrow> string \<Rightarrow> bool \<times> splitState" where
  "declineInvitation now s userId invitationId =
     (case map_of (ss_invitations s) invitationId of
        None \<Rightarrow> (False, s)
      | Some i \<Rightarrow>
          if iv_invitee i \<noteq> userId \<or> iv_status i \<noteq> Pending then (False, s)
          else (True, s\<lparr>ss_invitations :=
                 map_set invitationId (decide now Declined i) (ss_invitations s)\<rparr>))"

definition revokeInvitation ::
  "string \<Rightarrow> splitState \<Rightarrow> string \<Rightarrow> string \<Rightarrow> string \<Rightarrow> bool \<times> splitState" where
  "revokeInvitation now s userId groupId invitationId =
     (case map_of (ss_invitations s) invitationId of
        None \<Rightarrow> (False, s)
      | Some i \<Rightarrow>
          if getGroup s userId groupId = None \<or> \<not> isAdmin s userId groupId \<or>
             iv_groupId i \<noteq> groupId \<or> iv_status i \<noteq> Pending
          then (False, s)
          else (True, s\<lparr>ss_invitations :=
                 map_set invitationId (decide now Revoked i) (ss_invitations s)\<rparr>))"

text \<open>The two loops of \<open>removeMember\<close> that add up what the target is owed and owes.\<close>

definition net_expense :: "string \<Rightarrow> string \<Rightarrow> int \<Rightarrow> splitExpense \<Rightarrow> int" where
  "net_expense currency target net expense =
     (if ex_currency expense \<noteq> currency then net
      else foldl (\<lambda>n p. if pt_userId p = target then nadd n (- pt_amount p) else n)
             (if ex_paidBy expense = target then nadd net (ex_amount expense) else net)
             (ex_participants expense))"

definition net_settlement :: "string \<Rightarrow> string \<Rightarrow> int \<Rightarrow> splitSettlement \<Rightarrow> int" where
  "net_settlement currency target net settlement =
     (if st_currency settlement \<noteq> currency then net
      else let net' = (if st_from settlement = target then nadd net (st_amount settlement) else net)
           in if st_to settlement = target then nadd net' (- st_amount settlement) else net')"

definition member_net :: "splitState \<Rightarrow> string \<Rightarrow> string \<Rightarrow> string \<Rightarrow> int" where
  "member_net s groupId currency target =
     foldl (net_settlement currency target)
       (foldl (net_expense currency target) 0 (get_or (ss_expenses s) groupId []))
       (get_or (ss_settlements s) groupId [])"

definition removeMember ::
  "string \<Rightarrow> splitState \<Rightarrow> string \<Rightarrow> string \<Rightarrow> string \<Rightarrow> removal \<times> splitState" where
  "removeMember now s userId groupId targetUserId =
     (case getGroup s userId groupId of
        None \<Rightarrow> (NotFound, s)
      | Some g \<Rightarrow>
          if truthy (gr_archivedAt g) then (NotFound, s)
          else let members = membersOf s groupId;
                   actor = find (\<lambda>m. mb_userId m = userId) members;
                   target = find (\<lambda>m. mb_userId m = targetUserId) members
          in if target = None then (NotFound, s)
          else if gr_createdBy g = Some targetUserId then (Creator, s)
          else if userId \<noteq> targetUserId \<and> map_option mb_role actor \<noteq> Some Admin
          then (Forbidden, s)
          else if member_net s groupId (gr_currency g) targetUserId \<noteq> 0 then (BalanceNonzero, s)
          else (Removed,
            s\<lparr>ss_members :=
                map_set groupId (filter (\<lambda>m. mb_userId m \<noteq> targetUserId) members) (ss_members s),
              ss_invitations := map (\<lambda>(k, i).
                (k, if iv_groupId i = groupId \<and> iv_invitee i = targetUserId \<and> iv_status i = Accepted
                    then decide now (if userId = targetUserId then Left else RemovedFrom) i
                    else i)) (ss_invitations s)\<rparr>))"

definition listExpenses ::
  "(string \<Rightarrow> string \<Rightarrow> int) \<Rightarrow> splitState \<Rightarrow> string \<Rightarrow> string \<Rightarrow> splitExpense list" where
  "listExpenses lc s userId groupId =
     (if getGroup s userId groupId = None then []
      else js_sort (cmp_or (\<lambda>a b. lc (ex_date b) (ex_date a)) (\<lambda>a b. lc (ex_id b) (ex_id a)))
             (get_or (ss_expenses s) groupId []))"

definition addExpense ::
  "splitState \<Rightarrow> string \<Rightarrow> splitExpense \<Rightarrow> store_error + splitExpense \<times> splitState" where
  "addExpense s userId expense =
     (if getGroup s userId (ex_groupId expense) = None then Inl NotAMember
      else Inr (expense, s\<lparr>ss_expenses := map_set (ex_groupId expense)
             (get_or (ss_expenses s) (ex_groupId expense) [] @ [expense]) (ss_expenses s)\<rparr>))"

definition listSettlements ::
  "(string \<Rightarrow> string \<Rightarrow> int) \<Rightarrow> splitState \<Rightarrow> string \<Rightarrow> string \<Rightarrow> splitSettlement list" where
  "listSettlements lc s userId groupId =
     (if getGroup s userId groupId = None then []
      else js_sort (cmp_or (\<lambda>a b. lc (st_createdAt b) (st_createdAt a)) (\<lambda>a b. lc (st_id b) (st_id a)))
             (get_or (ss_settlements s) groupId []))"

definition addSettlement ::
  "splitState \<Rightarrow> string \<Rightarrow> splitSettlement \<Rightarrow> store_error + splitSettlement \<times> splitState" where
  "addSettlement s userId settlement =
     (if getGroup s userId (st_groupId settlement) = None then Inl NotAMember
      else Inr (settlement, s\<lparr>ss_settlements := map_set (st_groupId settlement)
             (get_or (ss_settlements s) (st_groupId settlement) [] @ [settlement])
             (ss_settlements s)\<rparr>))"

definition purgeExpenses :: "string \<Rightarrow> splitExpense list \<Rightarrow> splitExpense list" where
  "purgeExpenses userId rows =
     map (\<lambda>e. e\<lparr>ex_participants := filter (\<lambda>p. pt_userId p \<noteq> userId) (ex_participants e)\<rparr>)
       (filter (\<lambda>e. ex_paidBy e \<noteq> userId) rows)"

definition purgeUser :: "splitState \<Rightarrow> string \<Rightarrow> splitState" where
  "purgeUser s userId = s\<lparr>
     ss_members := map (\<lambda>(g, rows). (g, filter (\<lambda>m. mb_userId m \<noteq> userId) rows)) (ss_members s),
     ss_expenses := map (\<lambda>(g, rows). (g, purgeExpenses userId rows)) (ss_expenses s),
     ss_settlements := map (\<lambda>(g, rows).
       (g, filter (\<lambda>x. st_from x \<noteq> userId \<and> st_to x \<noteq> userId) rows)) (ss_settlements s)\<rparr>"

section \<open>The store as an implementation of the port\<close>

definition in_memory_splits :: "(string \<Rightarrow> string \<Rightarrow> int) \<Rightarrow> splitState split_ops" where
  "in_memory_splits lc = \<lparr>
     op_getGroup = getGroup, op_createGroup = createGroup, op_archiveGroup = archiveGroup,
     op_listMembers = listMembers lc, op_createInvitation = createInvitation,
     op_acceptInvitation = acceptInvitation, op_declineInvitation = declineInvitation,
     op_revokeInvitation = revokeInvitation, op_removeMember = removeMember,
     op_listExpenses = listExpenses lc, op_addExpense = addExpense,
     op_listSettlements = listSettlements lc, op_addSettlement = addSettlement\<rparr>"

definition splitInv :: "splitState \<Rightarrow> bool" where
  "splitInv s \<longleftrightarrow> (\<forall>gid. distinct (memberIds s gid))"

definition splitViewOf :: "splitState \<Rightarrow> splitView" where
  "splitViewOf s = \<lparr>vw_group = map_of (ss_groups s), vw_members = (\<lambda>gid. set (memberIds s gid)),
     vw_expenses = (\<lambda>gid. mset (get_or (ss_expenses s) gid [])),
     vw_settlements = (\<lambda>gid. mset (get_or (ss_settlements s) gid []))\<rparr>"

text \<open>The loops post the entries of the group to the position of one member.\<close>

definition post_one :: "string \<Rightarrow> int \<Rightarrow> (string \<times> int) list \<Rightarrow> int" where
  "post_one t n ds = foldl (\<lambda>n (u, d). if u = t then nadd n d else n) n ds"

lemma post_one_append: "post_one t n (ds @ ds') = post_one t (post_one t n ds) ds'"
  by (simp add: post_one_def)

lemma post_one_expense: "ex_currency e = c \<Longrightarrow> net_expense c t n e = post_one t n (expense_entries e)"
  by (simp add: net_expense_def post_one_def expense_entries_def foldl_map)

lemma post_one_settlement: "st_currency x = c \<Longrightarrow> net_settlement c t n x = post_one t n (settlement_entries x)"
  by (simp add: net_settlement_def post_one_def settlement_entries_def Let_def)

lemma member_net_post:
  "member_net s gid c t = post_one t 0 (entries (get_or (ss_expenses s) gid []) (get_or (ss_settlements s) gid []) c)"
proof -
  have "foldl (net_expense c t) n es = post_one t n (concat (map expense_entries (filter (\<lambda>e. ex_currency e = c) es)))" for n es
  proof (induction es arbitrary: n)
    case (Cons e es)
    then show ?case
      by (cases "ex_currency e = c") (simp_all add: post_one_expense post_one_append, simp add: net_expense_def)
  qed (simp add: post_one_def)
  moreover have "foldl (net_settlement c t) n ss =
      post_one t n (concat (map settlement_entries (filter (\<lambda>x. st_currency x = c) ss)))" for n ss
  proof (induction ss arbitrary: n)
    case (Cons x ss)
    then show ?case
      by (cases "st_currency x = c") (simp_all add: post_one_settlement post_one_append, simp add: net_settlement_def)
  qed (simp add: post_one_def)
  ultimately show ?thesis by (simp add: member_net_def entries_def post_one_append)
qed

lemma post_one_exact: "\<bar>n\<bar> + moved ds < 2 ^ 53 \<Longrightarrow> post_one t n ds = n + position ds t"
proof (induction ds arbitrary: n)
  case (Cons p ds)
  obtain u d where p: "p = (u, d)" by force
  have "\<bar>n\<bar> + \<bar>d\<bar> + moved ds < 2 ^ 53" using Cons.prems by (simp add: p)
  then have "\<bar>n + d\<bar> \<le> 2 ^ 53" "\<bar>n + d\<bar> + moved ds < 2 ^ 53" "\<bar>n\<bar> + moved ds < 2 ^ 53"
    using moved_nonneg [of ds] by linarith+
  with Cons.IH [of "n + d"] Cons.IH [of n] show ?case by (simp add: p post_one_def position_def)
qed (simp add: post_one_def position_def)

lemma member_net_view:
  assumes "exact_sums (splitViewOf s) gid"
  shows "member_net s gid c t = view_net (splitViewOf s) gid c t"
proof -
  let ?es = "get_or (ss_expenses s) gid []" and ?ss = "get_or (ss_settlements s) gid []"
  have "volume ?es ?ss < 2 ^ 53"
    using view_volume_lists [of ?es "splitViewOf s" gid ?ss] assms by (simp add: splitViewOf_def exact_sums_def)
  then have "moved (entries ?es ?ss c) < 2 ^ 53" using moved_entries by (rule le_less_trans [rotated])
  then have "member_net s gid c t = position (entries ?es ?ss c) t"
    by (simp add: member_net_post post_one_exact)
  then show ?thesis
    by (simp add: position_entries view_net_def splitViewOf_def flip: sum_mset_sum_list)
qed

lemmas view_ops = splitViewOf_def memberIds_def membersOf_def abs_create_def abs_archive_def
  abs_join_def abs_remove_def abs_expense_def abs_settle_def fun_eq_iff splitInv_def

lemma map_filter_users: "map mb_userId (filter (\<lambda>m. mb_userId m \<noteq> t) ms) = filter (\<lambda>u. u \<noteq> t) (map mb_userId ms)"
  by (simp add: filter_map comp_def)

lemma removeMember_contract:
  assumes "splitInv s" and "removeMember now s u gid t = (r, s')"
  shows "splitInv s' \<and> (if r = Removed
        then splitViewOf s' = abs_remove gid t (splitViewOf s) \<and>
             (\<exists>g. vw_group (splitViewOf s) gid = Some g \<and> gr_createdBy g \<noteq> Some t \<and>
                  (exact_sums (splitViewOf s) gid \<longrightarrow>
                    view_net (splitViewOf s) gid (gr_currency g) t = 0))
        else splitViewOf s' = splitViewOf s)"
proof (cases "r = Removed")
  case True
  then obtain g where g: "getGroup s u gid = Some g" "gr_createdBy g \<noteq> Some t"
      "member_net s gid (gr_currency g) t = 0"
      and s': "ss_groups s' = ss_groups s" "ss_expenses s' = ss_expenses s"
        "ss_settlements s' = ss_settlements s"
        "ss_members s' = map_set gid (filter (\<lambda>m. mb_userId m \<noteq> t) (membersOf s gid)) (ss_members s)"
    using assms(2) by (auto simp: removeMember_def Let_def split: option.splits if_splits)
  have "map_of (ss_groups s) gid = Some g"
    using g(1) by (auto simp: getGroup_def split: option.splits if_splits)
  moreover have "exact_sums (splitViewOf s) gid \<longrightarrow> view_net (splitViewOf s) gid (gr_currency g) t = 0"
    using g(3) member_net_view [of s gid "gr_currency g" t] by simp
  ultimately show ?thesis using assms(1) True g s'
    by (auto simp: view_ops map_filter_users)
next
  case False
  then have "s' = s"
    using assms(2) by (auto simp: removeMember_def Let_def split: option.splits if_splits)
  with False assms(1) show ?thesis by simp
qed

interpretation mem_splits: split_port "in_memory_splits lc" splitInv splitViewOf for lc
proof (unfold_locales, goal_cases)
  case (1 s u gid)
  then show ?case
    by (auto simp: in_memory_splits_def getGroup_def splitViewOf_def split: option.splits)
next
  case (2 s u gid g)
  then show ?case
    by (auto simp: in_memory_splits_def listMembers_def view_ops distinct_map_js_sort)
next
  case (3 s u gid g)
  then show ?case by (simp add: in_memory_splits_def listExpenses_def splitViewOf_def)
next
  case (4 s u gid g)
  then show ?case by (simp add: in_memory_splits_def listSettlements_def splitViewOf_def)
next
  case (5 s g m)
  then show ?case by (simp add: in_memory_splits_def createGroup_def view_ops)
next
  case (6 s now u gid r s')
  then show ?case
    by (auto simp: in_memory_splits_def archiveGroup_def getGroup_def view_ops
        split: option.splits if_splits)
next
  case (7 s u i s')
  then show ?case
    by (auto simp: in_memory_splits_def createInvitation_def view_ops split: option.splits if_splits)
next
  case (8 s now u iid r s')
  then show ?case
    by (auto simp: in_memory_splits_def acceptInvitation_def view_ops Let_def
        split: option.splits if_splits)
next
  case (9 s now u iid r s')
  then show ?case
    by (auto simp: in_memory_splits_def declineInvitation_def view_ops split: option.splits if_splits)
next
  case (10 s now u gid iid r s')
  then show ?case
    by (auto simp: in_memory_splits_def revokeInvitation_def view_ops split: option.splits if_splits)
next
  case (11 s now u gid t r s')
  then show ?case using removeMember_contract [of s now u gid t r s']
    by (simp add: in_memory_splits_def)
next
  case (12 s u e e' s')
  then show ?case
    by (auto simp: in_memory_splits_def addExpense_def getGroup_def view_ops
        split: option.splits if_splits)
next
  case (13 s u x x' s')
  then show ?case
    by (auto simp: in_memory_splits_def addSettlement_def getGroup_def view_ops
        split: option.splits if_splits)
qed

end
