(* ===== verification/SplitService.thy ===== *)
theory SplitService
  imports SplitStore
begin

text \<open>
  The shared-expense service, \<open>modules/split/split.service.ts\<close>, over any implementation of
  the port: the methods take the record of operations as the constructor takes the store. A
  method returns the HTTP error it throws or its result with the new state. The user directory
  (\<open>findByEmail\<close>, \<open>findById\<close>), the clock (\<open>today\<close>, \<open>now\<close>) and the random
  identifier (\<open>uuid\<close>) are arguments.

  The lemmas in \<open>split_port\<close> are about every implementation that meets the contract; the
  properties are their instances for the in-memory store.
\<close>

datatype http_error =
    BadRequest string
  | ForbiddenE string
  | NotFoundE string
  | StoreError store_error
  | RangeError range_error

section \<open>Inputs\<close>

record expenseInput =
  ei_description :: "string option"
  ei_category :: "string option"
  ei_amount :: "num option"
  ei_paidBy :: "string option"
  ei_method :: "splitMethod option"
  ei_memberIds :: "string list option"
  ei_shares :: "num share list option"

record settlementInput =
  si_to :: "string option"
  si_amount :: "num option"
  si_note :: "string option"

record groupDetail =
  gd_group :: splitGroup
  gd_members :: "splitMember list"
  gd_expenses :: "splitExpense list"
  gd_settlements :: "splitSettlement list"
  gd_balances :: "(string \<times> int) list"
  gd_suggestions :: "suggestion list"
  gd_emails :: "(string, string) jsmap"

definition or_empty :: "string option \<Rightarrow> string" where
  "or_empty x = (case x of None \<Rightarrow> [] | Some s \<Rightarrow> s)"

text \<open>\<open>!Number.isInteger(amount) || (amount ?? 0) <= 0\<close>\<close>

definition bad_amount :: "num option \<Rightarrow> bool" where
  "bad_amount a = (case a of None \<Rightarrow> True | Some n \<Rightarrow> \<not> isInteger n \<or> num_le n 0)"

definition is_currency_code :: "string \<Rightarrow> bool" where
  "is_currency_code c \<longleftrightarrow> length c = 3 \<and> list_all is_upper c"

section \<open>Guards\<close>

definition assertMember :: "'s split_ops \<Rightarrow> 's \<Rightarrow> string \<Rightarrow> string \<Rightarrow> http_error + splitGroup" where
  "assertMember ops s userId groupId =
     (case op_getGroup ops s userId groupId of
        None \<Rightarrow> Inl (NotFoundE ''Group not found.'')
      | Some g \<Rightarrow> Inr g)"

definition assertActiveMember ::
  "'s split_ops \<Rightarrow> 's \<Rightarrow> string \<Rightarrow> string \<Rightarrow> http_error + splitGroup" where
  "assertActiveMember ops s userId groupId =
     (case assertMember ops s userId groupId of
        Inl e \<Rightarrow> Inl e
      | Inr g \<Rightarrow> if truthy (gr_archivedAt g) then Inl (ForbiddenE ''This group is archived.'')
                 else Inr g)"

definition assertAdmin :: "'s split_ops \<Rightarrow> 's \<Rightarrow> string \<Rightarrow> string \<Rightarrow> http_error + splitGroup" where
  "assertAdmin ops s userId groupId =
     (case assertActiveMember ops s userId groupId of
        Inl e \<Rightarrow> Inl e
      | Inr g \<Rightarrow>
          if list_ex (\<lambda>m. mb_userId m = userId \<and> mb_role m = Admin) (op_listMembers ops s userId groupId)
          then Inr g
          else Inl (ForbiddenE ''Only a group administrator can manage invitations.''))"

section \<open>Groups and invitations\<close>

definition svc_createGroup ::
  "'s split_ops \<Rightarrow> string \<Rightarrow> string \<Rightarrow> string \<Rightarrow> 's \<Rightarrow> string \<Rightarrow> string option \<Rightarrow> string option
     \<Rightarrow> http_error + splitGroup \<times> 's" where
  "svc_createGroup ops uuid today now s userId name_in currency_in =
     (let nm = trim (or_empty name_in);
          currency = toUpperCase (case currency_in of None \<Rightarrow> ''USD'' | Some c \<Rightarrow> c)
      in if length nm < 1 \<or> length nm > 80
         then Inl (BadRequest ''Group name must be between 1 and 80 characters.'')
         else if \<not> is_currency_code currency
         then Inl (BadRequest ''currency must be a three-letter ISO code.'')
         else let g = \<lparr>gr_id = uuid, gr_name = nm, gr_currency = currency,
                       gr_createdBy = Some userId, gr_createdAt = today, gr_archivedAt = None\<rparr>
              in Inr (g, op_createGroup ops s g
                   \<lparr>mb_groupId = uuid, mb_userId = userId, mb_role = Admin, mb_joinedAt = now\<rparr>))"

definition svc_createInvitation ::
  "'s split_ops \<Rightarrow> (string \<Rightarrow> string option) \<Rightarrow> string \<Rightarrow> string \<Rightarrow> 's \<Rightarrow> string \<Rightarrow> string \<Rightarrow> string option
     \<Rightarrow> http_error + splitInvitation \<times> 's" where
  "svc_createInvitation ops findByEmail uuid now s userId groupId email_in =
     (case assertAdmin ops s userId groupId of
        Inl e \<Rightarrow> Inl e
      | Inr g \<Rightarrow>
          let email = toLowerCase (trim (or_empty email_in))
          in if email = [] then Inl (BadRequest ''email is required.'')
             else (case findByEmail email of
                None \<Rightarrow> Inl (BadRequest ''Unable to add that account.'')
              | Some invitee \<Rightarrow>
                  if list_ex (\<lambda>m. mb_userId m = invitee) (op_listMembers ops s userId groupId)
                  then Inl (BadRequest ''Unable to add that account.'')
                  else let i = \<lparr>iv_id = uuid, iv_groupId = groupId, iv_invitee = invitee,
                             iv_invitedBy = Some userId, iv_status = Pending, iv_createdAt = now,
                             iv_decidedAt = None\<rparr>
                       in (case op_createInvitation ops s userId i of
                             Inl e \<Rightarrow> Inl (StoreError e)
                           | Inr s' \<Rightarrow> Inr (i, s'))))"

definition svc_acceptInvitation ::
  "'s split_ops \<Rightarrow> string \<Rightarrow> 's \<Rightarrow> string \<Rightarrow> string \<Rightarrow> http_error + splitMember \<times> 's" where
  "svc_acceptInvitation ops now s userId invitationId =
     (case op_acceptInvitation ops now s userId invitationId of
        (None, s') \<Rightarrow> Inl (NotFoundE ''Invitation not found or no longer pending.'')
      | (Some m, s') \<Rightarrow> Inr (m, s'))"

definition svc_declineInvitation ::
  "'s split_ops \<Rightarrow> string \<Rightarrow> 's \<Rightarrow> string \<Rightarrow> string \<Rightarrow> http_error + 's" where
  "svc_declineInvitation ops now s userId invitationId =
     (case op_declineInvitation ops now s userId invitationId of
        (False, s') \<Rightarrow> Inl (NotFoundE ''Invitation not found or no longer pending.'')
      | (True, s') \<Rightarrow> Inr s')"

definition svc_revokeInvitation ::
  "'s split_ops \<Rightarrow> string \<Rightarrow> 's \<Rightarrow> string \<Rightarrow> string \<Rightarrow> string \<Rightarrow> http_error + 's" where
  "svc_revokeInvitation ops now s userId groupId invitationId =
     (case assertAdmin ops s userId groupId of
        Inl e \<Rightarrow> Inl e
      | Inr g \<Rightarrow>
          (case op_revokeInvitation ops now s userId groupId invitationId of
             (False, s') \<Rightarrow> Inl (NotFoundE ''Invitation not found or no longer pending.'')
           | (True, s') \<Rightarrow> Inr s'))"

definition svc_removeMember ::
  "'s split_ops \<Rightarrow> string \<Rightarrow> 's \<Rightarrow> string \<Rightarrow> string \<Rightarrow> string \<Rightarrow> http_error + 's" where
  "svc_removeMember ops now s userId groupId targetUserId =
     (case assertActiveMember ops s userId groupId of
        Inl e \<Rightarrow> Inl e
      | Inr g \<Rightarrow>
          (case op_removeMember ops now s userId groupId targetUserId of
             (Removed, s') \<Rightarrow> Inr s'
           | (BalanceNonzero, s') \<Rightarrow>
               Inl (BadRequest ''The member must settle their balance before leaving.'')
           | (Creator, s') \<Rightarrow> Inl (ForbiddenE ''The group creator cannot be removed.'')
           | (Forbidden, s') \<Rightarrow>
               Inl (ForbiddenE ''Only a group administrator can remove another member.'')
           | (NotFound, s') \<Rightarrow> Inl (NotFoundE ''Member not found.'')))"

definition svc_archiveGroup ::
  "'s split_ops \<Rightarrow> string \<Rightarrow> 's \<Rightarrow> string \<Rightarrow> string \<Rightarrow> http_error + 's" where
  "svc_archiveGroup ops now s userId groupId =
     (case assertMember ops s userId groupId of
        Inl e \<Rightarrow> Inl e
      | Inr g \<Rightarrow>
          if gr_createdBy g \<noteq> Some userId
          then Inl (ForbiddenE ''Only the group creator can archive a group.'')
          else (case op_archiveGroup ops now s userId groupId of
             (False, s') \<Rightarrow> Inl (NotFoundE ''Group not found.'')
           | (True, s') \<Rightarrow> Inr s'))"

section \<open>Expenses and settlements\<close>

definition participants_of :: "int share list \<Rightarrow> splitParticipant list" where
  "participants_of shares =
     map (\<lambda>sh. \<lparr>pt_expenseId = [], pt_userId = share_user sh, pt_amount = share_amount sh\<rparr>) shares"

text \<open>The participants of an expense: from the explicit shares, or by an equal split.\<close>

definition expenseParticipants ::
  "string list \<Rightarrow> num \<Rightarrow> expenseInput \<Rightarrow> http_error + splitParticipant list" where
  "expenseParticipants memberSet amount input =
     (if ei_method input = Some Shares
      then let shares = (case ei_shares input of None \<Rightarrow> [] | Some xs \<Rightarrow> xs)
           in if \<not> list_all (\<lambda>sh. share_user sh \<in> set memberSet) shares
              then Inl (BadRequest ''Every share must name a group member.'')
              else (case assertSharesReconcile amount shares of
                 Inl e \<Rightarrow> Inl (BadRequest ''Shares must be positive and sum exactly to the amount.'')
               | Inr _ \<Rightarrow> Inr (participants_of
                    (map (\<lambda>sh. Share (share_user sh) (int_of_num (share_amount sh))) shares)))
      else let ids = (case ei_memberIds input of Some (i # is) \<Rightarrow> i # is | _ \<Rightarrow> memberSet)
           in if \<not> list_all (\<lambda>i. i \<in> set memberSet) ids
              then Inl (BadRequest ''Every member must belong to the group.'')
              else (case splitEqually amount (set_of ids) of
                 Inl e \<Rightarrow> Inl (RangeError e)
               | Inr shares \<Rightarrow> Inr (participants_of shares)))"

text \<open>What \<open>addExpense\<close> does before it calls the store: the checks and the new row.\<close>

definition prepareExpense ::
  "'s split_ops \<Rightarrow> string \<Rightarrow> string \<Rightarrow> string \<Rightarrow> 's \<Rightarrow> string \<Rightarrow> string \<Rightarrow> expenseInput
     \<Rightarrow> http_error + splitExpense" where
  "prepareExpense ops uuid today now s userId groupId input =
     (case assertActiveMember ops s userId groupId of
        Inl e \<Rightarrow> Inl e
      | Inr g \<Rightarrow>
          let description = trim (or_empty (ei_description input))
          in if length description < 1 \<or> length description > 200
             then Inl (BadRequest ''Description must be between 1 and 200 characters.'')
             else if bad_amount (ei_amount input)
             then Inl (BadRequest ''amount must be a positive integer in minor units.'')
             else let amount = the (ei_amount input);
                      memberSet = set_of (map mb_userId (op_listMembers ops s userId groupId));
                      paidBy = (case ei_paidBy input of None \<Rightarrow> userId | Some p \<Rightarrow> p)
                  in if paidBy \<noteq> userId
                     then Inl (ForbiddenE ''Only the authenticated member can claim payment.'')
                     else (case expenseParticipants memberSet amount input of
                        Inl e \<Rightarrow> Inl e
                      | Inr participants \<Rightarrow> Inr
                          \<lparr>ex_id = uuid, ex_groupId = groupId, ex_description = description,
                           ex_category = toLowerCase
                             (case ei_category input of None \<Rightarrow> ''other'' | Some c \<Rightarrow> c),
                           ex_amount = int_of_num amount, ex_currency = gr_currency g,
                           ex_paidBy = paidBy,
                           ex_method = (case ei_method input of None \<Rightarrow> Equal | Some m \<Rightarrow> m),
                           ex_date = today, ex_createdAt = now, ex_participants = participants\<rparr>))"

definition svc_addExpense ::
  "'s split_ops \<Rightarrow> string \<Rightarrow> string \<Rightarrow> string \<Rightarrow> 's \<Rightarrow> string \<Rightarrow> string \<Rightarrow> expenseInput
     \<Rightarrow> http_error + splitExpense \<times> 's" where
  "svc_addExpense ops uuid today now s userId groupId input =
     (case prepareExpense ops uuid today now s userId groupId input of
        Inl e \<Rightarrow> Inl e
      | Inr expense \<Rightarrow>
          (case op_addExpense ops s userId expense of
             Inl e \<Rightarrow> Inl (StoreError e)
           | Inr (created, s') \<Rightarrow> Inr (created, s')))"

definition svc_addSettlement ::
  "'s split_ops \<Rightarrow> string \<Rightarrow> string \<Rightarrow> 's \<Rightarrow> string \<Rightarrow> string \<Rightarrow> settlementInput
     \<Rightarrow> http_error + splitSettlement \<times> 's" where
  "svc_addSettlement ops uuid now s userId groupId input =
     (case assertActiveMember ops s userId groupId of
        Inl e \<Rightarrow> Inl e
      | Inr g \<Rightarrow>
          if \<not> truthy (si_to input) then Inl (BadRequest ''toUserId is required.'')
          else let toUser = or_empty (si_to input)
          in if toUser = userId then Inl (BadRequest ''You cannot settle up with yourself.'')
             else if \<not> list_ex (\<lambda>m. mb_userId m = toUser) (op_listMembers ops s userId groupId)
             then Inl (BadRequest ''toUserId must be a group member.'')
             else if bad_amount (si_amount input)
             then Inl (BadRequest ''amount must be a positive integer in minor units.'')
             else (case op_addSettlement ops s userId
                 \<lparr>st_id = uuid, st_groupId = groupId, st_from = userId, st_to = toUser,
                  st_amount = int_of_num (the (si_amount input)), st_currency = gr_currency g,
                  st_note = trim (or_empty (si_note input)), st_createdAt = now\<rparr> of
                 Inl e \<Rightarrow> Inl (StoreError e)
               | Inr (x, s') \<Rightarrow> Inr (x, s')))"

section \<open>The group's page\<close>

definition resolveEmails :: "(string \<Rightarrow> string option) \<Rightarrow> string list \<Rightarrow> (string, string) jsmap" where
  "resolveEmails emailOf ids =
     foldl (\<lambda>m i. if truthy (emailOf i) then map_set i (or_empty (emailOf i)) m else m) [] (set_of ids)"

definition svc_groupDetail ::
  "'s split_ops \<Rightarrow> (string \<Rightarrow> string option) \<Rightarrow> 's \<Rightarrow> string \<Rightarrow> string \<Rightarrow> http_error + groupDetail" where
  "svc_groupDetail ops emailOf s userId groupId =
     (case assertMember ops s userId groupId of
        Inl e \<Rightarrow> Inl e
      | Inr g \<Rightarrow>
          let members = op_listMembers ops s userId groupId;
              expenses = op_listExpenses ops s userId groupId;
              settlements = op_listSettlements ops s userId groupId;
              net = computeNetBalances expenses settlements (gr_currency g)
          in Inr \<lparr>gd_group = g, gd_members = members, gd_expenses = expenses,
                  gd_settlements = settlements,
                  gd_balances = balancesFor net (map mb_userId members),
                  gd_suggestions = suggestSettlements net,
                  gd_emails = resolveEmails emailOf (map mb_userId members)\<rparr>)"

section \<open>Service steps\<close>

text \<open>
  The requests to the service, one method at a time, with any amounts; a fresh group id is one under which the state
  holds nothing. The deletion of an account is not a request to this service. Runs are those on which the store stays
  \<open>safe\<close>, instantiated below with groups whose volume is within the range of exact sums.
\<close>

inductive split_step :: "'s split_ops \<Rightarrow> ('s \<Rightarrow> string \<Rightarrow> bool) \<Rightarrow> 's \<Rightarrow> 's \<Rightarrow> bool"
  for ops fresh where
  Create: "svc_createGroup ops uuid today now s u nm cur = Inr (g, s') \<Longrightarrow> fresh s uuid \<Longrightarrow>
    split_step ops fresh s s'"
| Invite: "svc_createInvitation ops findByEmail uuid now s u gid em = Inr (i, s') \<Longrightarrow>
    split_step ops fresh s s'"
| Accept: "svc_acceptInvitation ops now s u iid = Inr (m, s') \<Longrightarrow> split_step ops fresh s s'"
| Decline: "svc_declineInvitation ops now s u iid = Inr s' \<Longrightarrow> split_step ops fresh s s'"
| Revoke: "svc_revokeInvitation ops now s u gid iid = Inr s' \<Longrightarrow> split_step ops fresh s s'"
| Remove: "svc_removeMember ops now s u gid t = Inr s' \<Longrightarrow> split_step ops fresh s s'"
| Archive: "svc_archiveGroup ops now s u gid = Inr s' \<Longrightarrow> split_step ops fresh s s'"
| Expense: "svc_addExpense ops uuid today now s u gid inp = Inr (e, s') \<Longrightarrow> split_step ops fresh s s'"
| Settle: "svc_addSettlement ops uuid now s u gid sinp = Inr (x, s') \<Longrightarrow> split_step ops fresh s s'"

inductive split_reach :: "'s split_ops \<Rightarrow> ('s \<Rightarrow> string \<Rightarrow> bool) \<Rightarrow> ('s \<Rightarrow> bool) \<Rightarrow> 's \<Rightarrow> 's \<Rightarrow> bool"
  for ops fresh safe s0 where
  Start: "safe s0 \<Longrightarrow> split_reach ops fresh safe s0 s0"
| Step: "split_reach ops fresh safe s0 s \<Longrightarrow> split_step ops fresh s s' \<Longrightarrow> safe s' \<Longrightarrow> split_reach ops fresh safe s0 s'"

section \<open>The invariant of a group's ledger\<close>

text \<open>
  Every expense is balanced and in the group's currency, and whoever is not a member has a
  position of zero: nobody leaves with a debt, and nothing names an outsider.
\<close>

definition view_ok :: "splitView \<Rightarrow> bool" where
  "view_ok v \<longleftrightarrow> (\<forall>gid. (\<forall>e \<in># vw_expenses v gid. balanced_expense e) \<and>
     (\<forall>g. vw_group v gid = Some g \<longrightarrow>
        (\<forall>u. u \<notin> vw_members v gid \<longrightarrow> view_net v gid (gr_currency g) u = 0)))"

lemma view_okD:
  "view_ok v \<Longrightarrow> e \<in># vw_expenses v gid \<Longrightarrow> balanced_expense e"
  "view_ok v \<Longrightarrow> vw_group v gid = Some g \<Longrightarrow> u \<notin> vw_members v gid \<Longrightarrow>
   view_net v gid (gr_currency g) u = 0"
  by (simp_all add: view_ok_def)

text \<open>An expense all of whose names are members leaves an outsider's position alone.\<close>

lemma expense_effect_outsider:
  "ex_paidBy e \<noteq> u \<Longrightarrow> u \<notin> pt_userId ` set (ex_participants e) \<Longrightarrow> expense_effect c u e = 0"
proof -
  assume "ex_paidBy e \<noteq> u" and "u \<notin> pt_userId ` set (ex_participants e)"
  moreover from this have "filter (\<lambda>p. pt_userId p = u) (ex_participants e) = []"
    by (auto simp: filter_empty_conv)
  ultimately show ?thesis by (simp add: expense_effect_def)
qed

lemma view_net_simps:
  "view_net (abs_expense e v) gid c u =
     view_net v gid c u + (if gid = ex_groupId e then expense_effect c u e else 0)"
  "view_net (abs_settle x v) gid c u =
     view_net v gid c u + (if gid = st_groupId x then settlement_effect c u x else 0)"
  "view_net (abs_join gid' w v) gid c u = view_net v gid c u"
  "view_net (abs_remove gid' w v) gid c u = view_net v gid c u"
  "view_net (abs_archive gid' g now v) gid c u = view_net v gid c u"
  "view_net (abs_create g w v) gid c u = view_net v gid c u"
  by (simp_all add: view_net_def abs_expense_def abs_settle_def abs_join_def abs_remove_def
      abs_archive_def abs_create_def)

lemma view_ok_expense:
  assumes "view_ok v" and "balanced_expense e"
    and "ex_paidBy e \<in> vw_members v (ex_groupId e)"
    and "pt_userId ` set (ex_participants e) \<subseteq> vw_members v (ex_groupId e)"
  shows "view_ok (abs_expense e v)"
  unfolding view_ok_def view_net_simps
proof (intro allI conjI ballI impI)
  fix gid e' assume "e' \<in># vw_expenses (abs_expense e v) gid"
  then show "balanced_expense e'"
    using assms(1,2) by (auto simp: abs_expense_def view_ok_def split: if_splits)
next
  fix gid g u assume "vw_group (abs_expense e v) gid = Some g"
    and "u \<notin> vw_members (abs_expense e v) gid"
  then show "view_net v gid (gr_currency g) u
      + (if gid = ex_groupId e then expense_effect (gr_currency g) u e else 0) = 0"
    using assms by (auto simp: abs_expense_def view_okD intro!: expense_effect_outsider)
qed

lemma view_ok_settle:
  assumes "view_ok v" and "st_from x \<in> vw_members v (st_groupId x)"
    and "st_to x \<in> vw_members v (st_groupId x)"
  shows "view_ok (abs_settle x v)"
  using assms unfolding view_ok_def view_net_simps
  by (auto simp: abs_settle_def settlement_effect_def)

lemma view_ok_members:
  "view_ok v \<Longrightarrow> view_ok (abs_join gid u v)"
  "view_ok v \<Longrightarrow> vw_group v gid = Some g \<Longrightarrow> view_net v gid (gr_currency g) u = 0 \<Longrightarrow>
   view_ok (abs_remove gid u v)"
  "view_ok v \<Longrightarrow> vw_group v gid = Some g \<Longrightarrow> view_ok (abs_archive gid g now v)"
  "view_ok v \<Longrightarrow> vw_expenses v (gr_id g) = {#} \<Longrightarrow> vw_settlements v (gr_id g) = {#} \<Longrightarrow>
   view_ok (abs_create g u v)"
  unfolding view_ok_def view_net_simps
  by (auto simp: abs_join_def abs_remove_def abs_archive_def abs_create_def view_net_def)

section \<open>What the participants of an accepted expense are\<close>

lemma splitEqually_Inr:
  assumes "splitEqually amount us = Inr shares" and "int_of_num amount < 2 ^ 53"
  shows "0 < int_of_num amount \<and> map share_user shares = us \<and>
    sum_list (map share_amount shares) = int_of_num amount"
proof -
  have ok: "isInteger amount \<and> \<not> num_le amount 0" and us: "us \<noteq> []"
    using assms(1) by (auto simp: splitEqually_def split: if_splits)
  then obtain a where a: "0 < a" "amount = Num (of_int a)" using positive_integer_iff by blast
  with assms(2) have "a < 2 ^ 53" by simp
  note b = share_bounds [OF a(1) \<open>a < 2 ^ 53\<close> us]
  moreover have "shares = split_map (a div int (length us)) (a mod int (length us)) us"
    using splitEqually_ok [OF a(1) \<open>a < 2 ^ 53\<close> us] assms(1) a(2) by simp
  ultimately show ?thesis using split_map_sum [OF b(1,2,3,5,4)] a by simp
qed

lemma participants_of_simps [simp]:
  "map pt_userId (participants_of shares) = map share_user shares"
  "map pt_amount (participants_of shares) = map share_amount shares"
  "pt_userId ` set (participants_of shares) = share_user ` set shares"
  by (auto simp: participants_of_def image_image)

lemma expenseParticipants_Inr:
  assumes "expenseParticipants ms amount input = Inr ps" and "int_of_num amount < 2 ^ 53"
  shows "sum_list (map pt_amount ps) = int_of_num amount \<and> pt_userId ` set ps \<subseteq> set ms \<and>
    distinct (map pt_userId ps)"
proof (cases "ei_method input = Some Shares")
  case True
  define shares where "shares = (case ei_shares input of None \<Rightarrow> [] | Some xs \<Rightarrow> xs)"
  have r: "assertSharesReconcile amount shares = Inr ()"
    and m: "\<forall>sh \<in> set shares. share_user sh \<in> set ms"
    and p: "ps = participants_of (map (\<lambda>sh. Share (share_user sh) (int_of_num (share_amount sh))) shares)"
    using assms(1) True
    by (auto simp: expenseParticipants_def Let_def list_all_iff shares_def [symmetric]
        split: if_splits sum.splits)
  from r have "distinct (map share_user shares)"
    "amount = Num (of_int (sum_list (map (int_of_num \<circ> share_amount) shares)))"
    using assms(2) by (simp_all add: assertSharesReconcile_def check_shares_ok_iff)
  with m p show ?thesis by (auto simp: image_image comp_def)
next
  case False
  define ids where "ids = (case ei_memberIds input of Some (i # is) \<Rightarrow> i # is | _ \<Rightarrow> ms)"
  obtain shares where s: "splitEqually amount (set_of ids) = Inr shares" "ps = participants_of shares"
      and m: "set ids \<subseteq> set ms"
    using assms(1) False
    by (auto simp: expenseParticipants_def Let_def list_all_iff ids_def [symmetric]
        split: if_splits sum.splits)
  have "map share_user shares = set_of ids" using splitEqually_Inr [OF s(1) assms(2)] by simp
  moreover from this have "share_user ` set shares = set ids" by (metis set_map set_set_of)
  ultimately show ?thesis using splitEqually_Inr [OF s(1) assms(2)] s(2) m by simp
qed

section \<open>The store call behind a successful request\<close>

lemma svc_store_calls:
  "svc_createInvitation ops f uuid now s w gid em = Inr (i, s') \<Longrightarrow> op_createInvitation ops s w i = Inr s'"
  "svc_acceptInvitation ops now s w iid = Inr (m, s') \<Longrightarrow> op_acceptInvitation ops now s w iid = (Some m, s')"
  "svc_declineInvitation ops now s w iid = Inr s' \<Longrightarrow> op_declineInvitation ops now s w iid = (True, s')"
  "svc_revokeInvitation ops now s w gid iid = Inr s' \<Longrightarrow> op_revokeInvitation ops now s w gid iid = (True, s')"
  "svc_removeMember ops now s w gid t = Inr s' \<Longrightarrow> op_removeMember ops now s w gid t = (Removed, s')"
  "svc_archiveGroup ops now s w gid = Inr s' \<Longrightarrow> op_archiveGroup ops now s w gid = (True, s')"
  "svc_addExpense ops uuid today now s w gid inp = Inr (e, s') \<Longrightarrow>
     \<exists>e0. op_addExpense ops s w e0 = Inr (e, s')"
  "svc_addSettlement ops uuid now s w gid sinp = Inr (x, s') \<Longrightarrow>
     \<exists>x0. op_addSettlement ops s w x0 = Inr (x, s')"
  by (auto simp: svc_createInvitation_def svc_acceptInvitation_def svc_declineInvitation_def
      svc_revokeInvitation_def svc_removeMember_def svc_archiveGroup_def svc_addExpense_def
      svc_addSettlement_def Let_def
      split: sum.splits option.splits prod.splits bool.splits removal.splits if_splits)

section \<open>Facts about any implementation of the port\<close>

context split_port begin

lemma assertMember_Inr:
  "inv s \<Longrightarrow> assertMember ops s u gid = Inr g \<Longrightarrow>
   op_getGroup ops s u gid = Some g \<and> u \<in> vw_members (view s) gid \<and> vw_group (view s) gid = Some g"
  using getGroup_Some [of s u gid g] by (auto simp: assertMember_def split: option.splits)

lemma assertActiveMember_Inr:
  "inv s \<Longrightarrow> assertActiveMember ops s u gid = Inr g \<Longrightarrow>
   op_getGroup ops s u gid = Some g \<and> u \<in> vw_members (view s) gid \<and>
   vw_group (view s) gid = Some g \<and> \<not> truthy (gr_archivedAt g)"
  using assertMember_Inr [of s u gid g]
  by (auto simp: assertActiveMember_def split: sum.splits if_splits)

lemma prepareExpense_Inr:
  assumes "inv s" and "prepareExpense ops uuid today now s u gid inp = Inr e"
  shows "ex_groupId e = gid \<and> ex_paidBy e = u \<and> u \<in> vw_members (view s) gid \<and>
    (ex_amount e < 2 ^ 53 \<longrightarrow> balanced_expense e \<and>
      pt_userId ` set (ex_participants e) \<subseteq> vw_members (view s) gid)"
proof -
  obtain g where g: "assertActiveMember ops s u gid = Inr g"
    using assms(2) by (auto simp: prepareExpense_def split: sum.splits)
  note member = assertActiveMember_Inr [OF assms(1) g]
  obtain amount ps where ps: "ei_amount inp = Some amount"
      "expenseParticipants (set_of (map mb_userId (op_listMembers ops s u gid))) amount inp = Inr ps"
      "ex_participants e = ps" "ex_amount e = int_of_num amount" "ex_groupId e = gid" "ex_paidBy e = u"
    using assms(2) g
    by (auto simp: prepareExpense_def Let_def bad_amount_def split: sum.splits if_splits option.splits)
  have "balanced_expense e \<and> pt_userId ` set (ex_participants e) \<subseteq> vw_members (view s) gid"
    if "int_of_num amount < 2 ^ 53"
    using expenseParticipants_Inr [OF ps(2) that] member listMembers [OF assms(1)] ps
    by (auto simp: balanced_expense_def)
  then show ?thesis using member ps(4-6) by simp
qed

lemma svc_addExpense_Inr:
  assumes "inv s" and "svc_addExpense ops uuid today now s u gid inp = Inr (e, s')" and "exact_sums (view s') gid"
  shows "inv s' \<and> view s' = abs_expense e (view s) \<and> balanced_expense e \<and> ex_groupId e = gid \<and>
    ex_paidBy e = u \<and> u \<in> vw_members (view s) gid \<and>
    pt_userId ` set (ex_participants e) \<subseteq> vw_members (view s) gid"
proof -
  obtain e0 where e0: "prepareExpense ops uuid today now s u gid inp = Inr e0"
      "op_addExpense ops s u e0 = Inr (e, s')"
    using assms(2) by (auto simp: svc_addExpense_def split: sum.splits)
  note add = addExpense [OF assms(1) e0(2)]
  with prepareExpense_Inr [OF assms(1) e0(1)] have p: "ex_groupId e = gid" "ex_paidBy e = u"
    "u \<in> vw_members (view s) gid" "ex_amount e < 2 ^ 53 \<longrightarrow> balanced_expense e \<and>
      pt_userId ` set (ex_participants e) \<subseteq> vw_members (view s) gid" by simp_all
  have "ex_amount e \<le> moved (expense_entries e)"
    by (simp add: expense_entries_def) (metis abs_ge_self add_increasing2 moved_nonneg)
  also have "\<dots> \<le> view_volume (view s') gid"
    using add p(1) by (simp add: view_volume_def abs_expense_def moved_sum_nonneg)
  finally have "ex_amount e < 2 ^ 53" using assms(3) by (simp add: exact_sums_def)
  with add p show ?thesis by simp
qed

lemma svc_addSettlement_Inr:
  assumes "inv s" and "svc_addSettlement ops uuid now s u gid inp = Inr (x, s')"
  shows "inv s' \<and> view s' = abs_settle x (view s) \<and> st_groupId x = gid \<and> st_from x = u \<and>
    st_to x \<noteq> u \<and> 0 < st_amount x \<and>
    u \<in> vw_members (view s) gid \<and> st_to x \<in> vw_members (view s) gid"
proof -
  obtain g where g: "assertActiveMember ops s u gid = Inr g"
    using assms(2) by (auto simp: svc_addSettlement_def split: sum.splits)
  note member = assertActiveMember_Inr [OF assms(1) g]
  define row where "row n = \<lparr>st_id = uuid, st_groupId = gid, st_from = u,
      st_to = or_empty (si_to inp), st_amount = int_of_num n, st_currency = gr_currency g,
      st_note = trim (or_empty (si_note inp)), st_createdAt = now\<rparr>" for n
  obtain n where n: "op_addSettlement ops s u (row n) = Inr (x, s')" "or_empty (si_to inp) \<noteq> u"
      "isInteger n \<and> \<not> num_le n 0"
      "list_ex (\<lambda>m. mb_userId m = or_empty (si_to inp)) (op_listMembers ops s u gid)"
    using assms(2) g
    by (auto simp: svc_addSettlement_def Let_def bad_amount_def row_def
        split: sum.splits if_splits option.splits)
  have "or_empty (si_to inp) \<in> set (map mb_userId (op_listMembers ops s u gid))"
    using n(4) by (auto simp: list_ex_iff image_iff eq_commute)
  then have to: "or_empty (si_to inp) \<in> vw_members (view s) gid"
    using member listMembers [OF assms(1)] by blast
  have "0 < int_of_num n" using n(3) positive_integer_iff [of n] by auto
  then show ?thesis using addSettlement [OF assms(1) n(1)] member to n(2)
    by (simp add: row_def)
qed

lemma split_step_preserves:
  assumes "split_step ops fresh s s'" and "inv s" and "view_ok (view s)"
    and exact: "\<And>gid. exact_sums (view s) gid" "\<And>gid. exact_sums (view s') gid"
    and fresh: "\<And>gid. fresh s gid \<Longrightarrow>
      vw_expenses (view s) gid = {#} \<and> vw_settlements (view s) gid = {#}"
  shows "inv s' \<and> view_ok (view s')"
  using assms(1)
proof cases
  case (Create uuid today now u nm cur g)
  then obtain m where "s' = op_createGroup ops s g m" and "gr_id g = uuid"
    by (auto simp: svc_createGroup_def Let_def split: if_splits)
  with createGroup [OF assms(2), of g m] fresh [OF Create(2)] assms(3) show ?thesis
    by (simp add: view_ok_members)
next
  case (Invite findByEmail uuid now u gid em i)
  from createInvitation [OF assms(2) svc_store_calls(1) [OF this]] assms(3) show ?thesis by simp
next
  case (Accept now u iid m)
  from acceptInvitation [OF assms(2) svc_store_calls(2) [OF this]] assms(3) show ?thesis
    by (auto simp: view_ok_members)
next
  case (Decline now u iid)
  from declineInvitation [OF assms(2) svc_store_calls(3) [OF this]] assms(3) show ?thesis by simp
next
  case (Revoke now u gid iid)
  from revokeInvitation [OF assms(2) svc_store_calls(4) [OF this]] assms(3) show ?thesis by simp
next
  case (Remove now u gid t)
  from removeMember [OF assms(2) svc_store_calls(5) [OF this]] assms(3) exact(1) show ?thesis
    by (auto simp: view_ok_members)
next
  case (Archive now u gid)
  from archiveGroup [OF assms(2) svc_store_calls(6) [OF this]] assms(3) show ?thesis
    by (auto simp: view_ok_members)
next
  case (Expense uuid today now u gid inp e)
  from svc_addExpense_Inr [OF assms(2) this exact(2)] show ?thesis
    using assms(3) by (auto intro!: view_ok_expense)
next
  case (Settle uuid now u gid sinp x)
  from svc_addSettlement_Inr [OF assms(2) this] show ?thesis
    using assms(3) by (auto intro!: view_ok_settle)
qed

lemma split_reach_ok:
  assumes "split_reach ops fresh safe s0 s" and "inv s0" and "view_ok (view s0)"
    and "\<And>s gid. safe s \<Longrightarrow> exact_sums (view s) gid"
    and "\<And>s gid. fresh s gid \<Longrightarrow>
      vw_expenses (view s) gid = {#} \<and> vw_settlements (view s) gid = {#}"
  shows "safe s \<and> inv s \<and> view_ok (view s)"
  using assms(1)
proof induction
  case Start
  then show ?case using assms(2,3) by simp
next
  case (Step s s')
  then show ?case using split_step_preserves [of fresh s s'] assms(4,5) by blast
qed

text \<open>The page of a group whose ledger satisfies the invariant.\<close>

lemma groupDetail_ok:
  assumes "inv s" and "view_ok (view s)" and "svc_groupDetail ops emailOf s u gid = Inr d"
    and exact: "exact_sums (view s) gid"
  shows "u \<in> vw_members (view s) gid \<and>
    map fst (gd_balances d) = map mb_userId (gd_members d) \<and>
    sum_list (map snd (gd_balances d)) = 0 \<and>
    (\<forall>p \<in> set (gd_suggestions d). 0 < sg_amount p \<and>
       sg_from p \<in> mb_userId ` set (gd_members d) \<and> sg_to p \<in> mb_userId ` set (gd_members d))"
proof -
  obtain g where g: "assertMember ops s u gid = Inr g"
    using assms(3) by (auto simp: svc_groupDetail_def split: sum.splits)
  note member = assertMember_Inr [OF assms(1) g]
  let ?ms = "map mb_userId (op_listMembers ops s u gid)"
  let ?net = "computeNetBalances (op_listExpenses ops s u gid) (op_listSettlements ops s u gid)
      (gr_currency g)"
  have d: "gd_members d = op_listMembers ops s u gid" "gd_balances d = balancesFor ?net ?ms"
      "gd_suggestions d = suggestSettlements ?net"
    using assms(3) g by (auto simp: svc_groupDetail_def Let_def)
  have ms: "distinct ?ms" "set ?ms = vw_members (view s) gid"
    using listMembers [OF assms(1)] member by blast+
  have vol: "volume (op_listExpenses ops s u gid) (op_listSettlements ops s u gid) < 2 ^ 53"
    using volume_read [OF assms(1)] member exact by (simp add: exact_sums_def)
  have zero: "get_or ?net v 0 = 0" if "v \<notin> set ?ms" for v
    using that member ms(2) balance_read [OF assms(1) _ exact] assms(2) by (simp add: view_okD(2))
  have bal: "list_all balanced_expense (op_listExpenses ops s u gid)"
    using listExpenses [OF assms(1)] member assms(2)
    by (metis list_all_iff set_mset_mset view_okD(1))
  have "sum_list (map snd (gd_balances d)) = map_total ?net"
    using sum_values_over [OF ms(1), of ?net] zero net_balances(1) [OF vol]
    by (simp add: d balancesFor_def comp_def)
  moreover have "map_total ?net = 0" using net_balances(4) [OF vol bal] .
  moreover have "\<forall>p \<in> set (suggestSettlements ?net). 0 < sg_amount p \<and>
      get_or ?net (sg_from p) 0 \<noteq> 0 \<and> get_or ?net (sg_to p) 0 \<noteq> 0"
    using suggestion_names [OF bounded_net [OF vol]] .
  ultimately show ?thesis using member zero
    by (auto simp: d balancesFor_def comp_def simp flip: set_map)
qed

end

section \<open>Properties of the service on the in-memory store\<close>

definition mem_fresh :: "splitState \<Rightarrow> string \<Rightarrow> bool" where
  "mem_fresh s gid \<longleftrightarrow> gid \<notin> set (map fst (ss_groups s)) \<and>
     gid \<notin> set (map fst (ss_expenses s)) \<and> gid \<notin> set (map fst (ss_settlements s))"

text \<open>All amounts ever entered in any one group add up to less than \<open>2 ^ 53\<close> minor units.\<close>

definition mem_exact :: "splitState \<Rightarrow> bool" where
  "mem_exact s \<longleftrightarrow> list_all (\<lambda>gid. volume (get_or (ss_expenses s) gid []) (get_or (ss_settlements s) gid []) < 2 ^ 53)
     (map fst (ss_expenses s) @ map fst (ss_settlements s))"

abbreviation reachable_split :: "(string \<Rightarrow> string \<Rightarrow> int) \<Rightarrow> splitState \<Rightarrow> bool" where
  "reachable_split lc \<equiv> split_reach (in_memory_splits lc) mem_fresh mem_exact emptySplitState"

lemma get_or_absent: "k \<notin> set (map fst m) \<Longrightarrow> get_or m k d = d"
  by (metis get_or_def map_of_eq_None_iff option.case(1) set_map)

lemma mem_fresh_view: "mem_fresh s gid \<Longrightarrow>
   vw_expenses (splitViewOf s) gid = {#} \<and> vw_settlements (splitViewOf s) gid = {#}"
  by (simp add: mem_fresh_def splitViewOf_def get_or_absent)

lemma mem_exact_sums: "mem_exact s \<Longrightarrow> exact_sums (splitViewOf s) gid"
proof -
  assume e: "mem_exact s"
  let ?es = "get_or (ss_expenses s) gid []" and ?ss = "get_or (ss_settlements s) gid []"
  have "volume ?es ?ss < 2 ^ 53"
  proof (cases "gid \<in> set (map fst (ss_expenses s) @ map fst (ss_settlements s))")
    case True
    with e show ?thesis unfolding mem_exact_def list_all_iff by blast
  next
    case False
    then have "?es = []" "?ss = []" by (simp_all add: get_or_absent)
    then show ?thesis by (simp add: volume_def)
  qed
  then show ?thesis
    using view_volume_lists [of ?es "splitViewOf s" gid ?ss] by (simp add: exact_sums_def splitViewOf_def)
qed

lemma empty_view_ok: "splitInv emptySplitState \<and> view_ok (splitViewOf emptySplitState)"
  by (simp add: splitInv_def memberIds_def membersOf_def emptySplitState_def view_ok_def
      splitViewOf_def view_net_def)

lemma reachable_split_ok:
  assumes "reachable_split lc s"
  shows "splitInv s" and "view_ok (splitViewOf s)" and "exact_sums (splitViewOf s) gid"
proof -
  have "mem_exact s \<and> splitInv s \<and> view_ok (splitViewOf s)"
    using mem_splits.split_reach_ok [OF assms] empty_view_ok mem_fresh_view mem_exact_sums by blast
  then show "splitInv s" "view_ok (splitViewOf s)" "exact_sums (splitViewOf s) gid"
    by (simp_all add: mem_exact_sums)
qed

text \<open>A demonstration run: a group of two with one expense.\<close>

definition demo_ops :: "splitState split_ops" where
  "demo_ops = in_memory_splits code_unit_compare"

definition demo_directory :: "string \<Rightarrow> string option" where
  "demo_directory e = (if e = ''b@x.io'' then Some ''b'' else None)"

definition demo_input :: expenseInput where
  "demo_input = \<lparr>ei_description = Some ''Dinner'', ei_category = None, ei_amount = Some (Num 1001),
     ei_paidBy = None, ei_method = None, ei_memberIds = None, ei_shares = None\<rparr>"

definition demo_s1 :: splitState where
  "demo_s1 = (case svc_createGroup demo_ops ''g'' ''2026-01-01'' ''t1'' emptySplitState ''a''
     (Some ''Trip'') None of Inr (g, s) \<Rightarrow> s | Inl e \<Rightarrow> emptySplitState)"

definition demo_s2 :: splitState where
  "demo_s2 = (case svc_createInvitation demo_ops demo_directory ''i'' ''t2'' demo_s1 ''a'' ''g''
     (Some ''B@x.io'') of Inr (i, s) \<Rightarrow> s | Inl e \<Rightarrow> demo_s1)"

definition demo_s3 :: splitState where
  "demo_s3 = (case svc_acceptInvitation demo_ops ''t3'' demo_s2 ''b'' ''i'' of
     Inr (m, s) \<Rightarrow> s | Inl e \<Rightarrow> demo_s2)"

definition demo_s4 :: splitState where
  "demo_s4 = (case svc_addExpense demo_ops ''e'' ''2026-01-02'' ''t4'' demo_s3 ''a'' ''g'' demo_input of
     Inr (e, s) \<Rightarrow> s | Inl e \<Rightarrow> demo_s3)"

fun is_ok :: "'e + 'a \<Rightarrow> bool" where
  "is_ok (Inr _) = True"
| "is_ok (Inl _) = False"

lemma is_ok_Inr: "is_ok r \<Longrightarrow> \<exists>x. r = Inr x"
  by (cases r) auto

lemma demo_oks:
  "is_ok (svc_createGroup demo_ops ''g'' ''2026-01-01'' ''t1'' emptySplitState ''a'' (Some ''Trip'') None)"
  "is_ok (svc_createInvitation demo_ops demo_directory ''i'' ''t2'' demo_s1 ''a'' ''g'' (Some ''B@x.io''))"
  "is_ok (svc_acceptInvitation demo_ops ''t3'' demo_s2 ''b'' ''i'')"
  "is_ok (svc_addExpense demo_ops ''e'' ''2026-01-02'' ''t4'' demo_s3 ''a'' ''g'' demo_input)"
  by code_simp+

lemma demo_steps:
  "split_step demo_ops mem_fresh emptySplitState demo_s1"
  "split_step demo_ops mem_fresh demo_s1 demo_s2"
  "split_step demo_ops mem_fresh demo_s2 demo_s3"
  "split_step demo_ops mem_fresh demo_s3 demo_s4"
proof -
  obtain g s1 where r1: "svc_createGroup demo_ops ''g'' ''2026-01-01'' ''t1'' emptySplitState ''a''
      (Some ''Trip'') None = Inr (g, s1)"
    using is_ok_Inr [OF demo_oks(1)] by (metis surj_pair)
  then have "demo_s1 = s1" by (simp add: demo_s1_def)
  with split_step.Create [OF r1, of mem_fresh]
  show "split_step demo_ops mem_fresh emptySplitState demo_s1"
    by (simp add: mem_fresh_def emptySplitState_def)
  obtain i s2 where r2: "svc_createInvitation demo_ops demo_directory ''i'' ''t2'' demo_s1 ''a'' ''g''
      (Some ''B@x.io'') = Inr (i, s2)"
    using is_ok_Inr [OF demo_oks(2)] by (metis surj_pair)
  then have "demo_s2 = s2" by (simp add: demo_s2_def)
  with split_step.Invite [OF r2, of mem_fresh] show "split_step demo_ops mem_fresh demo_s1 demo_s2"
    by simp
  obtain m s3 where r3: "svc_acceptInvitation demo_ops ''t3'' demo_s2 ''b'' ''i'' = Inr (m, s3)"
    using is_ok_Inr [OF demo_oks(3)] by (metis surj_pair)
  then have "demo_s3 = s3" by (simp add: demo_s3_def)
  with split_step.Accept [OF r3, of mem_fresh] show "split_step demo_ops mem_fresh demo_s2 demo_s3"
    by simp
  obtain e s4 where r4: "svc_addExpense demo_ops ''e'' ''2026-01-02'' ''t4'' demo_s3 ''a'' ''g'' demo_input
      = Inr (e, s4)"
    using is_ok_Inr [OF demo_oks(4)] by (metis surj_pair)
  then have "demo_s4 = s4" by (simp add: demo_s4_def)
  with split_step.Expense [OF r4, of mem_fresh] show "split_step demo_ops mem_fresh demo_s3 demo_s4"
    by simp
qed

lemma demo_exact: "mem_exact emptySplitState" "mem_exact demo_s1" "mem_exact demo_s2" "mem_exact demo_s3" "mem_exact demo_s4"
  by code_simp+

lemma demo_reach: "reachable_split code_unit_compare demo_s4"
  using split_reach.Step [OF split_reach.Step [OF split_reach.Step [OF split_reach.Step
      [OF split_reach.Start [of mem_exact, OF demo_exact(1)] demo_steps(1) demo_exact(2)] demo_steps(2) demo_exact(3)]
      demo_steps(3) demo_exact(4)] demo_steps(4) demo_exact(5)]
  by (simp only: demo_ops_def)

text \<open>C1: after any sequence of requests to the service during which the amounts entered in any one group add up to
  less than \<open>2 ^ 53\<close> minor units (about ninety trillion dollars), the page of a group lists one balance per member
  and they sum to exactly zero; every suggested payment is positive and between members. Both limits are needed:
  \<open>huge_settlement_breaks_page\<close>, and \<open>purge_breaks_zero_sum\<close> for the deletion of an account.\<close>

theorem group_page_reconciles:
  assumes "reachable_split lc s"
    and "svc_groupDetail (in_memory_splits lc) emailOf s u gid = Inr d"
  shows "map fst (gd_balances d) = map mb_userId (gd_members d) \<and>
    sum_list (map snd (gd_balances d)) = 0 \<and>
    list_all (\<lambda>p. 0 < sg_amount p \<and> sg_from p \<in> set (map mb_userId (gd_members d)) \<and>
       sg_to p \<in> set (map mb_userId (gd_members d))) (gd_suggestions d)"
  using mem_splits.groupDetail_ok [of s lc emailOf u gid d] reachable_split_ok [OF assms(1)] assms(2)
  by (simp add: list_all_iff)

text \<open>
  The service accepts a settlement of any whole number. One of \<open>10 ^ 20\<close> minor units makes the page forget the 500
  that were owed; with a third member the balances no longer sum to zero (\<open>huge_settlement_loses_money\<close>).
\<close>

definition huge_payment :: settlementInput where
  "huge_payment = \<lparr>si_to = Some ''a'', si_amount = Some (Num (10 ^ 20)), si_note = None\<rparr>"

definition demo_s5 :: splitState where
  "demo_s5 = (case svc_addSettlement demo_ops ''p'' ''t5'' demo_s4 ''b'' ''g'' huge_payment of
     Inr (x, s) \<Rightarrow> s | Inl e \<Rightarrow> demo_s4)"

lemma huge_settlement_breaks_page:
  "split_step demo_ops mem_fresh demo_s4 demo_s5 \<and>
   (case svc_groupDetail demo_ops (\<lambda>_. None) demo_s5 ''a'' ''g'' of
      Inl _ \<Rightarrow> False | Inr d \<Rightarrow> gd_balances d = [(''a'', - (10 ^ 20)), (''b'', 10 ^ 20)])"
proof
  have "is_ok (svc_addSettlement demo_ops ''p'' ''t5'' demo_s4 ''b'' ''g'' huge_payment)" by code_simp
  then obtain x s where r: "svc_addSettlement demo_ops ''p'' ''t5'' demo_s4 ''b'' ''g'' huge_payment = Inr (x, s)"
    using is_ok_Inr by fastforce
  then have "demo_s5 = s" by (simp add: demo_s5_def)
  with split_step.Settle [OF r] show "split_step demo_ops mem_fresh demo_s4 demo_s5" by simp
qed code_simp

theorem group_page_reconciles_witness:
  "\<exists>d. svc_groupDetail (in_memory_splits code_unit_compare) (\<lambda>_. None) demo_s4 ''a'' ''g'' = Inr d \<and>
     sum_list (map snd (gd_balances d)) = 0"
proof -
  have "is_ok (svc_groupDetail demo_ops (\<lambda>_. None) demo_s4 ''a'' ''g'')" by code_simp
  then obtain d where
    "svc_groupDetail (in_memory_splits code_unit_compare) (\<lambda>_. None) demo_s4 ''a'' ''g'' = Inr d"
    by (auto simp: demo_ops_def dest: is_ok_Inr)
  with group_page_reconciles [OF demo_reach this] show ?thesis by blast
qed

text \<open>after any sequence of requests, whoever is not a member of a group owes it nothing and
  is owed nothing by it: a member cannot leave or be removed with an open balance, and no entry
  can name an outsider.\<close>

theorem outsider_settled:
  assumes "reachable_split lc s" and "map_of (ss_groups s) gid = Some g"
    and "u \<notin> set (memberIds s gid)"
  shows "member_net s gid (gr_currency g) u = 0"
  using reachable_split_ok [OF assms(1)] assms(2,3)
  by (simp add: member_net_view view_okD(2) splitViewOf_def)

theorem outsider_settled_witness:
  "member_net demo_s4 ''g'' ''USD'' ''c'' = 0 \<and> member_net demo_s4 ''g'' ''USD'' ''b'' = -500"
proof
  have g: "map_option gr_currency (map_of (ss_groups demo_s4) ''g'') = Some ''USD''"
    and c: "''c'' \<notin> set (memberIds demo_s4 ''g'')" by code_simp+
  from g obtain g where "map_of (ss_groups demo_s4) ''g'' = Some g" "gr_currency g = ''USD''" by auto
  with outsider_settled [OF demo_reach this(1) c] show "member_net demo_s4 ''g'' ''USD'' ''c'' = 0"
    by simp
qed code_simp

text \<open>a group is invisible to whoever is not a member of it: every request on it is refused
  as if it did not exist, in any state.\<close>

theorem outsider_refused:
  assumes "u \<notin> set (memberIds s gid)"
  defines "none \<equiv> NotFoundE ''Group not found.''"
  shows "svc_groupDetail (in_memory_splits lc) emailOf s u gid = Inl none \<and>
    svc_addExpense (in_memory_splits lc) uuid today now s u gid inp = Inl none \<and>
    svc_addSettlement (in_memory_splits lc) uuid now s u gid sinp = Inl none \<and>
    svc_createInvitation (in_memory_splits lc) findByEmail uuid now s u gid em = Inl none \<and>
    svc_revokeInvitation (in_memory_splits lc) now s u gid iid = Inl none \<and>
    svc_removeMember (in_memory_splits lc) now s u gid t = Inl none \<and>
    svc_archiveGroup (in_memory_splits lc) now s u gid = Inl none"
proof -
  let ?ops = "in_memory_splits lc"
  have "op_getGroup ?ops s u gid = None"
    using assms(1) by (auto simp: in_memory_splits_def getGroup_def split: option.splits)
  then have m: "assertMember ?ops s u gid = Inl none" by (simp add: assertMember_def none_def)
  then have a: "assertActiveMember ?ops s u gid = Inl none" by (simp add: assertActiveMember_def)
  then have "assertAdmin ?ops s u gid = Inl none" by (simp add: assertAdmin_def)
  with m a show ?thesis
    by (simp add: svc_groupDetail_def svc_addExpense_def prepareExpense_def svc_addSettlement_def
        svc_createInvitation_def svc_revokeInvitation_def svc_removeMember_def svc_archiveGroup_def)
qed

theorem outsider_refused_witness:
  "svc_removeMember (in_memory_splits code_unit_compare) ''t'' demo_s4 ''c'' ''g'' ''b''
     = Inl (NotFoundE ''Group not found.'')"
proof -
  have "''c'' \<notin> set (memberIds demo_s4 ''g'')" by code_simp
  from outsider_refused [OF this] show ?thesis by blast
qed

text \<open>Who is a member after each operation of the store.\<close>

lemma memberIds_update:
  "memberIds (s\<lparr>ss_invitations := is\<rparr>) gid = memberIds s gid"
  "memberIds (s\<lparr>ss_groups := gs\<rparr>) gid = memberIds s gid"
  "memberIds (s\<lparr>ss_expenses := es\<rparr>) gid = memberIds s gid"
  "memberIds (s\<lparr>ss_settlements := ts\<rparr>) gid = memberIds s gid"
  by (simp_all add: memberIds_def membersOf_def)

lemma members_frame:
  "createInvitation s w i = Inr s' \<Longrightarrow> memberIds s' gid = memberIds s gid"
  "declineInvitation now s w iid = (ok, s') \<Longrightarrow> memberIds s' gid = memberIds s gid"
  "revokeInvitation now s w gid' iid = (ok, s') \<Longrightarrow> memberIds s' gid = memberIds s gid"
  "archiveGroup now s w gid' = (ok, s') \<Longrightarrow> memberIds s' gid = memberIds s gid"
  "addExpense s w e = Inr (e', s') \<Longrightarrow> memberIds s' gid = memberIds s gid"
  "addSettlement s w x = Inr (x', s') \<Longrightarrow> memberIds s' gid = memberIds s gid"
  by (auto simp: createInvitation_def declineInvitation_def revokeInvitation_def archiveGroup_def
      addExpense_def addSettlement_def memberIds_update split: option.splits if_splits)

lemma members_removed:
  "removeMember now s w gid' t = (Removed, s') \<Longrightarrow> set (memberIds s' gid) \<subseteq> set (memberIds s gid)"
  by (auto simp: removeMember_def Let_def memberIds_def membersOf_def split: option.splits if_splits)

lemma members_accepted:
  assumes "acceptInvitation now s w iid = (Some m, s')"
    and "u \<notin> set (memberIds s gid)" and "u \<in> set (memberIds s' gid)"
  shows "\<exists>i. map_of (ss_invitations s) iid = Some i \<and> iv_groupId i = gid \<and>
     iv_invitee i = u \<and> iv_status i = Pending \<and>
     map_option iv_status (map_of (ss_invitations s') iid) = Some Accepted"
  using assms by (fastforce simp: acceptInvitation_def Let_def memberIds_def membersOf_def decide_def
      split: option.splits if_splits)

text \<open>C3: nobody becomes a member of a group without consent: a request that adds a member either
  creates the group for its author, or is the acceptance, by the invitee, of an invitation that
  was pending for that user and that group.\<close>

theorem membership_by_consent:
  assumes "split_step (in_memory_splits lc) mem_fresh s s'"
    and "u \<notin> set (memberIds s gid)" and "u \<in> set (memberIds s' gid)"
  shows "(\<exists>g. map_of (ss_groups s) gid = None \<and> map_of (ss_groups s') gid = Some g \<and>
            gr_createdBy g = Some u) \<or>
    (\<exists>iid i. map_of (ss_invitations s) iid = Some i \<and> iv_groupId i = gid \<and>
       iv_invitee i = u \<and> iv_status i = Pending \<and>
       map_option iv_status (map_of (ss_invitations s') iid) = Some Accepted)"
  using assms(1)
proof cases
  case (Create uuid today now w nm cur g)
  then have "s' = createGroup s g \<lparr>mb_groupId = uuid, mb_userId = w, mb_role = Admin,
      mb_joinedAt = now\<rparr>" "gr_id g = uuid" "gr_createdBy g = Some w"
    by (auto simp: svc_createGroup_def Let_def in_memory_splits_def split: if_splits)
  with assms(2,3) Create(2) show ?thesis
    by (auto simp: createGroup_def mem_fresh_def map_of_eq_None_iff memberIds_def membersOf_def
        split: if_splits)
next
  case (Accept now w iid m)
  then have "acceptInvitation now s w iid = (Some m, s')"
    using svc_store_calls(2) by (fastforce simp: in_memory_splits_def)
  then show ?thesis using members_accepted assms(2,3) by blast
next
  case (Remove now w gid' t)
  then have "removeMember now s w gid' t = (Removed, s')"
    using svc_store_calls(5) by (fastforce simp: in_memory_splits_def)
  then show ?thesis using members_removed assms(2,3) by blast
qed (use assms(2,3) in \<open>auto dest!: svc_store_calls simp: in_memory_splits_def members_frame\<close>)

theorem membership_by_consent_witness:
  "\<exists>iid i. map_of (ss_invitations demo_s2) iid = Some i \<and> iv_groupId i = ''g'' \<and>
     iv_invitee i = ''b'' \<and> iv_status i = Pending"
proof -
  have "split_step (in_memory_splits code_unit_compare) mem_fresh demo_s2 demo_s3"
    using demo_steps(3) by (simp add: demo_ops_def)
  moreover have "''b'' \<notin> set (memberIds demo_s2 ''g'')" and "''b'' \<in> set (memberIds demo_s3 ''g'')"
    and "map_of (ss_groups demo_s2) ''g'' \<noteq> None" by code_simp+
  ultimately show ?thesis
    using membership_by_consent [of code_unit_compare demo_s2 demo_s3 "''b''" "''g''"] by auto
qed

text \<open>deleting an account removes its shares and payments but keeps the expenses it took part
  in, so that the balances the remaining members see no longer sum to zero.\<close>

theorem purge_breaks_zero_sum:
  "\<exists>s d. reachable_split code_unit_compare s \<and>
     svc_groupDetail (in_memory_splits code_unit_compare) (\<lambda>_. None) (purgeUser s ''b'') ''a'' ''g''
       = Inr d \<and> gd_balances d = [(''a'', 500)]"
proof -
  have "is_ok (svc_groupDetail demo_ops (\<lambda>_. None) (purgeUser demo_s4 ''b'') ''a'' ''g'')"
    by code_simp
  then obtain d where d: "svc_groupDetail demo_ops (\<lambda>_. None) (purgeUser demo_s4 ''b'') ''a'' ''g'' = Inr d"
    by (auto dest: is_ok_Inr)
  have "(case svc_groupDetail demo_ops (\<lambda>_. None) (purgeUser demo_s4 ''b'') ''a'' ''g'' of
      Inl e \<Rightarrow> False | Inr d \<Rightarrow> gd_balances d = [(''a'', 500)])" by code_simp
  with d demo_reach show ?thesis by (auto simp: demo_ops_def)
qed

text \<open>the checks of an expense and its insertion are separate store calls, and a removal may
  come between them: then the removed member owes money to a group it is no longer in, which no
  sequence of whole requests allows.\<close>

theorem expense_removal_race:
  "\<exists>e s' s''. prepareExpense demo_ops ''e'' ''2026-01-02'' ''t4'' demo_s3 ''a'' ''g'' demo_input = Inr e \<and>
     svc_removeMember demo_ops ''t5'' demo_s3 ''b'' ''g'' ''b'' = Inr s' \<and>
     op_addExpense demo_ops s' ''a'' e = Inr (e, s'') \<and>
     ''b'' \<notin> set (memberIds s'' ''g'') \<and> member_net s'' ''g'' ''USD'' ''b'' = -500"
proof -
  have "(case (prepareExpense demo_ops ''e'' ''2026-01-02'' ''t4'' demo_s3 ''a'' ''g'' demo_input,
           svc_removeMember demo_ops ''t5'' demo_s3 ''b'' ''g'' ''b'') of
      (Inr e, Inr s') \<Rightarrow> (case op_addExpense demo_ops s' ''a'' e of
         Inr (e', s'') \<Rightarrow> e' = e \<and> ''b'' \<notin> set (memberIds s'' ''g'') \<and>
           member_net s'' ''g'' ''USD'' ''b'' = -500
       | _ \<Rightarrow> False)
    | _ \<Rightarrow> False)" by code_simp
  then show ?thesis by (auto split: sum.splits)
qed

end
