(* ===== verification/AuthStores.thy ===== *)
theory AuthStores
  imports JsString
begin

text \<open>
  The identity stores: \<open>infra/auth/in-memory-auth-stores.ts\<close> (users, sessions, audit events),
  \<open>infra/auth/mfa-stores.ts\<close> (second factor) and \<open>infra/auth/auth-action-stores.ts\<close>
  (verification and reset links), with the types of \<open>domain/auth/types.ts\<close>.

  A \<open>Date\<close> is its \<open>getTime()\<close>, an \<open>int\<close> of milliseconds. Each store is its own state;
  a method that mutates returns the new state. The second half is the contract of the session
  store as a locale, with the in-memory store as its interpretation.
\<close>

section \<open>Types\<close>

datatype userStatus = Active | Locked | PendingDeletion

record user =
  us_id :: string
  us_email :: string
  us_passwordHash :: string
  us_displayName :: "string option"
  us_emailVerifiedAt :: "int option"
  us_status :: userStatus
  us_createdAt :: int
  us_deletedAt :: "int option"

datatype revokedReason = Rotated | Logout | LogoutAll | ReuseDetected | AdminRevoked

record session =
  se_id :: string
  se_userId :: string
  se_familyId :: string
  se_tokenHash :: string
  se_issuedAt :: int
  se_expiresAt :: int
  se_lastUsedAt :: "int option"
  se_revokedAt :: "int option"
  se_revokedReason :: "revokedReason option"
  se_userAgent :: "string option"
  se_ipAddress :: "string option"

datatype authEventKind =
    EvRegister | EvLogin | EvLogout | EvLogoutAll | EvRefresh | EvRefreshReuse
  | EvSessionRevoked | EvPasswordChanged | EvAccountLocked | EvDeletionRequested
  | EvDeletionCancelled | EvVerificationSent | EvEmailVerified | EvResetRequested
  | EvResetCompleted | EvBankLinkStepUp | EvMfaEnrolled | EvMfaChallenge | EvMfaVerified
  | EvMfaDisabled | EvPasskeyLogin | EvPasskeyRegistered | EvPasskeyRemoved | EvPasskeyStepUp
  | EvDataExported

record authEvent =
  ae_userId :: "string option"
  ae_email :: "string option"
  ae_kind :: authEventKind
  ae_succeeded :: bool
  ae_detail :: "string option"
  ae_ip :: "string option"
  ae_userAgent :: "string option"
  ae_createdAt :: int

record createUserInput =
  cu_id :: string
  cu_email :: string
  cu_passwordHash :: string
  cu_displayName :: "string option"

section \<open>Users\<close>

type_synonym userStore = "(string, user) jsmap"

definition findByEmail :: "userStore \<Rightarrow> string \<Rightarrow> user option" where
  "findByEmail s email = find (\<lambda>u. us_email u = email \<and> us_deletedAt u = None) (map snd s)"

definition findUser :: "userStore \<Rightarrow> string \<Rightarrow> user option" where
  "findUser s i = (case map_of s i of
     None \<Rightarrow> None
   | Some u \<Rightarrow> if us_deletedAt u = None then Some u else None)"

text \<open>\<open>create\<close>: None is the \<open>DuplicateEmailError\<close>.\<close>

definition createUser :: "int \<Rightarrow> userStore \<Rightarrow> createUserInput \<Rightarrow> (user \<times> userStore) option" where
  "createUser now s inp =
     (if findByEmail s (cu_email inp) \<noteq> None then None
      else let u = \<lparr>us_id = cu_id inp, us_email = cu_email inp, us_passwordHash = cu_passwordHash inp,
             us_displayName = cu_displayName inp, us_emailVerifiedAt = None, us_status = Active,
             us_createdAt = now, us_deletedAt = None\<rparr>
           in Some (u, map_set (cu_id inp) u s))"

definition modifyUser :: "userStore \<Rightarrow> string \<Rightarrow> (user \<Rightarrow> user) \<Rightarrow> userStore" where
  "modifyUser s i f = (case map_of s i of None \<Rightarrow> s | Some u \<Rightarrow> map_set i (f u) s)"

definition updatePasswordHash :: "userStore \<Rightarrow> string \<Rightarrow> string \<Rightarrow> userStore" where
  "updatePasswordHash s i h = modifyUser s i (\<lambda>u. u\<lparr>us_passwordHash := h\<rparr>)"

definition setStatus :: "userStore \<Rightarrow> string \<Rightarrow> userStatus \<Rightarrow> userStore" where
  "setStatus s i st = modifyUser s i (\<lambda>u. u\<lparr>us_status := st\<rparr>)"

definition markEmailVerified :: "userStore \<Rightarrow> string \<Rightarrow> int \<Rightarrow> userStore" where
  "markEmailVerified s i t = modifyUser s i (\<lambda>u. u\<lparr>us_emailVerifiedAt := Some t\<rparr>)"

section \<open>Sessions\<close>

type_synonym sessionStore = "(string, session) jsmap"

definition createSession :: "sessionStore \<Rightarrow> session \<Rightarrow> sessionStore" where
  "createSession s x = map_set (se_id x) x s"

definition revoke_at :: "revokedReason \<Rightarrow> int \<Rightarrow> session \<Rightarrow> session" where
  "revoke_at reason t x = x\<lparr>se_revokedAt := Some t, se_revokedReason := Some reason\<rparr>"

definition rotate :: "sessionStore \<Rightarrow> string \<Rightarrow> session \<Rightarrow> int \<Rightarrow> bool \<times> sessionStore" where
  "rotate s sessionId successor t =
     (case map_of s sessionId of
        None \<Rightarrow> (False, s)
      | Some cur \<Rightarrow>
          if se_revokedAt cur \<noteq> None then (False, s)
          else (True, map_set (se_id successor) successor
                        (map_set sessionId (revoke_at Rotated t cur) s)))"

definition findByTokenHash :: "sessionStore \<Rightarrow> string \<Rightarrow> session option" where
  "findByTokenHash s h = find (\<lambda>x. se_tokenHash x = h) (map snd s)"

definition findSession :: "sessionStore \<Rightarrow> string \<Rightarrow> string \<Rightarrow> session option" where
  "findSession s userId sessionId = (case map_of s sessionId of
     None \<Rightarrow> None
   | Some x \<Rightarrow> if se_userId x = userId then Some x else None)"

definition listActive :: "int \<Rightarrow> sessionStore \<Rightarrow> string \<Rightarrow> session list" where
  "listActive now s userId =
     js_sort (\<lambda>a b. se_issuedAt b - se_issuedAt a)
       (filter (\<lambda>x. se_userId x = userId \<and> se_revokedAt x = None \<and> se_expiresAt x > now) (map snd s))"

definition revokeSession_store :: "sessionStore \<Rightarrow> string \<Rightarrow> revokedReason \<Rightarrow> int \<Rightarrow> sessionStore" where
  "revokeSession_store s sessionId reason t = (case map_of s sessionId of
     None \<Rightarrow> s
   | Some x \<Rightarrow> if se_revokedAt x = None then map_set sessionId (revoke_at reason t x) s else s)"

text \<open>
  The loops over \<open>[...this.byId.values()]\<close> of \<open>revokeFamily\<close> and \<open>revokeAllForUser\<close>: each
  row that matches and is live is stamped and counted.
\<close>

definition revoke_row ::
  "(session \<Rightarrow> bool) \<Rightarrow> revokedReason \<Rightarrow> int \<Rightarrow> int \<times> sessionStore \<Rightarrow> session \<Rightarrow> int \<times> sessionStore" where
  "revoke_row P reason t acc x =
     (if P x \<and> se_revokedAt x = None
      then (fst acc + 1, map_set (se_id x) (revoke_at reason t x) (snd acc)) else acc)"

definition revokeWhere ::
  "(session \<Rightarrow> bool) \<Rightarrow> sessionStore \<Rightarrow> revokedReason \<Rightarrow> int \<Rightarrow> int \<times> sessionStore" where
  "revokeWhere P s reason t = foldl (revoke_row P reason t) (0, s) (map snd s)"

definition revokeFamily :: "sessionStore \<Rightarrow> string \<Rightarrow> revokedReason \<Rightarrow> int \<Rightarrow> int \<times> sessionStore" where
  "revokeFamily s familyId reason t = revokeWhere (\<lambda>x. se_familyId x = familyId) s reason t"

definition revokeAllForUser :: "sessionStore \<Rightarrow> string \<Rightarrow> revokedReason \<Rightarrow> int \<Rightarrow> int \<times> sessionStore" where
  "revokeAllForUser s userId reason t = revokeWhere (\<lambda>x. se_userId x = userId) s reason t"

definition touchSession :: "sessionStore \<Rightarrow> string \<Rightarrow> int \<Rightarrow> sessionStore" where
  "touchSession s sessionId t = (case map_of s sessionId of
     None \<Rightarrow> s | Some x \<Rightarrow> map_set sessionId (x\<lparr>se_lastUsedAt := Some t\<rparr>) s)"

definition deleteExpired :: "sessionStore \<Rightarrow> int \<Rightarrow> int \<times> sessionStore" where
  "deleteExpired s before =
     foldl (\<lambda>(n, st) x. if se_expiresAt x < before then (n + 1, map_delete (se_id x) st) else (n, st))
       (0, s) (map snd s)"

section \<open>Audit events\<close>

type_synonym eventStore = "authEvent list"

definition recordEvent :: "eventStore \<Rightarrow> authEvent \<Rightarrow> eventStore" where
  "recordEvent s e = s @ [e]"

definition recentFailures :: "eventStore \<Rightarrow> string \<Rightarrow> int \<Rightarrow> authEventKind \<Rightarrow> int list" where
  "recentFailures s email since kind =
     map ae_createdAt (filter (\<lambda>e. \<not> ae_succeeded e \<and> ae_kind e = kind \<and> ae_email e = Some email \<and>
       ae_createdAt e \<ge> since) s)"

section \<open>Second factor\<close>

record mfaRecord =
  mf_secret :: string
  mf_enabledAt :: "int option"
  mf_lastUsedStep :: "int option"

record recoveryRow =
  rc_hash :: string
  rc_usedAt :: "int option"

record challengeRow =
  ch_userId :: string
  ch_expiresAt :: int
  ch_usedAt :: "int option"
  ch_failed :: nat

record mfaStore =
  ms_records :: "(string, mfaRecord) jsmap"
  ms_recovery :: "(string, recoveryRow list) jsmap"
  ms_challenges :: "(string, challengeRow) jsmap"

definition getMfa :: "mfaStore \<Rightarrow> string \<Rightarrow> mfaRecord option" where
  "getMfa s userId = map_of (ms_records s) userId"

definition savePending :: "mfaStore \<Rightarrow> string \<Rightarrow> string \<Rightarrow> mfaStore" where
  "savePending s userId secret = s\<lparr>
     ms_records := map_set userId \<lparr>mf_secret = secret, mf_enabledAt = None, mf_lastUsedStep = None\<rparr>
       (ms_records s),
     ms_recovery := map_delete userId (ms_recovery s)\<rparr>"

definition enableMfa_store :: "mfaStore \<Rightarrow> string \<Rightarrow> string list \<Rightarrow> int \<Rightarrow> bool \<times> mfaStore" where
  "enableMfa_store s userId hashes t = (case map_of (ms_records s) userId of
     None \<Rightarrow> (False, s)
   | Some r \<Rightarrow> if mf_enabledAt r \<noteq> None then (False, s)
       else (True, s\<lparr>ms_records := map_set userId (r\<lparr>mf_enabledAt := Some t\<rparr>) (ms_records s),
              ms_recovery := map_set userId (map (\<lambda>h. \<lparr>rc_hash = h, rc_usedAt = None\<rparr>) hashes)
                (ms_recovery s)\<rparr>))"

definition disableMfa_store :: "mfaStore \<Rightarrow> string \<Rightarrow> mfaStore" where
  "disableMfa_store s userId = s\<lparr>ms_records := map_delete userId (ms_records s),
     ms_recovery := map_delete userId (ms_recovery s),
     ms_challenges := filter (\<lambda>(h, c). ch_userId c \<noteq> userId) (ms_challenges s)\<rparr>"

definition acceptTotpStep :: "mfaStore \<Rightarrow> string \<Rightarrow> int \<Rightarrow> bool \<times> mfaStore" where
  "acceptTotpStep s userId step = (case map_of (ms_records s) userId of
     None \<Rightarrow> (False, s)
   | Some r \<Rightarrow>
       if mf_enabledAt r = None \<or> (case mf_lastUsedStep r of None \<Rightarrow> False | Some l \<Rightarrow> l \<ge> step)
       then (False, s)
       else (True, s\<lparr>ms_records := map_set userId (r\<lparr>mf_lastUsedStep := Some step\<rparr>) (ms_records s)\<rparr>))"

definition consumeRecoveryCode :: "mfaStore \<Rightarrow> string \<Rightarrow> string \<Rightarrow> int \<Rightarrow> bool \<times> mfaStore" where
  "consumeRecoveryCode s userId h t =
     (let rows = get_or (ms_recovery s) userId [];
          P = (\<lambda>r. rc_hash r = h \<and> rc_usedAt r = None)
      in if \<not> list_ex P rows then (False, s)
         else (True, s\<lparr>ms_recovery :=
           map_set userId (update_first P (\<lambda>r. r\<lparr>rc_usedAt := Some t\<rparr>) rows) (ms_recovery s)\<rparr>))"

definition recoveryCodesRemaining :: "mfaStore \<Rightarrow> string \<Rightarrow> nat" where
  "recoveryCodesRemaining s userId =
     length (filter (\<lambda>r. rc_usedAt r = None) (get_or (ms_recovery s) userId []))"

definition createChallenge :: "mfaStore \<Rightarrow> string \<Rightarrow> string \<Rightarrow> int \<Rightarrow> mfaStore" where
  "createChallenge s h userId expiresAt = s\<lparr>ms_challenges := map_set h
     \<lparr>ch_userId = userId, ch_expiresAt = expiresAt, ch_usedAt = None, ch_failed = 0\<rparr> (ms_challenges s)\<rparr>"

definition live_challenge :: "int \<Rightarrow> challengeRow \<Rightarrow> bool" where
  "live_challenge t c \<longleftrightarrow> ch_usedAt c = None \<and> ch_expiresAt c > t"

definition findChallenge :: "mfaStore \<Rightarrow> string \<Rightarrow> int \<Rightarrow> string option" where
  "findChallenge s h t = (case map_of (ms_challenges s) h of
     None \<Rightarrow> None
   | Some c \<Rightarrow> if live_challenge t c then Some (ch_userId c) else None)"

definition consumeChallenge :: "mfaStore \<Rightarrow> string \<Rightarrow> int \<Rightarrow> bool \<times> mfaStore" where
  "consumeChallenge s h t = (case map_of (ms_challenges s) h of
     None \<Rightarrow> (False, s)
   | Some c \<Rightarrow> if \<not> live_challenge t c then (False, s)
       else (True, s\<lparr>ms_challenges := map_set h (c\<lparr>ch_usedAt := Some t\<rparr>) (ms_challenges s)\<rparr>))"

definition failChallenge :: "mfaStore \<Rightarrow> string \<Rightarrow> int \<Rightarrow> nat option \<times> mfaStore" where
  "failChallenge s h t = (case map_of (ms_challenges s) h of
     None \<Rightarrow> (None, s)
   | Some c \<Rightarrow> if \<not> live_challenge t c then (None, s)
       else let n = ch_failed c + 1;
                c' = c\<lparr>ch_failed := n, ch_usedAt := (if n \<ge> 5 then Some t else None)\<rparr>
            in (Some (5 - n), s\<lparr>ms_challenges := map_set h c' (ms_challenges s)\<rparr>))"

section \<open>Verification and reset links\<close>

datatype actionKind = VerifyEmail | ResetPassword

record actionRow =
  ac_userId :: string
  ac_kind :: actionKind
  ac_tokenHash :: string
  ac_expiresAt :: int
  ac_usedAt :: "int option"

type_synonym actionStore = "actionRow list"

definition issueAction ::
  "int \<Rightarrow> actionStore \<Rightarrow> string \<Rightarrow> actionKind \<Rightarrow> string \<Rightarrow> int \<Rightarrow> actionStore" where
  "issueAction now s userId kind h expiresAt =
     map (\<lambda>r. if ac_userId r = userId \<and> ac_kind r = kind \<and> ac_usedAt r = None
              then r\<lparr>ac_usedAt := Some now\<rparr> else r) s
     @ [\<lparr>ac_userId = userId, ac_kind = kind, ac_tokenHash = h, ac_expiresAt = expiresAt, ac_usedAt = None\<rparr>]"

definition live_action :: "actionKind \<Rightarrow> string \<Rightarrow> int \<Rightarrow> actionRow \<Rightarrow> bool" where
  "live_action kind h t r \<longleftrightarrow>
     ac_kind r = kind \<and> ac_tokenHash r = h \<and> ac_usedAt r = None \<and> ac_expiresAt r > t"

definition consumeAction :: "actionStore \<Rightarrow> actionKind \<Rightarrow> string \<Rightarrow> int \<Rightarrow> string option \<times> actionStore" where
  "consumeAction s kind h t = (case find (live_action kind h t) s of
     None \<Rightarrow> (None, s)
   | Some r \<Rightarrow> (Some (ac_userId r), update_first (live_action kind h t) (\<lambda>r. r\<lparr>ac_usedAt := Some t\<rparr>) s))"

end
