(* ===== verification/AuthPolicy.thy ===== *)
theory AuthPolicy
  imports AuthStores
begin

text \<open>
  The pure decisions of the identity component: the brute-force lockout
  (\<open>domain/auth/lockout.ts\<close>), the fate of a refresh token (\<open>domain/auth/session.ts\<close>) and the
  password and e-mail rules (\<open>domain/auth/password-policy.ts\<close>). Times are milliseconds.
\<close>

section \<open>Lockout\<close>

definition MAX_FAILED_ATTEMPTS :: nat where
  "MAX_FAILED_ATTEMPTS = 8"

definition FAILURE_WINDOW_MS :: int where
  "FAILURE_WINDOW_MS = 15 * 60 * 1000"

definition LOCKOUT_MS :: int where
  "LOCKOUT_MS = 15 * 60 * 1000"

record lockoutState =
  lk_locked :: bool
  lk_recentFailures :: nat
  lk_attemptsRemaining :: nat
  lk_unlocksAt :: "int option"
  lk_retryAfterSeconds :: int

text \<open>
  The options object: \<open>maxAttempts\<close>, \<open>windowMs\<close>, \<open>lockoutMs\<close>, by default the constants.
  A maximum of 0 would read \<open>recent[-1]\<close>; it is at least 1 here.
\<close>

definition evaluateLockout_with :: "nat \<Rightarrow> int \<Rightarrow> int \<Rightarrow> int list \<Rightarrow> int \<Rightarrow> lockoutState" where
  "evaluateLockout_with maxAttempts windowMs lockoutMs failureTimestamps now =
     (let cutoff = now - windowMs;
          recent = js_sort (\<lambda>a b. b - a) (filter (\<lambda>t. t \<ge> cutoff) failureTimestamps)
      in if length recent < maxAttempts
         then \<lparr>lk_locked = False, lk_recentFailures = length recent,
               lk_attemptsRemaining = maxAttempts - length recent, lk_unlocksAt = None,
               lk_retryAfterSeconds = 0\<rparr>
         else let trippingAttempt = recent ! (maxAttempts - 1);
                  unlocksAt = trippingAttempt + lockoutMs
              in if unlocksAt \<le> now
                 then \<lparr>lk_locked = False, lk_recentFailures = length recent,
                       lk_attemptsRemaining = 1, lk_unlocksAt = None, lk_retryAfterSeconds = 0\<rparr>
                 else \<lparr>lk_locked = True, lk_recentFailures = length recent,
                       lk_attemptsRemaining = 0, lk_unlocksAt = Some unlocksAt,
                       lk_retryAfterSeconds = \<lceil>of_int (unlocksAt - now) / (1000::rat)\<rceil>\<rparr>)"

definition evaluateLockout :: "int list \<Rightarrow> int \<Rightarrow> lockoutState" where
  "evaluateLockout = evaluateLockout_with MAX_FAILED_ATTEMPTS FAILURE_WINDOW_MS LOCKOUT_MS"

section \<open>Refresh tokens\<close>

datatype refreshOutcome =
    RefreshOk session
  | RefreshNotFound
  | RefreshExpired
  | RefreshRevoked
  | RefreshReuse string string

definition evaluateRefresh :: "session option \<Rightarrow> int \<Rightarrow> refreshOutcome" where
  "evaluateRefresh s now = (case s of
     None \<Rightarrow> RefreshNotFound
   | Some x \<Rightarrow>
       if se_revokedAt x \<noteq> None
       then (if se_revokedReason x = Some Rotated then RefreshReuse (se_familyId x) (se_userId x)
             else RefreshRevoked)
       else if se_expiresAt x \<le> now then RefreshExpired
       else RefreshOk x)"

definition isSessionActive :: "session \<Rightarrow> int \<Rightarrow> bool" where
  "isSessionActive x now \<longleftrightarrow> se_revokedAt x = None \<and> se_expiresAt x > now"

lemma evaluateRefresh_Ok_iff: "evaluateRefresh s now = RefreshOk x \<longleftrightarrow> s = Some x \<and> isSessionActive x now"
  by (auto simp: evaluateRefresh_def isSessionActive_def split: option.splits)

section \<open>Passwords and addresses\<close>

definition COMMON_PASSWORDS :: "string list" where
  "COMMON_PASSWORDS = [''password1234'', ''passw0rd1234'', ''qwertyuiop12'', ''administrator'',
     ''letmein12345'', ''123456789012'', ''iloveyou1234'', ''welcome12345'', ''monkey123456'',
     ''football1234'', ''trustno1trustno1'', ''passwordpassword'', ''qwertyqwerty'', ''abc123abc123'',
     ''111111111111'', ''aaaaaaaaaaaa'']"

datatype passwordProblem = TooShort | TooLong | TooCommon | FewDistinct | ContainsEmail

definition checkPassword :: "string \<Rightarrow> string option \<Rightarrow> passwordProblem list" where
  "checkPassword password email =
     (if length password < 12 then [TooShort] else [])
     @ (if length password > 128 then [TooLong] else [])
     @ (if toLowerCase password \<in> set COMMON_PASSWORDS then [TooCommon] else [])
     @ (if length password > 0 \<and> length (set_of password) \<le> 2 then [FewDistinct] else [])
     @ (if truthy email
        then let localPart = toLowerCase (hd (split_char CHR ''@'' (the email)))
             in if length localPart \<ge> 4 \<and> contains (toLowerCase password) localPart
                then [ContainsEmail] else []
        else [])"

definition normalizeEmail :: "string \<Rightarrow> string" where
  "normalizeEmail email = toLowerCase (trim email)"

text \<open>
  The pattern \<open>[^\s@]+@[^\s@.]+\.[^\s@]+\<close>, anchored: exactly one \<open>@\<close>, no white space, a
  non-empty local part, and a domain whose first dot has something on both sides.
\<close>

definition emailPattern :: "string \<Rightarrow> bool" where
  "emailPattern s =
     (\<not> list_ex is_space s \<and>
      (case split_char CHR ''@'' s of
         [localPart, domain] \<Rightarrow> localPart \<noteq> [] \<and>
           takeWhile (\<lambda>c. c \<noteq> CHR ''.'') domain \<noteq> [] \<and>
           length (dropWhile (\<lambda>c. c \<noteq> CHR ''.'') domain) \<ge> 2
       | _ \<Rightarrow> False))"

definition isValidEmail :: "string \<Rightarrow> bool" where
  "isValidEmail email = (length (normalizeEmail email) \<le> 254 \<and> emailPattern (normalizeEmail email))"

section \<open>Facts\<close>

lemma sorted_recent:
  "sorted_wrt (\<ge>) (js_sort (\<lambda>a b. b - a) (xs :: int list))"
  using sorted_wrt_js_sort [OF preorder_cmp_key_desc [of "\<lambda>x. x"], of xs] by simp

text \<open>
  The k-th entry of a list sorted downwards is at least \<open>v\<close> exactly when at least \<open>k + 1\<close>
  entries are.
\<close>

lemma nth_sorted_desc:
  assumes "sorted_wrt (\<ge>) (xs :: int list)" and "k < length xs"
  shows "v \<le> xs ! k \<longleftrightarrow> k < length (filter (\<lambda>x. v \<le> x) xs)"
  using assms
proof (induction xs arbitrary: k)
  case (Cons x xs)
  show ?case
  proof (cases "v \<le> x")
    case True
    with Cons show ?thesis by (cases k) auto
  next
    case False
    with Cons.prems(1) have "\<forall>y \<in> set xs. \<not> v \<le> y" by auto
    then have "filter (\<lambda>x. v \<le> x) xs = []" by (simp add: filter_empty_conv)
    moreover have "(x # xs) ! k \<in> set (x # xs)" using Cons.prems(2) nth_mem by blast
    ultimately show ?thesis using False \<open>\<forall>y \<in> set xs. \<not> v \<le> y\<close> by auto
  qed
qed simp

lemma length_filter_js_sort: "length (filter P (js_sort cmp xs)) = length (filter P xs)"
  by (metis mset_filter mset_js_sort size_mset)

lemma locked_iff:
  assumes "0 < m"
  shows "lk_locked (evaluateLockout_with m w l ts now) \<longleftrightarrow>
    m \<le> length (filter (\<lambda>t. now - w \<le> t \<and> now - l < t) ts)"
proof -
  let ?recent = "js_sort (\<lambda>a b. b - a) (filter (\<lambda>t. t \<ge> now - w) ts)"
  have len: "length (filter (\<lambda>t. now - w \<le> t \<and> now - l < t) ts)
      = length (filter (\<lambda>t. now - l + 1 \<le> t) ?recent)"
    by (simp add: length_filter_js_sort conj_commute, intro arg_cong [where f = length] filter_cong) auto
  show ?thesis
  proof (cases "length ?recent < m")
    case True
    moreover have "length (filter (\<lambda>t. now - l + 1 \<le> t) ?recent) \<le> length ?recent"
      by (rule length_filter_le)
    ultimately show ?thesis using len by (simp add: evaluateLockout_with_def Let_def)
  next
    case False
    then have "m - 1 < length ?recent" using assms by linarith
    from nth_sorted_desc [OF sorted_recent this, of "now - l + 1"]
    have "now - l + 1 \<le> ?recent ! (m - 1) \<longleftrightarrow> m \<le> length (filter (\<lambda>t. now - l + 1 \<le> t) ?recent)"
      using assms by linarith
    then show ?thesis using False len by (simp add: evaluateLockout_with_def Let_def, linarith)
  qed
qed

lemmas lockout_consts = MAX_FAILED_ATTEMPTS_def FAILURE_WINDOW_MS_def LOCKOUT_MS_def

end
