(* ===== verification/AuthSessions.thy ===== *)
theory AuthSessions
  imports AuthPolicy
begin

text \<open>
  The contract of the session store as a locale, \<open>session_port\<close> (the interface \<open>SessionStore\<close>
  of \<open>ports/auth.ts\<close>): what each operation does to the map from identifiers to sessions that a
  state shows. The lemmas on families of sessions are proved once from the contract; the
  interpretation at the end discharges it for the in-memory store.
\<close>

section \<open>The contract\<close>

definition live :: "session \<Rightarrow> bool" where
  "live x \<longleftrightarrow> se_revokedAt x = None"

definition stamp :: "(session \<Rightarrow> bool) \<Rightarrow> revokedReason \<Rightarrow> int \<Rightarrow> session \<Rightarrow> session" where
  "stamp P reason t x = (if P x \<and> live x then revoke_at reason t x else x)"

lemma stamp_fields [simp]:
  "se_id (stamp P r t x) = se_id x" "se_userId (stamp P r t x) = se_userId x"
  "se_familyId (stamp P r t x) = se_familyId x" "se_tokenHash (stamp P r t x) = se_tokenHash x"
  "se_expiresAt (stamp P r t x) = se_expiresAt x"
  by (simp_all add: stamp_def revoke_at_def)

lemma live_stamp [simp]: "live (stamp P r t x) \<longleftrightarrow> live x \<and> \<not> P x"
  by (auto simp: stamp_def revoke_at_def live_def)

lemma revoke_at_fields [simp]:
  "se_id (revoke_at r t x) = se_id x" "se_userId (revoke_at r t x) = se_userId x"
  "se_familyId (revoke_at r t x) = se_familyId x" "se_tokenHash (revoke_at r t x) = se_tokenHash x"
  "\<not> live (revoke_at r t x)"
  by (simp_all add: revoke_at_def live_def)

locale session_port =
  fixes inv :: "'s \<Rightarrow> bool" and view :: "'s \<Rightarrow> string \<Rightarrow> session option"
    and create :: "'s \<Rightarrow> session \<Rightarrow> 's"
    and rotate_op :: "'s \<Rightarrow> string \<Rightarrow> session \<Rightarrow> int \<Rightarrow> bool \<times> 's"
    and by_hash :: "'s \<Rightarrow> string \<Rightarrow> session option"
    and by_id :: "'s \<Rightarrow> string \<Rightarrow> string \<Rightarrow> session option"
    and revoke_op :: "'s \<Rightarrow> string \<Rightarrow> revokedReason \<Rightarrow> int \<Rightarrow> 's"
    and revoke_family :: "'s \<Rightarrow> string \<Rightarrow> revokedReason \<Rightarrow> int \<Rightarrow> int \<times> 's"
    and revoke_user :: "'s \<Rightarrow> string \<Rightarrow> revokedReason \<Rightarrow> int \<Rightarrow> int \<times> 's"
    and expire :: "'s \<Rightarrow> int \<Rightarrow> int \<times> 's"
  assumes view_id: "inv s \<Longrightarrow> view s i = Some x \<Longrightarrow> se_id x = i"
    and create: "inv s \<Longrightarrow> inv (create s x) \<and> view (create s x) = (view s)(se_id x \<mapsto> x)"
    and rotate_dead: "inv s \<Longrightarrow> (\<And>x. view s i = Some x \<Longrightarrow> \<not> live x) \<Longrightarrow>
      rotate_op s i y t = (False, s)"
    and rotate_live: "inv s \<Longrightarrow> view s i = Some x \<Longrightarrow> live x \<Longrightarrow>
      fst (rotate_op s i y t) \<and> inv (snd (rotate_op s i y t)) \<and>
      view (snd (rotate_op s i y t)) = (view s)(i \<mapsto> revoke_at Rotated t x, se_id y \<mapsto> y)"
    and by_hash_Some: "inv s \<Longrightarrow> by_hash s h = Some x \<Longrightarrow>
      view s (se_id x) = Some x \<and> se_tokenHash x = h"
    and by_hash_None: "inv s \<Longrightarrow> by_hash s h = None \<Longrightarrow> view s i = Some x \<Longrightarrow> se_tokenHash x \<noteq> h"
    and by_id: "inv s \<Longrightarrow> by_id s u i =
      (case view s i of None \<Rightarrow> None | Some x \<Rightarrow> if se_userId x = u then Some x else None)"
    and revoke: "inv s \<Longrightarrow> inv (revoke_op s i r t) \<and>
      view (revoke_op s i r t) = (view s)(i := map_option (stamp (\<lambda>x. True) r t) (view s i))"
    and revoke_family: "inv s \<Longrightarrow> inv (snd (revoke_family s f r t)) \<and>
      view (snd (revoke_family s f r t)) =
        (\<lambda>i. map_option (stamp (\<lambda>x. se_familyId x = f) r t) (view s i))"
    and revoke_user: "inv s \<Longrightarrow> inv (snd (revoke_user s u r t)) \<and>
      view (snd (revoke_user s u r t)) =
        (\<lambda>i. map_option (stamp (\<lambda>x. se_userId x = u) r t) (view s i))"
    and expire: "inv s \<Longrightarrow> inv (snd (expire s t)) \<and>
      (view (snd (expire s t)) i = None \<or> view (snd (expire s t)) i = view s i)"
begin

text \<open>At most one session of a family is live: a refresh token has one successor.\<close>

definition one_live :: "'s \<Rightarrow> bool" where
  "one_live s \<longleftrightarrow> (\<forall>i j x y. view s i = Some x \<longrightarrow> view s j = Some y \<longrightarrow>
     se_familyId x = se_familyId y \<longrightarrow> live x \<longrightarrow> live y \<longrightarrow> i = j)"

definition family_dead :: "'s \<Rightarrow> string \<Rightarrow> bool" where
  "family_dead s f \<longleftrightarrow> (\<forall>i x. view s i = Some x \<longrightarrow> se_familyId x = f \<longrightarrow> \<not> live x)"

definition fresh_family :: "'s \<Rightarrow> string \<Rightarrow> bool" where
  "fresh_family s f \<longleftrightarrow> (\<forall>i x. view s i = Some x \<longrightarrow> se_familyId x \<noteq> f)"

lemma one_live_create:
  assumes "inv s" and "one_live s" and "fresh_family s (se_familyId x)"
  shows "one_live (create s x)"
  using assms create [OF assms(1), of x] unfolding one_live_def fresh_family_def
  by (auto split: if_splits) blast

lemma one_live_rotate:
  assumes "inv s" and "one_live s" and "view s i = Some x" and "live x"
    and "se_familyId y = se_familyId x" and "view s (se_id y) = None"
  shows "one_live (snd (rotate_op s i y t))"
proof -
  have "view (snd (rotate_op s i y t)) = (view s)(i \<mapsto> revoke_at Rotated t x, se_id y \<mapsto> y)"
    using rotate_live [OF assms(1,3,4)] by simp
  moreover have "j = i" if "view s j = Some z" "se_familyId z = se_familyId x" "live z" for j z
    using that assms(2,3,4) unfolding one_live_def by metis
  ultimately show ?thesis using assms(2,5,6)
    unfolding one_live_def by (auto split: if_splits)
qed

lemma one_live_stamped:
  assumes "one_live s" and "\<And>i. \<exists>P. view s' i = map_option (stamp P r t) (view s i)"
  shows "one_live s'"
proof -
  have old: "\<exists>x0. view s i = Some x0 \<and> se_familyId x = se_familyId x0 \<and> (live x \<longrightarrow> live x0)"
    if "view s' i = Some x" for i x
    using assms(2) [of i] that by (cases "view s i") auto
  show ?thesis unfolding one_live_def
  proof (intro allI impI)
    fix i j x y assume "view s' i = Some x" "view s' j = Some y" "se_familyId x = se_familyId y"
      "live x" "live y"
    with old [of i x] old [of j y] assms(1) show "i = j" unfolding one_live_def by metis
  qed
qed

lemma one_live_revokes:
  assumes "inv s" and "one_live s"
  shows "one_live (revoke_op s i r t)" and "one_live (snd (revoke_family s f r t))"
    and "one_live (snd (revoke_user s u r t))"
proof -
  have "view (revoke_op s i r t) j
      = map_option (stamp (\<lambda>x. j = i) r t) (view s j)" for j
    using revoke [OF assms(1)] by (cases "view s j") (auto simp: stamp_def)
  then show "one_live (revoke_op s i r t)" using one_live_stamped [OF assms(2)] by metis
  show "one_live (snd (revoke_family s f r t))" "one_live (snd (revoke_user s u r t))"
    using revoke_family [OF assms(1)] revoke_user [OF assms(1)]
    by (auto intro!: one_live_stamped [OF assms(2)])
qed

lemma one_live_expire: "inv s \<Longrightarrow> one_live s \<Longrightarrow> one_live (snd (expire s t))"
proof -
  assume inv: "inv s" and one: "one_live s"
  have old: "view s i = Some x" if "view (snd (expire s t)) i = Some x" for i x
    using that expire [OF inv, of t i] by auto
  show ?thesis using one old unfolding one_live_def by meson
qed

lemma revoke_family_dead: "inv s \<Longrightarrow> family_dead (snd (revoke_family s f r t)) f"
  using revoke_family [of s f r t] by (auto simp: family_dead_def)

text \<open>Once dead, a family stays dead: only a login starts a session, in a family of its own.\<close>

lemma family_dead_stays:
  assumes "inv s" and "family_dead s f"
  shows "se_familyId x \<noteq> f \<Longrightarrow> family_dead (create s x) f"
    and "view s i = Some x \<Longrightarrow> live x \<Longrightarrow> se_familyId y = se_familyId x \<Longrightarrow>
      family_dead (snd (rotate_op s i y t)) f"
    and "family_dead (revoke_op s i r t) f"
    and "family_dead (snd (revoke_family s g r t)) f"
    and "family_dead (snd (revoke_user s u r t)) f"
    and "family_dead (snd (expire s t)) f"
proof -
  have old: "view s i = Some x" if "view (snd (expire s t)) i = Some x" for i x
    using that expire [OF assms(1), of t i] by auto
  then show "family_dead (snd (expire s t)) f" using assms(2) unfolding family_dead_def by blast
qed (use assms create [OF assms(1), of x] rotate_live [OF assms(1), of i x y t]
    revoke [OF assms(1), of i r t] revoke_family [OF assms(1), of g r t]
    revoke_user [OF assms(1), of u r t]
  in \<open>auto simp: family_dead_def split: if_splits\<close>)

end

section \<open>The in-memory store meets the contract\<close>

definition sessInv :: "sessionStore \<Rightarrow> bool" where
  "sessInv s \<longleftrightarrow> distinct (map fst s) \<and> (\<forall>(k, x) \<in> set s. se_id x = k)"

lemma sessInv_map_set: "sessInv s \<Longrightarrow> se_id x = k \<Longrightarrow> sessInv (map_set k x s)"
proof -
  assume a: "sessInv s" "se_id x = k"
  have "set (map_set k x s) \<subseteq> insert (k, x) (set s)" by (induction s) auto
  with a show ?thesis by (auto simp: sessInv_def)
qed

lemma sessInv_ids: "sessInv s \<Longrightarrow> map se_id (map snd s) = map fst s"
  by (auto simp: sessInv_def)

lemma sessInv_lookup: "sessInv s \<Longrightarrow> x \<in> set (map snd s) \<longleftrightarrow> map_of s (se_id x) = Some x"
  by (auto simp: sessInv_def dest: map_of_SomeD) force

lemma revoke_fold:
  assumes "distinct (map se_id xs)" and "\<And>x. x \<in> set xs \<Longrightarrow> map_of (snd acc) (se_id x) = Some x"
    and "sessInv (snd acc)"
  shows "sessInv (snd (foldl (revoke_row P r t) acc xs)) \<and>
    map_of (snd (foldl (revoke_row P r t) acc xs)) i = (if i \<in> se_id ` set xs
      then map_option (stamp P r t) (map_of (snd acc) i) else map_of (snd acc) i)"
  using assms
proof (induction xs arbitrary: acc)
  case (Cons x xs)
  let ?acc = "revoke_row P r t acc x"
  have x: "map_of (snd acc) (se_id x) = Some x" and notin: "se_id x \<notin> se_id ` set xs"
    using Cons.prems(1,2) by simp_all
  have row: "map_of (snd ?acc) = (map_of (snd acc))(se_id x \<mapsto> stamp P r t x)"
    using x by (auto simp: revoke_row_def stamp_def live_def)
  have inv: "sessInv (snd ?acc)"
    using Cons.prems(3) by (simp add: revoke_row_def sessInv_map_set)
  have "map_of (snd ?acc) (se_id y) = Some y" if "y \<in> set xs" for y
  proof -
    have "se_id y \<noteq> se_id x" using that notin by (metis imageI)
    then show ?thesis using Cons.prems(2) [of y] that row by simp
  qed
  from Cons.IH [OF _ this inv] Cons.prems(1)
  have IH: "sessInv (snd (foldl (revoke_row P r t) ?acc xs)) \<and>
    map_of (snd (foldl (revoke_row P r t) ?acc xs)) i = (if i \<in> se_id ` set xs
      then map_option (stamp P r t) (map_of (snd ?acc) i) else map_of (snd ?acc) i)" by simp
  show ?case
  proof (cases "i = se_id x")
    case True
    with IH notin row x show ?thesis by simp
  next
    case False
    with IH row show ?thesis by simp
  qed
qed simp

lemma revokeWhere_view:
  assumes "sessInv s"
  shows "sessInv (snd (revokeWhere P s r t)) \<and>
    map_of (snd (revokeWhere P s r t)) = (\<lambda>i. map_option (stamp P r t) (map_of s i))"
proof -
  have 1: "distinct (map se_id (map snd s))" by (metis assms sessInv_def sessInv_ids)
  have 2: "map_of (snd (0 :: int, s)) (se_id x) = Some x" if "x \<in> set (map snd s)" for x
    using that sessInv_lookup [OF assms] by simp
  have 3: "sessInv (snd (0 :: int, s))" using assms by simp
  note fold = revoke_fold [OF 1 2 3, of P r t]
  have "map_of (snd (revokeWhere P s r t)) i = map_option (stamp P r t) (map_of s i)" for i
  proof (cases "i \<in> se_id ` set (map snd s)")
    case True
    then show ?thesis using fold [of i] unfolding revokeWhere_def by simp
  next
    case False
    then have "map_of s i = None" using sessInv_ids [OF assms] by (metis list.set_map map_of_eq_None_iff)
    with False show ?thesis using fold [of i] unfolding revokeWhere_def by simp
  qed
  with fold show ?thesis unfolding revokeWhere_def by blast
qed

lemma sessInv_delete: "sessInv s \<Longrightarrow> sessInv (map_delete k s)"
  by (auto simp: sessInv_def AList.delete_eq distinct_map_filter)

lemma deleteExpired_view:
  "sessInv s \<Longrightarrow> sessInv (snd (deleteExpired s t)) \<and>
    (map_of (snd (deleteExpired s t)) i = None \<or> map_of (snd (deleteExpired s t)) i = map_of s i)"
proof -
  let ?f = "\<lambda>(n, st) x. if se_expiresAt x < t then (n + 1, map_delete (se_id x) st) else (n, st)"
  have "sessInv (snd (foldl ?f acc xs)) \<and>
      (map_of (snd (foldl ?f acc xs)) i = None \<or> map_of (snd (foldl ?f acc xs)) i = map_of (snd acc) i)"
    if "sessInv (snd acc)" for acc :: "int \<times> sessionStore" and xs
    using that
  proof (induction xs arbitrary: acc)
    case (Cons x xs)
    have "sessInv (snd (?f acc x)) \<and>
        (map_of (snd (?f acc x)) i = None \<or> map_of (snd (?f acc x)) i = map_of (snd acc) i)"
      using Cons.prems by (cases acc)
        (auto simp: sessInv_delete delete_conv)
    with Cons.IH [of "?f acc x"] show ?case by auto
  qed simp
  from this [of "(0, s)" "map snd s"] show "sessInv s \<Longrightarrow> ?thesis" by (simp add: deleteExpired_def)
qed

interpretation mem_sessions: session_port sessInv map_of createSession rotate findByTokenHash
  findSession revokeSession_store revokeFamily revokeAllForUser deleteExpired
proof (unfold_locales, goal_cases)
  case (1 s i x)
  then show ?case by (auto simp: sessInv_def dest: map_of_SomeD)
next
  case (2 s x)
  then show ?case by (auto simp: createSession_def sessInv_map_set)
next
  case (3 s i y t)
  then show ?case by (auto simp: rotate_def live_def split: option.splits)
next
  case (4 s i x y t)
  moreover from this have "se_id x = i" by (auto simp: sessInv_def dest: map_of_SomeD)
  ultimately show ?case by (auto simp: rotate_def live_def sessInv_map_set)
next
  case (5 s h x)
  then show ?case using sessInv_lookup [of s x]
    by (auto simp: findByTokenHash_def find_Some_iff)
next
  case (6 s h i x)
  then show ?case by (auto simp: findByTokenHash_def find_None_iff dest: map_of_SomeD) (force dest: map_of_SomeD)
next
  case (7 s u i)
  then show ?case by (simp add: findSession_def)
next
  case (8 s i r t)
  show ?case
  proof (cases "map_of s i")
    case (Some x)
    with 8 have "se_id x = i" by (auto simp: sessInv_def dest: map_of_SomeD)
    with 8 Some show ?thesis
      by (auto simp: revokeSession_store_def stamp_def live_def sessInv_map_set)
  qed (use 8 in \<open>auto simp: revokeSession_store_def\<close>)
next
  case (9 s f r t)
  then show ?case unfolding revokeFamily_def by (rule revokeWhere_view)
next
  case (10 s u r t)
  then show ?case unfolding revokeAllForUser_def by (rule revokeWhere_view)
next
  case (11 s t i)
  then show ?case by (rule deleteExpired_view)
qed

end
