(* ===== verification/AuthService.thy ===== *)
theory AuthService
  imports AuthSessions
begin

text \<open>
  The identity service, \<open>modules/auth/auth.service.ts\<close>: registration, login with lockout and
  second factor, rotation of refresh tokens, log-out, links by e-mail, account deletion and the
  check of an access token. The state is that of the stores the service is constructed with; a
  method returns its result or the error it throws, with the new state in both cases, because a
  refused request still records an audit event.

  Hashing, token signing, the one-time-password check, the cipher of the second factor, the
  breached-password lookup, the mail transport and the bank revoker are ports: they are the
  fields of \<open>authEnv\<close>. Random values come in a record \<open>fresh\<close>, and the time of the clock as
  \<open>now\<close>; one request reads the clock once here.
\<close>

section \<open>Types\<close>

datatype breachResult = Safe | Compromised | Unavailable

record legalConfig =
  lg_registrationRequired :: bool
  lg_termsVersion :: string
  lg_privacyVersion :: string

record authEnv =
  en_hash :: "string \<Rightarrow> string"
  en_verify :: "string \<Rightarrow> string \<Rightarrow> bool"
  en_needsRehash :: "string \<Rightarrow> bool"
  en_decoyHash :: string
  en_hashToken :: "string \<Rightarrow> string"
  en_verifyAccess :: "string \<Rightarrow> (string \<times> string) option"
  en_signAccess :: "string \<Rightarrow> string \<Rightarrow> string \<times> int"
  en_verifyTotp :: "string \<Rightarrow> string \<Rightarrow> int \<Rightarrow> int option"
  en_decrypt :: "string \<Rightarrow> string option"
  en_encrypt :: "string \<Rightarrow> string"
  en_mfaAvailable :: bool
  en_breach :: "string \<Rightarrow> breachResult"
  en_breachRequired :: bool
  en_mailOk :: bool
  en_revokeBanks :: "string \<Rightarrow> bool"
  en_legal :: legalConfig

record fresh =
  fr_userId :: string
  fr_sessionId :: string
  fr_familyId :: string
  fr_refreshToken :: string
  fr_actionToken :: string
  fr_challengeToken :: string
  fr_secret :: string
  fr_recoveryCodes :: "string list"
  fr_consentIds :: "string \<times> string"

record requestContext =
  rq_ip :: "string option"
  rq_userAgent :: "string option"

datatype consentKind = Analytics | ProductUpdates | Terms | PrivacyNotice

record consentEvent =
  co_id :: string
  co_userId :: string
  co_kind :: consentKind
  co_granted :: bool
  co_version :: string
  co_createdAt :: int

record legalAcceptance =
  la_terms :: bool
  la_termsVersion :: "string option"
  la_privacy :: bool
  la_privacyVersion :: "string option"

record authState =
  au_users :: userStore
  au_sessions :: sessionStore
  au_events :: eventStore
  au_mfa :: mfaStore
  au_actions :: actionStore
  au_consents :: "consentEvent list"
  au_deletions :: "(string, string \<times> int) jsmap"
  au_mails :: "(string \<times> actionKind \<times> string) list"

record publicUser =
  pu_id :: string
  pu_email :: string
  pu_displayName :: "string option"
  pu_emailVerified :: bool
  pu_createdAt :: int

record tokenPair =
  tp_access :: string
  tp_expiresIn :: int
  tp_refresh :: string
  tp_refreshExpiresAt :: int

datatype auth_error =
    InvalidEmail
  | PasswordRejected "passwordProblem list"
  | PasswordCompromised
  | ScreeningUnavailable
  | LegalNotAccepted
  | DuplicateEmail
  | TooManyAttempts int
  | IncorrectCredentials
  | AccountNotAvailable
  | SessionInvalid
  | PasswordIncorrect
  | MfaUnavailable
  | MfaAlreadyEnabled
  | MfaSetupAgain
  | MfaCodeIncorrect
  | MfaTooManyCodes
  | ChallengeInvalid
  | LinkInvalid
  | MailFailed
  | BankRevocationFailed
  | DeletionFailed
  | NoSuchSession
  | PasskeyNotVerified

datatype loginResult =
    LoggedIn publicUser tokenPair
  | MfaRequired string int

definition toPublicUser :: "user \<Rightarrow> publicUser" where
  "toPublicUser u = \<lparr>pu_id = us_id u, pu_email = us_email u, pu_displayName = us_displayName u,
     pu_emailVerified = (us_emailVerifiedAt u \<noteq> None), pu_createdAt = us_createdAt u\<rparr>"

definition REFRESH_TOKEN_TTL_MS :: int where
  "REFRESH_TOKEN_TTL_MS = 30 * 24 * 60 * 60 * 1000"

section \<open>Helpers of the service\<close>

definition record_event ::
  "int \<Rightarrow> requestContext \<Rightarrow> authEventKind \<Rightarrow> bool \<Rightarrow> string option \<Rightarrow> string option \<Rightarrow>
   string option \<Rightarrow> authState \<Rightarrow> authState" where
  "record_event now cx kind ok userId email detail s =
     s\<lparr>au_events := recordEvent (au_events s)
        \<lparr>ae_userId = userId, ae_email = email, ae_kind = kind, ae_succeeded = ok,
         ae_detail = detail, ae_ip = rq_ip cx, ae_userAgent = rq_userAgent cx,
         ae_createdAt = now\<rparr>\<rparr>"

definition buildSession ::
  "authEnv \<Rightarrow> fresh \<Rightarrow> int \<Rightarrow> requestContext \<Rightarrow> user \<Rightarrow> string option \<Rightarrow> session \<times> tokenPair" where
  "buildSession env fr now cx u familyId =
     (let x = \<lparr>se_id = fr_sessionId fr, se_userId = us_id u,
               se_familyId = (case familyId of None \<Rightarrow> fr_familyId fr | Some f \<Rightarrow> f),
               se_tokenHash = en_hashToken env (fr_refreshToken fr), se_issuedAt = now,
               se_expiresAt = now + REFRESH_TOKEN_TTL_MS, se_lastUsedAt = None,
               se_revokedAt = None, se_revokedReason = None,
               se_userAgent = rq_userAgent cx, se_ipAddress = rq_ip cx\<rparr>;
          (token, expiresIn) = en_signAccess env (us_id u) (fr_sessionId fr)
      in (x, \<lparr>tp_access = token, tp_expiresIn = expiresIn, tp_refresh = fr_refreshToken fr,
              tp_refreshExpiresAt = se_expiresAt x\<rparr>))"

definition issueSession ::
  "authEnv \<Rightarrow> fresh \<Rightarrow> int \<Rightarrow> requestContext \<Rightarrow> user \<Rightarrow> authState \<Rightarrow> tokenPair \<times> authState" where
  "issueSession env fr now cx u s =
     (let (x, tokens) = buildSession env fr now cx u None
      in (tokens, s\<lparr>au_sessions := createSession (au_sessions s) x\<rparr>))"

text \<open>\<open>issueAuthAction\<close> stores the hash of a new link and mails it; sending may fail.\<close>

definition issueAuthAction ::
  "authEnv \<Rightarrow> fresh \<Rightarrow> int \<Rightarrow> user \<Rightarrow> actionKind \<Rightarrow> authState \<Rightarrow> bool \<times> authState" where
  "issueAuthAction env fr now u kind s =
     (let lifetime = (if kind = VerifyEmail then 24 * 60 * 60 * 1000 else 60 * 60 * 1000);
          s' = s\<lparr>au_actions := issueAction now (au_actions s) (us_id u) kind
                 (en_hashToken env (fr_actionToken fr)) (now + lifetime)\<rparr>
      in if en_mailOk env
         then (True, s'\<lparr>au_mails := au_mails s @ [(us_email u, kind, fr_actionToken fr)]\<rparr>)
         else (False, s'))"

definition assertPasswordNotCompromised :: "authEnv \<Rightarrow> string \<Rightarrow> auth_error option" where
  "assertPasswordNotCompromised env password =
     (case en_breach env password of
        Compromised \<Rightarrow> Some PasswordCompromised
      | Unavailable \<Rightarrow> if en_breachRequired env then Some ScreeningUnavailable else None
      | Safe \<Rightarrow> None)"

definition requirePassword :: "authEnv \<Rightarrow> authState \<Rightarrow> string \<Rightarrow> string \<Rightarrow> auth_error + user" where
  "requirePassword env s userId password =
     (case findUser (au_users s) userId of
        None \<Rightarrow> Inl SessionInvalid
      | Some u \<Rightarrow>
          if us_status u \<noteq> Active then Inl SessionInvalid
          else if \<not> en_verify env (us_passwordHash u) password then Inl PasswordIncorrect
          else Inr u)"

definition is_six_digits :: "string \<Rightarrow> bool" where
  "is_six_digits s \<longleftrightarrow> length s = 6 \<and> list_all is_digit s"

definition normalizeRecoveryCode :: "string \<Rightarrow> string" where
  "normalizeRecoveryCode v = toUpperCase (filter (\<lambda>c. is_alpha c \<or> is_digit c) v)"

text \<open>None: the stored secret could not be decrypted, and the request fails.\<close>

definition verifyMfaFactor ::
  "authEnv \<Rightarrow> int \<Rightarrow> authState \<Rightarrow> string \<Rightarrow> string \<Rightarrow> bool option \<times> authState" where
  "verifyMfaFactor env now s userId candidate =
     (case getMfa (au_mfa s) userId of
        None \<Rightarrow> (Some False, s)
      | Some r \<Rightarrow>
          if mf_enabledAt r = None then (Some False, s)
          else let normalized = trim candidate
          in if is_six_digits normalized
             then (case en_decrypt env (mf_secret r) of
                     None \<Rightarrow> (None, s)
                   | Some secret \<Rightarrow>
                       (case en_verifyTotp env secret normalized now of
                          None \<Rightarrow> (Some False, s)
                        | Some step \<Rightarrow>
                            (let (ok, m) = acceptTotpStep (au_mfa s) userId step
                             in (Some ok, s\<lparr>au_mfa := m\<rparr>))))
             else (let (ok, m) = consumeRecoveryCode (au_mfa s) userId
                          (en_hashToken env (normalizeRecoveryCode normalized)) now
                   in (Some ok, s\<lparr>au_mfa := m\<rparr>)))"

text \<open>\<open>mfa?.enabledAt\<close>, and the detail an audit event gives of an account's status.\<close>

definition mfa_enabled :: "authState \<Rightarrow> string \<Rightarrow> bool" where
  "mfa_enabled s userId =
     (case getMfa (au_mfa s) userId of None \<Rightarrow> False | Some r \<Rightarrow> mf_enabledAt r \<noteq> None)"

fun status_detail :: "userStatus \<Rightarrow> string" where
  "status_detail Active = ''status=active''"
| "status_detail Locked = ''status=locked''"
| "status_detail PendingDeletion = ''status=pending_deletion''"

section \<open>Registration\<close>

definition legal_ok :: "legalConfig \<Rightarrow> legalAcceptance \<Rightarrow> bool" where
  "legal_ok lg a \<longleftrightarrow> \<not> lg_registrationRequired lg \<or>
     (la_terms a \<and> la_termsVersion a = Some (lg_termsVersion lg) \<and>
      la_privacy a \<and> la_privacyVersion a = Some (lg_privacyVersion lg))"

definition legalEvents :: "authEnv \<Rightarrow> fresh \<Rightarrow> int \<Rightarrow> consentEvent list" where
  "legalEvents env fr now =
     (if lg_registrationRequired (en_legal env)
      then [\<lparr>co_id = fst (fr_consentIds fr), co_userId = fr_userId fr, co_kind = Terms,
             co_granted = True, co_version = lg_termsVersion (en_legal env), co_createdAt = now\<rparr>,
            \<lparr>co_id = snd (fr_consentIds fr), co_userId = fr_userId fr, co_kind = PrivacyNotice,
             co_granted = True, co_version = lg_privacyVersion (en_legal env), co_createdAt = now\<rparr>]
      else [])"

definition register ::
  "authEnv \<Rightarrow> fresh \<Rightarrow> int \<Rightarrow> requestContext \<Rightarrow> authState \<Rightarrow> string \<Rightarrow> string \<Rightarrow> string option \<Rightarrow>
   legalAcceptance \<Rightarrow> (auth_error + publicUser \<times> tokenPair) \<times> authState" where
  "register env fr now cx s email password displayName acceptance =
     (let normalized = normalizeEmail email;
          problems = checkPassword password (Some normalized)
      in if \<not> isValidEmail normalized then (Inl InvalidEmail, s)
         else if problems \<noteq> [] then (Inl (PasswordRejected problems), s)
         else (case assertPasswordNotCompromised env password of
           Some e \<Rightarrow> (Inl e, s)
         | None \<Rightarrow>
           if \<not> legal_ok (en_legal env) acceptance then (Inl LegalNotAccepted, s)
           else (case createUser now (au_users s)
               \<lparr>cu_id = fr_userId fr, cu_email = normalized, cu_passwordHash = en_hash env password,
                cu_displayName = (case map_option trim displayName of
                   Some (c # cs) \<Rightarrow> Some (c # cs) | _ \<Rightarrow> None)\<rparr> of
             None \<Rightarrow> (Inl DuplicateEmail,
               record_event now cx EvRegister False None (Some normalized) (Some ''duplicate email'') s)
           | Some (u, users') \<Rightarrow>
               let s1 = s\<lparr>au_users := users', au_consents := au_consents s @ legalEvents env fr now\<rparr>;
                   s2 = record_event now cx EvRegister True (Some (us_id u)) (Some normalized) None s1;
                   (sent, s3) = issueAuthAction env fr now u VerifyEmail s2;
                   s4 = record_event now cx EvVerificationSent sent (Some (us_id u)) (Some (us_email u))
                          (if sent then None else Some ''delivery failed'') s3;
                   (tokens, s5) = issueSession env fr now cx u s4
               in (Inr (toPublicUser u, tokens), s5))))"

section \<open>Login\<close>

definition login ::
  "authEnv \<Rightarrow> fresh \<Rightarrow> int \<Rightarrow> requestContext \<Rightarrow> authState \<Rightarrow> string \<Rightarrow> string \<Rightarrow>
   (auth_error + loginResult) \<times> authState" where
  "login env fr now cx s email password =
     (let normalized = normalizeEmail email;
          failures = recentFailures (au_events s) normalized (now - FAILURE_WINDOW_MS) EvLogin;
          lockout = evaluateLockout failures now
      in if lk_locked lockout
         then (Inl (TooManyAttempts (lk_retryAfterSeconds lockout)),
               record_event now cx EvLogin False None (Some normalized) (Some ''locked out'') s)
         else let found = findByEmail (au_users s) normalized;
                  passwordOk = (case found of
                     Some u \<Rightarrow> en_verify env (us_passwordHash u) password
                   | None \<Rightarrow> en_verify env (en_decoyHash env) password)
         in if found = None \<or> \<not> passwordOk
            then (Inl IncorrectCredentials,
                  record_event now cx EvLogin False (map_option us_id found) (Some normalized)
                    (Some ''bad credentials'') s)
            else let u = the found
            in if us_status u \<noteq> Active
               then (Inl AccountNotAvailable,
                     record_event now cx EvLogin False (Some (us_id u)) (Some normalized)
                       (Some (status_detail (us_status u))) s)
               else let s1 = (if en_needsRehash env (us_passwordHash u)
                              then s\<lparr>au_users := updatePasswordHash (au_users s) (us_id u)
                                                   (en_hash env password)\<rparr>
                              else s)
               in if mfa_enabled s1 (us_id u)
                  then let expiresAt = now + 5 * 60 * 1000;
                           s2 = s1\<lparr>au_mfa := createChallenge (au_mfa s1)
                                  (en_hashToken env (fr_challengeToken fr)) (us_id u) expiresAt\<rparr>
                       in (Inr (MfaRequired (fr_challengeToken fr) expiresAt),
                           record_event now cx EvMfaChallenge True (Some (us_id u)) (Some normalized)
                             (Some ''password verified'') s2)
                  else let s2 = record_event now cx EvLogin True (Some (us_id u)) (Some normalized) None s1;
                           (tokens, s3) = issueSession env fr now cx u s2
                       in (Inr (LoggedIn (toPublicUser u) tokens), s3))"

text \<open>The lockout of passkey sign-in, and sign-in with a verified passkey.\<close>

definition assertPasskeyNotLocked ::
  "int \<Rightarrow> requestContext \<Rightarrow> authState \<Rightarrow> string option \<Rightarrow> auth_error option \<times> authState" where
  "assertPasskeyNotLocked now cx s email =
     (if \<not> truthy email then (None, s)
      else let lockout = evaluateLockout
                 (recentFailures (au_events s) (the email) (now - FAILURE_WINDOW_MS) EvPasskeyLogin) now
           in if \<not> lk_locked lockout then (None, s)
              else (Some (TooManyAttempts (lk_retryAfterSeconds lockout)),
                    record_event now cx EvPasskeyLogin False None email (Some ''locked out'') s))"

definition loginWithVerifiedPasskey ::
  "authEnv \<Rightarrow> fresh \<Rightarrow> int \<Rightarrow> requestContext \<Rightarrow> authState \<Rightarrow> string \<Rightarrow>
   (auth_error + publicUser \<times> tokenPair) \<times> authState" where
  "loginWithVerifiedPasskey env fr now cx s userId =
     (let found = findUser (au_users s) userId;
          email = map_option us_email found
      in case assertPasskeyNotLocked now cx s email of
        (Some e, s1) \<Rightarrow> (Inl e, s1)
      | (None, s1) \<Rightarrow>
          (case found of
             None \<Rightarrow> (Inl PasskeyNotVerified,
               record_event now cx EvPasskeyLogin False (Some userId) None (Some ''missing user'') s1)
           | Some u \<Rightarrow>
               if us_status u \<noteq> Active
               then (Inl PasskeyNotVerified,
                 record_event now cx EvPasskeyLogin False (Some userId) (Some (us_email u))
                   (Some (status_detail (us_status u))) s1)
               else let s2 = record_event now cx EvPasskeyLogin True (Some (us_id u)) (Some (us_email u)) None s1;
                        s3 = record_event now cx EvLogin True (Some (us_id u)) (Some (us_email u))
                               (Some ''passkey'') s2;
                        (tokens, s4) = issueSession env fr now cx u s3
                    in (Inr (toPublicUser u, tokens), s4)))"

section \<open>Second factor\<close>

definition requireRecentPassword ::
  "authEnv \<Rightarrow> int \<Rightarrow> requestContext \<Rightarrow> authState \<Rightarrow> string \<Rightarrow> string \<Rightarrow> string option \<Rightarrow> bool \<Rightarrow>
   (auth_error + user) \<times> authState" where
  "requireRecentPassword env now cx s userId password mfaCode requireMfa =
     (case requirePassword env s userId password of
        Inl e \<Rightarrow> (Inl e, s)
      | Inr u \<Rightarrow>
          if mfa_enabled s (us_id u) \<and> requireMfa
          then let (ok, s1) = (if truthy mfaCode
                     then verifyMfaFactor env now s (us_id u) (the mfaCode) else (Some False, s))
               in (case ok of
                     None \<Rightarrow> (Inl MfaUnavailable, s1)
                   | Some False \<Rightarrow> (Inl MfaCodeIncorrect,
                       record_event now cx EvPasskeyStepUp False (Some (us_id u)) (Some (us_email u))
                         (Some ''second factor failed'') s1)
                   | Some True \<Rightarrow> (Inr u,
                       record_event now cx EvPasskeyStepUp True (Some (us_id u)) (Some (us_email u)) None s1))
          else (Inr u, s))"

definition enrollMfa ::
  "authEnv \<Rightarrow> fresh \<Rightarrow> int \<Rightarrow> requestContext \<Rightarrow> authState \<Rightarrow> string \<Rightarrow> string \<Rightarrow>
   (auth_error + string) \<times> authState" where
  "enrollMfa env fr now cx s userId password =
     (if \<not> en_mfaAvailable env then (Inl MfaUnavailable, s)
      else (case requirePassword env s userId password of
        Inl e \<Rightarrow> (Inl e, s)
      | Inr u \<Rightarrow>
          if mfa_enabled s (us_id u) then (Inl MfaAlreadyEnabled, s)
          else (Inr (fr_secret fr),
             record_event now cx EvMfaEnrolled True (Some (us_id u)) (Some (us_email u))
               (Some ''enrollment started'')
               (s\<lparr>au_mfa := savePending (au_mfa s) (us_id u) (en_encrypt env (fr_secret fr))\<rparr>))))"

definition enableMfa ::
  "authEnv \<Rightarrow> fresh \<Rightarrow> int \<Rightarrow> requestContext \<Rightarrow> authState \<Rightarrow> string \<Rightarrow> string \<Rightarrow>
   (auth_error + string list) \<times> authState" where
  "enableMfa env fr now cx s userId otp =
     (case (findUser (au_users s) userId, getMfa (au_mfa s) userId) of
        (Some u, Some r) \<Rightarrow>
          if us_status u \<noteq> Active \<or> mf_enabledAt r \<noteq> None then (Inl MfaSetupAgain, s)
          else (case en_decrypt env (mf_secret r) of
             None \<Rightarrow> (Inl MfaUnavailable, s)
           | Some secret \<Rightarrow>
               if en_verifyTotp env secret (trim otp) now = None
               then (Inl MfaCodeIncorrect,
                     record_event now cx EvMfaEnrolled False (Some (us_id u)) (Some (us_email u))
                       (Some ''invalid confirmation code'') s)
               else (case enableMfa_store (au_mfa s) (us_id u)
                        (map (\<lambda>v. en_hashToken env (normalizeRecoveryCode v)) (fr_recoveryCodes fr)) now of
                  (False, m) \<Rightarrow> (Inl MfaSetupAgain, s)
                | (True, m) \<Rightarrow> (Inr (fr_recoveryCodes fr),
                    record_event now cx EvMfaEnrolled True (Some (us_id u)) (Some (us_email u))
                      (Some ''enabled'') (s\<lparr>au_mfa := m\<rparr>))))
      | _ \<Rightarrow> (Inl MfaSetupAgain, s))"

text \<open>A wrong second factor: the challenge counts it, and the audit trail records it.\<close>

definition failMfaChallenge ::
  "int \<Rightarrow> requestContext \<Rightarrow> string \<Rightarrow> string \<Rightarrow> string option \<Rightarrow> authState \<Rightarrow> auth_error \<times> authState" where
  "failMfaChallenge now cx h userId email s =
     (let (remaining, m) = failChallenge (au_mfa s) h now
      in (if remaining = Some 0 then MfaTooManyCodes else MfaCodeIncorrect,
          record_event now cx EvMfaVerified False (Some userId) email (Some ''invalid second factor'')
            (s\<lparr>au_mfa := m\<rparr>)))"

definition verifyMfaChallenge ::
  "authEnv \<Rightarrow> fresh \<Rightarrow> int \<Rightarrow> requestContext \<Rightarrow> authState \<Rightarrow> string \<Rightarrow> string \<Rightarrow>
   (auth_error + publicUser \<times> tokenPair) \<times> authState" where
  "verifyMfaChallenge env fr now cx s challengeToken otp =
     (let h = en_hashToken env challengeToken
      in case findChallenge (au_mfa s) h now of
           None \<Rightarrow> (Inl ChallengeInvalid, s)
         | Some userId \<Rightarrow>
             (case findUser (au_users s) userId of
                None \<Rightarrow> (let (e, s1) = failMfaChallenge now cx h userId None s in (Inl e, s1))
              | Some u \<Rightarrow>
                  if us_status u \<noteq> Active
                  then (let (e, s1) = failMfaChallenge now cx h (us_id u) (Some (us_email u)) s in (Inl e, s1))
                  else (case verifyMfaFactor env now s (us_id u) otp of
                     (None, s1) \<Rightarrow> (Inl MfaUnavailable, s1)
                   | (Some False, s1) \<Rightarrow>
                       (let (e, s2) = failMfaChallenge now cx h (us_id u) (Some (us_email u)) s1 in (Inl e, s2))
                   | (Some True, s1) \<Rightarrow>
                       (case consumeChallenge (au_mfa s1) h now of
                          (False, m) \<Rightarrow> (Inl ChallengeInvalid, s1)
                        | (True, m) \<Rightarrow>
                            let s2 = record_event now cx EvMfaVerified True (Some (us_id u))
                                       (Some (us_email u)) None (s1\<lparr>au_mfa := m\<rparr>);
                                s3 = record_event now cx EvLogin True (Some (us_id u)) (Some (us_email u))
                                       (Some ''MFA verified'') s2;
                                (tokens, s4) = issueSession env fr now cx u s3
                            in (Inr (toPublicUser u, tokens), s4)))))"

definition disableMfa ::
  "authEnv \<Rightarrow> int \<Rightarrow> requestContext \<Rightarrow> authState \<Rightarrow> string \<Rightarrow> string \<Rightarrow> string \<Rightarrow>
   (auth_error + unit) \<times> authState" where
  "disableMfa env now cx s userId password otp =
     (case requirePassword env s userId password of
        Inl e \<Rightarrow> (Inl e, s)
      | Inr u \<Rightarrow>
          (case verifyMfaFactor env now s (us_id u) otp of
             (None, s1) \<Rightarrow> (Inl MfaUnavailable, s1)
           | (Some False, s1) \<Rightarrow> (Inl MfaCodeIncorrect,
               record_event now cx EvMfaDisabled False (Some (us_id u)) (Some (us_email u))
                 (Some ''invalid second factor'') s1)
           | (Some True, s1) \<Rightarrow> (Inr (),
               record_event now cx EvMfaDisabled True (Some (us_id u)) (Some (us_email u)) None
                 (s1\<lparr>au_mfa := disableMfa_store (au_mfa s1) (us_id u)\<rparr>))))"

section \<open>Account deletion\<close>

definition requestDeletion_store ::
  "authState \<Rightarrow> string \<Rightarrow> string \<Rightarrow> int \<Rightarrow> authState option" where
  "requestDeletion_store s userId email purgeAfter =
     (case findUser (au_users s) userId of
        None \<Rightarrow> None
      | Some u \<Rightarrow> if us_status u \<noteq> Active then None
          else Some (s\<lparr>au_users := setStatus (au_users s) userId PendingDeletion,
                 au_deletions := map_set userId (email, purgeAfter) (au_deletions s)\<rparr>))"

definition cancelDeletion_store :: "authState \<Rightarrow> string \<Rightarrow> authState option" where
  "cancelDeletion_store s userId =
     (case findUser (au_users s) userId of
        None \<Rightarrow> None
      | Some u \<Rightarrow>
          if us_status u \<noteq> PendingDeletion \<or> map_of (au_deletions s) userId = None then None
          else Some (s\<lparr>au_deletions := map_delete userId (au_deletions s),
                 au_users := setStatus (au_users s) userId Active\<rparr>))"

definition requestAccountDeletion ::
  "authEnv \<Rightarrow> int \<Rightarrow> requestContext \<Rightarrow> authState \<Rightarrow> string \<Rightarrow> string \<Rightarrow> string option \<Rightarrow>
   (auth_error + int) \<times> authState" where
  "requestAccountDeletion env now cx s userId password mfaCode =
     (case requireRecentPassword env now cx s userId password mfaCode True of
        (Inl e, s1) \<Rightarrow> (Inl e, s1)
      | (Inr u, s1) \<Rightarrow>
          if \<not> en_revokeBanks env (us_id u)
          then (Inl BankRevocationFailed,
                record_event now cx EvDeletionRequested False (Some (us_id u)) (Some (us_email u))
                  (Some ''bank access revocation failed'') s1)
          else let purgeAfter = now + 30 * 24 * 60 * 60 * 1000
          in (case requestDeletion_store s1 (us_id u) (us_email u) purgeAfter of
                None \<Rightarrow> (Inl DeletionFailed, s1)
              | Some s2 \<Rightarrow>
                  let s3 = s2\<lparr>au_sessions := snd (revokeAllForUser (au_sessions s2) (us_id u)
                             AdminRevoked now)\<rparr>
                  in (Inr purgeAfter,
                      record_event now cx EvDeletionRequested True (Some (us_id u)) (Some (us_email u))
                        (Some ''purge scheduled'') s3)))"

definition cancelAccountDeletion ::
  "authEnv \<Rightarrow> fresh \<Rightarrow> int \<Rightarrow> requestContext \<Rightarrow> authState \<Rightarrow> string \<Rightarrow> string \<Rightarrow>
   (auth_error + publicUser \<times> tokenPair) \<times> authState" where
  "cancelAccountDeletion env fr now cx s email password =
     (let normalized = normalizeEmail email;
          found = findByEmail (au_users s) normalized;
          passwordOk = (case found of
             Some u \<Rightarrow> en_verify env (us_passwordHash u) password
           | None \<Rightarrow> en_verify env (en_decoyHash env) password)
      in if found = None \<or> \<not> passwordOk \<or> us_status (the found) \<noteq> PendingDeletion
         then (Inl IncorrectCredentials,
               record_event now cx EvDeletionCancelled False (map_option us_id found) (Some normalized)
                 (Some ''bad credentials or deletion not pending'') s)
         else let u = the found
         in (case cancelDeletion_store s (us_id u) of
               None \<Rightarrow> (Inl DeletionFailed, s)
             | Some s1 \<Rightarrow>
                 let restored = u\<lparr>us_status := Active\<rparr>;
                     s2 = record_event now cx EvDeletionCancelled True (Some (us_id u)) (Some normalized)
                            None s1;
                     (tokens, s3) = issueSession env fr now cx restored s2
                 in (Inr (toPublicUser restored, tokens), s3)))"

section \<open>Links by e-mail\<close>

definition requestEmailVerification ::
  "authEnv \<Rightarrow> fresh \<Rightarrow> int \<Rightarrow> requestContext \<Rightarrow> authState \<Rightarrow> string \<Rightarrow>
   (auth_error + unit) \<times> authState" where
  "requestEmailVerification env fr now cx s userId =
     (case findUser (au_users s) userId of
        None \<Rightarrow> (Inl SessionInvalid, s)
      | Some u \<Rightarrow>
          if us_status u \<noteq> Active then (Inl SessionInvalid, s)
          else if us_emailVerifiedAt u \<noteq> None then (Inr (), s)
          else (case issueAuthAction env fr now u VerifyEmail s of
             (False, s1) \<Rightarrow> (Inl MailFailed, s1)
           | (True, s1) \<Rightarrow> (Inr (), record_event now cx EvVerificationSent True (Some (us_id u))
               (Some (us_email u)) None s1)))"

definition confirmEmailVerification ::
  "authEnv \<Rightarrow> int \<Rightarrow> requestContext \<Rightarrow> authState \<Rightarrow> string \<Rightarrow> (auth_error + unit) \<times> authState" where
  "confirmEmailVerification env now cx s token =
     (case consumeAction (au_actions s) VerifyEmail (en_hashToken env token) now of
        (None, a) \<Rightarrow> (Inl LinkInvalid, s)
      | (Some userId, a) \<Rightarrow>
          let s1 = s\<lparr>au_actions := a\<rparr>
          in (case findUser (au_users s1) userId of
                None \<Rightarrow> (Inl LinkInvalid, s1)
              | Some u \<Rightarrow>
                  if us_status u \<noteq> Active then (Inl LinkInvalid, s1)
                  else (Inr (), record_event now cx EvEmailVerified True (Some (us_id u))
                    (Some (us_email u)) None
                    (s1\<lparr>au_users := markEmailVerified (au_users s1) (us_id u) now\<rparr>))))"

definition requestPasswordReset ::
  "authEnv \<Rightarrow> fresh \<Rightarrow> int \<Rightarrow> requestContext \<Rightarrow> authState \<Rightarrow> string \<Rightarrow>
   (auth_error + unit) \<times> authState" where
  "requestPasswordReset env fr now cx s email =
     (let normalized = normalizeEmail email
      in case findByEmail (au_users s) normalized of
           Some u \<Rightarrow>
             if us_status u = Active
             then (case issueAuthAction env fr now u ResetPassword s of
                (False, s1) \<Rightarrow> (Inl MailFailed, s1)
              | (True, s1) \<Rightarrow> (Inr (), record_event now cx EvResetRequested True (Some (us_id u))
                  (Some normalized) None s1))
             else (Inr (), record_event now cx EvResetRequested False None (Some normalized) None s)
         | None \<Rightarrow> (Inr (), record_event now cx EvResetRequested False None (Some normalized) None s))"

definition confirmPasswordReset ::
  "authEnv \<Rightarrow> int \<Rightarrow> requestContext \<Rightarrow> authState \<Rightarrow> string \<Rightarrow> string \<Rightarrow>
   (auth_error + unit) \<times> authState" where
  "confirmPasswordReset env now cx s token password =
     (let problems = checkPassword password None
      in if problems \<noteq> [] then (Inl (PasswordRejected problems), s)
         else (case assertPasswordNotCompromised env password of
           Some e \<Rightarrow> (Inl e, s)
         | None \<Rightarrow>
           (case consumeAction (au_actions s) ResetPassword (en_hashToken env token) now of
              (None, a) \<Rightarrow> (Inl LinkInvalid, s)
            | (Some userId, a) \<Rightarrow>
                let s1 = s\<lparr>au_actions := a\<rparr>
                in (case findUser (au_users s1) userId of
                      None \<Rightarrow> (Inl LinkInvalid, s1)
                    | Some u \<Rightarrow>
                        if us_status u \<noteq> Active then (Inl LinkInvalid, s1)
                        else let s2 = s1\<lparr>au_users := updatePasswordHash (au_users s1) (us_id u)
                                       (en_hash env password)\<rparr>;
                                 s3 = s2\<lparr>au_sessions := snd (revokeAllForUser (au_sessions s2) (us_id u)
                                       AdminRevoked now)\<rparr>
                             in (Inr (), record_event now cx EvResetCompleted True (Some (us_id u))
                                   (Some (us_email u)) None s3)))))"

section \<open>Refresh and log-out\<close>

text \<open>A replayed token: the whole family is revoked and the fact recorded.\<close>

definition revokeReused ::
  "int \<Rightarrow> requestContext \<Rightarrow> string \<Rightarrow> string \<Rightarrow> authState \<Rightarrow> authState" where
  "revokeReused now cx familyId userId s =
     (let (n, st) = revokeFamily (au_sessions s) familyId ReuseDetected now
      in record_event now cx EvRefreshReuse False (Some userId) None
           (Some (''revoked '' @ int_string n @ '' session(s) in family '' @ familyId))
           (s\<lparr>au_sessions := st\<rparr>))"

definition refresh ::
  "authEnv \<Rightarrow> fresh \<Rightarrow> int \<Rightarrow> requestContext \<Rightarrow> authState \<Rightarrow> string \<Rightarrow>
   (auth_error + publicUser \<times> tokenPair) \<times> authState" where
  "refresh env fr now cx s refreshToken =
     (let tokenHash = en_hashToken env refreshToken
      in case evaluateRefresh (findByTokenHash (au_sessions s) tokenHash) now of
           RefreshReuse familyId userId \<Rightarrow> (Inl SessionInvalid, revokeReused now cx familyId userId s)
         | RefreshOk x \<Rightarrow>
             (case (case findUser (au_users s) (se_userId x) of
                      None \<Rightarrow> None | Some u \<Rightarrow> if us_status u \<noteq> Active then None else Some u) of
                None \<Rightarrow> (Inl SessionInvalid,
                  s\<lparr>au_sessions := revokeSession_store (au_sessions s) (se_id x) AdminRevoked now\<rparr>)
              | Some u \<Rightarrow>
                  let (successor, tokens) = buildSession env fr now cx u (Some (se_familyId x))
                  in (case rotate (au_sessions s) (se_id x) successor now of
                     (True, st) \<Rightarrow> (Inr (toPublicUser u, tokens),
                       record_event now cx EvRefresh True (Some (us_id u)) None None
                         (s\<lparr>au_sessions := st\<rparr>))
                   | (False, st) \<Rightarrow>
                       (case evaluateRefresh (findByTokenHash (au_sessions s) tokenHash) now of
                          RefreshReuse familyId userId \<Rightarrow>
                            (Inl SessionInvalid, revokeReused now cx familyId userId s)
                        | _ \<Rightarrow> (Inl SessionInvalid, s))))
         | _ \<Rightarrow> (Inl SessionInvalid, s))"

definition logout ::
  "int \<Rightarrow> requestContext \<Rightarrow> authState \<Rightarrow> string \<Rightarrow> string \<Rightarrow> authState" where
  "logout now cx s userId sessionId =
     record_event now cx EvLogout True (Some userId) None None
       (s\<lparr>au_sessions := revokeSession_store (au_sessions s) sessionId Logout now\<rparr>)"

definition logoutAll ::
  "int \<Rightarrow> requestContext \<Rightarrow> authState \<Rightarrow> string \<Rightarrow> int \<times> authState" where
  "logoutAll now cx s userId =
     (let (n, st) = revokeAllForUser (au_sessions s) userId LogoutAll now
      in (n, record_event now cx EvLogoutAll True (Some userId) None
               (Some (''revoked '' @ int_string n)) (s\<lparr>au_sessions := st\<rparr>)))"

definition revokeSession ::
  "int \<Rightarrow> requestContext \<Rightarrow> authState \<Rightarrow> string \<Rightarrow> string \<Rightarrow> (auth_error + unit) \<times> authState" where
  "revokeSession now cx s userId sessionId =
     (case findSession (au_sessions s) userId sessionId of
        None \<Rightarrow> (Inl NoSuchSession, s)
      | Some x \<Rightarrow> (Inr (), record_event now cx EvSessionRevoked True (Some userId) None
          (Some (''session '' @ sessionId))
          (s\<lparr>au_sessions := revokeSession_store (au_sessions s) sessionId AdminRevoked now\<rparr>)))"

section \<open>The guard\<close>

definition resolveAccessToken ::
  "authEnv \<Rightarrow> int \<Rightarrow> authState \<Rightarrow> string \<Rightarrow> (string \<times> string) option" where
  "resolveAccessToken env now s token =
     (case en_verifyAccess env token of
        None \<Rightarrow> None
      | Some (userId, sessionId) \<Rightarrow>
          (case findSession (au_sessions s) userId sessionId of
             None \<Rightarrow> None
           | Some x \<Rightarrow>
               if se_revokedAt x \<noteq> None \<or> se_expiresAt x \<le> now then None
               else (case findUser (au_users s) userId of
                  None \<Rightarrow> None
                | Some u \<Rightarrow> if us_status u \<noteq> Active then None else Some (userId, sessionId))))"

end
