(* ===== verification/AuthSafety.thy ===== *)
theory AuthSafety
  imports AuthService
begin

text \<open>
  What the identity service guarantees over any sequence of requests. A request is a value of
  \<open>request\<close>, \<open>handle\<close> calls the method of the service that serves it, and \<open>auth_step\<close> is one
  request with random values that were never drawn before. The invariants of the session store
  come from the locale \<open>session_port\<close> through its interpretation \<open>mem_sessions\<close>.
\<close>

section \<open>Requests\<close>

datatype request =
    RRegister string string "string option" legalAcceptance
  | RLogin string string
  | RPasskey string
  | REnrollMfa string string
  | REnableMfa string string
  | RVerifyMfa string string
  | RDisableMfa string string string
  | RRequestDeletion string string "string option"
  | RCancelDeletion string string
  | RRequestVerification string
  | RConfirmVerification string
  | RRequestReset string
  | RConfirmReset string string
  | RRefresh string
  | RLogout string string
  | RLogoutAll string
  | RRevokeSession string string
  | RMaintenance

definition handle ::
  "authEnv \<Rightarrow> fresh \<Rightarrow> int \<Rightarrow> requestContext \<Rightarrow> authState \<Rightarrow> request \<Rightarrow> authState" where
  "handle env fr now cx s r = (case r of
     RRegister em pw dn la \<Rightarrow> snd (register env fr now cx s em pw dn la)
   | RLogin em pw \<Rightarrow> snd (login env fr now cx s em pw)
   | RPasskey u \<Rightarrow> snd (loginWithVerifiedPasskey env fr now cx s u)
   | REnrollMfa u pw \<Rightarrow> snd (enrollMfa env fr now cx s u pw)
   | REnableMfa u otp \<Rightarrow> snd (enableMfa env fr now cx s u otp)
   | RVerifyMfa tok otp \<Rightarrow> snd (verifyMfaChallenge env fr now cx s tok otp)
   | RDisableMfa u pw otp \<Rightarrow> snd (disableMfa env now cx s u pw otp)
   | RRequestDeletion u pw otp \<Rightarrow> snd (requestAccountDeletion env now cx s u pw otp)
   | RCancelDeletion em pw \<Rightarrow> snd (cancelAccountDeletion env fr now cx s em pw)
   | RRequestVerification u \<Rightarrow> snd (requestEmailVerification env fr now cx s u)
   | RConfirmVerification tok \<Rightarrow> snd (confirmEmailVerification env now cx s tok)
   | RRequestReset em \<Rightarrow> snd (requestPasswordReset env fr now cx s em)
   | RConfirmReset tok pw \<Rightarrow> snd (confirmPasswordReset env now cx s tok pw)
   | RRefresh tok \<Rightarrow> snd (refresh env fr now cx s tok)
   | RLogout u i \<Rightarrow> logout now cx s u i
   | RLogoutAll u \<Rightarrow> snd (logoutAll now cx s u)
   | RRevokeSession u i \<Rightarrow> snd (revokeSession now cx s u i)
   | RMaintenance \<Rightarrow> s\<lparr>au_sessions := snd (deleteExpired (au_sessions s) now)\<rparr>)"

text \<open>
  What a request can do to the sessions: nothing, start one in a new family, replace a live one
  by its successor, stamp some as revoked, or drop expired ones.
\<close>

definition new_session :: "authEnv \<Rightarrow> fresh \<Rightarrow> session \<Rightarrow> bool" where
  "new_session env fr x \<longleftrightarrow> se_id x = fr_sessionId fr \<and> live x \<and>
     se_tokenHash x = en_hashToken env (fr_refreshToken fr)"

inductive session_change ::
  "authEnv \<Rightarrow> fresh \<Rightarrow> int \<Rightarrow> sessionStore \<Rightarrow> sessionStore \<Rightarrow> bool" for env fr now st where
  Same: "session_change env fr now st st"
| Created: "new_session env fr x \<Longrightarrow> se_familyId x = fr_familyId fr \<Longrightarrow>
    session_change env fr now st (createSession st x)"
| Rotation: "x \<in> set (map snd st) \<Longrightarrow> live x \<Longrightarrow> new_session env fr y \<Longrightarrow>
    se_familyId y = se_familyId x \<Longrightarrow> session_change env fr now st (snd (rotate st (se_id x) y now))"
| RevokeOne: "session_change env fr now st (revokeSession_store st i r now)"
| RevokeFam: "session_change env fr now st (snd (revokeFamily st f ReuseDetected now))"
| RevokeUser: "session_change env fr now st (snd (revokeAllForUser st u r now))"
| Expire: "session_change env fr now st (snd (deleteExpired st now))"

lemma record_event_fields [simp]:
  "au_sessions (record_event now cx k ok u e d s) = au_sessions s"
  "au_users (record_event now cx k ok u e d s) = au_users s"
  "au_mfa (record_event now cx k ok u e d s) = au_mfa s"
  "au_actions (record_event now cx k ok u e d s) = au_actions s"
  "au_deletions (record_event now cx k ok u e d s) = au_deletions s"
  by (simp_all add: record_event_def)

lemma issueAuthAction_fields [simp]:
  "au_sessions (snd (issueAuthAction env fr now u k s)) = au_sessions s"
  "au_users (snd (issueAuthAction env fr now u k s)) = au_users s"
  "au_mfa (snd (issueAuthAction env fr now u k s)) = au_mfa s"
  by (simp_all add: issueAuthAction_def Let_def)

lemma verifyMfaFactor_fields [simp]:
  "au_sessions (snd (verifyMfaFactor env now s u c)) = au_sessions s"
  "au_users (snd (verifyMfaFactor env now s u c)) = au_users s"
  by (auto simp: verifyMfaFactor_def Let_def split: option.splits prod.splits)

lemma failMfaChallenge_fields [simp]:
  "au_sessions (snd (failMfaChallenge now cx h u e s)) = au_sessions s"
  by (simp add: failMfaChallenge_def split: prod.splits)

lemma buildSession_new:
  "new_session env fr (fst (buildSession env fr now cx u f))"
  "se_familyId (fst (buildSession env fr now cx u f)) = (case f of None \<Rightarrow> fr_familyId fr | Some g \<Rightarrow> g)"
  "se_userId (fst (buildSession env fr now cx u f)) = us_id u"
  "se_expiresAt (fst (buildSession env fr now cx u f)) = now + REFRESH_TOKEN_TTL_MS"
  by (simp_all add: buildSession_def new_session_def live_def Let_def split: prod.splits)

lemma issueSession_change:
  "session_change env fr now (au_sessions s) (au_sessions (snd (issueSession env fr now cx u s)))"
proof -
  have "au_sessions (snd (issueSession env fr now cx u s))
      = createSession (au_sessions s) (fst (buildSession env fr now cx u None))"
    by (simp add: issueSession_def split: prod.splits)
  moreover note buildSession_new [of env fr now cx u None]
  ultimately show ?thesis by (auto intro: session_change.Created)
qed

text \<open>The same facts on the pairs that the methods take apart.\<close>

lemma pair_fields:
  "issueAuthAction env fr now u k s = (b, s') \<Longrightarrow> au_sessions s' = au_sessions s"
  "verifyMfaFactor env now s w c = (r, s') \<Longrightarrow> au_sessions s' = au_sessions s"
  "failMfaChallenge now cx h w e s = (err, s') \<Longrightarrow> au_sessions s' = au_sessions s"
  "assertPasskeyNotLocked now cx s em = (po, s') \<Longrightarrow> au_sessions s' = au_sessions s"
  by (metis issueAuthAction_fields(1) snd_conv, metis verifyMfaFactor_fields(1) snd_conv,
      metis failMfaChallenge_fields snd_conv,
      auto simp: assertPasskeyNotLocked_def Let_def split: if_splits)

lemma requireRecentPassword_pair:
  "requireRecentPassword env now cx s w pw mc rq = (ru, s') \<Longrightarrow> au_sessions s' = au_sessions s"
  by (auto simp: requireRecentPassword_def Let_def dest!: pair_fields(2)
      split: if_splits sum.splits option.splits prod.splits bool.splits)

lemma issueSession_pair:
  "issueSession env fr now cx u s = (t, s') \<Longrightarrow>
   session_change env fr now (au_sessions s) (au_sessions s')"
  using issueSession_change [of env fr now s cx u] by simp

lemmas change_splits = if_splits sum.splits option.splits prod.splits bool.splits

lemmas change_intros = session_change.Same session_change.RevokeOne session_change.RevokeUser

lemma change_by_login:
  "session_change env fr now (au_sessions s) (au_sessions (snd (register env fr now cx s em pw dn la)))"
  "session_change env fr now (au_sessions s) (au_sessions (snd (login env fr now cx s em pw)))"
  "session_change env fr now (au_sessions s) (au_sessions (snd (loginWithVerifiedPasskey env fr now cx s u)))"
  "session_change env fr now (au_sessions s) (au_sessions (snd (verifyMfaChallenge env fr now cx s tok otp)))"
  "session_change env fr now (au_sessions s) (au_sessions (snd (cancelAccountDeletion env fr now cx s em pw)))"
proof -
  show "session_change env fr now (au_sessions s) (au_sessions (snd (register env fr now cx s em pw dn la)))"
    by (auto simp: register_def Let_def split: change_splits
        dest!: pair_fields issueSession_pair intro: change_intros)
  show "session_change env fr now (au_sessions s) (au_sessions (snd (login env fr now cx s em pw)))"
    by (auto simp: login_def Let_def split: change_splits
        dest!: pair_fields issueSession_pair intro: change_intros)
  show "session_change env fr now (au_sessions s) (au_sessions (snd (loginWithVerifiedPasskey env fr now cx s u)))"
    by (auto simp: loginWithVerifiedPasskey_def Let_def split: change_splits
        dest!: pair_fields issueSession_pair intro: change_intros)
  show "session_change env fr now (au_sessions s) (au_sessions (snd (verifyMfaChallenge env fr now cx s tok otp)))"
    by (auto simp: verifyMfaChallenge_def Let_def split: change_splits
        dest!: pair_fields issueSession_pair intro: change_intros)
  show "session_change env fr now (au_sessions s) (au_sessions (snd (cancelAccountDeletion env fr now cx s em pw)))"
    by (auto simp: cancelAccountDeletion_def cancelDeletion_store_def Let_def split: change_splits
        dest!: pair_fields issueSession_pair intro: change_intros)
qed

lemma change_by_factor:
  "session_change env fr now (au_sessions s) (au_sessions (snd (enrollMfa env fr now cx s u pw)))"
  "session_change env fr now (au_sessions s) (au_sessions (snd (enableMfa env fr now cx s u otp)))"
  "session_change env fr now (au_sessions s) (au_sessions (snd (disableMfa env now cx s u pw otp)))"
  by (auto simp: enrollMfa_def enableMfa_def disableMfa_def Let_def split: change_splits
      dest!: pair_fields intro: change_intros)

lemma change_by_link:
  "session_change env fr now (au_sessions s) (au_sessions (snd (requestEmailVerification env fr now cx s u)))"
  "session_change env fr now (au_sessions s) (au_sessions (snd (confirmEmailVerification env now cx s tok)))"
  "session_change env fr now (au_sessions s) (au_sessions (snd (requestPasswordReset env fr now cx s em)))"
  "session_change env fr now (au_sessions s) (au_sessions (snd (confirmPasswordReset env now cx s tok pw)))"
  by (auto simp: requestEmailVerification_def confirmEmailVerification_def requestPasswordReset_def
      confirmPasswordReset_def Let_def split: change_splits dest!: pair_fields intro: change_intros)

lemma change_by_revocation:
  "session_change env fr now (au_sessions s) (au_sessions (snd (requestAccountDeletion env now cx s u pw mc)))"
  "session_change env fr now (au_sessions s) (au_sessions (logout now cx s u i))"
  "session_change env fr now (au_sessions s) (au_sessions (snd (logoutAll now cx s u)))"
  "session_change env fr now (au_sessions s) (au_sessions (snd (revokeSession now cx s u i)))"
proof -
  show "session_change env fr now (au_sessions s)
      (au_sessions (snd (requestAccountDeletion env now cx s u pw mc)))"
    by (auto simp: requestAccountDeletion_def requestDeletion_store_def Let_def split: change_splits
        dest!: pair_fields requireRecentPassword_pair intro: change_intros)
qed (auto simp: logout_def logoutAll_def revokeSession_def split: change_splits
      intro: change_intros, metis session_change.RevokeUser snd_conv)

lemma revokeReused_sessions:
  "au_sessions (revokeReused now cx f u s) = snd (revokeFamily (au_sessions s) f ReuseDetected now)"
  by (simp add: revokeReused_def split: prod.splits)

lemma findByTokenHash_mem: "findByTokenHash st h = Some x \<Longrightarrow> x \<in> set (map snd st) \<and> se_tokenHash x = h"
  by (auto simp: findByTokenHash_def find_Some_iff)

lemma change_by_refresh:
  "session_change env fr now (au_sessions s) (au_sessions (snd (refresh env fr now cx s tok)))"
proof (cases "evaluateRefresh (findByTokenHash (au_sessions s) (en_hashToken env tok)) now")
  case (RefreshOk x)
  then have x: "x \<in> set (map snd (au_sessions s))" "live x"
    using findByTokenHash_mem by (auto simp: evaluateRefresh_Ok_iff isSessionActive_def live_def)
  show ?thesis
  proof (cases "case findUser (au_users s) (se_userId x) of None \<Rightarrow> None
      | Some u \<Rightarrow> if us_status u \<noteq> Active then None else Some u")
    case None
    with RefreshOk show ?thesis by (simp add: refresh_def Let_def session_change.RevokeOne)
  next
    case (Some u)
    let ?y = "fst (buildSession env fr now cx u (Some (se_familyId x)))"
    have "session_change env fr now (au_sessions s) (snd (rotate (au_sessions s) (se_id x) ?y now))"
      by (rule session_change.Rotation [OF x buildSession_new(1)]) (simp add: buildSession_new)
    with RefreshOk Some show ?thesis
      by (auto simp: refresh_def Let_def revokeReused_sessions session_change.Same
          session_change.RevokeFam split: prod.splits bool.splits refreshOutcome.splits)
  qed
qed (auto simp: refresh_def Let_def revokeReused_sessions intro: session_change.intros)

lemma handle_change:
  "session_change env fr now (au_sessions s) (au_sessions (handle env fr now cx s r))"
  by (cases r) (simp_all add: handle_def change_by_login change_by_factor change_by_link
      change_by_revocation change_by_refresh session_change.Expire)

section \<open>Sequences of requests\<close>

text \<open>
  The values drawn so far are remembered, because the generator of the runtime does not repeat
  128-bit identifiers or 256-bit tokens: a step draws values that are not among them.
\<close>

definition draws :: "authEnv \<Rightarrow> fresh \<Rightarrow> string set" where
  "draws env fr = {fr_sessionId fr, fr_familyId fr, en_hashToken env (fr_refreshToken fr)}"

inductive auth_step :: "authEnv \<Rightarrow> string set \<times> authState \<Rightarrow> string set \<times> authState \<Rightarrow> bool"
  for env where
  Handle: "draws env fr \<inter> used = {} \<Longrightarrow>
    auth_step env (used, s) (used \<union> draws env fr, handle env fr now cx s r)"

inductive auth_reach :: "authEnv \<Rightarrow> string set \<times> authState \<Rightarrow> string set \<times> authState \<Rightarrow> bool"
  for env c0 where
  Start: "auth_reach env c0 c0"
| Step: "auth_reach env c0 c \<Longrightarrow> auth_step env c c' \<Longrightarrow> auth_reach env c0 c'"

inductive_cases auth_stepE: "auth_step env c c'"

definition emptyAuth :: authState where
  "emptyAuth = \<lparr>au_users = [], au_sessions = [], au_events = [],
     au_mfa = \<lparr>ms_records = [], ms_recovery = [], ms_challenges = []\<rparr>, au_actions = [],
     au_consents = [], au_deletions = [], au_mails = []\<rparr>"

definition reachable_auth :: "authEnv \<Rightarrow> string set \<Rightarrow> authState \<Rightarrow> bool" where
  "reachable_auth env used s \<longleftrightarrow> auth_reach env ({}, emptyAuth) (used, s)"

lemma auth_reach_trans:
  "auth_reach env a b \<Longrightarrow> auth_reach env b c \<Longrightarrow> auth_reach env a c"
proof (rotate_tac, induction rule: auth_reach.induct)
  case (Step c c')
  then show ?case by (blast intro: auth_reach.Step)
qed simp

section \<open>The invariant of the sessions\<close>

definition drawn :: "string set \<Rightarrow> session \<Rightarrow> bool" where
  "drawn used x \<longleftrightarrow> se_id x \<in> used \<and> se_familyId x \<in> used \<and> se_tokenHash x \<in> used"

definition tokens_unique :: "sessionStore \<Rightarrow> bool" where
  "tokens_unique st \<longleftrightarrow> (\<forall>i j x y. map_of st i = Some x \<longrightarrow> map_of st j = Some y \<longrightarrow>
     se_tokenHash x = se_tokenHash y \<longrightarrow> i = j)"

definition sessions_ok :: "string set \<Rightarrow> sessionStore \<Rightarrow> bool" where
  "sessions_ok used st \<longleftrightarrow> sessInv st \<and> mem_sessions.one_live st \<and> tokens_unique st \<and>
     (\<forall>i x. map_of st i = Some x \<longrightarrow> drawn used x)"

text \<open>
  How a change treats the sessions that were there: each is kept, stamped as revoked, or
  dropped; the only new one carries the drawn values and a family that is new or live.
\<close>

definition evolves :: "session \<Rightarrow> session \<Rightarrow> bool" where
  "evolves x y \<longleftrightarrow> se_id y = se_id x \<and> se_userId y = se_userId x \<and> se_familyId y = se_familyId x \<and>
     se_tokenHash y = se_tokenHash x \<and> (y = x \<or> (live x \<and> \<not> live y))"

lemma evolves_refl [simp]: "evolves x x"
  by (simp add: evolves_def)

lemma evolves_stamp [simp]: "evolves x (stamp P r t x)"
  by (auto simp: evolves_def stamp_def live_def revoke_at_def)

lemma evolves_revoke_at: "live x \<Longrightarrow> evolves x (revoke_at r t x)"
  by (auto simp: evolves_def live_def revoke_at_def)

lemma session_change_cases:
  assumes "session_change env fr now st st'" and "sessInv st" and "map_of st' i = Some y"
  shows "(\<exists>x. map_of st i = Some x \<and> evolves x y) \<or>
    (new_session env fr y \<and> i = fr_sessionId fr \<and>
     (se_familyId y = fr_familyId fr \<or> (\<exists>j x. map_of st j = Some x \<and> live x \<and> se_familyId y = se_familyId x)))"
  using assms(1)
proof cases
  case (Created x)
  then show ?thesis using assms(3) mem_sessions.create [OF assms(2), of x]
    by (auto simp: new_session_def split: if_splits)
next
  case (Rotation x y')
  have x: "map_of st (se_id x) = Some x" using Rotation(2) sessInv_lookup [OF assms(2)] by blast
  from mem_sessions.rotate_live [OF assms(2) x Rotation(3), of y' now] assms(3) Rotation x show ?thesis
    by (auto simp: new_session_def evolves_revoke_at split: if_splits)
next
  case (RevokeOne j r)
  then show ?thesis using assms(3) mem_sessions.revoke [OF assms(2), of j r now]
    by (auto split: if_splits)
next
  case (RevokeFam f)
  then show ?thesis using assms(3) mem_sessions.revoke_family [OF assms(2), of f ReuseDetected now]
    by auto
next
  case (RevokeUser u r)
  then show ?thesis using assms(3) mem_sessions.revoke_user [OF assms(2), of u r now] by auto
next
  case Expire
  then show ?thesis using assms(3) mem_sessions.expire [OF assms(2), of now i]
    by (metis evolves_refl option.distinct(1))
qed (use assms(3) in auto)

lemma one_live_change:
  assumes "session_change env fr now st st'" and "sessions_ok used st" and "draws env fr \<inter> used = {}"
  shows "sessInv st' \<and> mem_sessions.one_live st'"
proof -
  have inv: "sessInv st" and one: "mem_sessions.one_live st"
    and drawn: "\<And>i x. map_of st i = Some x \<Longrightarrow> drawn used x"
    using assms(2) by (auto simp: sessions_ok_def)
  show ?thesis using assms(1)
  proof cases
    case (Created x)
    then have "mem_sessions.fresh_family st (se_familyId x)"
      using drawn assms(3) by (fastforce simp: mem_sessions.fresh_family_def drawn_def draws_def)
    with Created mem_sessions.create [OF inv] mem_sessions.one_live_create [OF inv one] show ?thesis
      by simp
  next
    case (Rotation x y)
    have x: "map_of st (se_id x) = Some x" using Rotation(2) sessInv_lookup [OF inv] by blast
    have "map_of st (se_id y) = None"
    proof (rule ccontr)
      assume "map_of st (se_id y) \<noteq> None"
      then obtain z where z: "map_of st (se_id y) = Some z" by blast
      with drawn [OF z] mem_sessions.view_id [OF inv z] have "se_id y \<in> used" by (simp add: drawn_def)
      with assms(3) Rotation(4) show False by (simp add: draws_def new_session_def)
    qed
    with Rotation x mem_sessions.rotate_live [OF inv x Rotation(3)]
      mem_sessions.one_live_rotate [OF inv one x Rotation(3)] show ?thesis by simp
  qed (use inv one mem_sessions.one_live_revokes [OF inv one] mem_sessions.one_live_expire [OF inv one]
      mem_sessions.revoke [OF inv] mem_sessions.revoke_family [OF inv]
      mem_sessions.revoke_user [OF inv] mem_sessions.expire [OF inv] in auto)
qed

lemma sessions_ok_change:
  assumes "session_change env fr now st st'" and "sessions_ok used st" and "draws env fr \<inter> used = {}"
  shows "sessions_ok (used \<union> draws env fr) st'"
proof -
  have inv: "sessInv st" and uniq: "tokens_unique st"
    and dr: "\<And>i x. map_of st i = Some x \<Longrightarrow> drawn used x"
    using assms(2) by (auto simp: sessions_ok_def)
  note old = session_change_cases [OF assms(1) inv]
  have "drawn (used \<union> draws env fr) y" if "map_of st' i = Some y" for i y
    using old [OF that] dr by (auto simp: drawn_def evolves_def new_session_def draws_def)
  moreover have "tokens_unique st'"
    unfolding tokens_unique_def
  proof (intro allI impI)
    fix i j x y assume x: "map_of st' i = Some x" and y: "map_of st' j = Some y"
      and eq: "se_tokenHash x = se_tokenHash y"
    have kept: "se_tokenHash z \<in> used" if "map_of st k = Some w" "evolves w z" for k w z
      using dr [OF that(1)] that(2) by (simp add: drawn_def evolves_def)
    have new: "se_tokenHash z \<notin> used" if "new_session env fr z" for z
      using that assms(3) by (auto simp: new_session_def draws_def)
    from old [OF x] old [OF y] eq kept new uniq show "i = j"
      unfolding tokens_unique_def evolves_def by metis
  qed
  ultimately show ?thesis using one_live_change [OF assms] by (simp add: sessions_ok_def)
qed

lemma sessions_ok_stamped:
  assumes "sessions_ok used st"
  shows "sessions_ok used (snd (revokeAllForUser st u r t))"
proof -
  have inv: "sessInv st" using assms by (simp add: sessions_ok_def)
  from mem_sessions.revoke_user [OF inv, of u r t]
  have v: "sessInv (snd (revokeAllForUser st u r t))"
    "map_of (snd (revokeAllForUser st u r t)) = (\<lambda>i. map_option (stamp (\<lambda>x. se_userId x = u) r t) (map_of st i))"
    by simp_all
  moreover have "mem_sessions.one_live (snd (revokeAllForUser st u r t))"
    using assms mem_sessions.one_live_revokes(3) [OF inv] by (simp add: sessions_ok_def)
  ultimately show ?thesis using assms
    unfolding sessions_ok_def tokens_unique_def by (auto simp: drawn_def)
qed

lemma auth_step_ok:
  "auth_step env c c' \<Longrightarrow> sessions_ok (fst c) (au_sessions (snd c)) \<Longrightarrow>
   sessions_ok (fst c') (au_sessions (snd c'))"
  by (auto elim!: auth_stepE intro: sessions_ok_change [OF handle_change])

lemma auth_reach_ok:
  "auth_reach env c0 c \<Longrightarrow> sessions_ok (fst c0) (au_sessions (snd c0)) \<Longrightarrow>
   sessions_ok (fst c) (au_sessions (snd c))"
  by (induction rule: auth_reach.induct) (auto simp: auth_step_ok)

lemma reachable_sessions_ok: "reachable_auth env used s \<Longrightarrow> sessions_ok used (au_sessions s)"
  unfolding reachable_auth_def using auth_reach_ok [of env "({}, emptyAuth)" "(used, s)"]
  by (simp add: emptyAuth_def sessions_ok_def sessInv_def mem_sessions.one_live_def tokens_unique_def)

text \<open>A revoked session stays revoked, and a family without live sessions stays without.\<close>

definition session_dead :: "string \<Rightarrow> sessionStore \<Rightarrow> bool" where
  "session_dead i st \<longleftrightarrow> (\<forall>x. map_of st i = Some x \<longrightarrow> \<not> live x)"

definition hash_spent :: "string \<Rightarrow> sessionStore \<Rightarrow> bool" where
  "hash_spent h st \<longleftrightarrow> (\<forall>i x. map_of st i = Some x \<longrightarrow> se_tokenHash x = h \<longrightarrow> \<not> live x)"

lemma spent_change:
  assumes "session_change env fr now st st'" and "sessions_ok used st" and "draws env fr \<inter> used = {}"
  shows "h \<in> used \<Longrightarrow> hash_spent h st \<Longrightarrow> hash_spent h st'"
    and "f \<in> used \<Longrightarrow> mem_sessions.family_dead st f \<Longrightarrow> mem_sessions.family_dead st' f"
    and "i \<in> used \<Longrightarrow> session_dead i st \<Longrightarrow> session_dead i st'"
proof -
  have inv: "sessInv st" using assms(2) by (simp add: sessions_ok_def)
  note old = session_change_cases [OF assms(1) inv]
  assume h: "h \<in> used" "hash_spent h st"
  show "hash_spent h st'" unfolding hash_spent_def
  proof (intro allI impI)
    fix i y assume "map_of st' i = Some y" "se_tokenHash y = h"
    then show "\<not> live y" using old [of i y] h assms(3)
      unfolding hash_spent_def evolves_def new_session_def draws_def by auto
  qed
next
  have inv: "sessInv st" using assms(2) by (simp add: sessions_ok_def)
  note old = session_change_cases [OF assms(1) inv]
  assume f: "f \<in> used" "mem_sessions.family_dead st f"
  show "mem_sessions.family_dead st' f" unfolding mem_sessions.family_dead_def
  proof (intro allI impI)
    fix i y assume "map_of st' i = Some y" "se_familyId y = f"
    then show "\<not> live y" using old [of i y] f assms(3)
      unfolding mem_sessions.family_dead_def evolves_def draws_def by auto
  qed
next
  have inv: "sessInv st" using assms(2) by (simp add: sessions_ok_def)
  note old = session_change_cases [OF assms(1) inv]
  assume i: "i \<in> used" "session_dead i st"
  show "session_dead i st'" unfolding session_dead_def
  proof (intro allI impI)
    fix y assume "map_of st' i = Some y"
    then show "\<not> live y" using old [of i y] i assms(3)
      unfolding session_dead_def evolves_def draws_def by auto
  qed
qed

lemma spent_reach:
  assumes "auth_reach env c c'" and "sessions_ok (fst c) (au_sessions (snd c))"
  shows "h \<in> fst c \<Longrightarrow> hash_spent h (au_sessions (snd c)) \<Longrightarrow>
      h \<in> fst c' \<and> hash_spent h (au_sessions (snd c'))"
    and "f \<in> fst c \<Longrightarrow> mem_sessions.family_dead (au_sessions (snd c)) f \<Longrightarrow>
      f \<in> fst c' \<and> mem_sessions.family_dead (au_sessions (snd c')) f"
    and "i \<in> fst c \<Longrightarrow> session_dead i (au_sessions (snd c)) \<Longrightarrow>
      i \<in> fst c' \<and> session_dead i (au_sessions (snd c'))"
  using assms(1)
proof (induction rule: auth_reach.induct)
  case (Step c1 c2)
  from Step.hyps(2) auth_reach_ok [OF Step.hyps(1) assms(2)]
  have step: "fst c1 \<subseteq> fst c2"
    "h \<in> fst c1 \<Longrightarrow> hash_spent h (au_sessions (snd c1)) \<Longrightarrow> hash_spent h (au_sessions (snd c2))"
    "f \<in> fst c1 \<Longrightarrow> mem_sessions.family_dead (au_sessions (snd c1)) f \<Longrightarrow>
      mem_sessions.family_dead (au_sessions (snd c2)) f"
    "i \<in> fst c1 \<Longrightarrow> session_dead i (au_sessions (snd c1)) \<Longrightarrow> session_dead i (au_sessions (snd c2))"
    by (auto elim!: auth_stepE intro: spent_change [OF handle_change])
  { case 1 then show ?case using Step.IH(1) step by blast }
  { case 2 then show ?case using Step.IH(2) step by blast }
  { case 3 then show ?case using Step.IH(3) step by blast }
qed auto

section \<open>What a refresh does\<close>

lemma refresh_spent:
  assumes "sessInv (au_sessions s)" and "hash_spent (en_hashToken env tok) (au_sessions s)"
  shows "fst (refresh env fr now cx s tok) = Inl SessionInvalid"
proof -
  have "evaluateRefresh (findByTokenHash (au_sessions s) (en_hashToken env tok)) now \<noteq> RefreshOk x" for x
    using mem_sessions.by_hash_Some [OF assms(1), of "en_hashToken env tok" x] assms(2)
    by (auto simp: evaluateRefresh_Ok_iff hash_spent_def isSessionActive_def live_def)
  then show ?thesis by (auto simp: refresh_def Let_def split: refreshOutcome.splits)
qed

lemma refresh_Inr:
  assumes "refresh env fr now cx s tok = (Inr r, s1)"
  obtains x y where "findByTokenHash (au_sessions s) (en_hashToken env tok) = Some x" and "live x"
    and "new_session env fr y" and "se_familyId y = se_familyId x"
    and "au_sessions s1 = snd (rotate (au_sessions s) (se_id x) y now)"
proof -
  obtain x where x: "evaluateRefresh (findByTokenHash (au_sessions s) (en_hashToken env tok)) now = RefreshOk x"
    using assms by (auto simp: refresh_def Let_def split: refreshOutcome.splits)
  obtain u where u: "findUser (au_users s) (se_userId x) = Some u" "us_status u = Active"
    using assms x by (auto simp: refresh_def Let_def split: option.splits if_splits)
  let ?y = "fst (buildSession env fr now cx u (Some (se_familyId x)))"
  have "au_sessions s1 = snd (rotate (au_sessions s) (se_id x) ?y now)"
    using assms x u
    by (auto simp: refresh_def Let_def split: prod.splits bool.splits refreshOutcome.splits)
  then show ?thesis using that x buildSession_new [of env fr now cx u "Some (se_familyId x)"]
    by (auto simp: evaluateRefresh_Ok_iff isSessionActive_def live_def)
qed

lemma refresh_spends:
  assumes "reachable_auth env used s" and "draws env fr \<inter> used = {}"
    and "refresh env fr now cx s tok = (Inr r, s1)"
  shows "hash_spent (en_hashToken env tok) (au_sessions s1) \<and> en_hashToken env tok \<in> used"
proof -
  note ok = reachable_sessions_ok [OF assms(1)]
  then have inv: "sessInv (au_sessions s)" and uniq: "tokens_unique (au_sessions s)"
    and dr: "\<And>i x. map_of (au_sessions s) i = Some x \<Longrightarrow> drawn used x"
    by (auto simp: sessions_ok_def)
  obtain x y where x: "findByTokenHash (au_sessions s) (en_hashToken env tok) = Some x" "live x"
    and y: "new_session env fr y"
    and s1: "au_sessions s1 = snd (rotate (au_sessions s) (se_id x) y now)"
    using refresh_Inr [OF assms(3)] by metis
  note vx = mem_sessions.by_hash_Some [OF inv x(1)]
  then have vx': "map_of (au_sessions s) (se_id x) = Some x" and h: "se_tokenHash x = en_hashToken env tok"
    by simp_all
  from dr [OF vx'] h have used: "en_hashToken env tok \<in> used" by (simp add: drawn_def)
  with y assms(2) have "se_tokenHash y \<noteq> en_hashToken env tok"
    by (auto simp: new_session_def draws_def)
  moreover have "i = se_id x" if "map_of (au_sessions s) i = Some z" "se_tokenHash z = en_hashToken env tok" for i z
    using uniq that vx' h unfolding tokens_unique_def by metis
  ultimately show ?thesis
    using mem_sessions.rotate_live [OF inv vx' x(2), of y now] s1 used
    by (auto simp: hash_spent_def split: if_splits)
qed

section \<open>A demonstration run\<close>

definition demo_env :: authEnv where
  "demo_env = \<lparr>en_hash = (\<lambda>p. CHR ''#'' # p), en_verify = (\<lambda>h p. h = CHR ''#'' # p),
     en_needsRehash = (\<lambda>_. False), en_decoyHash = ''#'', en_hashToken = (\<lambda>t. CHR ''h'' # t),
     en_verifyAccess = (\<lambda>t. Some (''u1'', t)), en_signAccess = (\<lambda>u i. (i, 900)),
     en_verifyTotp = (\<lambda>s c t. Some (t div 30000)), en_decrypt = Some, en_encrypt = (\<lambda>s. s),
     en_mfaAvailable = True, en_breach = (\<lambda>_. Safe), en_breachRequired = False, en_mailOk = True,
     en_revokeBanks = (\<lambda>_. True),
     en_legal = \<lparr>lg_registrationRequired = False, lg_termsVersion = [], lg_privacyVersion = []\<rparr>\<rparr>"

definition demo_fresh :: "char \<Rightarrow> fresh" where
  "demo_fresh c = \<lparr>fr_userId = ''u'' @ [c], fr_sessionId = ''s'' @ [c], fr_familyId = ''f'' @ [c],
     fr_refreshToken = ''r'' @ [c], fr_actionToken = ''a'' @ [c], fr_challengeToken = ''c'' @ [c],
     fr_secret = ''k'' @ [c], fr_recoveryCodes = [''AAAA'' @ [c]], fr_consentIds = ([], [])\<rparr>"

definition demo_cx :: requestContext where
  "demo_cx = \<lparr>rq_ip = None, rq_userAgent = None\<rparr>"

definition demo_register :: "authState" where
  "demo_register = handle demo_env (demo_fresh CHR ''1'') 1000 demo_cx emptyAuth
     (RRegister ''Sam@Example.com'' ''correct horse battery'' None
        \<lparr>la_terms = False, la_termsVersion = None, la_privacy = False, la_privacyVersion = None\<rparr>)"

definition demo_used :: "string set" where
  "demo_used = {} \<union> draws demo_env (demo_fresh CHR ''1'')"

lemma demo_register_reach: "reachable_auth demo_env demo_used demo_register"
  unfolding reachable_auth_def demo_used_def demo_register_def
  by (rule auth_reach.Step [OF auth_reach.Start]) (rule auth_step.Handle, simp)

lemma demo_fresh2: "draws demo_env (demo_fresh CHR ''2'') \<inter> demo_used = {}"
  by (simp add: demo_used_def draws_def demo_fresh_def demo_env_def)

lemma demo_refresh_ok:
  "\<exists>r s1. refresh demo_env (demo_fresh CHR ''2'') 2000 demo_cx demo_register ''r1'' = (Inr r, s1)"
proof -
  have "(case fst (refresh demo_env (demo_fresh CHR ''2'') 2000 demo_cx demo_register ''r1'') of
      Inl e \<Rightarrow> False | Inr r \<Rightarrow> True)" by code_simp
  then show ?thesis by (cases "refresh demo_env (demo_fresh CHR ''2'') 2000 demo_cx demo_register ''r1''")
      (auto split: sum.splits)
qed

section \<open>Properties of sessions\<close>

text \<open>C5: after any sequence of requests, at most one session of a refresh-token family is live:
  rotation replaces a session and never leaves two that can be refreshed.\<close>

theorem one_live_session_per_family:
  assumes "reachable_auth env used s"
    and "map_of (au_sessions s) i = Some x" and "map_of (au_sessions s) j = Some y"
    and "se_familyId x = se_familyId y" and "se_revokedAt x = None" and "se_revokedAt y = None"
  shows "i = j"
  using reachable_sessions_ok [OF assms(1)] assms(2-6)
  unfolding sessions_ok_def mem_sessions.one_live_def live_def by blast

theorem one_live_session_per_family_witness:
  "\<exists>x. map_of (au_sessions demo_register) ''s1'' = Some x \<and> se_revokedAt x = None \<and>
     \<not> (\<exists>j y. j \<noteq> ''s1'' \<and> map_of (au_sessions demo_register) j = Some y \<and>
         se_familyId x = se_familyId y \<and> se_revokedAt y = None)"
proof -
  have "map_option se_revokedAt (map_of (au_sessions demo_register) ''s1'') = Some None" by code_simp
  then obtain x where "map_of (au_sessions demo_register) ''s1'' = Some x" "se_revokedAt x = None" by auto
  then show ?thesis using one_live_session_per_family [OF demo_register_reach] by blast
qed

text \<open>a refresh token is spent by its first use: after a successful refresh, and whatever
  requests follow, the same token is refused.\<close>

theorem refresh_single_use:
  assumes "reachable_auth env used s" and "draws env fr \<inter> used = {}"
    and "refresh env fr now cx s tok = (Inr r, s1)"
    and "auth_reach env (used \<union> draws env fr, s1) (used', s')"
  shows "fst (refresh env fr' now' cx' s' tok) = Inl SessionInvalid"
proof -
  have "s1 = handle env fr now cx s (RRefresh tok)" using assms(3) by (simp add: handle_def)
  then have step: "auth_step env (used, s) (used \<union> draws env fr, s1)"
    using assms(2) by (auto intro: auth_step.Handle)
  then have ok: "sessions_ok (used \<union> draws env fr) (au_sessions s1)"
    using auth_step_ok [OF step] reachable_sessions_ok [OF assms(1)] by simp
  from spent_reach(1) [OF assms(4)] ok refresh_spends [OF assms(1-3)]
  have "hash_spent (en_hashToken env tok) (au_sessions s')" by simp
  moreover have "sessInv (au_sessions s')" using auth_reach_ok [OF assms(4)] ok by (simp add: sessions_ok_def)
  ultimately show ?thesis by (simp add: refresh_spent)
qed

theorem refresh_single_use_witness:
  "\<exists>r s1. refresh demo_env (demo_fresh CHR ''2'') 2000 demo_cx demo_register ''r1'' = (Inr r, s1) \<and>
     fst (refresh demo_env (demo_fresh CHR ''3'') 3000 demo_cx s1 ''r1'') = Inl SessionInvalid"
proof -
  obtain r s1 where r: "refresh demo_env (demo_fresh CHR ''2'') 2000 demo_cx demo_register ''r1'' = (Inr r, s1)"
    using demo_refresh_ok by blast
  from refresh_single_use [OF demo_register_reach demo_fresh2 r auth_reach.Start] r show ?thesis by blast
qed

text \<open>C6: presenting a refresh token that was already rotated is refused and ends the whole
  family for good: no session of it, then or after any further requests, is live.\<close>

theorem refresh_reuse_ends_family:
  assumes "reachable_auth env used s"
    and "findByTokenHash (au_sessions s) (en_hashToken env tok) = Some x"
    and "se_revokedAt x \<noteq> None" and "se_revokedReason x = Some Rotated"
    and "refresh env fr now cx s tok = (res, s1)" and "draws env fr \<inter> used = {}"
    and "auth_reach env (used \<union> draws env fr, s1) (used', s')"
    and "map_of (au_sessions s') i = Some y" and "se_familyId y = se_familyId x"
  shows "res = Inl SessionInvalid \<and> se_revokedAt y \<noteq> None"
proof -
  note ok = reachable_sessions_ok [OF assms(1)]
  then have inv: "sessInv (au_sessions s)" by (simp add: sessions_ok_def)
  have out: "evaluateRefresh (findByTokenHash (au_sessions s) (en_hashToken env tok)) now
      = RefreshReuse (se_familyId x) (se_userId x)"
    using assms(2-4) by (auto simp: evaluateRefresh_def)
  then have res: "res = Inl SessionInvalid"
    and s1: "au_sessions s1 = snd (revokeFamily (au_sessions s) (se_familyId x) ReuseDetected now)"
    using assms(5) by (auto simp: refresh_def Let_def revokeReused_sessions)
  have "se_familyId x \<in> used"
    using ok mem_sessions.by_hash_Some [OF inv assms(2)] by (auto simp: sessions_ok_def drawn_def)
  moreover have "mem_sessions.family_dead (au_sessions s1) (se_familyId x)"
    unfolding s1 by (rule mem_sessions.revoke_family_dead [OF inv])
  moreover have "sessions_ok (used \<union> draws env fr) (au_sessions s1)"
    unfolding s1 using ok assms(6) by (intro sessions_ok_change [OF session_change.RevokeFam])
  ultimately have "mem_sessions.family_dead (au_sessions s') (se_familyId x)"
    using spent_reach(2) [OF assms(7)] by simp
  then show ?thesis using res assms(8,9) by (auto simp: mem_sessions.family_dead_def live_def)
qed

definition demo_refreshed :: authState where
  "demo_refreshed = handle demo_env (demo_fresh CHR ''2'') 2000 demo_cx demo_register (RRefresh ''r1'')"

lemma demo_refreshed_reach:
  "reachable_auth demo_env (demo_used \<union> draws demo_env (demo_fresh CHR ''2'')) demo_refreshed"
  using auth_reach.Step [OF demo_register_reach [unfolded reachable_auth_def]
      auth_step.Handle [OF demo_fresh2]]
  unfolding reachable_auth_def demo_refreshed_def by blast

theorem refresh_reuse_ends_family_witness:
  "\<exists>x y. findByTokenHash (au_sessions demo_refreshed) ''hr1'' = Some x \<and>
     map_of (au_sessions (snd (refresh demo_env (demo_fresh CHR ''3'') 3000 demo_cx demo_refreshed ''r1''))) ''s2''
       = Some y \<and> se_revokedAt y \<noteq> None"
proof -
  let ?s1 = "snd (refresh demo_env (demo_fresh CHR ''3'') 3000 demo_cx demo_refreshed ''r1'')"
  have "map_option (\<lambda>x. (se_revokedAt x, se_revokedReason x, se_familyId x))
      (findByTokenHash (au_sessions demo_refreshed) ''hr1'') = Some (Some 2000, Some Rotated, ''f1'')"
    by code_simp
  then obtain x where x: "findByTokenHash (au_sessions demo_refreshed) (en_hashToken demo_env ''r1'') = Some x"
      "se_revokedAt x \<noteq> None" "se_revokedReason x = Some Rotated" "se_familyId x = ''f1''"
    by (auto simp: demo_env_def)
  have "map_option se_familyId (map_of (au_sessions ?s1) ''s2'') = Some ''f1''" by code_simp
  then obtain y where y: "map_of (au_sessions ?s1) ''s2'' = Some y" "se_familyId y = se_familyId x"
    using x(4) by auto
  have fresh: "draws demo_env (demo_fresh CHR ''3'') \<inter>
      (demo_used \<union> draws demo_env (demo_fresh CHR ''2'')) = {}"
    by (simp add: demo_used_def draws_def demo_fresh_def demo_env_def)
  have "se_revokedAt y \<noteq> None"
    using refresh_reuse_ends_family [OF demo_refreshed_reach x(1-3) prod.collapse [symmetric] fresh
        auth_reach.Start y] by blast
  with x(1) y(1) show ?thesis by (auto simp: demo_env_def)
qed

definition ends_sessions ::
  "authEnv \<Rightarrow> int \<Rightarrow> requestContext \<Rightarrow> authState \<Rightarrow> string \<Rightarrow> authState \<Rightarrow> bool" where
  "ends_sessions env now cx s u s1 \<longleftrightarrow>
     s1 = snd (logoutAll now cx s u) \<or>
     (\<exists>tok pw. confirmPasswordReset env now cx s tok pw = (Inr (), s1) \<and>
        (\<exists>v a. consumeAction (au_actions s) ResetPassword (en_hashToken env tok) now = (Some v, a) \<and>
           map_option us_id (findUser (au_users s) v) = Some u)) \<or>
     (\<exists>v pw mc p. requestAccountDeletion env now cx s v pw mc = (Inr p, s1) \<and>
        map_option us_id (findUser (au_users s) v) = Some u)"

lemma ends_sessions_revoked:
  assumes "ends_sessions env now cx s u s1"
  shows "\<exists>r. au_sessions s1 = snd (revokeAllForUser (au_sessions s) u r now)"
  using assms unfolding ends_sessions_def
proof (elim disjE exE conjE)
  assume "s1 = snd (logoutAll now cx s u)"
  then show ?thesis
    by (simp add: logoutAll_def split: prod.splits) (metis snd_conv)
next
  fix v pw mc p assume d: "requestAccountDeletion env now cx s v pw mc = (Inr p, s1)"
    and u: "map_option us_id (findUser (au_users s) v) = Some u"
  obtain w s2 where w: "requireRecentPassword env now cx s v pw mc True = (Inr w, s2)"
    using d by (auto simp: requestAccountDeletion_def split: prod.splits sum.splits)
  then have "us_id w = u" using u
    by (auto simp: requireRecentPassword_def requirePassword_def Let_def
        split: sum.splits option.splits if_splits prod.splits bool.splits)
  then show ?thesis using d w requireRecentPassword_pair [OF w]
    by (auto simp: requestAccountDeletion_def requestDeletion_store_def Let_def
        split: option.splits if_splits)
qed (auto simp: confirmPasswordReset_def Let_def split: prod.splits option.splits if_splits)

text \<open>logging out everywhere, completing a password reset and requesting the deletion of the
  account end all access of the user: an access token for any session the user then had is refused
  by the guard, at once and after any further requests.\<close>

theorem access_ends:
  assumes "reachable_auth env used s" and "ends_sessions env now cx s u s1"
    and "map_of (au_sessions s) i = Some x" and "se_userId x = u"
    and "auth_reach env (used, s1) (used', s')" and "en_verifyAccess env token = Some (u, i)"
  shows "resolveAccessToken env now' s' token = None"
proof -
  note ok = reachable_sessions_ok [OF assms(1)]
  then have inv: "sessInv (au_sessions s)" by (simp add: sessions_ok_def)
  obtain r where s1: "au_sessions s1 = snd (revokeAllForUser (au_sessions s) u r now)"
    using ends_sessions_revoked [OF assms(2)] by blast
  have ok1: "sessions_ok used (au_sessions s1)"
    unfolding s1 by (rule sessions_ok_stamped [OF ok])
  have "session_dead i (au_sessions s1)"
    unfolding s1 using mem_sessions.revoke_user [OF inv, of u r now] assms(3,4)
    by (auto simp: session_dead_def)
  moreover have "i \<in> used"
    using ok assms(3) mem_sessions.view_id [OF inv assms(3)] by (auto simp: sessions_ok_def drawn_def)
  ultimately have "session_dead i (au_sessions s')"
    using spent_reach(3) [OF assms(5)] ok1 by simp
  then show ?thesis using assms(6)
    by (auto simp: resolveAccessToken_def findSession_def session_dead_def live_def
        split: option.splits if_splits)
qed

theorem access_ends_witness:
  "resolveAccessToken demo_env 1500 demo_register ''s1'' = Some (''u1'', ''s1'') \<and>
   resolveAccessToken demo_env 1500 (snd (logoutAll 1400 demo_cx demo_register ''u1'')) ''s1'' = None"
proof
  show "resolveAccessToken demo_env 1500 demo_register ''s1'' = Some (''u1'', ''s1'')" by code_simp
  have "map_option se_userId (map_of (au_sessions demo_register) ''s1'') = Some ''u1''" by code_simp
  then obtain x where x: "map_of (au_sessions demo_register) ''s1'' = Some x" "se_userId x = ''u1''" by auto
  have "ends_sessions demo_env 1400 demo_cx demo_register ''u1''
      (snd (logoutAll 1400 demo_cx demo_register ''u1''))" by (simp add: ends_sessions_def)
  from access_ends [OF demo_register_reach this x auth_reach.Start]
  show "resolveAccessToken demo_env 1500 (snd (logoutAll 1400 demo_cx demo_register ''u1'')) ''s1'' = None"
    by (simp add: demo_env_def)
qed

end
