(* ===== verification/AuthLogin.thy ===== *)
theory AuthLogin
  imports AuthSafety
begin

text \<open>
  Properties of signing in: when the lockout holds, who can make it hold, that a second factor
  is asked for on every password login, the one path that does not ask for it, and that a
  reset link works once.
\<close>

section \<open>The failures that the lockout counts\<close>

definition login_failures :: "eventStore \<Rightarrow> string \<Rightarrow> int list" where
  "login_failures ev email = map ae_createdAt
     (filter (\<lambda>e. \<not> ae_succeeded e \<and> ae_kind e = EvLogin \<and> ae_email e = Some email) ev)"

lemma recentFailures_login:
  "recentFailures ev email since EvLogin = filter (\<lambda>t. t \<ge> since) (login_failures ev email)"
  by (induction ev) (auto simp: recentFailures_def login_failures_def)

lemma locked_by_recent:
  "lk_locked (evaluateLockout ts now) \<longleftrightarrow> 8 \<le> length (filter (\<lambda>t. now - 900000 < t) ts)"
proof -
  have "(\<lambda>t. now - FAILURE_WINDOW_MS \<le> t \<and> now - LOCKOUT_MS < t) = (\<lambda>t. now - 900000 < t)"
    by (auto simp: lockout_consts fun_eq_iff)
  then show ?thesis using locked_iff [of MAX_FAILED_ATTEMPTS FAILURE_WINDOW_MS LOCKOUT_MS ts now]
    by (simp add: evaluateLockout_def MAX_FAILED_ATTEMPTS_def)
qed

lemma retry_after_bounds:
  assumes "lk_locked (evaluateLockout ts now)" and "\<forall>t \<in> set ts. t \<le> now"
  shows "0 < lk_retryAfterSeconds (evaluateLockout ts now) \<and>
    lk_retryAfterSeconds (evaluateLockout ts now) \<le> 900"
proof -
  let ?r = "js_sort (\<lambda>a b. b - a) (filter (\<lambda>t. t \<ge> now - FAILURE_WINDOW_MS) ts)"
  let ?u = "?r ! 7 + LOCKOUT_MS"
  have len: "\<not> length ?r < 8" and u: "\<not> ?u \<le> now"
    and eq: "lk_retryAfterSeconds (evaluateLockout ts now) = \<lceil>of_int (?u - now) / (1000::rat)\<rceil>"
    using assms(1)
    by (auto simp: evaluateLockout_def evaluateLockout_with_def MAX_FAILED_ATTEMPTS_def Let_def
        split: if_splits)
  have "?r ! 7 \<in> set ?r" using len by (intro nth_mem) simp
  then have "?r ! 7 \<le> now" using assms(2) by auto
  then have "0 < ?u - now" "?u - now \<le> 900000" using u by (simp_all add: LOCKOUT_MS_def)
  then have "0 < of_int (?u - now) / (1000::rat)" "of_int (?u - now) / (1000::rat) \<le> of_int 900"
    by (simp_all add: divide_le_eq)
  then show ?thesis unfolding eq by (metis ceiling_le_iff zero_less_ceiling)
qed

lemma login_events:
  assumes "\<And>h. \<not> en_verify env h bad"
  shows "login_failures (au_events (snd (login env fr now cx s email bad))) (normalizeEmail email)
    = login_failures (au_events s) (normalizeEmail email) @ [now]"
  using assms by (auto simp: login_def Let_def record_event_def recordEvent_def login_failures_def
      split: option.splits)

section \<open>Properties\<close>

text \<open>an address is locked exactly while at least eight of its failed logins lie within the
  last fifteen minutes, and the advertised waiting time is then between one second and fifteen
  minutes.\<close>

theorem lockout_threshold:
  "lk_locked (evaluateLockout ts now) = (8 \<le> length (filter (\<lambda>t. now - 900000 < t) ts)) \<and>
   (lk_locked (evaluateLockout ts now) \<and> list_all (\<lambda>t. t \<le> now) ts \<longrightarrow>
      0 < lk_retryAfterSeconds (evaluateLockout ts now) \<and>
      lk_retryAfterSeconds (evaluateLockout ts now) \<le> 900)"
  using locked_by_recent retry_after_bounds by (simp add: list_all_iff)

theorem lockout_threshold_witness:
  "lk_locked (evaluateLockout (replicate 8 1000) 2000) \<and>
   lk_retryAfterSeconds (evaluateLockout (replicate 8 1000) 2000) = 899 \<and>
   lk_retryAfterSeconds (evaluateLockout (replicate 8 1000) 2000) \<le> 900"
proof -
  have "lk_locked (evaluateLockout (replicate 8 1000) 2000)"
    "lk_retryAfterSeconds (evaluateLockout (replicate 8 1000) 2000) = 899"
    "list_all (\<lambda>t. t \<le> 2000) (replicate 8 (1000::int))" by code_simp+
  with lockout_threshold [of "replicate 8 1000" 2000] show ?thesis by blast
qed

text \<open>An attacker who tries a wrong password every \<open>d\<close> milliseconds.\<close>

fun attack ::
  "authEnv \<Rightarrow> (nat \<Rightarrow> fresh) \<Rightarrow> requestContext \<Rightarrow> string \<Rightarrow> string \<Rightarrow> int \<Rightarrow> int \<Rightarrow> authState \<Rightarrow> nat \<Rightarrow> authState"
  where
  "attack env frs cx email bad t0 d s 0 = s"
| "attack env frs cx email bad t0 d s (Suc k) =
     snd (login env (frs k) (t0 + int k * d) cx (attack env frs cx email bad t0 d s k) email bad)"

lemma attack_failures:
  assumes "\<And>h. \<not> en_verify env h bad"
  shows "login_failures (au_events (attack env frs cx email bad t0 d s k)) (normalizeEmail email)
    = login_failures (au_events s) (normalizeEmail email) @ map (\<lambda>j. t0 + int j * d) [0..<k]"
  by (induction k) (simp_all add: login_events [OF assms])

text \<open>the lock does not run from the attempt that tripped it, as its comment promises. A
  refused attempt is itself recorded as a failure and counted, so somebody who keeps sending wrong
  passwords, one every \<open>d\<close> milliseconds with eight of them in less than fifteen minutes, keeps the
  account locked for as long as they like: the owner's right password is refused too.\<close>

theorem lock_held_forever:
  assumes "\<forall>h. \<not> en_verify env h bad" and "0 < d" and "8 * d < 900000" and "8 \<le> k"
  shows "\<exists>retry. fst (login env fr (t0 + int k * d) owner
    (attack env frs cx email bad t0 d s k) email password) = Inl (TooManyAttempts retry)"
proof -
  let ?now = "t0 + int k * d" and ?em = "normalizeEmail email"
  let ?s = "attack env frs cx email bad t0 d s k"
  let ?old = "login_failures (au_events s) ?em"
  have F: "login_failures (au_events ?s) ?em = ?old @ map (\<lambda>j. t0 + int j * d) [0..<k]"
    using attack_failures assms(1) by blast
  let ?late = "map (\<lambda>j. t0 + int j * d) [k - 8..<k]"
  have "?now - 900000 < t" if mem: "t \<in> set ?late" for t
  proof -
    obtain j where j: "k - 8 \<le> j" "t = t0 + int j * d" using mem by auto
    then have "(int k - int j) * d \<le> 8 * d"
      using assms(2,4) by (intro mult_right_mono) auto
    then show ?thesis using assms(3) j(2) by (simp add: algebra_simps)
  qed
  then have late: "filter (\<lambda>t. ?now - 900000 < t) ?late = ?late" by (simp add: filter_id_conv)
  have "[0..<k] = [0..<k - 8] @ [k - 8..<k]" using assms(4) upt_add_eq_append [of 0 "k - 8" 8] by simp
  then have "length (filter (\<lambda>t. ?now - 900000 < t) (login_failures (au_events ?s) ?em)) \<ge> length ?late"
    unfolding F using late by simp
  moreover have "filter (\<lambda>t. ?now - 900000 < t) (recentFailures (au_events ?s) ?em (?now - FAILURE_WINDOW_MS) EvLogin)
      = filter (\<lambda>t. ?now - 900000 < t) (login_failures (au_events ?s) ?em)"
    unfolding recentFailures_login filter_filter by (rule filter_cong) (auto simp: FAILURE_WINDOW_MS_def)
  ultimately have "lk_locked (evaluateLockout
      (recentFailures (au_events ?s) ?em (?now - FAILURE_WINDOW_MS) EvLogin) ?now)"
    using assms(4) by (simp add: locked_by_recent)
  then show ?thesis by (simp add: login_def Let_def)
qed

definition wrong_env :: authEnv where
  "wrong_env = demo_env\<lparr>en_verify := (\<lambda>h p. p = ''right'')\<rparr>"

theorem lock_held_forever_witness:
  "\<exists>retry. fst (login wrong_env (demo_fresh CHR ''9'') (0 + int 1440 * 60000) demo_cx
    (attack wrong_env (\<lambda>_. demo_fresh CHR ''8'') demo_cx ''sam@example.com'' ''guess'' 0 60000
       demo_register 1440) ''sam@example.com'' ''right'') = Inl (TooManyAttempts retry)"
  by (rule lock_held_forever) (simp_all add: wrong_env_def)

text \<open>a password login of an account with a second factor starts no session: it is refused or
  answered with a challenge, and the sessions are as they were.\<close>

theorem login_needs_second_factor:
  assumes "findByEmail (au_users s) (normalizeEmail email) = Some u" and "mfa_enabled s (us_id u)"
    and "login env fr now cx s email password = (res, s1)"
  shows "au_sessions s1 = au_sessions s \<and> (\<forall>pu tokens. res \<noteq> Inr (LoggedIn pu tokens))"
  using assms by (auto simp: login_def Let_def mfa_enabled_def split: if_splits)

definition demo_mfa :: authState where
  "demo_mfa = demo_register\<lparr>au_mfa := \<lparr>ms_records =
     [(''u1'', \<lparr>mf_secret = ''k'', mf_enabledAt = Some 1, mf_lastUsedStep = None\<rparr>)],
     ms_recovery = [], ms_challenges = []\<rparr>\<rparr>"

lemma demo_mfa_user: "\<exists>u. findByEmail (au_users demo_mfa) (normalizeEmail ''Sam@Example.com '') = Some u \<and>
    us_id u = ''u1'' \<and> us_passwordHash u = ''#correct horse battery''"
proof -
  have "map_option (\<lambda>u. (us_id u, us_passwordHash u))
      (findByEmail (au_users demo_mfa) (normalizeEmail ''Sam@Example.com '')) =
      Some (''u1'', ''#correct horse battery'')" by code_simp
  then show ?thesis by auto
qed

theorem login_needs_second_factor_witness:
  "au_sessions (snd (login demo_env (demo_fresh CHR ''2'') 5000 demo_cx demo_mfa ''Sam@Example.com ''
     ''correct horse battery'')) = au_sessions demo_mfa"
proof -
  obtain u where u: "findByEmail (au_users demo_mfa) (normalizeEmail ''Sam@Example.com '') = Some u"
    "us_id u = ''u1''" using demo_mfa_user by blast
  have "mfa_enabled demo_mfa (us_id u)" by (simp add: u(2) mfa_enabled_def getMfa_def demo_mfa_def)
  from login_needs_second_factor [OF u(1) this prod.collapse [symmetric]] show ?thesis by blast
qed

text \<open>withdrawing a deletion request signs the user in on the password alone: neither the second
  factor of the account nor the lockout of its address is consulted.\<close>

theorem cancel_deletion_skips_second_factor:
  assumes "findByEmail (au_users s) (normalizeEmail email) = Some u"
    and "findUser (au_users s) (us_id u) = Some u" and "us_status u = PendingDeletion"
    and "map_of (au_deletions s) (us_id u) \<noteq> None" and "en_verify env (us_passwordHash u) password"
    and "mfa_enabled s (us_id u)"
    and "lk_locked (evaluateLockout (recentFailures (au_events s) (normalizeEmail email)
           (now - FAILURE_WINDOW_MS) EvLogin) now)"
  shows "\<exists>pu tokens s1 x. cancelAccountDeletion env fr now cx s email password = (Inr (pu, tokens), s1) \<and>
    map_of (au_sessions s1) (fr_sessionId fr) = Some x \<and> se_userId x = us_id u \<and> isSessionActive x now"
proof -
  let ?u = "u\<lparr>us_status := Active\<rparr>"
  obtain x tokens where x: "buildSession env fr now cx ?u None = (x, tokens)" by fastforce
  note b = buildSession_new [of env fr now cx ?u None, unfolded x, simplified]
  have "isSessionActive x now" "se_userId x = us_id u" "se_id x = fr_sessionId fr"
    using b by (simp_all add: isSessionActive_def new_session_def live_def REFRESH_TOKEN_TTL_MS_def)
  with assms x show ?thesis
    by (auto simp: cancelAccountDeletion_def cancelDeletion_store_def issueSession_def Let_def
        createSession_def)
qed

definition demo_deleting :: authState where
  "demo_deleting = demo_mfa\<lparr>au_users := setStatus (au_users demo_mfa) ''u1'' PendingDeletion,
     au_deletions := [(''u1'', (''sam@example.com'', 9000))],
     au_events := replicate 8 \<lparr>ae_userId = None, ae_email = Some ''sam@example.com'', ae_kind = EvLogin,
       ae_succeeded = False, ae_detail = None, ae_ip = None, ae_userAgent = None, ae_createdAt = 4000\<rparr>\<rparr>"

theorem cancel_deletion_skips_second_factor_witness:
  "\<exists>pu tokens s1. cancelAccountDeletion demo_env (demo_fresh CHR ''2'') 5000 demo_cx demo_deleting
     ''sam@example.com'' ''correct horse battery'' = (Inr (pu, tokens), s1)"
proof -
  have "map_option (\<lambda>u. (us_id u, us_passwordHash u, us_status u))
      (findByEmail (au_users demo_deleting) (normalizeEmail ''sam@example.com'')) =
      Some (''u1'', ''#correct horse battery'', PendingDeletion)" by code_simp
  then obtain u where u: "findByEmail (au_users demo_deleting) (normalizeEmail ''sam@example.com'') = Some u"
    "us_id u = ''u1''" "us_passwordHash u = ''#correct horse battery''" "us_status u = PendingDeletion" by auto
  have id: "findUser (au_users demo_deleting) ''u1''
      = findByEmail (au_users demo_deleting) (normalizeEmail ''sam@example.com'')" by code_simp
  have lk: "lk_locked (evaluateLockout (recentFailures (au_events demo_deleting)
      (normalizeEmail ''sam@example.com'') (5000 - FAILURE_WINDOW_MS) EvLogin) 5000)" by code_simp
  have "mfa_enabled demo_deleting (us_id u)"
    by (simp add: u(2) mfa_enabled_def getMfa_def demo_deleting_def demo_mfa_def)
  moreover have "map_of (au_deletions demo_deleting) (us_id u) \<noteq> None"
    by (simp add: u(2) demo_deleting_def)
  moreover have "en_verify demo_env (us_passwordHash u) ''correct horse battery''"
    by (simp add: u(3) demo_env_def)
  moreover have "findUser (au_users demo_deleting) (us_id u) = Some u" using id u by simp
  ultimately show ?thesis
    using cancel_deletion_skips_second_factor [of demo_deleting "''sam@example.com''" u demo_env
        "''correct horse battery''" 5000] u lk by blast
qed

text \<open>a password-reset link works once: when the tokens of the stored links are distinct, a link
  that changed a password is refused ever after as long as it is not issued again.\<close>

theorem reset_link_single_use:
  assumes "distinct (map ac_tokenHash (au_actions s))"
    and "confirmPasswordReset env now cx s tok pw = (Inr (), s1)"
  shows "(\<forall>r \<in> set (au_actions s1). ac_tokenHash r = en_hashToken env tok \<longrightarrow> ac_usedAt r \<noteq> None) \<and>
    fst (confirmPasswordReset env now' cx' s1 tok pw') \<noteq> Inr ()"
proof -
  let ?h = "en_hashToken env tok" and ?P = "live_action ResetPassword (en_hashToken env tok) now"
  obtain u where "consumeAction (au_actions s) ResetPassword ?h now = (Some u, au_actions s1)"
    using assms(2) by (auto simp: confirmPasswordReset_def Let_def
        split: if_splits option.splits prod.splits)
  then obtain r where r: "find ?P (au_actions s) = Some r"
    and s1: "au_actions s1 = update_first ?P (\<lambda>r. r\<lparr>ac_usedAt := Some now\<rparr>) (au_actions s)"
    by (auto simp: consumeAction_def split: option.splits)
  have "\<forall>r \<in> set (update_first ?P (\<lambda>r. r\<lparr>ac_usedAt := Some now\<rparr>) rows). ac_tokenHash r = ?h \<longrightarrow> ac_usedAt r \<noteq> None"
    if "find ?P rows = Some r" "distinct (map ac_tokenHash rows)" for rows
    using that
  proof (induction rows)
    case (Cons a rows)
    show ?case
    proof (cases "?P a")
      case True
      then have "ac_tokenHash a = ?h" by (simp add: live_action_def)
      then have "\<forall>b \<in> set rows. ac_tokenHash b \<noteq> ?h" using Cons.prems(2) by (simp, metis imageI)
      with True show ?thesis by auto
    next
      case False
      have mem: "r \<in> set rows \<and> ac_tokenHash r = ?h"
        using Cons.prems(1) False by (auto simp: find_Some_iff live_action_def)
      then have "ac_tokenHash a \<noteq> ?h" using Cons.prems(2) by force
      with False Cons show ?thesis by auto
    qed
  qed simp
  from this [OF r assms(1)] s1
  have used: "\<forall>r \<in> set (au_actions s1). ac_tokenHash r = ?h \<longrightarrow> ac_usedAt r \<noteq> None" by simp
  then have "find (live_action ResetPassword ?h now') (au_actions s1) = None"
    by (auto simp: find_None_iff live_action_def)
  then have "fst (confirmPasswordReset env now' cx' s1 tok pw') \<noteq> Inr ()"
    by (simp add: confirmPasswordReset_def consumeAction_def Let_def split: option.splits)
  with used show ?thesis by blast
qed

definition demo_reset :: authState where
  "demo_reset = demo_register\<lparr>au_actions := [\<lparr>ac_userId = ''u1'', ac_kind = ResetPassword,
     ac_tokenHash = ''ht'', ac_expiresAt = 9000, ac_usedAt = None\<rparr>]\<rparr>"

theorem reset_link_single_use_witness:
  "\<exists>s1. confirmPasswordReset demo_env 5000 demo_cx demo_reset ''t'' ''another fine phrase'' = (Inr (), s1) \<and>
     fst (confirmPasswordReset demo_env 5001 demo_cx s1 ''t'' ''yet another phrase'') \<noteq> Inr ()"
proof -
  have "(case fst (confirmPasswordReset demo_env 5000 demo_cx demo_reset ''t'' ''another fine phrase'') of
      Inl e \<Rightarrow> False | Inr r \<Rightarrow> True)" by code_simp
  then obtain s1 where s1:
    "confirmPasswordReset demo_env 5000 demo_cx demo_reset ''t'' ''another fine phrase'' = (Inr (), s1)"
    by (cases "confirmPasswordReset demo_env 5000 demo_cx demo_reset ''t'' ''another fine phrase''")
      (auto split: sum.splits)
  have "distinct (map ac_tokenHash (au_actions demo_reset))" by (simp add: demo_reset_def)
  from reset_link_single_use [OF this s1] s1 show ?thesis by blast
qed

end
