(* ===== verification/AuthRace.thy ===== *)
theory AuthRace
  imports AuthLogin
begin

text \<open>
  Refresh requests that run at the same time. \<open>refresh\<close> of \<open>modules/auth/auth.service.ts\<close> is
  cut at its awaits: a step runs from one await to the next and performs the store call of that
  await, which is atomic. Any number of requests, with tokens of their own or the same token, take
  their steps in any order on one session store.
\<close>

section \<open>One request, step by step\<close>

datatype phase =
    AtStart
  | AfterLookup "session option"
  | InactiveUser session
  | AfterUser session user
  | RotateFailed
  | AfterRelookup "session option"
  | Succeeded
  | Refused

record refreshProc =
  rp_token :: string
  rp_fresh :: fresh
  rp_now :: int
  rp_cx :: requestContext
  rp_phase :: phase

definition revokeIfReused :: "session option \<Rightarrow> int \<Rightarrow> sessionStore \<Rightarrow> sessionStore" where
  "revokeIfReused so now st = (case evaluateRefresh so now of
     RefreshReuse f u \<Rightarrow> snd (revokeFamily st f ReuseDetected now) | _ \<Rightarrow> st)"

definition phase_step ::
  "authEnv \<Rightarrow> userStore \<Rightarrow> refreshProc \<Rightarrow> sessionStore \<Rightarrow> phase \<times> sessionStore" where
  "phase_step env users p st = (case rp_phase p of
     AtStart \<Rightarrow> (AfterLookup (findByTokenHash st (en_hashToken env (rp_token p))), st)
   | AfterLookup so \<Rightarrow>
       (case evaluateRefresh so (rp_now p) of
          RefreshOk x \<Rightarrow>
            (case findUser users (se_userId x) of
               None \<Rightarrow> (InactiveUser x, st)
             | Some u \<Rightarrow> if us_status u \<noteq> Active then (InactiveUser x, st) else (AfterUser x u, st))
        | _ \<Rightarrow> (Refused, revokeIfReused so (rp_now p) st))
   | InactiveUser x \<Rightarrow> (Refused, revokeSession_store st (se_id x) AdminRevoked (rp_now p))
   | AfterUser x u \<Rightarrow>
       (let y = fst (buildSession env (rp_fresh p) (rp_now p) (rp_cx p) u (Some (se_familyId x)))
        in case rotate st (se_id x) y (rp_now p) of
             (True, st') \<Rightarrow> (Succeeded, st')
           | (False, st') \<Rightarrow> (RotateFailed, st'))
   | RotateFailed \<Rightarrow> (AfterRelookup (findByTokenHash st (en_hashToken env (rp_token p))), st)
   | AfterRelookup so \<Rightarrow> (Refused, revokeIfReused so (rp_now p) st)
   | Succeeded \<Rightarrow> (Succeeded, st)
   | Refused \<Rightarrow> (Refused, st))"

section \<open>Alone, the steps are the method\<close>

definition solo ::
  "authEnv \<Rightarrow> userStore \<Rightarrow> refreshProc \<times> sessionStore \<Rightarrow> refreshProc \<times> sessionStore" where
  "solo env users c = (let (ph, st) = phase_step env users (fst c) (snd c)
     in ((fst c)\<lparr>rp_phase := ph\<rparr>, st))"

text \<open>run without interference, the five steps of a request do what the method \<open>refresh\<close> does:
  the same sessions, and success exactly when it returns tokens.\<close>

lemma solo_run_is_refresh:
  "let c = (solo env (au_users s) ^^ 5) (\<lparr>rp_token = tok, rp_fresh = fr, rp_now = now, rp_cx = cx,
       rp_phase = AtStart\<rparr>, au_sessions s);
       (res, s1) = refresh env fr now cx s tok
   in snd c = au_sessions s1 \<and>
      rp_phase (fst c) = (if (\<exists>r. res = Inr r) then Succeeded else Refused)"
proof -
  let ?so = "findByTokenHash (au_sessions s) (en_hashToken env tok)"
  note defs = solo_def phase_step_def Let_def refresh_def revokeIfReused_def revokeReused_sessions
    revokeSession_store_def numeral_eq_Suc
  show ?thesis
  proof (cases "evaluateRefresh ?so now")
    case (RefreshOk x)
    show ?thesis
    proof (cases "case findUser (au_users s) (se_userId x) of None \<Rightarrow> None
        | Some u \<Rightarrow> if us_status u \<noteq> Active then None else Some u")
      case None
      then show ?thesis
      proof (cases "findUser (au_users s) (se_userId x)")
        case None
        with RefreshOk show ?thesis by (simp add: defs)
      next
        case (Some v)
        with \<open>_ = None\<close> have "us_status v \<noteq> Active" by (auto split: if_splits)
        with Some RefreshOk show ?thesis by (simp add: defs)
      qed
    next
      case (Some u)
      then have u: "findUser (au_users s) (se_userId x) = Some u" "us_status u = Active"
        by (auto split: option.splits if_splits)
      obtain y tokens where b: "buildSession env fr now cx u (Some (se_familyId x)) = (y, tokens)"
        by fastforce
      obtain ok st where r: "rotate (au_sessions s) (se_id x) y now = (ok, st)" by fastforce
      show ?thesis
      proof (cases ok)
        case True
        with RefreshOk u b r show ?thesis by (simp add: defs)
      next
        case False
        then have "st = au_sessions s" using r by (auto simp: rotate_def split: option.splits if_splits)
        with False RefreshOk u b r show ?thesis by (simp add: defs)
      qed
    qed
  qed (simp_all add: defs)
qed

section \<open>Any interleaving\<close>

inductive race_step ::
  "authEnv \<Rightarrow> userStore \<Rightarrow> refreshProc list \<times> sessionStore \<Rightarrow> refreshProc list \<times> sessionStore \<Rightarrow> bool"
  for env users where
  Move: "i < length ps \<Longrightarrow> phase_step env users (ps ! i) st = (ph, st') \<Longrightarrow>
    race_step env users (ps, st) (ps[i := (ps ! i)\<lparr>rp_phase := ph\<rparr>], st')"

inductive race_reach ::
  "authEnv \<Rightarrow> userStore \<Rightarrow> refreshProc list \<times> sessionStore \<Rightarrow> refreshProc list \<times> sessionStore \<Rightarrow> bool"
  for env users c0 where
  Start: "race_reach env users c0 c0"
| Step: "race_reach env users c0 c \<Longrightarrow> race_step env users c c' \<Longrightarrow> race_reach env users c0 c'"

inductive_cases race_stepE: "race_step env users (ps, st) c'"

abbreviation new_hash :: "authEnv \<Rightarrow> refreshProc \<Rightarrow> string" where
  "new_hash env p \<equiv> en_hashToken env (fr_refreshToken (rp_fresh p))"

abbreviation token_hash :: "authEnv \<Rightarrow> refreshProc \<Rightarrow> string" where
  "token_hash env p \<equiv> en_hashToken env (rp_token p)"

text \<open>
  The random values of the requests are new: not in the store, not the token that a request
  presents, and different between requests.
\<close>

definition fresh_procs :: "authEnv \<Rightarrow> refreshProc list \<Rightarrow> sessionStore \<Rightarrow> bool" where
  "fresh_procs env ps st \<longleftrightarrow>
     distinct (map (\<lambda>p. fr_sessionId (rp_fresh p)) ps) \<and> distinct (map (new_hash env) ps) \<and>
     (\<forall>p \<in> set ps. \<forall>q \<in> set ps. new_hash env p \<noteq> token_hash env q) \<and>
     (\<forall>p \<in> set ps. \<forall>i x. map_of st i = Some x \<longrightarrow>
        i \<noteq> fr_sessionId (rp_fresh p) \<and> se_tokenHash x \<noteq> new_hash env p)"

definition proc_ok :: "authEnv \<Rightarrow> sessionStore \<Rightarrow> refreshProc \<Rightarrow> bool" where
  "proc_ok env st p \<longleftrightarrow> (case rp_phase p of
     AfterLookup (Some x) \<Rightarrow> \<exists>y. map_of st (se_id x) = Some y \<and> se_tokenHash y = token_hash env p
   | AfterUser x u \<Rightarrow> \<exists>y. map_of st (se_id x) = Some y \<and> se_tokenHash y = token_hash env p
   | Succeeded \<Rightarrow> hash_spent (token_hash env p) st
   | _ \<Rightarrow> True)"

definition unborn :: "authEnv \<Rightarrow> sessionStore \<Rightarrow> refreshProc \<Rightarrow> bool" where
  "unborn env st p \<longleftrightarrow> rp_phase p = Succeeded \<or>
     (\<forall>i x. map_of st i = Some x \<longrightarrow> i \<noteq> fr_sessionId (rp_fresh p) \<and> se_tokenHash x \<noteq> new_hash env p)"

definition race_inv :: "authEnv \<Rightarrow> refreshProc list \<Rightarrow> sessionStore \<Rightarrow> bool" where
  "race_inv env ps st \<longleftrightarrow> sessInv st \<and> tokens_unique st \<and>
     distinct (map (\<lambda>p. fr_sessionId (rp_fresh p)) ps) \<and> distinct (map (new_hash env) ps) \<and>
     (\<forall>i < length ps. \<forall>j < length ps. new_hash env (ps ! i) \<noteq> token_hash env (ps ! j)) \<and>
     (\<forall>i < length ps. proc_ok env st (ps ! i) \<and> unborn env st (ps ! i)) \<and>
     (\<forall>i < length ps. \<forall>j < length ps. rp_phase (ps ! i) = Succeeded \<longrightarrow>
        rp_phase (ps ! j) = Succeeded \<longrightarrow> rp_token (ps ! i) = rp_token (ps ! j) \<longrightarrow> i = j)"

text \<open>A store all of whose sessions are those of another, kept or stamped.\<close>

definition evolves_store :: "sessionStore \<Rightarrow> sessionStore \<Rightarrow> bool" where
  "evolves_store st st' \<longleftrightarrow> sessInv st' \<and> (\<forall>i. rel_option evolves (map_of st i) (map_of st' i))"

lemma evolves_store_refl: "sessInv st \<Longrightarrow> evolves_store st st"
  by (simp add: evolves_store_def option.rel_refl)

lemma evolves_store_map:
  "sessInv st' \<Longrightarrow> (\<And>i. \<exists>P. map_of st' i = map_option (stamp P r t) (map_of st i)) \<Longrightarrow> evolves_store st st'"
proof -
  assume "sessInv st'" and m: "\<And>i. \<exists>P. map_of st' i = map_option (stamp P r t) (map_of st i)"
  moreover have "rel_option evolves (map_of st i) (map_of st' i)" for i
    using m [of i] by (cases "map_of st i") auto
  ultimately show ?thesis by (simp add: evolves_store_def)
qed

lemma evolves_revokes:
  assumes "sessInv st"
  shows "evolves_store st (snd (revokeFamily st f r t))" and "evolves_store st (revokeSession_store st i r t)"
    and "evolves_store st (revokeIfReused so t st)"
proof -
  show fam: "evolves_store st (snd (revokeFamily st f r t))" for f r
    using mem_sessions.revoke_family [OF assms, of f r t] by (intro evolves_store_map) auto
  have "\<exists>P. map_of (revokeSession_store st i r t) j = map_option (stamp P r t) (map_of st j)" for j
    using mem_sessions.revoke [OF assms, of i r t]
    by (intro exI [of _ "\<lambda>x. j = i"]) (cases "map_of st j", auto simp: stamp_def)
  then show "evolves_store st (revokeSession_store st i r t)"
    using mem_sessions.revoke [OF assms, of i r t] by (intro evolves_store_map) blast+
  show "evolves_store st (revokeIfReused so t st)"
    using fam evolves_store_refl [OF assms] by (auto simp: revokeIfReused_def split: refreshOutcome.splits)
qed

lemma evolves_storeD:
  assumes "evolves_store st st'"
  shows "map_of st i = Some x \<Longrightarrow> \<exists>y. map_of st' i = Some y \<and> evolves x y"
    and "map_of st' i = Some y \<Longrightarrow> \<exists>x. map_of st i = Some x \<and> evolves x y"
  using assms unfolding evolves_store_def
  by (metis option_rel_Some1, metis option_rel_Some2)

text \<open>What a step does: it succeeds by rotating a live session, or the sessions only evolve.\<close>

lemma phase_step_cases:
  assumes "phase_step env users p st = (ph, st')" and "sessInv st" and "rp_phase p \<noteq> Succeeded"
  shows "(ph \<noteq> Succeeded \<and> evolves_store st st') \<or>
    (\<exists>x u cur y. rp_phase p = AfterUser x u \<and> ph = Succeeded \<and> map_of st (se_id x) = Some cur \<and>
       live cur \<and> new_session env (rp_fresh p) y \<and> st' = snd (rotate st (se_id x) y (rp_now p)))"
proof (cases "rp_phase p")
  case (AfterUser x u)
  let ?y = "fst (buildSession env (rp_fresh p) (rp_now p) (rp_cx p) u (Some (se_familyId x)))"
  have y: "new_session env (rp_fresh p) ?y" by (rule buildSession_new)
  show ?thesis
  proof (cases "\<exists>cur. map_of st (se_id x) = Some cur \<and> live cur")
    case True
    then obtain cur where cur: "map_of st (se_id x) = Some cur" "live cur" by blast
    then show ?thesis
      using assms(1) AfterUser y mem_sessions.rotate_live [OF assms(2) cur, of ?y "rp_now p"]
      by (auto simp: phase_step_def Let_def split: prod.splits bool.splits)
  next
    case False
    then have "rotate st (se_id x) ?y (rp_now p) = (False, st)"
      using mem_sessions.rotate_dead [OF assms(2)] by blast
    with assms(1) AfterUser evolves_store_refl [OF assms(2)] show ?thesis
      by (auto simp: phase_step_def Let_def)
  qed
qed (use assms evolves_revokes [OF assms(2)] evolves_store_refl [OF assms(2)] in
    \<open>auto simp: phase_step_def split: refreshOutcome.splits option.splits if_splits\<close>)

text \<open>A request that reaches \<open>AfterLookup\<close> or \<open>AfterUser\<close> holds a session of its token.\<close>

lemma phase_step_holds:
  assumes "phase_step env users p st = (ph, st')" and "sessInv st" and "proc_ok env st p"
    and "evolves_store st st'" and "ph \<noteq> Succeeded"
  shows "proc_ok env st' (p\<lparr>rp_phase := ph\<rparr>)"
proof (cases "rp_phase p")
  case AtStart
  then show ?thesis using assms(1) mem_sessions.by_hash_Some [OF assms(2)]
    by (auto simp: phase_step_def proc_ok_def split: option.splits)
next
  case (AfterLookup so)
  have keep: "\<exists>y. map_of st' i = Some y \<and> se_tokenHash y = h"
    if "map_of st i = Some x" "se_tokenHash x = h" for i x h
    using evolves_storeD(1) [OF assms(4) that(1)] that(2) by (auto simp: evolves_def)
  show ?thesis using assms(1,3) AfterLookup keep
    by (auto simp: phase_step_def proc_ok_def evaluateRefresh_Ok_iff
        split: refreshOutcome.splits option.splits if_splits)
qed (use assms(1,5) in \<open>auto simp: phase_step_def proc_ok_def Let_def
    split: refreshOutcome.splits option.splits if_splits prod.splits bool.splits\<close>)

lemma evolves_store_inv:
  assumes "evolves_store st st'"
  shows "tokens_unique st \<Longrightarrow> tokens_unique st'" and "unborn env st p \<Longrightarrow> unborn env st' p"
    and "proc_ok env st p \<Longrightarrow> proc_ok env st' p" and "hash_spent h st \<Longrightarrow> hash_spent h st'"
proof -
  have prior: "\<exists>x. map_of st i = Some x \<and> se_tokenHash x = se_tokenHash y \<and> (live y \<longrightarrow> live x)"
    if "map_of st' i = Some y" for i y
    using evolves_storeD(2) [OF assms that] by (auto simp: evolves_def)
  have forth: "\<exists>y. map_of st' i = Some y \<and> se_tokenHash y = h" if "\<exists>x. map_of st i = Some x \<and> se_tokenHash x = h" for i h
    using that evolves_storeD(1) [OF assms] by (fastforce simp: evolves_def)
  show "tokens_unique st \<Longrightarrow> tokens_unique st'" using prior unfolding tokens_unique_def by metis
  show "unborn env st p \<Longrightarrow> unborn env st' p" using prior unfolding unborn_def by metis
  show spent: "hash_spent h st \<Longrightarrow> hash_spent h st'" for h using prior unfolding hash_spent_def by metis
  show "proc_ok env st p \<Longrightarrow> proc_ok env st' p"
    using forth spent unfolding proc_ok_def by (auto split: phase.splits option.splits)
qed

text \<open>The store after a rotation: the spent session is stamped and the successor is new.\<close>

lemma rotation_store:
  fixes t :: int
  assumes "sessInv st" and "tokens_unique st" and "map_of st (se_id x) = Some cur" and "live cur"
    and "new_session env (rp_fresh p) y" and "unborn env st p" and "rp_phase p \<noteq> Succeeded"
  defines "st' \<equiv> snd (rotate st (se_id x) y t)"
  shows "sessInv st' \<and> tokens_unique st' \<and>
    (\<forall>i z. map_of st' i = Some z \<longrightarrow> (\<exists>w. map_of st i = Some w \<and> evolves w z) \<or>
       (i = fr_sessionId (rp_fresh p) \<and> se_tokenHash z = new_hash env p)) \<and>
    (\<forall>i w. map_of st i = Some w \<longrightarrow> (\<exists>z. map_of st' i = Some z \<and> evolves w z)) \<and>
    hash_spent (se_tokenHash cur) st'"
proof -
  have v: "sessInv st'" "map_of st' = (map_of st)(se_id x \<mapsto> revoke_at Rotated t cur, se_id y \<mapsto> y)"
    using mem_sessions.rotate_live [OF assms(1,3,4), of y t] by (simp_all add: st'_def)
  have y: "se_id y = fr_sessionId (rp_fresh p)" "se_tokenHash y = new_hash env p"
    using assms(5) by (simp_all add: new_session_def)
  have born: "i \<noteq> se_id y" "se_tokenHash w \<noteq> se_tokenHash y" if "map_of st i = Some w" for i w
    using assms(6,7) that y by (auto simp: unborn_def)
  have "tokens_unique st'" using assms(2,3) born unfolding tokens_unique_def v
    by (auto split: if_splits) metis+
  moreover have "hash_spent (se_tokenHash cur) st'"
    using assms(2,3) born [OF assms(3)] unfolding hash_spent_def v tokens_unique_def
    by (auto split: if_splits)
  ultimately show ?thesis using v y born assms(3,4) by (auto simp: evolves_revoke_at)
qed

lemma map_phase:
  "i < length ps \<Longrightarrow> (\<And>p. f (p\<lparr>rp_phase := ph\<rparr>) = f p) \<Longrightarrow>
   map f (ps[i := (ps ! i)\<lparr>rp_phase := ph\<rparr>]) = map f ps"
  by (metis list_update_id map_update)

lemma race_inv_evolve:
  assumes "race_inv env ps st" and "i < length ps" and "rp_phase (ps ! i) \<noteq> Succeeded"
    and "phase_step env users (ps ! i) st = (ph, st')" and "ph \<noteq> Succeeded" and "evolves_store st st'"
  shows "race_inv env (ps[i := (ps ! i)\<lparr>rp_phase := ph\<rparr>]) st'"
proof -
  let ?p = "(ps ! i)\<lparr>rp_phase := ph\<rparr>"
  let ?ps = "ps[i := ?p]"
  have inv: "sessInv st" "proc_ok env st (ps ! i)" "unborn env st (ps ! i)"
    using assms(1,2) unfolding race_inv_def by blast+
  have p: "proc_ok env st' ?p" by (rule phase_step_holds [OF assms(4) inv(1,2) assms(6,5)])
  have un: "unborn env st' ?p"
    using evolves_store_inv(2) [OF assms(6) inv(3)] assms(3) by (simp add: unborn_def)
  have maps: "map (\<lambda>p. fr_sessionId (rp_fresh p)) ?ps = map (\<lambda>p. fr_sessionId (rp_fresh p)) ps"
    "map (new_hash env) ?ps = map (new_hash env) ps"
    using assms(2) by (simp_all add: map_phase)
  have nth: "rp_token (?ps ! j) = rp_token (ps ! j)" "new_hash env (?ps ! j) = new_hash env (ps ! j)"
    "rp_phase (?ps ! j) = Succeeded \<longleftrightarrow> rp_phase (ps ! j) = Succeeded" if "j < length ps" for j
    using that assms(2,3,5) by (cases "j = i"; simp)+
  have procs: "proc_ok env st' (?ps ! j) \<and> unborn env st' (?ps ! j)" if "j < length ps" for j
    using that assms(1,2) p un evolves_store_inv(2,3) [OF assms(6)]
    by (cases "j = i") (simp_all add: race_inv_def)
  show ?thesis
    using assms(1) evolves_store_inv(1) [OF assms(6)] assms(6) procs nth
    unfolding race_inv_def maps by (simp add: evolves_store_def)
qed

lemma race_inv_success:
  assumes "race_inv env ps st" and "i < length ps" and "rp_phase (ps ! i) = AfterUser x u"
    and "map_of st (se_id x) = Some cur" and "live cur" and "new_session env (rp_fresh (ps ! i)) y"
    and "st' = snd (rotate st (se_id x) y t)"
  shows "race_inv env (ps[i := (ps ! i)\<lparr>rp_phase := Succeeded\<rparr>]) st'"
proof -
  let ?p = "(ps ! i)\<lparr>rp_phase := Succeeded\<rparr>"
  let ?ps = "ps[i := ?p]" and ?h = "token_hash env (ps ! i)"
  have inv: "sessInv st" "tokens_unique st" "unborn env st (ps ! i)" "proc_ok env st (ps ! i)"
    using assms(1,2) unfolding race_inv_def by blast+
  have h: "se_tokenHash cur = ?h" using inv(4) assms(3,4) by (simp add: proc_ok_def)
  have "rp_phase (ps ! i) \<noteq> Succeeded" using assms(3) by simp
  note store = rotation_store [OF inv(1,2) assms(4-6) inv(3) this, of t, folded assms(7)]
  have prior: "(\<exists>w. map_of st k = Some w \<and> evolves w z) \<or>
      (k = fr_sessionId (rp_fresh (ps ! i)) \<and> se_tokenHash z = new_hash env (ps ! i))"
    if "map_of st' k = Some z" for k z
    using store that by blast
  have forth: "\<exists>z. map_of st' k = Some z \<and> se_tokenHash z = g"
    if "\<exists>w. map_of st k = Some w \<and> se_tokenHash w = g" for k g
    using store that unfolding evolves_def by metis
  have other: "proc_ok env st' (ps ! j) \<and> unborn env st' (ps ! j)" if j: "j < length ps" "j \<noteq> i" for j
  proof -
    have ok: "proc_ok env st (ps ! j)" "unborn env st (ps ! j)"
      and d: "fr_sessionId (rp_fresh (ps ! j)) \<noteq> fr_sessionId (rp_fresh (ps ! i))"
        "new_hash env (ps ! j) \<noteq> new_hash env (ps ! i)" "new_hash env (ps ! i) \<noteq> token_hash env (ps ! j)"
      using assms(1,2) j by (auto simp: race_inv_def distinct_conv_nth)
    have "hash_spent (token_hash env (ps ! j)) st \<Longrightarrow> hash_spent (token_hash env (ps ! j)) st'"
      using prior d(3) unfolding hash_spent_def evolves_def by metis
    then have "proc_ok env st' (ps ! j)" using ok(1) forth
      unfolding proc_ok_def by (auto split: phase.splits option.splits)
    moreover have "unborn env st' (ps ! j)"
      using ok(2) prior d(1,2) unfolding unborn_def evolves_def by metis
    ultimately show ?thesis by blast
  qed
  have single: "rp_token (ps ! j) \<noteq> rp_token (ps ! i)" if "j < length ps" "rp_phase (ps ! j) = Succeeded" for j
  proof
    assume "rp_token (ps ! j) = rp_token (ps ! i)"
    then have "hash_spent ?h st" using assms(1) that by (auto simp: race_inv_def proc_ok_def)
    then show False using assms(4,5) h by (auto simp: hash_spent_def)
  qed
  have procs: "proc_ok env st' (?ps ! j) \<and> unborn env st' (?ps ! j)" if "j < length ps" for j
    using that other store h assms(2) by (cases "j = i") (auto simp: proc_ok_def unborn_def)
  have maps: "map (\<lambda>p. fr_sessionId (rp_fresh p)) ?ps = map (\<lambda>p. fr_sessionId (rp_fresh p)) ps"
    "map (new_hash env) ?ps = map (new_hash env) ps"
    using assms(2) by (simp_all add: map_phase)
  have nth: "rp_token (?ps ! j) = rp_token (ps ! j)" "new_hash env (?ps ! j) = new_hash env (ps ! j)"
    "rp_phase (?ps ! j) = Succeeded \<longleftrightarrow> j = i \<or> rp_phase (ps ! j) = Succeeded" if "j < length ps" for j
    using that assms(2) by (cases "j = i"; simp)+
  show ?thesis using assms(1) store procs nth single
    unfolding race_inv_def maps by (simp, metis)
qed

lemma race_step_inv:
  assumes "race_step env users (ps, st) (ps', st')" and "race_inv env ps st"
  shows "race_inv env ps' st'"
  using assms(1)
proof cases
  case (Move i ph)
  show ?thesis
  proof (cases "rp_phase (ps ! i) = Succeeded")
    case True
    with Move have "ph = Succeeded" "st' = st" by (auto simp: phase_step_def)
    with True have "(ps ! i)\<lparr>rp_phase := ph\<rparr> = ps ! i" by simp
    with Move \<open>st' = st\<close> assms(2) show ?thesis by simp
  next
    case False
    have "sessInv st" using assms(2) by (simp add: race_inv_def)
    from phase_step_cases [OF Move(3) this False] show ?thesis
      using race_inv_evolve [OF assms(2) Move(2) False Move(3)] race_inv_success [OF assms(2) Move(2)]
        Move(1) by auto
  qed
qed

lemma race_reach_inv:
  "race_reach env users c0 c \<Longrightarrow> race_inv env (fst c0) (snd c0) \<Longrightarrow> race_inv env (fst c) (snd c)"
proof (induction rule: race_reach.induct)
  case (Step c c')
  then show ?case using race_step_inv [of env users "fst c" "snd c" "fst c'" "snd c'"] by simp
qed simp

section \<open>Properties\<close>

definition start_procs :: "refreshProc list \<Rightarrow> bool" where
  "start_procs ps \<longleftrightarrow> list_all (\<lambda>p. rp_phase p = AtStart) ps"

lemma start_inv:
  assumes "sessions_ok used st" and "fresh_procs env ps st" and "start_procs ps"
  shows "race_inv env ps st"
  using assms unfolding race_inv_def sessions_ok_def fresh_procs_def start_procs_def
  by (auto simp: proc_ok_def unborn_def list_all_length)

text \<open>C4: however many refresh requests present the same token at the same time, and in whatever
  order their store calls interleave, at most one of them succeeds.\<close>

theorem concurrent_refresh_at_most_one:
  assumes "reachable_auth env used s" and "start_procs ps" and "fresh_procs env ps (au_sessions s)"
    and "race_reach env users (ps, au_sessions s) (ps', st')"
    and "i < length ps'" and "j < length ps'" and "rp_token (ps' ! i) = rp_token (ps' ! j)"
    and "rp_phase (ps' ! i) = Succeeded" and "rp_phase (ps' ! j) = Succeeded"
  shows "i = j"
proof -
  have "race_inv env ps (au_sessions s)"
    by (rule start_inv [OF reachable_sessions_ok [OF assms(1)] assms(3,2)])
  with race_reach_inv [OF assms(4)] have "race_inv env ps' st'" by simp
  with assms(5-9) show ?thesis unfolding race_inv_def by blast
qed

definition demo_procs :: "refreshProc list" where
  "demo_procs = map (\<lambda>c. \<lparr>rp_token = ''r1'', rp_fresh = demo_fresh c, rp_now = 2000, rp_cx = demo_cx,
     rp_phase = AtStart\<rparr>) [CHR ''2'', CHR ''3'']"

text \<open>A schedule: request \<open>i\<close> of the list moves next.\<close>

fun run_schedule ::
  "authEnv \<Rightarrow> userStore \<Rightarrow> nat list \<Rightarrow> refreshProc list \<times> sessionStore \<Rightarrow> refreshProc list \<times> sessionStore"
  where
  "run_schedule env users [] c = c"
| "run_schedule env users (i # is) (ps, st) = (if i < length ps
     then (let (ph, st') = phase_step env users (ps ! i) st
           in run_schedule env users is (ps[i := (ps ! i)\<lparr>rp_phase := ph\<rparr>], st'))
     else run_schedule env users is (ps, st))"

lemma run_schedule_reach:
  "race_reach env users c0 c \<Longrightarrow> race_reach env users c0 (run_schedule env users is c)"
proof (induction "is" arbitrary: c)
  case (Cons i "is")
  obtain ps st where c: "c = (ps, st)" by (cases c)
  show ?case
  proof (cases "i < length ps")
    case True
    obtain ph st' where "phase_step env users (ps ! i) st = (ph, st')" by fastforce
    with Cons.IH [OF race_reach.Step [OF Cons.prems [unfolded c] race_step.Move [OF True this]]] True c
    show ?thesis by simp
  qed (use Cons c in simp)
qed simp

definition demo_race :: "refreshProc list \<times> sessionStore" where
  "demo_race = run_schedule demo_env (au_users demo_register) [0, 1, 0, 1, 1, 0, 0, 0]
     (demo_procs, au_sessions demo_register)"

theorem concurrent_refresh_at_most_one_witness:
  "map rp_phase (fst demo_race) = [Refused, Succeeded] \<and> rp_phase (fst demo_race ! 0) \<noteq> Succeeded"
proof
  show phases: "map rp_phase (fst demo_race) = [Refused, Succeeded]" by code_simp
  have toks: "map rp_token (fst demo_race) = [''r1'', ''r1'']" by code_simp
  have len: "length (fst demo_race) = 2" using toks by (metis length_map list.size(3,4) numeral_2_eq_2 add_0 plus_1_eq_Suc add.commute)
  have one: "rp_phase (fst demo_race ! 1) = Succeeded" "rp_token (fst demo_race ! 0) = rp_token (fst demo_race ! 1)"
    using arg_cong [OF phases, of "\<lambda>xs. xs ! 1"] arg_cong [OF toks, of "\<lambda>xs. (xs ! 0, xs ! 1)"] len by simp_all
  have fresh: "fresh_procs demo_env demo_procs (au_sessions demo_register)"
  proof -
    have "map (\<lambda>(i, x). (i, se_tokenHash x)) (au_sessions demo_register) = [(''s1'', ''hr1'')]" by code_simp
    then obtain x where "au_sessions demo_register = [(''s1'', x)]" "se_tokenHash x = ''hr1''" by auto
    then show ?thesis
      by (simp add: fresh_procs_def demo_procs_def demo_fresh_def demo_env_def)
  qed
  have "race_reach demo_env (au_users demo_register) (demo_procs, au_sessions demo_register)
      (fst demo_race, snd demo_race)"
    unfolding demo_race_def prod.collapse by (rule run_schedule_reach [OF race_reach.Start])
  from concurrent_refresh_at_most_one [OF demo_register_reach _ fresh this, of 0 1]
  show "rp_phase (fst demo_race ! 0) \<noteq> Succeeded"
    using one len by (auto simp: start_procs_def demo_procs_def)
qed

end
