(* ===== verification/Dates.thy ===== *)
theory Dates
  imports JsString
begin

text \<open>
  Calendar dates, \<open>domain/dates.ts\<close>. A \<open>Date\<close> at midnight UTC is its day number, the days
  since 1970-01-01; the civil calendar is that of ECMAScript (\<open>DayFromYear\<close>, \<open>MakeDay\<close>,
  \<open>YearFromTime\<close>). A string that is no date makes the code throw: the result is None. The
  engine rolls a day past the end of its month over, so \<open>2026-02-30\<close> is March 2nd. ISO strings
  have four-digit years, so the range is that of the years 0 to 9999.
\<close>

section \<open>The civil calendar\<close>

definition leap :: "int \<Rightarrow> bool" where
  "leap y \<longleftrightarrow> (y mod 4 = 0 \<and> y mod 100 \<noteq> 0) \<or> y mod 400 = 0"

definition day_from_year :: "int \<Rightarrow> int" where
  "day_from_year y = 365 * (y - 1970) + (y - 1969) div 4 - (y - 1901) div 100 + (y - 1601) div 400"

definition year_of :: "int \<Rightarrow> int" where
  "year_of d = (let y = 1970 + (d * 400) div 146097
     in if d < day_from_year y then y - 1 else if day_from_year (y + 1) \<le> d then y + 1 else y)"

text \<open>The days of a year before its month \<open>m\<close>, counted from 0.\<close>

definition days_before :: "bool \<Rightarrow> int \<Rightarrow> int" where
  "days_before lp m = (let l = (if lp then 1 else 0) in
     if m \<le> 0 then 0 else if m = 1 then 31 else if m = 2 then 59 + l else if m = 3 then 90 + l
     else if m = 4 then 120 + l else if m = 5 then 151 + l else if m = 6 then 181 + l
     else if m = 7 then 212 + l else if m = 8 then 243 + l else if m = 9 then 273 + l
     else if m = 10 then 304 + l else if m = 11 then 334 + l else 365 + l)"

definition month_in_year :: "bool \<Rightarrow> int \<Rightarrow> int" where
  "month_in_year lp n =
     (if n < days_before lp 1 then 0 else if n < days_before lp 2 then 1
      else if n < days_before lp 3 then 2 else if n < days_before lp 4 then 3
      else if n < days_before lp 5 then 4 else if n < days_before lp 6 then 5
      else if n < days_before lp 7 then 6 else if n < days_before lp 8 then 7
      else if n < days_before lp 9 then 8 else if n < days_before lp 10 then 9
      else if n < days_before lp 11 then 10 else 11)"

definition make_day :: "int \<Rightarrow> int \<Rightarrow> int \<Rightarrow> int" where
  "make_day y m dt = (let y' = y + m div 12
     in day_from_year y' + days_before (leap y') (m mod 12) + dt - 1)"

text \<open>\<open>getUTCFullYear\<close>, \<open>getUTCMonth\<close> (from 0) and \<open>getUTCDate\<close>.\<close>

definition civil :: "int \<Rightarrow> int \<times> int \<times> int" where
  "civil d = (let y = year_of d; n = d - day_from_year y; m = month_in_year (leap y) n
     in (y, m, n - days_before (leap y) m + 1))"

definition utc_year :: "int \<Rightarrow> int" where "utc_year d = fst (civil d)"
definition utc_month :: "int \<Rightarrow> int" where "utc_month d = fst (snd (civil d))"
definition utc_date :: "int \<Rightarrow> int" where "utc_date d = snd (snd (civil d))"

section \<open>Operations\<close>

definition is_iso_date :: "string \<Rightarrow> bool" where
  "is_iso_date s \<longleftrightarrow> length s = 10 \<and> list_all is_digit (slice 0 4 s) \<and> s ! 4 = CHR ''-'' \<and>
     list_all is_digit (slice 5 7 s) \<and> s ! 7 = CHR ''-'' \<and> list_all is_digit (slice 8 10 s)"

definition toUtcDate :: "string \<Rightarrow> int option" where
  "toUtcDate s = (if \<not> is_iso_date s then None
     else let y = parse_nat (slice 0 4 s); m = parse_nat (slice 5 7 s); dt = parse_nat (slice 8 10 s)
          in if m < 1 \<or> m > 12 \<or> dt < 1 \<or> dt > 31 then None
             else Some (make_day (int y) (int m - 1) (int dt)))"

definition pad_number :: "nat \<Rightarrow> int \<Rightarrow> string" where
  "pad_number n k = padStart n (CHR ''0'') (nat_string (nat k))"

lemma pad_number_code [code]: "pad_number n k = padStart n (CHR ''0'') (digits_of k)"
  by (simp add: pad_number_def digits_of_def)

lemma toUtcDate_code [code]:
  "toUtcDate s = (if \<not> is_iso_date s then None
     else let y = parse_int (slice 0 4 s); m = parse_int (slice 5 7 s); dt = parse_int (slice 8 10 s)
          in if m < 1 \<or> m > 12 \<or> dt < 1 \<or> dt > 31 then None
             else Some (make_day y (m - 1) dt))"
  by (simp add: toUtcDate_def parse_int_def Let_def)

definition toIsoDate :: "int \<Rightarrow> string" where
  "toIsoDate d = (case civil d of (y, m, dt) \<Rightarrow>
     pad_number 4 y @ CHR ''-'' # pad_number 2 (m + 1) @ CHR ''-'' # pad_number 2 dt)"

definition addDays :: "string \<Rightarrow> int \<Rightarrow> string option" where
  "addDays date days = map_option (\<lambda>d. toIsoDate (d + days)) (toUtcDate date)"

lemma addDays_code [code]: "addDays date days = (case toUtcDate date of None \<Rightarrow> None | Some d \<Rightarrow> Some (toIsoDate (d + days)))"
  by (simp add: addDays_def split: option.split)

text \<open>\<open>Date.UTC(year, month, 0)\<close> reads a year from 0 to 99 as one of the twentieth century.\<close>

definition daysInMonth :: "int \<Rightarrow> int \<Rightarrow> int" where
  "daysInMonth y month1to12 =
     utc_date (make_day (if 0 \<le> y \<and> y \<le> 99 then 1900 + y else y) month1to12 0)"

definition addMonths_day :: "int \<Rightarrow> int \<Rightarrow> int" where
  "addMonths_day d months =
     (let targetDay = utc_date d;
          d1 = make_day (utc_year d) (utc_month d) 1;
          d2 = make_day (utc_year d1) (utc_month d1 + months) 1;
          lastDay = daysInMonth (utc_year d2) (utc_month d2 + 1)
      in make_day (utc_year d2) (utc_month d2) (min targetDay lastDay))"

definition addMonths :: "string \<Rightarrow> int \<Rightarrow> string option" where
  "addMonths date months = map_option (\<lambda>d. toIsoDate (addMonths_day d months)) (toUtcDate date)"

lemma addMonths_code [code]:
  "addMonths date months = (case toUtcDate date of None \<Rightarrow> None | Some d \<Rightarrow> Some (toIsoDate (addMonths_day d months)))"
  by (simp add: addMonths_def split: option.split)

definition daysBetweenInclusive :: "string \<Rightarrow> string \<Rightarrow> int option" where
  "daysBetweenInclusive start stop = (case (toUtcDate start, toUtcDate stop) of
     (Some a, Some b) \<Rightarrow> Some (b - a + 1) | _ \<Rightarrow> None)"

record dateRange =
  dr_start :: string
  dr_end :: string

definition isWithin :: "string \<Rightarrow> dateRange \<Rightarrow> bool" where
  "isWithin date r \<longleftrightarrow> date \<ge> dr_start r \<and> date \<le> dr_end r"

definition startOfMonth :: "string \<Rightarrow> string" where
  "startOfMonth date = slice 0 7 date @ ''-01''"

definition endOfMonth :: "string \<Rightarrow> string option" where
  "endOfMonth date = map_option (\<lambda>d. slice 0 7 date @ CHR ''-'' #
     pad_number 2 (daysInMonth (utc_year d) (utc_month d + 1))) (toUtcDate date)"

definition monthRange :: "string \<Rightarrow> dateRange option" where
  "monthRange date = map_option (\<lambda>e. \<lparr>dr_start = startOfMonth date, dr_end = e\<rparr>) (endOfMonth date)"

definition previousMonthRange :: "string \<Rightarrow> dateRange option" where
  "previousMonthRange date = Option.bind (addMonths (startOfMonth date) (-1)) monthRange"

definition monthToDateRange :: "string \<Rightarrow> dateRange" where
  "monthToDateRange today = \<lparr>dr_start = startOfMonth today, dr_end = today\<rparr>"

definition comparablePreviousRange :: "string \<Rightarrow> dateRange option" where
  "comparablePreviousRange today = (case previousMonthRange today of
     None \<Rightarrow> None
   | Some p \<Rightarrow> (case toUtcDate (dr_start p) of
       None \<Rightarrow> None
     | Some d \<Rightarrow>
         let dayOfMonth = int (parse_nat (slice 8 10 today));
             lastDay = daysInMonth (utc_year d) (utc_month d + 1)
         in Some \<lparr>dr_start = dr_start p, dr_end = slice 0 7 (dr_start p) @ CHR ''-'' #
              pad_number 2 (min dayOfMonth lastDay)\<rparr>))"

text \<open>\<open>getUTCDay\<close>: 1970-01-01 was a Thursday.\<close>

definition weekRange :: "string \<Rightarrow> dateRange option" where
  "weekRange date = (case toUtcDate date of
     None \<Rightarrow> None
   | Some d \<Rightarrow>
       let utc_day = (d + 4) mod 7; dow = (utc_day + 6) mod 7
       in (case addDays date (- dow) of
            None \<Rightarrow> None
          | Some start \<Rightarrow> map_option (\<lambda>e. \<lparr>dr_start = start, dr_end = e\<rparr>) (addDays start 6)))"

definition yearRange :: "string \<Rightarrow> dateRange" where
  "yearRange date = \<lparr>dr_start = slice 0 4 date @ ''-01-01'', dr_end = slice 0 4 date @ ''-12-31''\<rparr>"

definition monthKey :: "string \<Rightarrow> string" where
  "monthKey date = slice 0 7 date"

section \<open>The calendar is consistent\<close>

lemma div_step: "0 < k \<Longrightarrow> (n + 1) div k = n div k + (if (n + 1) mod k = 0 then 1 else 0)" for n k :: int
proof -
  assume k: "0 < k"
  note eq = mult_div_mod_eq [of k n] and r = pos_mod_bound [OF k, of n] pos_mod_sign [OF k, of n]
  show ?thesis
  proof (cases "n mod k = k - 1")
    case True
    then have n: "n + 1 = k * (n div k + 1) + 0" unfolding distrib_left using eq by linarith
    have "(n + 1) div k = n div k + 1" "(n + 1) mod k = 0"
      using k by (auto intro: int_div_pos_eq [OF n] int_mod_pos_eq [OF n])
    then show ?thesis by simp
  next
    case False
    then have n: "n + 1 = k * (n div k) + (n mod k + 1)" and b: "0 \<le> n mod k + 1" "n mod k + 1 < k"
      using eq r by linarith+
    have "(n + 1) div k = n div k" "(n + 1) mod k = n mod k + 1"
      using int_div_pos_eq [OF n b] int_mod_pos_eq [OF n b] by simp_all
    then show ?thesis using r by simp
  qed
qed

lemma year_length: "day_from_year (y + 1) = day_from_year y + (if leap y then 366 else 365)"
proof -
  have "(y - 1968) mod 4 = y mod 4" using mod_mult_self1 [of y "-492" 4] by simp
  with div_step [of 4 "y - 1969"]
  have 4: "(y + 1 - 1969) div 4 = (y - 1969) div 4 + (if y mod 4 = 0 then 1 else 0)"
    by (simp add: diff_add_eq)
  have "(y - 1900) mod 100 = y mod 100" using mod_mult_self1 [of y "-19" 100] by simp
  with div_step [of 100 "y - 1901"]
  have 100: "(y + 1 - 1901) div 100 = (y - 1901) div 100 + (if y mod 100 = 0 then 1 else 0)"
    by (simp add: diff_add_eq)
  have "(y - 1600) mod 400 = y mod 400" using mod_mult_self1 [of y "-4" 400] by simp
  with div_step [of 400 "y - 1601"]
  have 400: "(y + 1 - 1601) div 400 = (y - 1601) div 400 + (if y mod 400 = 0 then 1 else 0)"
    by (simp add: diff_add_eq)
  have "y mod 400 = 0 \<Longrightarrow> y mod 100 = 0" "y mod 100 = 0 \<Longrightarrow> y mod 4 = 0"
    using dvd_trans [of 100 400 y] dvd_trans [of 4 100 y] by (simp_all add: mod_eq_0_iff_dvd)
  then show ?thesis unfolding day_from_year_def 4 100 400 by (auto simp: leap_def)
qed

lemma day_from_year_mono: "y \<le> z \<Longrightarrow> day_from_year y + 365 * (z - y) \<le> day_from_year z"
proof (induction "nat (z - y)" arbitrary: z)
  case (Suc n)
  then have "n = nat (z - 1 - y)" "y \<le> z - 1" by simp_all
  from Suc.hyps(1) [OF this] year_length [of "z - 1"] show ?case by (auto split: if_splits)
qed simp

lemma year_unique:
  "day_from_year y \<le> d \<Longrightarrow> d < day_from_year (y + 1) \<Longrightarrow>
   day_from_year z \<le> d \<Longrightarrow> d < day_from_year (z + 1) \<Longrightarrow> y = z"
  using day_from_year_mono [of "y + 1" z] day_from_year_mono [of "z + 1" y]
  by (cases y z rule: linorder_cases) auto

lemma div_window: "0 < k \<Longrightarrow> k * (x div k) \<le> x \<and> x < k * (x div k) + k" for k x :: int
  using mult_div_mod_eq [of k x] pos_mod_bound [of k x] pos_mod_sign [of k x] by linarith

text \<open>The estimate is off by at most one year in either direction.\<close>

lemma year_estimate:
  "day_from_year (1970 + (d * 400) div 146097 - 1) \<le> d"
  "d < day_from_year (1970 + (d * 400) div 146097 + 2)"
proof -
  let ?q = "(d * 400) div 146097"
  have q: "146097 * ?q \<le> 400 * d" "400 * d < 146097 * ?q + 146097"
    using div_window [of 146097 "d * 400"] by (simp_all add: mult.commute)
  have bounds: "400 * day_from_year y \<le> 146097 * (y - 1970) + 100 + 400 + 369"
    "146097 * (y - 1970) - 400 * day_from_year y \<le> 1400" for y
  proof -
    define a b c where "a = (y - 1969) div 4" and "b = (y - 1901) div 100" and "c = (y - 1601) div 400"
    have "4 * a \<le> y - 1969" "y - 1969 < 4 * a + 4" "100 * b \<le> y - 1901" "y - 1901 < 100 * b + 100"
      "400 * c \<le> y - 1601" "y - 1601 < 400 * c + 400"
      using div_window [of 4 "y - 1969"] div_window [of 100 "y - 1901"] div_window [of 400 "y - 1601"]
      unfolding a_def b_def c_def by simp_all
    then have "400 * (a - b + c) \<le> 97 * (y - 1970) + 869" and "97 * (y - 1970) - 400 * (a - b + c) \<le> 1400"
      by (simp_all add: algebra_simps)
    moreover have "day_from_year y = 365 * (y - 1970) + (a - b + c)"
      by (simp add: day_from_year_def a_def b_def c_def)
    ultimately show "400 * day_from_year y \<le> 146097 * (y - 1970) + 100 + 400 + 369"
      and "146097 * (y - 1970) - 400 * day_from_year y \<le> 1400" by (simp_all add: algebra_simps)
  qed
  have low: "x \<le> d" if "400 * x \<le> 146097 * q - 145228" "146097 * q \<le> 400 * d" for x q :: int
    using that by linarith
  have high: "d < x" if "146097 * q + 292194 - 1400 \<le> 400 * x" "400 * d < 146097 * q + 146097" for x q :: int
    using that by linarith
  have "400 * day_from_year (1970 + q - 1) \<le> 146097 * q - 145228"
    "146097 * q + 292194 - 1400 \<le> 400 * day_from_year (1970 + q + 2)" for q
    using bounds(1) [of "1970 + q - 1"] bounds(2) [of "1970 + q + 2"] by (simp_all add: right_diff_distrib distrib_left)
  then show "day_from_year (1970 + ?q - 1) \<le> d" "d < day_from_year (1970 + ?q + 2)"
    using low q(1) high q(2) by blast+
qed

lemma year_of_bounds: "day_from_year (year_of d) \<le> d \<and> d < day_from_year (year_of d + 1)"
  using year_estimate [of d] by (auto simp: year_of_def Let_def not_less)

lemma year_of_eq: "day_from_year y \<le> d \<Longrightarrow> d < day_from_year (y + 1) \<Longrightarrow> year_of d = y"
  using year_unique year_of_bounds by blast

lemma days_before_bounds:
  "0 \<le> n \<Longrightarrow> n < days_before lp 12 \<Longrightarrow> 0 \<le> month_in_year lp n \<and> month_in_year lp n \<le> 11 \<and>
     days_before lp (month_in_year lp n) \<le> n \<and> n < days_before lp (month_in_year lp n + 1)"
  by (simp add: month_in_year_def days_before_def Let_def split: if_splits)

definition month_length :: "int \<Rightarrow> int \<Rightarrow> int" where
  "month_length y m = days_before (leap y) (m + 1) - days_before (leap y) m"

definition valid_date :: "int \<Rightarrow> int \<Rightarrow> int \<Rightarrow> bool" where
  "valid_date y m dt \<longleftrightarrow> 0 \<le> m \<and> m \<le> 11 \<and> 1 \<le> dt \<and> dt \<le> month_length y m"

lemma month_cases: "0 \<le> m \<Longrightarrow> m \<le> 11 \<Longrightarrow> m = 0 \<or> m = 1 \<or> m = 2 \<or> m = 3 \<or> m = 4 \<or> m = 5 \<or>
    m = 6 \<or> m = 7 \<or> m = 8 \<or> m = 9 \<or> m = 10 \<or> m = (11::int)"
  by presburger

lemma month_in_year_eq:
  assumes "0 \<le> m" and "m \<le> 11" and "days_before lp m \<le> n" and "n < days_before lp (m + 1)"
  shows "month_in_year lp n = m"
  using month_cases [OF assms(1,2)] assms(3,4)
  by (elim disjE) (simp_all add: month_in_year_def days_before_def Let_def split: if_splits)

lemma days_before_mono: "0 \<le> m \<Longrightarrow> m \<le> 11 \<Longrightarrow> 0 \<le> days_before lp m \<and> days_before lp (m + 1) \<le> days_before lp 12"
  by (simp add: days_before_def Let_def)

lemma civil_make_day:
  assumes "valid_date y m dt"
  shows "civil (make_day y m dt) = (y, m, dt)"
proof -
  have m: "0 \<le> m" "m \<le> 11" and dt: "1 \<le> dt" "dt \<le> month_length y m"
    using assms by (simp_all add: valid_date_def)
  let ?d = "day_from_year y + days_before (leap y) m + dt - 1"
  have d: "make_day y m dt = ?d" using m by (simp add: make_day_def Let_def)
  have len: "day_from_year (y + 1) = day_from_year y + days_before (leap y) 12"
    by (simp add: year_length days_before_def)
  have "day_from_year y \<le> ?d" "?d < day_from_year (y + 1)"
    using days_before_mono [OF m, of "leap y"] dt unfolding len month_length_def by linarith+
  then have y: "year_of ?d = y" by (rule year_of_eq)
  have "month_in_year (leap y) (?d - day_from_year y) = m"
    using dt by (intro month_in_year_eq m) (simp_all add: month_length_def)
  with y d show ?thesis by (simp add: civil_def Let_def)
qed

lemma civil_valid:
  assumes "civil d = (y, m, dt)"
  shows "valid_date y m dt \<and> make_day y m dt = d"
proof -
  let ?n = "d - day_from_year (year_of d)"
  have "0 \<le> ?n" "?n < days_before (leap (year_of d)) 12"
    using year_of_bounds [of d] year_length [of "year_of d"] by (simp_all add: days_before_def split: if_splits)
  from days_before_bounds [OF this] assms show ?thesis
    by (auto simp: civil_def Let_def valid_date_def month_length_def make_day_def)
qed

lemma make_day_civil: "make_day (utc_year d) (utc_month d) (utc_date d) = d"
  using civil_valid [of d] by (simp add: utc_year_def utc_month_def utc_date_def)

lemma month_length_bounds: "28 \<le> month_length y m \<and> month_length y m \<le> 31" if "0 \<le> m" "m \<le> 11"
  using month_cases [OF that] by (elim disjE) (simp_all add: month_length_def days_before_def)

section \<open>ISO strings\<close>

definition in_iso_range :: "int \<Rightarrow> bool" where
  "in_iso_range d \<longleftrightarrow> 0 \<le> utc_year d \<and> utc_year d \<le> 9999"

lemma pad_number_digits: "0 < n \<Longrightarrow> 0 \<le> k \<Longrightarrow> k < 10 ^ n \<Longrightarrow> pad_number n k = fixed_digits n (nat k)"
proof -
  have "CHR ''0'' = digit_char 0" by code_simp
  moreover assume "0 < n" "0 \<le> k" "k < 10 ^ n"
  ultimately show ?thesis by (simp add: pad_number_def padStart_nat_string nat_less_iff)
qed

lemma toIsoDate_digits:
  assumes "civil d = (y, m, dt)" and "in_iso_range d"
  shows "toIsoDate d = fixed_digits 4 (nat y) @ CHR ''-'' # fixed_digits 2 (nat (m + 1)) @ CHR ''-'' #
    fixed_digits 2 (nat dt)" and "0 \<le> y" and "y \<le> 9999" and "valid_date y m dt" and "dt \<le> 31"
proof -
  show v: "valid_date y m dt" using civil_valid [OF assms(1)] by simp
  show y: "0 \<le> y" "y \<le> 9999" using assms by (simp_all add: in_iso_range_def utc_year_def)
  show dt: "dt \<le> 31" using v month_length_bounds [of m y] by (simp add: valid_date_def)
  show "toIsoDate d = fixed_digits 4 (nat y) @ CHR ''-'' # fixed_digits 2 (nat (m + 1)) @ CHR ''-'' #
      fixed_digits 2 (nat dt)"
    using v y dt assms(1) by (simp add: toIsoDate_def pad_number_digits valid_date_def)
qed

lemma toUtcDate_toIsoDate: "in_iso_range d \<Longrightarrow> toUtcDate (toIsoDate d) = Some d"
proof -
  assume r: "in_iso_range d"
  obtain y m dt where c: "civil d = (y, m, dt)" by (cases "civil d")
  note iso = toIsoDate_digits [OF c r]
  let ?s = "toIsoDate d"
  have s: "slice 0 4 ?s = fixed_digits 4 (nat y)" "slice 5 7 ?s = fixed_digits 2 (nat (m + 1))"
    "slice 8 10 ?s = fixed_digits 2 (nat dt)" "?s ! 4 = CHR ''-''" "?s ! 7 = CHR ''-''" "length ?s = 10"
    by (simp_all add: iso(1) slice_def nth_append)
  have "is_iso_date ?s" by (simp add: is_iso_date_def s fixed_digits_all)
  moreover have "int (nat (m + 1)) - 1 = m" "int (nat dt) = dt" "int (nat y) = y"
    using iso(2,4) by (simp_all add: valid_date_def)
  ultimately show ?thesis
    using iso(2-5) civil_valid [OF c] by (simp add: toUtcDate_def s valid_date_def nat_less_iff Let_def not_less nat_le_iff)
qed

lemma toIsoDate_strict_mono:
  assumes "d < e" and "in_iso_range d" and "in_iso_range e"
  shows "toIsoDate d < toIsoDate e"
proof -
  obtain y m dt z k du where c: "civil d = (y, m, dt)" "civil e = (z, k, du)"
    by (cases "civil d", cases "civil e")
  note D = toIsoDate_digits [OF c(1) assms(2)] and E = toIsoDate_digits [OF c(2) assms(3)]
  note dd = civil_valid [OF c(1)] and ee = civil_valid [OF c(2)]
  have mk: "d = day_from_year y + days_before (leap y) m + dt - 1"
    "e = day_from_year z + days_before (leap z) k + du - 1"
    using dd ee by (auto simp: make_day_def Let_def valid_date_def)
  have y: "y = year_of d" "z = year_of e" using c by (auto simp: civil_def Let_def)
  have "y \<le> z"
    using day_from_year_mono [of "z + 1" y] year_of_bounds [of d] year_of_bounds [of e] assms(1) y by force
  consider "y < z" | "y = z" "m < k" | "y = z" "m = k" "dt < du"
  proof -
    have "m \<le> k" if "y = z"
    proof (rule ccontr)
      assume "\<not> m \<le> k"
      then have "days_before (leap y) (k + 1) \<le> days_before (leap y) m"
        using dd ee month_cases [of m] month_cases [of k]
        by (auto simp: valid_date_def days_before_def Let_def)
      then show False using mk assms(1) that dd ee by (auto simp: valid_date_def month_length_def)
    qed
    then show ?thesis using that \<open>y \<le> z\<close> mk assms(1) by force
  qed
  then show ?thesis
  proof cases
    case 1
    then have "fixed_digits 4 (nat y) < fixed_digits 4 (nat z)"
      using D(2) E(3) by (intro fixed_digits_less) (simp_all add: nat_less_iff)
    then show ?thesis unfolding D(1) E(1) by (intro list_less_append) simp_all
  next
    case 2
    then have "fixed_digits 2 (nat (m + 1)) < fixed_digits 2 (nat (k + 1))"
      using D(4) E(4) by (intro fixed_digits_less) (simp_all add: nat_less_iff valid_date_def)
    then show ?thesis unfolding D(1) E(1) 2(1)
      by (intro list_less_append_same) (simp add: list_less_append)
  next
    case 3
    then have "fixed_digits 2 (nat dt) < fixed_digits 2 (nat du)"
      using D(4) E(5) by (intro fixed_digits_less) (simp_all add: nat_less_iff valid_date_def)
    then show ?thesis unfolding D(1) E(1) 3(1,2)
      by (intro list_less_append_same) (simp add: list_less_append_same)
  qed
qed

lemma toIsoDate_less_iff:
  "in_iso_range d \<Longrightarrow> in_iso_range e \<Longrightarrow> toIsoDate d < toIsoDate e \<longleftrightarrow> d < e"
  using toIsoDate_strict_mono [of d e] toIsoDate_strict_mono [of e d] by (cases d e rule: linorder_cases) auto

lemma toIsoDate_le_iff:
  "in_iso_range d \<Longrightarrow> in_iso_range e \<Longrightarrow> toIsoDate d \<le> toIsoDate e \<longleftrightarrow> d \<le> e"
  using toIsoDate_less_iff [of e d] by (simp add: linorder_not_less [symmetric])

text \<open>Dates travel as strings and are compared as strings. Every day of the years 0 to 9999
  survives \<open>toIsoDate\<close> followed by \<open>toUtcDate\<close>, and the order of two ISO strings is the order of
  the days.\<close>

theorem iso_dates_faithful:
  assumes "in_iso_range d" and "in_iso_range e"
  shows "toUtcDate (toIsoDate d) = Some d \<and> (toIsoDate d < toIsoDate e \<longleftrightarrow> d < e) \<and>
    daysBetweenInclusive (toIsoDate d) (toIsoDate e) = Some (e - d + 1)"
  using assms by (simp add: toUtcDate_toIsoDate toIsoDate_less_iff daysBetweenInclusive_def)

theorem iso_dates_faithful_witness:
  "toIsoDate 20512 = ''2026-02-28'' \<and> toUtcDate (toIsoDate 20512) = Some 20512 \<and>
   (toIsoDate 20512 < toIsoDate 20513) = (20512 < (20513 :: int)) \<and>
   daysBetweenInclusive (toIsoDate 20512) (toIsoDate 20513) = Some (20513 - 20512 + 1)"
proof -
  have "in_iso_range 20512" "in_iso_range 20513" "toIsoDate 20512 = ''2026-02-28''" by code_simp+
  then show ?thesis using iso_dates_faithful [of 20512 20513] by simp
qed

section \<open>Month arithmetic\<close>

lemma daysInMonth_eq:
  assumes "100 \<le> y \<or> y < 0" and "1 \<le> m" and "m \<le> 12"
  shows "daysInMonth y m = month_length y (m - 1)"
proof -
  have v: "valid_date y (m - 1) (month_length y (m - 1))"
    using assms month_length_bounds [of "m - 1" y] by (simp add: valid_date_def)
  have "make_day y m 0 = make_day y (m - 1) (month_length y (m - 1))"
  proof (cases "m = 12")
    case True
    then show ?thesis by (simp add: make_day_def month_length_def year_length days_before_def Let_def)
  next
    case False
    then show ?thesis using assms by (simp add: make_day_def month_length_def Let_def)
  qed
  with civil_make_day [OF v] assms show ?thesis by (auto simp: daysInMonth_def utc_date_def)
qed

lemma make_day_shift: "make_day y (m + k) 1 = make_day (y + (m + k) div 12) ((m + k) mod 12) 1"
  by (simp add: make_day_def Let_def)

lemma valid_first: "valid_date y (m mod 12) 1"
proof -
  have "m mod 12 \<le> 11" using pos_mod_bound [of 12 m] by linarith
  with month_length_bounds [of "m mod 12" y] show ?thesis by (simp add: valid_date_def)
qed

lemma addMonths_target:
  assumes "valid_date y m dt" and "0 \<le> y" and "y \<le> 9999"
    and "ty = y + (m + k) div 12" and "tm = (m + k) mod 12" and "100 \<le> ty" and "ty \<le> 9999"
  shows "addMonths (toIsoDate (make_day y m dt)) k =
      Some (toIsoDate (make_day ty tm (min dt (month_length ty tm)))) \<and>
    valid_date ty tm (min dt (month_length ty tm))"
proof -
  have tm: "0 \<le> tm" "tm \<le> 11" using assms(5) by simp_all
  have r: "in_iso_range (make_day y m dt)"
    using civil_make_day [OF assms(1)] assms(2,3) by (simp add: in_iso_range_def utc_year_def)
  have c1: "civil (make_day y m 1) = (y, m, 1)"
    using assms(1) by (intro civil_make_day) (simp add: valid_date_def)
  have c2: "civil (make_day y (m + k) 1) = (ty, tm, 1)"
    unfolding make_day_shift using valid_first [of ty "m + k"] assms(4,5) civil_make_day by simp
  have "addMonths_day (make_day y m dt) k = make_day ty tm (min dt (month_length ty tm))"
    using civil_make_day [OF assms(1)] c1 c2 tm assms(6)
    by (simp add: addMonths_day_def Let_def utc_year_def utc_month_def utc_date_def daysInMonth_eq)
  then show ?thesis
    using assms(1) tm month_length_bounds [OF tm, of ty] r
    by (simp add: addMonths_def toUtcDate_toIsoDate valid_date_def)
qed

text \<open>Adding months keeps the day of the month, or takes the last day of a shorter target
  month, and never spills into the month after: January 31st plus one month is the end of
  February.\<close>

theorem addMonths_clamps:
  assumes "valid_date y m dt" and "0 \<le> y" and "y \<le> 9999"
    and "ty = y + (m + k) div 12" and "tm = (m + k) mod 12" and "100 \<le> ty" and "ty \<le> 9999"
  shows "addMonths (toIsoDate (make_day y m dt)) k =
      Some (toIsoDate (make_day ty tm (min dt (month_length ty tm)))) \<and>
    valid_date ty tm (min dt (month_length ty tm))"
  using addMonths_target [OF assms] .

theorem addMonths_clamps_witness:
  "addMonths ''2026-01-31'' 1 = Some ''2026-02-28'' \<and> addMonths ''2027-12-31'' 2 = Some ''2028-02-29''"
proof -
  have "valid_date 2026 0 31" "valid_date 2027 11 31"
    "toIsoDate (make_day 2026 0 31) = ''2026-01-31''" "toIsoDate (make_day 2027 11 31) = ''2027-12-31''"
    "toIsoDate (make_day 2026 1 (min 31 (month_length 2026 1))) = ''2026-02-28''"
    "toIsoDate (make_day 2028 1 (min 31 (month_length 2028 1))) = ''2028-02-29''" by code_simp+
  then show ?thesis
    using addMonths_clamps [of 2026 0 31 2026 1 1] addMonths_clamps [of 2027 11 31 2028 2 1] by simp
qed

end
