(* ===== verification/BillingPlans.thy ===== *)
theory BillingPlans
  imports JsString JsNum
begin

text \<open>
  The plan catalogue and the entitlement rule (\<open>domain/billing/plans.ts\<close>), and the adapter that
  reads the payment provider's objects (\<open>infra/billing/stripe-provider.ts\<close>). The provider's own
  service is a parameter: \<open>stripe_api\<close> gives what its calls answer, None where they throw.
  Instants are milliseconds since the epoch.
\<close>

section \<open>Plans\<close>

datatype planId = Free | Pro

datatype entitlement = Unlimited_bank_links | Monthly_pdf_report | Cash_flow_planning | Data_export

record plan =
  pl_id :: planId
  pl_name :: string
  pl_bankLinkLimit :: int
  pl_entitlements :: "entitlement list"

fun PLANS :: "planId \<Rightarrow> plan" where
  "PLANS Free = \<lparr>pl_id = Free, pl_name = ''Free'', pl_bankLinkLimit = 1,
     pl_entitlements = [Data_export]\<rparr>"
| "PLANS Pro = \<lparr>pl_id = Pro, pl_name = ''Pro'', pl_bankLinkLimit = 25,
     pl_entitlements = [Unlimited_bank_links, Monthly_pdf_report, Cash_flow_planning, Data_export]\<rparr>"

datatype billingInterval = Month | Year

definition BILLING_INTERVALS :: "billingInterval list" where
  "BILLING_INTERVALS = [Month, Year]"

fun interval_name :: "billingInterval \<Rightarrow> string" where
  "interval_name Month = ''month''"
| "interval_name Year = ''year''"

fun plan_key :: "planId \<Rightarrow> string" where
  "plan_key Free = ''free''"
| "plan_key Pro = ''pro''"

text \<open>The two guards narrow a string to its type: they return the narrowed value.\<close>

definition isBillingInterval :: "string \<Rightarrow> billingInterval option" where
  "isBillingInterval v = (if v = ''month'' then Some Month else if v = ''year'' then Some Year else None)"

definition isPlanId :: "string \<Rightarrow> planId option" where
  "isPlanId v = (if v = ''free'' then Some Free else if v = ''pro'' then Some Pro else None)"

definition PURCHASABLE_PLANS :: "planId list" where
  "PURCHASABLE_PLANS = [Pro]"

datatype subscriptionStatus = Trialing | SubActive | PastDue | Canceled | Incomplete
  | IncompleteExpired | Unpaid | Paused

definition ENTITLING_STATUSES :: "subscriptionStatus list" where
  "ENTITLING_STATUSES = [Trialing, SubActive, PastDue]"

record planState =
  ps_plan :: planId
  ps_status :: subscriptionStatus
  ps_currentPeriodEnd :: "int option"

definition GRACE_MS :: int where
  "GRACE_MS = 24 * 60 * 60 * 1000"

definition effectivePlan :: "'a planState_scheme option \<Rightarrow> int \<Rightarrow> planId" where
  "effectivePlan state now = (case state of
     None \<Rightarrow> Free
   | Some s \<Rightarrow>
       if ps_status s \<notin> set ENTITLING_STATUSES then Free
       else case ps_currentPeriodEnd s of
              Some e \<Rightarrow> if e + GRACE_MS < now then Free else ps_plan s
            | None \<Rightarrow> ps_plan s)"

definition hasEntitlement :: "planId \<Rightarrow> entitlement \<Rightarrow> bool" where
  "hasEntitlement p e \<longleftrightarrow> e \<in> set (pl_entitlements (PLANS p))"

definition bankLinkLimitFor :: "planId \<Rightarrow> int" where
  "bankLinkLimitFor p = pl_bankLinkLimit (PLANS p)"

definition firstPlanWith :: "entitlement \<Rightarrow> planId" where
  "firstPlanWith e = (case find (\<lambda>p. hasEntitlement p e) PURCHASABLE_PLANS of
     None \<Rightarrow> Pro | Some p \<Rightarrow> p)"

lemma effectivePlan_Pro:
  "effectivePlan st now = Pro \<longleftrightarrow> (\<exists>s. st = Some s \<and> ps_plan s = Pro \<and>
     ps_status s \<in> set ENTITLING_STATUSES \<and> \<not> (\<exists>e. ps_currentPeriodEnd s = Some e \<and> e + GRACE_MS < now))"
  by (auto simp: effectivePlan_def split: option.splits)

lemma plan_not_Pro: "p \<noteq> Pro \<longleftrightarrow> p = Free"
  by (cases p) simp_all

lemma firstPlanWith_has: "hasEntitlement (firstPlanWith e) e"
  by (cases e) (simp_all add: firstPlanWith_def hasEntitlement_def PURCHASABLE_PLANS_def)

lemma Pro_has_all: "hasEntitlement Pro e"
  by (cases e) (simp_all add: hasEntitlement_def)

section \<open>What the provider reports\<close>

record providerSubscription = planState +
  pv_subscriptionId :: string
  pv_customerId :: string
  pv_cancelAtPeriodEnd :: bool
  pv_trialEnd :: "int option"

datatype billingEventKind = Checkout_completed | Subscription_updated | Subscription_deleted | Ignored_kind

record billingEvent =
  be_id :: string
  be_type :: string
  be_kind :: billingEventKind
  be_customerId :: "string option"
  be_subscription :: "providerSubscription option"

text \<open>The fields the adapter reads of the SDK's objects.\<close>

datatype stripeRef = RefId string | RefObject string

record stripeItem =
  it_currentPeriodEnd :: "int option"
  it_price :: "string option"

record stripeSubscription =
  ss_id :: string
  ss_customer :: "stripeRef option"
  ss_items :: "stripeItem list"
  ss_legacyPeriodEnd :: "int option"
  ss_status :: string
  ss_cancelAtPeriodEnd :: "bool option"
  ss_trialEnd :: "int option"

datatype stripeData =
    CheckoutSessionCompleted "stripeRef option"
  | SubscriptionCreated stripeSubscription
  | SubscriptionUpdated stripeSubscription
  | SubscriptionPaused stripeSubscription
  | SubscriptionResumed stripeSubscription
  | SubscriptionDeleted stripeSubscription
  | OtherEvent string

record stripeEvent =
  sv_id :: string
  sv_data :: stripeData

fun stripe_type :: "stripeData \<Rightarrow> string" where
  "stripe_type (CheckoutSessionCompleted _) = ''checkout.session.completed''"
| "stripe_type (SubscriptionCreated _) = ''customer.subscription.created''"
| "stripe_type (SubscriptionUpdated _) = ''customer.subscription.updated''"
| "stripe_type (SubscriptionPaused _) = ''customer.subscription.paused''"
| "stripe_type (SubscriptionResumed _) = ''customer.subscription.resumed''"
| "stripe_type (SubscriptionDeleted _) = ''customer.subscription.deleted''"
| "stripe_type (OtherEvent t) = t"

definition idOf :: "stripeRef option \<Rightarrow> string option" where
  "idOf v = (case v of
     None \<Rightarrow> None
   | Some (RefId s) \<Rightarrow> if s = '''' then None else Some s
   | Some (RefObject s) \<Rightarrow> Some s)"

definition toStatus :: "string \<Rightarrow> subscriptionStatus" where
  "toStatus s =
     (if s = ''trialing'' then Trialing else if s = ''active'' then SubActive
      else if s = ''past_due'' then PastDue else if s = ''canceled'' then Canceled
      else if s = ''incomplete'' then Incomplete else if s = ''incomplete_expired'' then IncompleteExpired
      else if s = ''unpaid'' then Unpaid else if s = ''paused'' then Paused
      else Canceled)"

definition period_ends :: "stripeSubscription \<Rightarrow> int list" where
  "period_ends s = List.map_filter it_currentPeriodEnd (ss_items s) @
     (case ss_legacyPeriodEnd s of None \<Rightarrow> [] | Some e \<Rightarrow> [e])"

definition latest :: "int list \<Rightarrow> int option" where
  "latest xs = (case xs of [] \<Rightarrow> None | x # ys \<Rightarrow> Some (foldl max x ys * 1000))"

fun first_plan :: "(string option \<Rightarrow> planId option) \<Rightarrow> stripeItem list \<Rightarrow> planId option" where
  "first_plan planForPrice [] = None"
| "first_plan planForPrice (it # its) = (case planForPrice (it_price it) of
     Some p \<Rightarrow> Some p | None \<Rightarrow> first_plan planForPrice its)"

definition toProviderSubscription ::
  "(string option \<Rightarrow> planId option) \<Rightarrow> stripeSubscription \<Rightarrow> providerSubscription" where
  "toProviderSubscription planForPrice s =
     \<lparr>ps_plan = (case first_plan planForPrice (ss_items s) of None \<Rightarrow> Free | Some p \<Rightarrow> p),
      ps_status = toStatus (ss_status s),
      ps_currentPeriodEnd = latest (period_ends s),
      pv_subscriptionId = ss_id s,
      pv_customerId = (case idOf (ss_customer s) of None \<Rightarrow> '''' | Some c \<Rightarrow> c),
      pv_cancelAtPeriodEnd = (case ss_cancelAtPeriodEnd s of None \<Rightarrow> False | Some b \<Rightarrow> b),
      pv_trialEnd = (case ss_trialEnd s of None \<Rightarrow> None
        | Some t \<Rightarrow> if t = 0 then None else Some (t * 1000))\<rparr>"

definition subscription_event ::
  "billingEventKind \<Rightarrow> (string option \<Rightarrow> planId option) \<Rightarrow> stripeEvent \<Rightarrow> stripeSubscription \<Rightarrow> billingEvent" where
  "subscription_event kind planForPrice ev s =
     \<lparr>be_id = sv_id ev, be_type = stripe_type (sv_data ev), be_kind = kind,
      be_customerId = idOf (ss_customer s),
      be_subscription = Some (toProviderSubscription planForPrice s)\<rparr>"

fun toBillingEvent :: "(string option \<Rightarrow> planId option) \<Rightarrow> stripeEvent \<Rightarrow> billingEvent" where
  "toBillingEvent planForPrice ev = (case sv_data ev of
     CheckoutSessionCompleted customer \<Rightarrow>
       \<lparr>be_id = sv_id ev, be_type = stripe_type (sv_data ev), be_kind = Checkout_completed,
        be_customerId = idOf customer, be_subscription = None\<rparr>
   | SubscriptionCreated s \<Rightarrow> subscription_event Subscription_updated planForPrice ev s
   | SubscriptionUpdated s \<Rightarrow> subscription_event Subscription_updated planForPrice ev s
   | SubscriptionPaused s \<Rightarrow> subscription_event Subscription_updated planForPrice ev s
   | SubscriptionResumed s \<Rightarrow> subscription_event Subscription_updated planForPrice ev s
   | SubscriptionDeleted s \<Rightarrow> subscription_event Subscription_deleted planForPrice ev s
   | OtherEvent t \<Rightarrow>
       \<lparr>be_id = sv_id ev, be_type = t, be_kind = Ignored_kind, be_customerId = None,
        be_subscription = None\<rparr>)"

section \<open>The adapter\<close>

text \<open>Price identifiers by plan and interval; a price left out of the environment is undefined.\<close>

type_synonym priceCatalogue = "(string, (string, string option) jsmap) jsmap"

record stripeOptions =
  so_secretKey :: "string option"
  so_webhookSecret :: "string option"
  so_priceIds :: priceCatalogue
  so_trialDays :: "num option"

record stripeConfig =
  sc_configured :: bool
  sc_trialDays :: int
  sc_webhookSecret :: "string option"
  sc_priceIds :: priceCatalogue

datatype stripe_error = BadTrialDays | MissingWebhookSecret | MissingPrice | BadSecretKey

definition price_at :: "priceCatalogue \<Rightarrow> string \<Rightarrow> string \<Rightarrow> string option" where
  "price_at c p i = (case map_of c p of
     None \<Rightarrow> None
   | Some m \<Rightarrow> (case map_of m i of None \<Rightarrow> None | Some v \<Rightarrow> v))"

definition missing :: "string option \<Rightarrow> bool" where
  "missing v \<longleftrightarrow> v = None \<or> v = Some ''''"

definition newStripeProvider :: "stripeOptions \<Rightarrow> stripe_error + stripeConfig" where
  "newStripeProvider opts =
     (let configured = \<not> missing (so_secretKey opts);
          trialDays = (case so_trialDays opts of None \<Rightarrow> Num 0 | Some n \<Rightarrow> n);
          prices = so_priceIds opts
      in if \<not> isInteger trialDays \<or> int_of_num trialDays < 0 \<or> int_of_num trialDays > 365 then Inl BadTrialDays
         else if configured \<and> missing (so_webhookSecret opts) then Inl MissingWebhookSecret
         else if configured \<and> missing (price_at prices ''pro'' ''month'') \<and>
                 missing (price_at prices ''pro'' ''year'') then Inl MissingPrice
         else if configured \<and> \<not> (startsWith (the (so_secretKey opts)) ''sk_test_'' \<or>
                 startsWith (the (so_secretKey opts)) ''sk_live_'') then Inl BadSecretKey
         else Inr \<lparr>sc_configured = configured, sc_trialDays = int_of_num trialDays,
           sc_webhookSecret = so_webhookSecret opts, sc_priceIds = prices\<rparr>)"

definition priceIdFor :: "stripeConfig \<Rightarrow> planId \<Rightarrow> billingInterval \<Rightarrow> string option" where
  "priceIdFor cfg p i = price_at (sc_priceIds cfg) (plan_key p) (interval_name i)"

definition intervalsFor :: "stripeConfig \<Rightarrow> planId \<Rightarrow> billingInterval list" where
  "intervalsFor cfg p = filter (\<lambda>i. priceIdFor cfg p i \<noteq> None) BILLING_INTERVALS"

fun plan_for_price :: "string \<Rightarrow> priceCatalogue \<Rightarrow> planId option" where
  "plan_for_price i [] = None"
| "plan_for_price i ((p, byInterval) # rest) = (case isPlanId p of
     None \<Rightarrow> plan_for_price i rest
   | Some plan \<Rightarrow> if Some i \<in> set (map snd byInterval) then Some plan else plan_for_price i rest)"

definition planForPrice :: "stripeConfig \<Rightarrow> string option \<Rightarrow> planId option" where
  "planForPrice cfg price = (case price of
     None \<Rightarrow> None
   | Some i \<Rightarrow> if i = '''' then None else plan_for_price i (sc_priceIds cfg))"

record stripe_api =
  api_customer :: "string \<Rightarrow> (string \<times> bool) option"
  api_createCustomer :: "string \<Rightarrow> string \<Rightarrow> string option"
  api_checkout :: "string \<Rightarrow> string \<Rightarrow> int option \<Rightarrow> (string option \<times> int option) option"
  api_portal :: "string \<Rightarrow> string option"
  api_subscription :: "string \<Rightarrow> stripeSubscription option"

text \<open>
  \<open>ensureCustomer\<close>: a remembered customer that still exists is used again; None is a throw.
\<close>

definition ensureCustomer :: "stripeConfig \<Rightarrow> stripe_api \<Rightarrow> string \<Rightarrow> string \<Rightarrow> string option \<Rightarrow> string option" where
  "ensureCustomer cfg api userId email existing =
     (if \<not> sc_configured cfg then None
      else case (case existing of None \<Rightarrow> None | Some c \<Rightarrow> if c = '''' then None else api_customer api c) of
          Some (i, False) \<Rightarrow> Some i
        | _ \<Rightarrow> api_createCustomer api email userId)"

definition stripe_checkout ::
  "stripeConfig \<Rightarrow> stripe_api \<Rightarrow> string \<Rightarrow> planId \<Rightarrow> billingInterval \<Rightarrow> (string \<times> int option) option" where
  "stripe_checkout cfg api customer p i =
     (if \<not> sc_configured cfg then None
      else case priceIdFor cfg p i of
        None \<Rightarrow> None
      | Some price \<Rightarrow>
          if price = '''' then None
          else case api_checkout api customer price (if sc_trialDays cfg > 0 then Some (sc_trialDays cfg) else None) of
            None \<Rightarrow> None
          | Some (None, _) \<Rightarrow> None
          | Some (Some url, expires) \<Rightarrow>
              if url = '''' then None
              else Some (url, case expires of None \<Rightarrow> None | Some t \<Rightarrow> if t = 0 then None else Some (t * 1000)))"

definition stripe_portal :: "stripeConfig \<Rightarrow> stripe_api \<Rightarrow> string \<Rightarrow> string option" where
  "stripe_portal cfg api customer = (if \<not> sc_configured cfg then None else api_portal api customer)"

definition fetchSubscription :: "stripeConfig \<Rightarrow> stripe_api \<Rightarrow> string \<Rightarrow> providerSubscription option" where
  "fetchSubscription cfg api i =
     (if \<not> sc_configured cfg then None
      else map_option (toProviderSubscription (planForPrice cfg)) (api_subscription api i))"

text \<open>The port \<open>BillingProvider\<close> as the service sees it, and the adapter as such a port.\<close>

record billing_provider =
  bp_configured :: bool
  bp_trialDays :: int
  bp_priceIdFor :: "planId \<Rightarrow> billingInterval \<Rightarrow> string option"
  bp_intervalsFor :: "planId \<Rightarrow> billingInterval list"
  bp_ensureCustomer :: "string \<Rightarrow> string \<Rightarrow> string option \<Rightarrow> string option"
  bp_checkout :: "string \<Rightarrow> planId \<Rightarrow> billingInterval \<Rightarrow> (string \<times> int option) option"
  bp_portal :: "string \<Rightarrow> string option"
  bp_fetch :: "string \<Rightarrow> providerSubscription option"

definition stripe_provider :: "stripeConfig \<Rightarrow> stripe_api \<Rightarrow> billing_provider" where
  "stripe_provider cfg api =
     \<lparr>bp_configured = sc_configured cfg, bp_trialDays = sc_trialDays cfg,
      bp_priceIdFor = priceIdFor cfg, bp_intervalsFor = intervalsFor cfg,
      bp_ensureCustomer = ensureCustomer cfg api, bp_checkout = stripe_checkout cfg api,
      bp_portal = stripe_portal cfg api, bp_fetch = fetchSubscription cfg api\<rparr>"

lemma plan_for_price_Pro:
  "plan_for_price i c = Some p \<Longrightarrow> \<exists>m. (plan_key p, m) \<in> set c \<and> Some i \<in> snd ` set m"
  by (induction i c rule: plan_for_price.induct)
    (auto simp: isPlanId_def split: option.splits if_splits)

lemma first_plan_Some: "first_plan f its = Some p \<Longrightarrow> \<exists>it \<in> set its. f (it_price it) = Some p"
  by (induction f its rule: first_plan.induct) (auto split: option.splits)

lemma toStatus_entitling:
  "toStatus s \<in> set ENTITLING_STATUSES \<longleftrightarrow> s = ''trialing'' \<or> s = ''active'' \<or> s = ''past_due''"
  by (simp add: toStatus_def ENTITLING_STATUSES_def)

lemma foldl_max: "foldl max x ys = Max (insert x (set ys))" for x :: int
proof (induction ys arbitrary: x)
  case (Cons y ys)
  then show ?case by (cases "ys = []") (simp_all add: max.assoc max.commute max.left_commute)
qed simp

lemma latest_eq: "latest xs = (if xs = [] then None else Some (Max (set xs) * 1000))"
  by (cases xs) (simp_all add: latest_def foldl_max)

lemma new_provider_sellable:
  assumes "newStripeProvider opts = Inr cfg" and "sc_configured cfg"
  shows "\<exists>i. \<not> missing (priceIdFor cfg Pro i)" and "\<not> missing (sc_webhookSecret cfg)"
proof -
  have "\<not> missing (price_at (so_priceIds opts) ''pro'' ''month'') \<or>
      \<not> missing (price_at (so_priceIds opts) ''pro'' ''year'')"
    and c: "\<not> missing (so_webhookSecret opts)" "cfg = cfg\<lparr>sc_priceIds := so_priceIds opts\<rparr>"
      "sc_priceIds cfg = so_priceIds opts" "sc_webhookSecret cfg = so_webhookSecret opts"
    using assms by (auto simp: newStripeProvider_def Let_def split: if_splits)
  then show "\<exists>i. \<not> missing (priceIdFor cfg Pro i)" "\<not> missing (sc_webhookSecret cfg)"
    unfolding priceIdFor_def by (metis interval_name.simps plan_key.simps(2))+
qed

end
