(* ===== verification/BillingService.thy ===== *)
theory BillingService
  imports BillingPlans AuthStores
begin

text \<open>
  Subscriptions: the stores of \<open>infra/billing/subscription-stores.ts\<close> (in memory) and every
  method of \<open>modules/billing/billing.service.ts\<close> over a provider port. The contract of the
  subscription store is the locale \<open>subscription_port\<close>, interpreted on the in-memory store.
  The last section runs the service: checkouts and webhooks in any order, with whatever the
  provider answers at each step.
\<close>

section \<open>Stores\<close>

record subscription = planState +
  su_userId :: string
  su_customerId :: string
  su_subscriptionId :: "string option"
  su_cancelAtPeriodEnd :: bool
  su_trialEnd :: "int option"
  su_updatedAt :: int

type_synonym subscriptionStore = "(string, subscription) jsmap"

definition sub_get :: "subscriptionStore \<Rightarrow> string \<Rightarrow> subscription option" where
  "sub_get rows u = map_of rows u"

text \<open>\<open>upsert\<close>: None is the error that the customer belongs to another account.\<close>

definition sub_upsert :: "subscriptionStore \<Rightarrow> subscription \<Rightarrow> subscriptionStore option" where
  "sub_upsert rows s =
     (if \<exists>(u, row) \<in> set rows. u \<noteq> su_userId s \<and> su_customerId row = su_customerId s then None
      else Some (map_set (su_userId s) s rows))"

definition findUserByCustomerId :: "subscriptionStore \<Rightarrow> string \<Rightarrow> string option" where
  "findUserByCustomerId rows c = map_option fst (find (\<lambda>(u, row). su_customerId row = c) rows)"

definition sub_purgeUser :: "subscriptionStore \<Rightarrow> string \<Rightarrow> subscriptionStore" where
  "sub_purgeUser rows u = map_delete u rows"

definition claim :: "string list \<Rightarrow> string \<Rightarrow> bool \<times> string list" where
  "claim seen e = (if e \<in> set seen then (False, seen) else (True, set_add e seen))"

record billingState =
  bs_rows :: subscriptionStore
  bs_seen :: "string list"

section \<open>The contract of the subscription store\<close>

text \<open>
  One row per user, and no provider customer shared by two users: what routes a webhook, which
  names a customer, to the one account it may change.
\<close>

locale subscription_port =
  fixes inv :: "'s \<Rightarrow> bool" and get :: "'s \<Rightarrow> string \<Rightarrow> subscription option"
    and upsert :: "'s \<Rightarrow> subscription \<Rightarrow> 's option" and route :: "'s \<Rightarrow> string \<Rightarrow> string option"
  assumes get_user: "inv s \<Longrightarrow> get s u = Some x \<Longrightarrow> su_userId x = u"
    and customer_unique: "inv s \<Longrightarrow> get s u = Some x \<Longrightarrow> get s v = Some y \<Longrightarrow>
      su_customerId x = su_customerId y \<Longrightarrow> u = v"
    and upsert_Some: "inv s \<Longrightarrow> upsert s x = Some s' \<Longrightarrow>
      inv s' \<and> get s' = (get s)(su_userId x \<mapsto> x)"
    and upsert_None: "inv s \<Longrightarrow> upsert s x = None \<longleftrightarrow>
      (\<exists>v y. get s v = Some y \<and> v \<noteq> su_userId x \<and> su_customerId y = su_customerId x)"
    and route: "inv s \<Longrightarrow> route s c = Some u \<longleftrightarrow> (\<exists>x. get s u = Some x \<and> su_customerId x = c)"
begin

lemma route_after_upsert:
  "inv s \<Longrightarrow> upsert s x = Some s' \<Longrightarrow> route s' (su_customerId x) = Some (su_userId x)"
  using upsert_Some [of s x s'] route [of s' "su_customerId x" "su_userId x"] by simp

lemma upsert_own:
  assumes "inv s" and "get s u = Some y" and "su_userId x = u" and "su_customerId x = su_customerId y"
  shows "\<exists>s'. upsert s x = Some s'"
proof (rule ccontr)
  assume "\<nexists>s'. upsert s x = Some s'"
  then have "upsert s x = None" by (cases "upsert s x") auto
  then obtain v z where "get s v = Some z" "v \<noteq> su_userId x" "su_customerId z = su_customerId x"
    using upsert_None [OF assms(1)] by blast
  with customer_unique [OF assms(1)] assms(2-4) show False by metis
qed

lemma upsert_frame:
  "inv s \<Longrightarrow> upsert s x = Some s' \<Longrightarrow> v \<noteq> su_userId x \<Longrightarrow> get s' v = get s v"
  using upsert_Some [of s x s'] by simp

end

definition rows_ok :: "subscriptionStore \<Rightarrow> bool" where
  "rows_ok rows \<longleftrightarrow> distinct (map fst rows) \<and> (\<forall>(u, x) \<in> set rows. su_userId x = u) \<and>
     (\<forall>(u, x) \<in> set rows. \<forall>(v, y) \<in> set rows. su_customerId x = su_customerId y \<longrightarrow> u = v)"

lemma rows_okD:
  assumes "rows_ok rows"
  shows "distinct (map fst rows)" and "(u, x) \<in> set rows \<Longrightarrow> su_userId x = u"
    and "(u, x) \<in> set rows \<Longrightarrow> (v, y) \<in> set rows \<Longrightarrow> su_customerId x = su_customerId y \<Longrightarrow> u = v"
  using assms unfolding rows_ok_def by blast+

lemma set_map_set:
  "distinct (map fst m) \<Longrightarrow> set (map_set k v m) = {(k, v)} \<union> {(k', v') \<in> set m. k' \<noteq> k}"
proof (induction m)
  case (Cons p m)
  then show ?case by (cases p) (auto simp: image_iff)
qed simp

lemma rows_ok_upsert:
  assumes ok: "rows_ok rows" and up: "sub_upsert rows x = Some rows'"
  shows "rows_ok rows'"
proof -
  have no: "(u, y) \<in> set rows \<Longrightarrow> su_customerId y = su_customerId x \<Longrightarrow> u = su_userId x" for u y
    using up by (auto simp: sub_upsert_def split: if_splits)
  have r: "rows' = map_set (su_userId x) x rows" using up by (simp add: sub_upsert_def split: if_splits)
  have mem: "set rows' = {(su_userId x, x)} \<union> {(k, v) \<in> set rows. k \<noteq> su_userId x}"
    unfolding r by (rule set_map_set [OF rows_okD(1) [OF ok]])
  note d = rows_okD [OF ok]
  have users: "su_userId y = u" if "(u, y) \<in> set rows'" for u y
    using that d(2) unfolding mem by blast
  have unique: "u = v" if "(u, y) \<in> set rows'" "(v, z) \<in> set rows'" "su_customerId y = su_customerId z"
    for u v y z
  proof -
    from that(1,2) consider "(u, y) \<in> set rows" "(v, z) \<in> set rows"
      | "u = su_userId x" "y = x" "v = su_userId x" | "u = su_userId x" "y = x" "(v, z) \<in> set rows"
      | "v = su_userId x" "z = x" "(u, y) \<in> set rows" unfolding mem by blast
    then show ?thesis
    proof cases
      case 1
      then show ?thesis using that(3) by (rule d(3))
    next
      case 3
      with no [of v z] that(3) show ?thesis by simp
    next
      case 4
      with no [of u y] that(3) show ?thesis by simp
    qed simp
  qed
  have "distinct (map fst rows')" unfolding r using d(1) by (rule distinct_map_set)
  then show ?thesis unfolding rows_ok_def using users unique by blast
qed

interpretation mem_subs: subscription_port rows_ok sub_get sub_upsert findUserByCustomerId
proof (unfold_locales, goal_cases)
  case (1 s u x)
  show ?case by (rule rows_okD(2) [OF 1(1) map_of_SomeD [OF 1(2) [unfolded sub_get_def]]])
next
  case (2 s u x v y)
  show ?case by (rule rows_okD(3) [OF 2(1) map_of_SomeD [OF 2(2) [unfolded sub_get_def]]
      map_of_SomeD [OF 2(3) [unfolded sub_get_def]] 2(4)])
next
  case (3 s x s')
  then show ?case using rows_ok_upsert by (auto simp: sub_get_def sub_upsert_def split: if_splits)
next
  case (4 s x)
  then show ?case using rows_okD(1) [of s] by (auto simp: sub_get_def sub_upsert_def)
next
  case (5 s c u)
  note d = rows_okD(1) [OF 5]
  show ?case
  proof
    assume "findUserByCustomerId s c = Some u"
    then obtain x where "(u, x) \<in> set s" "su_customerId x = c"
      unfolding findUserByCustomerId_def by (auto simp: find_Some_iff dest: nth_mem)
    then show "\<exists>x. sub_get s u = Some x \<and> su_customerId x = c" using d by (auto simp: sub_get_def)
  next
    assume "\<exists>x. sub_get s u = Some x \<and> su_customerId x = c"
    then obtain x where x: "(u, x) \<in> set s" "su_customerId x = c"
      using d by (auto simp: sub_get_def)
    then obtain v y where f: "find (\<lambda>(u, row). su_customerId row = c) s = Some (v, y)"
      by (metis (mono_tags, lifting) find_None_iff case_prodI not_None_eq surj_pair)
    then have "(v, y) \<in> set s" "su_customerId y = c" by (auto simp: find_Some_iff dest: nth_mem)
    with x rows_okD(3) [OF 5] have "v = u" by metis
    with f show "findUserByCustomerId s c = Some u" by (simp add: findUserByCustomerId_def)
  qed
qed

section \<open>The service\<close>

datatype billing_error =
    NotConfigured
  | UnknownPlan string
  | UnknownInterval string
  | NotSold planId billingInterval
  | AccountNotFound
  | AlreadySubscribed
  | NoBillingAccount
  | UpgradeRequired planId entitlement planId
  | CustomerTaken
  | ProviderFailed

datatype eventOutcome = Applied | Duplicate | Ignored

definition currentPlan :: "billingState \<Rightarrow> string \<Rightarrow> int \<Rightarrow> planId" where
  "currentPlan st u now = effectivePlan (sub_get (bs_rows st) u) now"

record planSummary =
  sm_plan :: planId
  sm_planName :: string
  sm_status :: "subscriptionStatus option"
  sm_bankLinkLimit :: int
  sm_entitlements :: "entitlement list"
  sm_currentPeriodEnd :: "int option"
  sm_cancelAtPeriodEnd :: bool
  sm_trialEnd :: "int option"
  sm_purchaseAvailable :: bool
  sm_gatesEnforced :: bool
  sm_intervals :: "billingInterval list"
  sm_trialDays :: int

definition summary :: "billing_provider \<Rightarrow> int \<Rightarrow> billingState \<Rightarrow> string \<Rightarrow> planSummary" where
  "summary prov now st u =
     (let row = sub_get (bs_rows st) u; p = effectivePlan row now;
          enforced = bp_configured prov; effective = (if enforced then p else Pro)
      in \<lparr>sm_plan = p, sm_planName = pl_name (PLANS p), sm_status = map_option ps_status row,
          sm_bankLinkLimit = bankLinkLimitFor effective,
          sm_entitlements = pl_entitlements (PLANS effective),
          sm_currentPeriodEnd = Option.bind row ps_currentPeriodEnd,
          sm_cancelAtPeriodEnd = (case row of None \<Rightarrow> False | Some r \<Rightarrow> su_cancelAtPeriodEnd r),
          sm_trialEnd = Option.bind row su_trialEnd, sm_purchaseAvailable = bp_configured prov,
          sm_gatesEnforced = enforced, sm_intervals = bp_intervalsFor prov Pro,
          sm_trialDays = bp_trialDays prov\<rparr>)"

definition requireEntitlement ::
  "billing_provider \<Rightarrow> int \<Rightarrow> billingState \<Rightarrow> string \<Rightarrow> entitlement \<Rightarrow> billing_error + unit" where
  "requireEntitlement prov now st u e =
     (if \<not> bp_configured prov then Inr ()
      else let p = currentPlan st u now
           in if hasEntitlement p e then Inr () else Inl (UpgradeRequired p e (firstPlanWith e)))"

definition remainingBankLinks :: "billing_provider \<Rightarrow> int \<Rightarrow> billingState \<Rightarrow> string \<Rightarrow> int \<Rightarrow> int" where
  "remainingBankLinks prov now st u linked =
     (if \<not> bp_configured prov then max_safe_integer
      else max 0 (bankLinkLimitFor (currentPlan st u now) - linked))"

text \<open>The row a checkout writes before the user is sent to pay.\<close>

definition checkoutRow :: "int \<Rightarrow> string \<Rightarrow> string \<Rightarrow> subscription option \<Rightarrow> subscription" where
  "checkoutRow now u customerId existing = (case existing of
     None \<Rightarrow> \<lparr>ps_plan = Free, ps_status = Incomplete, ps_currentPeriodEnd = None, su_userId = u,
       su_customerId = customerId, su_subscriptionId = None, su_cancelAtPeriodEnd = False,
       su_trialEnd = None, su_updatedAt = now\<rparr>
   | Some r \<Rightarrow> r\<lparr>su_userId := u, su_customerId := customerId, su_updatedAt := now\<rparr>)"

definition svc_createCheckoutSession ::
  "billing_provider \<Rightarrow> userStore \<Rightarrow> int \<Rightarrow> billingState \<Rightarrow> string \<Rightarrow> string \<Rightarrow> string
     \<Rightarrow> billingState \<times> (billing_error + string \<times> int option)" where
  "svc_createCheckoutSession prov users now st u plan interval =
     (if \<not> bp_configured prov then (st, Inl NotConfigured)
      else case isPlanId plan of
        None \<Rightarrow> (st, Inl (UnknownPlan plan))
      | Some p \<Rightarrow>
      if p \<notin> set PURCHASABLE_PLANS then (st, Inl (UnknownPlan plan))
      else case isBillingInterval interval of
        None \<Rightarrow> (st, Inl (UnknownInterval interval))
      | Some i \<Rightarrow>
      if missing (bp_priceIdFor prov p i) then (st, Inl (NotSold p i))
      else case findUser users u of
        None \<Rightarrow> (st, Inl AccountNotFound)
      | Some usr \<Rightarrow>
      let existing = sub_get (bs_rows st) u
      in if effectivePlan existing now = p then (st, Inl AlreadySubscribed)
      else case bp_ensureCustomer prov u (us_email usr) (map_option su_customerId existing) of
        None \<Rightarrow> (st, Inl ProviderFailed)
      | Some customerId \<Rightarrow>
      (case sub_upsert (bs_rows st) (checkoutRow now u customerId existing) of
        None \<Rightarrow> (st, Inl CustomerTaken)
      | Some rows \<Rightarrow>
          (st\<lparr>bs_rows := rows\<rparr>, case bp_checkout prov customerId p i of
             None \<Rightarrow> Inl ProviderFailed
           | Some session \<Rightarrow> Inr session)))"

definition svc_createPortalSession ::
  "billing_provider \<Rightarrow> billingState \<Rightarrow> string \<Rightarrow> billing_error + string" where
  "svc_createPortalSession prov st u =
     (if \<not> bp_configured prov then Inl NotConfigured
      else case sub_get (bs_rows st) u of
        None \<Rightarrow> Inl NoBillingAccount
      | Some r \<Rightarrow> (case bp_portal prov (su_customerId r) of
          None \<Rightarrow> Inl ProviderFailed | Some url \<Rightarrow> Inr url))"

definition persistRow :: "int \<Rightarrow> string \<Rightarrow> string \<Rightarrow> providerSubscription \<Rightarrow> subscription" where
  "persistRow now u customerId s =
     \<lparr>ps_plan = (if ps_status s = Canceled then Free else ps_plan s), ps_status = ps_status s,
      ps_currentPeriodEnd = ps_currentPeriodEnd s, su_userId = u, su_customerId = customerId,
      su_subscriptionId = Some (pv_subscriptionId s), su_cancelAtPeriodEnd = pv_cancelAtPeriodEnd s,
      su_trialEnd = pv_trialEnd s, su_updatedAt = now\<rparr>"

text \<open>The subscription an event is about, and the state the service takes as authoritative.\<close>

definition event_subscriptionId :: "billingEvent \<Rightarrow> subscription option \<Rightarrow> string option" where
  "event_subscriptionId ev existing = (case be_subscription ev of
     Some s \<Rightarrow> Some (pv_subscriptionId s)
   | None \<Rightarrow> Option.bind existing su_subscriptionId)"

definition authoritative ::
  "billing_provider \<Rightarrow> billingEvent \<Rightarrow> subscription option \<Rightarrow> providerSubscription option" where
  "authoritative prov ev existing = (let i = event_subscriptionId ev existing in
     if missing i then be_subscription ev
     else case bp_fetch prov (the i) of Some s \<Rightarrow> Some s | None \<Rightarrow> be_subscription ev)"

definition applyEvent ::
  "billing_provider \<Rightarrow> int \<Rightarrow> billingEvent \<Rightarrow> billingState \<Rightarrow> billingState \<times> (billing_error + eventOutcome)" where
  "applyEvent prov now ev st =
     (if be_kind ev = Ignored_kind then (st, Inr Ignored)
      else let (fresh, seen) = claim (bs_seen st) (be_id ev) in
      if \<not> fresh then (st, Inr Duplicate)
      else let st1 = st\<lparr>bs_seen := seen\<rparr> in
      if missing (be_customerId ev) then (st1, Inr Ignored)
      else let c = the (be_customerId ev); userId = findUserByCustomerId (bs_rows st1) c in
      if missing userId then (st1, Inr Ignored)
      else let u = the userId in
      case authoritative prov ev (sub_get (bs_rows st1) u) of
        None \<Rightarrow> (st1, Inr Ignored)
      | Some s \<Rightarrow>
          (case sub_upsert (bs_rows st1) (persistRow now u c s) of
             None \<Rightarrow> (st1, Inl CustomerTaken)
           | Some rows \<Rightarrow> (st1\<lparr>bs_rows := rows\<rparr>, Inr Applied)))"

end
