(* ===== verification/BillingSafety.thy ===== *)
theory BillingSafety
  imports BillingService
begin

text \<open>
  What the subscription service guarantees over its whole life: webhooks in any order, repeated,
  late or about unknown customers, mixed with checkouts and account purges. \<open>reported\<close> is the set
  of subscription objects the provider ever shows, in an event or in answer to a fetch.
\<close>

section \<open>One event\<close>

abbreviation row_of :: "billingState \<Rightarrow> string \<Rightarrow> subscription option" where
  "row_of st u \<equiv> sub_get (bs_rows st) u"

lemma claim_fresh [simp]: "claim seen e = (e \<notin> set seen, if e \<in> set seen then seen else seen @ [e])"
  by (simp add: claim_def set_add_def)

text \<open>The cases of \<open>applyEvent\<close>: it leaves the rows alone, or writes the one row of the owner.\<close>

lemma applyEvent_cases:
  assumes "applyEvent prov now ev st = (st', r)"
  obtains (kept) "bs_rows st' = bs_rows st" "r \<noteq> Inr Applied"
  | (written) u c s where "be_customerId ev = Some c" "findUserByCustomerId (bs_rows st) c = Some u"
      "authoritative prov ev (row_of st u) = Some s"
      "sub_upsert (bs_rows st) (persistRow now u c s) = Some (bs_rows st')" "r = Inr Applied"
  using assms unfolding applyEvent_def
  by (auto simp: Let_def missing_def split: if_splits option.splits)

lemma applyEvent_seen:
  assumes "be_kind ev \<noteq> Ignored_kind"
  shows "be_id ev \<in> set (bs_seen (fst (applyEvent prov now ev st)))"
  using assms by (auto simp: applyEvent_def Let_def split: if_splits option.splits)

lemma applyEvent_seen_mono: "set (bs_seen st) \<subseteq> set (bs_seen (fst (applyEvent prov now ev st)))"
  by (auto simp: applyEvent_def Let_def split: if_splits option.splits)

lemma applyEvent_rows_ok: "rows_ok (bs_rows st) \<Longrightarrow> rows_ok (bs_rows (fst (applyEvent prov now ev st)))"
proof (cases "applyEvent prov now ev st" rule: prod.exhaust)
  case (Pair st' r)
  assume "rows_ok (bs_rows st)"
  with Pair show ?thesis by (cases rule: applyEvent_cases [OF Pair]) (simp_all add: rows_ok_upsert)
qed

lemma authoritative_source:
  "authoritative prov ev x = Some s \<Longrightarrow> be_subscription ev = Some s \<or> (\<exists>i. bp_fetch prov i = Some s)"
  by (auto simp: authoritative_def Let_def split: if_splits option.splits)

lemma persistRow_fields [simp]:
  "su_userId (persistRow now u c s) = u" "su_customerId (persistRow now u c s) = c"
  "su_subscriptionId (persistRow now u c s) = Some (pv_subscriptionId s)"
  by (simp_all add: persistRow_def)

lemma effectivePlan_persistRow: "effectivePlan (Some (persistRow now u c s)) t = effectivePlan (Some s) t"
  by (auto simp: effectivePlan_def persistRow_def ENTITLING_STATUSES_def split: option.splits)

lemma checkoutRow_fields [simp]:
  "su_userId (checkoutRow now u c x) = u" "su_customerId (checkoutRow now u c x) = c"
  by (simp_all add: checkoutRow_def split: option.splits)

lemma effectivePlan_checkoutRow: "effectivePlan (Some (checkoutRow now u c x)) t = effectivePlan x t"
  by (auto simp: effectivePlan_def checkoutRow_def ENTITLING_STATUSES_def split: option.splits)

lemma checkout_cases:
  assumes "svc_createCheckoutSession prov users now st u p i = (st', r)"
  obtains (refused) "st' = st" "\<nexists>x. r = Inr x"
  | (stored) c where "sub_upsert (bs_rows st) (checkoutRow now u c (row_of st u)) = Some (bs_rows st')"
      "bs_seen st' = bs_seen st" "effectivePlan (row_of st u) now = Free"
      "\<exists>usr. findUser users u = Some usr \<and>
         bp_ensureCustomer prov u (us_email usr) (map_option su_customerId (row_of st u)) = Some c"
proof -
  have purch: "q \<in> set PURCHASABLE_PLANS \<Longrightarrow> x \<noteq> q \<Longrightarrow> x = Free" for x q
    by (cases x) (simp_all add: PURCHASABLE_PLANS_def)
  show ?thesis
    using assms that purch unfolding svc_createCheckoutSession_def
    by (auto simp: Let_def split: if_splits option.splits)
qed

section \<open>Runs\<close>

inductive bill_reach :: "stripeConfig \<Rightarrow> stripeSubscription set \<Rightarrow> billingState \<Rightarrow> bool"
  for cfg :: stripeConfig and reported :: "stripeSubscription set" where
  start: "bill_reach cfg reported \<lparr>bs_rows = [], bs_seen = []\<rparr>"
| checkout: "bill_reach cfg reported st \<Longrightarrow>
    bill_reach cfg reported (fst (svc_createCheckoutSession (stripe_provider cfg api) users now st u p i))"
| webhook: "bill_reach cfg reported st \<Longrightarrow> range (api_subscription api) \<subseteq> {None} \<union> Some ` reported \<Longrightarrow>
    sv_data ev \<in> {OtherEvent t | t. True} \<union> {CheckoutSessionCompleted c | c. True} \<union>
      (\<Union>s \<in> reported. {SubscriptionCreated s, SubscriptionUpdated s, SubscriptionPaused s,
         SubscriptionResumed s, SubscriptionDeleted s}) \<Longrightarrow>
    bill_reach cfg reported
      (fst (applyEvent (stripe_provider cfg api) now (toBillingEvent (planForPrice cfg) ev) st))"
| purge: "bill_reach cfg reported st \<Longrightarrow>
    bill_reach cfg reported (st\<lparr>bs_rows := sub_purgeUser (bs_rows st) u\<rparr>)"

text \<open>Every stored row that names the paid plan repeats what the provider reported.\<close>

definition backed :: "stripeConfig \<Rightarrow> stripeSubscription set \<Rightarrow> subscription \<Rightarrow> bool" where
  "backed cfg reported x \<longleftrightarrow> ps_plan x = Pro \<longrightarrow>
     (\<exists>s \<in> reported. let p = toProviderSubscription (planForPrice cfg) s in
        ps_plan p = Pro \<and> ps_status p = ps_status x \<and> ps_currentPeriodEnd p = ps_currentPeriodEnd x)"

definition bill_inv :: "stripeConfig \<Rightarrow> stripeSubscription set \<Rightarrow> billingState \<Rightarrow> bool" where
  "bill_inv cfg reported st \<longleftrightarrow> rows_ok (bs_rows st) \<and>
     (\<forall>u x. row_of st u = Some x \<longrightarrow> backed cfg reported x)"

lemma event_subscription_reported:
  assumes "sv_data ev \<in> {OtherEvent t | t. True} \<union> {CheckoutSessionCompleted c | c. True} \<union>
      (\<Union>s \<in> reported. {SubscriptionCreated s, SubscriptionUpdated s, SubscriptionPaused s,
         SubscriptionResumed s, SubscriptionDeleted s})"
    and "be_subscription (toBillingEvent f ev) = Some p"
  shows "\<exists>s \<in> reported. p = toProviderSubscription f s"
  using assms by (auto simp: subscription_event_def)

lemma upsert_backed:
  assumes "bill_inv cfg reported st" and "sub_upsert (bs_rows st) x = Some rows" and "backed cfg reported x"
  shows "rows_ok rows \<and> (\<forall>u y. sub_get rows u = Some y \<longrightarrow> backed cfg reported y)"
proof -
  have "rows_ok (bs_rows st)" using assms(1) by (simp add: bill_inv_def)
  from mem_subs.upsert_Some [OF this assms(2)] assms(1,3) show ?thesis by (auto simp: bill_inv_def)
qed

lemma backed_checkoutRow:
  "(\<And>x. row = Some x \<Longrightarrow> backed cfg reported x) \<Longrightarrow> backed cfg reported (checkoutRow now u c row)"
  by (cases row) (auto simp: checkoutRow_def backed_def)

lemma backed_persistRow:
  "s \<in> reported \<Longrightarrow> backed cfg reported (persistRow now u c (toProviderSubscription (planForPrice cfg) s))"
  by (auto simp: backed_def persistRow_def Let_def split: if_splits)

lemma bill_inv_purge: "bill_inv cfg reported st \<Longrightarrow> bill_inv cfg reported (st\<lparr>bs_rows := sub_purgeUser (bs_rows st) u\<rparr>)"
proof -
  assume inv: "bill_inv cfg reported st"
  then have ok: "rows_ok (bs_rows st)" by (simp add: bill_inv_def)
  have sub: "set (map_delete u (bs_rows st)) \<subseteq> set (bs_rows st)" by (auto simp: AList.delete_eq)
  have "rows_ok (map_delete u (bs_rows st))"
    unfolding rows_ok_def using distinct_delete [OF rows_okD(1) [OF ok]] rows_okD(2,3) [OF ok] sub by blast
  with inv show ?thesis by (auto simp: bill_inv_def sub_purgeUser_def sub_get_def delete_conv split: if_splits)
qed

lemma bill_reach_inv: "bill_reach cfg reported st \<Longrightarrow> bill_inv cfg reported st"
proof (induction rule: bill_reach.induct)
  case start
  show ?case by (simp add: bill_inv_def rows_ok_def sub_get_def)
next
  case (checkout st api users now u p i)
  obtain st' r where eq: "svc_createCheckoutSession (stripe_provider cfg api) users now st u p i = (st', r)"
    by (meson surj_pair)
  then show ?case
  proof (cases rule: checkout_cases)
    case (stored c)
    have "backed cfg reported (checkoutRow now u c (row_of st u))"
      using checkout.IH by (intro backed_checkoutRow) (auto simp: bill_inv_def)
    from upsert_backed [OF checkout.IH stored(1) this] eq show ?thesis by (simp add: bill_inv_def)
  qed (use eq checkout.IH in simp)
next
  case (webhook st api ev now)
  let ?prov = "stripe_provider cfg api" and ?ev = "toBillingEvent (planForPrice cfg) ev"
  obtain st' r where eq: "applyEvent ?prov now ?ev st = (st', r)" by (meson surj_pair)
  then show ?case
  proof (cases rule: applyEvent_cases)
    case (written u c p)
    have "\<exists>s \<in> reported. p = toProviderSubscription (planForPrice cfg) s"
    proof -
      from authoritative_source [OF written(3)] consider "be_subscription ?ev = Some p"
        | i where "fetchSubscription cfg api i = Some p" by (auto simp: stripe_provider_def)
      then show ?thesis
      proof cases
        case 1
        with event_subscription_reported [OF webhook.hyps(3)] show ?thesis by blast
      next
        case (2 i)
        then obtain s where s: "api_subscription api i = Some s"
          "p = toProviderSubscription (planForPrice cfg) s"
          by (auto simp: fetchSubscription_def split: if_splits)
        from rangeI [of "api_subscription api" i] webhook.hyps(2) s(1) have "s \<in> reported" by auto
        with s(2) show ?thesis by blast
      qed
    qed
    then have "backed cfg reported (persistRow now u c p)" using backed_persistRow by blast
    from upsert_backed [OF webhook.IH written(4) this] eq show ?thesis by (simp add: bill_inv_def)
  qed (use eq webhook.IH in \<open>simp add: bill_inv_def\<close>)
next
  case (purge st u)
  then show ?case by (simp add: bill_inv_purge)
qed

section \<open>Properties\<close>

definition period_alive :: "int \<Rightarrow> stripeSubscription \<Rightarrow> bool" where
  "period_alive now s = (case latest (period_ends s) of None \<Rightarrow> True | Some e \<Rightarrow> now \<le> e + GRACE_MS)"

text \<open>C7: Whatever sequence of checkouts, webhooks (repeated, late, reordered) and purges, a user
  is on the paid plan only if the provider reported a subscription with an item at a configured
  price of that plan, in a status that entitles and in a period that has not lapsed beyond the
  grace day: the service fails closed on unknown prices, statuses and missing rows.\<close>

theorem paid_plan_was_bought:
  assumes "bill_reach cfg reported st" and "currentPlan st u now = Pro"
  shows "\<exists>s \<in> reported. \<exists>it \<in> set (ss_items s).
    planForPrice cfg (it_price it) = Some Pro \<and> ss_status s \<in> {''trialing'', ''active'', ''past_due''} \<and>
    period_alive now s"
proof -
  obtain x where x: "row_of st u = Some x" "ps_plan x = Pro" "ps_status x \<in> set ENTITLING_STATUSES"
    "\<nexists>e. ps_currentPeriodEnd x = Some e \<and> e + GRACE_MS < now"
    using assms(2) unfolding currentPlan_def effectivePlan_Pro by blast
  have "backed cfg reported x" using bill_reach_inv [OF assms(1)] x(1) by (simp add: bill_inv_def)
  then obtain s where s: "s \<in> reported" "ps_plan (toProviderSubscription (planForPrice cfg) s) = Pro"
    "toStatus (ss_status s) = ps_status x" "latest (period_ends s) = ps_currentPeriodEnd x"
    using x(2) by (auto simp: backed_def Let_def toProviderSubscription_def)
  have "\<exists>it \<in> set (ss_items s). planForPrice cfg (it_price it) = Some Pro"
    using s(2) by (intro first_plan_Some) (simp add: toProviderSubscription_def split: option.splits)
  moreover have "ss_status s \<in> {''trialing'', ''active'', ''past_due''}"
    using x(3) toStatus_entitling [of "ss_status s"] s(3) by auto
  moreover have "period_alive now s"
    using x(4) s(4) by (auto simp: period_alive_def not_less split: option.splits)
  ultimately show ?thesis using s(1) by blast
qed

text \<open>A run: a user buys the paid plan and the provider announces the subscription.\<close>

definition demo_cfg :: stripeConfig where
  "demo_cfg = \<lparr>sc_configured = True, sc_trialDays = 14, sc_webhookSecret = Some ''w'',
     sc_priceIds = [(''pro'', [(''month'', Some ''price_m''), (''year'', None)])]\<rparr>"

definition demo_sub :: stripeSubscription where
  "demo_sub = \<lparr>ss_id = ''sub_1'', ss_customer = Some (RefId ''cus_1''),
     ss_items = [\<lparr>it_currentPeriodEnd = Some 2000, it_price = Some ''price_m''\<rparr>],
     ss_legacyPeriodEnd = None, ss_status = ''active'', ss_cancelAtPeriodEnd = None, ss_trialEnd = None\<rparr>"

definition demo_old :: stripeSubscription where
  "demo_old = demo_sub\<lparr>ss_id := ''sub_0'', ss_status := ''canceled''\<rparr>"

definition demo_api :: stripe_api where
  "demo_api = \<lparr>api_customer = (\<lambda>c. None), api_createCustomer = (\<lambda>e u. Some ''cus_1''),
     api_checkout = (\<lambda>c p t. Some (Some ''url'', None)), api_portal = (\<lambda>c. None),
     api_subscription = (\<lambda>i. if i = ''sub_1'' then Some demo_sub
       else if i = ''sub_0'' then Some demo_old else None)\<rparr>"

definition demo_users :: userStore where
  "demo_users = [(''u1'', \<lparr>us_id = ''u1'', us_email = ''a@b.c'', us_passwordHash = ''h'',
     us_displayName = None, us_emailVerifiedAt = None, us_status = Active, us_createdAt = 0,
     us_deletedAt = None\<rparr>)]"

definition demo_event :: "string \<Rightarrow> stripeSubscription \<Rightarrow> billingEvent" where
  "demo_event i s = toBillingEvent (planForPrice demo_cfg) \<lparr>sv_id = i, sv_data = SubscriptionUpdated s\<rparr>"

definition demo_checked_out :: billingState where
  "demo_checked_out = fst (svc_createCheckoutSession (stripe_provider demo_cfg demo_api) demo_users 10
     \<lparr>bs_rows = [], bs_seen = []\<rparr> ''u1'' ''pro'' ''month'')"

definition demo_paid :: billingState where
  "demo_paid = fst (applyEvent (stripe_provider demo_cfg demo_api) 20 (demo_event ''ev_1'' demo_sub) demo_checked_out)"

lemma demo_paid_reach: "bill_reach demo_cfg {demo_sub, demo_old} demo_paid"
  unfolding demo_paid_def demo_checked_out_def demo_event_def
  by (intro bill_reach.webhook bill_reach.checkout bill_reach.start) (auto simp: demo_api_def)

lemma demo_paid_values:
  "currentPlan demo_paid ''u1'' 30 = Pro" "rows_ok (bs_rows demo_paid)"
  "rows_ok (bs_rows demo_checked_out)"
proof -
  show "currentPlan demo_paid ''u1'' 30 = Pro" by code_simp
  show "rows_ok (bs_rows demo_paid)" using bill_reach_inv [OF demo_paid_reach] by (simp add: bill_inv_def)
  have "bill_reach demo_cfg {demo_sub, demo_old} demo_checked_out"
    unfolding demo_checked_out_def by (intro bill_reach.checkout bill_reach.start)
  from bill_reach_inv [OF this] show "rows_ok (bs_rows demo_checked_out)" by (simp add: bill_inv_def)
qed

theorem paid_plan_was_bought_witness:
  "currentPlan demo_paid ''u1'' 30 = Pro \<and> (\<exists>s \<in> {demo_sub, demo_old}. \<exists>it \<in> set (ss_items s).
    planForPrice demo_cfg (it_price it) = Some Pro \<and>
    ss_status s \<in> {''trialing'', ''active'', ''past_due''} \<and> period_alive 30 s)"
  using paid_plan_was_bought [OF demo_paid_reach demo_paid_values(1)] demo_paid_values(1) by blast

text \<open>Delivering a batch of events, each at its own time.\<close>

fun deliver :: "billing_provider \<Rightarrow> (int \<times> billingEvent) list \<Rightarrow> billingState \<Rightarrow> billingState" where
  "deliver prov [] st = st"
| "deliver prov ((now, ev) # evs) st = deliver prov evs (fst (applyEvent prov now ev st))"

lemma deliver_seen: "set (bs_seen st) \<subseteq> set (bs_seen (deliver prov evs st))"
proof (induction evs arbitrary: st)
  case (Cons p evs)
  from Cons.IH [of "fst (applyEvent prov (fst p) (snd p) st)"] applyEvent_seen_mono [of st prov "fst p" "snd p"]
  show ?case by (cases p) auto
qed simp

text \<open>Providers deliver at least once. However much else is delivered in between, and whatever
  the provider answers by then, delivering an event a second time changes nothing.\<close>

theorem redelivery_is_harmless:
  assumes "be_kind ev \<noteq> Ignored_kind"
    and "st = deliver prov evs (fst (applyEvent prov now ev start))"
  shows "applyEvent prov' later ev st = (st, Inr Duplicate)"
proof -
  have "be_id ev \<in> set (bs_seen st)"
    using applyEvent_seen [OF assms(1)] deliver_seen assms(2) by blast
  with assms(1) show ?thesis by (simp add: applyEvent_def)
qed

theorem redelivery_is_harmless_witness:
  "applyEvent (stripe_provider demo_cfg demo_api) 99 (demo_event ''ev_1'' demo_sub)
     (deliver (stripe_provider demo_cfg demo_api) [(25, demo_event ''ev_2'' demo_old)] demo_paid) =
   (deliver (stripe_provider demo_cfg demo_api) [(25, demo_event ''ev_2'' demo_old)] demo_paid, Inr Duplicate)"
  unfolding demo_paid_def
  by (rule redelivery_is_harmless [OF _ refl]) (simp add: demo_event_def subscription_event_def)

section \<open>Events out of order\<close>

text \<open>An event of customer \<open>c\<close> about the subscription \<open>i\<close>.\<close>

definition about :: "string \<Rightarrow> string \<Rightarrow> billingEvent \<Rightarrow> bool" where
  "about c i ev \<longleftrightarrow> be_kind ev \<noteq> Ignored_kind \<and> be_customerId ev = Some c \<and>
     (\<exists>p. be_subscription ev = Some p \<and> pv_subscriptionId p = i)"

lemma applyEvent_about:
  assumes "about c i ev" and "i \<noteq> ''''" and "c \<noteq> ''''" and "u \<noteq> ''''" and "bp_fetch prov i = Some s"
    and "rows_ok (bs_rows st)" and "findUserByCustomerId (bs_rows st) c = Some u"
    and "be_id ev \<notin> set (bs_seen st)"
  obtains st' where "applyEvent prov now ev st = (st', Inr Applied)" and "rows_ok (bs_rows st')"
    and "findUserByCustomerId (bs_rows st') c = Some u"
    and "sub_get (bs_rows st') = (sub_get (bs_rows st))(u \<mapsto> persistRow now u c s)"
proof -
  obtain x where x: "row_of st u = Some x" "su_customerId x = c"
    using mem_subs.route [OF assms(6)] assms(7) by blast
  from mem_subs.upsert_own [OF assms(6) x(1), of "persistRow now u c s"] x(2)
  obtain rows where up: "sub_upsert (bs_rows st) (persistRow now u c s) = Some rows" by auto
  have auth: "authoritative prov ev (Some x) = Some s"
    using assms(1,2,5) by (auto simp: authoritative_def about_def event_subscriptionId_def missing_def)
  let ?st = "st\<lparr>bs_seen := bs_seen st @ [be_id ev], bs_rows := rows\<rparr>"
  have "applyEvent prov now ev st = (?st, Inr Applied)"
    using assms(1,3,4,7,8) x(1) auth up by (auto simp: applyEvent_def about_def missing_def Let_def)
  moreover have "findUserByCustomerId rows c = Some u"
    using mem_subs.route_after_upsert [OF assms(6) up] by simp
  ultimately show ?thesis
    using that [of ?st] mem_subs.upsert_Some [OF assms(6) up] by simp
qed

lemma applyEvent_seen_before: "be_kind ev \<noteq> Ignored_kind \<Longrightarrow> be_id ev \<in> set (bs_seen st) \<Longrightarrow>
  applyEvent prov now ev st = (st, Inr Duplicate)"
  by (simp add: applyEvent_def)

lemma deliver_about:
  assumes "\<And>now ev. (now, ev) \<in> set evs \<Longrightarrow> about c i ev" and "i \<noteq> ''''" and "c \<noteq> ''''" and "u \<noteq> ''''"
    and "bp_fetch prov i = Some s"
    and "rows_ok (bs_rows st)" and "findUserByCustomerId (bs_rows st) c = Some u"
    and "(\<exists>(now, ev) \<in> set evs. be_id ev \<notin> set (bs_seen st)) \<or>
      (\<forall>t. currentPlan st u t = effectivePlan (Some s) t)"
  shows "(\<forall>t. currentPlan (deliver prov evs st) u t = effectivePlan (Some s) t) \<and>
    (\<forall>v. v \<noteq> u \<longrightarrow> row_of (deliver prov evs st) v = row_of st v)"
  using assms(1,6-8)
proof (induction evs arbitrary: st)
  case (Cons p evs)
  obtain now ev where p: "p = (now, ev)" by (cases p)
  have ev: "about c i ev" by (rule Cons.prems(1) [of now]) (simp add: p)
  have rest: "\<And>now ev. (now, ev) \<in> set evs \<Longrightarrow> about c i ev" using Cons.prems(1) by auto
  show ?case
  proof (cases "be_id ev \<in> set (bs_seen st)")
    case True
    then have "fst (applyEvent prov now ev st) = st"
      using applyEvent_seen_before [of ev] ev by (simp add: about_def)
    with Cons.IH [OF rest Cons.prems(2,3)] Cons.prems(4) True p show ?thesis by auto
  next
    case False
    from applyEvent_about [OF ev assms(2-5) Cons.prems(2,3) False, of now] obtain st' where
      st': "applyEvent prov now ev st = (st', Inr Applied)" "rows_ok (bs_rows st')"
        "findUserByCustomerId (bs_rows st') c = Some u"
        "sub_get (bs_rows st') = (sub_get (bs_rows st))(u \<mapsto> persistRow now u c s)" .
    have "\<forall>t. currentPlan st' u t = effectivePlan (Some s) t"
      using st'(4) by (simp add: currentPlan_def effectivePlan_persistRow)
    with Cons.IH [OF rest st'(2,3)] st'(1,4) p show ?thesis by simp
  qed
qed simp

text \<open>C8: Events are not ordered, so a stale update may arrive after a deletion. Because the state
  is read back from the provider, any batch of events about a subscription, in any order and with
  any repetitions, leaves its owner on the plan of the subscription's current state and touches no
  other user.\<close>

theorem events_converge:
  assumes "bill_reach cfg reported st" and "findUserByCustomerId (bs_rows st) c = Some u"
    and "i \<noteq> ''''" and "c \<noteq> ''''" and "u \<noteq> ''''" and "bp_fetch prov i = Some s"
    and "\<And>now ev. (now, ev) \<in> set evs \<Longrightarrow> about c i ev"
    and "\<exists>(now, ev) \<in> set evs. be_id ev \<notin> set (bs_seen st)"
  shows "currentPlan (deliver prov evs st) u t = effectivePlan (Some s) t \<and>
    row_of (deliver prov evs st) v = (if v = u then row_of (deliver prov evs st) u else row_of st v)"
proof -
  have "rows_ok (bs_rows st)" using bill_reach_inv [OF assms(1)] by (simp add: bill_inv_def)
  from deliver_about [OF assms(7,3-6) this assms(2) disjI1 [OF assms(8)]] show ?thesis by simp
qed

theorem events_converge_witness:
  "currentPlan (deliver (stripe_provider demo_cfg demo_api)
     [(40, demo_event ''ev_3'' (demo_sub\<lparr>ss_status := ''canceled''\<rparr>)), (41, demo_event ''ev_4'' demo_sub),
      (42, demo_event ''ev_3'' (demo_sub\<lparr>ss_status := ''canceled''\<rparr>))] demo_paid) ''u1'' 50 = Pro"
proof -
  let ?p = "toProviderSubscription (planForPrice demo_cfg) demo_sub"
  let ?gone = "demo_sub\<lparr>ss_status := ''canceled''\<rparr>"
  let ?evs = "[(40, demo_event ''ev_3'' ?gone), (41, demo_event ''ev_4'' demo_sub),
    (42, demo_event ''ev_3'' ?gone)]"
  have route: "findUserByCustomerId (bs_rows demo_paid) ''cus_1'' = Some ''u1''" by code_simp
  have fetch: "bp_fetch (stripe_provider demo_cfg demo_api) ''sub_1'' = Some ?p"
    by (simp add: stripe_provider_def fetchSubscription_def demo_cfg_def demo_api_def)
  have seen: "bs_seen demo_paid = [''ev_1'']" by code_simp
  have about: "about ''cus_1'' ''sub_1'' (demo_event i s)"
    if "ss_id s = ''sub_1''" "ss_customer s = Some (RefId ''cus_1'')" for i s
    using that by (simp add: about_def demo_event_def subscription_event_def toProviderSubscription_def idOf_def)
  have "about ''cus_1'' ''sub_1'' ev" if "(now, ev) \<in> set ?evs" for now ev
    using that by (auto intro!: about simp: demo_sub_def)
  moreover have "be_id (demo_event ''ev_4'' demo_sub) = ''ev_4''"
    by (simp add: demo_event_def subscription_event_def)
  then have "\<exists>(now, ev) \<in> set ?evs. be_id ev \<notin> set (bs_seen demo_paid)" by (simp add: seen)
  ultimately have "currentPlan (deliver (stripe_provider demo_cfg demo_api) ?evs demo_paid) ''u1'' 50 =
      effectivePlan (Some ?p) 50"
    using events_converge [OF demo_paid_reach route _ _ _ fetch, of ?evs] by blast
  moreover have "effectivePlan (Some ?p) 50 = Pro" by code_simp
  ultimately show ?thesis by simp
qed

text \<open>The state read back is that of the subscription the event names, whatever subscription
  is on record: the late notice that an older subscription of the customer is over takes away the
  plan of a newer one that the provider reports as active.\<close>

theorem stale_subscription_downgrades:
  assumes "bill_reach cfg reported st" and "row_of st u = Some row" and "u \<noteq> ''''"
    and "su_customerId row \<noteq> ''''" and "su_subscriptionId row = Some new" and "new \<noteq> old" and "old \<noteq> ''''"
    and "currentPlan st u now = Pro" and "about (su_customerId row) old ev"
    and "be_id ev \<notin> set (bs_seen st)" and "bp_fetch prov old = Some s" and "ps_status s = Canceled"
  shows "snd (applyEvent prov now ev st) = Inr Applied \<and>
    currentPlan (fst (applyEvent prov now ev st)) u now = Free"
proof -
  have ok: "rows_ok (bs_rows st)" using bill_reach_inv [OF assms(1)] by (simp add: bill_inv_def)
  have "findUserByCustomerId (bs_rows st) (su_customerId row) = Some u"
    using mem_subs.route [OF ok] assms(2) by blast
  from applyEvent_about [OF assms(9,7,4,3,11) ok this assms(10), of now] obtain st' where
    "applyEvent prov now ev st = (st', Inr Applied)"
    "sub_get (bs_rows st') = (sub_get (bs_rows st))(u \<mapsto> persistRow now u (su_customerId row) s)" .
  with assms(12) show ?thesis
    by (simp add: currentPlan_def effectivePlan_persistRow)
      (simp add: effectivePlan_def ENTITLING_STATUSES_def)
qed

theorem stale_subscription_downgrades_witness:
  "currentPlan demo_paid ''u1'' 30 = Pro \<and> currentPlan (fst (applyEvent
     (stripe_provider demo_cfg demo_api) 30 (demo_event ''ev_9'' demo_old) demo_paid)) ''u1'' 30 = Free"
proof -
  let ?s = "toProviderSubscription (planForPrice demo_cfg) demo_old"
  let ?prov = "stripe_provider demo_cfg demo_api"
  have "map_option su_customerId (row_of demo_paid ''u1'') = Some ''cus_1''"
    "map_option su_subscriptionId (row_of demo_paid ''u1'') = Some (Some ''sub_1'')" by code_simp+
  then obtain row where row: "row_of demo_paid ''u1'' = Some row" "su_customerId row = ''cus_1''"
    "su_subscriptionId row = Some ''sub_1''" by auto
  have "about ''cus_1'' ''sub_0'' (demo_event ''ev_9'' demo_old)"
    by (simp add: about_def demo_event_def subscription_event_def toProviderSubscription_def
        demo_old_def demo_sub_def idOf_def)
  moreover have "bp_fetch ?prov ''sub_0'' = Some ?s"
    by (simp add: stripe_provider_def fetchSubscription_def demo_cfg_def demo_api_def)
  moreover have "ps_status ?s = Canceled" "be_id (demo_event ''ev_9'' demo_old) \<notin> set (bs_seen demo_paid)"
    by code_simp+
  ultimately show ?thesis
    using stale_subscription_downgrades [OF demo_paid_reach row(1), of "''sub_1''" "''sub_0''" 30 _ ?prov ?s] row(2,3)
      demo_paid_values(1) by simp
qed

section \<open>Checkout\<close>

text \<open>When a checkout hands the user a payment page, the provider's customer is already on
  record and routes to that user, so the payment cannot strand; the plan of the user does not
  change before the provider reports a payment, no other row is touched, and the user was not
  on the paid plan.\<close>

theorem checkout_routes_payment:
  assumes "bill_reach cfg reported st"
    and "svc_createCheckoutSession prov users now st u p i = (st', Inr session)"
  shows "(\<exists>c. findUserByCustomerId (bs_rows st') c = Some u) \<and> currentPlan st u now = Free \<and>
    currentPlan st' u t = currentPlan st u t \<and> (v = u \<or> row_of st' v = row_of st v)"
proof -
  have ok: "rows_ok (bs_rows st)" using bill_reach_inv [OF assms(1)] by (simp add: bill_inv_def)
  from assms(2) show ?thesis
  proof (cases rule: checkout_cases)
    case (stored c)
    from mem_subs.route_after_upsert [OF ok stored(1)] mem_subs.upsert_Some [OF ok stored(1)] stored(3)
    show ?thesis by (auto simp: currentPlan_def effectivePlan_checkoutRow)
  qed simp
qed

theorem checkout_routes_payment_witness:
  "snd (svc_createCheckoutSession (stripe_provider demo_cfg demo_api) demo_users 10
     \<lparr>bs_rows = [], bs_seen = []\<rparr> ''u1'' ''pro'' ''month'') = Inr (''url'', None) \<and>
   (\<exists>c. findUserByCustomerId (bs_rows demo_checked_out) c = Some ''u1'') \<and>
   currentPlan demo_checked_out ''u1'' 10 = Free"
proof -
  have r: "snd (svc_createCheckoutSession (stripe_provider demo_cfg demo_api) demo_users 10
     \<lparr>bs_rows = [], bs_seen = []\<rparr> ''u1'' ''pro'' ''month'') = Inr (''url'', None)" by code_simp
  then have eq: "svc_createCheckoutSession (stripe_provider demo_cfg demo_api) demo_users 10
     \<lparr>bs_rows = [], bs_seen = []\<rparr> ''u1'' ''pro'' ''month'' = (demo_checked_out, Inr (''url'', None))"
    by (simp add: demo_checked_out_def prod_eq_iff)
  have "currentPlan \<lparr>bs_rows = [], bs_seen = []\<rparr> ''u1'' 10 = Free" by code_simp
  with r checkout_routes_payment [OF bill_reach.start [of demo_cfg "{}"] eq, of 10]
  show ?thesis by simp
qed

text \<open>The event that a first checkout is complete carries no subscription and none is on record
  yet: it is claimed and dropped, and the plan waits for the event of the subscription itself.\<close>

lemma first_checkout_event_ignored:
  assumes "row_of st u = Some row" and "su_subscriptionId row = None" and "u \<noteq> ''''"
    and "findUserByCustomerId (bs_rows st) (su_customerId row) = Some u" and "su_customerId row \<noteq> ''''"
    and "sv_data ev = CheckoutSessionCompleted (Some (RefId (su_customerId row)))"
    and "sv_id ev \<notin> set (bs_seen st)"
  shows "applyEvent prov now (toBillingEvent f ev) st = (st\<lparr>bs_seen := bs_seen st @ [sv_id ev]\<rparr>, Inr Ignored)"
  using assms by (simp add: applyEvent_def Let_def missing_def idOf_def authoritative_def event_subscriptionId_def)

text \<open>Plan limits: with the gates on, a request for a capability is refused exactly when the user's
  plan lacks it, and the refusal names a purchasable plan that has it.\<close>

lemma requireEntitlement_cases:
  "requireEntitlement prov now st u e =
    (if \<not> bp_configured prov \<or> hasEntitlement (currentPlan st u now) e then Inr ()
     else Inl (UpgradeRequired (currentPlan st u now) e Pro))"
  by (cases e) (simp_all add: requireEntitlement_def Let_def firstPlanWith_def PURCHASABLE_PLANS_def hasEntitlement_def)

end
