(* ===== verification/Money.thy ===== *)
theory Money
  imports JsString JsNum
begin

text \<open>
  Money arithmetic, \<open>domain/money.ts\<close>. An amount is an integer of minor units; the two conversions
  to and from a decimal amount go through binary64 (\<open>fl\<close>) and \<open>toFixed\<close> as the code does.
  \<open>formatMoney\<close> only calls the host's \<open>Intl\<close> and is left out.
\<close>

section \<open>Definitions\<close>

record money =
  mo_amount :: int
  mo_currency :: string

datatype money_error = NotAnInteger num | CurrencyMismatch string string | BadParts num

definition EXPONENT_OVERRIDES :: "(string, nat) jsmap" where
  "EXPONENT_OVERRIDES = [(''JPY'', 0), (''KRW'', 0), (''VND'', 0), (''CLP'', 0), (''ISK'', 0),
     (''BHD'', 3), (''KWD'', 3), (''OMR'', 3), (''TND'', 3)]"

definition exponentOf :: "string \<Rightarrow> nat" where
  "exponentOf currency = get_or EXPONENT_OVERRIDES (toUpperCase currency) 2"

text \<open>\<open>money\<close> takes any number and refuses what is no integer.\<close>

definition newMoney :: "num \<Rightarrow> string \<Rightarrow> money_error + money" where
  "newMoney amount currency =
     (if isInteger amount
      then Inr \<lparr>mo_amount = int_of_num amount, mo_currency = toUpperCase currency\<rparr>
      else Inl (NotAnInteger amount))"

abbreviation int_money :: "int \<Rightarrow> string \<Rightarrow> money" where
  "int_money a c \<equiv> \<lparr>mo_amount = a, mo_currency = toUpperCase c\<rparr>"

definition zero_money :: "string \<Rightarrow> money" where
  "zero_money currency = int_money 0 currency"

definition addMoney :: "money \<Rightarrow> money \<Rightarrow> money_error + money" where
  "addMoney a b = (if mo_currency a \<noteq> mo_currency b then Inl (CurrencyMismatch (mo_currency a) (mo_currency b))
     else Inr (int_money (mo_amount a + mo_amount b) (mo_currency a)))"

definition subtractMoney :: "money \<Rightarrow> money \<Rightarrow> money_error + money" where
  "subtractMoney a b = (if mo_currency a \<noteq> mo_currency b then Inl (CurrencyMismatch (mo_currency a) (mo_currency b))
     else Inr (int_money (mo_amount a - mo_amount b) (mo_currency a)))"

definition negateMoney :: "money \<Rightarrow> money" where
  "negateMoney a = int_money (- mo_amount a) (mo_currency a)"

definition absMoney :: "money \<Rightarrow> money" where
  "absMoney a = int_money \<bar>mo_amount a\<bar> (mo_currency a)"

fun sum_from :: "money \<Rightarrow> money list \<Rightarrow> money_error + money" where
  "sum_from acc [] = Inr acc"
| "sum_from acc (x # xs) = (case addMoney acc x of Inl e \<Rightarrow> Inl e | Inr s \<Rightarrow> sum_from s xs)"

definition sumMoney :: "money list \<Rightarrow> string \<Rightarrow> money_error + money" where
  "sumMoney items currency = sum_from (zero_money currency) items"

definition isOutflow :: "money \<Rightarrow> bool" where "isOutflow a \<longleftrightarrow> mo_amount a < 0"
definition isInflow :: "money \<Rightarrow> bool" where "isInflow a \<longleftrightarrow> mo_amount a > 0"

definition majorToMinor :: "rat \<Rightarrow> string \<Rightarrow> int" where
  "majorToMinor major currency =
     (let scaled = number_of_to_fixed 6 (fl (major * 10 ^ exponentOf currency))
      in if scaled < 0 then - js_round (- scaled) else js_round scaled)"

definition minorToMajor :: "int \<Rightarrow> string \<Rightarrow> rat" where
  "minorToMajor minor currency = fl (of_int minor / 10 ^ exponentOf currency)"

fun hand_out :: "int \<Rightarrow> int \<Rightarrow> string \<Rightarrow> int \<Rightarrow> nat \<Rightarrow> money list" where
  "hand_out sign base currency remainder 0 = []"
| "hand_out sign base currency remainder (Suc n) =
     (let extra = (if remainder > 0 then 1 else 0)
      in int_money (sign * (base + extra)) currency # hand_out sign base currency (remainder - extra) n)"

definition allocate :: "money \<Rightarrow> num \<Rightarrow> money_error + money list" where
  "allocate m parts =
     (if \<not> isInteger parts \<or> int_of_num parts < 1 then Inl (BadParts parts)
      else let n = int_of_num parts;
               sign = (if mo_amount m < 0 then -1 else 1);
               total = \<bar>mo_amount m\<bar>;
               base = \<lfloor>fl (of_int total / of_int n)\<rfloor>;
               remainder = total - base * n
           in Inr (hand_out sign base (mo_currency m) remainder (nat n)))"

definition percentOf :: "rat \<Rightarrow> rat \<Rightarrow> rat" where
  "percentOf part whole = (if whole = 0 then 0 else fl (fl (part / whole) * 100))"

section \<open>Currencies are never mixed\<close>

lemma sum_from_Inr:
  "sum_from acc xs = Inr s \<longleftrightarrow>
    (\<forall>x \<in> set xs. mo_currency x = mo_currency acc) \<and>
    mo_currency s = mo_currency acc \<and> mo_amount s = mo_amount acc + sum_list (map mo_amount xs)"
  if "toUpperCase (mo_currency acc) = mo_currency acc"
  using that
proof (induction xs arbitrary: acc)
  case (Cons x xs)
  show ?case
  proof (cases "mo_currency acc = mo_currency x")
    case True
    then have "addMoney acc x = Inr \<lparr>mo_amount = mo_amount acc + mo_amount x, mo_currency = mo_currency acc\<rparr>"
      using Cons.prems by (simp add: addMoney_def)
    with Cons True show ?thesis by (simp add: add.assoc)
  qed (auto simp: addMoney_def)
qed auto

section \<open>Decimal amounts\<close>

lemma to_fixed_near:
  assumes "\<bar>x - of_int n / 10 ^ d\<bar> < 1 / (2 * 10 ^ d)"
  shows "to_fixed d x = of_int n / 10 ^ d"
proof -
  have p: "(0 :: rat) < 10 ^ d" by simp
  have near: "\<bar>x * 10 ^ d - of_int n\<bar> < 1 / 2"
  proof -
    have "x * 10 ^ d - of_int n = (x - of_int n / 10 ^ d) * 10 ^ d" using p by (simp add: left_diff_distrib)
    then have "\<bar>x * 10 ^ d - of_int n\<bar> = \<bar>x - of_int n / 10 ^ d\<bar> * 10 ^ d" by (simp add: abs_mult)
    also have "\<dots> < 1 / (2 * 10 ^ d) * 10 ^ d" using assms p by (rule mult_strict_right_mono)
    finally show ?thesis by simp
  qed
  show ?thesis
  proof (cases "x < 0")
    case True
    then have "js_round (\<bar>x\<bar> * 10 ^ d) = - n"
      using near by (intro js_round_near) (simp add: abs_if split: if_splits)
    with True show ?thesis by (simp add: to_fixed_def Let_def)
  next
    case False
    then have "js_round (\<bar>x\<bar> * 10 ^ d) = n" using near by (intro js_round_near) simp
    with False show ?thesis by (simp add: to_fixed_def Let_def)
  qed
qed

lemma fl_pos_iff: "0 < fl x \<longleftrightarrow> 0 < x"
  using fl_pos_pos fl_mono [of x 0] by (cases "0 < x") (auto simp: fl_def not_less)

lemma fl_neg_iff: "fl x < 0 \<longleftrightarrow> x < 0"
  using fl_pos_iff [of "- x"] by (simp add: fl_uminus)

text \<open>A double multiplied by the minor-unit factor is off by a hair, which the fixed-point step
  removes.\<close>

lemma scaled_near:
  fixes y :: rat
  assumes "\<bar>y\<bar> \<le> 10 ^ 9" and "e \<le> 3"
  shows "\<bar>fl (fl (y / 10 ^ e) * 10 ^ e) - y\<bar> < 1 / (2 * 10 ^ 6)"
proof -
  let ?a = "fl (y / 10 ^ e)"
  have p: "(0 :: rat) < 10 ^ e" by simp
  have "\<bar>?a - y / 10 ^ e\<bar> \<le> \<bar>y / 10 ^ e\<bar> / 2 ^ 53" by (rule fl_error)
  then have "\<bar>?a - y / 10 ^ e\<bar> * 10 ^ e \<le> \<bar>y / 10 ^ e\<bar> / 2 ^ 53 * 10 ^ e"
    using p by (intro mult_right_mono) simp_all
  moreover have "\<bar>?a - y / 10 ^ e\<bar> * 10 ^ e = \<bar>(?a - y / 10 ^ e) * 10 ^ e\<bar>" by (simp add: abs_mult)
  moreover have "(?a - y / 10 ^ e) * 10 ^ e = ?a * 10 ^ e - y" using p by (simp add: left_diff_distrib)
  moreover have "\<bar>y / 10 ^ e\<bar> / 2 ^ 53 * 10 ^ e = \<bar>y\<bar> / 2 ^ 53" using p by simp
  ultimately have 1: "\<bar>?a * 10 ^ e - y\<bar> \<le> \<bar>y\<bar> / 2 ^ 53" by simp
  have 2: "\<bar>fl (?a * 10 ^ e) - ?a * 10 ^ e\<bar> \<le> \<bar>?a * 10 ^ e\<bar> / 2 ^ 53" by (rule fl_error)
  define z where "z = ?a * 10 ^ e"
  have y: "\<bar>y\<bar> \<le> 1000000000" using assms(1) by simp
  have "\<bar>z - y\<bar> \<le> 1 / 1000000" "\<bar>fl z - z\<bar> \<le> \<bar>z\<bar> / 2 ^ 53" using 1 2 y by (simp_all add: z_def)
  then have "\<bar>fl z - y\<bar> \<le> \<bar>z - y\<bar> + \<bar>z\<bar> / 2 ^ 53" "\<bar>z\<bar> \<le> 2000000000" using y by linarith+
  moreover have "\<bar>z - y\<bar> \<le> \<bar>y\<bar> / 2 ^ 53" using 1 by (simp add: z_def)
  ultimately have "\<bar>fl z - y\<bar> < 1 / (2 * 10 ^ 6)" using y by simp
  then show ?thesis by (simp add: z_def)
qed

text \<open>Half away from zero, as the code announces it.\<close>

definition half_away :: "rat \<Rightarrow> int" where
  "half_away x = (if x < 0 then - \<lfloor>- x + 1 / 2\<rfloor> else \<lfloor>x + 1 / 2\<rfloor>)"

text \<open>A number of at most six digits after the point is read to binary64 without crossing a half.\<close>

lemma round_micro:
  assumes "0 \<le> k" and "k \<le> 10 ^ 15"
  shows "js_round (fl (of_int k / 10 ^ 6)) = \<lfloor>of_int k / 10 ^ 6 + 1 / 2 :: rat\<rfloor>"
proof -
  let ?y = "of_int k / 10 ^ 6 :: rat"
  define q r where "q = k div 10 ^ 6" and "r = k mod 10 ^ 6"
  have k: "k = 10 ^ 6 * q + r" "0 \<le> r" "r < 10 ^ 6" by (simp_all add: q_def r_def)
  have y: "?y = of_int q + of_int r / 10 ^ 6" unfolding k(1) by (simp add: add_divide_distrib)
  have "\<bar>fl ?y - ?y\<bar> \<le> \<bar>?y\<bar> / 2 ^ 53" by (rule fl_error)
  moreover have "\<bar>?y\<bar> \<le> 10 ^ 9"
  proof -
    have "(of_int k :: rat) \<le> of_int (10 ^ 15)" using assms(2) by (simp only: of_int_le_iff)
    with assms(1) show ?thesis by simp
  qed
  ultimately have near: "\<bar>fl ?y - ?y\<bar> < 1 / 1000000" by simp
  define z w where "z = ?y" and "w = fl ?y"
  have zw: "\<bar>w - z\<bar> < 1 / 1000000" "z = of_int q + of_int r / 1000000" using near y by (simp_all add: z_def w_def)
  have "r = 500000 \<or> r \<le> 499999 \<or> 500001 \<le> r" by linarith
  then consider "r = 500000" | "r \<le> 499999" | "500001 \<le> r" by blast
  then have "js_round w = \<lfloor>z + 1 / 2\<rfloor>"
  proof cases
    case 1
    have "2 * q + 1 \<le> 10 ^ 15" "0 \<le> q" using k(1) 1 assms by (simp_all add: q_def)
    then have "fl z = z" using 1 zw(2)
      by (intro fl_exact [of _ "2 * q + 1" "-1"]) (simp_all add: pow2_def)
    then show ?thesis by (simp only: js_round_def w_def z_def)
  next
    case 2
    then have r: "0 \<le> (of_int r :: rat)" "(of_int r :: rat) \<le> 499999" using k(2) by simp_all
    then have "\<bar>w - of_int q\<bar> < 1 / 2" using zw by linarith
    then have "js_round w = q" by (rule js_round_near)
    moreover have "\<lfloor>z + 1 / 2\<rfloor> = q" using zw(2) r by (intro floor_unique) linarith+
    ultimately show ?thesis by simp
  next
    case 3
    then have r: "500001 \<le> (of_int r :: rat)" "(of_int r :: rat) \<le> 1000000" using k(3) by simp_all
    then have "\<bar>w - (of_int q + 1)\<bar> < 1 / 2" using zw by linarith
    then have "\<bar>w - of_int (q + 1)\<bar> < 1 / 2" by simp
    then have "js_round w = q + 1" by (rule js_round_near)
    moreover have "\<lfloor>z + 1 / 2\<rfloor> = q + 1" using zw(2) r by (intro floor_unique) (simp only: of_int_add of_int_1, linarith)+
    ultimately show ?thesis by simp
  qed
  then show ?thesis by (simp only: z_def w_def)
qed

lemma exponentOf_cases: "exponentOf c = 0 \<or> exponentOf c = 2 \<or> exponentOf c = 3"
  by (simp add: exponentOf_def EXPONENT_OVERRIDES_def get_or_def)

lemma exponentOf_le: "exponentOf c \<le> 3"
  using exponentOf_cases [of c] by auto

lemma majorToMinor_micro:
  assumes "\<bar>k\<bar> \<le> 10 ^ 15"
  shows "majorToMinor (fl (of_int k / 10 ^ (exponentOf c + 6))) c =
    (if k < 0 then - js_round (- fl (of_int k / 10 ^ 6)) else js_round (fl (of_int k / 10 ^ 6)))"
proof -
  let ?y = "of_int k / 10 ^ 6 :: rat"
  have "(of_int \<bar>k\<bar> :: rat) \<le> of_int (10 ^ 15)" using assms by (simp only: of_int_le_iff)
  then have "\<bar>?y\<bar> \<le> 10 ^ 9" by simp
  from to_fixed_near [OF scaled_near [OF this exponentOf_le [of c]]]
  have "to_fixed 6 (fl (fl (?y / 10 ^ exponentOf c) * 10 ^ exponentOf c)) = ?y" .
  moreover have "of_int k / 10 ^ (exponentOf c + 6) = ?y / 10 ^ exponentOf c" by (simp add: power_add)
  ultimately show ?thesis
    by (simp only: majorToMinor_def number_of_to_fixed_def Let_def fl_neg_iff) simp
qed

lemma majorToMinor_round:
  assumes "\<bar>k\<bar> \<le> 10 ^ 15"
  shows "majorToMinor (fl (of_int k / 10 ^ (exponentOf c + 6))) c = half_away (of_int k / 10 ^ 6)"
  unfolding majorToMinor_micro [OF assms] half_away_def
  using round_micro [of k] round_micro [of "- k"] assms by (auto simp: fl_uminus)

lemma majorToMinor_exact:
  assumes "\<bar>n\<bar> \<le> 10 ^ 9"
  shows "majorToMinor (minorToMajor n c) c = n"
proof -
  have "\<bar>10 ^ 6 * n\<bar> \<le> 10 ^ 15" using assms by simp
  moreover have "\<lfloor>1 / 2 :: rat\<rfloor> = 0" by (rule floor_unique) simp_all
  ultimately show ?thesis
    using majorToMinor_round [of "10 ^ 6 * n" c] by (simp add: minorToMajor_def half_away_def power_add)
qed

text \<open>C9: A decimal amount with at most six digits beyond the minor unit of its currency, of up to a milliard minor
  units, is rounded half away from zero, exactly, although the product in floating point is off (\<open>1.005 * 100\<close> is
  below 100.5). With no digit to spare the conversion is exact, so an amount shown to the user and typed back is the
  same amount. More digits are rounded twice: \<open>seventh_digit_rounds_twice\<close>.\<close>

theorem majorToMinor_rounds_half_away:
  assumes "\<bar>k\<bar> \<le> 10 ^ 15" and "\<bar>n\<bar> \<le> 10 ^ 9"
  shows "majorToMinor (fl (of_int k / 10 ^ (exponentOf c + 6))) c = half_away (of_int k / 10 ^ 6) \<and>
    majorToMinor (minorToMajor n c) c = n"
  using majorToMinor_round [OF assms(1)] majorToMinor_exact [OF assms(2)] by blast

theorem majorToMinor_rounds_half_away_witness:
  "fl (fl (of_int 100500000 / 10 ^ (exponentOf ''usd'' + 6)) * 100) < 100.5 \<and>
   majorToMinor (fl (of_int 100500000 / 10 ^ (exponentOf ''usd'' + 6))) ''usd'' = 101 \<and>
   majorToMinor (minorToMajor (-1999) ''JPY'') ''JPY'' = -1999"
proof -
  have "fl (fl (of_int 100500000 / 10 ^ (exponentOf ''usd'' + 6)) * 100) < 100.5" by code_simp
  moreover have "half_away (of_int 100500000 / 10 ^ 6) = 101" by code_simp
  ultimately show ?thesis
    using majorToMinor_rounds_half_away [of 100500000 0 "''usd''"]
      majorToMinor_rounds_half_away [of 0 "-1999" "''JPY''"] by simp
qed

text \<open>1.0049999999 dollars are below a hundred and a half cents, and come out as a hundred and one.\<close>

lemma seventh_digit_rounds_twice:
  "half_away (100.49999999) = 100 \<and> majorToMinor (fl 1.0049999999) ''USD'' = 101"
  by code_simp

section \<open>Allocation\<close>

lemma hand_out_length [simp]: "length (hand_out s b c r n) = n"
  by (induction n arbitrary: r) (simp_all add: Let_def)

lemma hand_out_sum: "0 \<le> r \<Longrightarrow> r \<le> int n \<Longrightarrow>
  sum_list (map mo_amount (hand_out s b c r n)) = s * (b * int n + r)"
proof (induction n arbitrary: r)
  case (Suc n)
  then show ?case by (cases "r = 0") (simp_all add: Let_def Suc.IH algebra_simps)
qed simp

lemma hand_out_nth: "i < n \<Longrightarrow> 0 \<le> r \<Longrightarrow>
  hand_out s b c r n ! i = int_money (s * (b + (if int i < r then 1 else 0))) c"
proof (induction n arbitrary: i r)
  case (Suc n)
  then show ?case by (cases i) (auto simp: Let_def)
qed simp

text \<open>Splitting an amount into parts never loses or creates a cent, for negative amounts as
  well: there are as many parts as asked for, they sum to the amount, keep its currency, and
  differ by at most one unit, the leading parts taking the remainder. Anything but a positive
  whole number of parts is refused.\<close>

theorem allocate_exact:
  assumes "\<bar>mo_amount m\<bar> < 2 ^ 53" and "toUpperCase (mo_currency m) = mo_currency m"
  shows "case allocate m parts of
      Inl e \<Rightarrow> e = BadParts parts \<and> \<not> (\<exists>n > 0. parts = Num (of_int n))
    | Inr ps \<Rightarrow> parts = Num (of_int (int (length ps))) \<and> ps \<noteq> [] \<and>
        sumMoney ps (mo_currency m) = Inr m \<and>
        (\<exists>b r. ps = map (\<lambda>i. m\<lparr>mo_amount := sgn (mo_amount m) * (b + (if i < r then 1 else 0))\<rparr>)
          [0..<length ps])"
proof (cases "isInteger parts \<and> \<not> int_of_num parts < 1")
  case False
  then show ?thesis by (auto simp: allocate_def)
next
  case True
  define n where "n = nat (int_of_num parts)"
  have n: "0 < n" "int_of_num parts = int n" using True by (simp_all add: n_def)
  have parts: "parts = Num (of_int (int n))" using int_of_num_integer [of parts] True n by simp
  let ?t = "\<bar>mo_amount m\<bar>" and ?s = "if mo_amount m < 0 then -1 else 1 :: int" and ?c = "mo_currency m"
  let ?b = "?t div int n" and ?r = "?t mod int n"
  let ?ps = "hand_out ?s ?b ?c ?r n"
  have base: "\<lfloor>fl (of_int ?t / of_int (int n))\<rfloor> = ?b" using assms(1) n by (intro floor_fl_div) simp_all
  have "\<not> (\<not> isInteger parts \<or> int_of_num parts < 1)" using True by simp
  then have alloc: "allocate m parts = Inr ?ps"
    by (simp only: allocate_def if_False Let_def n(2) base nat_int minus_div_mult_eq_mod)
  have r: "0 \<le> ?r" "?r < int n" using n by simp_all
  have nth: "?ps ! i = m\<lparr>mo_amount := ?s * (?b + (if int i < ?r then 1 else 0))\<rparr>" if "i < n" for i
    using hand_out_nth [OF that r(1)] assms(2) by (cases m) simp
  then have cur: "x \<in> set ?ps \<Longrightarrow> mo_currency x = ?c" for x by (auto simp: in_set_conv_nth)
  have "sum_list (map mo_amount ?ps) = mo_amount m"
    using hand_out_sum [of ?r n ?s ?b ?c] r by (simp add: mult.commute)
  then have sum: "sumMoney ?ps ?c = Inr m"
    using cur assms(2) by (cases m) (simp add: sumMoney_def zero_money_def sum_from_Inr)
  have "?ps = map (\<lambda>i. m\<lparr>mo_amount := sgn (mo_amount m) *
      (?b + (if i < nat ?r then 1 else 0))\<rparr>) [0..<length ?ps]"
    using r by (intro nth_equalityI) (auto simp: nth sgn_if)
  then have ex: "\<exists>b r. ?ps = map (\<lambda>i. m\<lparr>mo_amount := sgn (mo_amount m) *
      (b + (if i < r then 1 else 0))\<rparr>) [0..<length ?ps]" by blast
  show ?thesis unfolding alloc sum.case
  proof (intro conjI)
    show "parts = Num (of_int (int (length ?ps)))" using parts by simp
    show "?ps \<noteq> []" using n(1) by (metis hand_out_length length_greater_0_conv)
  qed (fact sum ex)+
qed

theorem allocate_exact_witness:
  "allocate (int_money (-1000) ''USD'') (Num 3) =
     Inr [int_money (-334) ''USD'', int_money (-333) ''USD'', int_money (-333) ''USD''] \<and>
   sumMoney [int_money (-334) ''USD'', int_money (-333) ''USD'', int_money (-333) ''USD''] ''USD'' =
     Inr (int_money (-1000) ''USD'')"
proof -
  have eq: "allocate (int_money (-1000) ''USD'') (Num 3) =
     Inr [int_money (-334) ''USD'', int_money (-333) ''USD'', int_money (-333) ''USD'']"
    "toUpperCase ''USD'' = ''USD''" by code_simp+
  with allocate_exact [of "int_money (-1000) ''USD''" "Num 3"] show ?thesis by simp
qed

end
