(* ===== verification/LedgerTypes.thy ===== *)
theory LedgerTypes
  imports Dates
begin

text \<open>
  The domain types (\<open>domain/types.ts\<close>) and the category tree (\<open>domain/categories.ts\<close>). Amounts
  are integers of minor units, confidences rationals, an optional property is an option.
\<close>

section \<open>Types\<close>

datatype accountType = Checking | Savings | CreditCard | Investment | Property | Cash | Loan

datatype categorySource = UserRule | Lexicon | Model | UserManual | TransferPairing | UnknownSource

datatype budgetPeriodType = Weekly | Monthly | Yearly

datatype ruleMatchType = MContains | MExact | MRegex

datatype accountSource = ProviderRow | ManualRow

record account =
  ac_id :: string
  ac_name :: string
  ac_type :: accountType
  ac_mask :: string
  ac_currency :: string
  ac_balanceCurrent :: int
  ac_source :: "accountSource option"
  ac_creditLimit :: "int option"
  ac_statementDay :: "int option"
  ac_paymentDueDay :: "int option"

record netWorthSnapshot =
  nw_recordedOn :: string
  nw_currency :: string
  nw_assets :: int
  nw_debts :: int
  nw_netPosition :: int

record transaction =
  tx_id :: string
  tx_accountId :: string
  tx_providerTxnId :: string
  tx_postedAt :: string
  tx_amount :: int
  tx_currency :: string
  tx_rawDescriptor :: string
  tx_normalizedDescriptor :: string
  tx_merchant :: "string option"
  tx_merchantOverride :: "string option"
  tx_note :: "string option"
  tx_excludedFromAnalytics :: "bool option"
  tx_categorySlug :: string
  tx_categorySource :: categorySource
  tx_categoryConfidence :: rat
  tx_isRecurring :: bool
  tx_recurringOverride :: "bool option"
  tx_duplicateReported :: "bool option"
  tx_pending :: bool
  tx_tags :: "string list option"
  tx_importBatchId :: "string option"

record categorizationRule =
  ru_id :: string
  ru_matchType :: ruleMatchType
  ru_pattern :: string
  ru_categorySlug :: string
  ru_priority :: int

record budget =
  bu_id :: string
  bu_categorySlug :: string
  bu_limitAmount :: int
  bu_currency :: string
  bu_period :: budgetPeriodType
  bu_rollover :: bool

record savingsGoal =
  go_id :: string
  go_name :: string
  go_targetAmount :: int
  go_currency :: string
  go_targetDate :: "string option"
  go_createdAt :: string

record goalContribution =
  gc_id :: string
  gc_goalId :: string
  gc_amount :: int
  gc_contributedAt :: string

datatype notificationKind = NBudget | NBill | NCreditUtilization | NSubscription | NLowBalance
  | NUnusualTransaction | NBankSync | NSecurity

datatype severity = Info | Warning | Critical

record userNotification =
  no_id :: string
  no_kind :: notificationKind
  no_title :: string
  no_message :: string
  no_severity :: severity
  no_dedupeKey :: string
  no_readAt :: "string option"
  no_createdAt :: string

record notificationPreferences =
  np_budget :: bool
  np_bills :: bool
  np_creditUtilization :: bool
  np_subscriptions :: bool
  np_lowBalance :: bool
  np_unusualTransactions :: bool
  np_bankSync :: bool
  np_security :: bool

record rawTransaction =
  rt_providerTxnId :: string
  rt_accountId :: string
  rt_postedAt :: string
  rt_amount :: int
  rt_currency :: string
  rt_descriptor :: string
  rt_pending :: bool

section \<open>Categories\<close>

datatype categoryKind = Expense | Income | Transfer | Special

record categoryDef =
  cd_slug :: string
  cd_name :: string
  cd_parent :: "string option"
  cd_kind :: categoryKind

abbreviation cat :: "string \<Rightarrow> string \<Rightarrow> string option \<Rightarrow> categoryKind \<Rightarrow> categoryDef" where
  "cat s n p k \<equiv> \<lparr>cd_slug = s, cd_name = n, cd_parent = p, cd_kind = k\<rparr>"

definition UNKNOWN_CATEGORY :: string where
  "UNKNOWN_CATEGORY = ''unknown''"

definition CATEGORIES :: "categoryDef list" where
  "CATEGORIES =
   [cat ''housing'' ''Housing'' None Expense, cat ''rent'' ''Rent'' (Some ''housing'') Expense,
     cat ''mortgage'' ''Mortgage'' (Some ''housing'') Expense,
     cat ''utilities'' ''Utilities'' (Some ''housing'') Expense,
     cat ''internet'' ''Internet'' (Some ''housing'') Expense,
     cat ''phone'' ''Phone'' (Some ''housing'') Expense, cat ''food'' ''Food'' None Expense,
     cat ''groceries'' ''Groceries'' (Some ''food'') Expense,
     cat ''restaurants'' ''Restaurants'' (Some ''food'') Expense,
     cat ''coffee'' ''Coffee'' (Some ''food'') Expense,
     cat ''fast_food'' ''Fast Food'' (Some ''food'') Expense,
     cat ''food_delivery'' ''Food Delivery'' (Some ''food'') Expense,
     cat ''transportation'' ''Transportation'' None Expense,
     cat ''fuel'' ''Fuel'' (Some ''transportation'') Expense,
     cat ''public_transit'' ''Public Transit'' (Some ''transportation'') Expense,
     cat ''rideshare'' ''Ride Sharing'' (Some ''transportation'') Expense,
     cat ''parking'' ''Parking'' (Some ''transportation'') Expense,
     cat ''healthcare'' ''Healthcare'' None Expense,
     cat ''pharmacy'' ''Pharmacy'' (Some ''healthcare'') Expense,
     cat ''insurance'' ''Insurance'' (Some ''healthcare'') Expense,
     cat ''shopping'' ''Shopping'' None Expense,
     cat ''clothing'' ''Clothing'' (Some ''shopping'') Expense,
     cat ''electronics'' ''Electronics'' (Some ''shopping'') Expense,
     cat ''entertainment'' ''Entertainment'' None Expense,
     cat ''streaming'' ''Streaming'' (Some ''entertainment'') Expense,
     cat ''gaming'' ''Gaming'' (Some ''entertainment'') Expense,
     cat ''fitness'' ''Fitness'' (Some ''entertainment'') Expense,
     cat ''travel'' ''Travel'' None Expense, cat ''subscriptions'' ''Subscriptions'' None Expense,
     cat ''software'' ''Software'' (Some ''subscriptions'') Expense,
     cat ''debt'' ''Debt'' None Expense,
     cat ''loan_payment'' ''Loan Payment'' (Some ''debt'') Expense,
     cat ''credit_card_payment'' ''Credit Card Payment'' (Some ''debt'') Transfer,
     cat ''taxes'' ''Taxes'' None Expense, cat ''fees'' ''Fees & Interest'' None Expense,
     cat ''income'' ''Income'' None Income, cat ''salary'' ''Salary'' (Some ''income'') Income,
     cat ''freelance'' ''Freelance'' (Some ''income'') Income,
     cat ''refunds'' ''Refunds'' (Some ''income'') Income,
     cat ''interest_income'' ''Interest'' (Some ''income'') Income,
     cat ''savings'' ''Savings'' None Transfer, cat ''investments'' ''Investments'' None Transfer,
     cat ''transfer'' ''Transfer'' None Transfer, cat ''unknown'' ''Unknown'' None Expense]"

text \<open>\<open>BY_SLUG\<close> is built from the table; a later entry of the same slug would win.\<close>

definition BY_SLUG :: "(string, categoryDef) jsmap" where
  "BY_SLUG = foldl (\<lambda>m c. map_set (cd_slug c) c m) [] CATEGORIES"

definition getCategory :: "string \<Rightarrow> categoryDef option" where
  "getCategory slug = map_of BY_SLUG slug"

definition isKnownCategory :: "string \<Rightarrow> bool" where
  "isKnownCategory slug \<longleftrightarrow> getCategory slug \<noteq> None"

definition isSpendingCategory :: "string \<Rightarrow> bool" where
  "isSpendingCategory slug \<longleftrightarrow> map_option cd_kind (getCategory slug) = Some Expense"

definition isIncomeCategory :: "string \<Rightarrow> bool" where
  "isIncomeCategory slug \<longleftrightarrow> map_option cd_kind (getCategory slug) = Some Income"

definition ESSENTIAL_ROOTS :: "string list" where
  "ESSENTIAL_ROOTS = [''housing'', ''food'', ''transportation'', ''healthcare'', ''debt'', ''taxes'', ''fees'']"

definition DISCRETIONARY_CATEGORIES :: "string list" where
  "DISCRETIONARY_CATEGORIES = [''restaurants'', ''coffee'', ''fast_food'', ''food_delivery'', ''parking'',
     ''rideshare'', ''shopping'', ''clothing'', ''electronics'', ''entertainment'', ''streaming'', ''gaming'',
     ''fitness'', ''travel'', ''subscriptions'', ''software'']"

text \<open>The table as a list: its slugs are distinct, and a parent is a top-level entry.\<close>

lemma slugs_distinct: "distinct (map cd_slug CATEGORIES)"
  by code_simp

lemma BY_SLUG_table [code]: "BY_SLUG = map (\<lambda>c. (cd_slug c, c)) CATEGORIES"
  by code_simp

lemma getCategory_Some: "getCategory slug = Some c \<longleftrightarrow> c \<in> set CATEGORIES \<and> cd_slug c = slug"
proof -
  have "distinct (map fst BY_SLUG)" unfolding BY_SLUG_table using slugs_distinct by (simp add: o_def)
  then have "getCategory slug = Some c \<longleftrightarrow> (slug, c) \<in> set BY_SLUG" by (simp add: getCategory_def)
  then show ?thesis by (auto simp: BY_SLUG_table)
qed

lemma parents_top_level:
  assumes "c \<in> set CATEGORIES" and "cd_parent c = Some p"
  shows "\<exists>q. getCategory p = Some q \<and> cd_parent q = None"
proof -
  have "list_all (\<lambda>c. case cd_parent c of None \<Rightarrow> True
      | Some p \<Rightarrow> (case getCategory p of None \<Rightarrow> False | Some q \<Rightarrow> cd_parent q = None)) CATEGORIES"
    by code_simp
  then have "case cd_parent c of None \<Rightarrow> True
      | Some p \<Rightarrow> (case getCategory p of None \<Rightarrow> False | Some q \<Rightarrow> cd_parent q = None)"
    unfolding list_all_iff using assms(1) by (rule bspec)
  with assms(2) show ?thesis by (simp split: option.splits)
qed

text \<open>The walk to the top-level ancestor ends because the table has two levels.\<close>

definition height :: "categoryDef \<Rightarrow> nat" where
  "height c = (case Option.bind (cd_parent c) getCategory of
     None \<Rightarrow> 0 | Some q \<Rightarrow> if cd_parent q = None then 1 else 2)"

lemma height_parent:
  assumes "cd_parent c = Some p" and "getCategory p = Some q"
  shows "height q < height c"
proof (cases "cd_parent q")
  case (Some p')
  have "q \<in> set CATEGORIES" using assms(2) by (simp add: getCategory_Some)
  then obtain r where "getCategory p' = Some r" "cd_parent r = None" using parents_top_level Some by blast
  with Some assms show ?thesis by (simp add: height_def)
qed (use assms in \<open>simp add: height_def\<close>)

function root_walk :: "categoryDef \<Rightarrow> categoryDef" where
  "root_walk current = (case cd_parent current of
     None \<Rightarrow> current
   | Some p \<Rightarrow> (case getCategory p of None \<Rightarrow> current | Some parent \<Rightarrow> root_walk parent))"
  by pat_completeness auto
termination
  by (relation "measure height") (auto simp: height_parent)

declare root_walk.simps [simp del]

definition rootCategoryOf :: "string \<Rightarrow> string" where
  "rootCategoryOf slug = (case getCategory slug of
     None \<Rightarrow> UNKNOWN_CATEGORY | Some c \<Rightarrow> cd_slug (root_walk c))"

definition isEssentialCategory :: "string \<Rightarrow> bool" where
  "isEssentialCategory slug \<longleftrightarrow>
     slug \<notin> set DISCRETIONARY_CATEGORIES \<and> rootCategoryOf slug \<in> set ESSENTIAL_ROOTS"

definition displayName :: "string \<Rightarrow> string" where
  "displayName slug = (case getCategory slug of None \<Rightarrow> ''Unknown'' | Some c \<Rightarrow> cd_name c)"

lemma root_walk_top:
  "c \<in> set CATEGORIES \<Longrightarrow> root_walk c \<in> set CATEGORIES \<and> cd_parent (root_walk c) = None"
proof (induction c rule: root_walk.induct)
  case (1 c)
  show ?case
  proof (cases "cd_parent c")
    case None
    then have "root_walk c = c" by (simp add: root_walk.simps [of c])
    with None 1(2) show ?thesis by simp
  next
    case (Some p)
    then obtain q where q: "getCategory p = Some q" using parents_top_level [OF 1(2)] by blast
    then have "root_walk c = root_walk q" using Some by (simp add: root_walk.simps [of c])
    moreover have "q \<in> set CATEGORIES" using q by (simp add: getCategory_Some)
    ultimately show ?thesis using 1(1) [OF Some q] by simp
  qed
qed

text \<open>The walk to the top-level ancestor ends for every slug, known or not, at a top-level
  category of the table, and walking again stays there; only unknown slugs and the fallback itself
  end at the fallback.\<close>

theorem rootCategoryOf_top_level:
  "\<exists>r. getCategory (rootCategoryOf slug) = Some r \<and> cd_parent r = None \<and>
     rootCategoryOf (rootCategoryOf slug) = rootCategoryOf slug"
proof -
  have top: "rootCategoryOf (cd_slug r) = cd_slug r" if "r \<in> set CATEGORIES" "cd_parent r = None" for r
  proof -
    have "getCategory (cd_slug r) = Some r" using that(1) by (simp add: getCategory_Some)
    moreover have "root_walk r = r" using that(2) by (simp add: root_walk.simps [of r])
    ultimately show ?thesis by (simp add: rootCategoryOf_def)
  qed
  have unknown: "getCategory UNKNOWN_CATEGORY \<noteq> None"
    "map_option cd_parent (getCategory UNKNOWN_CATEGORY) = Some None" by code_simp+
  show ?thesis
  proof (cases "getCategory slug")
    case None
    then have "rootCategoryOf slug = UNKNOWN_CATEGORY" by (simp add: rootCategoryOf_def)
    moreover obtain r where "getCategory UNKNOWN_CATEGORY = Some r" "cd_parent r = None" using unknown by auto
    ultimately show ?thesis using top [of r] by (auto simp: getCategory_Some)
  next
    case (Some c)
    then have "root_walk c \<in> set CATEGORIES" "cd_parent (root_walk c) = None"
      using root_walk_top [of c] by (simp_all add: getCategory_Some)
    moreover have "rootCategoryOf slug = cd_slug (root_walk c)" using Some by (simp add: rootCategoryOf_def)
    ultimately show ?thesis using top [of "root_walk c"] getCategory_Some [of "cd_slug (root_walk c)"] by auto
  qed
qed

end
