(* ===== verification/Csv.thy ===== *)
theory Csv
  imports LedgerTypes
begin

text \<open>
  The ledger export (\<open>domain/exports/transactions-csv.ts\<close>) and the reader of the import review
  (\<open>domain/imports/csv-parse.ts\<close>). Strings hold code units below 256, so the byte-order mark the
  reader strips cannot occur. \<open>String(x)\<close> of a number that is no integer is a parameter.
\<close>

abbreviation (input) DQ :: char where "DQ \<equiv> CHR 0x22"
abbreviation (input) LF :: char where "LF \<equiv> CHR 0x0A"
abbreviation (input) CR :: char where "CR \<equiv> CHR 0x0D"

section \<open>Export\<close>

datatype cellValue = Text string | Bare string | Missing

definition escape :: "string \<Rightarrow> string" where
  "escape s = concat (map (\<lambda>c. if c = DQ then [DQ, DQ] else [c]) s)"

definition formula_guard :: "string \<Rightarrow> string" where
  "formula_guard s = (if s \<noteq> [] \<and> hd s \<in> set ''=+@-'' then CHR 0x27 # s else s)"

text \<open>The text of a cell: only values that are strings are guarded.\<close>

fun cell_text :: "cellValue \<Rightarrow> string" where
  "cell_text (Text s) = formula_guard s"
| "cell_text (Bare s) = s"
| "cell_text Missing = []"

definition cell :: "cellValue \<Rightarrow> string" where
  "cell v = DQ # escape (cell_text v) @ [DQ]"

definition bool_text :: "bool \<Rightarrow> string" where
  "bool_text b = (if b then ''true'' else ''false'')"

fun source_text :: "categorySource \<Rightarrow> string" where
  "source_text UserRule = ''user_rule''"
| "source_text Lexicon = ''lexicon''"
| "source_text Model = ''model''"
| "source_text UserManual = ''user_manual''"
| "source_text TransferPairing = ''transfer_pairing''"
| "source_text UnknownSource = ''unknown''"

definition optional_text :: "string option \<Rightarrow> cellValue" where
  "optional_text v = (case v of None \<Rightarrow> Missing | Some s \<Rightarrow> Text s)"

definition optional_flag :: "bool option \<Rightarrow> cellValue" where
  "optional_flag v = Bare (bool_text (v = Some True))"

definition csv_header :: "string list" where
  "csv_header = [''id'', ''account_id'', ''provider_transaction_id'', ''posted_at'', ''amount_minor'',
     ''currency'', ''merchant'', ''merchant_override'', ''note'', ''excluded_from_analytics'',
     ''descriptor'', ''category'', ''category_source'', ''category_confidence'', ''recurring'',
     ''duplicate_reported'', ''pending'', ''tags'']"

definition csv_cells :: "(rat \<Rightarrow> string) \<Rightarrow> transaction \<Rightarrow> cellValue list" where
  "csv_cells num_text t =
     [Text (tx_id t), Text (tx_accountId t), Text (tx_providerTxnId t), Text (tx_postedAt t),
      Bare (int_string (tx_amount t)), Text (tx_currency t), optional_text (tx_merchant t),
      optional_text (tx_merchantOverride t), optional_text (tx_note t),
      optional_flag (tx_excludedFromAnalytics t), Text (tx_rawDescriptor t), Text (tx_categorySlug t),
      Text (source_text (tx_categorySource t)), Bare (num_text (tx_categoryConfidence t)),
      Bare (bool_text (tx_isRecurring t)), optional_flag (tx_duplicateReported t),
      Bare (bool_text (tx_pending t)), optional_text (map_option (join ''|'') (tx_tags t))]"

definition csv_line :: "cellValue list \<Rightarrow> string" where
  "csv_line vs = join '','' (map cell vs)"

definition transactionsToCsv :: "(rat \<Rightarrow> string) \<Rightarrow> transaction list \<Rightarrow> string" where
  "transactionsToCsv num_text ts =
     join [CR, LF] (csv_line (map Text csv_header) # map (csv_line \<circ> csv_cells num_text) ts) @ [CR, LF]"

section \<open>Import\<close>

record parsedCsv =
  pc_headers :: "string list"
  pc_rows :: "string list list"
  pc_delimiter :: char
  pc_raggedLines :: "nat list"

datatype csvParseError = EmptyFile | NoColumns | TooManyRows nat

definition CANDIDATE_DELIMITERS :: string where
  "CANDIDATE_DELIMITERS = [CHR 0x2C, CHR 0x3B, CHR 0x09, CHR 0x7C]"

text \<open>\<open>text.split(/\r?\n/)\<close>.\<close>

fun split_lines :: "string \<Rightarrow> string list" where
  "split_lines [] = [[]]"
| "split_lines (c # s) =
     (if c = LF then [] # split_lines s
      else if c = CR \<and> s \<noteq> [] \<and> hd s = LF then [] # split_lines (tl s)
      else (case split_lines s of [] \<Rightarrow> [[c]] | w # ws \<Rightarrow> (c # w) # ws))"

text \<open>The two scanners carry the field or record read so far and whether a quote is open.\<close>

fun split_fields :: "char \<Rightarrow> bool \<Rightarrow> string \<Rightarrow> string \<Rightarrow> string list" where
  "split_fields delimiter inQuotes current [] = [current]"
| "split_fields delimiter inQuotes current (c # s) =
     (if c = DQ then
        (if inQuotes \<and> s \<noteq> [] \<and> hd s = DQ then split_fields delimiter inQuotes (current @ [DQ]) (tl s)
         else split_fields delimiter (\<not> inQuotes) current s)
      else if c = delimiter \<and> \<not> inQuotes then current # split_fields delimiter inQuotes [] s
      else split_fields delimiter inQuotes (current @ [c]) s)"

definition splitLine :: "string \<Rightarrow> char \<Rightarrow> string list" where
  "splitLine line delimiter = split_fields delimiter False [] line"

fun split_records :: "bool \<Rightarrow> string \<Rightarrow> string \<Rightarrow> string list" where
  "split_records inQuotes current [] = (if current = [] then [] else [current])"
| "split_records inQuotes current (c # s) =
     (if c = DQ then
        (if inQuotes \<and> s \<noteq> [] \<and> hd s = DQ then split_records inQuotes (current @ [DQ, DQ]) (tl s)
         else split_records (\<not> inQuotes) (current @ [c]) s)
      else if (c = LF \<or> c = CR) \<and> \<not> inQuotes then
        current # split_records inQuotes [] (if c = CR \<and> s \<noteq> [] \<and> hd s = LF then tl s else s)
      else split_records inQuotes (current @ [c]) s)"

definition toRecords :: "string \<Rightarrow> string list" where
  "toRecords text = split_records False [] text"

definition delimiter_step :: "string list \<Rightarrow> char \<times> int \<Rightarrow> char \<Rightarrow> char \<times> int" where
  "delimiter_step ls best delimiter =
     (let counts = map (\<lambda>line. length (splitLine line delimiter)) ls;
          columns = (case counts of [] \<Rightarrow> 1 | k # _ \<Rightarrow> k);
          consistent = length (filter (\<lambda>k. k = columns) counts);
          score = int consistent * 100 + int columns
      in if columns < 2 then best else if score > snd best then (delimiter, score) else best)"

definition detectDelimiter :: "string \<Rightarrow> char" where
  "detectDelimiter text =
     (let ls = take 10 (filter (\<lambda>line. trim line \<noteq> []) (split_lines text))
      in if ls = [] then CHR 0x2C
         else fst (foldl (delimiter_step ls) (CHR 0x2C, - 1) CANDIDATE_DELIMITERS))"

definition MAX_IMPORT_ROWS :: nat where
  "MAX_IMPORT_ROWS = 10000"

definition parseCsv :: "string \<Rightarrow> csvParseError + parsedCsv" where
  "parseCsv text =
     (case filter (\<lambda>line. trim line \<noteq> []) (toRecords text) of
        [] \<Rightarrow> Inl EmptyFile
      | first # body \<Rightarrow>
          let delimiter = detectDelimiter text;
              headers = map trim (splitLine first delimiter)
          in if length headers < 2 then Inl NoColumns
             else if length body > MAX_IMPORT_ROWS then Inl (TooManyRows (length body))
             else let rows = map (\<lambda>record. map trim (splitLine record delimiter)) body
                  in Inr \<lparr>pc_headers = headers, pc_rows = rows, pc_delimiter = delimiter,
                       pc_raggedLines = map (\<lambda>(i, fields). i + 2)
                         (filter (\<lambda>(i, fields). length fields \<noteq> length headers) (List.enumerate 0 rows))\<rparr>)"

section \<open>Quoted cells\<close>

lemma escape_Cons: "escape (c # s) = (if c = DQ then [DQ, DQ] else [c]) @ escape s"
  by (simp add: escape_def)

lemma escape_Nil [simp]: "escape [] = []"
  by (simp add: escape_def)

lemma split_fields_quoted:
  "rest = [] \<or> hd rest \<noteq> DQ \<Longrightarrow>
   split_fields d True cur (escape s @ DQ # rest) = split_fields d False (cur @ s) rest"
  by (induction s arbitrary: cur) (auto simp: escape_Cons)

lemma split_records_quoted:
  "rest = [] \<or> hd rest \<noteq> DQ \<Longrightarrow>
   split_records True cur (escape s @ DQ # rest) = split_records False (cur @ escape s @ [DQ]) rest"
  by (induction s arbitrary: cur) (auto simp: escape_Cons)

lemma split_fields_cell:
  "rest = [] \<or> hd rest \<noteq> DQ \<Longrightarrow>
   split_fields d False cur (cell v @ rest) = split_fields d False (cur @ cell_text v) rest"
  by (simp add: cell_def split_fields_quoted)

lemma split_records_cell:
  "rest = [] \<or> hd rest \<noteq> DQ \<Longrightarrow>
   split_records False cur (cell v @ rest) = split_records False (cur @ cell v) rest"
  by (simp add: cell_def split_records_quoted)

text \<open>A line of cells, followed by anything that does not open a quote.\<close>

lemma splitLine_cells:
  assumes "d \<noteq> DQ"
  shows "vs \<noteq> [] \<Longrightarrow> split_fields d False [] (join [d] (map cell vs)) = map cell_text vs"
proof (induction vs)
  case (Cons v vs)
  show ?case
  proof (cases vs)
    case Nil
    then show ?thesis using split_fields_cell [of "[]" d "[]" v] by simp
  next
    case (Cons w ws)
    with Cons.IH assms split_fields_cell [of "d # join [d] (map cell vs)" d "[]" v]
    show ?thesis by simp
  qed
qed simp

lemma split_records_cells:
  assumes "rest = [] \<or> hd rest \<noteq> DQ"
  shows "split_records False cur (csv_line vs @ rest) = split_records False (cur @ csv_line vs) rest"
proof (induction vs arbitrary: cur)
  case (Cons v vs)
  show ?case
  proof (cases vs)
    case Nil
    then show ?thesis using split_records_cell [OF assms] by (simp add: csv_line_def)
  next
    case (Cons w ws)
    have "split_records False cur (csv_line (v # vs) @ rest) =
        split_records False (cur @ cell v) (CHR 0x2C # csv_line vs @ rest)"
      using Cons split_records_cell [of "CHR 0x2C # csv_line vs @ rest" cur v] by (simp add: csv_line_def)
    also have "\<dots> = split_records False (cur @ cell v @ '','') (csv_line vs @ rest)" by simp
    finally show ?thesis using Cons.IH Cons by (simp add: csv_line_def)
  qed
qed (simp add: csv_line_def)

lemma toRecords_lines:
  "lines \<noteq> [] \<Longrightarrow> split_records False [] (join [CR, LF] (map csv_line lines) @ [CR, LF]) = map csv_line lines"
proof (induction lines)
  case (Cons vs lines)
  have end_line: "split_records False cur (CR # LF # rest) = cur # split_records False [] rest" for cur rest
    by simp
  show ?case
  proof (cases lines)
    case Nil
    then show ?thesis using split_records_cells [of "[CR, LF]" "[]" vs] by (simp add: end_line)
  next
    case (Cons ws lines')
    with Cons.IH split_records_cells [of "CR # LF # join [CR, LF] (map csv_line lines) @ [CR, LF]" "[]" vs]
    show ?thesis by (simp add: end_line)
  qed
qed simp

section \<open>An export reads back\<close>

lemma trim_Nil_iff: "trim s = [] \<longleftrightarrow> (\<forall>c \<in> set s. is_space c)"
proof -
  have "dropWhile is_space (rev (dropWhile is_space s)) = [] \<longleftrightarrow> (\<forall>c \<in> set (dropWhile is_space s). is_space c)"
    by (simp add: dropWhile_eq_Nil_conv)
  also have "\<dots> \<longleftrightarrow> (\<forall>c \<in> set s. is_space c)" by (induction s) auto
  finally show ?thesis by (simp add: trim_def trimEnd_def trimStart_def)
qed

lemma csv_line_not_blank: "vs \<noteq> [] \<Longrightarrow> trim (csv_line vs) \<noteq> []"
proof -
  assume "vs \<noteq> []"
  then have "DQ \<in> set (csv_line vs)" by (cases vs rule: list.exhaust; cases "tl vs") (auto simp: csv_line_def cell_def)
  moreover have "\<not> is_space DQ" by code_simp
  ultimately show ?thesis unfolding trim_Nil_iff by blast
qed

lemma split_lines_line: "set h \<inter> {CR, LF} = {} \<Longrightarrow> split_lines (h @ CR # LF # rest) = h # split_lines rest"
  by (induction h) auto

abbreviation header_line :: string where
  "header_line \<equiv> csv_line (map Text csv_header)"

lemma header_line_facts:
  "set header_line \<inter> {CR, LF} = {}" "length (splitLine header_line (CHR 0x2C)) = 18"
  "length (splitLine header_line (CHR 0x3B)) = 1" "length (splitLine header_line (CHR 0x09)) = 1"
  "length (splitLine header_line (CHR 0x7C)) = 1" "map trim (map cell_text (map Text csv_header)) = csv_header"
  by code_simp+

text \<open>The header decides: only the comma splits it, whatever the cells of the rows contain.\<close>

lemma detect_export: "detectDelimiter (header_line @ CR # LF # rest) = CHR 0x2C"
proof -
  let ?ls = "take 10 (filter (\<lambda>line. trim line \<noteq> []) (split_lines (header_line @ CR # LF # rest)))"
  have "map Text csv_header \<noteq> []" by (simp add: csv_header_def)
  then have "trim header_line \<noteq> []" by (rule csv_line_not_blank)
  then obtain ls where ls: "?ls = header_line # ls"
    by (simp add: split_lines_line [OF header_line_facts(1)])
  have comma: "\<exists>n \<ge> 0. delimiter_step (header_line # ls) (d, -1) (CHR 0x2C) = (CHR 0x2C, n)" for d
    by (auto simp: delimiter_step_def Let_def header_line_facts)
  have other: "delimiter_step (header_line # ls) best c = best" if "length (splitLine header_line c) = 1" for best c
    using that by (simp add: delimiter_step_def Let_def)
  show ?thesis
    using comma [of "CHR 0x2C"]
    by (auto simp: detectDelimiter_def Let_def ls CANDIDATE_DELIMITERS_def other header_line_facts)
qed

lemma length_csv_cells [simp]: "length (csv_cells num_text t) = 18"
  by (simp add: csv_cells_def)

lemma filter_enumerate_none:
  "(\<And>x. x \<in> set xs \<Longrightarrow> \<not> P x) \<Longrightarrow> filter (\<lambda>(i, x). P x) (List.enumerate n xs) = []"
  by (induction xs arbitrary: n) auto

text \<open>C10: An export of up to ten thousand transactions, read back by the import reader, gives the
  header and one row per transaction with every cell's text (trimmed), in order and none ragged,
  whatever quotes, commas, semicolons and line breaks the merchants and notes contain. No text
  cell of the file begins with a character a spreadsheet takes for a formula.\<close>

theorem csv_round_trip:
  assumes "length ts \<le> MAX_IMPORT_ROWS"
  shows "parseCsv (transactionsToCsv num_text ts) =
      Inr \<lparr>pc_headers = csv_header, pc_rows = map (\<lambda>t. map (trim \<circ> cell_text) (csv_cells num_text t)) ts,
        pc_delimiter = CHR 0x2C, pc_raggedLines = []\<rparr> \<and>
    (cell_text (Text s) = [] \<or> hd (cell_text (Text s)) \<notin> set ''=+@-'')"
proof
  let ?text = "transactionsToCsv num_text ts" and ?rows = "map (csv_cells num_text) ts"
  have lines: "?text = join [CR, LF] (map csv_line (map Text csv_header # ?rows)) @ [CR, LF]"
    by (simp add: transactionsToCsv_def o_def)
  have "\<exists>rest. ?text = header_line @ CR # LF # rest"
    by (cases ts) (simp_all add: transactionsToCsv_def)
  then have delimiter: "detectDelimiter ?text = CHR 0x2C" using detect_export by auto
  have records: "toRecords ?text = map csv_line (map Text csv_header # ?rows)"
    unfolding toRecords_def lines by (rule toRecords_lines) simp
  have "csv_cells num_text t \<noteq> []" for t by (simp add: csv_cells_def)
  then have kept: "filter (\<lambda>line. trim line \<noteq> []) (toRecords ?text) = header_line # map csv_line ?rows"
    using csv_line_not_blank unfolding records by (auto simp: csv_header_def intro!: filter_True)
  have fields: "splitLine (csv_line vs) (CHR 0x2C) = map cell_text vs" if "vs \<noteq> []" for vs
    using splitLine_cells [OF _ that] by (simp add: splitLine_def csv_line_def)
  have rows: "map (\<lambda>record. map trim (splitLine record (CHR 0x2C))) (map csv_line ?rows) =
      map (\<lambda>t. map (trim \<circ> cell_text) (csv_cells num_text t)) ts"
    by (simp add: fields csv_cells_def)
  have header: "map trim (splitLine header_line (CHR 0x2C)) = csv_header"
    using fields [of "map Text csv_header"] header_line_facts(6) by (simp add: csv_header_def)
  have len: "length csv_header = 18" by code_simp
  then have even: "filter (\<lambda>(i, fields). length fields \<noteq> length csv_header)
      (List.enumerate 0 (map (\<lambda>t. map (trim \<circ> cell_text) (csv_cells num_text t)) ts)) = []"
    by (intro filter_enumerate_none) auto
  have few: "\<not> length (map csv_line ?rows) > MAX_IMPORT_ROWS" using assms by simp
  show "parseCsv ?text = Inr \<lparr>pc_headers = csv_header,
      pc_rows = map (\<lambda>t. map (trim \<circ> cell_text) (csv_cells num_text t)) ts,
      pc_delimiter = CHR 0x2C, pc_raggedLines = []\<rparr>"
    unfolding parseCsv_def kept delimiter list.case Let_def header rows if_not_P [OF few] even using len by simp
qed (auto simp: formula_guard_def)

definition demo_txn :: transaction where
  "demo_txn = \<lparr>tx_id = ''t1'', tx_accountId = ''a1'', tx_providerTxnId = ''p1'', tx_postedAt = ''2026-03-01'',
     tx_amount = -450, tx_currency = ''USD'', tx_rawDescriptor = ''SAY '' @ DQ # ''HI'' @ [DQ, CHR 0x2C, LF, CHR 0x78],
     tx_normalizedDescriptor = ''say'', tx_merchant = Some ''=cmd()'', tx_merchantOverride = None,
     tx_note = None, tx_excludedFromAnalytics = None, tx_categorySlug = ''coffee'',
     tx_categorySource = Lexicon, tx_categoryConfidence = 1, tx_isRecurring = False,
     tx_recurringOverride = None, tx_duplicateReported = None, tx_pending = False,
     tx_tags = Some [''a'', ''b''], tx_importBatchId = None\<rparr>"

theorem csv_round_trip_witness:
  "parseCsv (transactionsToCsv (\<lambda>q. ''1'') [demo_txn]) =
     Inr \<lparr>pc_headers = csv_header, pc_rows = [map (trim \<circ> cell_text) (csv_cells (\<lambda>q. ''1'') demo_txn)],
       pc_delimiter = CHR 0x2C, pc_raggedLines = []\<rparr> \<and>
   map (trim \<circ> cell_text) (csv_cells (\<lambda>q. ''1'') demo_txn) ! 6 = CHR 0x27 # ''=cmd()''"
proof -
  have "map (trim \<circ> cell_text) (csv_cells (\<lambda>q. ''1'') demo_txn) ! 6 = CHR 0x27 # ''=cmd()''" by code_simp
  with csv_round_trip [of "[demo_txn]" "\<lambda>q. ''1''"] show ?thesis by (simp add: MAX_IMPORT_ROWS_def)
qed

text \<open>Line numbers count records, not lines: below a blank line, or a field that contains a line
  break, the number reported for a ragged row is not the number of its line in the file.\<close>

lemma ragged_line_is_not_file_line:
  "split_lines (''a,b'' @ [LF, LF] @ ''x'') ! (3 - 1) = ''x'' \<and>
   (case parseCsv (''a,b'' @ [LF, LF] @ ''x'') of Inl e \<Rightarrow> False | Inr p \<Rightarrow> pc_raggedLines p = [2])"
  by code_simp

end
