(* ===== verification/RowStore.thy ===== *)
theory RowStore
  imports LedgerTypes
begin

text \<open>
  What the per-user stores of \<open>infra/in-memory-store.ts\<close> share: a \<open>Map\<close> from users to rows
  (\<open>bucket\<close>), and in it the idioms find, replace-or-push and splice by identifier. The locale
  \<open>row_store\<close> states the contract of such a store; each store of \<open>LedgerStore\<close> is an
  interpretation. Reading a missing bucket creates an empty one in the code, which no operation
  can tell from a missing one.
\<close>

section \<open>Buckets\<close>

type_synonym 'a buckets = "(string, 'a list) jsmap"

definition bucket :: "'a buckets \<Rightarrow> string \<Rightarrow> 'a list" where
  "bucket m u = get_or m u []"

text \<open>\<open>findIndex\<close>, then replace in place or push.\<close>

definition put_row :: "('a \<Rightarrow> string) \<Rightarrow> 'a buckets \<Rightarrow> string \<Rightarrow> 'a \<Rightarrow> 'a buckets" where
  "put_row key m u x =
     (let rows = bucket m u
      in map_set u (if \<exists>r \<in> set rows. key r = key x then update_first (\<lambda>r. key r = key x) (\<lambda>_. x) rows
                    else rows @ [x]) m)"

text \<open>\<open>findIndex\<close>, then \<open>splice(index, 1)\<close>.\<close>

definition drop_row :: "('a \<Rightarrow> string) \<Rightarrow> 'a buckets \<Rightarrow> string \<Rightarrow> string \<Rightarrow> bool \<times> 'a buckets" where
  "drop_row key m u i =
     (let rows = bucket m u
      in if \<exists>r \<in> set rows. key r = i then (True, map_set u (remove_first (\<lambda>r. key r = i) rows) m)
         else (False, m))"

definition find_row :: "('a \<Rightarrow> string) \<Rightarrow> 'a buckets \<Rightarrow> string \<Rightarrow> string \<Rightarrow> 'a option" where
  "find_row key m u i = find (\<lambda>r. key r = i) (bucket m u)"

definition rows_inv :: "('a \<Rightarrow> string) \<Rightarrow> 'a buckets \<Rightarrow> bool" where
  "rows_inv key m \<longleftrightarrow> (\<forall>u. distinct (map key (bucket m u)))"

lemma bucket_map_set [simp]: "bucket (map_set u rows m) v = (if v = u then rows else bucket m v)"
  by (simp add: bucket_def)

lemma bucket_Nil [simp]: "bucket [] u = []"
  by (simp add: bucket_def)

lemma find_update_first:
  "\<exists>r \<in> set rows. P r \<Longrightarrow> P x \<Longrightarrow> find P (update_first P (\<lambda>_. x) rows) = Some x"
  by (induction rows) auto

lemma find_update_first_other:
  "(\<And>r. P r \<Longrightarrow> \<not> Q r) \<Longrightarrow> (\<And>r. P r \<Longrightarrow> \<not> Q (f r)) \<Longrightarrow> find Q (update_first P f rows) = find Q rows"
  by (induction rows) auto

lemma find_append: "find P (xs @ ys) = (case find P xs of None \<Rightarrow> find P ys | Some x \<Rightarrow> Some x)"
  by (induction xs) auto

lemma find_None_absent [simp]: "\<not> (\<exists>r \<in> set xs. P r) \<Longrightarrow> find P xs = None"
  by (simp add: find_None_iff)

lemma find_key_remove:
  "distinct (map key xs) \<Longrightarrow>
   find (\<lambda>r. key r = j) (remove_first (\<lambda>r. key r = i) xs) = (if j = i then None else find (\<lambda>r. key r = j) xs)"
  by (induction xs) (auto simp: find_None_iff image_iff split: if_splits)

lemma set_remove_first: "set (remove_first P xs) \<subseteq> set xs"
  by (induction xs) auto

lemma distinct_remove_first: "distinct (map key xs) \<Longrightarrow> distinct (map key (remove_first P xs))"
proof (induction xs)
  case (Cons x xs)
  then show ?case using set_remove_first [of P xs] by auto
qed simp

lemma distinct_update_first:
  "(\<And>r. P r \<Longrightarrow> key (f r) = key r) \<Longrightarrow> distinct (map key (update_first P f xs)) = distinct (map key xs)"
  using map_update_first_frame [of xs P key f] by simp

lemma find_put_row:
  "find_row key (put_row key m u x) v i = (if v = u \<and> i = key x then Some x else find_row key m v i)"
proof (cases "v = u")
  case True
  show ?thesis
  proof (cases "i = key x")
    case True
    then show ?thesis
      using \<open>v = u\<close> find_update_first [of "bucket m u" "\<lambda>r. key r = key x" x]
      by (simp add: find_row_def put_row_def Let_def find_append)
  next
    case False
    then show ?thesis
      using \<open>v = u\<close> find_update_first_other [of "\<lambda>r. key r = key x" "\<lambda>r. key r = i" "\<lambda>_. x" "bucket m u"]
      by (auto simp: find_row_def put_row_def Let_def find_append split: option.splits)
  qed
qed (simp add: find_row_def put_row_def Let_def)

lemma rows_inv_put: "rows_inv key m \<Longrightarrow> rows_inv key (put_row key m u x)"
  by (auto simp: rows_inv_def put_row_def Let_def distinct_update_first)

lemma drop_row_facts:
  assumes "rows_inv key m"
  shows "rows_inv key (snd (drop_row key m u i)) \<and>
    fst (drop_row key m u i) = (find_row key m u i \<noteq> None) \<and>
    find_row key (snd (drop_row key m u i)) v j = (if v = u \<and> j = i then None else find_row key m v j)"
proof -
  have d: "distinct (map key (bucket m v))" for v using assms by (simp add: rows_inv_def)
  have found: "find_row key m u i \<noteq> None \<longleftrightarrow> (\<exists>r \<in> set (bucket m u). key r = i)"
    by (auto simp: find_row_def find_None_iff)
  have "rows_inv key (snd (drop_row key m u i))"
    using assms by (auto simp: drop_row_def Let_def rows_inv_def distinct_remove_first)
  moreover have "find_row key (snd (drop_row key m u i)) v j = (if v = u \<and> j = i then None else find_row key m v j)"
    using found by (auto simp: drop_row_def Let_def find_row_def find_key_remove [OF d])
  ultimately show ?thesis using found by (simp add: drop_row_def Let_def)
qed

section \<open>The contract\<close>

locale row_store =
  fixes inv :: "'s \<Rightarrow> bool" and key :: "'a \<Rightarrow> string"
    and get_op :: "'s \<Rightarrow> string \<Rightarrow> string \<Rightarrow> 'a option"
    and put_op :: "'s \<Rightarrow> string \<Rightarrow> 'a \<Rightarrow> 's"
    and remove_op :: "'s \<Rightarrow> string \<Rightarrow> string \<Rightarrow> bool \<times> 's"
  assumes get_key: "inv s \<Longrightarrow> get_op s u i = Some x \<Longrightarrow> key x = i"
    and put: "inv s \<Longrightarrow> inv (put_op s u x) \<and>
      get_op (put_op s u x) v i = (if v = u \<and> i = key x then Some x else get_op s v i)"
    and remove: "inv s \<Longrightarrow> inv (snd (remove_op s u i)) \<and>
      fst (remove_op s u i) = (get_op s u i \<noteq> None) \<and>
      get_op (snd (remove_op s u i)) v j = (if v = u \<and> j = i then None else get_op s v j)"
begin

text \<open>No operation on one user's rows shows in another's.\<close>

lemma isolation:
  assumes "inv s" and "v \<noteq> u"
  shows "get_op (put_op s u x) v = get_op s v" and "get_op (snd (remove_op s u i)) v = get_op s v"
  using put [OF assms(1)] remove [OF assms(1)] assms(2) by (auto intro!: ext)

lemma remove_put:
  assumes "inv s" and "get_op s u (key x) = None"
  shows "get_op (snd (remove_op (put_op s u x) u (key x))) v i = get_op s v i \<and>
    fst (remove_op (put_op s u x) u (key x))"
  using put [OF assms(1)] remove [of "put_op s u x" u "key x"] assms by auto

lemma remove_twice:
  assumes "inv s"
  shows "\<not> fst (remove_op (snd (remove_op s u i)) u i)"
  using remove [OF assms, of u i] remove [of "snd (remove_op s u i)" u i] by auto

end

lemma row_store_rows: "row_store (rows_inv key) key (find_row key) (put_row key) (drop_row key)"
proof
  show "rows_inv key m \<Longrightarrow> find_row key m u i = Some x \<Longrightarrow> key x = i" for m u i x
    by (auto simp: find_row_def find_Some_iff)
next
  show "rows_inv key m \<Longrightarrow> rows_inv key (put_row key m u x) \<and>
      find_row key (put_row key m u x) v i = (if v = u \<and> i = key x then Some x else find_row key m v i)"
    for m u x v i by (simp add: rows_inv_put find_put_row)
next
  show "rows_inv key m \<Longrightarrow> rows_inv key (snd (drop_row key m u i)) \<and>
      fst (drop_row key m u i) = (find_row key m u i \<noteq> None) \<and>
      find_row key (snd (drop_row key m u i)) v j = (if v = u \<and> j = i then None else find_row key m v j)"
    for m u i v j by (rule drop_row_facts)
qed

end
