(* ===== verification/LedgerStore.thy ===== *)
theory LedgerStore
  imports RowStore
begin

text \<open>
  The ledger's in-memory stores (\<open>infra/in-memory-store.ts\<close>): accounts and net-worth history,
  transactions, budgets, goals, notifications and rules. \<open>lc\<close> is the host's \<open>localeCompare\<close>.
\<close>

section \<open>Accounts\<close>

record accountState =
  as_accounts :: "account buckets"
  as_snapshots :: "netWorthSnapshot buckets"

definition acc_list :: "accountState \<Rightarrow> string \<Rightarrow> account list" where
  "acc_list s u = bucket (as_accounts s) u"

definition acc_get :: "accountState \<Rightarrow> string \<Rightarrow> string \<Rightarrow> account option" where
  "acc_get s u i = find_row ac_id (as_accounts s) u i"

definition acc_upsertMany :: "accountState \<Rightarrow> string \<Rightarrow> account list \<Rightarrow> accountState" where
  "acc_upsertMany s u accs = s\<lparr>as_accounts := foldl (\<lambda>m a. put_row ac_id m u a) (as_accounts s) accs\<rparr>"

definition acc_remove :: "accountState \<Rightarrow> string \<Rightarrow> string \<Rightarrow> bool \<times> accountState" where
  "acc_remove s u i = (case drop_row ac_id (as_accounts s) u i of (ok, m) \<Rightarrow> (ok, s\<lparr>as_accounts := m\<rparr>))"

definition count_balance :: "(string, int \<times> int) jsmap \<Rightarrow> account \<Rightarrow> (string, int \<times> int) jsmap" where
  "count_balance totals a =
     (let currency = toUpperCase (ac_currency a); b = ac_balanceCurrent a
      in case get_or totals currency (0, 0) of (assets, debts) \<Rightarrow>
           map_set currency (if b \<ge> 0 then (assets + b, debts) else (assets, debts + \<bar>b\<bar>)) totals)"

definition netWorthByCurrency ::
  "(string \<Rightarrow> string \<Rightarrow> int) \<Rightarrow> account list \<Rightarrow> string \<Rightarrow> netWorthSnapshot list" where
  "netWorthByCurrency lc accs recordedOn =
     map (\<lambda>(currency, assets, debts). \<lparr>nw_recordedOn = recordedOn, nw_currency = currency,
           nw_assets = assets, nw_debts = debts, nw_netPosition = assets - debts\<rparr>)
       (js_sort (\<lambda>l r. lc (fst l) (fst r)) (foldl count_balance [] accs))"

definition recordNetWorthSnapshot :: "(string \<Rightarrow> string \<Rightarrow> int) \<Rightarrow> accountState \<Rightarrow> string \<Rightarrow> string
    \<Rightarrow> netWorthSnapshot list \<times> accountState" where
  "recordNetWorthSnapshot lc s u recordedOn =
     (let totals = netWorthByCurrency lc (bucket (as_accounts s) u) recordedOn;
          kept = filter (\<lambda>row. nw_recordedOn row \<noteq> recordedOn) (bucket (as_snapshots s) u);
          history = js_sort (cmp_or (\<lambda>a b. lc (nw_recordedOn a) (nw_recordedOn b))
            (\<lambda>a b. lc (nw_currency a) (nw_currency b))) (kept @ totals)
      in (totals, s\<lparr>as_snapshots := map_set u history (as_snapshots s)\<rparr>))"

definition listNetWorthHistory :: "accountState \<Rightarrow> string \<Rightarrow> nat \<Rightarrow> netWorthSnapshot list" where
  "listNetWorthHistory s u limit = (let history = bucket (as_snapshots s) u
     in drop (length history - limit) history)"

definition acc_purgeUser :: "accountState \<Rightarrow> string \<Rightarrow> accountState" where
  "acc_purgeUser s u =
     s\<lparr>as_accounts := map_delete u (as_accounts s), as_snapshots := map_delete u (as_snapshots s)\<rparr>"

section \<open>Transactions\<close>

record transactionQuery =
  tq_accountId :: "string option"
  tq_categorySlug :: "string option"
  tq_categoryKind :: "categoryKind option"
  tq_range :: "dateRange option"
  tq_search :: "string option"
  tq_pending :: "bool option"
  tq_recurring :: "bool option"
  tq_amountMin :: "int option"
  tq_amountMax :: "int option"
  tq_tag :: "string option"
  tq_before :: "(string \<times> string) option"
  tq_limit :: "nat option"

type_synonym transactionStore = "transaction buckets"

definition has_text :: "string \<Rightarrow> string option \<Rightarrow> bool" where
  "has_text needle v = (case v of None \<Rightarrow> False | Some s \<Rightarrow> contains (toLowerCase s) needle)"

definition if_given :: "'a option \<Rightarrow> ('a \<Rightarrow> bool) \<Rightarrow> bool" where
  "if_given v p = (case v of None \<Rightarrow> True | Some x \<Rightarrow> p x)"

definition if_text :: "string option \<Rightarrow> (string \<Rightarrow> bool) \<Rightarrow> bool" where
  "if_text v p = (if truthy v then p (the v) else True)"

text \<open>The filters of \<open>list\<close> but the cursor, in the code's order.\<close>

definition matches :: "transactionQuery \<Rightarrow> transaction \<Rightarrow> bool" where
  "matches q t \<longleftrightarrow>
     if_text (tq_accountId q) (\<lambda>a. tx_accountId t = a) \<and>
     if_text (tq_categorySlug q) (\<lambda>c. tx_categorySlug t = c) \<and>
     if_given (tq_categoryKind q) (\<lambda>k. map_option cd_kind (getCategory (tx_categorySlug t)) = Some k) \<and>
     if_given (tq_range q) (\<lambda>r. isWithin (tx_postedAt t) r) \<and>
     if_text (tq_search q) (\<lambda>s. let needle = toLowerCase s in
        contains (tx_normalizedDescriptor t) needle \<or> contains (toLowerCase (tx_rawDescriptor t)) needle \<or>
        has_text needle (tx_merchant t) \<or> has_text needle (tx_merchantOverride t) \<or> has_text needle (tx_note t)) \<and>
     if_given (tq_pending q) (\<lambda>b. tx_pending t = b) \<and>
     if_given (tq_recurring q) (\<lambda>b. tx_isRecurring t = b) \<and>
     if_given (tq_amountMin q) (\<lambda>a. \<bar>tx_amount t\<bar> \<ge> a) \<and>
     if_given (tq_amountMax q) (\<lambda>a. \<bar>tx_amount t\<bar> \<le> a) \<and>
     if_text (tq_tag q) (\<lambda>tag. let wanted = toLowerCase (trim tag) in
        (case tx_tags t of None \<Rightarrow> False | Some ts \<Rightarrow> wanted \<in> set ts))"

definition before_cursor :: "(string \<times> string) option \<Rightarrow> transaction \<Rightarrow> bool" where
  "before_cursor cursor t = if_given cursor (\<lambda>(postedAt, i).
     tx_postedAt t < postedAt \<or> (tx_postedAt t = postedAt \<and> tx_id t < i))"

definition newest_first :: "(string \<Rightarrow> string \<Rightarrow> int) \<Rightarrow> transaction \<Rightarrow> transaction \<Rightarrow> int" where
  "newest_first lc = cmp_or (\<lambda>a b. lc (tx_postedAt b) (tx_postedAt a)) (\<lambda>a b. lc (tx_id b) (tx_id a))"

definition txn_list :: "(string \<Rightarrow> string \<Rightarrow> int) \<Rightarrow> transactionStore \<Rightarrow> string \<Rightarrow> transactionQuery
    \<Rightarrow> transaction list" where
  "txn_list lc s u q =
     (let rows = js_sort (newest_first lc)
        (filter (\<lambda>t. matches q t \<and> before_cursor (tq_before q) t) (bucket s u))
      in case tq_limit q of None \<Rightarrow> rows | Some n \<Rightarrow> if n = 0 then rows else take n rows)"

definition txn_get :: "transactionStore \<Rightarrow> string \<Rightarrow> string \<Rightarrow> transaction option" where
  "txn_get s u i = find_row tx_id s u i"

definition tx_key :: "transaction \<Rightarrow> string \<times> string" where
  "tx_key t = (tx_accountId t, tx_providerTxnId t)"

definition keeps_user_category :: "transaction \<Rightarrow> bool" where
  "keeps_user_category t \<longleftrightarrow> tx_categorySource t = UserManual \<or> tx_categorySource t = UserRule"

text \<open>A row the provider sends again, merged with the row on record.\<close>

definition resync :: "transaction \<Rightarrow> transaction \<Rightarrow> transaction" where
  "resync existing t =
     (let base = t\<lparr>tx_id := tx_id existing, tx_recurringOverride := tx_recurringOverride existing,
            tx_duplicateReported := tx_duplicateReported existing, tx_tags := tx_tags existing,
            tx_isRecurring := (case tx_recurringOverride existing of None \<Rightarrow> tx_isRecurring t | Some b \<Rightarrow> b)\<rparr>
      in if keeps_user_category existing then
           base\<lparr>tx_merchantOverride := tx_merchantOverride existing, tx_note := tx_note existing,
             tx_excludedFromAnalytics := tx_excludedFromAnalytics existing,
             tx_categorySlug := tx_categorySlug existing, tx_categorySource := tx_categorySource existing,
             tx_categoryConfidence := tx_categoryConfidence existing\<rparr>
         else base)"

definition upsert_row :: "transaction list \<Rightarrow> transaction \<Rightarrow> transaction list" where
  "upsert_row rows t =
     (if \<exists>r \<in> set rows. tx_key r = tx_key t
      then update_first (\<lambda>r. tx_key r = tx_key t) (\<lambda>r. resync r t) rows else rows @ [t])"

definition upsert_count :: "nat \<times> nat \<times> transaction list \<Rightarrow> transaction \<Rightarrow> nat \<times> nat \<times> transaction list" where
  "upsert_count acc t = (case acc of (inserted, updated, rows) \<Rightarrow>
     if \<exists>r \<in> set rows. tx_key r = tx_key t then (inserted, updated + 1, upsert_row rows t)
     else (inserted + 1, updated, upsert_row rows t))"

definition txn_upsertMany :: "transactionStore \<Rightarrow> string \<Rightarrow> transaction list \<Rightarrow> (nat \<times> nat) \<times> transactionStore" where
  "txn_upsertMany s u ts = (case foldl upsert_count (0, 0, bucket s u) ts of
     (inserted, updated, rows) \<Rightarrow> ((inserted, updated), map_set u rows s))"

definition txn_update :: "transactionStore \<Rightarrow> string \<Rightarrow> string \<Rightarrow> (transaction \<Rightarrow> transaction)
    \<Rightarrow> transaction option \<times> transactionStore" where
  "txn_update s u i patch = (let rows = bucket s u; f = (\<lambda>t. (patch t)\<lparr>tx_id := i\<rparr>)
     in case find (\<lambda>t. tx_id t = i) rows of
          None \<Rightarrow> (None, s)
        | Some t \<Rightarrow> (Some (f t), map_set u (update_first (\<lambda>t. tx_id t = i) f rows) s))"

definition remove_where :: "transactionStore \<Rightarrow> string \<Rightarrow> (transaction \<Rightarrow> bool) \<Rightarrow> nat \<times> transactionStore" where
  "remove_where s u p = (let rows = bucket s u; kept = filter (\<lambda>t. \<not> p t) rows
     in (length rows - length kept, map_set u kept s))"

definition txn_removeByProviderIds :: "transactionStore \<Rightarrow> string \<Rightarrow> string list \<Rightarrow> nat \<times> transactionStore" where
  "txn_removeByProviderIds s u ids =
     (if ids = [] then (0, s) else remove_where s u (\<lambda>t. tx_providerTxnId t \<in> set ids))"

definition txn_removeByImportBatch :: "transactionStore \<Rightarrow> string \<Rightarrow> string \<Rightarrow> nat \<times> transactionStore" where
  "txn_removeByImportBatch s u b = remove_where s u (\<lambda>t. tx_importBatchId t = Some b)"

definition txn_purgeUser :: "transactionStore \<Rightarrow> string \<Rightarrow> transactionStore" where
  "txn_purgeUser s u = map_delete u s"

section \<open>Budgets, rules, goals\<close>

definition budget_get :: "budget buckets \<Rightarrow> string \<Rightarrow> string \<Rightarrow> budget option" where
  "budget_get s u i = find_row bu_id s u i"

definition budget_create :: "budget buckets \<Rightarrow> string \<Rightarrow> budget \<Rightarrow> budget buckets" where
  "budget_create s u b = put_row bu_id s u b"

definition budget_remove :: "budget buckets \<Rightarrow> string \<Rightarrow> string \<Rightarrow> bool \<times> budget buckets" where
  "budget_remove s u i = drop_row bu_id s u i"

definition rule_order :: "(string \<Rightarrow> string \<Rightarrow> int) \<Rightarrow> categorizationRule \<Rightarrow> categorizationRule \<Rightarrow> int" where
  "rule_order lc = cmp_or (\<lambda>a b. ru_priority a - ru_priority b) (\<lambda>a b. lc (ru_id a) (ru_id b))"

definition rule_list :: "(string \<Rightarrow> string \<Rightarrow> int) \<Rightarrow> categorizationRule buckets \<Rightarrow> string
    \<Rightarrow> categorizationRule list" where
  "rule_list lc s u = js_sort (rule_order lc) (bucket s u)"

definition rule_create :: "categorizationRule buckets \<Rightarrow> string \<Rightarrow> categorizationRule \<Rightarrow> categorizationRule buckets" where
  "rule_create s u r = put_row ru_id s u r"

definition rule_remove :: "categorizationRule buckets \<Rightarrow> string \<Rightarrow> string \<Rightarrow> bool \<times> categorizationRule buckets" where
  "rule_remove s u i = drop_row ru_id s u i"

record goalState =
  gs_goals :: "savingsGoal buckets"
  gs_contributions :: "goalContribution buckets"

definition goal_list :: "(string \<Rightarrow> string \<Rightarrow> int) \<Rightarrow> goalState \<Rightarrow> string \<Rightarrow> savingsGoal list" where
  "goal_list lc s u = js_sort (\<lambda>a b. lc (go_createdAt a) (go_createdAt b)) (bucket (gs_goals s) u)"

definition goal_get :: "goalState \<Rightarrow> string \<Rightarrow> string \<Rightarrow> savingsGoal option" where
  "goal_get s u i = find_row go_id (gs_goals s) u i"

definition goal_create :: "goalState \<Rightarrow> string \<Rightarrow> savingsGoal \<Rightarrow> goalState" where
  "goal_create s u g = s\<lparr>gs_goals := put_row go_id (gs_goals s) u g\<rparr>"

definition goal_remove :: "goalState \<Rightarrow> string \<Rightarrow> string \<Rightarrow> bool \<times> goalState" where
  "goal_remove s u i = (case drop_row go_id (gs_goals s) u i of
     (False, _) \<Rightarrow> (False, s)
   | (True, goals) \<Rightarrow> (True, s\<lparr>gs_goals := goals, gs_contributions :=
       map_set u (filter (\<lambda>c. gc_goalId c \<noteq> i) (bucket (gs_contributions s) u)) (gs_contributions s)\<rparr>))"

definition listContributions :: "(string \<Rightarrow> string \<Rightarrow> int) \<Rightarrow> goalState \<Rightarrow> string \<Rightarrow> string
    \<Rightarrow> goalContribution list" where
  "listContributions lc s u i =
     js_sort (cmp_or (\<lambda>a b. lc (gc_contributedAt a) (gc_contributedAt b)) (\<lambda>a b. lc (gc_id a) (gc_id b)))
       (filter (\<lambda>c. gc_goalId c = i) (bucket (gs_contributions s) u))"

text \<open>\<open>addContribution\<close>: None is the error that the goal does not exist.\<close>

definition addContribution :: "goalState \<Rightarrow> string \<Rightarrow> goalContribution \<Rightarrow> goalState option" where
  "addContribution s u c =
     (if goal_get s u (gc_goalId c) = None then None
      else Some (s\<lparr>gs_contributions :=
        map_set u (bucket (gs_contributions s) u @ [c]) (gs_contributions s)\<rparr>))"

definition goal_purgeUser :: "goalState \<Rightarrow> string \<Rightarrow> goalState" where
  "goal_purgeUser s u =
     s\<lparr>gs_goals := map_delete u (gs_goals s), gs_contributions := map_delete u (gs_contributions s)\<rparr>"

section \<open>Notifications\<close>

definition DEFAULT_NOTIFICATION_PREFERENCES :: notificationPreferences where
  "DEFAULT_NOTIFICATION_PREFERENCES = \<lparr>np_budget = True, np_bills = True, np_creditUtilization = True,
     np_subscriptions = True, np_lowBalance = True, np_unusualTransactions = True, np_bankSync = True,
     np_security = True\<rparr>"

record notificationState =
  ns_rows :: "userNotification buckets"
  ns_preferences :: "(string, notificationPreferences) jsmap"

definition notif_list :: "(string \<Rightarrow> string \<Rightarrow> int) \<Rightarrow> notificationState \<Rightarrow> string \<Rightarrow> userNotification list" where
  "notif_list lc s u = js_sort (\<lambda>a b. lc (no_createdAt b) (no_createdAt a)) (bucket (ns_rows s) u)"

definition notif_upsert :: "notificationState \<Rightarrow> string \<Rightarrow> userNotification \<Rightarrow> bool \<times> notificationState" where
  "notif_upsert s u n =
     (if \<exists>row \<in> set (bucket (ns_rows s) u). no_dedupeKey row = no_dedupeKey n then (False, s)
      else (True, s\<lparr>ns_rows := map_set u (bucket (ns_rows s) u @ [n]) (ns_rows s)\<rparr>))"

definition notif_markRead :: "notificationState \<Rightarrow> string \<Rightarrow> string \<Rightarrow> string \<Rightarrow> bool \<times> notificationState" where
  "notif_markRead s u i now =
     (if \<not> (\<exists>row \<in> set (bucket (ns_rows s) u). no_id row = i) then (False, s)
      else (True, s\<lparr>ns_rows := map_set u (update_first (\<lambda>row. no_id row = i)
        (\<lambda>row. if no_readAt row = None then row\<lparr>no_readAt := Some now\<rparr> else row)
        (bucket (ns_rows s) u)) (ns_rows s)\<rparr>))"

definition getPreferences :: "notificationState \<Rightarrow> string \<Rightarrow> notificationPreferences" where
  "getPreferences s u = get_or (ns_preferences s) u DEFAULT_NOTIFICATION_PREFERENCES"

definition updatePreferences :: "notificationState \<Rightarrow> string \<Rightarrow> notificationPreferences \<Rightarrow> notificationState" where
  "updatePreferences s u p = s\<lparr>ns_preferences := map_set u p (ns_preferences s)\<rparr>"

definition notif_purgeUser :: "notificationState \<Rightarrow> string \<Rightarrow> notificationState" where
  "notif_purgeUser s u =
     s\<lparr>ns_rows := map_delete u (ns_rows s), ns_preferences := map_delete u (ns_preferences s)\<rparr>"

section \<open>The stores keep the contract\<close>

interpretation budgets: row_store "rows_inv bu_id" bu_id budget_get budget_create budget_remove
  using row_store_rows [of bu_id] unfolding budget_get_def budget_create_def budget_remove_def .

interpretation rules: row_store "rows_inv ru_id" ru_id "find_row ru_id" rule_create rule_remove
  using row_store_rows [of ru_id] unfolding rule_create_def rule_remove_def .

interpretation accounts: row_store "\<lambda>s. rows_inv ac_id (as_accounts s)" ac_id acc_get
    "\<lambda>s u a. acc_upsertMany s u [a]" acc_remove
proof
  note rs = row_store_rows [of ac_id]
  show "rows_inv ac_id (as_accounts s) \<Longrightarrow> acc_get s u i = Some x \<Longrightarrow> ac_id x = i" for s u i x
    unfolding acc_get_def by (rule row_store.get_key [OF rs])
  show "rows_inv ac_id (as_accounts s) \<Longrightarrow> rows_inv ac_id (as_accounts (acc_upsertMany s u [x])) \<and>
      acc_get (acc_upsertMany s u [x]) v i = (if v = u \<and> i = ac_id x then Some x else acc_get s v i)"
    for s u x v i by (simp add: acc_get_def acc_upsertMany_def rows_inv_put find_put_row)
  show "rows_inv ac_id (as_accounts s) \<Longrightarrow> rows_inv ac_id (as_accounts (snd (acc_remove s u i))) \<and>
      fst (acc_remove s u i) = (acc_get s u i \<noteq> None) \<and>
      acc_get (snd (acc_remove s u i)) v j = (if v = u \<and> j = i then None else acc_get s v j)"
    for s u i v j using row_store.remove [OF rs, of "as_accounts s" u i v j]
    by (cases "drop_row ac_id (as_accounts s) u i") (simp add: acc_get_def acc_remove_def)
qed

interpretation goals: row_store "\<lambda>s. rows_inv go_id (gs_goals s)" go_id goal_get goal_create goal_remove
proof
  note rs = row_store_rows [of go_id]
  show "rows_inv go_id (gs_goals s) \<Longrightarrow> goal_get s u i = Some x \<Longrightarrow> go_id x = i" for s u i x
    unfolding goal_get_def by (rule row_store.get_key [OF rs])
  show "rows_inv go_id (gs_goals s) \<Longrightarrow> rows_inv go_id (gs_goals (goal_create s u x)) \<and>
      goal_get (goal_create s u x) v i = (if v = u \<and> i = go_id x then Some x else goal_get s v i)"
    for s u x v i by (simp add: goal_get_def goal_create_def rows_inv_put find_put_row)
  show "rows_inv go_id (gs_goals s) \<Longrightarrow> rows_inv go_id (gs_goals (snd (goal_remove s u i))) \<and>
      fst (goal_remove s u i) = (goal_get s u i \<noteq> None) \<and>
      goal_get (snd (goal_remove s u i)) v j = (if v = u \<and> j = i then None else goal_get s v j)"
    for s u i v j using row_store.remove [OF rs, of "gs_goals s" u i v j]
    by (cases "drop_row go_id (gs_goals s) u i"; cases "fst (drop_row go_id (gs_goals s) u i)")
      (auto simp: goal_get_def goal_remove_def split: if_splits)
qed

end
