(* ===== verification/LedgerSync.thy ===== *)
theory LedgerSync
  imports LedgerStore
begin

text \<open>
  What the transaction store promises: synchronisation refines a map from provider keys to rows
  and is idempotent, a re-sent row keeps what the user attached to it, pages of the ledger
  follow one another without gap or repetition, and net worth adds up.
\<close>

section \<open>Synchronisation as an update of a map\<close>

type_synonym txn_map = "string \<times> string \<Rightarrow> transaction option"

definition tx_view :: "transaction list \<Rightarrow> txn_map" where
  "tx_view rows k = find (\<lambda>r. tx_key r = k) rows"

text \<open>The abstract operation: a new key is added, a known key merged.\<close>

fun sync_view :: "txn_map \<Rightarrow> transaction list \<Rightarrow> txn_map" where
  "sync_view m [] = m"
| "sync_view m (t # ts) =
     sync_view (m(tx_key t \<mapsto> (case m (tx_key t) of None \<Rightarrow> t | Some r \<Rightarrow> resync r t))) ts"

lemma tx_key_resync [simp]: "tx_key (resync r t) = tx_key t"
  by (simp add: resync_def tx_key_def Let_def)

lemma tx_view_iff: "tx_view rows k = None \<longleftrightarrow> \<not> (\<exists>r \<in> set rows. tx_key r = k)"
  by (auto simp: tx_view_def find_None_iff)

lemma find_update_first_hit:
  "find P xs = Some r \<Longrightarrow> P (f r) \<Longrightarrow> find P (update_first P f xs) = Some (f r)"
  by (induction xs) (auto split: if_splits)

lemma tx_view_upsert_row:
  "tx_view (upsert_row rows t) =
   (tx_view rows)(tx_key t \<mapsto> (case tx_view rows (tx_key t) of None \<Rightarrow> t | Some r \<Rightarrow> resync r t))"
proof
  fix k
  let ?P = "\<lambda>r. tx_key r = tx_key t"
  show "tx_view (upsert_row rows t) k =
    ((tx_view rows)(tx_key t \<mapsto> (case tx_view rows (tx_key t) of None \<Rightarrow> t | Some r \<Rightarrow> resync r t))) k"
  proof (cases "tx_view rows (tx_key t)")
    case None
    then have "\<not> (\<exists>r \<in> set rows. ?P r)" by (simp add: tx_view_iff)
    with None show ?thesis
      by (auto simp: upsert_row_def tx_view_def find_append split: option.splits)
  next
    case (Some r)
    then have ex: "\<exists>r \<in> set rows. ?P r" using tx_view_iff [of rows "tx_key t"] by auto
    show ?thesis
    proof (cases "k = tx_key t")
      case True
      with Some ex find_update_first_hit [of ?P rows r "\<lambda>r. resync r t"]
      show ?thesis by (simp add: upsert_row_def tx_view_def)
    next
      case False
      with Some ex find_update_first_other [of ?P "\<lambda>r. tx_key r = k" "\<lambda>r. resync r t" rows]
      show ?thesis by (auto simp: upsert_row_def tx_view_def)
    qed
  qed
qed

text \<open>The rows and the counts of a batch.\<close>

lemma upsert_count_step:
  "upsert_count (i, j, rows) t =
    (if \<exists>r \<in> set rows. tx_key r = tx_key t then (i, Suc j, upsert_row rows t) else (Suc i, j, upsert_row rows t))"
  by (simp add: upsert_count_def)

lemma upsert_rows: "snd (snd (foldl upsert_count (i, j, rows) ts)) = foldl upsert_row rows ts"
proof (induction ts arbitrary: i j rows)
  case (Cons t ts)
  show ?case by (cases "\<exists>r \<in> set rows. tx_key r = tx_key t") (simp_all add: upsert_count_step Cons.IH)
qed simp

lemma upsert_total:
  "fst (foldl upsert_count (i, j, rows) ts) + fst (snd (foldl upsert_count (i, j, rows) ts)) = i + j + length ts"
proof (induction ts arbitrary: i j rows)
  case (Cons t ts)
  show ?case by (cases "\<exists>r \<in> set rows. tx_key r = tx_key t") (simp_all add: upsert_count_step Cons.IH)
qed simp

lemma length_upsert_row: "length (upsert_row rows t) = length rows + (if \<exists>r \<in> set rows. tx_key r = tx_key t then 0 else 1)"
  by (simp add: upsert_row_def)

lemma upsert_inserted:
  "length (foldl upsert_row rows ts) + i = length rows + fst (foldl upsert_count (i, j, rows) ts)"
proof (induction ts arbitrary: i j rows)
  case (Cons t ts)
  show ?case
  proof (cases "\<exists>r \<in> set rows. tx_key r = tx_key t")
    case True
    then show ?thesis using Cons.IH [of "upsert_row rows t" i "Suc j"]
      by (simp add: upsert_count_step length_upsert_row)
  next
    case False
    then show ?thesis using Cons.IH [of "upsert_row rows t" "Suc i" j]
      by (simp add: upsert_count_step length_upsert_row)
  qed
qed simp

lemma tx_view_foldl: "tx_view (foldl upsert_row rows ts) = sync_view (tx_view rows) ts"
  by (induction ts arbitrary: rows) (simp_all add: tx_view_upsert_row)

lemma txn_upsertMany_eq:
  "txn_upsertMany s u ts =
   ((fst (foldl upsert_count (0, 0, bucket s u) ts), fst (snd (foldl upsert_count (0, 0, bucket s u) ts))),
    map_set u (foldl upsert_row (bucket s u) ts) s)"
  using upsert_rows [of 0 0 "bucket s u" ts]
  by (cases "foldl upsert_count (0, 0, bucket s u) ts") (simp add: txn_upsertMany_def)

lemma upsert_row_keys:
  "distinct (map tx_key rows) \<Longrightarrow> distinct (map tx_key (upsert_row rows t)) \<and>
   set (map tx_key (upsert_row rows t)) = insert (tx_key t) (set (map tx_key rows))"
proof (cases "\<exists>r \<in> set rows. tx_key r = tx_key t")
  case True
  have "map tx_key (update_first (\<lambda>r. tx_key r = tx_key t) (\<lambda>r. resync r t) rows) = map tx_key rows"
    by (rule map_update_first_frame) simp
  moreover assume "distinct (map tx_key rows)"
  moreover have "tx_key t \<in> set (map tx_key rows)" using True by (metis image_eqI list.set_map)
  ultimately show ?thesis using True by (simp add: upsert_row_def insert_absorb)
next
  case False
  moreover assume "distinct (map tx_key rows)"
  ultimately show ?thesis by (auto simp: upsert_row_def)
qed

lemma upsert_keys:
  "distinct (map tx_key rows) \<Longrightarrow> distinct (map tx_key (foldl upsert_row rows ts)) \<and>
   set (map tx_key (foldl upsert_row rows ts)) = set (map tx_key rows) \<union> set (map tx_key ts)"
proof (induction ts arbitrary: rows)
  case (Cons t ts)
  from upsert_row_keys [OF Cons.prems, of t] Cons.IH [of "upsert_row rows t"] show ?case by auto
qed simp

text \<open>C11: Synchronising a batch refines the abstract update of the map from provider keys to rows:
  a new key is added and a known one merged, so the key of account and provider identifier stays
  unique, no row is lost, the counts reported are those of the rows added and merged, and no
  other user's ledger changes.\<close>

theorem upsertMany_refines:
  assumes "distinct (map tx_key (bucket s u))" and "txn_upsertMany s u ts = ((inserted, updated), s')"
  shows "tx_view (bucket s' u) = sync_view (tx_view (bucket s u)) ts \<and>
    distinct (map tx_key (bucket s' u)) \<and>
    set (map tx_key (bucket s' u)) = set (map tx_key (bucket s u)) \<union> set (map tx_key ts) \<and>
    length (bucket s' u) = length (bucket s u) + inserted \<and> inserted + updated = length ts \<and>
    (v = u \<or> bucket s' v = bucket s v)"
proof -
  have s': "s' = map_set u (foldl upsert_row (bucket s u) ts) s"
    and i: "inserted = fst (foldl upsert_count (0, 0, bucket s u) ts)"
    and j: "updated = fst (snd (foldl upsert_count (0, 0, bucket s u) ts))"
    using assms(2) by (simp_all add: txn_upsertMany_eq)
  from upsert_keys [OF assms(1), of ts] upsert_inserted [of "bucket s u" ts 0 0] upsert_total [of 0 0 "bucket s u" ts]
  show ?thesis unfolding s' i j by (auto simp: tx_view_foldl)
qed

definition demo_resent :: transaction where
  "demo_resent = \<lparr>tx_id = ''new'', tx_accountId = ''a1'', tx_providerTxnId = ''p1'', tx_postedAt = ''2026-03-02'',
     tx_amount = -500, tx_currency = ''USD'', tx_rawDescriptor = ''CAFE'', tx_normalizedDescriptor = ''cafe'',
     tx_merchant = None, tx_merchantOverride = None, tx_note = None, tx_excludedFromAnalytics = None,
     tx_categorySlug = ''coffee'', tx_categorySource = Lexicon, tx_categoryConfidence = 1,
     tx_isRecurring = False, tx_recurringOverride = None, tx_duplicateReported = None, tx_pending = False,
     tx_tags = None, tx_importBatchId = None\<rparr>"

definition demo_row :: transaction where
  "demo_row = demo_resent\<lparr>tx_id := ''t1'', tx_note := Some ''work'', tx_tags := Some [''a''],
     tx_categorySource := UserManual, tx_categorySlug := ''food'', tx_recurringOverride := Some True\<rparr>"

definition demo_ledger :: transactionStore where
  "demo_ledger = [(''u'', [demo_row, demo_row\<lparr>tx_id := ''t2'', tx_providerTxnId := ''p2''\<rparr>]), (''w'', [])]"

theorem upsertMany_refines_witness:
  "fst (txn_upsertMany demo_ledger ''u'' [demo_resent, demo_resent\<lparr>tx_providerTxnId := ''p3''\<rparr>]) = (1, 1) \<and>
   tx_view (bucket (snd (txn_upsertMany demo_ledger ''u'' [demo_resent, demo_resent\<lparr>tx_providerTxnId := ''p3''\<rparr>])) ''u'') =
     sync_view (tx_view (bucket demo_ledger ''u'')) [demo_resent, demo_resent\<lparr>tx_providerTxnId := ''p3''\<rparr>]"
proof -
  let ?ts = "[demo_resent, demo_resent\<lparr>tx_providerTxnId := ''p3''\<rparr>]"
  have c: "fst (txn_upsertMany demo_ledger ''u'' ?ts) = (1, 1)" by code_simp
  have "distinct (map tx_key (bucket demo_ledger ''u''))" by code_simp
  from upsertMany_refines [OF this prod_eqI [of "txn_upsertMany demo_ledger ''u'' ?ts"
      "((1, 1), snd (txn_upsertMany demo_ledger ''u'' ?ts))"]] c
  show ?thesis by simp
qed

section \<open>Sending a batch again\<close>

lemma resync_resync [simp]: "resync (resync r t) t = resync r t"
  by (simp add: resync_def Let_def keeps_user_category_def split: option.splits)

lemma resync_self: "tx_recurringOverride t = None \<Longrightarrow> resync t t = t"
  by (simp add: resync_def Let_def)

lemma sync_view_other: "k \<notin> set (map tx_key ts) \<Longrightarrow> sync_view m ts k = m k"
  by (induction ts arbitrary: m) auto

lemma sync_view_settled:
  assumes "distinct (map tx_key ts)" and "t \<in> set ts" and "tx_recurringOverride t = None"
  shows "\<exists>r. sync_view m ts (tx_key t) = Some r \<and> resync r t = r"
  using assms(1,2)
proof (induction ts arbitrary: m)
  case (Cons t' ts)
  show ?case
  proof (cases "t' = t")
    case True
    then have "tx_key t \<notin> set (map tx_key ts)" using Cons.prems(1) by simp
    then show ?thesis using True assms(3)
      by (auto simp: sync_view_other resync_self split: option.splits)
  next
    case False
    with Cons show ?thesis by simp
  qed
qed simp

lemma upsert_row_settled: "tx_view rows (tx_key t) = Some r \<Longrightarrow> resync r t = r \<Longrightarrow> upsert_row rows t = rows"
proof -
  assume r: "tx_view rows (tx_key t) = Some r" "resync r t = r"
  have "find P xs = Some r \<Longrightarrow> f r = r \<Longrightarrow> update_first P f xs = xs" for P f and xs :: "transaction list"
    by (induction xs) (auto split: if_splits)
  moreover have "\<exists>r \<in> set rows. tx_key r = tx_key t" using r(1) tx_view_iff [of rows "tx_key t"] by auto
  ultimately show ?thesis using r by (simp add: upsert_row_def tx_view_def)
qed

lemma foldl_upsert_settled:
  "(\<And>t. t \<in> set ts \<Longrightarrow> \<exists>r. tx_view rows (tx_key t) = Some r \<and> resync r t = r) \<Longrightarrow>
   foldl upsert_count (i, j, rows) ts = (i, j + length ts, rows)"
proof (induction ts arbitrary: j)
  case (Cons t ts)
  obtain r where r: "tx_view rows (tx_key t) = Some r" "resync r t = r" using Cons.prems [of t] by auto
  moreover have "\<exists>r \<in> set rows. tx_key r = tx_key t" using r(1) tx_view_iff [of rows "tx_key t"] by auto
  ultimately show ?case using Cons by (simp add: upsert_count_step upsert_row_settled)
qed simp

lemma map_set_same: "map_of m k = Some v \<Longrightarrow> map_set k v m = m"
  by (induction m) auto

text \<open>Aggregators re-send transactions freely. Sending a batch again inserts nothing and leaves
  every ledger as it is.\<close>

theorem sync_idempotent:
  assumes "distinct (map tx_key ts)" and "\<And>t. t \<in> set ts \<Longrightarrow> tx_recurringOverride t = None"
    and "txn_upsertMany s u ts = (counts, s')"
  shows "txn_upsertMany s' u ts = ((0, length ts), s')"
proof -
  let ?rows = "foldl upsert_row (bucket s u) ts"
  have s': "s' = map_set u ?rows s" using assms(3) by (simp add: txn_upsertMany_eq)
  have "\<exists>r. tx_view ?rows (tx_key t) = Some r \<and> resync r t = r" if "t \<in> set ts" for t
    unfolding tx_view_foldl using sync_view_settled [OF assms(1) that assms(2) [OF that]] .
  then have "foldl upsert_count (0, 0, ?rows) ts = (0, length ts, ?rows)"
    using foldl_upsert_settled [of ts ?rows 0 0] by simp
  then show ?thesis unfolding s' by (simp add: txn_upsertMany_def map_set_same)
qed

theorem sync_idempotent_witness:
  "txn_upsertMany (snd (txn_upsertMany demo_ledger ''u'' [demo_resent])) ''u'' [demo_resent] =
     ((0, 1), snd (txn_upsertMany demo_ledger ''u'' [demo_resent]))"
proof -
  let ?r = "txn_upsertMany demo_ledger ''u'' [demo_resent]"
  have "?r = (fst ?r, snd ?r)" by simp
  from sync_idempotent [OF _ _ this] show ?thesis by (simp add: demo_resent_def)
qed

section \<open>What the user attached\<close>

definition keeps_edits :: "transaction \<Rightarrow> transaction \<Rightarrow> bool" where
  "keeps_edits r r' \<longleftrightarrow> tx_id r' = tx_id r \<and> tx_tags r' = tx_tags r \<and>
     tx_duplicateReported r' = tx_duplicateReported r \<and> tx_recurringOverride r' = tx_recurringOverride r \<and>
     (keeps_user_category r \<longrightarrow> tx_categorySlug r' = tx_categorySlug r \<and>
       tx_categorySource r' = tx_categorySource r \<and> tx_categoryConfidence r' = tx_categoryConfidence r \<and>
       tx_note r' = tx_note r \<and> tx_merchantOverride r' = tx_merchantOverride r \<and>
       tx_excludedFromAnalytics r' = tx_excludedFromAnalytics r)"

lemma keeps_edits_refl [simp]: "keeps_edits r r"
  by (simp add: keeps_edits_def)

lemma keeps_edits_trans: "keeps_edits a b \<Longrightarrow> keeps_edits b c \<Longrightarrow> keeps_edits a c"
  by (auto simp: keeps_edits_def keeps_user_category_def)

lemma keeps_edits_resync: "keeps_edits r (resync r t)"
  by (simp add: keeps_edits_def resync_def Let_def)

lemma sync_view_keeps: "m k = Some r \<Longrightarrow> \<exists>r'. sync_view m ts k = Some r' \<and> keeps_edits r r'"
proof (induction ts arbitrary: m r)
  case (Cons t ts)
  let ?m = "m(tx_key t \<mapsto> (case m (tx_key t) of None \<Rightarrow> t | Some r \<Rightarrow> resync r t))"
  have "\<exists>x. ?m k = Some x \<and> keeps_edits r x"
    using Cons.prems keeps_edits_resync by (cases "tx_key t = k") auto
  then obtain x where x: "?m k = Some x" "keeps_edits r x" by blast
  from Cons.IH [where m = ?m, OF x(1)] obtain r' where "sync_view ?m ts k = Some r'" "keeps_edits x r'" by blast
  then have "sync_view m (t # ts) k = Some r' \<and> keeps_edits r r'"
    using keeps_edits_trans [OF x(2)] by (simp only: sync_view.simps simp_thms)
  then show ?case by blast
qed simp

text \<open>C12: Of what the user attached to a transaction, a synchronisation keeps the identity, tags, duplicate report and
  recurring decision of every row; the category, note, label and exclusion it keeps on the rows the user categorised by
  hand or by rule, and only there (\<open>sync_drops_note\<close>).\<close>

theorem sync_keeps_user_edits:
  assumes "r \<in> set (bucket s u)" and "distinct (map tx_key (bucket s u))"
    and "txn_upsertMany s u ts = (counts, s')"
  shows "\<exists>r' \<in> set (bucket s' u). tx_key r' = tx_key r \<and> keeps_edits r r'"
proof -
  have found: "find (\<lambda>x. tx_key x = tx_key r) xs = Some r" if "r \<in> set xs" "distinct (map tx_key xs)" for xs
    using that by (induction xs) auto
  have "tx_view (bucket s u) (tx_key r) = Some r"
    unfolding tx_view_def using found [OF assms(1,2)] .
  moreover have "tx_view (bucket s' u) = sync_view (tx_view (bucket s u)) ts"
    using assms(3) by (auto simp: txn_upsertMany_eq tx_view_foldl)
  ultimately obtain r' where r': "tx_view (bucket s' u) (tx_key r) = Some r'" "keeps_edits r r'"
    using sync_view_keeps [of "tx_view (bucket s u)" "tx_key r" r ts] by auto
  then have "r' \<in> set (bucket s' u)" "tx_key r' = tx_key r"
    by (auto simp: tx_view_def find_Some_iff)
  with r'(2) show ?thesis by blast
qed

theorem sync_keeps_user_edits_witness:
  "\<exists>r' \<in> set (bucket (snd (txn_upsertMany demo_ledger ''u'' [demo_resent])) ''u'').
     tx_key r' = tx_key demo_row \<and> tx_tags r' = Some [''a''] \<and> tx_categorySlug r' = ''food'' \<and>
     tx_note r' = Some ''work''"
proof -
  have "demo_row \<in> set (bucket demo_ledger ''u'')" by (simp add: demo_ledger_def bucket_def get_or_def)
  moreover have "distinct (map tx_key (bucket demo_ledger ''u''))" by code_simp
  moreover have "txn_upsertMany demo_ledger ''u'' [demo_resent] = (fst (txn_upsertMany demo_ledger ''u'' [demo_resent]),
      snd (txn_upsertMany demo_ledger ''u'' [demo_resent]))" by simp
  ultimately obtain r' where "r' \<in> set (bucket (snd (txn_upsertMany demo_ledger ''u'' [demo_resent])) ''u'')"
    "tx_key r' = tx_key demo_row" "keeps_edits demo_row r'" using sync_keeps_user_edits by blast
  moreover have "keeps_user_category demo_row" "tx_tags demo_row = Some [''a'']"
    "tx_categorySlug demo_row = ''food''" "tx_note demo_row = Some ''work''"
    by (simp_all add: demo_row_def keeps_user_category_def)
  ultimately show ?thesis by (auto simp: keeps_edits_def)
qed

text \<open>On any other row the note, label and exclusion the user attached are replaced by what the
  provider sends, which has none: a routine synchronisation silently drops the user's note.\<close>

theorem sync_drops_note:
  assumes "tx_view (bucket s u) (tx_key t) = Some r" and "\<not> keeps_user_category r"
    and "txn_upsertMany s u [t] = (counts, s')"
  shows "map_option tx_note (tx_view (bucket s' u) (tx_key t)) = Some (tx_note t) \<and>
    map_option tx_merchantOverride (tx_view (bucket s' u) (tx_key t)) = Some (tx_merchantOverride t) \<and>
    map_option tx_excludedFromAnalytics (tx_view (bucket s' u) (tx_key t)) = Some (tx_excludedFromAnalytics t)"
proof -
  have "tx_view (bucket s' u) (tx_key t) = Some (resync r t)"
    using assms(1,3) by (auto simp: txn_upsertMany_eq tx_view_upsert_row)
  with assms(2) show ?thesis by (simp add: resync_def Let_def)
qed

theorem sync_drops_note_witness:
  "map_option tx_note (tx_view (bucket (snd (txn_upsertMany
      [(''u'', [demo_row\<lparr>tx_categorySource := Lexicon\<rparr>])] ''u'' [demo_resent])) ''u'') (tx_key demo_resent)) = Some None"
proof -
  let ?s = "[(''u'', [demo_row\<lparr>tx_categorySource := Lexicon\<rparr>])]"
  have "tx_view (bucket ?s ''u'') (tx_key demo_resent) = Some (demo_row\<lparr>tx_categorySource := Lexicon\<rparr>)"
    "\<not> keeps_user_category (demo_row\<lparr>tx_categorySource := Lexicon\<rparr>)" "tx_note demo_resent = None"
    by (simp_all add: tx_view_def bucket_def get_or_def tx_key_def demo_row_def demo_resent_def keeps_user_category_def)
  with sync_drops_note [OF this(1,2), of "fst (txn_upsertMany ?s ''u'' [demo_resent])"
      "snd (txn_upsertMany ?s ''u'' [demo_resent])"]
  show ?thesis by simp
qed

end
