(* ===== verification/LedgerQueries.thy ===== *)
theory LedgerQueries
  imports LedgerSync
begin

text \<open>
  Reading the ledger: the pages of \<open>list\<close> and the net-worth history. The cursor compares code units while the order is
  the host's collation, a parameter here. Where the two agree on the rows, pages continue each other; identifiers carry
  the identifier of the bank, in which upper and lower case mix, and where the two differ rows are skipped.
\<close>

section \<open>Sorting and filtering\<close>

lemma filter_js_insert:
  assumes "preorder_cmp cmp" and "sorted_wrt (\<lambda>x y. cmp x y \<le> 0) ys"
  shows "filter P (js_insert cmp x ys) = (if P x then js_insert cmp x (filter P ys) else filter P ys)"
  using assms(2)
proof (induction ys)
  case (Cons y ys)
  show ?case
  proof (cases "cmp x y \<le> 0")
    case True
    have all: "cmp x z \<le> 0" if "z \<in> set (y # ys)" for z
      using that True Cons.prems assms(1) unfolding preorder_cmp_def by auto
    have "js_insert cmp x zs = x # zs" if "set zs \<subseteq> set (y # ys)" for zs
      using that all by (cases zs) auto
    from this [OF filter_is_subset, of P] True show ?thesis by simp
  qed (use Cons in auto)
qed simp

lemma filter_js_sort:
  assumes "preorder_cmp cmp"
  shows "filter P (js_sort cmp xs) = js_sort cmp (filter P xs)"
  by (induction xs) (simp_all add: filter_js_insert [OF assms sorted_wrt_js_sort [OF assms]])

lemma filter_sorted_suffix:
  assumes "sorted_wrt (\<lambda>a b. after a b \<and> \<not> after b a) xs" and "0 < n" and "n \<le> length xs"
    and "\<And>x. \<not> after x x" and "\<And>a b c. after a b \<Longrightarrow> after b c \<Longrightarrow> after a c"
  shows "filter (after (xs ! (n - 1))) xs = drop n xs"
proof -
  let ?c = "xs ! (n - 1)"
  have "\<not> after ?c x" if "x \<in> set (take n xs)" for x
  proof -
    from that obtain i where i: "i < n" "x = xs ! i"
      using assms(3) by (metis in_set_conv_nth length_take min.absorb2 nth_take)
    show ?thesis
    proof (cases "i = n - 1")
      case False
      then have "i < n - 1" "n - 1 < length xs" using i(1) assms(3) by auto
      with assms(1) show ?thesis unfolding i(2) by (simp add: sorted_wrt_iff_nth_less)
    qed (use assms(4) i(2) in simp)
  qed
  moreover have "after ?c x" if "x \<in> set (drop n xs)" for x
  proof -
    from that obtain j where "j < length xs - n" "x = drop n xs ! j" by (auto simp: in_set_conv_nth)
    then have "n + j < length xs" "x = xs ! (n + j)" by simp_all
    with assms(1,2) show ?thesis by (simp add: sorted_wrt_iff_nth_less)
  qed
  ultimately have "filter (after ?c) (take n xs) = []" "filter (after ?c) (drop n xs) = drop n xs"
    by (simp_all add: filter_empty_conv filter_id_conv del: One_nat_def)
  then have "filter (after ?c) (take n xs @ drop n xs) = drop n xs" by (simp only: filter_append append_Nil)
  then show ?thesis by (simp only: append_take_drop_id)
qed

section \<open>Pages\<close>

abbreviation page_key :: "transaction \<Rightarrow> string \<times> string" where
  "page_key t \<equiv> (tx_postedAt t, tx_id t)"

definition older :: "transaction \<Rightarrow> transaction \<Rightarrow> bool" where
  "older c t \<longleftrightarrow> tx_postedAt t < tx_postedAt c \<or> (tx_postedAt t = tx_postedAt c \<and> tx_id t < tx_id c)"

lemma newest_first_le:
  "newest_first code_unit_compare a b \<le> 0 \<longleftrightarrow> older a b \<or> page_key a = page_key b"
  by (auto simp: newest_first_def cmp_or_def code_unit_compare_def older_def)

lemma older_irrefl: "\<not> older t t"
  by (simp add: older_def)

lemma older_trans: "older a b \<Longrightarrow> older b c \<Longrightarrow> older a c"
  by (auto simp: older_def)

lemma preorder_newest_first: "preorder_cmp (newest_first code_unit_compare)"
  unfolding preorder_cmp_def newest_first_le by (auto simp: older_def)

lemma sorted_strict:
  "distinct (map tx_id xs) \<Longrightarrow>
   sorted_wrt (\<lambda>a b. older a b \<and> \<not> older b a) (js_sort (newest_first code_unit_compare) xs)"
proof -
  let ?ys = "js_sort (newest_first code_unit_compare) xs"
  assume "distinct (map tx_id xs)"
  then have d: "distinct (map tx_id ?ys)" by (simp add: distinct_map_js_sort)
  show ?thesis unfolding sorted_wrt_iff_nth_less
  proof (intro allI impI)
    fix i j assume ij: "i < j" "j < length ?ys"
    have "newest_first code_unit_compare (?ys ! i) (?ys ! j) \<le> 0"
      using sorted_wrt_js_sort [OF preorder_newest_first, of xs] ij by (simp add: sorted_wrt_iff_nth_less)
    moreover have "tx_id (?ys ! i) \<noteq> tx_id (?ys ! j)"
      using d ij by (simp add: distinct_conv_nth)
    ultimately show "older (?ys ! i) (?ys ! j) \<and> \<not> older (?ys ! j) (?ys ! i)"
      unfolding newest_first_le by (auto simp: older_def)
  qed
qed

lemma matches_page [simp]: "matches (q\<lparr>tq_before := b, tq_limit := l\<rparr>) t = matches q t"
  by (simp add: matches_def)

definition any_txn :: transactionQuery where
  "any_txn = \<lparr>tq_accountId = None, tq_categorySlug = None, tq_categoryKind = None, tq_range = None,
     tq_search = None, tq_pending = None, tq_recurring = None, tq_amountMin = None, tq_amountMax = None,
     tq_tag = None, tq_before = None, tq_limit = None\<rparr>"

lemma page_continues_units:
  assumes "distinct (map tx_id (bucket s u))" and "tq_before q = None" and "tq_limit q = None"
    and "0 < n" and "n \<le> length (txn_list code_unit_compare s u q)"
    and "c = txn_list code_unit_compare s u q ! (n - 1)" and "0 < k"
  shows "txn_list code_unit_compare s u (q\<lparr>tq_before := Some (page_key c), tq_limit := Some k\<rparr>) =
    take k (drop n (txn_list code_unit_compare s u q))"
proof -
  let ?cmp = "newest_first code_unit_compare"
  let ?all = "js_sort ?cmp (filter (matches q) (bucket s u))"
  have all: "txn_list code_unit_compare s u q = ?all"
    using assms(2,3) by (simp add: txn_list_def Let_def before_cursor_def if_given_def)
  have cursor: "before_cursor (Some (page_key c)) t \<longleftrightarrow> older c t" for t
    by (simp add: before_cursor_def if_given_def older_def)
  have "distinct (map tx_id (filter (matches q) (bucket s u)))"
    using assms(1) by (rule distinct_map_filter)
  from filter_sorted_suffix [OF sorted_strict [OF this] assms(4)] assms(5,6) older_irrefl older_trans
  have "filter (older c) ?all = drop n ?all" unfolding all by blast
  moreover have "js_sort ?cmp (filter (\<lambda>t. matches q t \<and> older c t) (bucket s u)) = filter (older c) ?all"
    unfolding filter_js_sort [OF preorder_newest_first] by (simp add: conj_commute)
  ultimately show ?thesis
    unfolding all using assms(7) by (simp add: txn_list_def Let_def cursor)
qed

text \<open>The collation orders the dates and the identifiers of these rows as their code units do.\<close>

definition plain_collation :: "(string \<Rightarrow> string \<Rightarrow> int) \<Rightarrow> transaction list \<Rightarrow> bool" where
  "plain_collation lc rows \<longleftrightarrow> list_all (\<lambda>a. list_all (\<lambda>b.
     sgn (lc (tx_postedAt a) (tx_postedAt b)) = sgn (code_unit_compare (tx_postedAt a) (tx_postedAt b)) \<and>
     sgn (lc (tx_id a) (tx_id b)) = sgn (code_unit_compare (tx_id a) (tx_id b))) rows) rows"

lemma js_insert_cong:
  "(\<And>b. b \<in> set ys \<Longrightarrow> cmp x b \<le> 0 \<longleftrightarrow> cmp' x b \<le> 0) \<Longrightarrow> js_insert cmp x ys = js_insert cmp' x ys"
  by (induction ys) auto

lemma js_sort_cong:
  "(\<And>a b. a \<in> set xs \<Longrightarrow> b \<in> set xs \<Longrightarrow> cmp a b \<le> 0 \<longleftrightarrow> cmp' a b \<le> 0) \<Longrightarrow> js_sort cmp xs = js_sort cmp' xs"
proof (induction xs)
  case (Cons x xs)
  have "js_sort cmp xs = js_sort cmp' xs" by (rule Cons.IH) (simp add: Cons.prems)
  moreover have "js_insert cmp x (js_sort cmp' xs) = js_insert cmp' x (js_sort cmp' xs)"
    by (rule js_insert_cong) (simp add: Cons.prems)
  ultimately show ?case by simp
qed simp

lemma txn_list_plain:
  assumes "plain_collation lc (bucket s u)"
  shows "txn_list lc s u q = txn_list code_unit_compare s u q"
proof -
  have "newest_first lc a b \<le> 0 \<longleftrightarrow> newest_first code_unit_compare a b \<le> 0"
    if "a \<in> set (bucket s u)" and "b \<in> set (bucket s u)" for a b
  proof -
    have "sgn (lc (tx_postedAt b) (tx_postedAt a)) = sgn (code_unit_compare (tx_postedAt b) (tx_postedAt a))"
      "sgn (lc (tx_id b) (tx_id a)) = sgn (code_unit_compare (tx_id b) (tx_id a))"
      using assms that by (auto simp: plain_collation_def list_all_iff)
    then show ?thesis by (auto simp: newest_first_def cmp_or_def sgn_if split: if_splits)
  qed
  then have "js_sort (newest_first lc) (filter P (bucket s u)) = js_sort (newest_first code_unit_compare) (filter P (bucket s u))" for P
    by (intro js_sort_cong) auto
  then show ?thesis by (simp add: txn_list_def)
qed

text \<open>C13: As long as the collation of the host orders the dates and identifiers of the user's rows as their code units
  do, paging through the ledger misses and repeats nothing: the page asked for with the last transaction seen as the
  cursor continues the full list exactly where it was left.\<close>

theorem page_continues:
  assumes "plain_collation lc (bucket s u)"
    and "distinct (map tx_id (bucket s u))" and "tq_before q = None" and "tq_limit q = None"
    and "0 < n" and "n \<le> length (txn_list lc s u q)"
    and "c = txn_list lc s u q ! (n - 1)" and "0 < k"
  shows "txn_list lc s u (q\<lparr>tq_before := Some (page_key c), tq_limit := Some k\<rparr>) = take k (drop n (txn_list lc s u q))"
  using page_continues_units [OF assms(2-5) _ _ assms(8)] assms(6,7) by (simp only: txn_list_plain [OF assms(1)])

text \<open>
  The hypothesis is needed. A collation that, as that of the host does, puts letters in the order of the alphabet whatever
  their case lists the row of the bank's identifier \<open>Bx\<close> before that of \<open>aX\<close>; the page after it is empty.
\<close>

definition alphabetical :: "string \<Rightarrow> string \<Rightarrow> int" where
  "alphabetical = cmp_or (\<lambda>a b. code_unit_compare (toLowerCase a) (toLowerCase b)) code_unit_compare"

lemma paging_skips_rows:
  "let s = [(''u'', [demo_row\<lparr>tx_id := ''txn_acc_aX''\<rparr>, demo_row\<lparr>tx_id := ''txn_acc_Bx'', tx_providerTxnId := ''Bx''\<rparr>])]
   in map tx_id (txn_list alphabetical s ''u'' any_txn) = [''txn_acc_Bx'', ''txn_acc_aX''] \<and>
      txn_list alphabetical s ''u'' (any_txn\<lparr>tq_before := Some (''2026-03-02'', ''txn_acc_Bx''), tq_limit := Some 5\<rparr>) = []"
  by code_simp

theorem page_continues_witness:
  "txn_list alphabetical demo_ledger ''u'' (any_txn\<lparr>tq_before := Some (''2026-03-02'', ''t2''), tq_limit := Some 5\<rparr>) =
     take 5 (drop 1 (txn_list alphabetical demo_ledger ''u'' any_txn)) \<and>
   map tx_id (txn_list alphabetical demo_ledger ''u'' any_txn) = [''t2'', ''t1'']"
proof -
  have ids: "map tx_id (txn_list alphabetical demo_ledger ''u'' any_txn) = [''t2'', ''t1'']"
    "map tx_postedAt (txn_list alphabetical demo_ledger ''u'' any_txn) = [''2026-03-02'', ''2026-03-02'']"
    "plain_collation alphabetical (bucket demo_ledger ''u'')"
    "distinct (map tx_id (bucket demo_ledger ''u''))" by code_simp+
  moreover have "length (txn_list alphabetical demo_ledger ''u'' any_txn) = 2"
    using arg_cong [OF ids(1), of length] by simp
  moreover have "page_key (txn_list alphabetical demo_ledger ''u'' any_txn ! 0) = (''2026-03-02'', ''t2'')"
    using ids(1,2) by (cases "txn_list alphabetical demo_ledger ''u'' any_txn") simp_all
  ultimately show ?thesis
    using page_continues [of alphabetical demo_ledger "''u''" any_txn 1 _ 5] by (simp add: any_txn_def)
qed

section \<open>Net worth\<close>

definition side :: "(int \<Rightarrow> bool) \<Rightarrow> string \<Rightarrow> account list \<Rightarrow> int" where
  "side p c accs = sum_list (map (\<lambda>a. \<bar>ac_balanceCurrent a\<bar>)
     (filter (\<lambda>a. toUpperCase (ac_currency a) = c \<and> p (ac_balanceCurrent a)) accs))"

lemma count_balance_set:
  "get_or m (toUpperCase (ac_currency a)) (0, 0) = (x, y) \<Longrightarrow> count_balance m a =
     map_set (toUpperCase (ac_currency a))
       (if 0 \<le> ac_balanceCurrent a then (x + ac_balanceCurrent a, y) else (x, y + \<bar>ac_balanceCurrent a\<bar>)) m"
  by (simp add: count_balance_def Let_def)

lemma count_balances:
  "get_or (foldl count_balance m accs) c (0, 0) =
     (fst (get_or m c (0, 0)) + side (\<lambda>b. 0 \<le> b) c accs, snd (get_or m c (0, 0)) + side (\<lambda>b. b < 0) c accs)"
proof (induction accs arbitrary: m)
  case (Cons a accs)
  obtain x y where xy: "get_or m (toUpperCase (ac_currency a)) (0, 0) = (x, y)" by fastforce
  show ?case
    using Cons.IH [of "count_balance m a"] xy
    by (cases "toUpperCase (ac_currency a) = c"; cases "0 \<le> ac_balanceCurrent a")
      (simp_all add: count_balance_set [OF xy] side_def)
qed (simp add: side_def)

lemma count_keys:
  "set (map fst (foldl count_balance m accs)) = set (map fst m) \<union> (\<lambda>a. toUpperCase (ac_currency a)) ` set accs \<and>
   (distinct (map fst m) \<longrightarrow> distinct (map fst (foldl count_balance m accs)))"
proof (induction accs arbitrary: m)
  case (Cons a accs)
  obtain x y where xy: "get_or m (toUpperCase (ac_currency a)) (0, 0) = (x, y)" by fastforce
  have "set (map fst (count_balance m a)) = insert (toUpperCase (ac_currency a)) (set (map fst m))"
    "distinct (map fst m) \<Longrightarrow> distinct (map fst (count_balance m a))"
    unfolding count_balance_set [OF xy] by (simp_all only: keys_map_set distinct_map_set)
  with Cons.IH [of "count_balance m a"] show ?case by auto
qed simp

lemma sides: "side (\<lambda>b. 0 \<le> b) c accs - side (\<lambda>b. b < 0) c accs =
  sum_list (map ac_balanceCurrent (filter (\<lambda>a. toUpperCase (ac_currency a) = c) accs))"
  by (induction accs) (auto simp: side_def)

text \<open>The net-worth rows of a day have one row per currency the user holds, in which assets and
  debts are both counted positive and their difference is the sum of the balances in that
  currency: nothing is lost or converted. Recording a day replaces that day's rows and keeps every
  other day's.\<close>

theorem net_worth_adds_up:
  assumes "recordNetWorthSnapshot lc s u day = (totals, s')"
  shows "(\<forall>row \<in> set totals. nw_recordedOn row = day \<and> 0 \<le> nw_assets row \<and> 0 \<le> nw_debts row \<and>
      nw_netPosition row = nw_assets row - nw_debts row \<and>
      nw_netPosition row = sum_list (map ac_balanceCurrent
        (filter (\<lambda>a. toUpperCase (ac_currency a) = nw_currency row) (acc_list s u)))) \<and>
    distinct (map nw_currency totals) \<and>
    set (map nw_currency totals) = (\<lambda>a. toUpperCase (ac_currency a)) ` set (acc_list s u) \<and>
    mset (bucket (as_snapshots s') u) =
      mset totals + mset (filter (\<lambda>row. nw_recordedOn row \<noteq> day) (bucket (as_snapshots s) u)) \<and>
    as_accounts s' = as_accounts s"
proof -
  let ?accs = "bucket (as_accounts s) u"
  let ?m = "foldl count_balance [] ?accs"
  note cb = count_balances [of "[]" ?accs]
  have d: "distinct (map fst ?m)" using count_keys [of "[]" ?accs] by simp
  have totals: "totals = netWorthByCurrency lc ?accs day" using assms by (simp add: recordNetWorthSnapshot_def Let_def)
  have cur: "map nw_currency totals = map fst (js_sort (\<lambda>l r. lc (fst l) (fst r)) ?m)"
    unfolding totals netWorthByCurrency_def by (simp add: split_beta o_def)
  have row: "nw_recordedOn row = day \<and> 0 \<le> nw_assets row \<and> 0 \<le> nw_debts row \<and>
      nw_netPosition row = nw_assets row - nw_debts row \<and>
      nw_netPosition row = sum_list (map ac_balanceCurrent
        (filter (\<lambda>a. toUpperCase (ac_currency a) = nw_currency row) ?accs))" if r: "row \<in> set totals" for row
  proof -
    obtain c a b where mem: "(c, a, b) \<in> set ?m" and row: "row = \<lparr>nw_recordedOn = day, nw_currency = c,
        nw_assets = a, nw_debts = b, nw_netPosition = a - b\<rparr>"
      using r unfolding totals netWorthByCurrency_def by auto
    have "get_or ?m c (0, 0) = (a, b)" using mem d by (simp add: get_or_def)
    then have ab: "a = side (\<lambda>b. 0 \<le> b) c ?accs" "b = side (\<lambda>b. b < 0) c ?accs" using cb [of c] by simp_all
    have "0 \<le> side p c ?accs" for p unfolding side_def by (rule sum_list_nonneg) auto
    then show ?thesis unfolding row using sides [of c ?accs] ab by simp
  qed
  have set: "set (map nw_currency totals) = (\<lambda>a. toUpperCase (ac_currency a)) ` set ?accs"
    unfolding cur using count_keys [of "[]" ?accs] by simp
  have dis: "distinct (map nw_currency totals)" unfolding cur by (simp add: distinct_map_js_sort d)
  have "mset (bucket (as_snapshots s') u) =
      mset totals + mset (filter (\<lambda>row. nw_recordedOn row \<noteq> day) (bucket (as_snapshots s) u))"
    and "as_accounts s' = as_accounts s"
    using assms by (auto simp: recordNetWorthSnapshot_def Let_def)
  then show ?thesis unfolding acc_list_def using row set dis by blast
qed

definition demo_account :: "string \<Rightarrow> string \<Rightarrow> int \<Rightarrow> account" where
  "demo_account i c b = \<lparr>ac_id = i, ac_name = i, ac_type = Checking, ac_mask = '''', ac_currency = c,
     ac_balanceCurrent = b, ac_source = None, ac_creditLimit = None, ac_statementDay = None,
     ac_paymentDueDay = None\<rparr>"

theorem net_worth_adds_up_witness:
  "mset (bucket (as_snapshots (snd (recordNetWorthSnapshot code_unit_compare
     \<lparr>as_accounts = [(''u'', [demo_account ''a'' ''usd'' 500, demo_account ''b'' ''USD'' (-200)])], as_snapshots = []\<rparr>
     ''u'' ''2026-03-01''))) ''u'') =
   {#\<lparr>nw_recordedOn = ''2026-03-01'', nw_currency = ''USD'', nw_assets = 500, nw_debts = 200, nw_netPosition = 300\<rparr>#}"
proof -
  let ?s = "\<lparr>as_accounts = [(''u'', [demo_account ''a'' ''usd'' 500, demo_account ''b'' ''USD'' (-200)])], as_snapshots = []\<rparr>"
  let ?r = "recordNetWorthSnapshot code_unit_compare ?s ''u'' ''2026-03-01''"
  have "?r = (fst ?r, snd ?r)" by simp
  from net_worth_adds_up [OF this] have "mset (bucket (as_snapshots (snd ?r)) ''u'') = mset (fst ?r) + {#}" by simp
  moreover have "fst ?r = [\<lparr>nw_recordedOn = ''2026-03-01'', nw_currency = ''USD'', nw_assets = 500,
      nw_debts = 200, nw_netPosition = 300\<rparr>]" by code_simp
  ultimately show ?thesis by simp
qed

end
