(* ===== verification/JsRegex.thy ===== *)
theory JsRegex
  imports JsString
begin

text \<open>
  The regular expressions that the code writes as literals: the part of ECMAScript's pattern
  semantics they use, with its order of preference (greedy and lazy repetition, first
  alternative first) and backtracking. A pattern maps a position to the list of positions where
  it can end, in the order in which the engine tries them. Patterns that a user types are not
  literals; the code that runs those takes the engine as a parameter.
\<close>

section \<open>Patterns\<close>

datatype rx =
    Cls "char \<Rightarrow> bool"
  | Lit string
  | Seq "rx list"
  | Alt "rx list"
  | Rep nat "nat option" rx
  | Lazy nat "nat option" rx
  | Grp nat rx
  | Bol
  | Eol
  | WordB

text \<open>A position: the text before it, reversed, the text after it, and the groups captured.\<close>

record pos =
  behind :: string
  rest :: string
  groups :: "(nat \<times> string) list"

definition word_at :: "string \<Rightarrow> bool" where
  "word_at s = (case s of [] \<Rightarrow> False | c # _ \<Rightarrow> is_word c)"

definition next_char :: "(char \<Rightarrow> bool) \<Rightarrow> pos \<Rightarrow> pos list" where
  "next_char p s = (case rest s of
     [] \<Rightarrow> [] | c # cs \<Rightarrow> if p c then [s\<lparr>behind := c # behind s, rest := cs\<rparr>] else [])"

definition literal :: "string \<Rightarrow> pos \<Rightarrow> pos list" where
  "literal l s = (if startsWith (rest s) l
     then [s\<lparr>behind := rev l @ behind s, rest := drop (length l) (rest s)\<rparr>] else [])"

text \<open>
  Up to \<open>n\<close> further rounds of a repetition; a round that consumes nothing is refused, as the
  standard has it. The greedy one tries another round first, the lazy one tries to stop first.
\<close>

primrec greedy :: "nat \<Rightarrow> (pos \<Rightarrow> pos list) \<Rightarrow> pos \<Rightarrow> pos list" where
  "greedy 0 f s = [s]"
| "greedy (Suc n) f s =
     concat (map (\<lambda>s'. if rest s' = rest s then [] else greedy n f s') (f s)) @ [s]"

primrec lazily :: "nat \<Rightarrow> (pos \<Rightarrow> pos list) \<Rightarrow> pos \<Rightarrow> pos list" where
  "lazily 0 f s = [s]"
| "lazily (Suc n) f s =
     s # concat (map (\<lambda>s'. if rest s' = rest s then [] else lazily n f s') (f s))"

primrec times :: "nat \<Rightarrow> (pos \<Rightarrow> pos list) \<Rightarrow> pos \<Rightarrow> pos list" where
  "times 0 f s = [s]"
| "times (Suc n) f s = concat (map (times n f) (f s))"

definition rounds :: "nat \<Rightarrow> nat option \<Rightarrow> pos \<Rightarrow> nat" where
  "rounds lo hi s = (case hi of None \<Rightarrow> length (rest s) | Some h \<Rightarrow> h - lo)"

fun run :: "rx \<Rightarrow> pos \<Rightarrow> pos list" and run_all :: "rx list \<Rightarrow> pos \<Rightarrow> pos list"
  and run_any :: "rx list \<Rightarrow> pos \<Rightarrow> pos list" where
  "run (Cls p) s = next_char p s"
| "run (Lit l) s = literal l s"
| "run (Seq rs) s = run_all rs s"
| "run (Alt rs) s = run_any rs s"
| "run (Rep lo hi r) s =
     concat (map (\<lambda>s'. greedy (rounds lo hi s') (run r) s') (times lo (run r) s))"
| "run (Lazy lo hi r) s =
     concat (map (\<lambda>s'. lazily (rounds lo hi s') (run r) s') (times lo (run r) s))"
| "run (Grp n r) s =
     map (\<lambda>s'. s'\<lparr>groups := (n, take (length (rest s) - length (rest s')) (rest s)) # groups s'\<rparr>) (run r s)"
| "run Bol s = (if behind s = [] then [s] else [])"
| "run Eol s = (if rest s = [] then [s] else [])"
| "run WordB s = (if word_at (behind s) \<noteq> word_at (rest s) then [s] else [])"
| "run_all [] s = [s]"
| "run_all (r # rs) s = concat (map (run_all rs) (run r s))"
| "run_any [] s = []"
| "run_any (r # rs) s = run r s @ run_any rs s"

section \<open>Searching and replacing\<close>

text \<open>The leftmost match at or after a position: where it starts and where it ends.\<close>

fun search :: "rx \<Rightarrow> string \<Rightarrow> string \<Rightarrow> (pos \<times> pos) option" where
  "search r b s =
     (let start = \<lparr>behind = b, rest = s, groups = []\<rparr>
      in case run r start of
           e # _ \<Rightarrow> Some (start, e)
         | [] \<Rightarrow> (case s of [] \<Rightarrow> None | c # cs \<Rightarrow> search r (c # b) cs))"

declare search.simps [simp del]

definition matched :: "pos \<times> pos \<Rightarrow> string" where
  "matched m = take (length (rest (fst m)) - length (rest (snd m))) (rest (fst m))"

definition rx_test :: "rx \<Rightarrow> string \<Rightarrow> bool" where
  "rx_test r s \<longleftrightarrow> search r [] s \<noteq> None"

text \<open>\<open>s.match(r)\<close>: the text matched (group 0) and the groups.\<close>

definition rx_match :: "rx \<Rightarrow> string \<Rightarrow> (nat \<rightharpoonup> string) option" where
  "rx_match r s = (case search r [] s of None \<Rightarrow> None
     | Some m \<Rightarrow> Some (map_of ((0, matched m) # groups (snd m))))"

text \<open>
  \<open>s.replace(r, w)\<close> with the flag g: the fuel is the number of positions left. After an empty
  match the engine moves one character on.
\<close>

fun replace_from :: "nat \<Rightarrow> rx \<Rightarrow> string \<Rightarrow> string \<Rightarrow> string \<Rightarrow> string" where
  "replace_from 0 r w b s = s"
| "replace_from (Suc n) r w b s =
     (case search r b s of
        None \<Rightarrow> s
      | Some (p, e) \<Rightarrow>
          take (length s - length (rest p)) s @ w @
          (if rest e \<noteq> rest p then replace_from n r w (behind e) (rest e)
           else case rest e of [] \<Rightarrow> []
             | c # cs \<Rightarrow> c # replace_from n r w (c # behind e) cs))"

definition replace_all :: "rx \<Rightarrow> string \<Rightarrow> string \<Rightarrow> string" where
  "replace_all r w s = replace_from (Suc (length s)) r w [] s"

text \<open>\<open>s.replace(r, w)\<close> without the flag g.\<close>

definition replace_first :: "rx \<Rightarrow> string \<Rightarrow> string \<Rightarrow> string" where
  "replace_first r w s = (case search r [] s of
     None \<Rightarrow> s | Some (p, e) \<Rightarrow> take (length s - length (rest p)) s @ w @ rest e)"

text \<open>\<open>s.split(r)\<close> for patterns that match no empty text.\<close>

fun split_from :: "nat \<Rightarrow> rx \<Rightarrow> string \<Rightarrow> string \<Rightarrow> string list" where
  "split_from 0 r b s = [s]"
| "split_from (Suc n) r b s =
     (case search r b s of
        None \<Rightarrow> [s]
      | Some (p, e) \<Rightarrow> take (length s - length (rest p)) s # split_from n r (behind e) (rest e))"

definition rx_split :: "rx \<Rightarrow> string \<Rightarrow> string list" where
  "rx_split r s = split_from (Suc (length s)) r [] s"

section \<open>Shorthands\<close>

abbreviation "Digit \<equiv> Cls is_digit"
abbreviation "Space \<equiv> Cls is_space"
abbreviation "Many r \<equiv> Rep 0 None r"
abbreviation "Many1 r \<equiv> Rep 1 None r"
abbreviation "Maybe r \<equiv> Rep 0 (Some 1) r"

definition one_of :: "string \<Rightarrow> char \<Rightarrow> bool" where
  "one_of cs c \<longleftrightarrow> c \<in> set cs"

section \<open>Facts\<close>

text \<open>A pattern moves forward through the text it is given.\<close>

definition steps :: "pos \<Rightarrow> pos \<Rightarrow> bool" where
  "steps s s' \<longleftrightarrow> (\<exists>u. rest s = u @ rest s' \<and> behind s' = rev u @ behind s)"

lemma steps_refl [simp]: "steps s s"
  by (simp add: steps_def)

lemma steps_trans: "steps a b \<Longrightarrow> steps b c \<Longrightarrow> steps a c"
  by (auto simp: steps_def)

lemma startsWith_drop: "startsWith s l \<Longrightarrow> s = l @ drop (length l) s"
  by (induction s l rule: startsWith.induct) auto

lemma steps_next: "s' \<in> set (next_char p s) \<Longrightarrow> steps s s'"
  by (auto simp: next_char_def steps_def split: list.splits if_splits)

lemma steps_literal: "s' \<in> set (literal l s) \<Longrightarrow> steps s s'"
  using startsWith_drop [of "rest s" l]
  by (auto simp: literal_def steps_def split: if_splits intro!: exI [of _ l])

lemma steps_bind:
  assumes "s' \<in> set (concat (map g (f s)))"
    and "\<And>t. t \<in> set (f s) \<Longrightarrow> steps s t" and "\<And>t. s' \<in> set (g t) \<Longrightarrow> steps t s'"
  shows "steps s s'"
proof -
  from assms(1) obtain t where "t \<in> set (f s)" and "s' \<in> set (g t)" by auto
  then show ?thesis using assms(2,3) steps_trans by blast
qed

lemma steps_times:
  assumes f: "\<And>s t. t \<in> set (f s) \<Longrightarrow> steps s t"
  shows "s' \<in> set (times n f s) \<Longrightarrow> steps s s'"
proof (induction n arbitrary: s)
  case (Suc n)
  from Suc.prems show ?case
    by (intro steps_bind [of s' "times n f" f s]) (auto intro: f Suc.IH)
qed simp

lemma steps_greedy:
  assumes f: "\<And>s t. t \<in> set (f s) \<Longrightarrow> steps s t"
  shows "s' \<in> set (greedy n f s) \<Longrightarrow> steps s s'"
proof (induction n arbitrary: s)
  case (Suc n)
  from Suc.prems consider "s' = s"
    | "s' \<in> set (concat (map (\<lambda>t. if rest t = rest s then [] else greedy n f t) (f s)))" by auto
  then show ?case
  proof cases
    case 2
    then show ?thesis by (rule steps_bind) (auto intro: f Suc.IH split: if_splits)
  qed simp
qed simp

lemma steps_lazily:
  assumes f: "\<And>s t. t \<in> set (f s) \<Longrightarrow> steps s t"
  shows "s' \<in> set (lazily n f s) \<Longrightarrow> steps s s'"
proof (induction n arbitrary: s)
  case (Suc n)
  from Suc.prems consider "s' = s"
    | "s' \<in> set (concat (map (\<lambda>t. if rest t = rest s then [] else lazily n f t) (f s)))" by auto
  then show ?case
  proof cases
    case 2
    then show ?thesis by (rule steps_bind) (auto intro: f Suc.IH split: if_splits)
  qed simp
qed simp

lemma run_list_steps:
  assumes "\<And>r s s'. r \<in> set rs \<Longrightarrow> s' \<in> set (run r s) \<Longrightarrow> steps s s'"
  shows "(\<forall>s s'. s' \<in> set (run_all rs s) \<longrightarrow> steps s s') \<and> (\<forall>s s'. s' \<in> set (run_any rs s) \<longrightarrow> steps s s')"
  using assms
proof (induction rs)
  case (Cons r rs)
  have rs: "(\<forall>s s'. s' \<in> set (run_all rs s) \<longrightarrow> steps s s') \<and> (\<forall>s s'. s' \<in> set (run_any rs s) \<longrightarrow> steps s s')"
    by (rule Cons.IH) (rule Cons.prems, simp_all)
  have r: "t \<in> set (run r s) \<Longrightarrow> steps s t" for s t by (rule Cons.prems) simp_all
  have "steps s s'" if s': "s' \<in> set (run_all (r # rs) s)" for s s'
    using s' [unfolded run.simps run_all.simps] rs r by (elim steps_bind) blast+
  then show ?case using rs r by auto
qed simp

lemma run_steps: "s' \<in> set (run r s) \<Longrightarrow> steps s s'"
proof (induction r arbitrary: s s')
  case (Rep lo hi r)
  show ?case
    by (rule steps_bind [where g = "\<lambda>t. greedy (rounds lo hi t) (run r) t" and f = "times lo (run r)",
        OF Rep.prems [unfolded run.simps]])
      (auto intro: steps_times [OF Rep.IH] steps_greedy [OF Rep.IH])
next
  case (Lazy lo hi r)
  show ?case
    by (rule steps_bind [where g = "\<lambda>t. lazily (rounds lo hi t) (run r) t" and f = "times lo (run r)",
        OF Lazy.prems [unfolded run.simps]])
      (auto intro: steps_times [OF Lazy.IH] steps_lazily [OF Lazy.IH])
next
  case (Grp n r)
  then obtain t where "t \<in> set (run r s)" and "rest s' = rest t" and "behind s' = behind t" by auto
  with Grp.IH [of t s] show ?case by (simp add: steps_def)
next
  case (Seq rs)
  from run_list_steps [of rs, OF Seq.IH] Seq.prems show ?case by simp
next
  case (Alt rs)
  from run_list_steps [of rs, OF Alt.IH] Alt.prems show ?case by simp
qed (simp_all add: steps_next steps_literal split: if_splits)

text \<open>A search takes the text apart around what it matched.\<close>

lemma search_split:
  "search r b s = Some (p, e) \<Longrightarrow> (\<exists>u. s = u @ rest p \<and> behind p = rev u @ b) \<and> steps p e"
proof (induction r b s rule: search.induct)
  case (1 r b s)
  show ?case
  proof (cases "run r \<lparr>behind = b, rest = s, groups = []\<rparr>")
    case Nil
    with 1 obtain c cs where s: "s = c # cs" and "search r (c # b) cs = Some (p, e)"
      by (subst (asm) (3) search.simps) (auto simp: Let_def split: list.splits)
    with 1(1) [OF refl Nil s] obtain u where "cs = u @ rest p" "behind p = rev u @ c # b" "steps p e"
      by blast
    then show ?thesis using s by (auto intro!: exI [of _ "c # u"])
  next
    case (Cons e' es)
    with 1(2) have "p = \<lparr>behind = b, rest = s, groups = []\<rparr>" and e: "e = e'"
      by (subst (asm) search.simps; simp add: Let_def)+
    moreover have "steps \<lparr>behind = b, rest = s, groups = []\<rparr> e'" by (rule run_steps [of _ r]) (simp add: Cons)
    ultimately show ?thesis by simp
  qed
qed

lemma set_replace_from: "set (replace_from n r w b s) \<subseteq> set s \<union> set w"
proof (induction n arbitrary: b s)
  case (Suc n)
  show ?case
  proof (cases "search r b s")
    case (Some m)
    obtain p e where m: "m = (p, e)" by (cases m)
    from search_split [OF Some [unfolded m]] obtain u v
      where "s = u @ rest p" and "rest p = v @ rest e" by (auto simp: steps_def)
    then have e: "set (rest e) \<subseteq> set s" by auto
    have "set (replace_from n r w (behind e) (rest e)) \<subseteq> set s \<union> set w" using Suc e by blast
    moreover have "set (c # replace_from n r w (c # behind e) cs) \<subseteq> set s \<union> set w"
      if c: "rest e = c # cs" for c cs using Suc [of "c # behind e" cs] e c by auto
    moreover have "set (take (length s - length (rest p)) s) \<subseteq> set s" by (rule set_take_subset)
    ultimately show ?thesis
      by (cases "rest e = rest p"; cases "rest p") (simp_all add: Some m subset_iff)
  qed simp
qed simp

lemma set_replace_all: "set (replace_all r w s) \<subseteq> set s \<union> set w"
  unfolding replace_all_def by (rule set_replace_from)

section \<open>Anchored patterns\<close>

lemmas rx_eval = rx_match_def search.simps next_char_def rounds_def matched_def one_of_def

text \<open>A pattern that starts with an anchor is tried at the start of the text only.\<close>

lemma search_Bol: "search (Seq (Bol # rs)) b s = (if b \<noteq> [] then None else 
   case run_all rs \<lparr>behind = [], rest = s, groups = []\<rparr> of [] \<Rightarrow> None | e # _ \<Rightarrow> Some (\<lparr>behind = [], rest = s, groups = []\<rparr>, e))"
proof -
  have none: "b \<noteq> [] \<Longrightarrow> search (Seq (Bol # rs)) b s = None" for b s
    by (induction s arbitrary: b) (subst search.simps, simp add: Let_def)+
  show ?thesis
    by (cases "b = []"; subst search.simps) (auto simp: none Let_def split: list.splits)
qed

text \<open>What a run of a character class reads: between \<open>lo\<close> and \<open>hi\<close> characters of the class.\<close>

definition reads :: "(char \<Rightarrow> bool) \<Rightarrow> nat \<Rightarrow> nat \<Rightarrow> pos \<Rightarrow> pos \<Rightarrow> bool" where
  "reads p lo hi s s' \<longleftrightarrow> (\<exists>u. rest s = u @ rest s' \<and> lo \<le> length u \<and> length u \<le> hi \<and> list_all p u \<and>
     groups s' = groups s)"

lemma next_reads: "s' \<in> set (next_char p s) \<Longrightarrow> reads p 1 1 s s'"
  by (cases "rest s") (auto simp: next_char_def reads_def split: if_splits)

lemma reads_trans: "reads p a b s t \<Longrightarrow> reads p c d t s' \<Longrightarrow> reads p (a + c) (b + d) s s'"
  unfolding reads_def by (elim exE, rename_tac u v, rule_tac x = "u @ v" in exI) auto

lemma times_reads: "s' \<in> set (times n (next_char p) s) \<Longrightarrow> reads p n n s s'"
proof (induction n arbitrary: s)
  case 0
  then show ?case by (simp add: reads_def)
next
  case (Suc n)
  from Suc.prems obtain t where "t \<in> set (next_char p s)" and "s' \<in> set (times n (next_char p) t)" by auto
  then show ?case using reads_trans [OF next_reads [of t p s] Suc.IH [of t]] by simp
qed

lemma greedy_reads: "s' \<in> set (greedy n (next_char p) s) \<Longrightarrow> reads p 0 n s s'"
proof (induction n arbitrary: s)
  case 0
  then show ?case by (simp add: reads_def)
next
  case (Suc n)
  from Suc.prems consider "s' = s"
    | t where "t \<in> set (next_char p s)" and "s' \<in> set (greedy n (next_char p) t)"
    by (auto split: if_splits)
  then show ?case
  proof cases
    case 2
    then have "reads p (1 + 0) (1 + n) s s'" using reads_trans [OF next_reads [of t p s] Suc.IH [of t]] by blast
    then show ?thesis by (auto simp: reads_def)
  qed (simp add: reads_def)
qed

lemma run_Cls: "run (Cls p) = next_char p"
  by (rule ext) simp

lemma rep_reads:
  assumes "s' \<in> set (run (Rep lo (Some hi) (Cls p)) s)" and "lo \<le> hi"
  shows "reads p lo hi s s'"
proof -
  from assms(1) obtain t where "t \<in> set (times lo (next_char p) s)" and "s' \<in> set (greedy (hi - lo) (next_char p) t)"
    by (auto simp: rounds_def run_Cls)
  from reads_trans [OF times_reads [OF this(1)] greedy_reads [OF this(2)]] assms(2) show ?thesis by simp
qed

lemma grp_reads:
  assumes "s' \<in> set (run (Grp n (Rep lo (Some hi) (Cls p))) s)" and "lo \<le> hi"
  obtains u where "list_all p u" and "lo \<le> length u" and "length u \<le> hi" and "groups s' = (n, u) # groups s"
proof -
  from assms(1) obtain t where t: "t \<in> set (run (Rep lo (Some hi) (Cls p)) s)"
    and s': "s' = t\<lparr>groups := (n, take (length (rest s) - length (rest t)) (rest s)) # groups t\<rparr>" by auto
  from rep_reads [OF t assms(2)] s' that show ?thesis by (auto simp: reads_def)
qed

lemma next_groups: "s' \<in> set (next_char p s) \<Longrightarrow> groups s' = groups s"
  by (auto simp: next_char_def split: list.splits if_splits)

lemma greedy_takes:
  "rest s = u @ v \<Longrightarrow> list_all p u \<Longrightarrow> length u \<le> n \<Longrightarrow>
   s\<lparr>behind := rev u @ behind s, rest := v\<rparr> \<in> set (greedy n (next_char p) s)"
proof (induction u arbitrary: s n)
  case Nil
  then have "s\<lparr>behind := rev [] @ behind s, rest := v\<rparr> = s" by simp
  then show ?case by (cases n) (simp_all del: pos.update_convs)
next
  case (Cons c u)
  then obtain k where n: "n = Suc k" by (cases n) simp_all
  let ?t = "s\<lparr>behind := c # behind s, rest := u @ v\<rparr>"
  have t: "next_char p s = [?t]" using Cons.prems by (simp add: next_char_def)
  have "?t\<lparr>behind := rev u @ behind ?t, rest := v\<rparr> \<in> set (greedy k (next_char p) ?t)"
    using Cons.prems n by (intro Cons.IH) simp_all
  then show ?case using Cons.prems by (simp add: n t)
qed

lemma literal_rest: "t \<in> set (literal l s) \<Longrightarrow> rest s = l @ rest t"
  using startsWith_drop [of "rest s" l] by (auto simp: literal_def split: if_splits)

end
