(* ===== verification/Descriptors.thy ===== *)
theory Descriptors
  imports JsRegex
begin

text \<open>
  Bank descriptors reduced to something a rule can match (\<open>domain/categorization/normalize.ts\<close>).
\<close>

section \<open>Normalizing\<close>

definition PREFIXES :: "string list" where
  "PREFIXES = [''sq *'', ''sq*'', ''tst*'', ''tst *'', ''paypal *'', ''pp*'', ''pp *'', ''sp *'', ''sp*'',
     ''pos debit'', ''pos purchase'', ''debit card purchase'', ''card purchase'', ''recurring payment'',
     ''preauthorized debit'', ''point of sale'', ''purchase authorized on'', ''checkcard'', ''visa purchase'',
     ''ach debit'', ''ach credit'', ''direct debit'', ''web payment'']"

definition REGIONS :: "string list" where
  "REGIONS = [''al'', ''ak'', ''az'', ''ar'', ''ca'', ''co'', ''ct'', ''de'', ''fl'', ''ga'', ''hi'', ''id'',
     ''il'', ''in'', ''ia'', ''ks'', ''ky'', ''la'', ''me'', ''md'', ''ma'', ''mi'', ''mn'', ''ms'', ''mo'',
     ''mt'', ''ne'', ''nv'', ''nh'', ''nj'', ''nm'', ''ny'', ''nc'', ''nd'', ''oh'', ''ok'', ''or'', ''pa'',
     ''ri'', ''sc'', ''sd'', ''tn'', ''tx'', ''ut'', ''vt'', ''va'', ''wa'', ''wv'', ''wi'', ''wy'', ''ab'',
     ''bc'', ''mb'', ''nb'', ''nl'', ''ns'', ''on'', ''pe'', ''qc'', ''sk'']"

definition REGION_TAIL :: rx where
  "REGION_TAIL = Seq [Many1 Space, Alt (map Lit REGIONS), Eol]"

definition CARD_TAIL :: rx where
  "CARD_TAIL = Seq [Rep 2 None (Cls (one_of ''x#*'')), Many1 Digit]"

definition SLASH_DATE :: rx where
  "SLASH_DATE = Seq [WordB, Rep 1 (Some 2) Digit, Lit ''/'', Rep 1 (Some 2) Digit,
     Maybe (Seq [Lit ''/'', Rep 2 (Some 4) Digit]), WordB]"

definition ISO_DATE_TEXT :: rx where
  "ISO_DATE_TEXT = Seq [WordB, Rep 4 (Some 4) Digit, Lit ''-'', Rep 2 (Some 2) Digit, Lit ''-'',
     Rep 2 (Some 2) Digit, WordB]"

definition REFERENCE_NUMBER :: rx where
  "REFERENCE_NUMBER = Seq [WordB, Rep 2 None Digit, WordB]"

definition strip_prefix :: "string \<Rightarrow> string" where
  "strip_prefix s = (case find (startsWith s) PREFIXES of
     None \<Rightarrow> s | Some prefix \<Rightarrow> trim (drop (length prefix) s))"

definition strip_star :: "string \<Rightarrow> string" where
  "strip_star s = (let star = length (takeWhile (\<lambda>c. c \<noteq> CHR ''*'') s)
     in if CHR ''*'' \<in> set s \<and> star > 0 then trim (take star s) else s)"

definition one_space :: "string \<Rightarrow> string" where
  "one_space s = trim (replace_all (Many1 Space) '' '' s)"

definition strip_noise :: "string \<Rightarrow> string" where
  "strip_noise s = one_space (replace_all (Many1 (Cls (one_of ''.,;:''))) '' ''
     (replace_all (Many1 (Cls (one_of [CHR ''#'', CHR ''*'', CHR ''_'', CHR ''|'', CHR 0x5C, CHR ''/'']))) '' ''
     (replace_all ISO_DATE_TEXT '' '' (replace_all SLASH_DATE '' '' (replace_all CARD_TAIL '' '' s)))))"

definition normalizeDescriptor :: "string \<Rightarrow> string" where
  "normalizeDescriptor raw =
     (let s = strip_star (strip_prefix (trim (toLowerCase raw)));
          s = strip_noise s;
          s = one_space (replace_all REFERENCE_NUMBER '' '' s)
      in trim (replace_first REGION_TAIL [] s))"

definition descriptorTokens :: "string \<Rightarrow> string list" where
  "descriptorTokens normalized =
     filter (\<lambda>t. length t > 1 \<and> \<not> list_all is_digit t) (split_char CHR '' '' normalized)"

section \<open>Facts\<close>

lemma trim_trim [simp]: "trim (trim s) = trim s"
proof (cases "trim s = []")
  case True
  then show ?thesis by (simp only: True) (simp add: trim_def trimStart_def trimEnd_def)
next
  case False
  with trim_ends [of s] have "dropWhile is_space (trim s) = trim s"
    and "dropWhile is_space (rev (trim s)) = rev (trim s)"
    by (simp_all add: dropWhile_eq_self_iff hd_rev)
  then show ?thesis by (simp add: trim_def [of "trim s"] trimStart_def trimEnd_def)
qed

lemma normalizeDescriptor_trimmed [simp]: "trim (normalizeDescriptor raw) = normalizeDescriptor raw"
  by (simp add: normalizeDescriptor_def Let_def)

lemma char_lower_lower: "char_lower (char_lower c) = char_lower c"
proof -
  have "code c < 256" by (simp add: code_def)
  then show ?thesis by (auto simp: char_lower_def is_upper_def in_range_def)
qed

lemma set_strip_prefix: "set (strip_prefix s) \<subseteq> set s"
proof (cases "find (startsWith s) PREFIXES")
  case (Some p)
  have "set (trim (drop (length p) s)) \<subseteq> set (drop (length p) s)" by (rule set_trim)
  then show ?thesis using set_drop_subset [of "length p" s] by (auto simp: strip_prefix_def Some)
qed (simp add: strip_prefix_def)

lemma set_strip_star: "set (strip_star s) \<subseteq> set s"
proof -
  have "set (trim (take n s)) \<subseteq> set s" for n
    using set_trim [of "take n s"] set_take_subset [of n s] by blast
  then show ?thesis by (simp add: strip_star_def Let_def)
qed

lemma set_blank_out: "set (replace_all r '' '' s) \<subseteq> insert (CHR '' '') (set s)"
  using set_replace_all [of r "'' ''" s] by simp

lemma set_one_space: "set (one_space s) \<subseteq> insert (CHR '' '') (set s)"
  unfolding one_space_def using set_trim set_blank_out by blast

lemma set_strip_noise: "set (strip_noise s) \<subseteq> insert (CHR '' '') (set s)"
  unfolding strip_noise_def using set_one_space set_blank_out by blast

lemma set_replace_first: "set (replace_first r [] s) \<subseteq> set s"
proof (cases "search r [] s")
  case (Some m)
  obtain p e where m: "m = (p, e)" by (cases m)
  from search_split [OF Some [unfolded m]] obtain u v where "s = u @ rest p" "rest p = v @ rest e"
    by (auto simp: steps_def)
  then have "set (rest e) \<subseteq> set s" by auto
  then show ?thesis using set_take_subset [of "length s - length (rest p)" s]
    by (auto simp: replace_first_def Some m)
qed (simp add: replace_first_def)

lemma set_normalizeDescriptor: "set (normalizeDescriptor raw) \<subseteq> insert (CHR '' '') (set (toLowerCase raw))"
proof -
  let ?s = "strip_star (strip_prefix (trim (toLowerCase raw)))"
  let ?n = "one_space (replace_all REFERENCE_NUMBER '' '' (strip_noise ?s))"
  have "set ?s \<subseteq> set (toLowerCase raw)" using set_strip_star set_strip_prefix set_trim by blast
  moreover have "set ?n \<subseteq> insert (CHR '' '') (set ?s)"
    using set_one_space set_blank_out set_strip_noise by blast
  moreover have "set (trim (replace_first REGION_TAIL [] ?n)) \<subseteq> set ?n"
    using set_trim set_replace_first by blast
  ultimately show ?thesis unfolding normalizeDescriptor_def Let_def by blast
qed

lemma toLowerCase_normalizeDescriptor [simp]: "toLowerCase (normalizeDescriptor raw) = normalizeDescriptor raw"
proof -
  have "char_lower c = c" if "c \<in> set (normalizeDescriptor raw)" for c
  proof -
    from that set_normalizeDescriptor [of raw] have "c = CHR '' '' \<or> c \<in> set (toLowerCase raw)" by blast
    moreover have "char_lower (CHR '' '') = CHR '' ''" by code_simp
    ultimately show ?thesis by (auto simp: toLowerCase_def char_lower_lower)
  qed
  then show ?thesis by (simp add: toLowerCase_def map_idI)
qed

end
