(* ===== verification/Categorize.thy ===== *)
theory Categorize
  imports Descriptors LedgerTypes
begin

text \<open>
  The categorization pipeline (\<open>domain/categorization/\<close>: \<open>categorize.ts\<close>, \<open>lexicon.ts\<close>,
  \<open>user-correction-classifier.ts\<close>). A user's regular expressions are run by the host's engine,
  the parameter \<open>re\<close>: None when the pattern is malformed, else whether it matches, ignoring case.
\<close>

section \<open>The merchant lexicon\<close>

record lexiconEntry =
  le_match :: string
  le_categorySlug :: string
  le_confidence :: rat
  le_merchant :: string

abbreviation lx :: "string \<Rightarrow> string \<Rightarrow> nat \<Rightarrow> string \<Rightarrow> lexiconEntry" where
  "lx m c p n \<equiv> \<lparr>le_match = m, le_categorySlug = c, le_confidence = fl (of_nat p / 100), le_merchant = n\<rparr>"

definition MERCHANT_LEXICON :: "lexiconEntry list" where
  "MERCHANT_LEXICON =
    [lx ''starbucks'' ''coffee'' 95 ''Starbucks'', lx ''blue bottle'' ''coffee'' 95 ''Blue Bottle'',
     lx ''dunkin'' ''coffee'' 93 ''Dunkin'', lx ''tim hortons'' ''coffee'' 90 ''Tim Hortons'',
     lx ''peets'' ''coffee'' 94 ''Peet's Coffee'', lx ''second cup'' ''coffee'' 92 ''Second Cup'',
     lx ''caribou'' ''coffee'' 90 ''Caribou Coffee'', lx ''nespresso'' ''coffee'' 85 ''Nespresso'',
     lx ''whole foods'' ''groceries'' 95 ''Whole Foods'',
     lx ''trader joe'' ''groceries'' 95 ''Trader Joe's'', lx ''safeway'' ''groceries'' 93 ''Safeway'',
     lx ''kroger'' ''groceries'' 93 ''Kroger'', lx ''aldi'' ''groceries'' 92 ''Aldi'',
     lx ''publix'' ''groceries'' 93 ''Publix'', lx ''wegmans'' ''groceries'' 93 ''Wegmans'',
     lx ''meijer'' ''groceries'' 90 ''Meijer'', lx ''heb '' ''groceries'' 90 ''HEB'',
     lx ''giant eagle'' ''groceries'' 91 ''Giant Eagle'', lx ''loblaws'' ''groceries'' 92 ''Loblaws'',
     lx ''metro'' ''groceries'' 85 ''Metro'', lx ''sobeys'' ''groceries'' 92 ''Sobeys'',
     lx ''no frills'' ''groceries'' 90 ''No Frills'', lx ''freshco'' ''groceries'' 90 ''FreshCo'',
     lx ''costco'' ''groceries'' 75 ''Costco'', lx ''target'' ''shopping'' 70 ''Target'',
     lx ''walmart'' ''groceries'' 72 ''Walmart'', lx ''wal-mart'' ''groceries'' 72 ''Walmart'',
     lx ''freshco'' ''groceries'' 90 ''FreshCo'', lx ''dollarama'' ''shopping'' 82 ''Dollarama'',
     lx ''dollar tree'' ''shopping'' 82 ''Dollar Tree'', lx ''saq'' ''shopping'' 80 ''SAQ'',
     lx ''groceries'' ''groceries'' 86 ''Groceries'', lx ''grocery'' ''groceries'' 84 ''Grocery'',
     lx ''sweetgreen'' ''restaurants'' 93 ''Sweetgreen'', lx ''chipotle'' ''fast_food'' 94 ''Chipotle'',
     lx ''mcdonald'' ''fast_food'' 95 ''McDonald's'', lx ''panera'' ''restaurants'' 92 ''Panera Bread'',
     lx ''chick fil a'' ''fast_food'' 94 ''Chick-fil-A'',
     lx ''chick-fil-a'' ''fast_food'' 94 ''Chick-fil-A'', lx ''subway'' ''fast_food'' 90 ''Subway'',
     lx ''taco bell'' ''fast_food'' 93 ''Taco Bell'', lx ''wendy'' ''fast_food'' 93 ''Wendy's'',
     lx ''burger king'' ''fast_food'' 93 ''Burger King'', lx ''kfc'' ''fast_food'' 90 ''KFC'',
     lx ''pizza hut'' ''fast_food'' 92 ''Pizza Hut'', lx ''domino'' ''fast_food'' 92 ''Domino's'',
     lx ''five guys'' ''fast_food'' 92 ''Five Guys'', lx ''in n out'' ''fast_food'' 92 ''In-N-Out'',
     lx ''shake shack'' ''fast_food'' 92 ''Shake Shack'',
     lx ''olive garden'' ''restaurants'' 93 ''Olive Garden'',
     lx ''cheesecake factory'' ''restaurants'' 93 ''The Cheesecake Factory'',
     lx ''outback'' ''restaurants'' 91 ''Outback Steakhouse'',
     lx ''doordash'' ''food_delivery'' 95 ''DoorDash'',
     lx ''uber eats'' ''food_delivery'' 95 ''Uber Eats'',
     lx ''ubereats'' ''food_delivery'' 95 ''Uber Eats'',
     lx ''grubhub'' ''food_delivery'' 94 ''Grubhub'',
     lx ''postmates'' ''food_delivery'' 93 ''Postmates'',
     lx ''instacart'' ''food_delivery'' 93 ''Instacart'',
     lx ''hello fresh'' ''food_delivery'' 92 ''HelloFresh'',
     lx ''skip the dishes'' ''food_delivery'' 93 ''SkipTheDishes'',
     lx ''uber'' ''rideshare'' 88 ''Uber'', lx ''lyft'' ''rideshare'' 93 ''Lyft'',
     lx ''shell oil'' ''fuel'' 94 ''Shell'', lx ''shell'' ''fuel'' 85 ''Shell'',
     lx ''chevron'' ''fuel'' 93 ''Chevron'', lx ''petro canada'' ''fuel'' 92 ''Petro-Canada'',
     lx ''bp '' ''fuel'' 80 ''BP'', lx ''exxon'' ''fuel'' 93 ''ExxonMobil'',
     lx ''mobil'' ''fuel'' 92 ''Mobil'', lx ''esso'' ''fuel'' 92 ''Esso'',
     lx ''texaco'' ''fuel'' 92 ''Texaco'', lx ''sunoco'' ''fuel'' 92 ''Sunoco'',
     lx ''speedway'' ''fuel'' 90 ''Speedway'', lx ''marathon petroleum'' ''fuel'' 90 ''Marathon'',
     lx ''spothero'' ''parking'' 92 ''SpotHero'', lx ''parkmobile'' ''parking'' 92 ''ParkMobile'',
     lx ''netflix'' ''streaming'' 95 ''Netflix'', lx ''spotify'' ''streaming'' 95 ''Spotify'',
     lx ''disney plus'' ''streaming'' 95 ''Disney+'', lx ''disneyplus'' ''streaming'' 95 ''Disney+'',
     lx ''hulu'' ''streaming'' 94 ''Hulu'', lx ''youtube premium'' ''streaming'' 94 ''YouTube Premium'',
     lx ''paramount plus'' ''streaming'' 94 ''Paramount+'', lx ''peacock'' ''streaming'' 93 ''Peacock'',
     lx ''hbo max'' ''streaming'' 94 ''HBO Max'', lx ''max'' ''streaming'' 85 ''Max'',
     lx ''crave'' ''streaming'' 90 ''Crave'', lx ''crunchyroll'' ''streaming'' 92 ''Crunchyroll'',
     lx ''prime video'' ''streaming'' 93 ''Prime Video'',
     lx ''apple com bill'' ''subscriptions'' 80 ''Apple'', lx ''github'' ''software'' 90 ''GitHub'',
     lx ''adobe'' ''software'' 90 ''Adobe'', lx ''dropbox'' ''software'' 92 ''Dropbox'',
     lx ''notion'' ''software'' 90 ''Notion'', lx ''microsoft'' ''software'' 85 ''Microsoft'',
     lx ''google one'' ''software'' 90 ''Google One'', lx ''icloud'' ''software'' 90 ''iCloud'',
     lx ''zoom'' ''software'' 88 ''Zoom'', lx ''slack'' ''software'' 88 ''Slack'',
     lx ''figma'' ''software'' 90 ''Figma'', lx ''canva'' ''software'' 90 ''Canva'',
     lx ''chatgpt'' ''software'' 90 ''ChatGPT'', lx ''openai'' ''software'' 90 ''OpenAI'',
     lx ''audible'' ''subscriptions'' 92 ''Audible'', lx ''medium'' ''subscriptions'' 85 ''Medium'',
     lx ''steam'' ''gaming'' 90 ''Steam'', lx ''xbox'' ''gaming'' 90 ''Xbox'',
     lx ''playstation'' ''gaming'' 92 ''PlayStation'', lx ''nintendo'' ''gaming'' 92 ''Nintendo'',
     lx ''epic games'' ''gaming'' 92 ''Epic Games'', lx ''amzn mktp'' ''shopping'' 80 ''Amazon'',
     lx ''amazon'' ''shopping'' 78 ''Amazon'', lx ''best buy'' ''electronics'' 90 ''Best Buy'',
     lx ''apple store'' ''electronics'' 88 ''Apple Store'', lx ''ikea'' ''shopping'' 92 ''IKEA'',
     lx ''home depot'' ''shopping'' 90 ''The Home Depot'', lx ''lowes'' ''shopping'' 90 ''Lowe's'',
     lx ''nike'' ''clothing'' 90 ''Nike'', lx ''adidas'' ''clothing'' 90 ''Adidas'',
     lx ''h&m'' ''clothing'' 90 ''H&M'', lx ''zara'' ''clothing'' 90 ''Zara'',
     lx ''uniqlo'' ''clothing'' 92 ''Uniqlo'', lx ''old navy'' ''clothing'' 91 ''Old Navy'',
     lx ''gap'' ''clothing'' 85 ''Gap'', lx ''planet fitness'' ''fitness'' 94 ''Planet Fitness'',
     lx ''equinox'' ''fitness'' 92 ''Equinox'',
     lx ''24 hour fitness'' ''fitness'' 93 ''24 Hour Fitness'',
     lx ''la fitness'' ''fitness'' 92 ''LA Fitness'',
     lx ''crunch fitness'' ''fitness'' 92 ''Crunch Fitness'',
     lx ''orangetheory'' ''fitness'' 92 ''Orangetheory'',
     lx ''anytime fitness'' ''fitness'' 92 ''Anytime Fitness'',
     lx ''goodlife fitness'' ''fitness'' 92 ''GoodLife Fitness'', lx ''cvs'' ''pharmacy'' 88 ''CVS'',
     lx ''walgreens'' ''pharmacy'' 90 ''Walgreens'', lx ''rite aid'' ''pharmacy'' 90 ''Rite Aid'',
     lx ''shoppers drug mart'' ''pharmacy'' 90 ''Shoppers Drug Mart'',
     lx ''geico'' ''insurance'' 93 ''GEICO'', lx ''progressive'' ''insurance'' 92 ''Progressive'',
     lx ''state farm'' ''insurance'' 92 ''State Farm'', lx ''allstate'' ''insurance'' 92 ''Allstate'',
     lx ''liberty mutual'' ''insurance'' 92 ''Liberty Mutual'',
     lx ''comcast'' ''internet'' 90 ''Comcast'', lx ''xfinity'' ''internet'' 90 ''Xfinity'',
     lx ''spectrum'' ''internet'' 88 ''Spectrum'', lx ''cox communications'' ''internet'' 90 ''Cox'',
     lx ''verizon'' ''phone'' 88 ''Verizon'', lx ''at&t'' ''phone'' 88 ''AT&T'',
     lx ''att '' ''phone'' 80 ''AT&T'', lx ''t mobile'' ''phone'' 88 ''T-Mobile'',
     lx ''rogers'' ''phone'' 85 ''Rogers'', lx ''bell'' ''phone'' 85 ''Bell'',
     lx ''telus'' ''phone'' 85 ''Telus'', lx ''fido'' ''phone'' 90 ''Fido'',
     lx ''koodo'' ''phone'' 90 ''Koodo'', lx ''pg&e'' ''utilities'' 92 ''PG&E'',
     lx ''con edison'' ''utilities'' 92 ''Con Edison'',
     lx ''duke energy'' ''utilities'' 92 ''Duke Energy'',
     lx ''hydro one'' ''utilities'' 92 ''Hydro One'',
     lx ''hydro quebec'' ''utilities'' 92 (''Hydro-Qu'' @ CHR 0xE9 # ''bec''),
     lx ''bc hydro'' ''utilities'' 92 ''BC Hydro'',
     lx ''utility bill'' ''utilities'' 88 ''Utility bill'',
     lx ''utilities'' ''utilities'' 84 ''Utilities'', lx ''rent payment'' ''rent'' 90 ''Rent payment'',
     lx ''rent'' ''rent'' 82 ''Rent'', lx ''airbnb'' ''travel'' 93 ''Airbnb'',
     lx ''expedia'' ''travel'' 93 ''Expedia'', lx ''booking.com'' ''travel'' 92 ''Booking.com'',
     lx ''kayak'' ''travel'' 88 ''Kayak'', lx ''delta air'' ''travel'' 93 ''Delta Air Lines'',
     lx ''united airlines'' ''travel'' 93 ''United Airlines'',
     lx ''american airlines'' ''travel'' 93 ''American Airlines'',
     lx ''air canada'' ''travel'' 93 ''Air Canada'', lx ''westjet'' ''travel'' 93 ''WestJet'',
     lx ''jetblue'' ''travel'' 92 ''JetBlue'',
     lx ''southwest airlines'' ''travel'' 92 ''Southwest Airlines'',
     lx ''marriott'' ''travel'' 90 ''Marriott'', lx ''hilton'' ''travel'' 90 ''Hilton'',
     lx ''hyatt'' ''travel'' 90 ''Hyatt'', lx ''salary'' ''salary'' 92 ''Salary'',
     lx ''payroll'' ''salary'' 90 ''Payroll'', lx ''direct dep'' ''salary'' 88 ''Direct Deposit'',
     lx ''paypal'' ''freelance'' 70 ''PayPal'', lx ''upwork'' ''freelance'' 92 ''Upwork'',
     lx ''fiverr'' ''freelance'' 92 ''Fiverr'',
     lx ''interest paid'' ''interest_income'' 90 ''Interest'',
     lx ''transfer to savings'' ''savings'' 90 ''Savings Transfer'',
     lx ''vanguard'' ''investments'' 90 ''Vanguard'', lx ''fidelity'' ''investments'' 90 ''Fidelity'',
     lx ''coinbase'' ''investments'' 85 ''Coinbase'', lx ''robinhood'' ''investments'' 90 ''Robinhood'',
     lx ''wealthsimple'' ''investments'' 90 ''Wealthsimple'',
     lx ''overdraft fee'' ''fees'' 95 ''Overdraft Fee'',
     lx ''interest charge'' ''fees'' 95 ''Interest Charge'', lx ''late fee'' ''fees'' 95 ''Late Fee'',
     lx ''annual fee'' ''fees'' 93 ''Annual Fee'']"

definition LEXICON_BY_SPECIFICITY :: "lexiconEntry list" where
  "LEXICON_BY_SPECIFICITY =
     js_sort (\<lambda>a b. int (length (le_match b)) - int (length (le_match a))) MERCHANT_LEXICON"

section \<open>Rules, lexicon, model\<close>

type_synonym regex_engine = "string \<Rightarrow> string \<Rightarrow> bool option"

definition matchesRule :: "regex_engine \<Rightarrow> categorizationRule \<Rightarrow> string \<Rightarrow> bool" where
  "matchesRule re rule normalized = (case ru_matchType rule of
     MExact \<Rightarrow> normalized = toLowerCase (ru_pattern rule)
   | MContains \<Rightarrow> contains normalized (toLowerCase (ru_pattern rule))
   | MRegex \<Rightarrow> re (ru_pattern rule) normalized = Some True)"

record categorizationResult =
  cr_categorySlug :: string
  cr_source :: categorySource
  cr_confidence :: rat
  cr_merchant :: "string option"
  cr_reason :: string

record modelPrediction =
  mp_categorySlug :: string
  mp_confidence :: rat
  mp_reason :: "string option"

type_synonym modelClassifier = "string \<Rightarrow> modelPrediction option"

record categorizeOptions =
  co_rules :: "categorizationRule list"
  co_lexicon :: "lexiconEntry list"
  co_model :: "modelClassifier option"

definition MODEL_CONFIDENCE_FLOOR :: rat where
  "MODEL_CONFIDENCE_FLOOR = fl (6 / 10)"

definition rule_result :: "categorizationRule \<Rightarrow> categorizationResult" where
  "rule_result winner = \<lparr>cr_categorySlug = ru_categorySlug winner, cr_source = UserRule, cr_confidence = 1,
     cr_merchant = None, cr_reason = ''Your rule \"'' @ ru_pattern winner @ ''\" matches this transaction.''\<rparr>"

definition lexicon_result :: "lexiconEntry \<Rightarrow> categorizationResult" where
  "lexicon_result entry = \<lparr>cr_categorySlug = le_categorySlug entry, cr_source = Lexicon,
     cr_confidence = le_confidence entry, cr_merchant = Some (le_merchant entry),
     cr_reason = ''Recognized \"'' @ le_merchant entry @ ''\" from the merchant name.''\<rparr>"

definition model_result :: "modelPrediction \<Rightarrow> categorizationResult" where
  "model_result prediction = \<lparr>cr_categorySlug = mp_categorySlug prediction, cr_source = Model,
     cr_confidence = mp_confidence prediction, cr_merchant = None,
     cr_reason = (case mp_reason prediction of Some r \<Rightarrow> r
       | None \<Rightarrow> ''Predicted from similar transactions ('' @
           int_string (js_round (fl (mp_confidence prediction * 100))) @ ''% confident).'')\<rparr>"

definition unknown_result :: categorizationResult where
  "unknown_result = \<lparr>cr_categorySlug = UNKNOWN_CATEGORY, cr_source = UnknownSource, cr_confidence = 0,
     cr_merchant = None,
     cr_reason = ''No rule or known merchant matched. Categorize it and we will remember.''\<rparr>"

definition winning_rule :: "regex_engine \<Rightarrow> categorizationRule list \<Rightarrow> string \<Rightarrow> categorizationRule option" where
  "winning_rule re rules normalized =
     (case js_sort (\<lambda>a b. ru_priority a - ru_priority b) (filter (\<lambda>r. matchesRule re r normalized) rules) of
        [] \<Rightarrow> None | winner # _ \<Rightarrow> Some winner)"

definition categorizeDescriptor :: "regex_engine \<Rightarrow> string \<Rightarrow> categorizeOptions \<Rightarrow> categorizationResult" where
  "categorizeDescriptor re rawDescriptor options =
     (let normalized = normalizeDescriptor rawDescriptor
      in case winning_rule re (co_rules options) normalized of
           Some winner \<Rightarrow> rule_result winner
         | None \<Rightarrow> (case find (\<lambda>entry. contains normalized (le_match entry)) (co_lexicon options) of
             Some entry \<Rightarrow> lexicon_result entry
           | None \<Rightarrow> (case Option.bind (co_model options) (\<lambda>model. model normalized) of
               Some prediction \<Rightarrow>
                 if mp_confidence prediction \<ge> MODEL_CONFIDENCE_FLOOR then model_result prediction
                 else unknown_result
             | None \<Rightarrow> unknown_result)))"

definition ruleFromCorrection :: "string \<Rightarrow> string \<Rightarrow> string \<Rightarrow> categorizationRule" where
  "ruleFromCorrection rawDescriptor categorySlug i =
     \<lparr>ru_id = i, ru_matchType = MContains, ru_pattern = normalizeDescriptor rawDescriptor,
      ru_categorySlug = categorySlug, ru_priority = 0\<rparr>"

definition categorizeBatch :: "regex_engine \<Rightarrow> rawTransaction list \<Rightarrow> categorizeOptions
    \<Rightarrow> (string, categorizationResult) jsmap" where
  "categorizeBatch re transactions options =
     foldl (\<lambda>results t. map_set (rt_providerTxnId t) (categorizeDescriptor re (rt_descriptor t) options) results)
       [] transactions"

definition coverageRate :: "categorizationResult list \<Rightarrow> rat" where
  "coverageRate results =
     (let known = length (filter (\<lambda>r. cr_categorySlug r \<noteq> UNKNOWN_CATEGORY) results)
      in if results = [] then 0 else fl (of_nat known / of_nat (length results)))"

section \<open>Learning from corrections\<close>

definition MAX_CORRECTIONS :: nat where "MAX_CORRECTIONS = 300"
definition MIN_SHARED_TOKENS_FOR_FUZZY_MATCH :: nat where "MIN_SHARED_TOKENS_FOR_FUZZY_MATCH = 3"
definition MIN_SMALLER_SET_OVERLAP :: rat where "MIN_SMALLER_SET_OVERLAP = fl (8 / 10)"
definition MIN_JACCARD_FOR_FUZZY_MATCH :: rat where "MIN_JACCARD_FOR_FUZZY_MATCH = fl (65 / 100)"
definition MIN_CATEGORY_MARGIN :: rat where "MIN_CATEGORY_MARGIN = fl (15 / 100)"

record correctionExample =
  ce_normalizedDescriptor :: string
  ce_categorySlug :: string
  ce_tokens :: "string list"

record scoredExample = correctionExample +
  se_score :: rat
  se_exact :: bool

definition learned_text :: "transaction \<Rightarrow> string" where
  "learned_text t = (if tx_normalizedDescriptor t \<noteq> [] then tx_normalizedDescriptor t
     else normalizeDescriptor (tx_rawDescriptor t))"

definition note_category :: "(string, string list) jsmap \<Rightarrow> transaction \<Rightarrow> (string, string list) jsmap" where
  "note_category cats t =
     (if tx_categorySource t \<noteq> UserManual then cats
      else let normalized = learned_text t
        in if descriptorTokens normalized = [] then cats
           else map_set normalized (set_add (tx_categorySlug t) (get_or cats normalized [])) cats)"

fun collect_examples :: "(string, string list) jsmap \<Rightarrow> correctionExample list \<Rightarrow> transaction list
    \<Rightarrow> correctionExample list" where
  "collect_examples cats examples [] = examples"
| "collect_examples cats examples (t # ts) =
     (let normalized = learned_text t
      in if tx_categorySource t \<noteq> UserManual then collect_examples cats examples ts
         else if (case map_of cats normalized of None \<Rightarrow> True | Some c \<Rightarrow> length c \<noteq> 1) \<or>
             descriptorTokens normalized = [] then collect_examples cats examples ts
         else if \<exists>example \<in> set examples. ce_normalizedDescriptor example = normalized
           then collect_examples cats examples ts
         else let examples' = examples @ [\<lparr>ce_normalizedDescriptor = normalized,
                  ce_categorySlug = tx_categorySlug t, ce_tokens = set_of (descriptorTokens normalized)\<rparr>]
           in if length examples' = MAX_CORRECTIONS then examples' else collect_examples cats examples' ts)"

definition fromTransactions :: "transaction list \<Rightarrow> correctionExample list" where
  "fromTransactions ts = collect_examples (foldl note_category [] ts) [] ts"

definition score_example :: "string \<Rightarrow> string list \<Rightarrow> correctionExample \<Rightarrow> scoredExample option" where
  "score_example normalized tokens ex =
     (if ce_normalizedDescriptor ex = normalized
      then Some (correctionExample.extend ex \<lparr>se_score = 1, se_exact = True\<rparr>)
      else let shared = length (filter (\<lambda>token. token \<in> set (ce_tokens ex)) tokens);
               smallerSetOverlap = fl (of_nat shared / of_nat (min (length tokens) (length (ce_tokens ex))));
               jaccard = fl (of_nat shared / of_nat (length tokens + length (ce_tokens ex) - shared))
        in if shared < MIN_SHARED_TOKENS_FOR_FUZZY_MATCH \<or> smallerSetOverlap < MIN_SMALLER_SET_OVERLAP \<or>
             jaccard < MIN_JACCARD_FOR_FUZZY_MATCH then None
           else Some (correctionExample.extend ex \<lparr>se_score =
             fl (fl (fl (65 / 100) * jaccard) + fl (fl (35 / 100) * smallerSetOverlap)), se_exact = False\<rparr>))"

definition best_first :: "scoredExample \<Rightarrow> scoredExample \<Rightarrow> int" where
  "best_first left right = (if se_score left < se_score right then 1
     else if se_score left > se_score right then -1 else 0)"

definition candidates :: "correctionExample list \<Rightarrow> string \<Rightarrow> string list \<Rightarrow> scoredExample list" where
  "candidates examples normalized tokens =
     js_sort best_first (List.map_filter (score_example normalized tokens) examples)"

definition prediction_of :: "scoredExample \<Rightarrow> modelPrediction" where
  "prediction_of best = \<lparr>mp_categorySlug = ce_categorySlug best,
     mp_confidence = (if se_exact best then fl (98 / 100)
       else min (fl (94 / 100)) (fl (fl (6 / 10) + fl (se_score best * fl (34 / 100))))),
     mp_reason = Some (if se_exact best then ''Matches your earlier correction for this merchant.''
       else ''Matches a very similar merchant you categorised earlier.'')\<rparr>"

definition classify :: "correctionExample list \<Rightarrow> modelClassifier" where
  "classify examples normalizedDescriptor =
     (let normalized = normalizeDescriptor normalizedDescriptor;
          tokens = set_of (descriptorTokens normalized)
      in if tokens = [] \<or> examples = [] then None
         else case candidates examples normalized tokens of
             [] \<Rightarrow> None
           | best # others \<Rightarrow>
               (case find (\<lambda>c. ce_categorySlug c \<noteq> ce_categorySlug best) (best # others) of
                  Some runnerUp \<Rightarrow>
                    if fl (se_score best - se_score runnerUp) < MIN_CATEGORY_MARGIN then None
                    else Some (prediction_of best)
                | None \<Rightarrow> Some (prediction_of best)))"

record leaveOneOut =
  lo_labelled :: nat
  lo_predicted :: nat
  lo_correct :: nat
  lo_abstained :: nat
  lo_top1Accuracy :: "rat option"
  lo_coverage :: rat

definition guesses :: "correctionExample list \<Rightarrow> (correctionExample \<times> modelPrediction option) list" where
  "guesses labelled = map (\<lambda>i. (labelled ! i,
     classify (take i labelled @ drop (Suc i) labelled) (ce_normalizedDescriptor (labelled ! i))))
       [0..<length labelled]"

definition evaluateLeaveOneOut :: "transaction list \<Rightarrow> leaveOneOut" where
  "evaluateLeaveOneOut ts =
     (let labelled = fromTransactions ts; n = length labelled
      in if n < 2 then \<lparr>lo_labelled = n, lo_predicted = 0, lo_correct = 0, lo_abstained = n,
           lo_top1Accuracy = None, lo_coverage = 0\<rparr>
         else let gs = guesses labelled;
                predicted = length (filter (\<lambda>(_, g). g \<noteq> None) gs);
                correct = length (filter (\<lambda>(e, g). map_option mp_categorySlug g = Some (ce_categorySlug e)) gs)
           in \<lparr>lo_labelled = n, lo_predicted = predicted, lo_correct = correct, lo_abstained = n - predicted,
               lo_top1Accuracy = (if predicted = 0 then None else Some (fl (of_nat correct / of_nat predicted))),
               lo_coverage = fl (of_nat predicted / of_nat n)\<rparr>)"

end
