(* ===== verification/Subscriptions.thy ===== *)
theory Subscriptions
  imports LedgerTypes Dates
begin

text \<open>
  Recurring charges found in the ledger (\<open>domain/insights/subscriptions.ts\<close>). Ratios are binary64;
  a date that cannot be read throws, which is None. \<open>lc\<close> is the host's \<open>localeCompare\<close>.
\<close>

section \<open>Types and limits\<close>

datatype cadence = CWeekly | CMonthly | CQuarterly | CYearly

record priceIncrease =
  pi_from :: int
  pi_to :: int
  pi_percent :: rat

record detectedSubscription =
  ds_merchant :: string
  ds_normalizedDescriptor :: string
  ds_categorySlug :: string
  ds_cadence :: cadence
  ds_observedIntervalDays :: int
  ds_typicalAmount :: int
  ds_currency :: string
  ds_occurrences :: nat
  ds_firstSeen :: string
  ds_lastSeen :: string
  ds_nextExpected :: string
  ds_annualCost :: int
  ds_priceIncrease :: "priceIncrease option"
  ds_transactionIds :: "string list"
  ds_confidence :: rat

definition CADENCE_WINDOWS :: "(cadence \<times> int \<times> int) list" where
  "CADENCE_WINDOWS = [(CWeekly, 7, 2), (CMonthly, 30, 5), (CQuarterly, 91, 10), (CYearly, 365, 20)]"

definition MIN_OCCURRENCES :: nat where "MIN_OCCURRENCES = 3"
definition AMOUNT_TOLERANCE :: rat where "AMOUNT_TOLERANCE = fl (15 / 100)"
definition MIN_AMOUNT_CONSISTENCY :: rat where "MIN_AMOUNT_CONSISTENCY = fl (7 / 10)"
definition MIN_CONFIDENCE :: rat where "MIN_CONFIDENCE = fl (6 / 10)"
definition PRICE_INCREASE_THRESHOLD :: rat where "PRICE_INCREASE_THRESHOLD = fl (5 / 100)"

section \<open>Amounts\<close>

definition median :: "int list \<Rightarrow> int" where
  "median values =
     (if values = [] then 0
      else let sorted = js_sort (\<lambda>a b. a - b) values; mid = length sorted div 2
        in if length sorted mod 2 = 1 then sorted ! mid
           else js_round (fl (of_int (sorted ! (mid - 1) + sorted ! mid) / 2)))"

definition near_median :: "int \<Rightarrow> int \<Rightarrow> bool" where
  "near_median m a \<longleftrightarrow> fl (of_int \<bar>a - m\<bar> / of_int m) \<le> AMOUNT_TOLERANCE"

definition segmentConsistent :: "int list \<Rightarrow> bool" where
  "segmentConsistent amounts =
     (if amounts = [] then False
      else let m = median amounts in if m \<le> 0 then False else list_all (near_median m) amounts)"

record amountAnalysis =
  am_typicalAmount :: int
  am_consistency :: rat
  am_priceIncrease :: "priceIncrease option"

definition price_step :: "int list \<Rightarrow> nat \<Rightarrow> amountAnalysis option" where
  "price_step amounts i =
     (let earlier = take i amounts; later = drop i amounts
      in if \<not> segmentConsistent earlier \<or> \<not> segmentConsistent later then None
         else let old = median earlier; new = median later
           in if old \<le> 0 then None
              else let percent = fl (fl (of_int (new - old) / of_int old) * 100)
                in if \<bar>percent\<bar> < fl (PRICE_INCREASE_THRESHOLD * 100) then None
                   else Some \<lparr>am_typicalAmount = new, am_consistency = 1, am_priceIncrease =
                     (if percent > 0 then Some \<lparr>pi_from = old, pi_to = new, pi_percent = percent\<rparr>
                      else None)\<rparr>)"

definition analyzeAmounts :: "int list \<Rightarrow> amountAnalysis" where
  "analyzeAmounts amounts =
     (let overall = median amounts;
          near = (if overall > 0 then filter (near_median overall) amounts else []);
          consistency = (if amounts = [] then 0 else fl (of_nat (length near) / of_nat (length amounts)))
      in case List.map_filter (price_step amounts) [2..<length amounts] of
           step # _ \<Rightarrow> step
         | [] \<Rightarrow> \<lparr>am_typicalAmount = overall, am_consistency = consistency, am_priceIncrease = None\<rparr>)"

section \<open>Intervals\<close>

definition classifyCadence :: "int \<Rightarrow> (cadence \<times> rat) option" where
  "classifyCadence interval =
     (case find (\<lambda>(_, days, tolerance). \<bar>interval - days\<bar> \<le> tolerance) CADENCE_WINDOWS of
        None \<Rightarrow> None
      | Some (c, days, tolerance) \<Rightarrow>
          Some (c, fl (1 - fl (of_int \<bar>interval - days\<bar> / of_int tolerance))))"

fun ANNUAL_MULTIPLIER :: "cadence \<Rightarrow> int" where
  "ANNUAL_MULTIPLIER CWeekly = 52"
| "ANNUAL_MULTIPLIER CMonthly = 12"
| "ANNUAL_MULTIPLIER CQuarterly = 4"
| "ANNUAL_MULTIPLIER CYearly = 1"

fun next_charge :: "cadence \<Rightarrow> string \<Rightarrow> int \<Rightarrow> string option" where
  "next_charge CWeekly last_seen interval = addDays last_seen interval"
| "next_charge CMonthly last_seen interval = addMonths last_seen 1"
| "next_charge CQuarterly last_seen interval = addMonths last_seen 3"
| "next_charge CYearly last_seen interval = addMonths last_seen 12"

fun intervals_of :: "string list \<Rightarrow> int list option" where
  "intervals_of (a # b # dates) = (case (daysBetweenInclusive a b, intervals_of (b # dates)) of
     (Some n, Some ns) \<Rightarrow> Some ((n - 1) # ns) | _ \<Rightarrow> None)"
| "intervals_of dates = Some []"

definition regularity :: "int list \<Rightarrow> int \<Rightarrow> rat" where
  "regularity intervals observed =
     (let drift = fl (of_int (sum_list (map (\<lambda>i. \<bar>i - observed\<bar>) intervals)) /
            of_nat (max (length intervals) 1))
      in max 0 (fl (1 - fl (drift / of_int (max observed 1)))))"

definition subscription_confidence :: "rat \<Rightarrow> rat \<Rightarrow> rat \<Rightarrow> rat" where
  "subscription_confidence fit reg consistency =
     min 1 (fl (fl (fl (fl (4 / 10) * fit) + fl (fl (3 / 10) * reg)) + fl (fl (3 / 10) * consistency)))"

section \<open>Detection\<close>

definition is_charge :: "transaction \<Rightarrow> bool" where
  "is_charge t \<longleftrightarrow> tx_excludedFromAnalytics t \<noteq> Some True \<and> \<not> tx_pending t \<and> tx_amount t < 0 \<and>
     isSpendingCategory (tx_categorySlug t) \<and> tx_normalizedDescriptor t \<noteq> []"

definition charge_key :: "transaction \<Rightarrow> string" where
  "charge_key t = tx_normalizedDescriptor t @ CHR 0x00 # tx_currency t"

definition group_charges :: "transaction list \<Rightarrow> (string, transaction list) jsmap" where
  "group_charges ts =
     foldl (\<lambda>m t. if is_charge t then map_set (charge_key t) (get_or m (charge_key t) [] @ [t]) m else m) [] ts"

text \<open>One group of charges: the outer None is a thrown error, the inner one a group passed over.\<close>

definition detect_group :: "(string \<Rightarrow> string \<Rightarrow> int) \<Rightarrow> transaction list \<Rightarrow> detectedSubscription option option" where
  "detect_group lc raw =
     (if length raw < MIN_OCCURRENCES then Some None
      else let charges = js_sort (\<lambda>a b. lc (tx_postedAt a) (tx_postedAt b)) raw;
             descriptor = tx_normalizedDescriptor (hd charges);
             amounts = analyzeAmounts (map (\<lambda>t. \<bar>tx_amount t\<bar>) charges)
        in if am_typicalAmount amounts = 0 then Some None
           else if am_consistency amounts < MIN_AMOUNT_CONSISTENCY then Some None
           else case intervals_of (map tx_postedAt charges) of
               None \<Rightarrow> None
             | Some intervals \<Rightarrow>
                 let observed = median intervals
                 in case classifyCadence observed of
                      None \<Rightarrow> Some None
                    | Some (c, fit) \<Rightarrow>
                        let confidence = subscription_confidence fit (regularity intervals observed)
                              (am_consistency amounts)
                        in if confidence < MIN_CONFIDENCE then Some None
                           else case next_charge c (tx_postedAt (last charges)) observed of
                               None \<Rightarrow> None
                             | Some expected \<Rightarrow> Some (Some
                                 \<lparr>ds_merchant = (case tx_merchant (last charges) of None \<Rightarrow> descriptor | Some m \<Rightarrow> m),
                                  ds_normalizedDescriptor = descriptor,
                                  ds_categorySlug = tx_categorySlug (last charges), ds_cadence = c,
                                  ds_observedIntervalDays = observed,
                                  ds_typicalAmount = am_typicalAmount amounts,
                                  ds_currency = tx_currency (last charges), ds_occurrences = length charges,
                                  ds_firstSeen = tx_postedAt (hd charges), ds_lastSeen = tx_postedAt (last charges),
                                  ds_nextExpected = expected,
                                  ds_annualCost = am_typicalAmount amounts * ANNUAL_MULTIPLIER c,
                                  ds_priceIncrease = am_priceIncrease amounts,
                                  ds_transactionIds = map tx_id charges, ds_confidence = confidence\<rparr>))"

definition detectSubscriptions :: "(string \<Rightarrow> string \<Rightarrow> int) \<Rightarrow> transaction list \<Rightarrow> detectedSubscription list option" where
  "detectSubscriptions lc ts =
     (case those (map (detect_group lc) (map snd (group_charges ts))) of
        None \<Rightarrow> None
      | Some found \<Rightarrow> Some (js_sort (\<lambda>a b. ds_annualCost b - ds_annualCost a) (List.map_filter id found)))"

definition totalAnnualSubscriptionCost :: "detectedSubscription list \<Rightarrow> int" where
  "totalAnnualSubscriptionCost subs = sum_list (map ds_annualCost subs)"

definition is_stale :: "string \<Rightarrow> detectedSubscription \<Rightarrow> bool option" where
  "is_stale today s = map_option (\<lambda>n. of_int (n - 1) > max 7 (fl (of_int (ds_observedIntervalDays s) * (1 / 2))))
     (daysBetweenInclusive (ds_nextExpected s) today)"

definition staleSubscriptions :: "detectedSubscription list \<Rightarrow> string \<Rightarrow> detectedSubscription list option" where
  "staleSubscriptions subs today =
     map_option (\<lambda>flags. map fst (filter snd (zip subs flags))) (those (map (is_stale today) subs))"

section \<open>What the result depends on\<close>

text \<open>The flag that detection sets is not one of its inputs.\<close>

definition unflag :: "transaction \<Rightarrow> transaction" where
  "unflag t = t\<lparr>tx_isRecurring := False\<rparr>"

lemma unflag_fields [simp]:
  "tx_id (unflag t) = tx_id t" "tx_postedAt (unflag t) = tx_postedAt t" "tx_amount (unflag t) = tx_amount t"
  "tx_currency (unflag t) = tx_currency t" "tx_merchant (unflag t) = tx_merchant t"
  "tx_normalizedDescriptor (unflag t) = tx_normalizedDescriptor t"
  "tx_categorySlug (unflag t) = tx_categorySlug t" "is_charge (unflag t) = is_charge t"
  "charge_key (unflag t) = charge_key t"
  by (simp_all add: unflag_def is_charge_def charge_key_def)

end
