(* ===== verification/LedgerService.thy ===== *)
theory LedgerService
  imports LedgerSync Categorize Subscriptions
begin

text \<open>
  The ledger service (\<open>modules/ledger/ledger.service.ts\<close>) over the in-memory stores, with tags
  (\<open>domain/transactions/tags.ts\<close>) and the event bus (\<open>infra/events/finance-event-bus.ts\<close>). The
  aggregator, the clock, random identifiers, the regular-expression engine and \<open>localeCompare\<close>
  are fields of the environment.
\<close>

section \<open>Events\<close>

datatype financeEventType = TransactionImported | TransactionUpdated | TransactionCategorized
  | BankSyncCompleted | AccountConnected | AccountUpdated | AccountDisconnected

record financeEvent =
  fe_type :: financeEventType
  fe_userId :: string
  fe_at :: string
  fe_linkId :: "string option"
  fe_transactionIds :: "string list option"
  fe_inserted :: "nat option"
  fe_updated :: "nat option"
  fe_removed :: "nat option"
  fe_fetched :: "nat option"

definition newEvent :: "financeEventType \<Rightarrow> string \<Rightarrow> string \<Rightarrow> financeEvent" where
  "newEvent t u now = \<lparr>fe_type = t, fe_userId = u, fe_at = now, fe_linkId = None, fe_transactionIds = None,
     fe_inserted = None, fe_updated = None, fe_removed = None, fe_fetched = None\<rparr>"

text \<open>
  The bus: the set of handlers in subscription order. A handler maps an event to whether it
  succeeds; publishing calls each once and turns every failure into a warning.
\<close>

definition subscribe :: "'h list \<Rightarrow> 'h \<Rightarrow> 'h list" where
  "subscribe handlers h = set_add h handlers"

definition unsubscribe :: "'h list \<Rightarrow> 'h \<Rightarrow> 'h list" where
  "unsubscribe handlers h = remove1 h handlers"

definition publish :: "('h \<Rightarrow> financeEvent \<Rightarrow> bool) \<Rightarrow> 'h list \<Rightarrow> financeEvent
    \<Rightarrow> ('h \<times> financeEvent) list \<times> ('h \<times> financeEventType) list" where
  "publish succeeds handlers e =
     (map (\<lambda>h. (h, e)) handlers, map (\<lambda>h. (h, fe_type e)) (filter (\<lambda>h. \<not> succeeds h e) handlers))"

section \<open>State and environment\<close>

text \<open>\<open>ld_events\<close> are the events published so far, in order.\<close>

record ledgerState =
  ld_accounts :: accountState
  ld_transactions :: transactionStore
  ld_rules :: "categorizationRule buckets"
  ld_events :: "financeEvent list"

record ledgerEnv =
  en_localeCompare :: "string \<Rightarrow> string \<Rightarrow> int"
  en_regex :: regex_engine
  en_today :: string
  en_now :: string
  en_millis :: nat
  en_uuid :: string
  en_listAccounts :: "string \<Rightarrow> account list"
  en_fetch :: "string \<Rightarrow> rawTransaction list"

datatype ledger_error = BadDate | NoManualAccount | NoTransaction string | UnknownCategory string
  | NoRule | InvalidTags string | InvalidPreference string

definition emit :: "financeEvent \<Rightarrow> ledgerState \<Rightarrow> ledgerState" where
  "emit e s = s\<lparr>ld_events := ld_events s @ [e]\<rparr>"

definition allTransactions :: transactionQuery where
  "allTransactions = \<lparr>tq_accountId = None, tq_categorySlug = None, tq_categoryKind = None, tq_range = None,
     tq_search = None, tq_pending = None, tq_recurring = None, tq_amountMin = None, tq_amountMax = None,
     tq_tag = None, tq_before = None, tq_limit = None\<rparr>"

definition list_all_of :: "ledgerEnv \<Rightarrow> transactionStore \<Rightarrow> string \<Rightarrow> transaction list" where
  "list_all_of env s u = txn_list (en_localeCompare env) s u allTransactions"

section \<open>Syncing\<close>

record syncResult =
  sy_accounts :: nat
  sy_fetched :: nat
  sy_inserted :: nat
  sy_updated :: nat
  sy_coverage :: rat
  sy_needsReview :: nat
  sy_recurringDetected :: nat

definition toTransaction :: "rawTransaction \<Rightarrow> categorizationResult \<Rightarrow> transaction" where
  "toTransaction raw c =
     \<lparr>tx_id = ''txn_'' @ rt_accountId raw @ ''_'' @ rt_providerTxnId raw, tx_accountId = rt_accountId raw,
      tx_providerTxnId = rt_providerTxnId raw, tx_postedAt = rt_postedAt raw, tx_amount = rt_amount raw,
      tx_currency = rt_currency raw, tx_rawDescriptor = rt_descriptor raw,
      tx_normalizedDescriptor = normalizeDescriptor (rt_descriptor raw), tx_merchant = cr_merchant c,
      tx_merchantOverride = None, tx_note = None, tx_excludedFromAnalytics = None,
      tx_categorySlug = cr_categorySlug c, tx_categorySource = cr_source c,
      tx_categoryConfidence = cr_confidence c, tx_isRecurring = False, tx_recurringOverride = None,
      tx_duplicateReported = None, tx_pending = rt_pending raw, tx_tags = None, tx_importBatchId = None\<rparr>"

definition sync_options :: "ledgerEnv \<Rightarrow> ledgerState \<Rightarrow> string \<Rightarrow> categorizeOptions" where
  "sync_options env s u = \<lparr>co_rules = rule_list (en_localeCompare env) (ld_rules s) u,
     co_lexicon = LEXICON_BY_SPECIFICITY,
     co_model = Some (classify (fromTransactions (list_all_of env (ld_transactions s) u)))\<rparr>"

definition mark_recurring :: "string \<Rightarrow> string set \<Rightarrow> transactionStore \<Rightarrow> transaction \<Rightarrow> transactionStore" where
  "mark_recurring u recurring store t =
     (if tx_recurringOverride t \<noteq> None then store
      else let shouldBeRecurring = (tx_normalizedDescriptor t \<in> recurring)
        in if tx_isRecurring t \<noteq> shouldBeRecurring
           then snd (txn_update store u (tx_id t) (\<lambda>t. t\<lparr>tx_isRecurring := shouldBeRecurring\<rparr>))
           else store)"

definition recurring_descriptors :: "detectedSubscription list \<Rightarrow> string set" where
  "recurring_descriptors subs = set (map ds_normalizedDescriptor subs)"

definition sync_accounts :: "ledgerEnv \<Rightarrow> string \<Rightarrow> string \<Rightarrow> accountState \<Rightarrow> accountState" where
  "sync_accounts env u link s =
     snd (recordNetWorthSnapshot (en_localeCompare env) (acc_upsertMany s u (en_listAccounts env link)) u
       (en_today env))"

definition sync_categorized :: "ledgerEnv \<Rightarrow> ledgerState \<Rightarrow> string \<Rightarrow> string \<Rightarrow> categorizationResult list" where
  "sync_categorized env s u link =
     map (\<lambda>raw. categorizeDescriptor (en_regex env) (rt_descriptor raw) (sync_options env s u)) (en_fetch env link)"

definition sync_events :: "ledgerEnv \<Rightarrow> string \<Rightarrow> syncResult \<Rightarrow> financeEvent list" where
  "sync_events env u r =
     [(newEvent BankSyncCompleted u (en_now env))\<lparr>fe_fetched := Some (sy_fetched r),
        fe_inserted := Some (sy_inserted r), fe_updated := Some (sy_updated r)\<rparr>] @
     (if sy_inserted r > 0
      then [(newEvent TransactionImported u (en_now env))\<lparr>fe_inserted := Some (sy_inserted r)\<rparr>] else []) @
     (if sy_updated r > 0
      then [(newEvent TransactionUpdated u (en_now env))\<lparr>fe_updated := Some (sy_updated r)\<rparr>] else [])"

text \<open>Rows already stored when detection throws stay stored.\<close>

definition sync :: "ledgerEnv \<Rightarrow> ledgerState \<Rightarrow> string \<Rightarrow> string \<Rightarrow> (ledger_error + syncResult) \<times> ledgerState" where
  "sync env s u link =
     (let raw = en_fetch env link;
          results = sync_categorized env s u link;
          mapped = map2 toTransaction raw results;
          accounts' = sync_accounts env u link (ld_accounts s)
      in case txn_upsertMany (ld_transactions s) u mapped of
           ((inserted, updated), store) \<Rightarrow>
             let stored = list_all_of env store u;
                 s' = s\<lparr>ld_accounts := accounts', ld_transactions := store\<rparr>
             in case detectSubscriptions (en_localeCompare env) stored of
                  None \<Rightarrow> (Inl BadDate, s')
                | Some subscriptions \<Rightarrow>
                    let marked = foldl (mark_recurring u (recurring_descriptors subscriptions)) store stored;
                        result = \<lparr>sy_accounts = length (en_listAccounts env link), sy_fetched = length raw,
                          sy_inserted = inserted, sy_updated = updated, sy_coverage = coverageRate results,
                          sy_needsReview = length (filter (\<lambda>r. cr_source r = UnknownSource) results),
                          sy_recurringDetected = length subscriptions\<rparr>
                    in (Inr result, s'\<lparr>ld_transactions := marked,
                          ld_events := ld_events s' @ sync_events env u result\<rparr>))"

section \<open>Manual accounts\<close>

definition store_account :: "ledgerEnv \<Rightarrow> string \<Rightarrow> account \<Rightarrow> ledgerState \<Rightarrow> ledgerState" where
  "store_account env u a s = s\<lparr>ld_accounts := snd (recordNetWorthSnapshot (en_localeCompare env)
     (acc_upsertMany (ld_accounts s) u [a]) u (en_today env))\<rparr>"

definition createManualAccount :: "ledgerEnv \<Rightarrow> ledgerState \<Rightarrow> string \<Rightarrow> account \<Rightarrow> account \<times> ledgerState" where
  "createManualAccount env s u details =
     (let account = details\<lparr>ac_id := ''manual_'' @ en_uuid env, ac_mask := ''manual'', ac_source := Some ManualRow\<rparr>
      in (account, emit (newEvent AccountConnected u (en_now env)) (store_account env u account s)))"

definition editable :: "ledgerState \<Rightarrow> string \<Rightarrow> string \<Rightarrow> account option" where
  "editable s u i = (case acc_get (ld_accounts s) u i of
     None \<Rightarrow> None | Some a \<Rightarrow> if ac_source a \<noteq> Some ManualRow then None else Some a)"

definition updateManualAccount :: "ledgerEnv \<Rightarrow> ledgerState \<Rightarrow> string \<Rightarrow> string \<Rightarrow> account
    \<Rightarrow> (ledger_error + account) \<times> ledgerState" where
  "updateManualAccount env s u i details =
     (case editable s u i of
        None \<Rightarrow> (Inl NoManualAccount, s)
      | Some existing \<Rightarrow>
          let account = details\<lparr>ac_id := ac_id existing, ac_mask := ac_mask existing, ac_source := Some ManualRow\<rparr>
          in (Inr account, emit (newEvent AccountUpdated u (en_now env)) (store_account env u account s)))"

definition removeManualAccount :: "ledgerEnv \<Rightarrow> ledgerState \<Rightarrow> string \<Rightarrow> string \<Rightarrow> (ledger_error + unit) \<times> ledgerState" where
  "removeManualAccount env s u i =
     (case editable s u i of
        None \<Rightarrow> (Inl NoManualAccount, s)
      | Some _ \<Rightarrow> (Inr (), emit (newEvent AccountDisconnected u (en_now env))
          (s\<lparr>ld_accounts := snd (recordNetWorthSnapshot (en_localeCompare env)
             (snd (acc_remove (ld_accounts s) u i)) u (en_today env))\<rparr>)))"

section \<open>Tags and preferences\<close>

text \<open>A value of a request body, as far as the code looks into it.\<close>

datatype jsValue = JsUndefined | JsNull | JsBool bool | JsNumber num | JsString string
  | JsArray "jsValue list" | JsObject

fun add_tag :: "string + string list \<Rightarrow> jsValue \<Rightarrow> string + string list" where
  "add_tag (Inl e) raw = Inl e"
| "add_tag (Inr normalized) (JsString raw) =
     (let tag = toLowerCase (trim raw)
      in if length tag < 1 \<or> length tag > 40 then Inl ''each tag must be from 1 through 40 characters''
         else Inr (set_add tag normalized))"
| "add_tag (Inr normalized) raw = Inl ''each tag must be text''"

definition normalizeTransactionTags :: "(string \<Rightarrow> string \<Rightarrow> int) \<Rightarrow> jsValue \<Rightarrow> string + string list" where
  "normalizeTransactionTags lc input = (case input of
     JsArray raws \<Rightarrow>
       if length raws > 20 then Inl ''a transaction can have at most 20 tags''
       else (case foldl add_tag (Inr []) raws of Inl e \<Rightarrow> Inl e | Inr tags \<Rightarrow> Inr (js_sort lc tags))
   | _ \<Rightarrow> Inl ''tags must be an array'')"

definition store_update :: "ledgerEnv \<Rightarrow> ledgerState \<Rightarrow> string \<Rightarrow> string \<Rightarrow> (transaction \<Rightarrow> transaction)
    \<Rightarrow> (ledger_error + transaction) \<times> ledgerState" where
  "store_update env s u i patch =
     (case txn_update (ld_transactions s) u i patch of
        (None, _) \<Rightarrow> (Inl (NoTransaction i), s)
      | (Some t, store) \<Rightarrow> (Inr t, emit ((newEvent TransactionUpdated u (en_now env))\<lparr>fe_updated := Some 1\<rparr>)
          (s\<lparr>ld_transactions := store\<rparr>)))"

definition updateTransactionTags :: "ledgerEnv \<Rightarrow> ledgerState \<Rightarrow> string \<Rightarrow> string \<Rightarrow> jsValue
    \<Rightarrow> (ledger_error + transaction) \<times> ledgerState" where
  "updateTransactionTags env s u i rawTags =
     (case normalizeTransactionTags (en_localeCompare env) rawTags of
        Inl e \<Rightarrow> (Inl (InvalidTags e), s)
      | Inr tags \<Rightarrow> store_update env s u i (\<lambda>t. t\<lparr>tx_tags := Some tags\<rparr>))"

definition text_choice :: "string \<Rightarrow> nat \<Rightarrow> jsValue \<Rightarrow> ledger_error + string option" where
  "text_choice key limit v = (case v of
     JsString s \<Rightarrow> (let text = trim s
       in if length text > limit
          then Inl (InvalidPreference (key @ '' must be at most '' @ nat_string limit @ '' characters''))
          else Inr (if text = [] then None else Some text))
   | JsUndefined \<Rightarrow> Inr None
   | JsNull \<Rightarrow> Inr None
   | _ \<Rightarrow> Inl (InvalidPreference (key @ '' must be text'')))"

definition flag_choice :: "string \<Rightarrow> jsValue \<Rightarrow> ledger_error + bool" where
  "flag_choice key v = (case v of
     JsBool b \<Rightarrow> Inr b | _ \<Rightarrow> Inl (InvalidPreference (key @ '' must be a boolean'')))"

text \<open>One entry of the patch: the change it makes to the row, composed with those before it.\<close>

definition add_choice :: "ledger_error + (transaction \<Rightarrow> transaction) \<Rightarrow> string \<times> jsValue
    \<Rightarrow> ledger_error + (transaction \<Rightarrow> transaction)" where
  "add_choice acc entry = (case acc of Inl e \<Rightarrow> Inl e | Inr patch \<Rightarrow>
     (case entry of (key, v) \<Rightarrow>
       if key = ''merchantOverride'' then
         map_sum id (\<lambda>text. \<lambda>t. (patch t)\<lparr>tx_merchantOverride := text\<rparr>) (text_choice key 120 v)
       else if key = ''note'' then
         map_sum id (\<lambda>text. \<lambda>t. (patch t)\<lparr>tx_note := text\<rparr>) (text_choice key 2000 v)
       else if key = ''excludedFromAnalytics'' then
         map_sum id (\<lambda>b. \<lambda>t. (patch t)\<lparr>tx_excludedFromAnalytics := Some b\<rparr>) (flag_choice key v)
       else if key = ''isRecurring'' then
         map_sum id (\<lambda>b. \<lambda>t. (patch t)\<lparr>tx_isRecurring := b, tx_recurringOverride := Some b\<rparr>) (flag_choice key v)
       else if key = ''duplicateReported'' then
         map_sum id (\<lambda>b. \<lambda>t. (patch t)\<lparr>tx_duplicateReported := Some b\<rparr>) (flag_choice key v)
       else Inr patch))"

definition updateTxnPreferences :: "ledgerEnv \<Rightarrow> ledgerState \<Rightarrow> string \<Rightarrow> string \<Rightarrow> (string \<times> jsValue) list
    \<Rightarrow> (ledger_error + transaction) \<times> ledgerState" where
  "updateTxnPreferences env s u i patch =
     (case txn_get (ld_transactions s) u i of
        None \<Rightarrow> (Inl (NoTransaction i), s)
      | Some _ \<Rightarrow> (case foldl add_choice (Inr id) patch of
          Inl e \<Rightarrow> (Inl e, s)
        | Inr next_fields \<Rightarrow> store_update env s u i next_fields))"

section \<open>Corrections and rules\<close>

definition categorize_as :: "string \<Rightarrow> categorySource \<Rightarrow> transaction \<Rightarrow> transaction" where
  "categorize_as slug source t =
     t\<lparr>tx_categorySlug := slug, tx_categorySource := source, tx_categoryConfidence := 1\<rparr>"

definition backfill_row :: "string \<Rightarrow> string \<Rightarrow> string \<Rightarrow> string \<Rightarrow> nat \<times> transactionStore \<Rightarrow> transaction
    \<Rightarrow> nat \<times> transactionStore" where
  "backfill_row u i slug pattern acc t = (case acc of (alsoUpdated, store) \<Rightarrow>
     if tx_id t = i then acc
     else if tx_categorySource t = UserManual then acc
     else if \<not> contains (tx_normalizedDescriptor t) pattern then acc
     else (alsoUpdated + 1, snd (txn_update store u (tx_id t) (categorize_as slug UserRule))))"

definition correction_rule :: "ledgerEnv \<Rightarrow> transaction \<Rightarrow> string \<Rightarrow> categorizationRule" where
  "correction_rule env existing slug = ruleFromCorrection (tx_rawDescriptor existing) slug
     (''rule_'' @ nat_string (en_millis env) @ ''_'' @ drop (length (tx_id existing) - 6) (tx_id existing))"

definition recategorize :: "ledgerEnv \<Rightarrow> ledgerState \<Rightarrow> string \<Rightarrow> string \<Rightarrow> string \<Rightarrow> bool
    \<Rightarrow> (ledger_error + transaction \<times> nat) \<times> ledgerState" where
  "recategorize env s u i slug createRule =
     (if \<not> isKnownCategory slug then (Inl (UnknownCategory slug), s)
      else case txn_get (ld_transactions s) u i of
          None \<Rightarrow> (Inl (NoTransaction i), s)
        | Some existing \<Rightarrow>
            (case txn_update (ld_transactions s) u i (categorize_as slug UserManual) of
               (updated, store) \<Rightarrow>
                 let rule = correction_rule env existing slug;
                     (alsoUpdated, store', rules') =
                       (if createRule
                        then (case foldl (backfill_row u i slug (ru_pattern rule)) (0, store)
                                (list_all_of env store u) of
                                (n, st) \<Rightarrow> (n, st, rule_create (ld_rules s) u rule))
                        else (0, store, ld_rules s));
                     event = (newEvent TransactionCategorized u (en_now env))
                       \<lparr>fe_transactionIds := Some [i], fe_updated := Some (alsoUpdated + 1)\<rparr>
                 in (Inr (the updated, alsoUpdated),
                     emit event (s\<lparr>ld_transactions := store', ld_rules := rules'\<rparr>))))"

definition removeCategorizationRule :: "ledgerState \<Rightarrow> string \<Rightarrow> string \<Rightarrow> (ledger_error + unit) \<times> ledgerState" where
  "removeCategorizationRule s u i = (case rule_remove (ld_rules s) u i of
     (True, rules') \<Rightarrow> (Inr (), s\<lparr>ld_rules := rules'\<rparr>) | (False, _) \<Rightarrow> (Inl NoRule, s))"

definition listNeedsReview :: "ledgerEnv \<Rightarrow> ledgerState \<Rightarrow> string \<Rightarrow> transaction list" where
  "listNeedsReview env s u =
     filter (\<lambda>t. tx_categorySource t = UnknownSource) (list_all_of env (ld_transactions s) u)"

end
