(* ===== verification/TxnUpdates.thy ===== *)
theory TxnUpdates
  imports LedgerService
begin

text \<open>
  What a run of single-row updates does to a user's rows. The services update rows one by one, by
  identifier; where identifiers are distinct that is one pass over the rows.
\<close>

section \<open>One update\<close>

lemma update_first_distinct:
  assumes "distinct (map k rows)"
  shows "update_first (\<lambda>t. k t = i) f rows = map (\<lambda>t. if k t = i then f t else t) rows"
  using assms by (induction rows) (auto intro!: map_idI[symmetric] simp: image_iff)

definition moves_id :: "(transaction \<Rightarrow> transaction) \<Rightarrow> bool" where
  "moves_id f \<longleftrightarrow> (\<exists>t. tx_id (f t) \<noteq> tx_id t)"

lemma keeps_id_patch: "\<not> moves_id f \<Longrightarrow> (f t)\<lparr>tx_id := tx_id t\<rparr> = f t"
proof -
  assume "\<not> moves_id f"
  then have "tx_id (f t) = tx_id t" by (simp add: moves_id_def)
  then show ?thesis by (metis (no_types) transaction.surjective transaction.update_convs(1))
qed

lemma txn_update_rows:
  assumes "map_of st u = Some rows" and "distinct (map tx_id rows)" and "\<not> moves_id f"
  shows "snd (txn_update st u i f) = map_set u (map (\<lambda>t. if tx_id t = i then f t else t) rows) st"
    and "fst (txn_update st u i f) = map_option f (find (\<lambda>t. tx_id t = i) rows)"
proof -
  have b: "bucket st u = rows" using assms(1) by (simp add: bucket_def get_or_def)
  let ?f = "\<lambda>t. (f t)\<lparr>tx_id := i\<rparr>"
  have f: "(if tx_id t = i then ?f t else t) = (if tx_id t = i then f t else t)" for t
    using keeps_id_patch [OF assms(3), of t] by auto
  have "update_first (\<lambda>t. tx_id t = i) ?f rows = map (\<lambda>t. if tx_id t = i then f t else t) rows"
    by (simp add: update_first_distinct assms(2) f)
  moreover have "map (\<lambda>t. if tx_id t = i then f t else t) rows = rows"
    if "find (\<lambda>t. tx_id t = i) rows = None"
    using that by (auto simp: find_None_iff intro: map_idI)
  ultimately show "snd (txn_update st u i f) = map_set u (map (\<lambda>t. if tx_id t = i then f t else t) rows) st"
    using map_set_same [OF assms(1)] by (auto simp: txn_update_def b Let_def split: option.split)
  have "?f t = f t" if "find (\<lambda>t. tx_id t = i) rows = Some t" for t
    using that f [of t] by (auto simp: find_Some_iff)
  then show "fst (txn_update st u i f) = map_option f (find (\<lambda>t. tx_id t = i) rows)"
    by (auto simp: txn_update_def b Let_def split: option.split)
qed

section \<open>A run of updates\<close>

definition patched :: "('c \<Rightarrow> string) \<Rightarrow> ('c \<Rightarrow> transaction \<Rightarrow> transaction) \<Rightarrow> 'c list \<Rightarrow> transaction \<Rightarrow> transaction" where
  "patched key f cs t = (case find (\<lambda>c. key c = tx_id t) cs of None \<Rightarrow> t | Some c \<Rightarrow> f c t)"

lemma patched_Nil [simp]: "patched key f [] t = t"
  by (simp add: patched_def)

lemma patched_id: "(\<And>c. \<not> moves_id (f c)) \<Longrightarrow> tx_id (patched key f cs t) = tx_id t"
  by (simp add: patched_def moves_id_def split: option.split)

lemma patched_Cons:
  assumes "\<And>c. \<not> moves_id (f c)" and "key c \<notin> key ` set cs"
  shows "patched key f cs (if tx_id t = key c then f c t else t) = patched key f (c # cs) t"
proof (cases "tx_id t = key c")
  case True
  then have "tx_id (f c t) = key c" using assms(1) [of c] by (simp add: moves_id_def)
  moreover have "find (\<lambda>d. key d = key c) cs = None" using assms(2) by (fastforce simp: find_None_iff image_iff)
  ultimately show ?thesis using True by (simp add: patched_def)
next
  case False
  then show ?thesis by (auto simp: patched_def)
qed

lemma updates_rows:
  assumes "\<And>c. \<not> moves_id (f c)"
  shows "map_of st u = Some rows \<Longrightarrow> distinct (map tx_id rows) \<Longrightarrow> distinct (map key cs) \<Longrightarrow>
    foldl (\<lambda>st c. snd (txn_update st u (key c) (f c))) st cs = map_set u (map (patched key f cs) rows) st"
proof (induction cs arbitrary: st rows)
  case Nil
  then show ?case by (simp add: map_set_same)
next
  case (Cons c cs)
  let ?r = "map (\<lambda>t. if tx_id t = key c then f c t else t) rows"
  have ids: "map tx_id ?r = map tx_id rows" using assms [of c] by (auto simp: moves_id_def)
  have step: "snd (txn_update st u (key c) (f c)) = map_set u ?r st"
    by (rule txn_update_rows(1) [OF Cons.prems(1,2) assms])
  have "foldl (\<lambda>st c. snd (txn_update st u (key c) (f c))) (map_set u ?r st) cs =
      map_set u (map (patched key f cs) ?r) (map_set u ?r st)"
    using Cons.prems by (intro Cons.IH) (simp_all add: ids del: map_map)
  also have "\<dots> = map_set u (map (patched key f (c # cs)) rows) st"
    using patched_Cons [of f key c cs, OF assms] Cons.prems(3) by (simp add: AList.update_last comp_def)
  finally show ?case by (simp add: step)
qed

section \<open>The listing of a ledger\<close>

lemma list_all_eq: "list_all_of env st u = js_sort (newest_first (en_localeCompare env)) (bucket st u)"
  by (simp add: list_all_of_def txn_list_def allTransactions_def matches_def if_text_def if_given_def
      before_cursor_def Let_def)

lemma set_list_all [simp]: "set (list_all_of env st u) = set (bucket st u)"
  by (simp add: list_all_eq)

lemma ids_list_all [simp]: "distinct (map tx_id (list_all_of env st u)) \<longleftrightarrow> distinct (map tx_id (bucket st u))"
  by (simp add: list_all_eq distinct_map_js_sort)

lemma find_key_None: "find (\<lambda>c. k c = i) cs = None \<longleftrightarrow> i \<notin> k ` set cs"
  by (induction cs) auto

lemma find_by_id:
  "distinct (map tx_id rows) \<Longrightarrow> t \<in> set rows \<Longrightarrow> find (\<lambda>r. tx_id r = tx_id t) rows = Some t"
  by (induction rows) (auto simp: image_iff)

lemma bucket_Some: "bucket st u \<noteq> [] \<Longrightarrow> map_of st u = Some (bucket st u)"
  by (auto simp: bucket_def get_or_def split: option.splits)

end
