(* ===== verification/LedgerLearning.thy ===== *)
theory LedgerLearning
  imports TxnUpdates
begin

text \<open>
  What the categorizer promises: a correction made into a rule is applied to the whole ledger and to
  later transactions, the longest merchant name decides, and the local learner only repeats what the
  user chose. The last section shows where it forgets.
\<close>

section \<open>Rules\<close>

lemma contains_self [simp]: "contains s s"
  by (auto simp: contains_iff intro: exI [of _ "[]"])

lemma rule_matches_itself:
  "matchesRule re (ruleFromCorrection raw slug i) (normalizeDescriptor raw)"
  by (simp add: matchesRule_def ruleFromCorrection_def)

lemma winning_rule_only:
  assumes "r \<in> set rules" and "matchesRule re r n"
    and "\<And>r'. r' \<in> set rules \<Longrightarrow> matchesRule re r' n \<Longrightarrow> r' = r"
  shows "winning_rule re rules n = Some r"
proof -
  let ?l = "js_sort (\<lambda>a b. ru_priority a - ru_priority b) (filter (\<lambda>r. matchesRule re r n) rules)"
  have "set ?l = {r' \<in> set rules. matchesRule re r' n}" by simp
  also have "\<dots> = {r}" using assms by blast
  finally have "set ?l = {r}" .
  moreover have "set l = {r} \<Longrightarrow> \<exists>xs. l = r # xs" for l by (cases l) auto
  ultimately obtain xs where "?l = r # xs" by blast
  then show ?thesis by (simp add: winning_rule_def)
qed

lemma winning_rule_prior:
  assumes "winning_rule re rules n = Some w"
  shows "w \<in> set rules" and "matchesRule re w n"
    and "r \<in> set rules \<Longrightarrow> matchesRule re r n \<Longrightarrow> ru_priority w \<le> ru_priority r"
proof -
  let ?cmp = "\<lambda>a b. ru_priority a - ru_priority b" and ?f = "filter (\<lambda>r. matchesRule re r n) rules"
  from assms obtain ws where l: "js_sort ?cmp ?f = w # ws"
    by (auto simp: winning_rule_def split: list.splits)
  have "set (js_sort ?cmp ?f) = set ?f" by simp
  then have "w \<in> set ?f" unfolding l by auto
  then show "w \<in> set rules" and "matchesRule re w n" by auto
  have p: "preorder_cmp ?cmp" by (auto simp: preorder_cmp_def)
  show "r \<in> set rules \<Longrightarrow> matchesRule re r n \<Longrightarrow> ru_priority w \<le> ru_priority r"
    using js_sort_head_least [OF p l, of r] by simp
qed

lemma set_rule_list [simp]: "set (rule_list lc s u) = set (bucket s u)"
  by (simp add: rule_list_def)

lemma set_update_first_all:
  "y \<in> set (update_first P (\<lambda>_. x) xs) \<Longrightarrow> y = x \<or> y \<in> set xs"
  by (induction xs) (auto split: if_splits)

lemma set_put_row:
  "x \<in> set (bucket (put_row key m u x) u)"
  "y \<in> set (bucket (put_row key m u x) u) \<Longrightarrow> y = x \<or> y \<in> set (bucket m u)"
proof -
  have "\<exists>r \<in> set rows. P r \<Longrightarrow> x \<in> set (update_first P (\<lambda>_. x) rows)" for P rows
    by (induction rows) auto
  then show "x \<in> set (bucket (put_row key m u x) u)" by (simp add: put_row_def Let_def)
  show "y \<in> set (bucket (put_row key m u x) u) \<Longrightarrow> y = x \<or> y \<in> set (bucket m u)"
    using set_update_first_all [of y "\<lambda>r. key r = key x" x "bucket m u"]
    by (auto simp: put_row_def Let_def split: if_splits)
qed

section \<open>A correction\<close>

definition follows_rule :: "string \<Rightarrow> string \<Rightarrow> transaction \<Rightarrow> bool" where
  "follows_rule i pattern t \<longleftrightarrow>
     tx_id t \<noteq> i \<and> tx_categorySource t \<noteq> UserManual \<and> contains (tx_normalizedDescriptor t) pattern"

text \<open>The ledger after a correction.\<close>

definition corrected :: "string \<Rightarrow> string \<Rightarrow> string option \<Rightarrow> transaction \<Rightarrow> transaction" where
  "corrected i slug pattern t =
     (if tx_id t = i then categorize_as slug UserManual t
      else case pattern of
          Some p \<Rightarrow> if follows_rule i p t then categorize_as slug UserRule t else t
        | None \<Rightarrow> t)"

lemma backfill_fold:
  "foldl (backfill_row u i slug pattern) (n, st) ts =
     (n + length (filter (follows_rule i pattern) ts),
      foldl (\<lambda>st t. snd (txn_update st u (tx_id t) (categorize_as slug UserRule))) st
        (filter (follows_rule i pattern) ts))"
  by (induction ts arbitrary: n st) (auto simp: backfill_row_def follows_rule_def)

lemma keeps_id_categorize [simp]: "\<not> moves_id (categorize_as slug source)"
  by (simp add: moves_id_def categorize_as_def)

lemma categorize_as_fields [simp]:
  "tx_id (categorize_as slug source t) = tx_id t"
  "tx_categorySlug (categorize_as slug source t) = slug"
  "tx_categorySource (categorize_as slug source t) = source"
  "tx_normalizedDescriptor (categorize_as slug source t) = tx_normalizedDescriptor t"
  by (simp_all add: categorize_as_def)

lemma backfill_rows:
  assumes m: "map_of st u = Some rows" and ids: "distinct (map tx_id rows)"
  shows "snd (foldl (backfill_row u i slug pattern) (0, st) (list_all_of env st u)) =
    map_set u (map (\<lambda>t. if follows_rule i pattern t then categorize_as slug UserRule t else t) rows) st"
proof -
  let ?F = "filter (follows_rule i pattern) (list_all_of env st u)"
  have b: "bucket st u = rows" using m by (simp add: bucket_def get_or_def)
  have d: "distinct (map tx_id (list_all_of env st u))" using ids by (simp add: b)
  then have dF: "distinct (map tx_id ?F)" by (rule distinct_map_filter)
  have "patched tx_id (\<lambda>c. categorize_as slug UserRule) ?F t =
      (if follows_rule i pattern t then categorize_as slug UserRule t else t)" if t: "t \<in> set rows" for t
  proof -
    have "tx_id t \<in> tx_id ` set ?F \<longleftrightarrow> follows_rule i pattern t"
    proof
      assume "tx_id t \<in> tx_id ` set ?F"
      then obtain r where r: "tx_id r = tx_id t" "r \<in> set rows" "follows_rule i pattern r" by (auto simp: b)
      then have "r = t" using find_by_id [OF ids] t by (metis option.inject)
      then show "follows_rule i pattern t" using r by simp
    qed (use t b in auto)
    then show ?thesis unfolding patched_def using find_key_None [of tx_id "tx_id t" ?F]
      by (auto split: option.split)
  qed
  then show ?thesis
    using updates_rows [where f = "\<lambda>c. categorize_as slug UserRule" and key = tx_id, OF keeps_id_categorize m ids dF]
    by (simp add: backfill_fold cong: map_cong)
qed

lemma corrected_eq:
  "corrected i slug (Some p) = (\<lambda>t. let t' = (if tx_id t = i then categorize_as slug UserManual t else t)
     in if follows_rule i p t' then categorize_as slug UserRule t' else t')"
  by (rule ext) (simp add: corrected_def follows_rule_def Let_def)

lemma corrected_None:
  "corrected i slug None = (\<lambda>t. if tx_id t = i then categorize_as slug UserManual t else t)"
  by (rule ext) (simp add: corrected_def)

lemma recategorize_effect:
  assumes ids: "distinct (map tx_id (bucket (ld_transactions s) u))"
    and ok: "recategorize env s u i slug createRule = (Inr (t, n), s')"
  obtains existing where "find (\<lambda>t. tx_id t = i) (bucket (ld_transactions s) u) = Some existing"
    and "isKnownCategory slug" and "t = categorize_as slug UserManual existing"
    and "ld_transactions s' = map_set u (map (corrected i slug
      (if createRule then Some (normalizeDescriptor (tx_rawDescriptor existing)) else None))
      (bucket (ld_transactions s) u)) (ld_transactions s)"
    and "ld_rules s' = (if createRule then rule_create (ld_rules s) u (correction_rule env existing slug)
      else ld_rules s)"
    and "ld_accounts s' = ld_accounts s"
proof -
  let ?rows = "bucket (ld_transactions s) u"
  from ok obtain existing where known: "isKnownCategory slug"
    and ex: "find (\<lambda>t. tx_id t = i) ?rows = Some existing"
    by (auto simp: recategorize_def txn_get_def find_row_def split: if_splits option.splits)
  then have ne: "?rows \<noteq> []" by auto
  note m = bucket_Some [OF ne]
  let ?man = "map (\<lambda>t. if tx_id t = i then categorize_as slug UserManual t else t) ?rows"
  let ?st = "map_set u ?man (ld_transactions s)"
  have up: "txn_update (ld_transactions s) u i (categorize_as slug UserManual) =
      (Some (categorize_as slug UserManual existing), ?st)"
    using txn_update_rows [OF m ids, of "categorize_as slug UserManual" i] ex by (simp add: prod_eq_iff)
  have d: "distinct (map tx_id ?man)"
  proof -
    have "map tx_id ?man = map tx_id ?rows" by auto
    then show ?thesis by (simp only: ids)
  qed
  have pat: "ru_pattern (correction_rule env existing slug) = normalizeDescriptor (tx_rawDescriptor existing)"
    by (simp add: correction_rule_def ruleFromCorrection_def)
  let ?p = "normalizeDescriptor (tx_rawDescriptor existing)"
  have bf: "snd (foldl (backfill_row u i slug ?p) (0, ?st) (list_all_of env ?st u)) =
      map_set u (map (corrected i slug (Some ?p)) ?rows) (ld_transactions s)"
    using backfill_rows [of ?st u ?man i slug ?p env] d
    by (simp add: AList.update_last corrected_eq Let_def comp_def del: map_map add: map_map)
  show ?thesis
  proof (rule that [OF ex known])
    show "t = categorize_as slug UserManual existing"
      using ok known ex up by (auto simp: recategorize_def txn_get_def find_row_def Let_def split: if_splits prod.splits)
    show "ld_transactions s' = map_set u (map (corrected i slug
      (if createRule then Some ?p else None)) ?rows) (ld_transactions s)"
      using ok known ex up bf
      by (auto simp: recategorize_def txn_get_def find_row_def Let_def emit_def pat corrected_None
          split: if_splits prod.splits cong: if_cong)
    show "ld_rules s' = (if createRule then rule_create (ld_rules s) u (correction_rule env existing slug)
      else ld_rules s)"
      using ok known ex up
      by (auto simp: recategorize_def txn_get_def find_row_def Let_def emit_def split: if_splits prod.splits)
    show "ld_accounts s' = ld_accounts s"
      using ok known ex up
      by (auto simp: recategorize_def txn_get_def find_row_def Let_def emit_def split: if_splits prod.splits)
  qed
qed

lemma correction_effect:
  assumes ids: "distinct (map tx_id (bucket (ld_transactions s) u))"
    and ok: "recategorize env s u i slug True = (Inr (t, n), s')"
    and ex: "txn_get (ld_transactions s) u i = Some existing"
    and opts: "co_rules options = rule_list lc (ld_rules s') u"
    and same: "normalizeDescriptor raw = normalizeDescriptor (tx_rawDescriptor existing)"
  shows "r \<in> set (bucket (ld_transactions s') u) \<Longrightarrow> tx_categorySource r \<noteq> UserManual \<Longrightarrow>
      contains (tx_normalizedDescriptor r) (normalizeDescriptor raw) \<Longrightarrow>
      tx_categorySlug r = slug \<and> tx_categorySource r = UserRule"
    and "r \<in> set (bucket (ld_transactions s) u) \<Longrightarrow> tx_categorySource r = UserManual \<Longrightarrow> tx_id r \<noteq> i \<Longrightarrow>
      r \<in> set (bucket (ld_transactions s') u)"
    and "cr_source (categorizeDescriptor re raw options) = UserRule"
    and "(\<And>r. r \<in> set (bucket (ld_rules s) u) \<Longrightarrow> \<not> matchesRule re r (normalizeDescriptor raw)) \<Longrightarrow>
      cr_categorySlug (categorizeDescriptor re raw options) = slug"
proof -
  let ?n = "normalizeDescriptor raw" and ?rule = "correction_rule env existing slug"
  obtain e where "find (\<lambda>t. tx_id t = i) (bucket (ld_transactions s) u) = Some e"
    and rows: "ld_transactions s' = map_set u (map (corrected i slug
      (if True then Some (normalizeDescriptor (tx_rawDescriptor e)) else None))
      (bucket (ld_transactions s) u)) (ld_transactions s)"
    and rules: "ld_rules s' = (if True then rule_create (ld_rules s) u (correction_rule env e slug)
      else ld_rules s)"
    by (rule recategorize_effect [OF ids ok])
  moreover from this(1) ex have "e = existing" by (simp add: txn_get_def find_row_def)
  ultimately have b: "bucket (ld_transactions s') u = map (corrected i slug (Some ?n)) (bucket (ld_transactions s) u)"
    and rules: "ld_rules s' = put_row ru_id (ld_rules s) u ?rule"
    by (simp_all add: same rule_create_def)
  show "tx_categorySlug r = slug \<and> tx_categorySource r = UserRule"
    if "r \<in> set (bucket (ld_transactions s') u)" "tx_categorySource r \<noteq> UserManual"
      "contains (tx_normalizedDescriptor r) ?n"
    using that by (auto simp: b corrected_def follows_rule_def split: if_splits)
  show "r \<in> set (bucket (ld_transactions s') u)"
    if "r \<in> set (bucket (ld_transactions s) u)" "tx_categorySource r = UserManual" "tx_id r \<noteq> i"
    using that by (auto simp: b corrected_def follows_rule_def intro!: image_eqI [of _ _ r])
  have m: "matchesRule re ?rule ?n" using rule_matches_itself [of re] by (simp add: correction_rule_def same)
  have mem: "?rule \<in> set (co_rules options)" by (simp add: opts rules set_put_row(1))
  obtain w where w: "winning_rule re (co_rules options) ?n = Some w"
  proof (cases "winning_rule re (co_rules options) ?n")
    case None
    then have "filter (\<lambda>r. matchesRule re r ?n) (co_rules options) = []"
      by (auto simp: winning_rule_def split: list.splits)
    with m mem show ?thesis by (auto simp: filter_empty_conv)
  qed (rule that)
  then have c: "categorizeDescriptor re raw options = rule_result w"
    by (simp add: categorizeDescriptor_def Let_def)
  then show "cr_source (categorizeDescriptor re raw options) = UserRule" by (simp add: rule_result_def)
  show "cr_categorySlug (categorizeDescriptor re raw options) = slug"
    if no: "\<And>r. r \<in> set (bucket (ld_rules s) u) \<Longrightarrow> \<not> matchesRule re r ?n"
  proof -
    have "w \<in> set (bucket (put_row ru_id (ld_rules s) u ?rule) u)" and "matchesRule re w ?n"
      using winning_rule_prior [OF w] by (simp_all add: opts rules)
    with set_put_row(2) [of w ru_id "ld_rules s" u ?rule] no have "w = ?rule" by blast
    then show ?thesis by (simp add: c rule_result_def correction_rule_def ruleFromCorrection_def)
  qed
qed

text \<open>A correction that the user makes into a rule is applied to the whole ledger: every row of that
  merchant which was not categorized by hand gets the category, rows categorized by hand keep theirs.
  Later transactions with that descriptor are categorized by a rule of the user, and by this one
  unless an older rule matches too, whatever the lexicon and the learner would say.\<close>

theorem correction_is_remembered:
  assumes "distinct (map tx_id (bucket (ld_transactions s) u))"
    and "recategorize env s u i slug True = (Inr (t, n), s')"
    and "txn_get (ld_transactions s) u i = Some existing"
    and "co_rules options = rule_list lc (ld_rules s') u"
    and "normalizeDescriptor raw = normalizeDescriptor (tx_rawDescriptor existing)"
  shows "(\<forall>r \<in> set (bucket (ld_transactions s') u). tx_categorySource r \<noteq> UserManual \<longrightarrow>
        contains (tx_normalizedDescriptor r) (normalizeDescriptor raw) \<longrightarrow>
        tx_categorySlug r = slug \<and> tx_categorySource r = UserRule) \<and>
    (\<forall>r \<in> set (bucket (ld_transactions s) u). tx_categorySource r = UserManual \<longrightarrow> tx_id r \<noteq> i \<longrightarrow>
        r \<in> set (bucket (ld_transactions s') u)) \<and>
    cr_source (categorizeDescriptor re raw options) = UserRule \<and>
    ((\<forall>r \<in> set (bucket (ld_rules s) u). \<not> matchesRule re r (normalizeDescriptor raw)) \<longrightarrow>
        cr_categorySlug (categorizeDescriptor re raw options) = slug)"
  using correction_effect [OF assms] by blast

definition learn_env :: ledgerEnv where
  "learn_env = \<lparr>en_localeCompare = code_unit_compare, en_regex = \<lambda>_ _. None, en_today = ''2026-03-10'',
     en_now = ''2026-03-10T00:00:00.000Z'', en_millis = 1000, en_uuid = ''a1'',
     en_listAccounts = \<lambda>_. [], en_fetch = \<lambda>_. []\<rparr>"

definition learn_state :: ledgerState where
  "learn_state = \<lparr>ld_accounts = \<lparr>as_accounts = [], as_snapshots = []\<rparr>,
     ld_transactions = [(''u'', [demo_resent\<lparr>tx_id := ''txn_1''\<rparr>, demo_resent\<lparr>tx_id := ''txn_2''\<rparr>,
       demo_resent\<lparr>tx_id := ''txn_3'', tx_rawDescriptor := ''BOOKS'', tx_normalizedDescriptor := ''books''\<rparr>])],
     ld_rules = [], ld_events = []\<rparr>"

definition learned_once :: ledgerState where
  "learned_once = snd (recategorize learn_env learn_state ''u'' ''txn_1'' ''restaurants'' True)"

abbreviation "learned_options \<equiv> \<lparr>co_rules = rule_list code_unit_compare (ld_rules learned_once) ''u'',
  co_lexicon = LEXICON_BY_SPECIFICITY, co_model = None\<rparr>"

theorem correction_is_remembered_witness:
  "cr_categorySlug (categorizeDescriptor (en_regex learn_env) ''CAFE'' learned_options) = ''restaurants''"
proof -
  let ?r = "recategorize learn_env learn_state ''u'' ''txn_1'' ''restaurants'' True"
  have ids: "distinct (map tx_id (bucket (ld_transactions learn_state) ''u''))" by code_simp
  have "case ?r of (Inr _, _) \<Rightarrow> True | _ \<Rightarrow> False" by code_simp
  then obtain t n s' where ok: "?r = (Inr (t, n), s')" by (auto split: prod.splits sum.splits)
  have ex: "txn_get (ld_transactions learn_state) ''u'' ''txn_1'' = Some (demo_resent\<lparr>tx_id := ''txn_1''\<rparr>)"
    by code_simp
  have s': "learned_once = s'" by (simp add: learned_once_def ok)
  from correction_is_remembered [OF ids ok ex] show ?thesis
    by (simp add: s' demo_resent_def learn_state_def bucket_def get_or_def)
qed

text \<open>The rule of a later correction loses against the rule of an earlier one: rules of one priority
  are ordered by identifier, which starts with the time of creation. After the user corrects the same
  merchant a second time, the ledger shows the new category, but the rule that decides for the next
  transaction is the old one.\<close>

theorem older_correction_wins:
  "(case recategorize (learn_env\<lparr>en_millis := 2000\<rparr>) learned_once ''u'' ''txn_1'' ''groceries'' True of
      (_, s) \<Rightarrow>
        map tx_categorySlug (bucket (ld_transactions s) ''u'') = [''groceries'', ''groceries'', ''coffee''] \<and>
        map_option ru_categorySlug (winning_rule (en_regex learn_env)
          (rule_list code_unit_compare (ld_rules s) ''u'') (normalizeDescriptor ''CAFE'')) = Some ''restaurants'')"
  by code_simp

text \<open>A correction of a row whose descriptor holds nothing but reference numbers makes a rule with an
  empty pattern: it recategorizes every row of the ledger that was not categorized by hand, and decides
  for every later transaction.\<close>

theorem blank_correction_takes_all:
  "(case recategorize learn_env (learn_state\<lparr>ld_transactions := map_set ''u''
        (demo_resent\<lparr>tx_id := ''txn_0'', tx_rawDescriptor := ''0093 574812'', tx_normalizedDescriptor := []\<rparr>
          # bucket (ld_transactions learn_state) ''u'') (ld_transactions learn_state)\<rparr>)
        ''u'' ''txn_0'' ''rent'' True of
      (result, s) \<Rightarrow>
        map_sum (\<lambda>_. ()) snd result = Inr 3 \<and>
        map tx_categorySlug (bucket (ld_transactions s) ''u'') = [''rent'', ''rent'', ''rent'', ''rent''] \<and>
        map_option ru_categorySlug (winning_rule (en_regex learn_env)
          (rule_list code_unit_compare (ld_rules s) ''u'') (normalizeDescriptor ''NETFLIX'')) = Some ''rent'')"
  by code_simp

section \<open>The lexicon\<close>

lemma find_holds: "find P xs = Some x \<Longrightarrow> x \<in> set xs \<and> P x"
  by (induction xs) (auto split: if_splits)

lemma find_sorted_first:
  assumes "sorted_wrt R xs" and "find P xs = Some x" and "y \<in> set xs" and "P y"
  shows "y = x \<or> R x y"
  using assms by (induction xs) (auto split: if_splits)

lemma longest_merchant:
  assumes "co_lexicon options = js_sort (\<lambda>a b. int (length (le_match b)) - int (length (le_match a))) entries"
    and "cr_source (categorizeDescriptor re raw options) = Lexicon"
  shows "\<exists>e \<in> set entries. contains (normalizeDescriptor raw) (le_match e) \<and>
      categorizeDescriptor re raw options = lexicon_result e \<and>
      (\<forall>e' \<in> set entries. contains (normalizeDescriptor raw) (le_match e') \<longrightarrow>
        length (le_match e') \<le> length (le_match e))"
    and "r \<in> set (co_rules options) \<Longrightarrow> \<not> matchesRule re r (normalizeDescriptor raw)"
proof -
  let ?n = "normalizeDescriptor raw"
    and ?cmp = "\<lambda>a b. int (length (le_match b)) - int (length (le_match a))"
  have none: "winning_rule re (co_rules options) ?n = None"
    and "\<exists>e. find (\<lambda>entry. contains ?n (le_match entry)) (co_lexicon options) = Some e \<and>
      categorizeDescriptor re raw options = lexicon_result e"
    using assms(2) by (auto simp: categorizeDescriptor_def Let_def rule_result_def model_result_def
        unknown_result_def split: option.splits if_splits)
  then obtain e where e: "find (\<lambda>entry. contains ?n (le_match entry)) (js_sort ?cmp entries) = Some e"
    and c: "categorizeDescriptor re raw options = lexicon_result e" by (auto simp: assms(1))
  have "preorder_cmp ?cmp" by (auto simp: preorder_cmp_def)
  note sorted = sorted_wrt_js_sort [OF this, of entries]
  have "length (le_match e') \<le> length (le_match e)" if "e' \<in> set entries" "contains ?n (le_match e')" for e'
    using find_sorted_first [OF sorted e, of e'] that by auto
  moreover have "e \<in> set (js_sort ?cmp entries)" and "contains ?n (le_match e)"
    using find_holds [OF e] by simp_all
  ultimately show "\<exists>e \<in> set entries. contains ?n (le_match e) \<and>
      categorizeDescriptor re raw options = lexicon_result e \<and>
      (\<forall>e' \<in> set entries. contains ?n (le_match e') \<longrightarrow> length (le_match e') \<le> length (le_match e))"
    using c by auto
  show "\<not> matchesRule re r ?n" if "r \<in> set (co_rules options)"
  proof
    assume "matchesRule re r ?n"
    with that have "filter (\<lambda>r. matchesRule re r ?n) (co_rules options) \<noteq> []"
      by (auto simp: filter_empty_conv)
    with none show False by (auto simp: winning_rule_def split: list.splits)
  qed
qed

text \<open>The lexicon decides by the longest merchant name that occurs in the descriptor, whatever the
  order of its entries, and only where no rule of the user matches.\<close>

theorem longest_merchant_wins:
  assumes "co_lexicon options = js_sort (\<lambda>a b. int (length (le_match b)) - int (length (le_match a))) entries"
    and "cr_source (categorizeDescriptor re raw options) = Lexicon"
  shows "(\<exists>e \<in> set entries. contains (normalizeDescriptor raw) (le_match e) \<and>
      categorizeDescriptor re raw options = lexicon_result e \<and>
      (\<forall>e' \<in> set entries. contains (normalizeDescriptor raw) (le_match e') \<longrightarrow>
        length (le_match e') \<le> length (le_match e))) \<and>
    (\<forall>r \<in> set (co_rules options). \<not> matchesRule re r (normalizeDescriptor raw))"
  using longest_merchant [OF assms] by blast

definition demo_lexicon :: "lexiconEntry list" where
  "demo_lexicon = [lx ''uber'' ''rideshare'' 90 ''Uber'', lx ''uber eats'' ''food_delivery'' 92 ''Uber Eats'']"

theorem longest_merchant_wins_witness:
  "cr_merchant (categorizeDescriptor (en_regex learn_env) ''UBER EATS 8842'' \<lparr>co_rules = [],
     co_lexicon = js_sort (\<lambda>a b. int (length (le_match b)) - int (length (le_match a))) demo_lexicon,
     co_model = None\<rparr>) = Some ''Uber Eats''"
proof -
  let ?o = "\<lparr>co_rules = [],
     co_lexicon = js_sort (\<lambda>a b. int (length (le_match b)) - int (length (le_match a))) demo_lexicon,
     co_model = None\<rparr>"
  have n: "normalizeDescriptor ''UBER EATS 8842'' = ''uber eats''" by code_simp
  have "cr_source (categorizeDescriptor (en_regex learn_env) ''UBER EATS 8842'' ?o) = Lexicon" by code_simp
  from longest_merchant_wins [OF _ this, of demo_lexicon] show ?thesis
    unfolding n by (auto simp: demo_lexicon_def lexicon_result_def)
qed

section \<open>The learner\<close>

definition learnable :: "transaction list \<Rightarrow> correctionExample \<Rightarrow> bool" where
  "learnable ts ex \<longleftrightarrow> (\<exists>t \<in> set ts. tx_categorySource t = UserManual \<and>
     learned_text t = ce_normalizedDescriptor ex \<and> tx_categorySlug t = ce_categorySlug ex) \<and>
     (\<forall>t \<in> set ts. tx_categorySource t = UserManual \<longrightarrow> learned_text t = ce_normalizedDescriptor ex \<longrightarrow>
        tx_categorySlug t = ce_categorySlug ex)"

lemma note_category_set:
  "set (get_or (note_category cats t) d []) = set (get_or cats d []) \<union>
     (if tx_categorySource t = UserManual \<and> learned_text t = d \<and> descriptorTokens d \<noteq> []
      then {tx_categorySlug t} else {})"
  by (auto simp: note_category_def Let_def)

lemma note_categories_set:
  "set (get_or (foldl note_category cats ts) d []) = set (get_or cats d []) \<union>
     {tx_categorySlug t | t. t \<in> set ts \<and> tx_categorySource t = UserManual \<and> learned_text t = d \<and>
        descriptorTokens d \<noteq> []}"
  by (induction ts arbitrary: cats) (auto simp: note_category_set)

lemma collect_examples_ok:
  assumes "\<And>ex. ex \<in> set acc \<Longrightarrow> learnable all ex" and "set ts \<subseteq> set all"
    and "ex \<in> set (collect_examples (foldl note_category [] all) acc ts)"
  shows "learnable all ex"
  using assms
proof (induction ts arbitrary: acc)
  case (Cons t ts)
  let ?d = "learned_text t" and ?cats = "foldl note_category [] all"
  let ?ex = "\<lparr>ce_normalizedDescriptor = ?d, ce_categorySlug = tx_categorySlug t,
    ce_tokens = set_of (descriptorTokens ?d)\<rparr>"
  have new: "learnable all ?ex" if m: "tx_categorySource t = UserManual" and d: "descriptorTokens ?d \<noteq> []"
    and one: "(case map_of ?cats ?d of None \<Rightarrow> True | Some c \<Rightarrow> length c \<noteq> 1) = False"
  proof -
    obtain c where "map_of ?cats ?d = Some [c]"
      using one by (auto split: option.splits simp: length_Suc_conv)
    then have c: "set (get_or ?cats ?d []) = {c}" by (simp add: get_or_def)
    have s: "tx_categorySlug r = c" if "r \<in> set all" "tx_categorySource r = UserManual" "learned_text r = ?d" for r
    proof -
      have "tx_categorySlug r \<in> set (get_or ?cats ?d [])"
        unfolding note_categories_set using that d by auto
      then show ?thesis by (simp add: c)
    qed
    then show ?thesis using Cons.prems(2) m by (auto simp: learnable_def intro!: bexI [of _ t])
  qed
  have IH: "learnable all ex" if "\<And>ex. ex \<in> set acc' \<Longrightarrow> learnable all ex"
    "ex \<in> set (collect_examples ?cats acc' ts)" for acc'
    using Cons.IH [OF that(1) _ that(2)] Cons.prems(2) by simp
  have acc': "learnable all x" if "x \<in> set (acc @ [?ex])" "learnable all ?ex" for x
    using that Cons.prems(1) by auto
  let ?skip = "tx_categorySource t \<noteq> UserManual \<or>
    (case map_of ?cats ?d of None \<Rightarrow> True | Some c \<Rightarrow> length c \<noteq> 1) \<or> descriptorTokens ?d = [] \<or>
    (\<exists>example \<in> set acc. ce_normalizedDescriptor example = ?d)"
  show ?case
  proof (cases ?skip)
    case True
    then have "collect_examples ?cats acc (t # ts) = collect_examples ?cats acc ts"
      by (auto simp: Let_def)
    with Cons.prems(3) have "ex \<in> set (collect_examples ?cats acc ts)" by simp
    then show ?thesis using IH [of acc] Cons.prems(1) by blast
  next
    case False
    then have ok: "learnable all ?ex" by (intro new) auto
    have "collect_examples ?cats acc (t # ts) = (if length (acc @ [?ex]) = MAX_CORRECTIONS then acc @ [?ex]
        else collect_examples ?cats (acc @ [?ex]) ts)"
      using False by (simp add: Let_def)
    with Cons.prems(3) consider "ex \<in> set (acc @ [?ex])" | "ex \<in> set (collect_examples ?cats (acc @ [?ex]) ts)"
      by metis
    then show ?thesis using acc' [OF _ ok] IH [of "acc @ [?ex]"] by cases blast+
  qed
qed auto

lemma fromTransactions_learnable: "ex \<in> set (fromTransactions ts) \<Longrightarrow> learnable ts ex"
  unfolding fromTransactions_def by (rule collect_examples_ok [of "[]"]) auto

lemma candidates_from:
  assumes "c \<in> set (candidates examples n tokens)"
  shows "\<exists>ex \<in> set examples. ce_categorySlug c = ce_categorySlug ex \<and>
    ce_normalizedDescriptor c = ce_normalizedDescriptor ex \<and> 0 \<le> se_score c \<and>
    (se_exact c \<longrightarrow> ce_normalizedDescriptor ex = n)"
proof -
  from assms obtain ex where ex: "ex \<in> set examples" "score_example n tokens ex = Some c"
    by (auto simp: candidates_def List.map_filter_def)
  have "0 \<le> fl (fl (fl (65 / 100) * a) + fl (fl (35 / 100) * b))" if "0 \<le> a" "0 \<le> b" for a b
  proof -
    have nn: "0 \<le> fl x" if "0 \<le> x" for x using fl_mono [OF that] by simp
    show ?thesis using that by (intro nn add_nonneg_nonneg mult_nonneg_nonneg) auto
  qed
  moreover have "0 \<le> fl (of_nat a / of_nat b)" for a b :: nat using fl_mono [of 0 "of_nat a / of_nat b"] by simp
  ultimately show ?thesis using ex
    by (auto simp: score_example_def Let_def correctionExample.defs split: if_splits intro!: bexI [of _ ex])
qed

lemma classify_Some:
  assumes "classify examples d = Some p"
  obtains c where "c \<in> set (candidates examples (normalizeDescriptor d)
      (set_of (descriptorTokens (normalizeDescriptor d))))" and "p = prediction_of c"
  using assms by (auto simp: classify_def Let_def split: if_splits list.splits option.splits)

lemma prediction_confidence:
  assumes "0 \<le> se_score c"
  shows "MODEL_CONFIDENCE_FLOOR \<le> mp_confidence (prediction_of c)"
    and "mp_confidence (prediction_of c) \<le> fl (98 / 100)"
proof -
  have "0 \<le> fl (se_score c * fl (34 / 100))"
    using fl_mono [of 0 "se_score c * fl (34 / 100)"] fl_mono [of 0 "34 / 100"] assms by simp
  then have "fl (fl (6 / 10)) \<le> fl (fl (6 / 10) + fl (se_score c * fl (34 / 100)))" by (intro fl_mono) simp
  moreover have "fl (fl (6 / 10)) = fl (6 / 10)" by code_simp
  moreover have "fl (6 / 10) \<le> fl (94 / 100)" and "fl (94 / 100) \<le> fl (98 / 100)"
    by (rule fl_mono; simp)+
  ultimately show "MODEL_CONFIDENCE_FLOOR \<le> mp_confidence (prediction_of c)"
    and "mp_confidence (prediction_of c) \<le> fl (98 / 100)"
    by (auto simp: prediction_of_def MODEL_CONFIDENCE_FLOOR_def)
qed

lemma prediction_from_user:
  assumes "classify (fromTransactions ts) d = Some p"
  shows "\<exists>t \<in> set ts. tx_categorySource t = UserManual \<and> tx_categorySlug t = mp_categorySlug p \<and>
      (\<forall>t' \<in> set ts. tx_categorySource t' = UserManual \<longrightarrow> learned_text t' = learned_text t \<longrightarrow>
        tx_categorySlug t' = mp_categorySlug p)"
    and "MODEL_CONFIDENCE_FLOOR \<le> mp_confidence p" and "mp_confidence p < 1"
proof -
  from assms obtain c where c: "c \<in> set (candidates (fromTransactions ts) (normalizeDescriptor d)
      (set_of (descriptorTokens (normalizeDescriptor d))))" and p: "p = prediction_of c"
    by (rule classify_Some)
  from candidates_from [OF c] obtain ex where ex: "ex \<in> set (fromTransactions ts)"
    and slug: "ce_categorySlug c = ce_categorySlug ex" and "0 \<le> se_score c" by auto
  then show "MODEL_CONFIDENCE_FLOOR \<le> mp_confidence p" using prediction_confidence(1) p by simp
  have "fl (98 / 100) < 1" by code_simp
  then show "mp_confidence p < 1" using prediction_confidence(2) [OF \<open>0 \<le> se_score c\<close>] p by simp
  have "mp_categorySlug p = ce_categorySlug ex" by (simp add: p prediction_of_def slug)
  then show "\<exists>t \<in> set ts. tx_categorySource t = UserManual \<and> tx_categorySlug t = mp_categorySlug p \<and>
      (\<forall>t' \<in> set ts. tx_categorySource t' = UserManual \<longrightarrow> learned_text t' = learned_text t \<longrightarrow>
        tx_categorySlug t' = mp_categorySlug p)"
    using fromTransactions_learnable [OF ex] by (auto simp: learnable_def)
qed

text \<open>The learner only repeats the user: a prediction is a category the user chose by hand for some
  row, never one chosen differently for another row of the same descriptor, and its confidence lies
  between the floor at which the categorizer accepts it and that of a rule.\<close>

theorem learner_repeats_user:
  assumes "classify (fromTransactions ts) d = Some p"
  shows "(\<exists>t \<in> set ts. tx_categorySource t = UserManual \<and> tx_categorySlug t = mp_categorySlug p \<and>
      (\<forall>t' \<in> set ts. tx_categorySource t' = UserManual \<longrightarrow> learned_text t' = learned_text t \<longrightarrow>
        tx_categorySlug t' = mp_categorySlug p)) \<and>
    MODEL_CONFIDENCE_FLOOR \<le> mp_confidence p \<and> mp_confidence p < 1"
  using prediction_from_user [OF assms] by blast

definition taught :: "transaction list" where
  "taught = [demo_resent\<lparr>tx_categorySource := UserManual, tx_categorySlug := ''restaurants''\<rparr>, demo_resent]"

theorem learner_repeats_user_witness:
  "map_option mp_categorySlug (classify (fromTransactions taught) ''cafe'') = Some ''restaurants''"
proof -
  have "classify (fromTransactions taught) ''cafe'' \<noteq> None" by code_simp
  then obtain p where p: "classify (fromTransactions taught) ''cafe'' = Some p" by auto
  have "tx_categorySlug t = ''restaurants''" if "t \<in> set taught" "tx_categorySource t = UserManual" for t
    using that by (auto simp: taught_def demo_resent_def)
  with learner_repeats_user [OF p] show ?thesis by (auto simp: p)
qed

text \<open>The learner normalizes the descriptor a second time before it compares, and normalizing is not
  idempotent: a trailing region is stripped once more. A correction by hand of a merchant such as
  JOES PIZZA LA CA is forgotten when the same transaction comes again.\<close>

theorem correction_forgotten:
  "(let t = demo_resent\<lparr>tx_rawDescriptor := ''JOES PIZZA LA CA'',
          tx_normalizedDescriptor := normalizeDescriptor ''JOES PIZZA LA CA'',
          tx_categorySource := UserManual, tx_categorySlug := ''restaurants''\<rparr>
     in classify (fromTransactions [t]) (tx_normalizedDescriptor t) = None)"
  by code_simp

end
