(* ===== verification/RuleApply.thy ===== *)
theory RuleApply
  imports LedgerService
begin

text \<open>
  Bulk recategorization with a preview and an undo: \<open>domain/categorization/rule-preview.ts\<close>,
  \<open>modules/ledger/rule-apply.service.ts\<close> and the store of rule applications in
  \<open>infra/in-memory-store.ts\<close>. The type and the pattern of a draft come from a request body.
\<close>

section \<open>Preview\<close>

record ruleChange =
  rc_transactionId :: string
  rc_postedAt :: string
  rc_descriptor :: string
  rc_amount :: int
  rc_currency :: string
  rc_fromCategorySlug :: string
  rc_fromCategorySource :: categorySource
  rc_toCategorySlug :: string

record rulePreview =
  rp_changes :: "ruleChange list"
  rp_alreadyCorrect :: nat
  rp_protectedByUserChoice :: nat
  rp_matched :: nat
  rp_matchesNothing :: bool

definition change_of :: "categorizationRule \<Rightarrow> transaction \<Rightarrow> ruleChange" where
  "change_of rule t = \<lparr>rc_transactionId = tx_id t, rc_postedAt = tx_postedAt t,
     rc_descriptor = tx_rawDescriptor t, rc_amount = tx_amount t, rc_currency = tx_currency t,
     rc_fromCategorySlug = tx_categorySlug t, rc_fromCategorySource = tx_categorySource t,
     rc_toCategorySlug = ru_categorySlug rule\<rparr>"

definition preview_row :: "regex_engine \<Rightarrow> categorizationRule \<Rightarrow> rulePreview \<Rightarrow> transaction \<Rightarrow> rulePreview" where
  "preview_row re rule p t =
     (if \<not> matchesRule re rule (tx_normalizedDescriptor t) then p
      else let p = p\<lparr>rp_matched := rp_matched p + 1\<rparr>
        in if tx_categorySource t = UserManual
           then p\<lparr>rp_protectedByUserChoice := rp_protectedByUserChoice p + 1\<rparr>
           else if tx_categorySlug t = ru_categorySlug rule
           then p\<lparr>rp_alreadyCorrect := rp_alreadyCorrect p + 1\<rparr>
           else p\<lparr>rp_changes := rp_changes p @ [change_of rule t]\<rparr>)"

definition previewRule :: "regex_engine \<Rightarrow> categorizationRule \<Rightarrow> transaction list \<Rightarrow> rulePreview" where
  "previewRule re rule ts =
     (let p = foldl (preview_row re rule) \<lparr>rp_changes = [], rp_alreadyCorrect = 0,
            rp_protectedByUserChoice = 0, rp_matched = 0, rp_matchesNothing = False\<rparr> ts
      in p\<lparr>rp_matchesNothing := (rp_matched p = 0)\<rparr>)"

definition MAX_PATTERN_LENGTH :: nat where "MAX_PATTERN_LENGTH = 200"

text \<open>A quantified group inside a quantifier, or two quantified classes in a row.\<close>

definition SLOW_PATTERN :: rx where
  "SLOW_PATTERN =
     (let plus = Cls (one_of ''+*'')
      in Alt [Seq [Lit ''('', Many (Cls (\<lambda>c. c \<noteq> CHR '')'')), plus, Lit '')'', plus],
              Rep 2 None (Seq [Lit ''['', Many (Cls (\<lambda>c. c \<noteq> CHR '']'')), Lit '']'', plus])])"

definition match_type_of :: "string \<Rightarrow> ruleMatchType option" where
  "match_type_of s = map_of [(''contains'', MContains), (''exact'', MExact), (''regex'', MRegex)] s"

definition pattern_problems :: "regex_engine \<Rightarrow> string \<Rightarrow> string \<Rightarrow> string list" where
  "pattern_problems re matchType pattern =
     (let trimmed = trim pattern
      in (if length trimmed = 0 then [''Enter a pattern to match.''] else []) @
         (if length trimmed > MAX_PATTERN_LENGTH
          then [''Patterns must be '' @ nat_string MAX_PATTERN_LENGTH @ '' characters or fewer.''] else []) @
         (if match_type_of matchType = None then [''matchType must be contains, exact, or regex.''] else []) @
         (if matchType = ''regex'' \<and> length trimmed > 0
          then (if re trimmed [] = None then [''That is not a valid regular expression.''] else []) @
            (if rx_test SLOW_PATTERN trimmed
             then [''That pattern may be extremely slow on a large ledger. Prefer a simpler one.''] else [])
          else []))"

definition checkRulePattern :: "regex_engine \<Rightarrow> string \<Rightarrow> string \<Rightarrow> bool \<times> string list" where
  "checkRulePattern re matchType pattern =
     (let problems = pattern_problems re matchType pattern in (problems = [], problems))"

section \<open>The store of applications\<close>

record ruleApplicationChange =
  ra_transactionId :: string
  ra_previousCategorySlug :: string
  ra_previousCategorySource :: categorySource
  ra_previousConfidence :: rat

record ruleApplication =
  rl_id :: string
  rl_pattern :: string
  rl_matchType :: ruleMatchType
  rl_categorySlug :: string
  rl_rowsChanged :: nat
  rl_createdAt :: string
  rl_revertedAt :: "string option"

record applicationState =
  ap_rows :: "ruleApplication buckets"
  ap_changes :: "(string, ruleApplicationChange list) jsmap"

definition application_list :: "(string \<Rightarrow> string \<Rightarrow> int) \<Rightarrow> applicationState \<Rightarrow> string \<Rightarrow> ruleApplication list" where
  "application_list lc s u = js_sort (\<lambda>a b. lc (rl_createdAt b) (rl_createdAt a)) (bucket (ap_rows s) u)"

definition changes_key :: "string \<Rightarrow> string \<Rightarrow> string" where
  "changes_key u i = u @ CHR '':'' # i"

definition application_apply :: "transactionStore \<Rightarrow> applicationState \<Rightarrow> string \<Rightarrow> ruleApplication
    \<Rightarrow> ruleApplicationChange list \<Rightarrow> transactionStore \<times> applicationState" where
  "application_apply store s u application changes =
     (foldl (\<lambda>st c. snd (txn_update st u (ra_transactionId c)
        (categorize_as (rl_categorySlug application) UserRule))) store changes,
      s\<lparr>ap_rows := map_set u (bucket (ap_rows s) u @ [application]) (ap_rows s),
        ap_changes := map_set (changes_key u (rl_id application)) changes (ap_changes s)\<rparr>)"

definition restore_row :: "string \<Rightarrow> nat \<times> transactionStore \<Rightarrow> ruleApplicationChange \<Rightarrow> nat \<times> transactionStore" where
  "restore_row u acc c = (case acc of (restored, st) \<Rightarrow>
     (case txn_update st u (ra_transactionId c) (\<lambda>t. t\<lparr>tx_categorySlug := ra_previousCategorySlug c,
          tx_categorySource := ra_previousCategorySource c, tx_categoryConfidence := ra_previousConfidence c\<rparr>) of
        (None, st') \<Rightarrow> (restored, st') | (Some _, st') \<Rightarrow> (restored + 1, st')))"

definition application_revert :: "transactionStore \<Rightarrow> applicationState \<Rightarrow> string \<Rightarrow> string \<Rightarrow> string
    \<Rightarrow> nat option \<times> transactionStore \<times> applicationState" where
  "application_revert store s u i now =
     (case find (\<lambda>a. rl_id a = i) (bucket (ap_rows s) u) of
        None \<Rightarrow> (None, store, s)
      | Some application \<Rightarrow>
          if rl_revertedAt application \<noteq> None then (None, store, s)
          else (case foldl (restore_row u) (0, store) (get_or (ap_changes s) (changes_key u i) []) of
              (restored, store') \<Rightarrow> (Some restored, store',
                 s\<lparr>ap_rows := map_set u (update_first (\<lambda>a. rl_id a = i) (\<lambda>a. a\<lparr>rl_revertedAt := Some now\<rparr>)
                    (bucket (ap_rows s) u)) (ap_rows s)\<rparr>)))"

section \<open>The service\<close>

record ruleDraft =
  rd_matchType :: string
  rd_pattern :: "string option"
  rd_categorySlug :: string

datatype rule_error =
    RuleRejected "string list"
  | UnknownRuleCategory string
  | ChangesNothing nat nat nat
  | TooManyChanges nat
  | NoApplication

definition MAX_BULK_CHANGES :: nat where "MAX_BULK_CHANGES = 5000"

definition draft_pattern :: "ruleDraft \<Rightarrow> string" where
  "draft_pattern draft = (case rd_pattern draft of None \<Rightarrow> [] | Some p \<Rightarrow> p)"

definition assertDraft :: "regex_engine \<Rightarrow> ruleDraft \<Rightarrow> rule_error + unit" where
  "assertDraft re draft =
     (case checkRulePattern re (rd_matchType draft) (draft_pattern draft) of
        (False, problems) \<Rightarrow> Inl (RuleRejected problems)
      | (True, _) \<Rightarrow> if \<not> isKnownCategory (rd_categorySlug draft)
          then Inl (UnknownRuleCategory (rd_categorySlug draft)) else Inr ())"

definition draft_type :: "ruleDraft \<Rightarrow> ruleMatchType" where
  "draft_type draft = (case match_type_of (rd_matchType draft) of None \<Rightarrow> MContains | Some t \<Rightarrow> t)"

definition toRule :: "ruleDraft \<Rightarrow> categorizationRule" where
  "toRule draft = \<lparr>ru_id = ''preview'', ru_matchType = draft_type draft, ru_pattern = trim (draft_pattern draft),
     ru_categorySlug = rd_categorySlug draft, ru_priority = 0\<rparr>"

definition rule_preview :: "ledgerEnv \<Rightarrow> transactionStore \<Rightarrow> string \<Rightarrow> ruleDraft \<Rightarrow> rule_error + rulePreview" where
  "rule_preview env store u draft =
     (case assertDraft (en_regex env) draft of
        Inl e \<Rightarrow> Inl e
      | Inr _ \<Rightarrow> Inr (previewRule (en_regex env) (toRule draft) (list_all_of env store u)))"

definition recorded_change :: "transaction list \<Rightarrow> ruleChange \<Rightarrow> ruleApplicationChange" where
  "recorded_change ts c = \<lparr>ra_transactionId = rc_transactionId c,
     ra_previousCategorySlug = rc_fromCategorySlug c, ra_previousCategorySource = rc_fromCategorySource c,
     ra_previousConfidence = (case find (\<lambda>t. tx_id t = rc_transactionId c) ts of
        None \<Rightarrow> 0 | Some t \<Rightarrow> tx_categoryConfidence t)\<rparr>"

definition newApplication :: "ledgerEnv \<Rightarrow> ruleDraft \<Rightarrow> nat \<Rightarrow> ruleApplication" where
  "newApplication env draft n = \<lparr>rl_id = en_uuid env, rl_pattern = trim (draft_pattern draft),
     rl_matchType = draft_type draft, rl_categorySlug = rd_categorySlug draft, rl_rowsChanged = n,
     rl_createdAt = en_now env, rl_revertedAt = None\<rparr>"

definition rule_apply :: "ledgerEnv \<Rightarrow> transactionStore \<Rightarrow> applicationState \<Rightarrow> string \<Rightarrow> ruleDraft
    \<Rightarrow> (rule_error + ruleApplication \<times> rulePreview) \<times> transactionStore \<times> applicationState" where
  "rule_apply env store s u draft =
     (case rule_preview env store u draft of
        Inl e \<Rightarrow> (Inl e, store, s)
      | Inr preview \<Rightarrow>
          let n = length (rp_changes preview)
          in if n = 0 then (Inl (ChangesNothing (rp_matched preview) (rp_alreadyCorrect preview)
               (rp_protectedByUserChoice preview)), store, s)
             else if n > MAX_BULK_CHANGES then (Inl (TooManyChanges n), store, s)
             else let changes = map (recorded_change (list_all_of env store u)) (rp_changes preview);
                      application = newApplication env draft n
                  in (Inr (application, preview), application_apply store s u application changes))"

definition rule_revert :: "ledgerEnv \<Rightarrow> transactionStore \<Rightarrow> applicationState \<Rightarrow> string \<Rightarrow> string
    \<Rightarrow> (rule_error + nat) \<times> transactionStore \<times> applicationState" where
  "rule_revert env store s u i =
     (case application_revert store s u i (en_now env) of
        (None, store', s') \<Rightarrow> (Inl NoApplication, store', s')
      | (Some restored, store', s') \<Rightarrow> (Inr restored, store', s'))"

end
