(* ===== verification/RuleUndo.thy ===== *)
theory RuleUndo
  imports RuleApply TxnUpdates
begin

text \<open>
  What a bulk recategorization promises: it changes what the preview listed and nothing else, and
  its undo gives the ledger back.
\<close>

section \<open>The preview\<close>

definition would_change :: "regex_engine \<Rightarrow> categorizationRule \<Rightarrow> transaction \<Rightarrow> bool" where
  "would_change re rule t \<longleftrightarrow> matchesRule re rule (tx_normalizedDescriptor t) \<and>
     tx_categorySource t \<noteq> UserManual \<and> tx_categorySlug t \<noteq> ru_categorySlug rule"

lemma preview_rows:
  "rp_changes (foldl (preview_row re rule) p ts) =
     rp_changes p @ map (change_of rule) (filter (would_change re rule) ts)"
  by (induction ts arbitrary: p) (auto simp: preview_row_def would_change_def Let_def)

lemma preview_counts:
  "rp_matched (foldl (preview_row re rule) p ts) + rp_alreadyCorrect p + rp_protectedByUserChoice p +
     length (rp_changes p) = rp_matched p + rp_alreadyCorrect (foldl (preview_row re rule) p ts) +
     rp_protectedByUserChoice (foldl (preview_row re rule) p ts) +
     length (rp_changes (foldl (preview_row re rule) p ts))"
proof (induction ts arbitrary: p)
  case (Cons t ts)
  show ?case using Cons [of "preview_row re rule p t"]
    by (auto simp: preview_row_def Let_def split: if_splits)
qed simp

lemma previewRule_changes:
  "rp_changes (previewRule re rule ts) = map (change_of rule) (filter (would_change re rule) ts)"
  by (simp add: previewRule_def Let_def preview_rows)

lemma rule_apply_Inr:
  assumes "rule_apply env store s u draft = (Inr (a, p), store', s')"
  obtains "assertDraft (en_regex env) draft = Inr ()"
    and "p = previewRule (en_regex env) (toRule draft) (list_all_of env store u)"
    and "rp_changes p \<noteq> []" and "length (rp_changes p) \<le> MAX_BULK_CHANGES"
    and "a = newApplication env draft (length (rp_changes p))"
    and "(store', s') = application_apply store s u a
      (map (recorded_change (list_all_of env store u)) (rp_changes p))"
  using assms
  by (auto simp: rule_apply_def rule_preview_def Let_def split: sum.splits if_splits prod.splits)

section \<open>Applying and reverting as one pass\<close>

definition undo_patch :: "ruleApplicationChange \<Rightarrow> transaction \<Rightarrow> transaction" where
  "undo_patch c t = t\<lparr>tx_categorySlug := ra_previousCategorySlug c,
     tx_categorySource := ra_previousCategorySource c, tx_categoryConfidence := ra_previousConfidence c\<rparr>"

lemma keeps_ids [simp]: "\<not> moves_id (categorize_as slug source)" "\<not> moves_id (undo_patch c)"
  by (simp_all add: moves_id_def categorize_as_def undo_patch_def)

lemma restore_row_eq:
  "restore_row u (n, st) c = (if fst (txn_update st u (ra_transactionId c) (undo_patch c)) = None then n else n + 1,
     snd (txn_update st u (ra_transactionId c) (undo_patch c)))"
  by (auto simp: restore_row_def undo_patch_def [abs_def] split: prod.splits option.splits)

lemma restore_rows:
  assumes "map_of st u = Some rows" and "distinct (map tx_id rows)"
    and "\<And>c. c \<in> set cs \<Longrightarrow> ra_transactionId c \<in> tx_id ` set rows"
  shows "foldl (restore_row u) (n, st) cs =
    (n + length cs, foldl (\<lambda>st c. snd (txn_update st u (ra_transactionId c) (undo_patch c))) st cs)"
  using assms
proof (induction cs arbitrary: n st rows)
  case (Cons c cs)
  let ?r = "map (\<lambda>t. if tx_id t = ra_transactionId c then undo_patch c t else t) rows"
  have ids: "map tx_id ?r = map tx_id rows" by (auto simp: undo_patch_def)
  then have set_ids: "tx_id ` set ?r = tx_id ` set rows" by (metis list.set_map)
  note up = txn_update_rows [OF Cons.prems(1,2) keeps_ids(2) [of c], where i = "ra_transactionId c"]
  have "find (\<lambda>t. tx_id t = ra_transactionId c) rows \<noteq> None"
  proof -
    obtain t where "t \<in> set rows" and "ra_transactionId c = tx_id t" using Cons.prems(3) [of c] by auto
    with find_by_id [OF Cons.prems(2), of t] show ?thesis by simp
  qed
  then have "restore_row u (n, st) c = (n + 1, map_set u ?r st)" by (simp add: restore_row_eq up)
  moreover have "foldl (restore_row u) (n + 1, map_set u ?r st) cs = (n + 1 + length cs,
      foldl (\<lambda>st c. snd (txn_update st u (ra_transactionId c) (undo_patch c))) (map_set u ?r st) cs)"
  proof (rule Cons.IH [of "map_set u ?r st" ?r "n + 1"])
    show "map_of (map_set u ?r st) u = Some ?r" by simp
    show "distinct (map tx_id ?r)" by (simp only: ids Cons.prems(2))
    show "ra_transactionId d \<in> tx_id ` set ?r" if "d \<in> set cs" for d
      unfolding set_ids by (rule Cons.prems(3)) (simp add: that)
  qed
  ultimately show ?case by (simp add: up)
qed simp

text \<open>The rows a rule would change, with what the undo needs.\<close>

definition planned :: "ledgerEnv \<Rightarrow> transactionStore \<Rightarrow> string \<Rightarrow> ruleDraft \<Rightarrow> ruleApplicationChange list" where
  "planned env store u draft = map (recorded_change (list_all_of env store u))
     (rp_changes (previewRule (en_regex env) (toRule draft) (list_all_of env store u)))"

lemma planned_ids:
  "map ra_transactionId (planned env store u draft) =
     map tx_id (filter (would_change (en_regex env) (toRule draft)) (list_all_of env store u))"
  by (simp add: planned_def previewRule_changes recorded_change_def change_of_def comp_def)

lemma planned_distinct:
  "distinct (map tx_id (bucket store u)) \<Longrightarrow> distinct (map ra_transactionId (planned env store u draft))"
  unfolding planned_ids using ids_list_all [of env store u] by (simp add: distinct_map_filter)

lemma planned_find:
  assumes "distinct (map tx_id (bucket store u))" and t: "t \<in> set (bucket store u)"
  shows "find (\<lambda>c. ra_transactionId c = tx_id t) (planned env store u draft) =
    (if would_change (en_regex env) (toRule draft) t
     then Some \<lparr>ra_transactionId = tx_id t, ra_previousCategorySlug = tx_categorySlug t,
       ra_previousCategorySource = tx_categorySource t, ra_previousConfidence = tx_categoryConfidence t\<rparr>
     else None)"
proof -
  let ?L = "list_all_of env store u" and ?P = "would_change (en_regex env) (toRule draft)"
  have L: "t \<in> set ?L" "distinct (map tx_id ?L)" using assms by simp_all
  have rec: "recorded_change ?L (change_of (toRule draft) r) =
      \<lparr>ra_transactionId = tx_id r, ra_previousCategorySlug = tx_categorySlug r,
       ra_previousCategorySource = tx_categorySource r, ra_previousConfidence = tx_categoryConfidence r\<rparr>"
    if "r \<in> set ?L" for r
    using find_by_id [OF L(2) that] by (simp add: recorded_change_def change_of_def)
  have "find (\<lambda>c. ra_transactionId c = tx_id t) (map (\<lambda>r. recorded_change ?L (change_of (toRule draft) r)) xs) =
      (if t \<in> set xs then Some (recorded_change ?L (change_of (toRule draft) t)) else None)"
    if "set xs \<subseteq> set ?L" for xs
    using that
  proof (induction xs)
    case (Cons x xs)
    have "tx_id x = tx_id t \<longleftrightarrow> x = t"
      using L Cons.prems by (metis find_by_id insert_subset list.simps(15) option.inject)
    then show ?case using Cons by (auto simp: recorded_change_def change_of_def)
  qed simp
  from this [of "filter ?P ?L"] show ?thesis
    using L rec by (simp add: planned_def previewRule_changes comp_def)
qed

lemma apply_rows:
  assumes "map_of store u = Some rows" and "distinct (map tx_id rows)"
  shows "fst (application_apply store s u a (planned env store u draft)) =
    map_set u (map (\<lambda>t. if would_change (en_regex env) (toRule draft) t
      then categorize_as (rl_categorySlug a) UserRule t else t) rows) store"
proof -
  have b: "bucket store u = rows" using assms(1) by (simp add: bucket_def get_or_def)
  have "patched ra_transactionId (\<lambda>c. categorize_as (rl_categorySlug a) UserRule) (planned env store u draft) t =
      (if would_change (en_regex env) (toRule draft) t
       then categorize_as (rl_categorySlug a) UserRule t else t)" if "t \<in> set rows" for t
    unfolding patched_def using planned_find [of store u t env draft] assms that b by simp
  then show ?thesis
    using updates_rows [where f = "\<lambda>c. categorize_as (rl_categorySlug a) UserRule" and key = ra_transactionId,
        OF keeps_ids(1) assms planned_distinct [of store u env draft, unfolded b, OF assms(2)]]
    by (simp add: application_apply_def cong: map_cong)
qed

section \<open>Properties\<close>

lemma apply_effect:
  assumes ids: "distinct (map tx_id (bucket store u))"
    and "rule_apply env store s u draft = (Inr (a, p), store', s')"
  shows "store' = map_set u (map (\<lambda>t. if would_change (en_regex env) (toRule draft) t
      then categorize_as (rd_categorySlug draft) UserRule t else t) (bucket store u)) store"
    and "map_of store u = Some (bucket store u)"
    and "s' = snd (application_apply store s u a (planned env store u draft))"
    and "map rc_transactionId (rp_changes p) = map ra_transactionId (planned env store u draft)"
    and "a = newApplication env draft (length (planned env store u draft))"
proof -
  from assms(2) obtain p': "p = previewRule (en_regex env) (toRule draft) (list_all_of env store u)"
    and ne: "rp_changes p \<noteq> []" and a: "a = newApplication env draft (length (rp_changes p))"
    and st: "(store', s') = application_apply store s u a
      (map (recorded_change (list_all_of env store u)) (rp_changes p))"
    by (rule rule_apply_Inr) blast
  have pl: "map (recorded_change (list_all_of env store u)) (rp_changes p) = planned env store u draft"
    by (simp add: planned_def p')
  have "list_all_of env store u \<noteq> []" using ne by (auto simp: p' previewRule_changes)
  then have "bucket store u \<noteq> []" by (simp add: list_all_eq)
  then show m: "map_of store u = Some (bucket store u)" by (rule bucket_Some)
  show "s' = snd (application_apply store s u a (planned env store u draft))"
    using st unfolding pl by (metis snd_conv)
  show "map rc_transactionId (rp_changes p) = map ra_transactionId (planned env store u draft)"
    by (simp add: planned_def p' recorded_change_def comp_def)
  show "a = newApplication env draft (length (planned env store u draft))"
    by (simp add: a planned_def p')
  have cat: "rl_categorySlug a = rd_categorySlug draft" by (simp add: a newApplication_def)
  have "store' = fst (application_apply store s u a (planned env store u draft))"
    using st unfolding pl by (metis fst_conv)
  then show "store' = map_set u (map (\<lambda>t. if would_change (en_regex env) (toRule draft) t
      then categorize_as (rd_categorySlug draft) UserRule t else t) (bucket store u)) store"
    using apply_rows [OF m ids, of s a env draft, unfolded cat] by simp
qed

definition demo_env :: ledgerEnv where
  "demo_env = \<lparr>en_localeCompare = code_unit_compare, en_regex = \<lambda>_ _. None, en_today = ''2026-03-10'',
     en_now = ''2026-03-10T00:00:00.000Z'', en_millis = 1000, en_uuid = ''a1'',
     en_listAccounts = \<lambda>_. [], en_fetch = \<lambda>_. []\<rparr>"

definition demo_rows :: transactionStore where
  "demo_rows = [(''u'', [demo_resent\<lparr>tx_id := ''t1''\<rparr>, demo_resent\<lparr>tx_id := ''t2'', tx_categorySource := UserManual\<rparr>,
     demo_resent\<lparr>tx_id := ''t3'', tx_normalizedDescriptor := ''bookshop''\<rparr>])]"

definition demo_draft :: ruleDraft where
  "demo_draft = \<lparr>rd_matchType = ''contains'', rd_pattern = Some '' CAFE'', rd_categorySlug = ''restaurants''\<rparr>"

abbreviation "demo_applications \<equiv> \<lparr>ap_rows = [], ap_changes = []\<rparr>"

definition demo_applied :: "(rule_error + ruleApplication \<times> rulePreview) \<times> transactionStore \<times> applicationState" where
  "demo_applied = rule_apply demo_env demo_rows demo_applications ''u'' demo_draft"

lemma demo_applied_ok:
  obtains a p store' s' where "rule_apply demo_env demo_rows demo_applications ''u'' demo_draft = (Inr (a, p), store', s')"
    and "map rc_transactionId (rp_changes p) = [''t1'']" and "rl_id a = ''a1''"
proof -
  have "case demo_applied of (Inr (a, p), _, _) \<Rightarrow>
      map rc_transactionId (rp_changes p) = [''t1''] \<and> rl_id a = ''a1'' | _ \<Rightarrow> False"
    by code_simp
  then show ?thesis by (auto simp: demo_applied_def split: prod.splits sum.splits intro: that)
qed

lemma demo_ids: "distinct (map tx_id (bucket demo_rows ''u''))"
  by code_simp

lemma apply_preview:
  assumes ids: "distinct (map tx_id (bucket store u))"
    and ap: "rule_apply env store s u draft = (Inr (a, p), store', s')"
  shows "bucket store' u = map (\<lambda>t. if tx_id t \<in> set (map rc_transactionId (rp_changes p))
        then categorize_as (rd_categorySlug draft) UserRule t else t) (bucket store u)"
    and "t \<in> set (bucket store u) \<Longrightarrow> tx_categorySource t = UserManual \<Longrightarrow> t \<in> set (bucket store' u)"
    and "v \<noteq> u \<Longrightarrow> bucket store' v = bucket store v"
    and "rl_rowsChanged a = length (rp_changes p)" and "rl_rowsChanged a \<le> 5000"
proof -
  note e = apply_effect [OF ids ap]
  let ?P = "would_change (en_regex env) (toRule draft)"
  have "tx_id t \<in> set (map rc_transactionId (rp_changes p)) \<longleftrightarrow> ?P t" if t: "t \<in> set (bucket store u)" for t
  proof -
    have "?P t \<longleftrightarrow> find (\<lambda>c. ra_transactionId c = tx_id t) (planned env store u draft) \<noteq> None"
      by (simp add: planned_find [OF ids t])
    also have "\<dots> \<longleftrightarrow> tx_id t \<in> set (map ra_transactionId (planned env store u draft))"
      by (simp add: find_key_None)
    finally show ?thesis by (simp only: e(4))
  qed
  then show "bucket store' u = map (\<lambda>t. if tx_id t \<in> set (map rc_transactionId (rp_changes p))
        then categorize_as (rd_categorySlug draft) UserRule t else t) (bucket store u)"
    by (simp add: e(1) cong: map_cong)
  show "t \<in> set (bucket store' u)" if "t \<in> set (bucket store u)" "tx_categorySource t = UserManual"
    using that by (auto simp: e(1) would_change_def intro!: image_eqI [of _ _ t])
  show "v \<noteq> u \<Longrightarrow> bucket store' v = bucket store v" by (simp add: e(1))
  have "length (rp_changes p) \<le> 5000" and "a = newApplication env draft (length (rp_changes p))"
    using ap by (auto elim!: rule_apply_Inr simp: MAX_BULK_CHANGES_def)
  then show "rl_rowsChanged a = length (rp_changes p)" and "rl_rowsChanged a \<le> 5000"
    by (simp_all add: newApplication_def)
qed

text \<open>Applying a rule changes exactly the rows its preview listed, and of those only the category:
  each gets the rule's category, every other row stays as it is, in particular every row that the
  user categorized by hand, and so does the ledger of every other user.\<close>

theorem apply_matches_preview:
  assumes "distinct (map tx_id (bucket store u))"
    and "rule_apply env store s u draft = (Inr (a, p), store', s')"
  shows "bucket store' u = map (\<lambda>t. if tx_id t \<in> set (map rc_transactionId (rp_changes p))
        then categorize_as (rd_categorySlug draft) UserRule t else t) (bucket store u) \<and>
    (\<forall>t. t \<in> set (bucket store u) \<longrightarrow> tx_categorySource t = UserManual \<longrightarrow> t \<in> set (bucket store' u)) \<and>
    (\<forall>v. v \<noteq> u \<longrightarrow> bucket store' v = bucket store v) \<and>
    rl_rowsChanged a = length (rp_changes p) \<and> rl_rowsChanged a \<le> 5000"
  using apply_preview [OF assms] by blast

theorem apply_matches_preview_witness:
  "map (\<lambda>t. (tx_id t, tx_categorySlug t)) (bucket (fst (snd demo_applied)) ''u'') =
     [(''t1'', ''restaurants''), (''t2'', ''coffee''), (''t3'', ''coffee'')] \<and>
   bucket (fst (snd demo_applied)) ''w'' = []"
proof -
  obtain a p store' s' where ap: "rule_apply demo_env demo_rows demo_applications ''u'' demo_draft =
      (Inr (a, p), store', s')" and p: "map rc_transactionId (rp_changes p) = [''t1'']"
    by (rule demo_applied_ok)
  from apply_matches_preview [OF demo_ids ap]
  have "bucket store' ''u'' = map (\<lambda>t. if tx_id t \<in> set (map rc_transactionId (rp_changes p))
      then categorize_as (rd_categorySlug demo_draft) UserRule t else t) (bucket demo_rows ''u'')"
    and "bucket store' ''w'' = bucket demo_rows ''w''" by simp_all
  then show ?thesis unfolding demo_applied_def ap
    by (simp add: p demo_rows_def demo_draft_def categorize_as_def demo_resent_def bucket_def get_or_def)
qed

lemma undo_effect:
  assumes ids: "distinct (map tx_id (bucket store u))"
    and ap: "rule_apply env store s u draft = (Inr (a, p), store', s')"
    and fresh: "en_uuid env \<notin> rl_id ` set (bucket (ap_rows s) u)"
    and undo: "rule_revert env' store' s' u (rl_id a) = (result, store'', s'')"
  shows "result = Inr (rl_rowsChanged a)" and "store'' = store"
    and "rule_revert later store'' s'' u (rl_id a) = (Inl NoApplication, store'', s'')"
proof -
  note e = apply_effect [OF ids ap]
  let ?P = "would_change (en_regex env) (toRule draft)" and ?cs = "planned env store u draft"
  let ?rows = "bucket store u"
  let ?f = "categorize_as (rd_categorySlug draft) UserRule"
  let ?rows' = "map (\<lambda>t. if ?P t then ?f t else t) ?rows"
  have i: "rl_id a = en_uuid env" and n: "rl_rowsChanged a = length ?cs" and r: "rl_revertedAt a = None"
    by (simp_all add: e(5) newApplication_def)
  have rows_s': "bucket (ap_rows s') u = bucket (ap_rows s) u @ [a]"
    and ch: "get_or (ap_changes s') (changes_key u (rl_id a)) [] = ?cs"
    by (simp_all add: e(3) application_apply_def get_or_def)
  have "find (\<lambda>a'. rl_id a' = rl_id a) (bucket (ap_rows s) u) = None"
    using fresh by (simp add: find_key_None i)
  then have found: "find (\<lambda>a'. rl_id a' = rl_id a) (bucket (ap_rows s') u) = Some a"
    by (simp add: rows_s' find_append)
  have ids': "map tx_id ?rows' = map tx_id ?rows" by (auto simp: categorize_as_def)
  have m': "map_of store' u = Some ?rows'" by (simp add: e(1))
  have d': "distinct (map tx_id ?rows')" by (simp only: ids' ids)
  have "map_set u (map (patched ra_transactionId undo_patch ?cs) ?rows') store' = store"
  proof -
    have "patched ra_transactionId undo_patch ?cs (if ?P t then ?f t else t) = t" if t: "t \<in> set ?rows" for t
    proof -
      have "tx_id (if ?P t then ?f t else t) = tx_id t" by (simp add: categorize_as_def)
      then show ?thesis unfolding patched_def
        by (simp add: planned_find [OF ids t] undo_patch_def categorize_as_def)
    qed
    then have "map (patched ra_transactionId undo_patch ?cs) ?rows' = ?rows" by (simp add: map_idI)
    then show ?thesis by (simp add: e(1) AList.update_last map_set_same [OF e(2)])
  qed
  moreover have "foldl (restore_row u) (0, store') ?cs = (0 + length ?cs,
      foldl (\<lambda>st c. snd (txn_update st u (ra_transactionId c) (undo_patch c))) store' ?cs)"
  proof (rule restore_rows [OF m' d'])
    fix c assume "c \<in> set ?cs"
    then have "ra_transactionId c \<in> set (map ra_transactionId ?cs)" by simp
    then have "ra_transactionId c \<in> set (map tx_id ?rows)" unfolding planned_ids by auto
    then show "ra_transactionId c \<in> tx_id ` set ?rows'" by (metis ids' list.set_map)
  qed
  ultimately have rev: "foldl (restore_row u) (0, store') ?cs = (length ?cs, store)"
    using updates_rows [OF keeps_ids(2) m' d' planned_distinct [OF ids]] by simp
  then have u: "result = Inr (length ?cs)" "store'' = store"
    "s'' = s'\<lparr>ap_rows := map_set u (update_first (\<lambda>a'. rl_id a' = rl_id a)
       (\<lambda>a'. a'\<lparr>rl_revertedAt := Some (en_now env')\<rparr>) (bucket (ap_rows s') u)) (ap_rows s')\<rparr>"
    using undo by (auto simp: rule_revert_def application_revert_def found r ch)
  show "result = Inr (rl_rowsChanged a)" and "store'' = store" by (simp_all add: n u)
  have "find (\<lambda>a'. rl_id a' = rl_id a) (bucket (ap_rows s'') u) = Some (a\<lparr>rl_revertedAt := Some (en_now env')\<rparr>)"
    by (simp add: u(3) find_update_first_hit [OF found])
  then show "rule_revert later store'' s'' u (rl_id a) = (Inl NoApplication, store'', s'')"
    by (simp add: rule_revert_def application_revert_def)
qed

text \<open>C15: Undoing a bulk recategorization gives back the ledger as it was before, row by row, with the
  confidence the categorizer had, and reports how many rows were restored; a second undo is refused and
  changes nothing.\<close>

theorem undo_restores_ledger:
  assumes "distinct (map tx_id (bucket store u))"
    and "rule_apply env store s u draft = (Inr (a, p), store', s')"
    and "en_uuid env \<notin> rl_id ` set (bucket (ap_rows s) u)"
    and "rule_revert env' store' s' u (rl_id a) = (result, store'', s'')"
  shows "result = Inr (rl_rowsChanged a) \<and> store'' = store \<and>
    rule_revert later store'' s'' u (rl_id a) = (Inl NoApplication, store'', s'')"
  using undo_effect [OF assms] by blast

theorem undo_restores_ledger_witness:
  "case demo_applied of (r, store', s') \<Rightarrow> fst (snd (rule_revert demo_env store' s' ''u'' ''a1'')) = demo_rows"
proof -
  obtain a p store' s' where ap: "rule_apply demo_env demo_rows demo_applications ''u'' demo_draft =
      (Inr (a, p), store', s')" and a: "rl_id a = ''a1''"
    by (rule demo_applied_ok)
  let ?r = "rule_revert demo_env store' s' ''u'' (rl_id a)"
  have "?r = (fst ?r, fst (snd ?r), snd (snd ?r))" by simp
  from undo_restores_ledger [OF demo_ids ap _ this] show ?thesis
    by (simp add: demo_applied_def ap a bucket_def get_or_def)
qed

text \<open>The undo is blind to what happened since. A row the user recategorizes by hand after the bulk
  change loses that choice when the bulk change is undone, although preview and sync never override a
  manual choice.\<close>

theorem undo_overwrites_manual_choice:
  "case demo_applied of (_, store', s') \<Rightarrow>
     (case recategorize demo_env \<lparr>ld_accounts = \<lparr>as_accounts = [], as_snapshots = []\<rparr>,
          ld_transactions = store', ld_rules = [], ld_events = []\<rparr> ''u'' ''t1'' ''travel'' False of (_, l) \<Rightarrow>
        map_option (\<lambda>t. (tx_categorySlug t, tx_categorySource t)) (txn_get (ld_transactions l) ''u'' ''t1'') =
          Some (''travel'', UserManual) \<and>
        (case rule_revert demo_env (ld_transactions l) s' ''u'' ''a1'' of (result, store'', _) \<Rightarrow>
          result = Inr 1 \<and>
          map_option (\<lambda>t. (tx_categorySlug t, tx_categorySource t)) (txn_get store'' ''u'' ''t1'') =
            Some (''coffee'', Lexicon)))"
  by code_simp

end
