(* ===== verification/LedgerSafety.thy ===== *)
theory LedgerSafety
  imports LedgerLearning RuleUndo
begin

text \<open>
  The ledger as a state machine over the requests of its users, and what survives any run of it: the
  category a user chose by hand.
\<close>

section \<open>Requests\<close>

datatype ledgerRequest =
    RSync string string
  | RCreateAccount string account
  | RUpdateAccount string string account
  | RRemoveAccount string string
  | RTags string string jsValue
  | RPreferences string string "(string \<times> jsValue) list"
  | RRecategorize string string string bool
  | RRemoveRule string string
  | RApplyRule string ruleDraft
  | RUndoRule string string

type_synonym machine = "ledgerState \<times> applicationState"

fun handle_ledger :: "ledgerEnv \<Rightarrow> ledgerRequest \<Rightarrow> machine \<Rightarrow> machine" where
  "handle_ledger env (RSync u link) (s, a) = (snd (sync env s u link), a)"
| "handle_ledger env (RCreateAccount u d) (s, a) = (snd (createManualAccount env s u d), a)"
| "handle_ledger env (RUpdateAccount u i d) (s, a) = (snd (updateManualAccount env s u i d), a)"
| "handle_ledger env (RRemoveAccount u i) (s, a) = (snd (removeManualAccount env s u i), a)"
| "handle_ledger env (RTags u i v) (s, a) = (snd (updateTransactionTags env s u i v), a)"
| "handle_ledger env (RPreferences u i p) (s, a) = (snd (updateTxnPreferences env s u i p), a)"
| "handle_ledger env (RRecategorize u i slug rule) (s, a) = (snd (recategorize env s u i slug rule), a)"
| "handle_ledger env (RRemoveRule u i) (s, a) = (snd (removeCategorizationRule s u i), a)"
| "handle_ledger env (RApplyRule u d) (s, a) =
     (case rule_apply env (ld_transactions s) a u d of (_, store, a') \<Rightarrow> (s\<lparr>ld_transactions := store\<rparr>, a'))"
| "handle_ledger env (RUndoRule u i) (s, a) =
     (case rule_revert env (ld_transactions s) a u i of (_, store, a') \<Rightarrow> (s\<lparr>ld_transactions := store\<rparr>, a'))"

text \<open>
  Runs over permitted requests. Row identifiers are distinct per user, as the primary key of the
  table demands; a provider row's is built from its account and provider identifiers.
\<close>

definition ids_distinct :: "machine \<Rightarrow> bool" where
  "ids_distinct m \<longleftrightarrow> (\<forall>u. distinct (map tx_id (bucket (ld_transactions (fst m)) u)))"

inductive ledger_run :: "(ledgerRequest \<Rightarrow> bool) \<Rightarrow> machine \<Rightarrow> machine \<Rightarrow> bool" for ok where
  run_start: "ledger_run ok m m"
| run_request: "ledger_run ok m m' \<Longrightarrow> ids_distinct m' \<Longrightarrow> ok req \<Longrightarrow> ledger_run ok m (handle_ledger env req m')"

fun leaves_alone :: "string \<Rightarrow> string \<Rightarrow> ledgerRequest \<Rightarrow> bool" where
  "leaves_alone u i (RRecategorize v j _ _) = (v \<noteq> u \<or> j \<noteq> i)"
| "leaves_alone u i (RUndoRule v _) = (v \<noteq> u)"
| "leaves_alone u i _ = True"

section \<open>A choice is kept\<close>

definition has_choice :: "string \<times> string \<Rightarrow> string \<Rightarrow> string \<Rightarrow> transaction list \<Rightarrow> bool" where
  "has_choice k i slug rows \<longleftrightarrow> (\<exists>r \<in> set rows. tx_key r = k \<and> tx_id r = i \<and>
     tx_categorySource r = UserManual \<and> tx_categorySlug r = slug)"

definition keeps_choice :: "(transaction \<Rightarrow> transaction) \<Rightarrow> bool" where
  "keeps_choice f \<longleftrightarrow> (\<forall>t. tx_key (f t) = tx_key t \<and> tx_categorySource (f t) = tx_categorySource t \<and>
     tx_categorySlug (f t) = tx_categorySlug t)"

lemma update_first_mem:
  "r \<in> set xs \<Longrightarrow> r \<in> set (update_first P f xs) \<or> (P r \<and> f r \<in> set (update_first P f xs))"
  by (induction xs) auto

lemma bucket_txn_update:
  "bucket (snd (txn_update st v j f)) u =
     (if v = u then update_first (\<lambda>t. tx_id t = j) (\<lambda>t. (f t)\<lparr>tx_id := j\<rparr>) (bucket st u) else bucket st u)"
  by (auto simp: txn_update_def Let_def find_None_iff split: option.split)

lemma has_choice_update:
  assumes "has_choice k i slug (bucket st u)" and "v \<noteq> u \<or> j \<noteq> i \<or> keeps_choice f"
  shows "has_choice k i slug (bucket (snd (txn_update st v j f)) u)"
proof (cases "v = u")
  case True
  from assms(1) obtain r where r: "r \<in> set (bucket st u)" "tx_key r = k" "tx_id r = i"
    "tx_categorySource r = UserManual" "tx_categorySlug r = slug" by (auto simp: has_choice_def)
  let ?rows = "update_first (\<lambda>t. tx_id t = j) (\<lambda>t. (f t)\<lparr>tx_id := j\<rparr>) (bucket st u)"
  from update_first_mem [OF r(1), of "\<lambda>t. tx_id t = j" "\<lambda>t. (f t)\<lparr>tx_id := j\<rparr>"]
  consider "r \<in> set ?rows" | "tx_id r = j" "(f r)\<lparr>tx_id := j\<rparr> \<in> set ?rows" by blast
  then show ?thesis
  proof cases
    case 2
    with r(3) assms(2) True have "keeps_choice f" by simp
    then show ?thesis using 2 r unfolding has_choice_def bucket_txn_update
      by (intro bexI [of _ "(f r)\<lparr>tx_id := j\<rparr>"]) (auto simp: keeps_choice_def tx_key_def True)
  qed (use r True in \<open>auto simp: has_choice_def bucket_txn_update\<close>)
qed (use assms in \<open>simp add: bucket_txn_update\<close>)

lemma has_choice_upsert_row:
  assumes "has_choice k i slug rows"
  shows "has_choice k i slug (upsert_row rows t)"
proof -
  from assms obtain r where r: "r \<in> set rows" "tx_key r = k" "tx_id r = i"
    "tx_categorySource r = UserManual" "tx_categorySlug r = slug" by (auto simp: has_choice_def)
  have "tx_key (resync r t) = tx_key t" "tx_id (resync r t) = i"
    "tx_categorySource (resync r t) = UserManual" "tx_categorySlug (resync r t) = slug"
    using r by (simp_all add: resync_def keeps_user_category_def Let_def tx_key_def)
  then show ?thesis
    using update_first_mem [OF r(1), of "\<lambda>r. tx_key r = tx_key t" "\<lambda>r. resync r t"] r
    unfolding has_choice_def upsert_row_def by (auto intro: bexI [of _ "resync r t"])
qed

lemma has_choice_upsertMany:
  assumes "has_choice k i slug (bucket st u)"
  shows "has_choice k i slug (bucket (snd (txn_upsertMany st v ts)) u)"
proof -
  have "has_choice k i slug (foldl upsert_row rows ts)" if "has_choice k i slug rows" for rows
    using that by (induction ts arbitrary: rows) (auto intro: has_choice_upsert_row)
  then show ?thesis using assms by (cases "v = u") (simp_all add: txn_upsertMany_eq)
qed

lemma has_choice_marks:
  "has_choice k i slug (bucket st u) \<Longrightarrow>
     has_choice k i slug (bucket (foldl (mark_recurring v rec) st ts) u)"
proof (induction ts arbitrary: st)
  case (Cons t ts)
  have "keeps_choice (\<lambda>t. t\<lparr>tx_isRecurring := b\<rparr>)" for b by (simp add: keeps_choice_def tx_key_def)
  then have "has_choice k i slug (bucket (mark_recurring v rec st t) u)"
    using Cons.prems by (simp add: mark_recurring_def Let_def has_choice_update)
  then show ?case by (simp add: Cons.IH)
qed simp

lemma has_choice_sync:
  assumes "has_choice k i slug (bucket (ld_transactions s) u)"
  shows "has_choice k i slug (bucket (ld_transactions (snd (sync env s v link))) u)"
  using has_choice_upsertMany [OF assms, of v "map2 toTransaction (en_fetch env link) (sync_categorized env s v link)"]
  by (auto simp: sync_def Let_def has_choice_marks split: prod.splits option.splits)

lemma add_choice_Inl [simp]: "add_choice (Inl e) entry = Inl e"
  by (simp add: add_choice_def)

lemma add_choices_keep:
  "foldl add_choice (Inr id) patch = Inr f \<Longrightarrow> keeps_choice f"
proof (induction patch arbitrary: f rule: rev_induct)
  case Nil
  then show ?case by (auto simp: keeps_choice_def)
next
  case (snoc e patch)
  obtain key v where e: "e = (key, v)" by (cases e)
  show ?case
  proof (cases "foldl add_choice (Inr id) patch")
    case (Inl err)
    have "add_choice (foldl add_choice (Inr id) patch) e = Inr f"
      using snoc.prems by (simp only: foldl_append foldl.simps)
    then have "Inl err = Inr f" by (simp only: Inl add_choice_Inl)
    then show ?thesis by simp
  next
    case (Inr g)
    have "keeps_choice g" by (rule snoc.IH [OF Inr])
    moreover have "add_choice (Inr g) (key, v) = Inr f"
      using snoc.prems by (simp only: foldl_append foldl.simps Inr e)
    ultimately show ?thesis
      by (auto simp: add_choice_def keeps_choice_def tx_key_def map_sum_def split: if_splits sum.splits)
  qed
qed

lemma has_choice_store_update:
  assumes "has_choice k i slug (bucket (ld_transactions s) u)" and "keeps_choice f"
  shows "has_choice k i slug (bucket (ld_transactions (snd (store_update env s v j f))) u)"
  using has_choice_update [OF assms(1), of v j f] assms
  by (auto simp: store_update_def emit_def split: prod.splits option.splits)

lemma has_choice_map:
  assumes "has_choice k i slug rows"
    and "\<And>r. r \<in> set rows \<Longrightarrow> tx_categorySource r = UserManual \<Longrightarrow> tx_id r = i \<Longrightarrow> g r = r"
  shows "has_choice k i slug (map g rows)"
proof -
  from assms(1) obtain r where r: "r \<in> set rows" "tx_key r = k" "tx_id r = i"
    "tx_categorySource r = UserManual" "tx_categorySlug r = slug" by (auto simp: has_choice_def)
  then have "r \<in> set (map g rows)" using assms(2) [of r] by force
  with r show ?thesis unfolding has_choice_def by blast
qed

lemma has_choice_recategorize:
  assumes c: "has_choice k i slug (bucket (ld_transactions s) u)"
    and ids: "distinct (map tx_id (bucket (ld_transactions s) v))" and other: "v \<noteq> u \<or> j \<noteq> i"
  shows "has_choice k i slug (bucket (ld_transactions (snd (recategorize env s v j slug' rule))) u)"
proof (cases "recategorize env s v j slug' rule")
  case (Pair r s')
  show ?thesis
  proof (cases r)
    case Inl
    then have "s' = s" using Pair by (auto simp: recategorize_def Let_def split: if_splits option.splits prod.splits)
    then show ?thesis using c Pair by simp
  next
    case (Inr tn)
    then obtain t n where ok: "recategorize env s v j slug' rule = (Inr (t, n), s')" using Pair by (cases tn) auto
    obtain p where s': "ld_transactions s' =
        map_set v (map (corrected j slug' p) (bucket (ld_transactions s) v)) (ld_transactions s)"
      by (rule recategorize_effect [OF ids ok], rule that)
    show ?thesis
    proof (cases "v = u")
      case True
      with other have "corrected j slug' p t = t" if "tx_categorySource t = UserManual" "tx_id t = i" for p t
        using that by (auto simp: corrected_def follows_rule_def split: option.split)
      then have "has_choice k i slug (map (corrected j slug' p) (bucket (ld_transactions s) u))" for p
        by (intro has_choice_map [OF c])
      then show ?thesis unfolding Pair snd_conv s' by (simp add: True)
    qed (use c in \<open>simp add: Pair s'\<close>)
  qed
qed

lemma has_choice_apply:
  assumes c: "has_choice k i slug (bucket store u)" and ids: "distinct (map tx_id (bucket store v))"
  shows "has_choice k i slug (bucket (fst (snd (rule_apply env store a v draft))) u)"
proof (cases "rule_apply env store a v draft")
  case (fields r store' a')
  show ?thesis
  proof (cases r)
    case Inl
    then have "store' = store" using fields
      by (auto simp: rule_apply_def Let_def split: sum.splits if_splits)
    then show ?thesis using c fields by simp
  next
    case (Inr ap)
    then have "rule_apply env store a v draft = (Inr (fst ap, snd ap), store', a')" using fields by simp
    note e = apply_effect(1) [OF ids this]
    show ?thesis
    proof (cases "v = u")
      case True
      have "has_choice k i slug (map (\<lambda>t. if would_change (en_regex env) (toRule draft) t
          then categorize_as (rd_categorySlug draft) UserRule t else t) (bucket store u))"
        by (rule has_choice_map [OF c]) (simp add: would_change_def)
      then show ?thesis unfolding fields fst_conv snd_conv e by (simp add: True)
    qed (use c in \<open>simp add: fields e\<close>)
  qed
qed

lemma has_choice_undo_other:
  assumes "v \<noteq> u"
  shows "bucket (fst (snd (rule_revert env store a v j))) u = bucket store u"
proof -
  have "bucket (snd (foldl (restore_row v) (n, st) cs)) u = bucket st u" for n st cs
  proof (induction cs arbitrary: n st)
    case (Cons c cs)
    show ?case using assms by (simp add: restore_row_eq Cons bucket_txn_update)
  qed simp
  moreover have "fst (snd (rule_revert env store a v j)) = store \<or>
      fst (snd (rule_revert env store a v j)) =
        snd (foldl (restore_row v) (0, store) (get_or (ap_changes a) (changes_key v j) []))"
    by (auto simp: rule_revert_def application_revert_def split: option.splits prod.splits if_splits)
  ultimately show ?thesis by metis
qed

lemma has_choice_handle:
  assumes c: "has_choice k i slug (bucket (ld_transactions (fst m)) u)" and ids: "ids_distinct m"
    and ok: "leaves_alone u i req"
  shows "has_choice k i slug (bucket (ld_transactions (fst (handle_ledger env req m))) u)"
proof (cases m)
  case (Pair s a)
  with c have c: "has_choice k i slug (bucket (ld_transactions s) u)" by simp
  have ids: "distinct (map tx_id (bucket (ld_transactions s) v))" for v
    using ids by (simp add: ids_distinct_def Pair)
  show ?thesis
  proof (cases req)
    case (RTags v j tags)
    have "keeps_choice (\<lambda>t. t\<lparr>tx_tags := x\<rparr>)" for x by (simp add: keeps_choice_def tx_key_def)
    then show ?thesis using c
      by (simp add: RTags Pair updateTransactionTags_def has_choice_store_update split: sum.split)
  next
    case (RPreferences v j p)
    then show ?thesis using c
      by (auto simp: Pair updateTxnPreferences_def intro!: has_choice_store_update add_choices_keep
          split: option.splits sum.splits)
  next
    case (RRecategorize v j slug' rule)
    then show ?thesis using has_choice_recategorize [OF c ids [of v], of j] ok by (auto simp: Pair)
  next
    case (RApplyRule v d)
    then show ?thesis using has_choice_apply [OF c ids [of v], of env a d]
      by (cases "rule_apply env (ld_transactions s) a v d") (simp add: Pair RApplyRule)
  next
    case (RUndoRule v j)
    then show ?thesis using has_choice_undo_other [of v u env "ld_transactions s" a j] ok c
      by (cases "rule_revert env (ld_transactions s) a v j") (simp add: Pair)
  qed (use c in \<open>auto simp: Pair has_choice_sync createManualAccount_def updateManualAccount_def
        removeManualAccount_def removeCategorizationRule_def store_account_def emit_def Let_def
        split: option.splits prod.splits bool.splits\<close>)
qed

text \<open>C14: A category the user chose by hand is kept through any run of syncs, rules, bulk changes, account
  and row edits, for every user in any order, until that user recategorizes the row or undoes a bulk
  change.\<close>

theorem manual_choice_survives:
  assumes "ledger_run (leaves_alone u (tx_id r)) m m'"
    and "r \<in> set (bucket (ld_transactions (fst m)) u)" and "tx_categorySource r = UserManual"
  shows "\<exists>r' \<in> set (bucket (ld_transactions (fst m')) u). tx_key r' = tx_key r \<and> tx_id r' = tx_id r \<and>
    tx_categorySource r' = UserManual \<and> tx_categorySlug r' = tx_categorySlug r"
proof -
  have "has_choice (tx_key r) (tx_id r) (tx_categorySlug r) (bucket (ld_transactions (fst m)) u)"
    using assms(2,3) by (auto simp: has_choice_def)
  with assms(1) have "has_choice (tx_key r) (tx_id r) (tx_categorySlug r) (bucket (ld_transactions (fst m')) u)"
    by (induction rule: ledger_run.induct) (auto intro: has_choice_handle)
  then show ?thesis by (auto simp: has_choice_def)
qed

text \<open>A run in which the row is kept: a bulk change of its neighbours, then new tags.\<close>

definition demo_machine :: machine where
  "demo_machine = (learn_state\<lparr>ld_transactions := demo_rows\<rparr>, demo_applications)"

definition demo_sync_env :: ledgerEnv where
  "demo_sync_env = demo_env\<lparr>en_uuid := ''b1''\<rparr>"

abbreviation "demo_run \<equiv> handle_ledger demo_sync_env (RTags ''u'' ''t2'' (JsArray [JsString '' Fun'']))
  (handle_ledger demo_env (RApplyRule ''u'' demo_draft) demo_machine)"

theorem manual_choice_survives_witness:
  "map_option tx_categorySlug (txn_get (ld_transactions (fst demo_run)) ''u'' ''t2'') = Some ''coffee'' \<and>
   (\<exists>r \<in> set (bucket (ld_transactions (fst demo_run)) ''u''). tx_id r = ''t2'' \<and>
     tx_categorySource r = UserManual \<and> tx_categorySlug r = ''coffee'')"
proof -
  let ?r = "demo_resent\<lparr>tx_id := ''t2'', tx_categorySource := UserManual\<rparr>"
  let ?m1 = "handle_ledger demo_env (RApplyRule ''u'' demo_draft) demo_machine"
  have ids: "ids_distinct m" if "map fst (ld_transactions (fst m)) = [''u'']"
    "distinct (map tx_id (bucket (ld_transactions (fst m)) ''u''))" for m
  proof -
    have "bucket (ld_transactions (fst m)) v = []" if "v \<noteq> ''u''" for v
    proof -
      have "v \<notin> fst ` set (ld_transactions (fst m))"
        using \<open>map fst (ld_transactions (fst m)) = [''u'']\<close> that by (metis empty_iff insert_iff list.set(1,2) list.set_map)
      then show ?thesis by (simp add: bucket_def get_or_def map_of_eq_None_iff [THEN iffD2])
    qed
    then show ?thesis using that(2) by (metis distinct.simps(1) ids_distinct_def list.simps(8))
  qed
  have i0: "ids_distinct demo_machine" and i1: "ids_distinct ?m1"
    by (rule ids; code_simp)+
  have "ledger_run (leaves_alone ''u'' (tx_id ?r)) demo_machine demo_run"
    by (intro run_request [OF run_request [OF run_start i0] i1]) simp_all
  moreover have "?r \<in> set (bucket (ld_transactions (fst demo_machine)) ''u'')"
    by (simp add: demo_machine_def demo_rows_def bucket_def get_or_def)
  ultimately have "\<exists>r \<in> set (bucket (ld_transactions (fst demo_run)) ''u''). tx_id r = ''t2'' \<and>
     tx_categorySource r = UserManual \<and> tx_categorySlug r = ''coffee''"
    using manual_choice_survives [of "''u''" ?r demo_machine demo_run] by (auto simp: demo_resent_def)
  moreover have "map_option tx_categorySlug (txn_get (ld_transactions (fst demo_run)) ''u'' ''t2'') = Some ''coffee''"
    by code_simp
  ultimately show ?thesis by blast
qed

end
