(* ===== verification/ImportMapping.thy ===== *)
theory ImportMapping
  imports JsRegex Dates Money
begin

text \<open>
  Reading bank exports: which column is which, in what order a date is written, and the text of
  dates and amounts (\<open>domain/imports/mapping.ts\<close>).
\<close>

section \<open>Columns\<close>

datatype amountConvention = Signed | DebitCreditColumns | PositiveWithDirection

datatype dateOrder = DMY | MDY | YMD

record columnMapping =
  cm_date :: string
  cm_description :: string
  cm_amount :: "string option"
  cm_debit :: "string option"
  cm_credit :: "string option"
  cm_direction :: "string option"
  cm_convention :: amountConvention
  cm_dateOrder :: dateOrder

definition DATE_HEADERS :: "string list" where
  "DATE_HEADERS = [''date'', ''transaction date'', ''posted date'', ''posting date'', ''value date'',
     ''booking date'', ''date posted'', ''trans date'', ''completed date'']"

definition DESCRIPTION_HEADERS :: "string list" where
  "DESCRIPTION_HEADERS = [''description'', ''details'', ''memo'', ''narrative'', ''payee'', ''merchant'',
     ''transaction'', ''reference'', ''name'', ''particulars'']"

definition AMOUNT_HEADERS :: "string list" where
  "AMOUNT_HEADERS = [''amount'', ''value'', ''transaction amount'', ''amount (gbp)'', ''amount (usd)'']"

definition DEBIT_HEADERS :: "string list" where
  "DEBIT_HEADERS = [''debit'', ''withdrawal'', ''withdrawals'', ''money out'', ''paid out'', ''outflow'']"

definition CREDIT_HEADERS :: "string list" where
  "CREDIT_HEADERS = [''credit'', ''deposit'', ''deposits'', ''money in'', ''paid in'', ''inflow'']"

text \<open>\<open>findIndex\<close>, with None for -1.\<close>

fun index_where :: "('a \<Rightarrow> bool) \<Rightarrow> 'a list \<Rightarrow> nat option" where
  "index_where P [] = None"
| "index_where P (x # xs) = (if P x then Some 0 else map_option Suc (index_where P xs))"

definition findHeader :: "string list \<Rightarrow> string list \<Rightarrow> string option" where
  "findHeader headers candidates =
     (let lowered = map (\<lambda>h. trim (toLowerCase h)) headers;
          exact = List.map_filter (\<lambda>c. index_where (\<lambda>h. h = c) lowered) candidates;
          partial = List.map_filter (\<lambda>c. index_where (\<lambda>h. contains h c) lowered) candidates
      in case exact of
           i # _ \<Rightarrow> Some (headers ! i)
         | [] \<Rightarrow> (case partial of i # _ \<Rightarrow> Some (headers ! i) | [] \<Rightarrow> None))"

section \<open>Date order\<close>

definition date_sep :: "string \<Rightarrow> rx" where
  "date_sep cs = Cls (one_of cs)"

definition ISO_START :: rx where
  "ISO_START = Seq [Bol, Grp 1 (Rep 4 (Some 4) Digit), date_sep ''-/'', Grp 2 (Rep 1 (Some 2) Digit),
     date_sep ''-/'', Grp 3 (Rep 1 (Some 2) Digit)]"

definition PARTS_START :: rx where
  "PARTS_START = Seq [Bol, Grp 1 (Rep 1 (Some 2) Digit), date_sep ''-/.'', Grp 2 (Rep 1 (Some 2) Digit),
     date_sep ''-/.'', Grp 3 (Rep 2 (Some 4) Digit)]"

definition group_nat :: "(nat \<rightharpoonup> string) \<Rightarrow> nat \<Rightarrow> nat" where
  "group_nat m n = (case m n of None \<Rightarrow> 0 | Some s \<Rightarrow> parse_nat s)"

record dateOrderDetection =
  dd_order :: dateOrder
  dd_ambiguous :: bool
  dd_reason :: string

text \<open>The flags of the loop: a first part above 12, a second part above 12, ISO dates, dates.\<close>

definition scan_date :: "bool \<times> bool \<times> nat \<times> nat \<Rightarrow> string \<Rightarrow> bool \<times> bool \<times> nat \<times> nat" where
  "scan_date acc raw = (case acc of (first, second, isos, considered) \<Rightarrow>
     let value = trim raw
     in if value = [] then acc
        else if rx_test ISO_START value then (first, second, isos + 1, considered + 1)
        else case rx_match PARTS_START value of
            None \<Rightarrow> acc
          | Some m \<Rightarrow> (first \<or> group_nat m 1 > 12, second \<or> group_nat m 2 > 12, isos, considered + 1))"

definition detectDateOrder :: "string list \<Rightarrow> dateOrderDetection" where
  "detectDateOrder values =
     (case foldl scan_date (False, False, 0, 0) values of (first, second, isos, considered) \<Rightarrow>
        if considered > 0 \<and> isos = considered
        then \<lparr>dd_order = YMD, dd_ambiguous = False, dd_reason = ''All dates are ISO (YYYY-MM-DD).''\<rparr>
        else if first \<and> second
        then \<lparr>dd_order = DMY, dd_ambiguous = True,
              dd_reason = ''Both positions exceed 12 in different rows; the file is inconsistent.''\<rparr>
        else if first
        then \<lparr>dd_order = DMY, dd_ambiguous = False, dd_reason = ''A day above 12 appears first.''\<rparr>
        else if second
        then \<lparr>dd_order = MDY, dd_ambiguous = False, dd_reason = ''A day above 12 appears second.''\<rparr>
        else \<lparr>dd_order = DMY, dd_ambiguous = True,
              dd_reason = ''No row distinguishes day from month. Confirm the order.''\<rparr>)"

record mappingSuggestion =
  mg_mapping :: "columnMapping option"
  mg_warnings :: "string list"
  mg_matched :: "(string, string) jsmap"

definition add_match :: "string \<Rightarrow> string option \<Rightarrow> (string, string) jsmap" where
  "add_match k v = (if truthy v then [(k, the v)] else [])"

text \<open>The cells of a column; a row that is too short has an empty cell there.\<close>

definition cell_at :: "string list \<Rightarrow> nat option \<Rightarrow> string" where
  "cell_at row i = (case i of None \<Rightarrow> [] | Some k \<Rightarrow> if k < length row then row ! k else [])"

definition suggestMapping :: "string list \<Rightarrow> string list list \<Rightarrow> mappingSuggestion" where
  "suggestMapping headers sample =
     (let date = findHeader headers DATE_HEADERS;
          description = findHeader headers DESCRIPTION_HEADERS;
          amount = findHeader headers AMOUNT_HEADERS;
          debit = findHeader headers DEBIT_HEADERS;
          credit = findHeader headers CREDIT_HEADERS;
          matched = add_match ''date'' date @ add_match ''description'' description @
            add_match ''amount'' amount @ add_match ''debit'' debit @ add_match ''credit'' credit;
          convention = (if truthy debit \<and> truthy credit then Some DebitCreditColumns
            else if truthy amount then Some Signed else None);
          warnings =
            (if \<not> truthy date then [''No date column was recognised. Choose one.''] else []) @
            (if \<not> truthy description then [''No description column was recognised. Choose one.''] else []) @
            (if convention = None
             then [''No amount column was recognised. Choose one, or a debit and credit pair.''] else [])
      in if \<not> truthy date \<or> \<not> truthy description \<or> convention = None
         then \<lparr>mg_mapping = None, mg_warnings = warnings, mg_matched = matched\<rparr>
         else let dateColumn = index_where (\<lambda>h. h = the date) headers;
                  dateOrder = detectDateOrder (map (\<lambda>row. cell_at row dateColumn) sample);
                  dc = (convention = Some DebitCreditColumns)
              in \<lparr>mg_mapping = Some \<lparr>cm_date = the date, cm_description = the description,
                    cm_amount = (if dc then None else amount), cm_debit = (if dc then debit else None),
                    cm_credit = (if dc then credit else None), cm_direction = None,
                    cm_convention = the convention, cm_dateOrder = dd_order dateOrder\<rparr>,
                  mg_warnings = warnings @ (if dd_ambiguous dateOrder
                    then [''Dates like 03/04/2026 are ambiguous. Confirm whether this file is day/month/year or month/day/year.'']
                    else []),
                  mg_matched = matched\<rparr>)"

section \<open>Dates\<close>

definition build_date :: "nat \<Rightarrow> nat \<Rightarrow> nat \<Rightarrow> string option" where
  "build_date year month day =
     (if month < 1 \<or> month > 12 \<or> day < 1 \<or> day > 31 then None
      else if int day > daysInMonth (int year) (int month) then None
      else Some (pad_number 4 (int year) @ CHR ''-'' # pad_number 2 (int month) @ CHR ''-'' #
        pad_number 2 (int day)))"

definition full_year :: "nat \<Rightarrow> nat" where
  "full_year year = (if year < 100 then year + (if year \<le> 79 then 2000 else 1900) else year)"

definition parseDate :: "string \<Rightarrow> dateOrder \<Rightarrow> string option" where
  "parseDate value order =
     (let text = trim value
      in if text = [] then None
         else case rx_match ISO_START text of
             Some m \<Rightarrow> build_date (group_nat m 1) (group_nat m 2) (group_nat m 3)
           | None \<Rightarrow> (case rx_match PARTS_START text of
               None \<Rightarrow> None
             | Some m \<Rightarrow>
                 let a = group_nat m 1; b = group_nat m 2; year = full_year (group_nat m 3)
                 in if order = MDY then build_date year a b else build_date year b a))"

section \<open>Amounts\<close>

text \<open>\<open>Number(text)\<close> for texts of digits, points, commas and signs; None is NaN or infinite.\<close>

definition unsigned_decimal :: "string \<Rightarrow> rat option" where
  "unsigned_decimal s =
     (let whole = takeWhile is_digit s; after = dropWhile is_digit s
      in case after of
           [] \<Rightarrow> if whole = [] then None else Some (of_nat (parse_nat whole))
         | c # fraction \<Rightarrow>
             if c = CHR ''.'' \<and> list_all is_digit fraction \<and> (whole \<noteq> [] \<or> fraction \<noteq> [])
             then Some (of_nat (parse_nat whole) + of_nat (parse_nat fraction) / 10 ^ length fraction)
             else None)"

definition finite_double :: "rat \<Rightarrow> rat option" where
  "finite_double q = (let x = fl q in if \<bar>x\<bar> < 2 ^ 1024 then Some x else None)"

definition js_number :: "string \<Rightarrow> rat option" where
  "js_number s = (case s of
     [] \<Rightarrow> Some 0
   | c # r \<Rightarrow>
       if c = CHR ''-'' then Option.bind (unsigned_decimal r) (\<lambda>q. finite_double (- q))
       else if c = CHR ''+'' then Option.bind (unsigned_decimal r) finite_double
       else Option.bind (unsigned_decimal s) finite_double)"

definition PARENTHESES :: rx where
  "PARENTHESES = Seq [Bol, Lit ''('', Many (Cls (\<lambda>c. code c \<noteq> 10 \<and> code c \<noteq> 13)), Lit '')'', Eol]"

definition amount_char :: "char \<Rightarrow> bool" where
  "amount_char c \<longleftrightarrow> is_digit c \<or> c \<in> set ''.,-+''"

text \<open>The position of the last occurrence, None for -1.\<close>

definition last_index :: "char \<Rightarrow> string \<Rightarrow> nat option" where
  "last_index c s = (if c \<in> set s then Some (length s - 1 - length (takeWhile (\<lambda>d. d \<noteq> c) (rev s))) else None)"

definition drop_char :: "char \<Rightarrow> string \<Rightarrow> string" where
  "drop_char c s = filter (\<lambda>d. d \<noteq> c) s"

definition decimal_comma :: "string \<Rightarrow> string" where
  "decimal_comma s = update_first (\<lambda>c. c = CHR '','') (\<lambda>_. CHR ''.'') s"

definition plain_decimal :: "string \<Rightarrow> string" where
  "plain_decimal text = (case (last_index CHR '','' text, last_index CHR ''.'' text) of
     (Some comma, Some dot) \<Rightarrow>
       if comma > dot then decimal_comma (drop_char CHR ''.'' text) else drop_char CHR '','' text
   | (Some comma, None) \<Rightarrow>
       if length text - comma - 1 = 3 then drop_char CHR '','' text else decimal_comma text
   | (None, _) \<Rightarrow> text)"

definition parseAmount :: "string \<Rightarrow> string \<Rightarrow> int option" where
  "parseAmount value currency =
     (let text = trim value
      in if text = [] then None
         else let paren = rx_test PARENTHESES text;
                  inner = filter amount_char (if paren then butlast (tl text) else text);
                  minus = startsWith inner ''-'';
                  plus = startsWith inner ''+'';
                  negative = (paren \<noteq> minus);
                  body = (if minus \<or> plus then tl inner else inner)
              in if body = [] then None
                 else case js_number (plain_decimal body) of
                     None \<Rightarrow> None
                   | Some parsed \<Rightarrow> let minor = majorToMinor parsed currency
                       in Some (if negative then - minor else minor))"

section \<open>Dates are read right\<close>

lemma parts_match:
  assumes "list_all is_digit [a, b, c, d, e, f, g, h]" and "s1 \<in> set ''-/.''" and "s2 \<in> set ''-/.''"
  shows "\<exists>m. rx_match PARTS_START (a # b # s1 # c # d # s2 # e # f # g # h # tail) = Some m \<and>
    m 1 = Some [a, b] \<and> m 2 = Some [c, d] \<and> m 3 = Some [e, f, g, h]"
  using assms by (auto simp: rx_eval PARTS_START_def date_sep_def numeral_eq_Suc Let_def)
lemma iso_match:
  assumes "list_all is_digit [a, b, c, d, e, f, g, h]" and "s1 \<in> set ''-/''" and "s2 \<in> set ''-/''"
  shows "\<exists>m. rx_match ISO_START (a # b # c # d # s1 # e # f # s2 # g # h # tail) = Some m \<and>
    m 1 = Some [a, b, c, d] \<and> m 2 = Some [e, f] \<and> m 3 = Some [g, h]"
  using assms by (auto simp: rx_eval ISO_START_def date_sep_def numeral_eq_Suc Let_def)
lemma iso_no_match: "\<not> is_digit c \<Longrightarrow> rx_match ISO_START (a # b # c # tail) = None"
  by (simp add: ISO_START_def rx_match_def search_Bol next_char_def numeral_eq_Suc)

lemma dated_groups:
  assumes "rx_match (Seq [Bol, Grp 1 (Rep a (Some a') Digit), Cls p, Grp 2 (Rep b (Some b') Digit), Cls q,
      Grp 3 (Rep c (Some c') Digit)]) s = Some m" and "a \<le> a'" "b \<le> b'" "c \<le> c'"
  shows "group_nat m 1 < 10 ^ a' \<and> group_nat m 2 < 10 ^ b' \<and> group_nat m 3 < 10 ^ c'"
proof -
  let ?s0 = "\<lparr>behind = [], rest = s, groups = []\<rparr>"
  from assms(1) obtain e es where e: "run_all [Grp 1 (Rep a (Some a') Digit), Cls p,
      Grp 2 (Rep b (Some b') Digit), Cls q, Grp 3 (Rep c (Some c') Digit)] ?s0 = e # es"
    and m: "m = map_of ((0, matched (?s0, e)) # groups e)"
    by (auto simp: rx_match_def search_Bol split: option.splits list.splits simp del: run.simps run_all.simps)
  then have e: "e \<in> set (run_all [Grp 1 (Rep a (Some a') Digit), Cls p,
      Grp 2 (Rep b (Some b') Digit), Cls q, Grp 3 (Rep c (Some c') Digit)] ?s0)" by simp
  have two: "s' \<in> set (run_all (r # rs) s) \<longleftrightarrow> (\<exists>t. t \<in> set (run r s) \<and> s' \<in> set (run_all rs t))" for r rs s s'
    by auto
  from e obtain t1 t2 t3 t4 where t: "t1 \<in> set (run (Grp 1 (Rep a (Some a') Digit)) ?s0)" "t2 \<in> set (next_char p t1)"
    "t3 \<in> set (run (Grp 2 (Rep b (Some b') Digit)) t2)" "t4 \<in> set (next_char q t3)"
    "e \<in> set (run (Grp 3 (Rep c (Some c') Digit)) t4)"
    unfolding two run_all.simps(1) run.simps(1) by (elim exE conjE) simp
  have bound: "list_all is_digit u \<Longrightarrow> length u \<le> k \<Longrightarrow> parse_nat u < 10 ^ k" for u k
    by (meson parse_nat_bound less_le_trans one_le_numeral power_increasing)
  from grp_reads [OF t(1) assms(2)] obtain u where u: "list_all is_digit u" "length u \<le> a'" "groups t1 = [(1, u)]" by auto
  from grp_reads [OF t(3) assms(3)] obtain v where v: "list_all is_digit v" "length v \<le> b'" "groups t3 = (2, v) # groups t2" by auto
  from grp_reads [OF t(5) assms(4)] obtain w where w: "list_all is_digit w" "length w \<le> c'" "groups e = (3, w) # groups t4" by auto
  have "groups e = [(3, w), (2, v), (1, u)]"
    using u v w next_groups [OF t(2)] next_groups [OF t(4)] by simp
  then show ?thesis using u v w m bound by (simp add: group_nat_def)
qed


lemma leap_month:
  assumes "leap y \<Longrightarrow> leap z" and "0 \<le> m" and "m \<le> 11"
  shows "month_length y m \<le> month_length z m"
  using month_cases [OF assms(2,3)] assms(1)
  by (cases "leap y"; cases "leap z") (elim disjE; simp add: month_length_def days_before_def)+

lemma build_date_real:
  assumes "build_date y m d = Some s" and "y < 10000"
  shows "\<exists>n. in_iso_range n \<and> s = toIsoDate n"
proof -
  from assms(1) have m: "1 \<le> m" "m \<le> 12" and d: "1 \<le> d" "int d \<le> daysInMonth (int y) (int m)"
    and s: "s = pad_number 4 (int y) @ CHR ''-'' # pad_number 2 (int m) @ CHR ''-'' # pad_number 2 (int d)"
    by (auto simp: build_date_def split: if_splits)
  have len: "daysInMonth (int y) (int m) \<le> month_length (int y) (int m - 1)"
  proof (cases "y < 100")
    case True
    then have "daysInMonth (int y) (int m) = daysInMonth (1900 + int y) (int m)" by (simp add: daysInMonth_def)
    also have "\<dots> = month_length (1900 + int y) (int m - 1)" using m by (intro daysInMonth_eq) simp_all
    also have "\<dots> \<le> month_length (int y) (int m - 1)"
    proof -
      have "(1900 + int y) mod 4 = int y mod 4" using mod_mult_self2 [of "int y" 4 475] by (simp add: add.commute)
      moreover have "(1900 + int y) mod 400 = 300 + int y"
        using mod_mult_self2 [of "300 + int y" 400 4] True by (simp add: add.commute)
      moreover have "int y mod 100 = int y" using True by simp
      ultimately have "leap (1900 + int y) \<Longrightarrow> leap (int y)" by (auto simp: leap_def)
      then show ?thesis using m by (intro leap_month) simp_all
    qed
    finally show ?thesis .
  qed (use m in \<open>simp add: daysInMonth_eq\<close>)
  then have v: "valid_date (int y) (int m - 1) (int d)" using m d by (simp add: valid_date_def)
  from civil_make_day [OF v] have c: "civil (make_day (int y) (int m - 1) (int d)) = (int y, int m - 1, int d)" .
  then have "in_iso_range (make_day (int y) (int m - 1) (int d))" using assms(2) by (simp add: in_iso_range_def utc_year_def)
  moreover have "s = toIsoDate (make_day (int y) (int m - 1) (int d))" using s c by (simp add: toIsoDate_def)
  ultimately show ?thesis by blast
qed

lemma build_date_of:
  assumes "civil n = (y, m, d)" and "in_iso_range n" and "100 \<le> y"
  shows "build_date (nat y) (nat (m + 1)) (nat d) = Some (toIsoDate n)"
proof -
  note iso = toIsoDate_digits [OF assms(1,2)]
  have "daysInMonth y (m + 1) = month_length y m" using iso(4) assms(3) by (simp add: daysInMonth_eq valid_date_def)
  then show ?thesis using iso(2-5) assms(1) by (auto simp: build_date_def valid_date_def toIsoDate_def)
qed

lemma parsed_real:
  "parseDate s order = Some t \<Longrightarrow> \<exists>n. in_iso_range n \<and> t = toIsoDate n"
proof -
  assume p: "parseDate s order = Some t"
  have full: "full_year k < 10000" if "k < 10 ^ 4" for k using that by (simp add: full_year_def)
  show ?thesis
  proof (cases "rx_match ISO_START (trim s)")
    case (Some m)
    have "group_nat m 3 < 10 ^ 2 \<and> group_nat m 1 < 10 ^ 4"
      using dated_groups [OF Some [unfolded ISO_START_def date_sep_def]] by simp
    then show ?thesis using p Some build_date_real by (auto simp: parseDate_def Let_def split: if_splits)
  next
    case None
    with p obtain m where m: "rx_match PARTS_START (trim s) = Some m"
      by (auto simp: parseDate_def Let_def split: option.splits if_splits)
    have "group_nat m 3 < 10 ^ 4" using dated_groups [OF m [unfolded PARTS_START_def date_sep_def]] by simp
    with p None m show ?thesis
      using build_date_real [OF _ full [of "group_nat m 3"]]
      by (cases "order = MDY") (auto simp: parseDate_def Let_def split: if_splits)
  qed
qed


text \<open>C19: Whatever text a file holds in its date column, the reader answers with nothing or with a day that
  exists, in the form YYYY-MM-DD: never a 31 February, never a thirteenth month.\<close>

theorem parsed_dates_exist:
  "parseDate s order = Some t \<Longrightarrow> \<exists>n. in_iso_range n \<and> t = toIsoDate n"
  by (rule parsed_real)

theorem parsed_dates_exist_witness: "\<exists>n. in_iso_range n \<and> ''2024-02-29'' = toIsoDate n"
proof -
  have "parseDate ''29.02.24'' DMY = Some ''2024-02-29''" by code_simp
  then show ?thesis by (rule parsed_dates_exist)
qed

text \<open>A day as banks print it, in the three orders.\<close>

definition printed_date :: "dateOrder \<Rightarrow> char \<Rightarrow> int \<Rightarrow> string" where
  "printed_date order sep n = (case civil n of (y, m, d) \<Rightarrow>
     let year = fixed_digits 4 (nat y); month = fixed_digits 2 (nat (m + 1)); day = fixed_digits 2 (nat d)
     in case order of
          YMD \<Rightarrow> year @ sep # month @ sep # day
        | DMY \<Rightarrow> day @ sep # month @ sep # year
        | MDY \<Rightarrow> month @ sep # day @ sep # year)"

lemma two_digits:
  obtains a b where "fixed_digits 2 n = [a, b]" and "is_digit a" and "is_digit b"
  using that unfolding fixed_two by (simp add: is_digit_char)

lemma four_digits:
  obtains a b c d where "fixed_digits 4 n = [a, b, c, d]" and "list_all is_digit [a, b, c, d]"
  using that unfolding fixed_four by (simp add: is_digit_char)

lemma dropWhile_append_stop: "\<not> P d \<Longrightarrow> \<exists>t. dropWhile P (xs @ d # u) = t @ d # u"
  by (induction xs) (auto intro: exI [of _ "[]"] exI [of _ "_ # _"])

lemma trim_printed:
  assumes "\<not> is_space c" and "\<not> is_space d"
  shows "\<exists>t. trim (c # u @ d # tail) = c # u @ d # t"
proof -
  obtain t where "dropWhile is_space (rev tail @ d # rev u @ [c]) = t @ d # rev u @ [c]"
    using dropWhile_append_stop [of is_space d "rev tail" "rev u @ [c]", OF assms(2)] by blast
  then show ?thesis using assms(1) by (auto simp: trim_def trimStart_def trimEnd_def)
qed

lemma digit_not_space: "is_digit c \<Longrightarrow> \<not> is_space c"
  by (auto simp: is_digit_def is_space_def in_range_def)

text \<open>What the reader makes of a printed day, whatever follows it on the line.\<close>

text \<open>What the two patterns capture in a printed day, whatever follows it on the line.\<close>

lemma printed_iso:
  assumes n: "in_iso_range n" and c: "civil n = (y, m, d)" and sep: "sep \<in> set ''-/''"
  shows "\<exists>g. rx_match ISO_START (trim (printed_date YMD sep n @ tail)) = Some g \<and>
    group_nat g 1 = nat y \<and> group_nat g 2 = nat (m + 1) \<and> group_nat g 3 = nat d"
proof -
  note iso = toIsoDate_digits [OF c n]
  obtain y1 y2 y3 y4 where Y: "fixed_digits 4 (nat y) = [y1, y2, y3, y4]" "list_all is_digit [y1, y2, y3, y4]"
    by (rule four_digits)
  obtain m1 m2 where M: "fixed_digits 2 (nat (m + 1)) = [m1, m2]" "is_digit m1" "is_digit m2" by (rule two_digits)
  obtain d1 d2 where D: "fixed_digits 2 (nat d) = [d1, d2]" "is_digit d1" "is_digit d2" by (rule two_digits)
  have v: "nat y < 10 ^ 4" "nat (m + 1) < 10 ^ 2" "nat d < 10 ^ 2"
    using iso(2-5) by (auto simp: valid_date_def nat_less_iff)
  have nums: "parse_nat [y1, y2, y3, y4] = nat y" "parse_nat [m1, m2] = nat (m + 1)" "parse_nat [d1, d2] = nat d"
    using v [THEN parse_fixed_digits] by (simp_all only: Y M D)
  obtain t where t: "trim (y1 # [y2, y3, y4, sep, m1, m2, sep, d1] @ d2 # tail) =
      y1 # [y2, y3, y4, sep, m1, m2, sep, d1] @ d2 # t"
    using trim_printed [of y1 d2 "[y2, y3, y4, sep, m1, m2, sep, d1]" tail] Y D by (auto simp: digit_not_space)
  obtain g where "rx_match ISO_START (y1 # y2 # y3 # y4 # sep # m1 # m2 # sep # d1 # d2 # t) = Some g"
    and "g 1 = Some [y1, y2, y3, y4]" "g 2 = Some [m1, m2]" "g 3 = Some [d1, d2]"
    using iso_match [of y1 y2 y3 y4 m1 m2 d1 d2 sep sep t] Y M D sep by auto
  then show ?thesis using t by (simp add: printed_date_def c Y M D group_nat_def nums)
qed

lemma printed_parts:
  assumes n: "in_iso_range n" and c: "civil n = (y, m, d)" and sep: "sep \<in> set ''-/.''" and o: "order \<noteq> YMD"
  shows "rx_match ISO_START (trim (printed_date order sep n @ tail)) = None \<and>
    (\<exists>g. rx_match PARTS_START (trim (printed_date order sep n @ tail)) = Some g \<and>
      group_nat g 1 = nat (if order = MDY then m + 1 else d) \<and>
      group_nat g 2 = nat (if order = MDY then d else m + 1) \<and> group_nat g 3 = nat y)"
proof -
  note iso = toIsoDate_digits [OF c n]
  let ?a = "if order = MDY then m + 1 else d" and ?b = "if order = MDY then d else m + 1"
  obtain y1 y2 y3 y4 where Y: "fixed_digits 4 (nat y) = [y1, y2, y3, y4]" "list_all is_digit [y1, y2, y3, y4]"
    by (rule four_digits)
  obtain a1 a2 where A: "fixed_digits 2 (nat ?a) = [a1, a2]" "is_digit a1" "is_digit a2" by (rule two_digits)
  obtain b1 b2 where B: "fixed_digits 2 (nat ?b) = [b1, b2]" "is_digit b1" "is_digit b2" by (rule two_digits)
  have v: "nat y < 10 ^ 4" "nat ?a < 10 ^ 2" "nat ?b < 10 ^ 2"
    using iso(2-5) by (auto simp: valid_date_def nat_less_iff)
  have nums: "parse_nat [y1, y2, y3, y4] = nat y" "parse_nat [a1, a2] = nat ?a" "parse_nat [b1, b2] = nat ?b"
    using v [THEN parse_fixed_digits] by (simp_all only: Y A B)
  have shape: "printed_date order sep n = [a1, a2, sep, b1, b2, sep, y1, y2, y3, y4]"
    using o A B Y by (cases order) (simp_all add: printed_date_def c)
  obtain t where t: "trim (a1 # [a2, sep, b1, b2, sep, y1, y2, y3] @ y4 # tail) =
      a1 # [a2, sep, b1, b2, sep, y1, y2, y3] @ y4 # t"
    using trim_printed [of a1 y4 "[a2, sep, b1, b2, sep, y1, y2, y3]" tail] Y A by (auto simp: digit_not_space)
  have "\<not> is_digit CHR ''-''" "\<not> is_digit CHR ''/''" "\<not> is_digit CHR ''.''" by code_simp+
  then have "\<not> is_digit sep" using sep by auto
  then have "rx_match ISO_START (a1 # a2 # sep # b1 # b2 # sep # y1 # y2 # y3 # y4 # t) = None"
    by (rule iso_no_match)
  moreover obtain g where "rx_match PARTS_START (a1 # a2 # sep # b1 # b2 # sep # y1 # y2 # y3 # y4 # t) = Some g"
    and "g 1 = Some [a1, a2]" "g 2 = Some [b1, b2]" "g 3 = Some [y1, y2, y3, y4]"
    using parts_match [of a1 a2 b1 b2 y1 y2 y3 y4 sep sep t] Y A B sep by auto
  ultimately show ?thesis using t by (simp add: shape group_nat_def nums)
qed

lemma no_date_in_blank: "rx_match ISO_START [] = None" "rx_match PARTS_START [] = None"
  by code_simp+

definition separators :: "dateOrder \<Rightarrow> string" where
  "separators order = (if order = YMD then ''-/'' else ''-/.'')"

lemma parse_printed:
  assumes n: "in_iso_range n" and y: "100 \<le> utc_year n" and sep: "sep \<in> set (separators order)"
  shows "parseDate (printed_date order sep n @ tail) order = Some (toIsoDate n)"
proof -
  obtain y m d where c: "civil n = (y, m, d)" by (cases "civil n")
  with y have yy: "100 \<le> y" by (simp add: utc_year_def)
  let ?t = "trim (printed_date order sep n @ tail)"
  note b = build_date_of [OF c n yy]
  show ?thesis
  proof (cases "order = YMD")
    case True
    with printed_iso [OF n c, of sep tail] sep b no_date_in_blank show ?thesis
      by (cases "?t = []") (auto simp: separators_def parseDate_def)
  next
    case False
    with printed_parts [OF n c _ False, of sep tail] sep b yy no_date_in_blank show ?thesis
      by (cases "?t = []") (auto simp: separators_def parseDate_def full_year_def)
  qed
qed

lemma scan_printed:
  assumes n: "in_iso_range n" and sep: "sep \<in> set (separators order)"
  shows "scan_date (f, s, i, k) (printed_date order sep n @ tail) =
    (f \<or> order = DMY \<and> utc_date n > 12, s \<or> order = MDY \<and> utc_date n > 12,
     if order = YMD then i + 1 else i, k + 1)"
proof -
  obtain y m d where c: "civil n = (y, m, d)" by (cases "civil n")
  note iso = toIsoDate_digits [OF c n]
  have m: "nat (m + 1) \<le> 12" using iso(4) by (auto simp: valid_date_def nat_le_iff)
  have test: "rx_test ISO_START v = (rx_match ISO_START v \<noteq> None)" for v
    by (auto simp: rx_test_def rx_match_def split: option.splits)
  let ?t = "trim (printed_date order sep n @ tail)"
  show ?thesis
  proof (cases "order = YMD")
    case True
    with printed_iso [OF n c, of sep tail] sep no_date_in_blank show ?thesis
      by (cases "?t = []") (auto simp: separators_def scan_date_def test)
  next
    case False
    with printed_parts [OF n c _ False, of sep tail] sep no_date_in_blank m show ?thesis
      by (cases "?t = []"; cases order)
        (auto simp: separators_def scan_date_def test utc_date_def c)
  qed
qed

text \<open>A column of days, printed in one order.\<close>

definition date_column :: "dateOrder \<Rightarrow> char \<Rightarrow> (int \<times> string) list \<Rightarrow> string list" where
  "date_column order sep days = map (\<lambda>(n, tail). printed_date order sep n @ tail) days"

lemma scan_column:
  assumes "\<forall>(n, tail) \<in> set days. in_iso_range n" and "sep \<in> set (separators order)"
  shows "foldl scan_date (f, s, i, k) (date_column order sep days) =
    (f \<or> order = DMY \<and> (\<exists>(n, tail) \<in> set days. utc_date n > 12),
     s \<or> order = MDY \<and> (\<exists>(n, tail) \<in> set days. utc_date n > 12),
     if order = YMD then i + length days else i, k + length days)"
  using assms(1)
proof (induction days arbitrary: f s i k)
  case (Cons p days)
  obtain n tail where p: "p = (n, tail)" by (cases p)
  then show ?case using Cons scan_printed [OF _ assms(2), of n f s i k tail]
    by (auto simp: date_column_def)
qed (simp add: date_column_def)

text \<open>C18: A column of days that a bank printed in one order, with any text after each day: if the detector
  does not call it ambiguous, reading the column in the detected order gives back exactly those days. A
  wrong guess never passes silently.\<close>

theorem unambiguous_column_is_read_right:
  assumes "\<forall>(n, tail) \<in> set days. in_iso_range n \<and> 100 \<le> utc_year n" and "sep \<in> set (separators order)"
    and "\<not> dd_ambiguous (detectDateOrder (date_column order sep days))"
  shows "map (\<lambda>v. parseDate v (dd_order (detectDateOrder (date_column order sep days))))
      (date_column order sep days) = map (\<lambda>(n, tail). Some (toIsoDate n)) days"
proof -
  have "\<forall>(n, tail) \<in> set days. in_iso_range n" using assms(1) by auto
  note scan = scan_column [OF this assms(2), of False False 0 0]
  have "dd_order (detectDateOrder (date_column order sep days)) = order"
    using assms(3) unfolding detectDateOrder_def scan by (cases order) (auto split: if_splits)
  then show ?thesis using assms(1) parse_printed [OF _ _ assms(2)] by (auto simp: date_column_def)
qed


theorem unambiguous_column_is_read_right_witness:
  "map (\<lambda>v. parseDate v MDY) [''02/28/2026 09:15'', ''03/04/2026''] =
     [Some ''2026-02-28'', Some ''2026-03-04'']"
proof -
  let ?days = "[(20512, '' 09:15''), (20516, [])] :: (int \<times> string) list"
  have "civil 20512 = (2026, 1, 28)" "civil 20516 = (2026, 2, 4)" by code_simp+
  moreover have "digit_char 0 = CHR ''0''" "digit_char 2 = CHR ''2''" "digit_char 3 = CHR ''3''"
    "digit_char 4 = CHR ''4''" "digit_char 6 = CHR ''6''" "digit_char 8 = CHR ''8''" by code_simp+
  ultimately have column: "date_column MDY CHR ''/'' ?days = [''02/28/2026 09:15'', ''03/04/2026'']"
    by (simp add: date_column_def printed_date_def fixed_two fixed_four)
  have "in_iso_range 20512 \<and> 100 \<le> utc_year 20512" "in_iso_range 20516 \<and> 100 \<le> utc_year 20516" by code_simp+
  then have days: "\<forall>(n, tail) \<in> set ?days. in_iso_range n \<and> 100 \<le> utc_year n" by simp
  have detected: "\<not> dd_ambiguous (detectDateOrder [''02/28/2026 09:15'', ''03/04/2026''])"
    "dd_order (detectDateOrder [''02/28/2026 09:15'', ''03/04/2026'']) = MDY" by code_simp+
  have iso: "toIsoDate 20512 = ''2026-02-28''" "toIsoDate 20516 = ''2026-03-04''" by code_simp+
  have sep: "CHR ''/'' \<in> set (separators MDY)" by (simp add: separators_def)
  from unambiguous_column_is_read_right [OF days sep, unfolded column detected(2)] detected(1) iso
  show ?thesis by simp
qed

end
