(* ===== verification/ImportAmounts.thy ===== *)
theory ImportAmounts
  imports ImportMapping
begin

text \<open>
  What \<open>parseAmount\<close> makes of the amounts that banks print: with thousands separators or without, with
  a decimal point or a decimal comma, a currency symbol or code, a minus sign or parentheses.
\<close>

section \<open>Parentheses and separators\<close>

lemma parentheses_iff:
  "rx_test PARENTHESES s \<longleftrightarrow> (\<exists>u. s = CHR ''('' # u @ '')'' \<and> list_all (\<lambda>c. code c \<noteq> 10 \<and> code c \<noteq> 13) u)"
proof -
  let ?p = "\<lambda>c. code c \<noteq> 10 \<and> code c \<noteq> 13"
  let ?s0 = "\<lparr>behind = [], rest = s, groups = []\<rparr>"
  have two: "s' \<in> set (run_all (r # rs) s) \<longleftrightarrow> (\<exists>t. t \<in> set (run r s) \<and> s' \<in> set (run_all rs t))" for r rs s s'
    by auto
  have "rx_test PARENTHESES s \<longleftrightarrow> (\<exists>e. e \<in> set (run_all [Lit ''('', Many (Cls ?p), Lit '')'', Eol] ?s0))"
    by (auto simp: rx_test_def PARENTHESES_def search_Bol split: list.splits simp del: run.simps run_all.simps)
  also have "\<dots> \<longleftrightarrow> (\<exists>u. s = CHR ''('' # u @ '')'' \<and> list_all ?p u)"
  proof (intro iffI; elim exE conjE)
    fix e assume "e \<in> set (run_all [Lit ''('', Many (Cls ?p), Lit '')'', Eol] ?s0)"
    then obtain t1 t2 t3 where t: "t1 \<in> set (literal ''('' ?s0)"
      "t2 \<in> set (greedy (length (rest t1)) (next_char ?p) t1)" "t3 \<in> set (literal '')'' t2)" "rest t3 = []"
      unfolding two run_all.simps(1) run.simps by (auto simp: rounds_def run_Cls split: if_splits)
    obtain u where "rest t1 = u @ rest t2" and "list_all ?p u"
      using greedy_reads [OF t(2)] by (auto simp: reads_def)
    moreover have "s = CHR ''('' # rest t1" using literal_rest [OF t(1)] by simp
    moreover have "rest t2 = '')''" using literal_rest [OF t(3)] t(4) by simp
    ultimately show "\<exists>u. s = CHR ''('' # u @ '')'' \<and> list_all ?p u" by auto
  next
    fix u assume u: "s = CHR ''('' # u @ '')''" "list_all ?p u"
    let ?t1 = "\<lparr>behind = ''('', rest = u @ '')'', groups = []\<rparr>"
    let ?t2 = "\<lparr>behind = rev u @ ''('', rest = '')'', groups = []\<rparr>"
    let ?t3 = "\<lparr>behind = CHR '')'' # rev u @ ''('', rest = [], groups = []\<rparr>"
    have "?t2 \<in> set (greedy (length (u @ '')'')) (next_char ?p) ?t1)"
      using greedy_takes [of ?t1 u "'')''" ?p "length (u @ '')'')"] u by simp
    then have "?t2 \<in> set (run (Many (Cls ?p)) ?t1)"
      by (simp only: run.simps times.simps rounds_def run_Cls) simp
    moreover have "?t1 \<in> set (run (Lit ''('') ?s0)" "?t3 \<in> set (run (Lit '')'') ?t2)" "?t3 \<in> set (run Eol ?t3)"
      "?t3 \<in> set (run_all [] ?t3)" by (simp_all add: u literal_def)
    ultimately show "\<exists>e. e \<in> set (run_all [Lit ''('', Many (Cls ?p), Lit '')'', Eol] ?s0)"
      unfolding two by blast
  qed
  finally show ?thesis .
qed

lemma last_index_found: "c \<notin> set v \<Longrightarrow> last_index c (u @ c # v) = Some (length u)"
proof -
  assume "c \<notin> set v"
  then have "takeWhile (\<lambda>d. d \<noteq> c) (rev v @ c # rev u) = rev v" by (induction v rule: rev_induct) auto
  then show ?thesis by (simp add: last_index_def)
qed

lemma last_index_less: "c \<in> set u \<Longrightarrow> c \<notin> set v \<Longrightarrow> \<exists>k < length u. last_index c (u @ v) = Some k"
proof -
  assume c: "c \<in> set u" "c \<notin> set v"
  obtain a b where u: "u = a @ c # b" and "c \<notin> set b" using split_list_last [OF c(1)] by blast
  then show ?thesis using last_index_found [of c "b @ v" a] c by auto
qed

lemma drop_char_other: "c \<notin> set u \<Longrightarrow> drop_char c u = u"
  by (simp add: drop_char_def filter_id_conv) blast

lemma decimal_comma_first: "CHR '','' \<notin> set u \<Longrightarrow> decimal_comma (u @ CHR '','' # v) = u @ CHR ''.'' # v"
  unfolding decimal_comma_def by (induction u) auto


section \<open>Printed numbers\<close>

text \<open>\<open>w\<close> is the number \<open>n\<close> in digits, grouped by separators in any way, or not at all.\<close>

definition grouped :: "char \<Rightarrow> nat \<Rightarrow> string \<Rightarrow> bool" where
  "grouped sep n w \<longleftrightarrow> list_all (\<lambda>c. is_digit c \<or> c = sep) w \<and> drop_char sep w = nat_string n"

lemma separators_no_digit: "\<not> is_digit CHR '',''" "\<not> is_digit CHR ''.''" "\<not> is_digit CHR ''-''" "\<not> is_digit CHR ''+''"
  by code_simp+

lemma not_in_digits: "list_all is_digit u \<Longrightarrow> \<not> is_digit c \<Longrightarrow> c \<notin> set u"
  by (auto simp: list_all_iff)

lemma plain_decimal_grouped:
  assumes sep: "(point, sep) \<in> {(CHR ''.'', CHR '',''), (CHR '','', CHR ''.'')}"
    and w: "grouped sep k w" and f: "list_all is_digit f" "length f = 2"
  shows "plain_decimal (w @ point # f) = nat_string k @ CHR ''.'' # f"
proof -
  have d: "list_all is_digit (nat_string k)" by (rule nat_string_digits)
  note nd = separators_no_digit
  have pf: "point \<notin> set f" "sep \<notin> set f" using sep f(1) nd not_in_digits by auto
  have pw: "point \<notin> set w" using w sep nd by (auto simp: grouped_def list_all_iff)
  have p: "last_index point (w @ point # f) = Some (length w)" by (rule last_index_found [OF pf(1)])
  have drop: "drop_char sep (w @ point # f) = nat_string k @ point # f"
    using w sep drop_char_other [OF pf(2)] by (auto simp: grouped_def drop_char_def)
  show ?thesis
  proof (cases "sep \<in> set w")
    case True
    have "sep \<notin> set (point # f)" using pf sep by auto
    from last_index_less [OF True this] obtain i where i: "i < length w" "last_index sep (w @ point # f) = Some i" by blast
    have "CHR '','' \<notin> set (nat_string k)" using d nd not_in_digits by blast
    from decimal_comma_first [OF this, of f] show ?thesis using sep p i drop by (auto simp: plain_decimal_def)
  next
    case False
    then have "last_index sep (w @ point # f) = None" using pf sep by (auto simp: last_index_def)
    moreover have "w = nat_string k" using w drop_char_other [OF False] by (simp add: grouped_def)
    moreover have "CHR '','' \<notin> set (nat_string k)" using d nd not_in_digits by blast
    ultimately show ?thesis using sep p f(2) decimal_comma_first by (auto simp: plain_decimal_def)
  qed
qed

lemma js_number_printed:
  assumes "n \<le> 10 ^ 9"
  shows "js_number (nat_string (n div 100) @ CHR ''.'' # fixed_digits 2 (n mod 100)) = Some (fl (of_nat n / 100))"
proof -
  let ?w = "nat_string (n div 100)" and ?f = "fixed_digits 2 (n mod 100)"
  have w: "list_all is_digit ?w" "?w \<noteq> []" and f: "list_all is_digit ?f" "length ?f = 2"
    by (simp_all add: nat_string_digits fixed_digits_all)
  have d: "takeWhile is_digit (?w @ CHR ''.'' # ?f) = ?w" "dropWhile is_digit (?w @ CHR ''.'' # ?f) = CHR ''.'' # ?f"
    using w(1) separators_no_digit by (simp_all add: list_all_iff takeWhile_append dropWhile_append)
  have "unsigned_decimal (?w @ CHR ''.'' # ?f) = Some (of_nat (n div 100) + of_nat (n mod 100) / 100)"
    using f w by (simp add: unsigned_decimal_def d)
  also have "of_nat (n div 100) + of_nat (n mod 100) / 100 = (of_nat n / 100 :: rat)"
  proof -
    have "(of_nat n :: rat) = of_nat (n div 100 * 100 + n mod 100)" by (simp only: div_mult_mod_eq)
    also have "\<dots> = of_nat (n div 100) * 100 + of_nat (n mod 100)" by (simp only: of_nat_add of_nat_mult of_nat_numeral)
    finally show ?thesis by (simp add: field_simps)
  qed
  finally have u: "unsigned_decimal (?w @ CHR ''.'' # ?f) = Some (of_nat n / 100)" .
  have "0 \<le> fl (of_nat n / 100)" using fl_mono [of 0 "of_nat n / 100"] by (simp add: fl_0)
  moreover have "fl (of_nat n / 100) \<le> fl (of_int (10 ^ 9))"
    using assms by (intro fl_mono) (simp add: field_simps flip: of_nat_power)
  moreover have "fl (of_int (10 ^ 9)) = of_int (10 ^ 9)" by (rule fl_int) simp
  ultimately have "finite_double (of_nat n / 100) = Some (fl (of_nat n / 100))"
    by (simp add: finite_double_def Let_def)
  moreover obtain c r where c: "?w = c # r" "is_digit c" using w by (cases ?w) auto
  ultimately show ?thesis using u separators_no_digit by (auto simp: js_number_def c(1))
qed


lemma filter_dropWhile: "(\<And>c. Q c \<Longrightarrow> \<not> P c) \<Longrightarrow> filter P (dropWhile Q s) = filter P s"
  by (induction s) auto

lemma amount_not_space: "is_space c \<Longrightarrow> \<not> amount_char c"
proof -
  have "\<not> is_space CHR ''.''" "\<not> is_space CHR '',''" "\<not> is_space CHR ''-''" "\<not> is_space CHR ''+''" by code_simp+
  then show "is_space c \<Longrightarrow> \<not> amount_char c" using digit_not_space by (auto simp: amount_char_def)
qed

lemma filter_trim: "filter amount_char (trim s) = filter amount_char s"
proof -
  note [simp] = filter_dropWhile [of is_space amount_char, OF amount_not_space]
  have "filter amount_char (trimEnd u) = filter amount_char u" for u
    by (simp add: trimEnd_def rev_filter [symmetric])
  then show ?thesis by (simp add: trim_def trimStart_def)
qed

text \<open>The number a text stands for, without its sign.\<close>

lemma parse_body:
  assumes sep: "(point, sep) \<in> {(CHR ''.'', CHR '',''), (CHR '','', CHR ''.'')}"
    and w: "grouped sep (n div 100) w" and c: "exponentOf c = 2" and n: "n \<le> 10 ^ 9"
    and b: "body = w @ point # fixed_digits 2 (n mod 100)"
  shows "\<exists>x. js_number (plain_decimal body) = Some x \<and> majorToMinor x c = int n"
    and "\<not> startsWith body ''-''" and "\<not> startsWith body ''+''" and "body \<noteq> []"
proof -
  have "plain_decimal body = nat_string (n div 100) @ CHR ''.'' # fixed_digits 2 (n mod 100)"
    unfolding b using plain_decimal_grouped [OF sep w] by (simp add: fixed_digits_all)
  moreover have "majorToMinor (fl (of_nat n / 100)) c = int n"
    using majorToMinor_exact [of "int n" c] n by (simp add: minorToMajor_def c)
  ultimately show "\<exists>x. js_number (plain_decimal body) = Some x \<and> majorToMinor x c = int n"
    using js_number_printed [OF n] by auto
  show "\<not> startsWith body ''-''" "\<not> startsWith body ''+''"
    using w sep separators_no_digit by (cases w; auto simp: b grouped_def)+
  show "body \<noteq> []" by (simp add: b)
qed

text \<open>An amount of a currency with two decimals that is printed with a decimal point or a decimal comma,
  its whole part grouped by the other separator or not at all, between any symbols (a currency sign or
  code, spaces), is read back exactly; a minus sign in front or parentheses around it make it negative.\<close>

theorem amounts_are_read_back:
  assumes "(point, sep) \<in> {(CHR ''.'', CHR '',''), (CHR '','', CHR ''.'')}"
    and "grouped sep (n div 100) w" and "exponentOf c = 2" and "n \<le> 10 ^ 9"
    and s: "filter amount_char s = w @ point # fixed_digits 2 (n mod 100)"
    and "set s \<inter> {CHR ''('', CHR '')'', CHR 0x0A, CHR 0x0D} = {}"
  shows "parseAmount s c = Some (int n) \<and> parseAmount (CHR ''-'' # s) c = Some (- int n) \<and>
    parseAmount (CHR ''('' # s @ '')'') c = Some (- int n)"
proof -
  note b = parse_body [OF assms(1-5)]
  have blank: "filter amount_char u \<noteq> [] \<Longrightarrow> trim u \<noteq> []" for u by (metis filter.simps(1) filter_trim)
  have plain: "\<not> rx_test PARENTHESES (trim u)" if "CHR ''('' \<notin> set u" for u
    using that set_trim [of u] by (auto simp: parentheses_iff)
  have "\<not> amount_char CHR ''(''" "\<not> amount_char CHR '')''" "amount_char CHR ''-''" by code_simp+
  then have f: "filter amount_char (CHR ''-'' # s) = CHR ''-'' # filter amount_char s" by simp
  have 1: "parseAmount s c = Some (int n)"
    using b blank [of s] plain [of s] assms(6) by (auto simp: parseAmount_def filter_trim)
  have 2: "parseAmount (CHR ''-'' # s) c = Some (- int n)"
    using b blank [of "CHR ''-'' # s"] plain [of "CHR ''-'' # s"] assms(6) f
    by (auto simp: parseAmount_def filter_trim)
  have "\<not> is_space CHR ''(''" "\<not> is_space CHR '')''" by code_simp+
  then have t: "trim (CHR ''('' # s @ '')'') = CHR ''('' # s @ '')''"
    by (simp add: trim_def trimStart_def trimEnd_def)
  have "char_of (10 :: nat) = CHR 0x0A" "char_of (13 :: nat) = CHR 0x0D" by code_simp+
  then have "code c = 10 \<Longrightarrow> c = CHR 0x0A" "code c = 13 \<Longrightarrow> c = CHR 0x0D" for c
    by (metis char_of_char code_def)+
  then have "list_all (\<lambda>c. code c \<noteq> 10 \<and> code c \<noteq> 13) s"
    using assms(6) by (auto simp: list_all_iff)
  then have 3: "parseAmount (CHR ''('' # s @ '')'') c = Some (- int n)"
    using b by (auto simp: parseAmount_def t parentheses_iff)
  show ?thesis using 1 2 3 by blast
qed

theorem amounts_are_read_back_witness:
  "parseAmount ''(EUR 1.234,56)'' ''EUR'' = Some (- 123456)"
proof -
  have "digit_char 1 = CHR ''1''" "digit_char 2 = CHR ''2''" "digit_char 3 = CHR ''3''" "digit_char 4 = CHR ''4''"
    "digit_char 5 = CHR ''5''" "digit_char 6 = CHR ''6''" by code_simp+
  then have d: "nat_string 1234 = ''1234''" "fixed_digits 2 56 = ''56''"
    by (simp_all add: nat_string.simps fixed_two)
  have "list_all (\<lambda>c. is_digit c \<or> c = CHR ''.'') ''1.234''" by code_simp
  then have "grouped CHR ''.'' (123456 div 100) ''1.234''" by (simp add: grouped_def drop_char_def d)
  moreover have "exponentOf ''EUR'' = 2" by code_simp
  moreover have "filter amount_char ''EUR 1.234,56'' = ''1.234,56''" by code_simp
  moreover have "set ''EUR 1.234,56'' \<inter> {CHR ''('', CHR '')'', CHR 0x0A, CHR 0x0D} = {}" by simp
  ultimately show ?thesis
    using amounts_are_read_back [of "CHR '',''" "CHR ''.''" 123456 "''1.234''" "''EUR''" "''EUR 1.234,56''"]
    by (simp add: d)
qed

text \<open>What the reader gets wrong: letters are thrown away before the number is read, so an exponent is
  read as digits; a lone point is a decimal point, also where the file groups thousands by points.\<close>

lemma misread_amounts:
  "parseAmount ''1E3'' ''EUR'' = Some 1300"
  by code_simp

end
