(* ===== verification/ImportReview.thy ===== *)
theory ImportReview
  imports ImportMapping Descriptors LedgerTypes
begin

text \<open>
  The review of an import (\<open>domain/imports/review.ts\<close>): every row of the file becomes importable,
  a duplicate or invalid. Scores are computed in binary64, as the code does.
\<close>

section \<open>Duplicates\<close>

definition DUPLICATE_CONFIDENCE_THRESHOLD :: rat where
  "DUPLICATE_CONFIDENCE_THRESHOLD = fl (8 / 10)"

definition DATE_WINDOW_DAYS :: int where
  "DATE_WINDOW_DAYS = 3"

text \<open>None is \<open>Infinity\<close>: one of the texts is not a date.\<close>

definition daysApart :: "string \<Rightarrow> string \<Rightarrow> int option" where
  "daysApart a b = (case (toUtcDate a, toUtcDate b) of
     (Some left, Some right) \<Rightarrow> Some \<bar>left - right\<bar>
   | _ \<Rightarrow> None)"

definition similarity_tokens :: "string \<Rightarrow> string list" where
  "similarity_tokens s = set_of (filter (\<lambda>t. length t > 1) (split_char CHR '' '' s))"

definition similarity :: "string \<Rightarrow> string \<Rightarrow> rat" where
  "similarity a b =
     (if a = b then 1
      else let left = similarity_tokens a; right = similarity_tokens b
        in if left = [] \<or> right = [] then 0
           else let shared = length (filter (\<lambda>token. token \<in> set right) left)
             in fl (of_nat shared / of_nat (max (length left) (length right))))"

record duplicateMatch =
  dm_confidence :: rat
  dm_transactionId :: string

record importCandidate =
  ic_postedAt :: string
  ic_amount :: int
  ic_normalizedDescriptor :: string

definition duplicate_confidence :: "importCandidate \<Rightarrow> transaction \<Rightarrow> int \<Rightarrow> rat" where
  "duplicate_confidence candidate txn dayGap =
     (let dateScore = (if dayGap = 0 then 1 else fl (1 - fl (of_int dayGap / of_int (DATE_WINDOW_DAYS + 1))));
          textScore = similarity (tx_normalizedDescriptor txn) (ic_normalizedDescriptor candidate)
      in fl (fl (fl (6 / 10) * dateScore) + fl (fl (4 / 10) * textScore)))"

definition duplicate_step :: "importCandidate \<Rightarrow> duplicateMatch option \<Rightarrow> transaction \<Rightarrow> duplicateMatch option" where
  "duplicate_step candidate best txn =
     (if tx_amount txn \<noteq> ic_amount candidate then best
      else case daysApart (tx_postedAt txn) (ic_postedAt candidate) of
          None \<Rightarrow> best
        | Some dayGap \<Rightarrow>
            if dayGap > DATE_WINDOW_DAYS then best
            else let confidence = duplicate_confidence candidate txn dayGap
              in case best of
                   None \<Rightarrow> Some \<lparr>dm_confidence = confidence, dm_transactionId = tx_id txn\<rparr>
                 | Some b \<Rightarrow> if confidence > dm_confidence b
                     then Some \<lparr>dm_confidence = confidence, dm_transactionId = tx_id txn\<rparr> else best)"

definition findDuplicate :: "importCandidate \<Rightarrow> transaction list \<Rightarrow> duplicateMatch option" where
  "findDuplicate candidate existing =
     (case foldl (duplicate_step candidate) None existing of
        None \<Rightarrow> None
      | Some best \<Rightarrow> if dm_confidence best \<ge> DUPLICATE_CONFIDENCE_THRESHOLD then Some best else None)"

section \<open>Rows\<close>

datatype rowDecision = ImportRow | DuplicateRow | InvalidRow

record reviewedRow =
  rv_line :: nat
  rv_decision :: rowDecision
  rv_postedAt :: "string option"
  rv_amount :: "int option"
  rv_descriptor :: "string option"
  rv_normalizedDescriptor :: "string option"
  rv_reason :: "string option"
  rv_duplicateConfidence :: "rat option"
  rv_duplicateOfId :: "string option"
  rv_raw :: "string list"

record importSummary =
  is_total :: nat
  is_importable :: nat
  is_duplicates :: nat
  is_invalid :: nat
  is_netAmount :: int
  is_dateRange :: "(string \<times> string) option"

record importReview =
  ir_rows :: "reviewedRow list"
  ir_summary :: importSummary

definition OUTFLOW :: rx where
  "OUTFLOW = Seq [Bol, Alt [Lit ''debit'', Lit ''dr'', Lit ''withdrawal'', Lit ''out'', Lit ''payment'']]"

definition INFLOW :: rx where
  "INFLOW = Seq [Bol, Alt [Lit ''credit'', Lit ''cr'', Lit ''deposit'', Lit ''in'', Lit ''receipt'']]"

definition columnOf :: "string list \<Rightarrow> string option \<Rightarrow> nat option" where
  "columnOf headers name = Option.bind name (\<lambda>n. index_where (\<lambda>h. h = n) headers)"

definition nonzero :: "int option \<Rightarrow> bool" where
  "nonzero v \<longleftrightarrow> v \<noteq> None \<and> v \<noteq> Some 0"

definition readAmount :: "string list \<Rightarrow> columnMapping \<Rightarrow> string list \<Rightarrow> string \<Rightarrow> int option" where
  "readAmount headers mapping raw currency =
     (let cell = (\<lambda>name. cell_at raw (columnOf headers name))
      in if cm_convention mapping = DebitCreditColumns
         then let debit = parseAmount (cell (cm_debit mapping)) currency;
                  credit = parseAmount (cell (cm_credit mapping)) currency
              in if nonzero debit \<and> nonzero credit then None
                 else if nonzero debit then Some (- \<bar>the debit\<bar>)
                 else if nonzero credit then Some \<bar>the credit\<bar>
                 else None
         else case parseAmount (cell (cm_amount mapping)) currency of
             None \<Rightarrow> None
           | Some amount \<Rightarrow>
               if cm_convention mapping = PositiveWithDirection
               then let direction = toLowerCase (trim (cell (cm_direction mapping)));
                        isOutflow = rx_test OUTFLOW direction; isInflow = rx_test INFLOW direction
                    in if \<not> isOutflow \<and> \<not> isInflow then None
                       else Some (if isOutflow then - \<bar>amount\<bar> else \<bar>amount\<bar>)
               else Some amount)"

section \<open>The review\<close>

record reviewInput =
  ri_headers :: "string list"
  ri_rows :: "string list list"
  ri_mapping :: columnMapping
  ri_existing :: "transaction list"
  ri_currency :: string
  ri_raggedLines :: "nat list"

definition blank_row :: "nat \<Rightarrow> string list \<Rightarrow> reviewedRow" where
  "blank_row line raw = \<lparr>rv_line = line, rv_decision = InvalidRow, rv_postedAt = None, rv_amount = None,
     rv_descriptor = None, rv_normalizedDescriptor = None, rv_reason = None, rv_duplicateConfidence = None,
     rv_duplicateOfId = None, rv_raw = raw\<rparr>"

definition invalid_row :: "nat \<Rightarrow> string list \<Rightarrow> string \<Rightarrow> reviewedRow" where
  "invalid_row line raw reason = (blank_row line raw)\<lparr>rv_reason := Some reason\<rparr>"

definition pendingTransaction :: "string \<Rightarrow> nat \<Rightarrow> string \<Rightarrow> int \<Rightarrow> string \<Rightarrow> transaction" where
  "pendingTransaction currency line postedAt amount descriptor =
     \<lparr>tx_id = ''pending-'' @ nat_string line, tx_accountId = [],
      tx_providerTxnId = ''pending-'' @ nat_string line, tx_postedAt = postedAt, tx_amount = amount,
      tx_currency = currency, tx_rawDescriptor = descriptor,
      tx_normalizedDescriptor = normalizeDescriptor descriptor, tx_merchant = None, tx_merchantOverride = None,
      tx_note = None, tx_excludedFromAnalytics = None, tx_categorySlug = ''unknown'',
      tx_categorySource = UnknownSource, tx_categoryConfidence = 0, tx_isRecurring = False,
      tx_recurringOverride = None, tx_duplicateReported = None, tx_pending = False, tx_tags = None,
      tx_importBatchId = None\<rparr>"

text \<open>What a row says: a reason why it cannot be read, or its day, amount and descriptor.\<close>

definition read_row :: "reviewInput \<Rightarrow> nat \<Rightarrow> string list \<Rightarrow> string + string \<times> int \<times> string" where
  "read_row input line raw =
     (let headers = ri_headers input; mapping = ri_mapping input
      in if line \<in> set (ri_raggedLines input) then Inl ''This row has a different number of columns.''
         else case parseDate (cell_at raw (columnOf headers (Some (cm_date mapping)))) (cm_dateOrder mapping) of
             None \<Rightarrow> Inl ''Could not read the date.''
           | Some postedAt \<Rightarrow> (case readAmount headers mapping raw (ri_currency input) of
               None \<Rightarrow> Inl ''Could not read the amount.''
             | Some amount \<Rightarrow>
                 if amount = 0 then Inl ''The amount is zero.''
                 else let descriptor = trim (cell_at raw (columnOf headers (Some (cm_description mapping))))
                   in if descriptor = [] then Inl ''The description is empty.''
                      else Inr (postedAt, amount, descriptor)))"

definition candidate_of :: "string \<times> int \<times> string \<Rightarrow> importCandidate" where
  "candidate_of r = (case r of (postedAt, amount, descriptor) \<Rightarrow>
     \<lparr>ic_postedAt = postedAt, ic_amount = amount, ic_normalizedDescriptor = normalizeDescriptor descriptor\<rparr>)"

definition filled_row :: "nat \<Rightarrow> string list \<Rightarrow> string \<times> int \<times> string \<Rightarrow> rowDecision \<Rightarrow> reviewedRow" where
  "filled_row line raw r decision = (case r of (postedAt, amount, descriptor) \<Rightarrow>
     (blank_row line raw)\<lparr>rv_decision := decision, rv_postedAt := Some postedAt, rv_amount := Some amount,
       rv_descriptor := Some descriptor, rv_normalizedDescriptor := Some (normalizeDescriptor descriptor)\<rparr>)"

definition pending_of :: "reviewInput \<Rightarrow> nat \<Rightarrow> string \<times> int \<times> string \<Rightarrow> transaction" where
  "pending_of input line r = (case r of (postedAt, amount, descriptor) \<Rightarrow>
     pendingTransaction (ri_currency input) line postedAt amount descriptor)"

definition known_match :: "reviewInput \<Rightarrow> transaction list \<Rightarrow> string \<times> int \<times> string \<Rightarrow> duplicateMatch option" where
  "known_match input accepted r = (case findDuplicate (candidate_of r) (ri_existing input) of
     Some m \<Rightarrow> Some m | None \<Rightarrow> findDuplicate (candidate_of r) accepted)"

text \<open>The rows accepted so far and the rows reviewed so far.\<close>

definition review_row :: "reviewInput \<Rightarrow> transaction list \<times> reviewedRow list \<Rightarrow> nat \<times> string list
    \<Rightarrow> transaction list \<times> reviewedRow list" where
  "review_row input acc indexed = (case (acc, indexed) of ((accepted, reviewed), (i, raw)) \<Rightarrow>
     let line = i + 2
     in case read_row input line raw of
          Inl reason \<Rightarrow> (accepted, reviewed @ [invalid_row line raw reason])
        | Inr r \<Rightarrow> (case known_match input accepted r of
            Some m \<Rightarrow> (accepted, reviewed @ [(filled_row line raw r DuplicateRow)
              \<lparr>rv_duplicateConfidence := Some (fl (of_int (js_round (fl (dm_confidence m * 100))) / 100)),
               rv_duplicateOfId := Some (dm_transactionId m),
               rv_reason := Some ''This looks like a transaction you already have.''\<rparr>])
          | None \<Rightarrow> (accepted @ [pending_of input line r], reviewed @ [filled_row line raw r ImportRow])))"

definition review_rows :: "reviewInput \<Rightarrow> transaction list \<times> reviewedRow list" where
  "review_rows input = foldl (review_row input) ([], []) (List.enumerate 0 (ri_rows input))"

definition count_rows :: "rowDecision \<Rightarrow> reviewedRow list \<Rightarrow> nat" where
  "count_rows d rows = length (filter (\<lambda>r. rv_decision r = d) rows)"

definition reviewImport :: "reviewInput \<Rightarrow> importReview" where
  "reviewImport input =
     (let reviewed = snd (review_rows input);
          importable = filter (\<lambda>r. rv_decision r = ImportRow) reviewed;
          dates = js_sort code_unit_compare (map (\<lambda>r. the (rv_postedAt r)) importable)
      in \<lparr>ir_rows = reviewed,
          ir_summary = \<lparr>is_total = length reviewed, is_importable = length importable,
            is_duplicates = count_rows DuplicateRow reviewed, is_invalid = count_rows InvalidRow reviewed,
            is_netAmount = foldl (\<lambda>sum r. sum + (case rv_amount r of None \<Rightarrow> 0 | Some a \<Rightarrow> a)) 0 importable,
            is_dateRange = (if dates = [] then None else Some (hd dates, last dates))\<rparr>\<rparr>)"

section \<open>What counts as a duplicate\<close>

text \<open>An existing row that alone makes a candidate a duplicate.\<close>

definition duplicates :: "importCandidate \<Rightarrow> transaction \<Rightarrow> bool" where
  "duplicates c t \<longleftrightarrow> tx_amount t = ic_amount c \<and> (case daysApart (tx_postedAt t) (ic_postedAt c) of
     None \<Rightarrow> False
   | Some dayGap \<Rightarrow> dayGap \<le> DATE_WINDOW_DAYS \<and> DUPLICATE_CONFIDENCE_THRESHOLD \<le> duplicate_confidence c t dayGap)"

definition strong :: "duplicateMatch option \<Rightarrow> bool" where
  "strong best \<longleftrightarrow> (case best of None \<Rightarrow> False | Some m \<Rightarrow> DUPLICATE_CONFIDENCE_THRESHOLD \<le> dm_confidence m)"

lemma strong_step: "strong (duplicate_step c best t) \<longleftrightarrow> strong best \<or> duplicates c t"
  by (auto simp: strong_def duplicate_step_def duplicates_def Let_def split: option.splits)

lemma findDuplicate_iff: "findDuplicate c xs \<noteq> None \<longleftrightarrow> (\<exists>t \<in> set xs. duplicates c t)"
proof -
  have "strong (foldl (duplicate_step c) best xs) \<longleftrightarrow> strong best \<or> (\<exists>t \<in> set xs. duplicates c t)" for best
    by (induction xs arbitrary: best) (auto simp: strong_step)
  from this [of None] show ?thesis by (auto simp: findDuplicate_def strong_def split: option.splits)
qed

lemma duplicates_fields:
  "tx_amount t = tx_amount t' \<Longrightarrow> tx_postedAt t = tx_postedAt t' \<Longrightarrow>
   tx_normalizedDescriptor t = tx_normalizedDescriptor t' \<Longrightarrow> duplicates c t = duplicates c t'"
  by (auto simp: duplicates_def duplicate_confidence_def split: option.splits)

lemma full_confidence: "DUPLICATE_CONFIDENCE_THRESHOLD \<le> fl (fl (fl (6 / 10) * 1) + fl (fl (4 / 10) * 1))"
  by code_simp

lemma duplicates_same:
  assumes "tx_amount t = ic_amount c" and "tx_postedAt t = ic_postedAt c"
    and "tx_normalizedDescriptor t = ic_normalizedDescriptor c" and "toUtcDate (ic_postedAt c) \<noteq> None"
  shows "duplicates c t"
  using assms full_confidence
  by (auto simp: duplicates_def daysApart_def duplicate_confidence_def similarity_def DATE_WINDOW_DAYS_def)

section \<open>The review row by row\<close>

definition pending_of_row :: "reviewInput \<Rightarrow> reviewedRow \<Rightarrow> transaction" where
  "pending_of_row input r = pendingTransaction (ri_currency input) (rv_line r) (the (rv_postedAt r))
     (the (rv_amount r)) (the (rv_descriptor r))"

definition known :: "reviewInput \<Rightarrow> transaction list \<Rightarrow> string \<times> int \<times> string \<Rightarrow> bool" where
  "known input accepted r \<longleftrightarrow> (\<exists>t \<in> set (ri_existing input) \<union> set accepted. duplicates (candidate_of r) t)"

lemma known_match_iff: "known_match input accepted r \<noteq> None \<longleftrightarrow> known input accepted r"
  using findDuplicate_iff [of "candidate_of r" "ri_existing input"] findDuplicate_iff [of "candidate_of r" accepted]
  by (auto simp: known_match_def known_def split: option.splits)

text \<open>A reviewed row says what its text says, and why it was decided so.\<close>

definition reviewed_ok :: "reviewInput \<Rightarrow> nat \<times> string list \<Rightarrow> reviewedRow \<Rightarrow> bool" where
  "reviewed_ok input x r \<longleftrightarrow> rv_line r = fst x + 2 \<and> rv_raw r = snd x \<and>
     (case read_row input (fst x + 2) (snd x) of
        Inl reason \<Rightarrow> rv_decision r = InvalidRow \<and> rv_reason r = Some reason
      | Inr (postedAt, amount, descriptor) \<Rightarrow> rv_decision r \<noteq> InvalidRow \<and> rv_postedAt r = Some postedAt \<and>
          rv_amount r = Some amount \<and> rv_descriptor r = Some descriptor \<and>
          rv_normalizedDescriptor r = Some (normalizeDescriptor descriptor) \<and>
          (rv_decision r = DuplicateRow \<longrightarrow> rv_reason r \<noteq> None))"

lemma read_row_date: "read_row input line raw = Inr (p, a, d) \<Longrightarrow> toUtcDate p \<noteq> None \<and> a \<noteq> 0 \<and> d \<noteq> []"
  using parsed_real toUtcDate_toIsoDate
  by (fastforce simp: read_row_def Let_def split: if_splits option.splits)

definition candidate_of_txn :: "transaction \<Rightarrow> importCandidate" where
  "candidate_of_txn t = \<lparr>ic_postedAt = tx_postedAt t, ic_amount = tx_amount t,
     ic_normalizedDescriptor = tx_normalizedDescriptor t\<rparr>"

lemma candidate_pending [simp]: "candidate_of_txn (pending_of input line r) = candidate_of r"
  by (cases r) (simp add: candidate_of_txn_def candidate_of_def pending_of_def pendingTransaction_def)

text \<open>
  Each row that can be read is, in the end, a duplicate of something held or accepted; no accepted row
  is a duplicate of something held, or of a row accepted before it.
\<close>

definition review_inv :: "reviewInput \<Rightarrow> (nat \<times> string list) list \<Rightarrow> transaction list \<times> reviewedRow list \<Rightarrow> bool" where
  "review_inv input xs s \<longleftrightarrow> list_all2 (reviewed_ok input) xs (snd s) \<and>
     fst s = map (pending_of_row input) (filter (\<lambda>r. rv_decision r = ImportRow) (snd s)) \<and>
     (\<forall>(i, raw) \<in> set xs. \<forall>r. read_row input (i + 2) raw = Inr r \<longrightarrow> known input (fst s) r) \<and>
     (\<forall>t \<in> set (fst s). \<forall>e \<in> set (ri_existing input). \<not> duplicates (candidate_of_txn t) e) \<and>
     sorted_wrt (\<lambda>t t'. \<not> duplicates (candidate_of_txn t') t) (fst s)"

lemma review_row_inv:
  assumes "review_inv input xs s"
  shows "review_inv input (xs @ [x]) (review_row input s x)"
proof -
  obtain accepted reviewed where s: "s = (accepted, reviewed)" by (cases s)
  obtain i raw where x: "x = (i, raw)" by (cases x)
  have grow: "known input acc r \<Longrightarrow> known input (acc @ acc') r" for acc acc' r by (auto simp: known_def)
  show ?thesis
  proof (cases "read_row input (i + 2) raw")
    case (Inl reason)
    then show ?thesis using assms
      by (auto simp: review_inv_def s x review_row_def reviewed_ok_def invalid_row_def blank_row_def list_all2_appendI)
  next
    case (Inr r)
    obtain p a d where r: "r = (p, a, d)" by (cases r)
    show ?thesis
    proof (cases "known_match input accepted r")
      case (Some m)
      then have "known input accepted r" using known_match_iff [of input accepted r] by simp
      then show ?thesis using assms Inr Some r
        by (auto simp: review_inv_def s x review_row_def reviewed_ok_def filled_row_def blank_row_def
          list_all2_appendI)
    next
      case None
      let ?t = "pending_of input (i + 2) r"
      have "duplicates (candidate_of r) ?t"
        using read_row_date [of input "i + 2" raw] Inr r
        by (intro duplicates_same) (auto simp: pending_of_def candidate_of_def pendingTransaction_def)
      then have k: "known input (accepted @ [?t]) r" by (auto simp: known_def)
      have "\<not> known input accepted r" using None known_match_iff [of input accepted r] by simp
      then have new: "\<forall>e \<in> set (ri_existing input) \<union> set accepted. \<not> duplicates (candidate_of_txn ?t) e"
        by (auto simp: known_def)
      have step: "review_row input s x = (accepted @ [?t], reviewed @ [filled_row (i + 2) raw r ImportRow])"
        using Inr None by (simp add: review_row_def s x)
      have "reviewed_ok input x (filled_row (i + 2) raw r ImportRow)"
        "pending_of_row input (filled_row (i + 2) raw r ImportRow) = ?t"
        "rv_decision (filled_row (i + 2) raw r ImportRow) = ImportRow"
        using Inr by (simp_all add: reviewed_ok_def filled_row_def blank_row_def x r pending_of_row_def pending_of_def)
      then show ?thesis using assms Inr k grow new unfolding step
        by (auto simp: review_inv_def s x list_all2_appendI sorted_wrt_append)
    qed
  qed
qed

lemma review_rows_inv: "review_inv input (List.enumerate 0 (ri_rows input)) (review_rows input)"
proof -
  have "review_inv input xs (foldl (review_row input) ([], []) xs)" for xs
    by (induction xs rule: rev_induct) (auto simp: review_inv_def [of input "[]"] intro: review_row_inv)
  then show ?thesis by (simp add: review_rows_def)
qed


lemma list_all2_zip: "list_all2 P xs ys \<Longrightarrow> y \<in> set ys \<Longrightarrow> \<exists>x \<in> set xs. P x y"
  by (induction xs ys rule: list_all2_induct) auto

lemma readable_row:
  assumes "list_all2 (reviewed_ok input) xs rs" and "r \<in> set rs" and "rv_decision r \<noteq> InvalidRow"
  obtains i raw p a d where "(i, raw) \<in> set xs" and "read_row input (i + 2) raw = Inr (p, a, d)" and "rv_line r = i + 2"
    and "rv_postedAt r = Some p" and "rv_amount r = Some a" and "rv_descriptor r = Some d"
    and "rv_normalizedDescriptor r = Some (normalizeDescriptor d)"
proof -
  obtain x where x: "x \<in> set xs" "reviewed_ok input x r" using list_all2_zip [OF assms(1,2)] by blast
  obtain i raw where i: "x = (i, raw)" by (cases x)
  show thesis
  proof (cases "read_row input (i + 2) raw")
    case (Inr v)
    obtain p a d where v: "v = (p, a, d)" by (cases v)
    show thesis by (rule that [of i raw p a d]) (use x i Inr v in \<open>simp_all add: reviewed_ok_def\<close>)
  qed (use x i assms(3) in \<open>simp add: reviewed_ok_def\<close>)
qed

text \<open>No row of a file is dropped: the review has one entry per row, in order, with its number and its
  text; an unreadable row says why; every entry is exactly one of importable, duplicate or invalid,
  the summary counts each kind, and the net amount is the sum of the importable rows.\<close>

theorem review_keeps_every_row:
  "list_all2 (reviewed_ok input) (List.enumerate 0 (ri_rows input)) (ir_rows (reviewImport input)) \<and>
   (let s = ir_summary (reviewImport input) in
     is_total s = length (ri_rows input) \<and> is_total s = is_importable s + is_duplicates s + is_invalid s \<and>
     is_netAmount s = sum_list (map (\<lambda>r. the (rv_amount r))
       (filter (\<lambda>r. rv_decision r = ImportRow) (ir_rows (reviewImport input)))))"
proof -
  let ?rs = "snd (review_rows input)"
  have ok: "list_all2 (reviewed_ok input) (List.enumerate 0 (ri_rows input)) ?rs"
    using review_rows_inv by (simp add: review_inv_def)
  have three: "length rs = length (filter (\<lambda>r. rv_decision r = ImportRow) rs) + count_rows DuplicateRow rs +
      count_rows InvalidRow rs" for rs
  proof (induction rs)
    case (Cons r rs)
    then show ?case by (cases "rv_decision r") (simp_all add: count_rows_def)
  qed (simp add: count_rows_def)
  have net: "foldl (\<lambda>sum r. sum + (case rv_amount r of None \<Rightarrow> 0 | Some a \<Rightarrow> a)) k xs =
      k + sum_list (map (\<lambda>r. the (rv_amount r)) xs)" if "\<forall>r \<in> set xs. rv_amount r \<noteq> None" for k xs
    using that by (induction xs arbitrary: k) (auto split: option.splits)
  have "rv_amount r \<noteq> None" if "r \<in> set ?rs" "rv_decision r = ImportRow" for r
    by (rule readable_row [OF ok that(1)]) (simp_all add: that)
  then have "\<forall>r \<in> set (filter (\<lambda>r. rv_decision r = ImportRow) ?rs). rv_amount r \<noteq> None" by auto
  note sum = net [OF this, of 0]
  have len: "length ?rs = length (ri_rows input)" using list_all2_lengthD [OF ok] by simp
  have "ir_rows (reviewImport input) = ?rs" and "is_total (ir_summary (reviewImport input)) = length ?rs"
    and "is_importable (ir_summary (reviewImport input)) = length (filter (\<lambda>r. rv_decision r = ImportRow) ?rs)"
    and "is_duplicates (ir_summary (reviewImport input)) = count_rows DuplicateRow ?rs"
    and "is_invalid (ir_summary (reviewImport input)) = count_rows InvalidRow ?rs"
    and "is_netAmount (ir_summary (reviewImport input)) = sum_list (map (\<lambda>r. the (rv_amount r))
      (filter (\<lambda>r. rv_decision r = ImportRow) ?rs))"
    using sum by (simp_all add: reviewImport_def Let_def)
  then show ?thesis using ok len three [of ?rs] by (simp only: Let_def)
qed

end
