(* ===== verification/ImportService.thy ===== *)
theory ImportService
  imports ImportReview LedgerService Csv
begin

text \<open>
  The import service (\<open>modules/imports/imports.service.ts\<close>) over the in-memory batch store
  (\<open>InMemoryImportBatchStore\<close> of \<open>infra/in-memory-store.ts\<close>). The digest of a row (SHA-256, cut to
  32 hexadecimal digits) is a parameter.
\<close>

section \<open>Batches\<close>

datatype importStatus = Committed | Reverted

record importBatch =
  ib_id :: string
  ib_accountId :: string
  ib_statementImportId :: "string option"
  ib_filename :: string
  ib_status :: importStatus
  ib_rowsTotal :: nat
  ib_rowsImported :: nat
  ib_rowsDuplicate :: nat
  ib_rowsInvalid :: nat
  ib_createdAt :: string
  ib_revertedAt :: "string option"

definition batch_list :: "(string \<Rightarrow> string \<Rightarrow> int) \<Rightarrow> importBatch buckets \<Rightarrow> string \<Rightarrow> importBatch list" where
  "batch_list lc s u = js_sort (\<lambda>a b. lc (ib_createdAt b) (ib_createdAt a)) (bucket s u)"

definition batch_get :: "importBatch buckets \<Rightarrow> string \<Rightarrow> string \<Rightarrow> importBatch option" where
  "batch_get s u i = find_row ib_id s u i"

definition batch_commit :: "transactionStore \<Rightarrow> importBatch buckets \<Rightarrow> string \<Rightarrow> importBatch \<Rightarrow> transaction list
    \<Rightarrow> importBatch \<times> transactionStore \<times> importBatch buckets" where
  "batch_commit store s u batch ts =
     (batch, snd (txn_upsertMany store u ts), map_set u (bucket s u @ [batch]) s)"

definition batch_revert :: "transactionStore \<Rightarrow> importBatch buckets \<Rightarrow> string \<Rightarrow> string \<Rightarrow> string
    \<Rightarrow> nat option \<times> transactionStore \<times> importBatch buckets" where
  "batch_revert store s u i now =
     (case find (\<lambda>b. ib_id b = i) (bucket s u) of
        None \<Rightarrow> (None, store, s)
      | Some batch \<Rightarrow>
          if ib_status batch = Reverted then (None, store, s)
          else case txn_removeByImportBatch store u i of (removed, store') \<Rightarrow>
            (Some removed, store', map_set u (update_first (\<lambda>b. ib_id b = i)
               (\<lambda>b. b\<lparr>ib_status := Reverted, ib_revertedAt := Some now\<rparr>) (bucket s u)) s))"

section \<open>The service\<close>

record importState =
  ip_accounts :: accountState
  ip_transactions :: transactionStore
  ip_rules :: "categorizationRule buckets"
  ip_batches :: "importBatch buckets"

datatype import_error = NoSuchAccount | FileTooLarge | UnreadableFile csvParseError | NothingImportable
  | NoSuchImport

record previewInput =
  pi_accountId :: string
  pi_filename :: string
  pi_content :: string
  pi_mapping :: "columnMapping option"

record importPreview =
  pv_mapping :: "columnMapping option"
  pv_warnings :: "string list"
  pv_matched :: "(string, string) jsmap"
  pv_headers :: "string list"
  pv_review :: "importReview option"

definition MAX_CONTENT_BYTES :: nat where
  "MAX_CONTENT_BYTES = 2 * 1024 * 1024"

text \<open>\<open>Buffer.byteLength(s, 'utf8')\<close> for code units below 256.\<close>

definition utf8_length :: "string \<Rightarrow> nat" where
  "utf8_length s = sum_list (map (\<lambda>c. if code c < 128 then 1 else 2) s)"

definition assertSize :: "string \<Rightarrow> bool" where
  "assertSize content \<longleftrightarrow> utf8_length content \<le> MAX_CONTENT_BYTES"

definition account_rows :: "ledgerEnv \<Rightarrow> transactionStore \<Rightarrow> string \<Rightarrow> account \<Rightarrow> transaction list" where
  "account_rows env store u account =
     txn_list (en_localeCompare env) store u (allTransactions\<lparr>tq_accountId := Some (ac_id account)\<rparr>)"

definition review_input :: "ledgerEnv \<Rightarrow> importState \<Rightarrow> string \<Rightarrow> account \<Rightarrow> parsedCsv \<Rightarrow> columnMapping \<Rightarrow> reviewInput" where
  "review_input env s u account parsed mapping =
     \<lparr>ri_headers = pc_headers parsed, ri_rows = pc_rows parsed, ri_mapping = mapping,
      ri_existing = account_rows env (ip_transactions s) u account, ri_currency = ac_currency account,
      ri_raggedLines = pc_raggedLines parsed\<rparr>"

definition import_preview :: "ledgerEnv \<Rightarrow> importState \<Rightarrow> string \<Rightarrow> previewInput \<Rightarrow> import_error + importPreview" where
  "import_preview env s u input =
     (case acc_get (ip_accounts s) u (pi_accountId input) of
        None \<Rightarrow> Inl NoSuchAccount
      | Some account \<Rightarrow>
          if \<not> assertSize (pi_content input) then Inl FileTooLarge
          else case parseCsv (pi_content input) of
              Inl e \<Rightarrow> Inl (UnreadableFile e)
            | Inr parsed \<Rightarrow>
                let suggestion = suggestMapping (pc_headers parsed) (take 25 (pc_rows parsed));
                    mapping = (case pi_mapping input of Some m \<Rightarrow> Some m | None \<Rightarrow> mg_mapping suggestion)
                in Inr \<lparr>pv_mapping = mapping, pv_warnings = mg_warnings suggestion,
                     pv_matched = mg_matched suggestion, pv_headers = pc_headers parsed,
                     pv_review = map_option (\<lambda>m. reviewImport (review_input env s u account parsed m)) mapping\<rparr>)"

definition fingerprint :: "(string \<Rightarrow> string) \<Rightarrow> string \<Rightarrow> string \<Rightarrow> int \<Rightarrow> string \<Rightarrow> string" where
  "fingerprint digest accountId postedAt amount descriptor =
     digest (accountId @ ''|'' @ postedAt @ ''|'' @ int_string amount @ ''|'' @ descriptor)"

definition importedTransaction :: "(string \<Rightarrow> string) \<Rightarrow> ledgerEnv \<Rightarrow> account \<Rightarrow> categorizationRule list \<Rightarrow> reviewedRow
    \<Rightarrow> transaction" where
  "importedTransaction digest env account rules row =
     (let descriptor = the (rv_descriptor row); postedAt = the (rv_postedAt row); amount = the (rv_amount row);
          c = categorizeDescriptor (en_regex env) descriptor
            \<lparr>co_rules = rules, co_lexicon = LEXICON_BY_SPECIFICITY, co_model = None\<rparr>
      in \<lparr>tx_id = ''imp_'' @ en_uuid env @ ''_'' @ nat_string (rv_line row), tx_accountId = ac_id account,
          tx_providerTxnId = ''csv_'' @ fingerprint digest (ac_id account) postedAt amount descriptor,
          tx_postedAt = postedAt, tx_amount = amount, tx_currency = ac_currency account,
          tx_rawDescriptor = descriptor, tx_normalizedDescriptor = the (rv_normalizedDescriptor row),
          tx_merchant = cr_merchant c, tx_merchantOverride = None, tx_note = None,
          tx_excludedFromAnalytics = None, tx_categorySlug = cr_categorySlug c, tx_categorySource = cr_source c,
          tx_categoryConfidence = cr_confidence c, tx_isRecurring = False, tx_recurringOverride = None,
          tx_duplicateReported = None, tx_pending = False, tx_tags = None,
          tx_importBatchId = Some (en_uuid env)\<rparr>)"

definition importable_rows :: "importReview \<Rightarrow> reviewedRow list" where
  "importable_rows review = filter (\<lambda>r. rv_decision r = ImportRow) (ir_rows review)"

definition newBatch :: "ledgerEnv \<Rightarrow> previewInput \<Rightarrow> account \<Rightarrow> importReview \<Rightarrow> importBatch" where
  "newBatch env input account review =
     \<lparr>ib_id = en_uuid env, ib_accountId = ac_id account, ib_statementImportId = None,
      ib_filename = take 260 (pi_filename input), ib_status = Committed,
      ib_rowsTotal = is_total (ir_summary review), ib_rowsImported = length (importable_rows review),
      ib_rowsDuplicate = is_duplicates (ir_summary review), ib_rowsInvalid = is_invalid (ir_summary review),
      ib_createdAt = en_now env, ib_revertedAt = None\<rparr>"

definition import_commit :: "(string \<Rightarrow> string) \<Rightarrow> ledgerEnv \<Rightarrow> importState \<Rightarrow> string \<Rightarrow> previewInput \<Rightarrow> columnMapping
    \<Rightarrow> (import_error + importBatch) \<times> importState" where
  "import_commit digest env s u input mapping =
     (case acc_get (ip_accounts s) u (pi_accountId input) of
        None \<Rightarrow> (Inl NoSuchAccount, s)
      | Some account \<Rightarrow>
          if \<not> assertSize (pi_content input) then (Inl FileTooLarge, s)
          else case parseCsv (pi_content input) of
              Inl e \<Rightarrow> (Inl (UnreadableFile e), s)
            | Inr parsed \<Rightarrow>
                let review = reviewImport (review_input env s u account parsed mapping);
                    rows = importable_rows review
                in if rows = [] then (Inl NothingImportable, s)
                   else let ts = map (importedTransaction digest env account
                              (rule_list (en_localeCompare env) (ip_rules s) u)) rows
                     in case batch_commit (ip_transactions s) (ip_batches s) u (newBatch env input account review) ts of
                          (batch, store, batches) \<Rightarrow>
                            (Inr batch, s\<lparr>ip_transactions := store, ip_batches := batches\<rparr>))"

definition import_revert :: "ledgerEnv \<Rightarrow> importState \<Rightarrow> string \<Rightarrow> string \<Rightarrow> (import_error + nat) \<times> importState" where
  "import_revert env s u i =
     (case batch_revert (ip_transactions s) (ip_batches s) u i (en_now env) of
        (None, store, batches) \<Rightarrow> (Inl NoSuchImport, s\<lparr>ip_transactions := store, ip_batches := batches\<rparr>)
      | (Some removed, store, batches) \<Rightarrow> (Inr removed, s\<lparr>ip_transactions := store, ip_batches := batches\<rparr>))"

end
