(* ===== verification/ImportUndo.thy ===== *)
theory ImportUndo
  imports ImportService
begin

text \<open>
  What an import does to the ledger: it writes what its preview showed, it can be undone exactly, and it
  cannot be repeated. The digest is assumed to be free of collisions.
\<close>

section \<open>Fingerprints\<close>

lemma int_string_chars: "CHR ''|'' \<notin> set (int_string i)"
proof -
  have "\<not> is_digit CHR ''|''" by code_simp
  then have "CHR ''|'' \<notin> set (nat_string n)" for n using nat_string_digits [of n] by (auto simp: list_all_iff)
  then show ?thesis by (simp add: int_string_def)
qed

lemma int_string_inj: "int_string i = int_string j \<Longrightarrow> i = j"
proof -
  assume e: "int_string i = int_string j"
  have nat: "nat_string m = nat_string n \<Longrightarrow> m = n" for m n by (metis parse_nat_string)
  have "\<not> is_digit CHR ''-''" by code_simp
  then have "nat_string n \<noteq> CHR ''-'' # w" for n w using nat_string_digits [of n] by auto
  then have "CHR ''-'' # w \<noteq> nat_string n" for n w by metis
  with \<open>\<And>n w. nat_string n \<noteq> CHR ''-'' # w\<close> show ?thesis
    using e by (cases "i < 0"; cases "j < 0") (auto simp: int_string_def dest!: arg_cong [where f = parse_nat])
qed

lemma utc_length: "toUtcDate d \<noteq> None \<Longrightarrow> length d = 10"
  by (auto simp: toUtcDate_def is_iso_date_def split: if_splits)

lemma fingerprint_inj:
  assumes "inj digest" and "fingerprint digest a d m r = fingerprint digest a d' m' r'"
    and "toUtcDate d \<noteq> None" and "toUtcDate d' \<noteq> None"
  shows "d = d' \<and> m = m' \<and> r = r'"
proof -
  from injD [OF assms(1) assms(2) [unfolded fingerprint_def]]
  have "d @ CHR ''|'' # int_string m @ CHR ''|'' # r = d' @ CHR ''|'' # int_string m' @ CHR ''|'' # r'" by simp
  moreover have "length d = length d'" using assms(3,4) utc_length by simp
  ultimately have d: "d = d'" and t: "int_string m @ CHR ''|'' # r = int_string m' @ CHR ''|'' # r'" by simp_all
  have cut: "takeWhile (\<lambda>c. c \<noteq> CHR ''|'') (int_string i @ CHR ''|'' # w) = int_string i" for i w
    using int_string_chars [of i] by (auto simp: takeWhile_append)
  from arg_cong [OF t, of "takeWhile (\<lambda>c. c \<noteq> CHR ''|'')"] have "int_string m = int_string m'" by (simp only: cut)
  with t d int_string_inj show ?thesis by simp
qed

section \<open>What a commit writes\<close>

text \<open>A row that carries the fingerprint of a statement line says what the line says.\<close>

definition csv_row :: "(string \<Rightarrow> string) \<Rightarrow> transaction \<Rightarrow> bool" where
  "csv_row digest t \<longleftrightarrow> (\<forall>d m r. toUtcDate d \<noteq> None \<longrightarrow>
     tx_providerTxnId t = ''csv_'' @ fingerprint digest (tx_accountId t) d m r \<longrightarrow>
     tx_postedAt t = d \<and> tx_amount t = m \<and> tx_normalizedDescriptor t = normalizeDescriptor r)"

lemma account_rows_set:
  "set (account_rows env store u account) =
   {t \<in> set (bucket store u). ac_id account = [] \<or> tx_accountId t = ac_id account}"
  by (auto simp: account_rows_def txn_list_def matches_def allTransactions_def if_given_def if_text_def before_cursor_def)

lemma foldl_upsert_fresh:
  "distinct (map tx_key ts) \<Longrightarrow> tx_key ` set rows \<inter> tx_key ` set ts = {} \<Longrightarrow> foldl upsert_row rows ts = rows @ ts"
proof (induction ts arbitrary: rows)
  case (Cons t ts)
  have "tx_key t \<notin> tx_key ` set rows" using Cons.prems(2) by auto
  then have "\<not> (\<exists>r \<in> set rows. tx_key r = tx_key t)" by (metis imageI)
  then have "upsert_row rows t = rows @ [t]" by (simp add: upsert_row_def)
  then show ?case using Cons.prems Cons.IH [of "rows @ [t]"] by auto
qed simp

lemma sorted_wrt_distinct: "sorted_wrt (\<lambda>x y. x \<noteq> y) xs = distinct xs"
  by (induction xs) auto

definition imports_of :: "(string \<Rightarrow> string) \<Rightarrow> ledgerEnv \<Rightarrow> importState \<Rightarrow> string \<Rightarrow> account \<Rightarrow> reviewInput \<Rightarrow> transaction list" where
  "imports_of digest env s u account input = map (importedTransaction digest env account
     (rule_list (en_localeCompare env) (ip_rules s) u)) (importable_rows (reviewImport input))"

lemma accepted_facts:
  "sorted_wrt (\<lambda>t t'. \<not> duplicates (candidate_of_txn t') t) (fst (review_rows input))"
  "t \<in> set (fst (review_rows input)) \<Longrightarrow> e \<in> set (ri_existing input) \<Longrightarrow> \<not> duplicates (candidate_of_txn t) e"
  "(i, raw) \<in> set (List.enumerate 0 (ri_rows input)) \<Longrightarrow> read_row input (i + 2) raw = Inr r \<Longrightarrow>
   known input (fst (review_rows input)) r"
proof -
  have inv: "review_inv input (List.enumerate 0 (ri_rows input)) (review_rows input)" by (rule review_rows_inv)
  then show "sorted_wrt (\<lambda>t t'. \<not> duplicates (candidate_of_txn t') t) (fst (review_rows input))"
    "t \<in> set (fst (review_rows input)) \<Longrightarrow> e \<in> set (ri_existing input) \<Longrightarrow> \<not> duplicates (candidate_of_txn t) e"
    unfolding review_inv_def by blast+
  assume "(i, raw) \<in> set (List.enumerate 0 (ri_rows input))" "read_row input (i + 2) raw = Inr r"
  with inv show "known input (fst (review_rows input)) r" unfolding review_inv_def by fast
qed

lemma importable_accepted:
  "fst (review_rows input) = map (pending_of_row input) (importable_rows (reviewImport input))"
  using review_rows_inv [of input] by (simp add: review_inv_def importable_rows_def reviewImport_def Let_def)

lemma importable_row:
  assumes "r \<in> set (importable_rows (reviewImport input))"
  shows "toUtcDate (the (rv_postedAt r)) \<noteq> None"
    and "rv_normalizedDescriptor r = Some (normalizeDescriptor (the (rv_descriptor r)))"
    and "rv_postedAt r = Some (the (rv_postedAt r)) \<and> rv_amount r = Some (the (rv_amount r)) \<and>
      rv_descriptor r = Some (the (rv_descriptor r))"
proof -
  have ok: "list_all2 (reviewed_ok input) (List.enumerate 0 (ri_rows input)) (snd (review_rows input))"
    using review_rows_inv [of input] by (simp add: review_inv_def)
  have r: "r \<in> set (snd (review_rows input))" "rv_decision r \<noteq> InvalidRow"
    using assms by (simp_all add: importable_rows_def reviewImport_def Let_def)
  show "toUtcDate (the (rv_postedAt r)) \<noteq> None"
    by (rule readable_row [OF ok r]) (use read_row_date in fastforce)
  show "rv_normalizedDescriptor r = Some (normalizeDescriptor (the (rv_descriptor r)))"
    by (rule readable_row [OF ok r]) simp
  show "rv_postedAt r = Some (the (rv_postedAt r)) \<and> rv_amount r = Some (the (rv_amount r)) \<and>
      rv_descriptor r = Some (the (rv_descriptor r))" by (rule readable_row [OF ok r]) simp
qed

lemma imports_fresh:
  assumes inj: "inj digest" and csv: "\<And>t. t \<in> set (bucket (ip_transactions s) u) \<Longrightarrow> csv_row digest t"
    and input: "input = review_input env s u account parsed mapping"
  shows "distinct (map tx_key (imports_of digest env s u account input))"
    and "tx_key ` set (bucket (ip_transactions s) u) \<inter> tx_key ` set (imports_of digest env s u account input) = {}"
proof -
  let ?rows = "importable_rows (reviewImport input)" and ?pend = "pending_of_row input"
  let ?imp = "importedTransaction digest env account (rule_list (en_localeCompare env) (ip_rules s) u)"
  have key: "tx_key (?imp r) = (ac_id account, ''csv_'' @ fingerprint digest (ac_id account)
      (the (rv_postedAt r)) (the (rv_amount r)) (the (rv_descriptor r)))" for r
    by (simp add: tx_key_def importedTransaction_def Let_def)
  have cand: "candidate_of_txn (?pend r) = \<lparr>ic_postedAt = the (rv_postedAt r), ic_amount = the (rv_amount r),
      ic_normalizedDescriptor = normalizeDescriptor (the (rv_descriptor r))\<rparr>" for r
    by (simp add: candidate_of_txn_def pending_of_row_def pendingTransaction_def)
  have inv: "sorted_wrt (\<lambda>t t'. \<not> duplicates (candidate_of_txn t') t) (map ?pend ?rows)"
    and new: "\<And>t e. t \<in> set (map ?pend ?rows) \<Longrightarrow> e \<in> set (ri_existing input) \<Longrightarrow> \<not> duplicates (candidate_of_txn t) e"
    unfolding importable_accepted [symmetric] by (rule accepted_facts)+
  have same: "duplicates (candidate_of_txn (?pend r')) (?pend r)"
    if "r \<in> set ?rows" "r' \<in> set ?rows" "tx_key (?imp r) = tx_key (?imp r')" for r r'
  proof -
    have "the (rv_postedAt r) = the (rv_postedAt r') \<and> the (rv_amount r) = the (rv_amount r') \<and>
        the (rv_descriptor r) = the (rv_descriptor r')"
      using that importable_row(1) by (intro fingerprint_inj [OF inj]) (auto simp: key)
    then show ?thesis using importable_row(1) [OF that(2)]
      by (intro duplicates_same) (simp_all add: candidate_of_txn_def pending_of_row_def pendingTransaction_def)
  qed
  have "sorted_wrt (\<lambda>r r'. tx_key (?imp r) \<noteq> tx_key (?imp r')) ?rows"
    using inv [unfolded sorted_wrt_map] by (rule sorted_wrt_mono_rel [rotated]) (use same in blast)
  then show "distinct (map tx_key (imports_of digest env s u account input))"
    by (simp add: imports_of_def sorted_wrt_distinct [symmetric] sorted_wrt_map comp_def)
  show "tx_key ` set (bucket (ip_transactions s) u) \<inter> tx_key ` set (imports_of digest env s u account input) = {}"
  proof (rule ccontr)
    assume "\<not> ?thesis"
    then obtain t r where t: "t \<in> set (bucket (ip_transactions s) u)" and r: "r \<in> set ?rows"
      and k: "tx_key t = tx_key (?imp r)" unfolding imports_of_def set_map by (auto simp del: split_paired_All) metis
    have "tx_postedAt t = the (rv_postedAt r) \<and> tx_amount t = the (rv_amount r) \<and>
        tx_normalizedDescriptor t = normalizeDescriptor (the (rv_descriptor r))"
      using csv [OF t] importable_row(1) [OF r] k unfolding key by (simp add: csv_row_def tx_key_def)
    then have "duplicates (candidate_of_txn (?pend r)) t"
      using importable_row(1) [OF r] by (intro duplicates_same) (simp_all add: cand)
    moreover have "tx_accountId t = ac_id account" using k unfolding key by (simp add: tx_key_def)
    then have "t \<in> set (ri_existing input)" using t by (simp add: input review_input_def account_rows_set)
    ultimately show False using new r by auto
  qed
qed

lemma import_commit_Inr:
  assumes "import_commit digest env s u input mapping = (Inr b, s')"
  obtains account parsed where "acc_get (ip_accounts s) u (pi_accountId input) = Some account"
    and "assertSize (pi_content input)" and "parseCsv (pi_content input) = Inr parsed"
    and "importable_rows (reviewImport (review_input env s u account parsed mapping)) \<noteq> []"
    and "b = newBatch env input account (reviewImport (review_input env s u account parsed mapping))"
    and "s' = s\<lparr>ip_transactions := snd (txn_upsertMany (ip_transactions s) u
        (imports_of digest env s u account (review_input env s u account parsed mapping))),
      ip_batches := map_set u (bucket (ip_batches s) u @ [b]) (ip_batches s)\<rparr>"
  using assms by (auto simp: import_commit_def batch_commit_def imports_of_def Let_def split: option.splits
      sum.splits if_splits)

lemma commit_effect:
  assumes "inj digest" and "\<And>t. t \<in> set (bucket (ip_transactions s) u) \<Longrightarrow> csv_row digest t"
    and "import_commit digest env s u input mapping = (Inr b, s')"
  obtains account parsed where "acc_get (ip_accounts s) u (pi_accountId input) = Some account"
    and "assertSize (pi_content input)" and "parseCsv (pi_content input) = Inr parsed"
    and "b = newBatch env input account (reviewImport (review_input env s u account parsed mapping))"
    and "s' = s\<lparr>ip_transactions := map_set u (bucket (ip_transactions s) u @
        imports_of digest env s u account (review_input env s u account parsed mapping)) (ip_transactions s),
      ip_batches := map_set u (bucket (ip_batches s) u @ [b]) (ip_batches s)\<rparr>"
proof -
  obtain account parsed where e: "acc_get (ip_accounts s) u (pi_accountId input) = Some account"
    "assertSize (pi_content input)" "parseCsv (pi_content input) = Inr parsed"
    "importable_rows (reviewImport (review_input env s u account parsed mapping)) \<noteq> []"
    "b = newBatch env input account (reviewImport (review_input env s u account parsed mapping))"
    "s' = s\<lparr>ip_transactions := snd (txn_upsertMany (ip_transactions s) u
        (imports_of digest env s u account (review_input env s u account parsed mapping))),
      ip_batches := map_set u (bucket (ip_batches s) u @ [b]) (ip_batches s)\<rparr>"
    by (rule import_commit_Inr [OF assms(3)])
  let ?ts = "imports_of digest env s u account (review_input env s u account parsed mapping)"
  have "foldl upsert_row (bucket (ip_transactions s) u) ?ts = bucket (ip_transactions s) u @ ?ts"
    using imports_fresh [OF assms(1,2) refl] by (rule foldl_upsert_fresh)
  then show thesis using e by (intro that [of account parsed]) (simp_all add: txn_upsertMany_eq)
qed

lemma imports_of_fields:
  assumes "t \<in> set (imports_of digest env s u account input)"
  shows "tx_importBatchId t = Some (en_uuid env)" and "tx_accountId t = ac_id account"
  using assms by (auto simp: imports_of_def importedTransaction_def Let_def)

section \<open>Preview, undo, and importing twice\<close>

text \<open>A commit writes what the preview showed: it adds exactly the rows marked importable, behind the
  rows already held, which stay as they are; nothing else of any user changes, and the batch records
  the counts of the preview.\<close>

theorem commit_writes_the_preview:
  assumes "inj digest" and "\<And>t. t \<in> set (bucket (ip_transactions s) u) \<Longrightarrow> csv_row digest t"
    and "import_commit digest env s u input mapping = (Inr b, s')"
    and "import_preview env s u (input\<lparr>pi_mapping := Some mapping\<rparr>) = Inr p"
  shows "\<exists>review new. pv_review p = Some review \<and>
      bucket (ip_transactions s') u = bucket (ip_transactions s) u @ new \<and>
      map (\<lambda>t. (Some (tx_postedAt t), Some (tx_amount t), Some (tx_rawDescriptor t))) new =
        map (\<lambda>r. (rv_postedAt r, rv_amount r, rv_descriptor r)) (importable_rows review) \<and>
      (\<forall>v. v \<noteq> u \<longrightarrow> bucket (ip_transactions s') v = bucket (ip_transactions s) v) \<and>
      ib_rowsImported b = length new \<and> ib_rowsDuplicate b = is_duplicates (ir_summary review) \<and>
      ib_rowsInvalid b = is_invalid (ir_summary review)"
proof -
  obtain account parsed where e: "acc_get (ip_accounts s) u (pi_accountId input) = Some account"
    "assertSize (pi_content input)" "parseCsv (pi_content input) = Inr parsed"
    "b = newBatch env input account (reviewImport (review_input env s u account parsed mapping))"
    "s' = s\<lparr>ip_transactions := map_set u (bucket (ip_transactions s) u @
        imports_of digest env s u account (review_input env s u account parsed mapping)) (ip_transactions s),
      ip_batches := map_set u (bucket (ip_batches s) u @ [b]) (ip_batches s)\<rparr>"
    by (rule commit_effect [OF assms(1,2,3)])
  let ?review = "reviewImport (review_input env s u account parsed mapping)"
  let ?new = "imports_of digest env s u account (review_input env s u account parsed mapping)"
  have "pv_review p = Some ?review" using assms(4) e by (auto simp: import_preview_def Let_def)
  moreover have "map (\<lambda>t. (Some (tx_postedAt t), Some (tx_amount t), Some (tx_rawDescriptor t))) ?new =
      map (\<lambda>r. (rv_postedAt r, rv_amount r, rv_descriptor r)) (importable_rows ?review)"
    using importable_row(3) by (auto simp: imports_of_def importedTransaction_def Let_def)
  ultimately show ?thesis
    by (intro exI [of _ ?review] exI [of _ ?new]) (simp add: e newBatch_def imports_of_def)
qed


lemma import_undo:
  assumes "inj digest" and "\<And>t. t \<in> set (bucket (ip_transactions s) u) \<Longrightarrow> csv_row digest t"
    and "import_commit digest env s u input mapping = (Inr b, s')"
    and fresh: "en_uuid env \<notin> ib_id ` set (bucket (ip_batches s) u)"
      "\<And>t. t \<in> set (bucket (ip_transactions s) u) \<Longrightarrow> tx_importBatchId t \<noteq> Some (en_uuid env)"
  shows "\<exists>s''. import_revert env' s' u (ib_id b) = (Inr (ib_rowsImported b), s'') \<and>
      (\<forall>v. bucket (ip_transactions s'') v = bucket (ip_transactions s) v) \<and>
      import_revert later s'' u (ib_id b) = (Inl NoSuchImport, s'')"
proof -
  obtain account parsed where e: "acc_get (ip_accounts s) u (pi_accountId input) = Some account"
    "assertSize (pi_content input)" "parseCsv (pi_content input) = Inr parsed"
    "b = newBatch env input account (reviewImport (review_input env s u account parsed mapping))"
    "s' = s\<lparr>ip_transactions := map_set u (bucket (ip_transactions s) u @
        imports_of digest env s u account (review_input env s u account parsed mapping)) (ip_transactions s),
      ip_batches := map_set u (bucket (ip_batches s) u @ [b]) (ip_batches s)\<rparr>"
    by (rule commit_effect [OF assms(1,2,3)])
  let ?new = "imports_of digest env s u account (review_input env s u account parsed mapping)"
  let ?old = "bucket (ip_transactions s) u"
  let ?gone = "\<lambda>b'. b'\<lparr>ib_status := Reverted, ib_revertedAt := Some (en_now env')\<rparr>"
  have b: "ib_id b = en_uuid env" "ib_status b = Committed" "ib_rowsImported b = length ?new"
    by (simp_all add: e(4) newBatch_def imports_of_def)
  have old: "filter (\<lambda>t. tx_importBatchId t \<noteq> Some (ib_id b)) ?old = ?old"
    using fresh(2) by (intro filter_True) (simp add: b)
  have new: "filter (\<lambda>t. tx_importBatchId t \<noteq> Some (ib_id b)) ?new = []"
    using imports_of_fields(1) by (auto simp: filter_empty_conv b)
  have "find (\<lambda>b'. ib_id b' = ib_id b) (bucket (ip_batches s) u) = None"
    using fresh(1) by (auto simp: find_None_iff b image_iff)
  then have found: "find (\<lambda>b'. ib_id b' = ib_id b) (bucket (ip_batches s') u) = Some b"
    by (simp add: e(5) find_append)
  have "find (\<lambda>b'. ib_id b' = ib_id b) (update_first (\<lambda>b'. ib_id b' = ib_id b) ?gone (bucket (ip_batches s') u)) =
      Some (?gone b)" by (rule find_update_first_hit [OF found]) simp
  then show ?thesis using found old new
    by (simp add: import_revert_def batch_revert_def txn_removeByImportBatch_def remove_where_def Let_def e(5) b)
qed

text \<open>C16: Undoing an import gives back the ledger as it was before, of every user, and reports as many rows
  as the import had added; undoing it a second time is refused and changes nothing.\<close>

theorem import_undo_restores:
  assumes "inj digest" and "\<And>t. t \<in> set (bucket (ip_transactions s) u) \<Longrightarrow> csv_row digest t"
    and "import_commit digest env s u input mapping = (Inr b, s')"
    and "en_uuid env \<notin> ib_id ` set (bucket (ip_batches s) u)"
    and "\<And>t. t \<in> set (bucket (ip_transactions s) u) \<Longrightarrow> tx_importBatchId t \<noteq> Some (en_uuid env)"
  shows "\<exists>s''. import_revert env' s' u (ib_id b) = (Inr (ib_rowsImported b), s'') \<and>
      (\<forall>v. bucket (ip_transactions s'') v = bucket (ip_transactions s) v) \<and>
      import_revert later s'' u (ib_id b) = (Inl NoSuchImport, s'')"
  by (rule import_undo [OF assms])

lemma import_again:
  assumes "inj digest" and "\<And>t. t \<in> set (bucket (ip_transactions s) u) \<Longrightarrow> csv_row digest t"
    and "import_commit digest env s u input mapping = (Inr b, s')"
    and again: "pi_accountId input' = pi_accountId input" "pi_content input' = pi_content input"
  shows "import_commit digest env' s' u input' mapping = (Inl NothingImportable, s')"
proof -
  obtain account parsed where e: "acc_get (ip_accounts s) u (pi_accountId input) = Some account"
    "assertSize (pi_content input)" "parseCsv (pi_content input) = Inr parsed"
    "b = newBatch env input account (reviewImport (review_input env s u account parsed mapping))"
    "s' = s\<lparr>ip_transactions := map_set u (bucket (ip_transactions s) u @
        imports_of digest env s u account (review_input env s u account parsed mapping)) (ip_transactions s),
      ip_batches := map_set u (bucket (ip_batches s) u @ [b]) (ip_batches s)\<rparr>"
    by (rule commit_effect [OF assms(1,2,3)])
  let ?i = "review_input env s u account parsed mapping" and ?j = "review_input env' s' u account parsed mapping"
  have read: "read_row ?j = read_row ?i" by (intro ext) (simp add: read_row_def review_input_def Let_def cong: option.case_cong)
  have rows: "ri_rows ?j = ri_rows ?i" by (simp add: review_input_def)
  have "importable_rows (reviewImport ?j) = []"
  proof (rule ccontr)
    assume "importable_rows (reviewImport ?j) \<noteq> []"
    then obtain r where r: "r \<in> set (importable_rows (reviewImport ?j))" using hd_in_set by blast
    have ok: "list_all2 (reviewed_ok ?j) (List.enumerate 0 (ri_rows ?j)) (snd (review_rows ?j))"
      using review_rows_inv [of ?j] by (simp add: review_inv_def)
    have mem: "r \<in> set (snd (review_rows ?j))" "rv_decision r \<noteq> InvalidRow"
      using r by (simp_all add: importable_rows_def reviewImport_def Let_def)
    obtain i raw p a d where x: "(i, raw) \<in> set (List.enumerate 0 (ri_rows ?j))"
      "read_row ?j (i + 2) raw = Inr (p, a, d)" "rv_postedAt r = Some p" "rv_amount r = Some a" "rv_descriptor r = Some d"
      by (rule readable_row [OF ok mem]) blast
    have cand: "candidate_of_txn (pending_of_row ?j r) = candidate_of (p, a, d)"
      by (simp add: candidate_of_txn_def pending_of_row_def pendingTransaction_def candidate_of_def x)
    have no: "\<not> duplicates (candidate_of (p, a, d)) t" if "t \<in> set (ri_existing ?j)" for t
      using accepted_facts(2) [of "pending_of_row ?j r" ?j t] r that by (simp add: importable_accepted cand)
    have "known ?i (fst (review_rows ?i)) (p, a, d)"
      using accepted_facts(3) [of i raw ?i] x(1,2) unfolding read rows by blast
    then obtain t where t: "t \<in> set (ri_existing ?i) \<union> set (fst (review_rows ?i))"
      and dup: "duplicates (candidate_of (p, a, d)) t" by (auto simp: known_def)
    show False
    proof (cases "t \<in> set (ri_existing ?i)")
      case True
      then have "t \<in> set (ri_existing ?j)" by (auto simp: review_input_def account_rows_set e(5))
      with no dup show False by blast
    next
      case False
      with t obtain r1 where r1: "r1 \<in> set (importable_rows (reviewImport ?i))" and t1: "t = pending_of_row ?i r1"
        by (auto simp: importable_accepted)
      let ?t = "importedTransaction digest env account (rule_list (en_localeCompare env) (ip_rules s) u) r1"
      have "?t \<in> set (imports_of digest env s u account ?i)" using r1 by (simp add: imports_of_def)
      with imports_of_fields(2) [OF this] have "?t \<in> set (ri_existing ?j)"
        by (simp add: review_input_def account_rows_set e(5))
      moreover have "duplicates (candidate_of (p, a, d)) ?t = duplicates (candidate_of (p, a, d)) t"
        using importable_row(2) [OF r1]
        by (intro duplicates_fields) (simp_all add: t1 importedTransaction_def pending_of_row_def pendingTransaction_def Let_def)
      ultimately show False using no dup by blast
    qed
  qed
  then show ?thesis using e by (simp add: import_commit_def again Let_def)
qed

text \<open>C17: A statement that was imported is not imported again: a second import of the same content into the
  same account, read with the same mapping, finds nothing importable and changes nothing, whatever it
  is called and whenever it comes.\<close>

theorem reimport_is_refused:
  assumes "inj digest" and "\<And>t. t \<in> set (bucket (ip_transactions s) u) \<Longrightarrow> csv_row digest t"
    and "import_commit digest env s u input mapping = (Inr b, s')"
    and "pi_accountId input' = pi_accountId input" and "pi_content input' = pi_content input"
  shows "import_commit digest env' s' u input' mapping = (Inl NothingImportable, s')"
  by (rule import_again [OF assms])

section \<open>A statement\<close>

definition import_env :: ledgerEnv where
  "import_env = \<lparr>en_localeCompare = code_unit_compare, en_regex = \<lambda>_ _. None, en_today = ''2026-03-10'',
     en_now = ''2026-03-10T00:00:00.000Z'', en_millis = 1000, en_uuid = ''b1'',
     en_listAccounts = \<lambda>_. [], en_fetch = \<lambda>_. []\<rparr>"

definition statement :: previewInput where
  "statement = \<lparr>pi_accountId = ''acc1'', pi_filename = ''january.csv'',
     pi_content = ''Date,Details,Amount'' @ [CHR 0x0A] @ ''31/01/2026,COFFEE,-4.50'' @ [CHR 0x0A] @ ''1/2/2026,BOOKS,x'',
     pi_mapping = None\<rparr>"

definition statement_columns :: columnMapping where
  "statement_columns = \<lparr>cm_date = ''Date'', cm_description = ''Details'', cm_amount = Some ''Amount'',
     cm_debit = None, cm_credit = None, cm_direction = None, cm_convention = Signed, cm_dateOrder = DMY\<rparr>"

definition statement_account :: account where
  "statement_account = \<lparr>ac_id = ''acc1'', ac_name = ''Everyday'', ac_type = Checking, ac_mask = ''manual'',
     ac_currency = ''EUR'', ac_balanceCurrent = 0, ac_source = Some ManualRow, ac_creditLimit = None,
     ac_statementDay = None, ac_paymentDueDay = None\<rparr>"

definition statement_parsed :: parsedCsv where
  "statement_parsed = \<lparr>pc_headers = [''Date'', ''Details'', ''Amount''],
     pc_rows = [[''31/01/2026'', ''COFFEE'', ''-4.50''], [''1/2/2026'', ''BOOKS'', ''x'']],
     pc_delimiter = CHR 0x2C, pc_raggedLines = []\<rparr>"

definition statement_state :: importState where
  "statement_state = \<lparr>ip_accounts = \<lparr>as_accounts = [(''u'', [statement_account])], as_snapshots = []\<rparr>,
     ip_transactions = [(''u'', [demo_resent])], ip_rules = [], ip_batches = []\<rparr>"

abbreviation "statement_input \<equiv> review_input import_env statement_state ''u'' statement_account statement_parsed statement_columns"

lemma statement_size: "assertSize (pi_content statement)"
proof -
  have "utf8_length s \<le> 2 * length s" for s by (induction s) (auto simp: utf8_length_def)
  from this [of "pi_content statement"] have "utf8_length (pi_content statement) \<le> 200" by (simp add: statement_def)
  then show ?thesis by (simp add: assertSize_def MAX_CONTENT_BYTES_def)
qed

lemma statement_csv: "parseCsv (pi_content statement) = Inr statement_parsed"
proof -
  let ?lines = "[''Date,Details,Amount'', ''31/01/2026,COFFEE,-4.50'', ''1/2/2026,BOOKS,x'']"
  have records: "toRecords (pi_content statement) = ?lines" "detectDelimiter (pi_content statement) = CHR 0x2C"
    by code_simp+
  have "filter (\<lambda>line. trim line \<noteq> []) ?lines = ?lines" by code_simp
  moreover have "map (\<lambda>line. map trim (splitLine line (CHR 0x2C))) ?lines =
      [''Date'', ''Details'', ''Amount''] # pc_rows statement_parsed" by code_simp
  moreover have "map (\<lambda>line. length (splitLine line (CHR 0x2C))) ?lines = [3, 3, 3]" by code_simp
  ultimately show ?thesis unfolding parseCsv_def records
    by (simp add: statement_parsed_def MAX_IMPORT_ROWS_def Let_def)
qed

lemma statement_rows:
  "read_row statement_input 2 [''31/01/2026'', ''COFFEE'', ''-4.50''] = Inr (''2026-01-31'', -450, ''COFFEE'')"
  "read_row statement_input 3 [''1/2/2026'', ''BOOKS'', ''x''] = Inl ''Could not read the amount.''"
proof -
  have "parseAmount ''-4.50'' ''EUR'' = Some (-450)" "parseAmount ''x'' ''EUR'' = None"
    "parseDate ''31/01/2026'' DMY = Some ''2026-01-31''" "parseDate ''1/2/2026'' DMY = Some ''2026-02-01''"
    "trim ''COFFEE'' = ''COFFEE''" by code_simp+
  then show "read_row statement_input 2 [''31/01/2026'', ''COFFEE'', ''-4.50''] = Inr (''2026-01-31'', -450, ''COFFEE'')"
    "read_row statement_input 3 [''1/2/2026'', ''BOOKS'', ''x''] = Inl ''Could not read the amount.''"
    by (simp_all add: read_row_def review_input_def statement_parsed_def statement_columns_def statement_account_def
      columnOf_def cell_at_def readAmount_def)
qed

lemma statement_review:
  "map rv_decision (ir_rows (reviewImport statement_input)) = [ImportRow, InvalidRow]"
proof -
  have "tx_amount demo_resent \<noteq> -450" by (simp add: demo_resent_def)
  moreover have "set (ri_existing statement_input) \<subseteq> {demo_resent}"
    by (auto simp: review_input_def account_rows_set statement_state_def bucket_def get_or_def)
  ultimately have "findDuplicate (candidate_of (''2026-01-31'', -450, ''COFFEE'')) (ri_existing statement_input) = None"
    using findDuplicate_iff [of "candidate_of (''2026-01-31'', -450, ''COFFEE'')" "ri_existing statement_input"]
    by (auto simp: duplicates_def candidate_of_def)
  then have "known_match statement_input [] (''2026-01-31'', -450, ''COFFEE'') = None"
    by (simp add: known_match_def findDuplicate_def)
  moreover have "List.enumerate 0 (ri_rows statement_input) =
      [(0, [''31/01/2026'', ''COFFEE'', ''-4.50'']), (1, [''1/2/2026'', ''BOOKS'', ''x''])]"
    by (simp add: review_input_def statement_parsed_def)
  moreover have "1 + 2 = (3 :: nat)" "0 + 2 = (2 :: nat)" by simp_all
  ultimately show ?thesis using statement_rows
    by (simp add: reviewImport_def review_rows_def review_row_def filled_row_def blank_row_def invalid_row_def
      numeral_2_eq_2 numeral_3_eq_3 Let_def)
qed

lemma statement_ok:
  obtains b s' where "import_commit (\<lambda>x. x) import_env statement_state ''u'' statement statement_columns = (Inr b, s')"
    and "ib_id b = ''b1''" and "ib_rowsImported b = 1"
proof -
  have "acc_get (ip_accounts statement_state) ''u'' (pi_accountId statement) = Some statement_account" by code_simp
  moreover have "importable_rows (reviewImport statement_input) \<noteq> [] \<and>
      length (importable_rows (reviewImport statement_input)) = 1"
  proof -
    have "map rv_decision (importable_rows (reviewImport statement_input)) =
        filter (\<lambda>d. d = ImportRow) (map rv_decision (ir_rows (reviewImport statement_input)))"
      by (simp add: importable_rows_def filter_map comp_def)
    then have "map rv_decision (importable_rows (reviewImport statement_input)) = [ImportRow]"
      by (simp add: statement_review)
    then show ?thesis by (metis length_map list.size(3,4) map_is_Nil_conv One_nat_def add.commute list.distinct(1) plus_1_eq_Suc)
  qed
  ultimately show thesis using that statement_size statement_csv
    by (simp add: import_commit_def batch_commit_def Let_def newBatch_def import_env_def)
qed

lemma statement_bucket: "bucket (ip_transactions statement_state) ''u'' = [demo_resent]"
  "bucket (ip_batches statement_state) ''u'' = []"
  by (simp_all add: statement_state_def bucket_def get_or_def)

lemma statement_csv_rows: "t \<in> set (bucket (ip_transactions statement_state) ''u'') \<Longrightarrow> csv_row (\<lambda>x. x) t"
  by (simp add: statement_bucket csv_row_def demo_resent_def)

theorem import_undo_restores_witness:
  "bucket (ip_transactions (snd (import_revert import_env (snd (import_commit (\<lambda>x. x) import_env statement_state ''u''
     statement statement_columns)) ''u'' ''b1''))) ''u'' = [demo_resent]"
proof -
  obtain b s' where c: "import_commit (\<lambda>x. x) import_env statement_state ''u'' statement statement_columns = (Inr b, s')"
    "ib_id b = ''b1''" by (rule statement_ok)
  have "en_uuid import_env = ''b1''" by (simp add: import_env_def)
  then obtain s'' where "import_revert import_env s' ''u'' (ib_id b) = (Inr (ib_rowsImported b), s'')"
    and "\<forall>v. bucket (ip_transactions s'') v = bucket (ip_transactions statement_state) v"
    using import_undo_restores [OF _ statement_csv_rows c(1), of import_env]
    by (auto simp: statement_bucket demo_resent_def)
  then show ?thesis by (simp add: c statement_bucket)
qed

theorem reimport_is_refused_witness:
  "fst (import_commit (\<lambda>x. x) (import_env\<lparr>en_uuid := ''b2''\<rparr>) (snd (import_commit (\<lambda>x. x) import_env statement_state
     ''u'' statement statement_columns)) ''u'' (statement\<lparr>pi_filename := ''again.csv''\<rparr>) statement_columns) =
   Inl NothingImportable"
proof -
  obtain b s' where c: "import_commit (\<lambda>x. x) import_env statement_state ''u'' statement statement_columns = (Inr b, s')"
    by (rule statement_ok)
  from reimport_is_refused [OF _ statement_csv_rows c, of "statement\<lparr>pi_filename := ''again.csv''\<rparr>"] show ?thesis
    by (simp add: c)
qed

theorem commit_writes_the_preview_witness:
  "length (bucket (ip_transactions (snd (import_commit (\<lambda>x. x) import_env statement_state ''u'' statement
     statement_columns))) ''u'') = 2"
proof -
  obtain b s' where c: "import_commit (\<lambda>x. x) import_env statement_state ''u'' statement statement_columns = (Inr b, s')"
    "ib_rowsImported b = 1" by (rule statement_ok)
  have "acc_get (ip_accounts statement_state) ''u'' (pi_accountId statement) = Some statement_account" by code_simp
  then have "\<exists>p. import_preview import_env statement_state ''u'' (statement\<lparr>pi_mapping := Some statement_columns\<rparr>) = Inr p"
    using statement_size statement_csv by (simp add: import_preview_def Let_def)
  then obtain p where "import_preview import_env statement_state ''u'' (statement\<lparr>pi_mapping := Some statement_columns\<rparr>) = Inr p"
    by blast
  from commit_writes_the_preview [OF _ statement_csv_rows c(1) this] show ?thesis
    using c(2) by (auto simp: c statement_bucket)
qed

end
