(* ===== verification/Reconciliation.thy ===== *)
theory Reconciliation
  imports LedgerService
begin

text \<open>
  Checking an account against a statement: the balance on a past day
  (\<open>domain/reconciliation/balance.ts\<close>), the store of assertions
  (\<open>InMemoryReconciliationStore\<close>) and the service
  (\<open>modules/reconciliation/reconciliation.service.ts\<close>). \<open>formatMoney\<close>, which only calls the host's
  \<open>Intl\<close>, is a parameter of the explanations.
\<close>

section \<open>Balances on past days\<close>

datatype reconciliationSource = FromStatement | BankApp | AtmReceipt | ManualCount | OtherSource

fun source_of :: "string \<Rightarrow> reconciliationSource option" where
  "source_of s = (if s = ''statement'' then Some FromStatement else if s = ''bank_app'' then Some BankApp
     else if s = ''atm_receipt'' then Some AtmReceipt else if s = ''manual_count'' then Some ManualCount
     else if s = ''other'' then Some OtherSource else None)"

datatype reconciliationStatus = Balanced | Unbalanced

record reconciliationOutcome =
  ro_computedBalance :: int
  ro_difference :: int
  ro_status :: reconciliationStatus
  ro_transactionsConsidered :: nat
  ro_explanation :: string

definition later_posting :: "account \<Rightarrow> string \<Rightarrow> transaction \<Rightarrow> bool" where
  "later_posting account asOf txn \<longleftrightarrow>
     tx_accountId txn = ac_id account \<and> \<not> tx_pending txn \<and> \<not> tx_postedAt txn \<le> asOf"

definition unwind :: "account \<Rightarrow> string \<Rightarrow> int \<times> nat \<Rightarrow> transaction \<Rightarrow> int \<times> nat" where
  "unwind account asOf acc txn = (case acc of (posted, considered) \<Rightarrow>
     if later_posting account asOf txn then (posted + tx_amount txn, considered + 1) else acc)"

definition computeBalanceAsOf :: "account \<Rightarrow> transaction list \<Rightarrow> string \<Rightarrow> int \<times> nat" where
  "computeBalanceAsOf account ts asOf =
     (case foldl (unwind account asOf) (0, 0) ts of (posted, considered) \<Rightarrow>
        (ac_balanceCurrent account - posted, considered))"

definition describe :: "(int \<Rightarrow> string \<Rightarrow> string) \<Rightarrow> reconciliationStatus \<Rightarrow> int \<Rightarrow> string \<Rightarrow> string \<Rightarrow> string" where
  "describe formatMoney status difference currency asOf =
     (if status = Balanced then ''Your records agree with the account balance on '' @ asOf @ ''.''
      else let magnitude = formatMoney \<bar>difference\<bar> (toUpperCase currency)
        in if difference > 0
           then ''The account holds '' @ magnitude @ '' more than FINVERSE recorded on '' @ asOf @ ''. '' @
             ''A deposit or refund may be missing.''
           else ''FINVERSE recorded '' @ magnitude @ '' more than the account held on '' @ asOf @ ''. '' @
             ''A payment may be duplicated, or one may not have cleared.'')"

text \<open>None is the thrown \<open>CurrencyMismatchError\<close>.\<close>

definition reconcile :: "(int \<Rightarrow> string \<Rightarrow> string) \<Rightarrow> account \<Rightarrow> transaction list \<Rightarrow> string \<Rightarrow> int \<Rightarrow> string
    \<Rightarrow> reconciliationOutcome option" where
  "reconcile formatMoney account ts asOf observedBalance assertedCurrency =
     (if toUpperCase assertedCurrency \<noteq> toUpperCase (ac_currency account) then None
      else case computeBalanceAsOf account ts asOf of (balance, considered) \<Rightarrow>
        let difference = observedBalance - balance;
            status = (if difference = 0 then Balanced else Unbalanced)
        in Some \<lparr>ro_computedBalance = balance, ro_difference = difference, ro_status = status,
             ro_transactionsConsidered = considered,
             ro_explanation = describe formatMoney status difference (ac_currency account) asOf\<rparr>)"

section \<open>Assertions\<close>

record reconciliation =
  rc_id :: string
  rc_accountId :: string
  rc_statementDate :: string
  rc_observedBalance :: int
  rc_currency :: string
  rc_computedBalance :: int
  rc_difference :: int
  rc_source :: reconciliationSource
  rc_note :: "string option"
  rc_createdAt :: string
  rc_archivedAt :: "string option"

definition rec_list :: "(string \<Rightarrow> string \<Rightarrow> int) \<Rightarrow> reconciliation buckets \<Rightarrow> string \<Rightarrow> string option \<Rightarrow> reconciliation list" where
  "rec_list lc s u accountId =
     js_sort (cmp_or (\<lambda>a b. lc (rc_statementDate b) (rc_statementDate a)) (\<lambda>a b. lc (rc_createdAt b) (rc_createdAt a)))
       (filter (\<lambda>r. if truthy accountId then rc_accountId r = the accountId else True) (bucket s u))"

definition rec_get :: "reconciliation buckets \<Rightarrow> string \<Rightarrow> string \<Rightarrow> reconciliation option" where
  "rec_get s u i = find_row rc_id s u i"

definition same_closing :: "reconciliation \<Rightarrow> reconciliation \<Rightarrow> bool" where
  "same_closing row r \<longleftrightarrow> rc_accountId r = rc_accountId row \<and> rc_statementDate r = rc_statementDate row \<and>
     rc_archivedAt r = None"

definition rec_create :: "reconciliation buckets \<Rightarrow> string \<Rightarrow> reconciliation \<Rightarrow> reconciliation buckets" where
  "rec_create s u row = map_set u (update_first (same_closing row)
     (\<lambda>r. r\<lparr>rc_archivedAt := Some (rc_createdAt row)\<rparr>) (bucket s u) @ [row]) s"

definition rec_archive :: "reconciliation buckets \<Rightarrow> string \<Rightarrow> string \<Rightarrow> string \<Rightarrow> bool \<times> reconciliation buckets" where
  "rec_archive s u i now =
     (let live = (\<lambda>r. rc_id r = i \<and> rc_archivedAt r = None)
      in if \<exists>r \<in> set (bucket s u). live r
         then (True, map_set u (update_first live (\<lambda>r. r\<lparr>rc_archivedAt := Some now\<rparr>) (bucket s u)) s)
         else (False, s))"

definition newer_live :: "(string, reconciliation) jsmap \<Rightarrow> reconciliation \<Rightarrow> (string, reconciliation) jsmap" where
  "newer_live latest row =
     (if rc_archivedAt row \<noteq> None then latest
      else case map_of latest (rc_accountId row) of
          None \<Rightarrow> map_set (rc_accountId row) row latest
        | Some existing \<Rightarrow> if rc_statementDate row > rc_statementDate existing
            then map_set (rc_accountId row) row latest else latest)"

definition latestPerAccount :: "reconciliation list \<Rightarrow> (string, reconciliation) jsmap" where
  "latestPerAccount rows = foldl newer_live [] rows"

text \<open>Days are whole here, so \<open>Math.round\<close> has nothing to round.\<close>

definition daysSinceReconciled :: "string option \<Rightarrow> string \<Rightarrow> int option" where
  "daysSinceReconciled latestStatementDate today =
     (if \<not> truthy latestStatementDate then None
      else case (toUtcDate (the latestStatementDate), toUtcDate today) of
          (Some from_day, Some to_day) \<Rightarrow> Some (max 0 (to_day - from_day))
        | _ \<Rightarrow> None)"

section \<open>The service\<close>

datatype reconciliation_error = UnknownAccount | BadStatementDate | BadAmount | FutureStatement | BadSource
  | NoteTooLong | CurrencyMismatch | BrokenDate | NoReconciliation

record reconciliationInput =
  rin_accountId :: string
  rin_statementDate :: string
  rin_observedBalance :: num
  rin_currency :: "string option"
  rin_source :: "string option"
  rin_note :: "string option"

record reconciliationView =
  rvw_row :: reconciliation
  rvw_accountName :: string
  rvw_status :: reconciliationStatus

record accountReconciliationSummary =
  ars_accountId :: string
  ars_accountName :: string
  ars_currency :: string
  ars_currentBalance :: int
  ars_lastStatementDate :: "string option"
  ars_lastDifference :: "int option"
  ars_daysSinceReconciled :: "int option"
  ars_overdue :: bool

definition MAX_NOTE_LENGTH :: nat where "MAX_NOTE_LENGTH = 500"
definition OVERDUE_AFTER_DAYS :: int where "OVERDUE_AFTER_DAYS = 90"
definition FAR_FUTURE :: string where "FAR_FUTURE = ''9999-12-31''"

definition postings_after :: "ledgerEnv \<Rightarrow> transactionStore \<Rightarrow> string \<Rightarrow> account \<Rightarrow> string \<Rightarrow> transaction list" where
  "postings_after env store u account start = txn_list (en_localeCompare env) store u
     (allTransactions\<lparr>tq_accountId := Some (ac_id account),
        tq_range := Some \<lparr>dr_start = start, dr_end = FAR_FUTURE\<rparr>\<rparr>)"

definition compare_balance :: "(int \<Rightarrow> string \<Rightarrow> string) \<Rightarrow> ledgerEnv \<Rightarrow> transactionStore \<Rightarrow> string \<Rightarrow> account
    \<Rightarrow> string \<Rightarrow> int \<Rightarrow> string \<Rightarrow> reconciliation_error + reconciliationOutcome" where
  "compare_balance formatMoney env store u account statementDate observedBalance currency =
     (case addDays statementDate 1 of
        None \<Rightarrow> Inl BrokenDate
      | Some start \<Rightarrow>
          (case reconcile formatMoney account (postings_after env store u account start) statementDate
              observedBalance currency of
             None \<Rightarrow> Inl CurrencyMismatch
           | Some outcome \<Rightarrow> Inr outcome))"

definition check_statement :: "accountState \<Rightarrow> string \<Rightarrow> string \<Rightarrow> string \<Rightarrow> num \<Rightarrow> reconciliation_error + account" where
  "check_statement accounts u accountId statementDate observedBalance =
     (case acc_get accounts u accountId of
        None \<Rightarrow> Inl UnknownAccount
      | Some account \<Rightarrow>
          if \<not> is_iso_date statementDate then Inl BadStatementDate
          else if \<not> isSafeInteger observedBalance then Inl BadAmount
          else Inr account)"

definition rec_preview :: "(int \<Rightarrow> string \<Rightarrow> string) \<Rightarrow> ledgerEnv \<Rightarrow> accountState \<Rightarrow> transactionStore \<Rightarrow> string \<Rightarrow> string
    \<Rightarrow> string \<Rightarrow> num \<Rightarrow> reconciliation_error + reconciliationOutcome \<times> string \<times> string" where
  "rec_preview formatMoney env accounts store u accountId statementDate observedBalance =
     (case check_statement accounts u accountId statementDate observedBalance of
        Inl e \<Rightarrow> Inl e
      | Inr account \<Rightarrow> map_sum id (\<lambda>outcome. (outcome, ac_name account, ac_currency account))
          (compare_balance formatMoney env store u account statementDate (int_of_num observedBalance)
             (ac_currency account)))"

definition newReconciliation :: "ledgerEnv \<Rightarrow> reconciliationInput \<Rightarrow> account \<Rightarrow> reconciliationOutcome
    \<Rightarrow> reconciliationSource \<Rightarrow> string option \<Rightarrow> reconciliation" where
  "newReconciliation env input account outcome source note =
     \<lparr>rc_id = en_uuid env, rc_accountId = ac_id account, rc_statementDate = rin_statementDate input,
      rc_observedBalance = int_of_num (rin_observedBalance input), rc_currency = ac_currency account,
      rc_computedBalance = ro_computedBalance outcome, rc_difference = ro_difference outcome,
      rc_source = source, rc_note = note, rc_createdAt = en_now env, rc_archivedAt = None\<rparr>"

definition trimmed_note :: "string option \<Rightarrow> string option" where
  "trimmed_note note = (case note of None \<Rightarrow> None | Some n \<Rightarrow> if trim n = [] then None else Some (trim n))"

definition reconciliation_create :: "(int \<Rightarrow> string \<Rightarrow> string) \<Rightarrow> ledgerEnv \<Rightarrow> accountState \<Rightarrow> transactionStore
    \<Rightarrow> reconciliation buckets \<Rightarrow> string \<Rightarrow> reconciliationInput
    \<Rightarrow> (reconciliation_error + reconciliationView) \<times> reconciliation buckets" where
  "reconciliation_create formatMoney env accounts store s u input =
     (case check_statement accounts u (rin_accountId input) (rin_statementDate input) (rin_observedBalance input) of
        Inl e \<Rightarrow> (Inl e, s)
      | Inr account \<Rightarrow>
          if rin_statementDate input > en_today env then (Inl FutureStatement, s)
          else case source_of (case rin_source input of None \<Rightarrow> ''statement'' | Some x \<Rightarrow> x) of
              None \<Rightarrow> (Inl BadSource, s)
            | Some source \<Rightarrow>
                let note = trimmed_note (rin_note input)
                in if length (case note of None \<Rightarrow> [] | Some n \<Rightarrow> n) > MAX_NOTE_LENGTH then (Inl NoteTooLong, s)
                   else case compare_balance formatMoney env store u account (rin_statementDate input)
                       (int_of_num (rin_observedBalance input))
                       (case rin_currency input of None \<Rightarrow> ac_currency account | Some c \<Rightarrow> c) of
                       Inl e \<Rightarrow> (Inl e, s)
                     | Inr outcome \<Rightarrow>
                         let row = newReconciliation env input account outcome source note
                         in (Inr \<lparr>rvw_row = row, rvw_accountName = ac_name account, rvw_status = ro_status outcome\<rparr>,
                             rec_create s u row))"

definition reconciliation_list :: "ledgerEnv \<Rightarrow> accountState \<Rightarrow> reconciliation buckets \<Rightarrow> string \<Rightarrow> string option
    \<Rightarrow> reconciliationView list" where
  "reconciliation_list env accounts s u accountId =
     (let names = foldl (\<lambda>m a. map_set (ac_id a) (ac_name a) m) [] (acc_list accounts u)
      in map (\<lambda>row. \<lparr>rvw_row = row, rvw_accountName = get_or names (rc_accountId row) ''Closed account'',
                rvw_status = (if rc_difference row = 0 then Balanced else Unbalanced)\<rparr>)
           (rec_list (en_localeCompare env) s u accountId))"

definition reconciliation_archive :: "ledgerEnv \<Rightarrow> reconciliation buckets \<Rightarrow> string \<Rightarrow> string
    \<Rightarrow> (reconciliation_error + unit) \<times> reconciliation buckets" where
  "reconciliation_archive env s u i = (case rec_archive s u i (en_now env) of
     (archived, s') \<Rightarrow> (if archived then Inr () else Inl NoReconciliation, s'))"

definition summary_of :: "string \<Rightarrow> (string, reconciliation) jsmap \<Rightarrow> account \<Rightarrow> accountReconciliationSummary" where
  "summary_of today latest account =
     (let last = map_of latest (ac_id account);
          days = daysSinceReconciled (map_option rc_statementDate last) today
      in \<lparr>ars_accountId = ac_id account, ars_accountName = ac_name account, ars_currency = ac_currency account,
          ars_currentBalance = ac_balanceCurrent account,
          ars_lastStatementDate = map_option rc_statementDate last,
          ars_lastDifference = map_option rc_difference last, ars_daysSinceReconciled = days,
          ars_overdue = (case days of None \<Rightarrow> True | Some d \<Rightarrow> d > OVERDUE_AFTER_DAYS)\<rparr>)"

definition reconciliation_summary :: "ledgerEnv \<Rightarrow> accountState \<Rightarrow> reconciliation buckets \<Rightarrow> string
    \<Rightarrow> accountReconciliationSummary list" where
  "reconciliation_summary env accounts s u =
     (let latest = latestPerAccount (rec_list (en_localeCompare env) s u None)
      in map (summary_of (en_today env) latest) (acc_list accounts u))"

end
