(* ===== verification/ReconciliationSafety.thy ===== *)
theory ReconciliationSafety
  imports Reconciliation
begin

text \<open>
  The arithmetic of past balances, the query that feeds it, and the audit trail of assertions as a state
  machine over the requests that write.
\<close>

section \<open>Past balances\<close>

lemma unwind_sum:
  "foldl (unwind account asOf) (p, k) ts = (p + sum_list (map tx_amount (filter (later_posting account asOf) ts)),
     k + length (filter (later_posting account asOf) ts))"
  by (induction ts arbitrary: p k) (simp_all add: unwind_def)

lemma balance_sum:
  "computeBalanceAsOf account ts asOf =
   (ac_balanceCurrent account - sum_list (map tx_amount (filter (later_posting account asOf) ts)),
    length (filter (later_posting account asOf) ts))"
  by (simp add: computeBalanceAsOf_def unwind_sum)

lemma balance_mset:
  assumes "filter_mset (later_posting account asOf) (mset ts) = filter_mset (later_posting account asOf) (mset ts')"
  shows "computeBalanceAsOf account ts asOf = computeBalanceAsOf account ts' asOf"
proof -
  have m: "mset (filter (later_posting account asOf) ts) = mset (filter (later_posting account asOf) ts')"
    using assms by simp
  from mset_eq_length [OF m] have "length (filter (later_posting account asOf) ts) =
      length (filter (later_posting account asOf) ts')" .
  moreover have "sum_list (map tx_amount (filter (later_posting account asOf) ts)) =
      sum_list (map tx_amount (filter (later_posting account asOf) ts'))"
    by (metis m mset_map sum_mset_sum_list)
  ultimately show ?thesis by (simp add: balance_sum)
qed

lemma far_future: "in_iso_range m \<Longrightarrow> toIsoDate m \<le> FAR_FUTURE"
proof -
  assume m: "in_iso_range m"
  have c: "civil 2932896 = (9999, 11, 31)" and y: "day_from_year 10000 = 2932897" by code_simp+
  have r: "in_iso_range 2932896" using c by (simp add: in_iso_range_def utc_year_def)
  have "digit_char 9 = CHR ''9''" "digit_char 1 = CHR ''1''" "digit_char 2 = CHR ''2''" "digit_char 3 = CHR ''3''"
    by code_simp+
  then have l: "toIsoDate 2932896 = FAR_FUTURE"
    using toIsoDate_digits(1) [OF c r] by (simp add: FAR_FUTURE_def fixed_four fixed_two)
  have "year_of m \<le> 9999" using m by (simp add: in_iso_range_def utc_year_def civil_def Let_def)
  then have "day_from_year (year_of m + 1) \<le> day_from_year 10000"
    using day_from_year_mono [of "year_of m + 1" 10000] by simp
  then have "m \<le> 2932896" using year_of_bounds [of m] y by simp
  then show ?thesis using toIsoDate_le_iff [OF m r] l by simp
qed

text \<open>The service loads only the rows posted after the statement date, through a query; it finds what the
  definition finds on the whole ledger, for every day and every ledger whose rows carry calendar days.\<close>

theorem range_query_loses_nothing:
  assumes "in_iso_range n" and "in_iso_range (n + 1)" and "ac_id account \<noteq> []"
    and days: "\<And>t. t \<in> set (bucket store u) \<Longrightarrow> \<exists>m. in_iso_range m \<and> tx_postedAt t = toIsoDate m"
  shows "compare_balance formatMoney env store u account (toIsoDate n) observed currency =
    (case reconcile formatMoney account (bucket store u) (toIsoDate n) observed currency of
       None \<Rightarrow> Inl CurrencyMismatch | Some outcome \<Rightarrow> Inr outcome)"
proof -
  let ?start = "toIsoDate (n + 1)"
  let ?rows = "postings_after env store u account ?start"
  have start: "addDays (toIsoDate n) 1 = Some ?start" by (simp add: addDays_def toUtcDate_toIsoDate [OF assms(1)])
  have in_range: "isWithin (tx_postedAt t) \<lparr>dr_start = ?start, dr_end = FAR_FUTURE\<rparr> \<longleftrightarrow> \<not> tx_postedAt t \<le> toIsoDate n"
    if t: "t \<in> set (bucket store u)" for t
  proof -
    obtain m where m: "in_iso_range m" "tx_postedAt t = toIsoDate m" using days [OF t] by blast
    then show ?thesis using far_future [OF m(1)] toIsoDate_le_iff [OF assms(2) m(1)] toIsoDate_le_iff [OF m(1) assms(1)]
      by (auto simp: isWithin_def)
  qed
  have "filter_mset (later_posting account (toIsoDate n)) (mset ?rows) =
      filter_mset (later_posting account (toIsoDate n)) (mset (bucket store u))"
    using in_range assms(3)
    by (auto simp: postings_after_def txn_list_def matches_def allTransactions_def if_text_def if_given_def
      before_cursor_def later_posting_def mset_js_sort filter_filter_mset mset_filter [symmetric]
      simp del: mset_filter intro!: arg_cong [of _ _ mset] filter_cong)
  from balance_mset [OF this] show ?thesis
    by (simp add: compare_balance_def start reconcile_def)
qed


text \<open>The balance of a past day does not depend on when it is asked for. A posting that arrives later and
  moves the current balance by its amount leaves it where it was, and the balances of two days differ
  by what was posted between them.\<close>

theorem past_balances_are_stable:
  "(later_posting account asOf t \<longrightarrow>
     fst (computeBalanceAsOf (account\<lparr>ac_balanceCurrent := ac_balanceCurrent account + tx_amount t\<rparr>) (ts @ [t]) asOf) =
     fst (computeBalanceAsOf account ts asOf)) \<and>
   (asOf \<le> day \<longrightarrow>
     fst (computeBalanceAsOf account ts day) = fst (computeBalanceAsOf account ts asOf) +
       sum_list (map tx_amount (filter (\<lambda>t. later_posting account asOf t \<and> tx_postedAt t \<le> day) ts)))"
proof (intro conjI impI)
  have same: "later_posting (account\<lparr>ac_balanceCurrent := b\<rparr>) = later_posting account" for b
    by (simp add: later_posting_def fun_eq_iff)
  show "fst (computeBalanceAsOf (account\<lparr>ac_balanceCurrent := ac_balanceCurrent account + tx_amount t\<rparr>) (ts @ [t]) asOf) =
      fst (computeBalanceAsOf account ts asOf)" if "later_posting account asOf t"
    using that by (simp add: balance_sum same)
  assume le: "asOf \<le> day"
  have "later_posting account day t \<Longrightarrow> later_posting account asOf t" for t
    using le by (auto simp: later_posting_def)
  then have "sum_list (map tx_amount (filter (later_posting account asOf) ts)) =
      sum_list (map tx_amount (filter (later_posting account day) ts)) +
      sum_list (map tx_amount (filter (\<lambda>t. later_posting account asOf t \<and> tx_postedAt t \<le> day) ts))" for ts
    by (induction ts) (auto simp: later_posting_def)
  from this [of ts] show "fst (computeBalanceAsOf account ts day) = fst (computeBalanceAsOf account ts asOf) +
      sum_list (map tx_amount (filter (\<lambda>t. later_posting account asOf t \<and> tx_postedAt t \<le> day) ts))"
    by (simp add: balance_sum)
qed

section \<open>The audit trail\<close>

text \<open>The requests that write: an assertion, or its withdrawal.\<close>

inductive rec_step :: "(int \<Rightarrow> string \<Rightarrow> string) \<Rightarrow> reconciliation buckets \<Rightarrow> reconciliation buckets \<Rightarrow> bool" for fm where
  asserted: "reconciliation_create fm env accounts store s u input = (result, s') \<Longrightarrow> rec_step fm s s'"
| withdrawn: "reconciliation_archive env s u i = (answer, s') \<Longrightarrow> rec_step fm s s'"

inductive rec_run :: "(int \<Rightarrow> string \<Rightarrow> string) \<Rightarrow> reconciliation buckets \<Rightarrow> reconciliation buckets \<Rightarrow> bool" for fm where
  idle: "rec_run fm s s"
| further: "rec_run fm s s' \<Longrightarrow> rec_step fm s' s'' \<Longrightarrow> rec_run fm s s''"

definition live_closings :: "reconciliation list \<Rightarrow> (string \<times> string) list" where
  "live_closings rows = map (\<lambda>r. (rc_accountId r, rc_statementDate r)) (filter (\<lambda>r. rc_archivedAt r = None) rows)"

text \<open>A row may only gain the mark that archives it; what it asserted, and a mark it has, are frozen.\<close>

definition only_archived :: "reconciliation \<Rightarrow> reconciliation \<Rightarrow> bool" where
  "only_archived r r' \<longleftrightarrow> r'\<lparr>rc_archivedAt := None\<rparr> = r\<lparr>rc_archivedAt := None\<rparr> \<and>
     (rc_archivedAt r = None \<or> rc_archivedAt r' = rc_archivedAt r)"

definition extends :: "reconciliation list \<Rightarrow> reconciliation list \<Rightarrow> bool" where
  "extends xs ys \<longleftrightarrow> (\<exists>rows new. list_all2 only_archived xs rows \<and> ys = rows @ new)"

lemma update_first_archives:
  assumes "\<And>r. P r \<Longrightarrow> rc_archivedAt r = None"
  shows "list_all2 only_archived rows (update_first P (\<lambda>r. r\<lparr>rc_archivedAt := Some x\<rparr>) rows)"
  using assms by (induction rows) (auto simp: only_archived_def list_all2_refl)

lemma live_update_first:
  assumes "\<And>r. P r \<Longrightarrow> rc_archivedAt r = None"
  shows "set (live_closings (update_first P (\<lambda>r. r\<lparr>rc_archivedAt := Some x\<rparr>) rows)) \<subseteq> set (live_closings rows) \<and>
    (distinct (live_closings rows) \<longrightarrow> distinct (live_closings (update_first P (\<lambda>r. r\<lparr>rc_archivedAt := Some x\<rparr>) rows)))"
  using assms by (induction rows) (auto simp: live_closings_def)

lemma live_closings_simps [simp]:
  "live_closings [] = []"
  "live_closings (r # rows) = (if rc_archivedAt r = None
     then (rc_accountId r, rc_statementDate r) # live_closings rows else live_closings rows)"
  "live_closings (xs @ ys) = live_closings xs @ live_closings ys"
  by (simp_all add: live_closings_def)

lemma closing_superseded:
  "distinct (live_closings rows) \<Longrightarrow> (rc_accountId row, rc_statementDate row) \<notin>
     set (live_closings (update_first (same_closing row) (\<lambda>r. r\<lparr>rc_archivedAt := Some x\<rparr>) rows))"
  by (induction rows) (auto simp: same_closing_def split: if_splits)

lemma only_archived_trans: "only_archived a b \<Longrightarrow> only_archived b c \<Longrightarrow> only_archived a c"
  by (auto simp: only_archived_def)

lemma extends_archive: "list_all2 only_archived xs ys \<Longrightarrow> extends xs ys"
  unfolding extends_def by (metis append_Nil2)

lemma extends_append: "list_all2 only_archived xs ys \<Longrightarrow> extends xs (ys @ zs)"
  unfolding extends_def by blast

lemma extends_refl: "extends xs xs"
  by (rule extends_archive) (simp add: only_archived_def list_all2_refl)

lemma extends_trans: "extends xs ys \<Longrightarrow> extends ys zs \<Longrightarrow> extends xs zs"
proof -
  assume "extends xs ys" "extends ys zs"
  then obtain rows new rows' new' where xs: "list_all2 only_archived xs rows" and ys: "ys = rows @ new"
    and r: "list_all2 only_archived ys rows'" and zs: "zs = rows' @ new'" unfolding extends_def by blast
  from r [unfolded ys] obtain a b where ab: "rows' = a @ b" "list_all2 only_archived rows a"
    by (auto simp: list_all2_append1)
  have "list_all2 only_archived xs a" by (rule list_all2_trans [OF only_archived_trans xs ab(2)])
  then show "extends xs zs" unfolding extends_def zs ab(1) by auto
qed

lemma rec_create_trail:
  assumes "rc_archivedAt row = None"
  shows "extends (bucket s v) (bucket (rec_create s u row) v) \<and>
    (distinct (live_closings (bucket s v)) \<longrightarrow> distinct (live_closings (bucket (rec_create s u row) v)))"
proof (cases "v = u")
  case True
  let ?P = "same_closing row"
  have P: "?P r \<Longrightarrow> rc_archivedAt r = None" for r by (simp add: same_closing_def)
  show ?thesis
    using update_first_archives [of ?P, OF P] live_update_first [of ?P, OF P]
      closing_superseded [of "bucket s u" row] assms True
    by (auto simp: rec_create_def intro: extends_append)
qed (simp add: rec_create_def extends_refl)

lemma rec_archive_trail:
  "extends (bucket s v) (bucket (snd (rec_archive s u i now)) v) \<and>
   (distinct (live_closings (bucket s v)) \<longrightarrow> distinct (live_closings (bucket (snd (rec_archive s u i now)) v)))"
proof -
  let ?P = "\<lambda>r. rc_id r = i \<and> rc_archivedAt r = None"
  have P: "?P r \<Longrightarrow> rc_archivedAt r = None" for r by simp
  show ?thesis
    using extends_archive [OF update_first_archives [of ?P, OF P]] live_update_first [of ?P, OF P] extends_refl
    by (simp add: rec_archive_def Let_def)
qed

lemma rec_step_trail:
  assumes "rec_step fm s s'"
  shows "extends (bucket s v) (bucket s' v) \<and>
    (distinct (live_closings (bucket s v)) \<longrightarrow> distinct (live_closings (bucket s' v)))"
  using assms
proof cases
  case (asserted env accounts store u input result)
  then consider "s' = s" | row where "s' = rec_create s u row" and "rc_archivedAt row = None"
    by (auto simp: reconciliation_create_def newReconciliation_def Let_def split: sum.splits option.splits if_splits)
  then show ?thesis by cases (simp_all add: extends_refl rec_create_trail)
next
  case (withdrawn env u i answer)
  then show ?thesis using rec_archive_trail [of s v u i "en_now env"]
    by (auto simp: reconciliation_archive_def split: prod.splits)
qed

lemma rec_run_trail:
  "rec_run fm s s' \<Longrightarrow> extends (bucket s v) (bucket s' v) \<and>
     (distinct (live_closings (bucket s v)) \<longrightarrow> distinct (live_closings (bucket s' v)))"
  by (induction rule: rec_run.induct) (blast intro: extends_refl extends_trans dest: rec_step_trail)+

text \<open>Assertions are evidence. Whatever is asserted and withdrawn afterwards, an assertion stays in its place
  with everything it said; it can only be archived, once. From an empty store on there is at most one
  live assertion for each account and statement date.\<close>

theorem evidence_is_kept:
  "rec_run fm s s' \<Longrightarrow>
   (\<forall>k < length (bucket s u). k < length (bucket s' u) \<and> only_archived (bucket s u ! k) (bucket s' u ! k)) \<and>
   (s = [] \<longrightarrow> distinct (live_closings (bucket s' u)))"
proof -
  assume "rec_run fm s s'"
  from rec_run_trail [OF this, of u] have e: "extends (bucket s u) (bucket s' u)"
    and d: "distinct (live_closings (bucket s u)) \<longrightarrow> distinct (live_closings (bucket s' u))" by blast+
  from e obtain rows new where r: "list_all2 only_archived (bucket s u) rows" "bucket s' u = rows @ new"
    by (auto simp: extends_def)
  from list_all2_lengthD [OF r(1)] list_all2_nthD [OF r(1)] d show ?thesis
    by (auto simp: r(2) nth_append)
qed


section \<open>Examples\<close>

definition checked_account :: account where
  "checked_account = \<lparr>ac_id = ''acc1'', ac_name = ''Everyday'', ac_type = Checking, ac_mask = ''0001'',
     ac_currency = ''EUR'', ac_balanceCurrent = 5000, ac_source = None, ac_creditLimit = None,
     ac_statementDay = None, ac_paymentDueDay = None\<rparr>"

definition posting :: "string \<Rightarrow> int \<Rightarrow> transaction" where
  "posting day amount = demo_resent\<lparr>tx_accountId := ''acc1'', tx_postedAt := day, tx_amount := amount, tx_pending := False\<rparr>"

definition checked_env :: ledgerEnv where
  "checked_env = \<lparr>en_localeCompare = code_unit_compare, en_regex = \<lambda>_ _. None, en_today = ''2026-03-10'',
     en_now = ''2026-03-10T00:00:00.000Z'', en_millis = 1000, en_uuid = ''r1'',
     en_listAccounts = \<lambda>_. [], en_fetch = \<lambda>_. []\<rparr>"

abbreviation "plain_money \<equiv> (\<lambda>amount currency. int_string amount)"

theorem range_query_loses_nothing_witness:
  "map_sum id ro_computedBalance (compare_balance plain_money checked_env
      [(''u'', [posting ''2026-02-28'' 700, posting ''2026-03-01'' (-300)])] ''u'' checked_account ''2026-02-28'' 5300 ''EUR'') =
   Inr 5300"
proof -
  let ?store = "[(''u'', [posting ''2026-02-28'' 700, posting ''2026-03-01'' (-300)])]"
  have r: "in_iso_range 20512" "in_iso_range 20513" "toIsoDate 20512 = ''2026-02-28''" "toIsoDate 20513 = ''2026-03-01''"
    by code_simp+
  have b: "bucket ?store ''u'' = [posting ''2026-02-28'' 700, posting ''2026-03-01'' (-300)]"
    by (simp add: bucket_def get_or_def)
  have days: "\<exists>m. in_iso_range m \<and> tx_postedAt t = toIsoDate m" if "t \<in> set (bucket ?store ''u'')" for t
  proof -
    have "t = posting ''2026-02-28'' 700 \<or> t = posting ''2026-03-01'' (-300)" using that by (simp add: b)
    then have "tx_postedAt t = toIsoDate 20512 \<or> tx_postedAt t = toIsoDate 20513" by (auto simp: r posting_def)
    then show ?thesis using r(1,2) by blast
  qed
  have "compare_balance plain_money checked_env ?store ''u'' checked_account (toIsoDate 20512) 5300 ''EUR'' =
      (case reconcile plain_money checked_account (bucket ?store ''u'') (toIsoDate 20512) 5300 ''EUR'' of
         None \<Rightarrow> Inl CurrencyMismatch | Some outcome \<Rightarrow> Inr outcome)"
    by (rule range_query_loses_nothing) (use r days in \<open>simp_all add: checked_account_def\<close>)
  moreover have "map_option ro_computedBalance (reconcile plain_money checked_account
      [posting ''2026-02-28'' 700, posting ''2026-03-01'' (-300)] ''2026-02-28'' 5300 ''EUR'') = Some 5300" by code_simp
  ultimately show ?thesis by (auto simp: r b)
qed

theorem past_balances_are_stable_witness:
  "fst (computeBalanceAsOf checked_account [posting ''2026-02-28'' 700, posting ''2026-03-01'' (-300)] ''2026-02-27'') = 4600"
proof -
  let ?ts = "[posting ''2026-02-28'' 700, posting ''2026-03-01'' (-300)]"
  have "''2026-02-27'' \<le> ''2026-03-01''" by code_simp
  from past_balances_are_stable [of checked_account "''2026-02-27''" "posting ''2026-03-01'' (-300)" ?ts "''2026-03-01''"] this
  have "fst (computeBalanceAsOf checked_account ?ts ''2026-03-01'') =
      fst (computeBalanceAsOf checked_account ?ts ''2026-02-27'') + sum_list (map tx_amount
        (filter (\<lambda>t. later_posting checked_account ''2026-02-27'' t \<and> tx_postedAt t \<le> ''2026-03-01'') ?ts))" by blast
  moreover have "fst (computeBalanceAsOf checked_account ?ts ''2026-03-01'') = 5000" by code_simp
  moreover have "sum_list (map tx_amount
      (filter (\<lambda>t. later_posting checked_account ''2026-02-27'' t \<and> tx_postedAt t \<le> ''2026-03-01'') ?ts)) = 400" by code_simp
  ultimately show ?thesis by simp
qed

definition checked_rows :: "reconciliation buckets" where
  "checked_rows = snd (reconciliation_create plain_money checked_env \<lparr>as_accounts = [(''u'', [checked_account])], as_snapshots = []\<rparr>
     [] [] ''u'' \<lparr>rin_accountId = ''acc1'', rin_statementDate = ''2026-02-28'', rin_observedBalance = Num 5000,
       rin_currency = None, rin_source = None, rin_note = None\<rparr>)"

theorem evidence_is_kept_witness:
  "distinct (live_closings (bucket (snd (reconciliation_archive checked_env checked_rows ''u'' ''r1'')) ''u''))"
proof -
  have "rec_step plain_money [] checked_rows" unfolding checked_rows_def
    by (rule rec_step.asserted [OF surjective_pairing])
  moreover have "rec_step plain_money checked_rows (snd (reconciliation_archive checked_env checked_rows ''u'' ''r1''))"
    by (rule rec_step.withdrawn [OF surjective_pairing])
  ultimately have "rec_run plain_money [] (snd (reconciliation_archive checked_env checked_rows ''u'' ''r1''))"
    by (blast intro: rec_run.intros)
  from evidence_is_kept [OF this, of "''u''"] show ?thesis by simp
qed

end
