(* ===== verification/Scheduled.thy ===== *)
theory Scheduled
  imports LedgerService
begin

text \<open>
  Declared bills and transfers: when they fall due (\<open>domain/scheduled/schedule.ts\<close>), the store
  (\<open>InMemoryScheduleStore\<close>) and the service (\<open>modules/scheduled/scheduled.service.ts\<close>). A date that
  names no day makes the code throw; the result is then None, and \<open>BrokenSchedule\<close> at the service.
  A request body is a record of optional fields, None where the client left the field out.
\<close>

section \<open>Occurrences\<close>

datatype scheduleCadence = EveryWeek | EveryFortnight | EveryMonth | EveryQuarter | EveryYear

definition SCHEDULE_CADENCES :: "(string \<times> scheduleCadence) list" where
  "SCHEDULE_CADENCES = [(''weekly'', EveryWeek), (''fortnightly'', EveryFortnight), (''monthly'', EveryMonth),
     (''quarterly'', EveryQuarter), (''yearly'', EveryYear)]"

record scheduledTransaction =
  sc_id :: string
  sc_accountId :: string
  sc_name :: string
  sc_amount :: int
  sc_currency :: string
  sc_categorySlug :: string
  sc_cadence :: scheduleCadence
  sc_startDate :: string
  sc_endDate :: "string option"
  sc_reminderDays :: int
  sc_archivedAt :: "string option"

record occurrence =
  oc_date :: string
  oc_due :: bool
  oc_daysUntil :: int

fun MONTHS_PER_CADENCE :: "scheduleCadence \<Rightarrow> int" where
  "MONTHS_PER_CADENCE EveryMonth = 1"
| "MONTHS_PER_CADENCE EveryQuarter = 3"
| "MONTHS_PER_CADENCE EveryYear = 12"
| "MONTHS_PER_CADENCE _ = 0"

fun DAYS_PER_CADENCE :: "scheduleCadence \<Rightarrow> int" where
  "DAYS_PER_CADENCE EveryWeek = 7"
| "DAYS_PER_CADENCE EveryFortnight = 14"
| "DAYS_PER_CADENCE _ = 0"

definition occurrenceAt :: "scheduledTransaction \<Rightarrow> nat \<Rightarrow> string option" where
  "occurrenceAt schedule index =
     (if index = 0 then Some (sc_startDate schedule)
      else let dayStep = DAYS_PER_CADENCE (sc_cadence schedule)
        in if dayStep > 0 then addDays (sc_startDate schedule) (dayStep * int index)
           else let monthStep = MONTHS_PER_CADENCE (sc_cadence schedule);
                    anchorDay = parse_nat (slice 8 10 (sc_startDate schedule));
                    firstOfStart = slice 0 7 (sc_startDate schedule) @ ''-01''
             in (case addMonths firstOfStart (monthStep * int index) of
                   None \<Rightarrow> None
                 | Some advanced \<Rightarrow>
                     let year = int (parse_nat (slice 0 4 advanced)); month = int (parse_nat (slice 5 7 advanced));
                         day = min (int anchorDay) (daysInMonth year month)
                     in Some (slice 0 7 advanced @ CHR ''-'' # pad_number 2 day)))"

definition maxIterations :: nat where "maxIterations = 1000"

definition past_end :: "scheduledTransaction \<Rightarrow> string \<Rightarrow> bool" where
  "past_end schedule date \<longleftrightarrow> truthy (sc_endDate schedule) \<and> date > the (sc_endDate schedule)"

definition occurrence_on :: "scheduledTransaction \<Rightarrow> string \<Rightarrow> string \<Rightarrow> occurrence option" where
  "occurrence_on schedule today date = (case (toUtcDate date, toUtcDate today) of
     (Some on, Some now) \<Rightarrow> let daysUntil = on - now
       in Some \<lparr>oc_date = date, oc_due = (daysUntil \<le> sc_reminderDays schedule), oc_daysUntil = daysUntil\<rparr>
   | _ \<Rightarrow> None)"

text \<open>The loop: how many rounds remain, and the index of the next one.\<close>

fun occurrences_from :: "scheduledTransaction \<Rightarrow> string \<Rightarrow> string \<Rightarrow> nat \<Rightarrow> nat \<Rightarrow> occurrence list option" where
  "occurrences_from schedule today horizon 0 index = Some []"
| "occurrences_from schedule today horizon (Suc remaining) index =
     (case occurrenceAt schedule index of
        None \<Rightarrow> None
      | Some date \<Rightarrow>
          if date > horizon then Some []
          else if past_end schedule date then Some []
          else if date < today then occurrences_from schedule today horizon remaining (index + 1)
          else case occurrence_on schedule today date of
              None \<Rightarrow> None
            | Some occurrence \<Rightarrow>
                map_option ((#) occurrence) (occurrences_from schedule today horizon remaining (index + 1)))"

definition upcomingOccurrences :: "scheduledTransaction \<Rightarrow> string \<Rightarrow> int \<Rightarrow> occurrence list option" where
  "upcomingOccurrences schedule today days =
     (if sc_archivedAt schedule \<noteq> None then Some []
      else case addDays today days of
          None \<Rightarrow> None
        | Some horizon \<Rightarrow> occurrences_from schedule today horizon maxIterations 0)"

definition nextOccurrence :: "scheduledTransaction \<Rightarrow> string \<Rightarrow> string option option" where
  "nextOccurrence schedule today =
     map_option (\<lambda>upcoming. case upcoming of [] \<Rightarrow> None | first # _ \<Rightarrow> Some (oc_date first))
       (upcomingOccurrences schedule today 366)"

definition committedOutflow :: "scheduledTransaction list \<Rightarrow> string \<Rightarrow> int \<Rightarrow> int option" where
  "committedOutflow schedules today days = foldl (\<lambda>total schedule. Option.bind total (\<lambda>t.
     if sc_amount schedule \<ge> 0 then Some t
     else map_option (\<lambda>upcoming. t + \<bar>sc_amount schedule\<bar> * int (length upcoming))
       (upcomingOccurrences schedule today days))) (Some 0) schedules"

section \<open>Validation\<close>

definition MAX_SCHEDULE_NAME_LENGTH :: nat where "MAX_SCHEDULE_NAME_LENGTH = 80"
definition MAX_REMINDER_DAYS :: rat where "MAX_REMINDER_DAYS = 30"

text \<open>\<open>si_endDate\<close> is None for a field left out and \<open>Some None\<close> for an explicit null.\<close>

record scheduleInput =
  si_accountId :: "string option"
  si_name :: "string option"
  si_amount :: "num option"
  si_categorySlug :: "string option"
  si_cadence :: "string option"
  si_startDate :: "string option"
  si_endDate :: "string option option"
  si_reminderDays :: "num option"

definition name_problems :: "string \<Rightarrow> string list" where
  "name_problems name = (if name = [] then [''Give the schedule a name.''] else []) @
     (if length name > MAX_SCHEDULE_NAME_LENGTH then [''Use 80 characters or fewer.''] else [])"

definition end_problems :: "string option \<Rightarrow> string option option \<Rightarrow> string list" where
  "end_problems startDate endDate = (case endDate of
     Some (Some e) \<Rightarrow>
       if \<not> is_iso_date e then [''endDate must be a calendar date (YYYY-MM-DD).'']
       else if truthy startDate \<and> e < the startDate then [''endDate must not be before startDate.''] else []
   | _ \<Rightarrow> [])"

definition validateSchedule :: "scheduleInput \<Rightarrow> string list" where
  "validateSchedule input =
     name_problems (trim (case si_name input of None \<Rightarrow> [] | Some n \<Rightarrow> n)) @
     (case si_amount input of
        Some a \<Rightarrow> if \<not> isSafeInteger a \<or> a = Num 0
          then [''Enter an amount in whole minor units. Zero is not a commitment.''] else []
      | None \<Rightarrow> [''Enter an amount in whole minor units. Zero is not a commitment.'']) @
     (if \<not> truthy (si_cadence input) \<or> the (si_cadence input) \<notin> set (map fst SCHEDULE_CADENCES)
      then [''Cadence must be one of: '' @ join '', '' (map fst SCHEDULE_CADENCES) @ ''.''] else []) @
     (if \<not> truthy (si_startDate input) \<or> \<not> is_iso_date (the (si_startDate input))
      then [''startDate must be a calendar date (YYYY-MM-DD).''] else []) @
     end_problems (si_startDate input) (si_endDate input) @
     (let reminder = (case si_reminderDays input of None \<Rightarrow> Num 0 | Some r \<Rightarrow> r)
      in if \<not> isSafeInteger reminder \<or> int_of_num reminder < 0 \<or> \<not> num_le reminder MAX_REMINDER_DAYS
         then [''reminderDays must be between 0 and 30.''] else [])"

section \<open>The store\<close>

definition sched_list :: "(string \<Rightarrow> string \<Rightarrow> int) \<Rightarrow> scheduledTransaction buckets \<Rightarrow> string \<Rightarrow> bool
    \<Rightarrow> scheduledTransaction list" where
  "sched_list lc s u includeArchived =
     js_sort (cmp_or (\<lambda>a b. lc (sc_startDate a) (sc_startDate b)) (\<lambda>a b. lc (sc_name a) (sc_name b)))
       (filter (\<lambda>s. includeArchived \<or> sc_archivedAt s = None) (bucket s u))"

definition sched_get :: "scheduledTransaction buckets \<Rightarrow> string \<Rightarrow> string \<Rightarrow> scheduledTransaction option" where
  "sched_get s u i = find_row sc_id s u i"

definition sched_create :: "scheduledTransaction buckets \<Rightarrow> string \<Rightarrow> scheduledTransaction
    \<Rightarrow> scheduledTransaction buckets" where
  "sched_create s u schedule = map_set u (bucket s u @ [schedule]) s"

text \<open>The patch is the function that overwrites the fields it names; the id stays.\<close>

definition sched_update :: "scheduledTransaction buckets \<Rightarrow> string \<Rightarrow> string
    \<Rightarrow> (scheduledTransaction \<Rightarrow> scheduledTransaction) \<Rightarrow> scheduledTransaction option \<times> scheduledTransaction buckets" where
  "sched_update s u i patch = (case sched_get s u i of
     None \<Rightarrow> (None, s)
   | Some row \<Rightarrow> (Some ((patch row)\<lparr>sc_id := i\<rparr>),
       map_set u (update_first (\<lambda>r. sc_id r = i) (\<lambda>r. (patch r)\<lparr>sc_id := i\<rparr>) (bucket s u)) s))"

definition sched_archive :: "scheduledTransaction buckets \<Rightarrow> string \<Rightarrow> string \<Rightarrow> string
    \<Rightarrow> bool \<times> scheduledTransaction buckets" where
  "sched_archive s u i now =
     (let live = (\<lambda>r. sc_id r = i \<and> sc_archivedAt r = None)
      in if \<exists>r \<in> set (bucket s u). live r
         then (True, map_set u (update_first live (\<lambda>r. r\<lparr>sc_archivedAt := Some now\<rparr>) (bucket s u)) s)
         else (False, s))"

section \<open>The service\<close>

datatype schedule_error = NoSuchAccount | Rejected "string list" | UnknownScheduleCategory | NoSchedule
  | BadHorizon | BrokenSchedule

record scheduleView =
  svw_schedule :: scheduledTransaction
  svw_accountName :: string
  svw_nextDate :: "string option"
  svw_dueSoon :: bool

record upcomingEntry =
  ue_occurrence :: occurrence
  ue_scheduleId :: string
  ue_name :: string
  ue_amount :: int
  ue_currency :: string
  ue_categorySlug :: string
  ue_accountId :: string
  ue_accountName :: string

definition MAX_HORIZON_DAYS :: int where "MAX_HORIZON_DAYS = 365"

definition account_names :: "accountState \<Rightarrow> string \<Rightarrow> (string, string) jsmap" where
  "account_names accounts u = foldl (\<lambda>m a. map_set (ac_id a) (ac_name a) m) [] (acc_list accounts u)"

definition scheduleView_of :: "string \<Rightarrow> string \<Rightarrow> scheduledTransaction \<Rightarrow> scheduleView option" where
  "scheduleView_of today accountName schedule =
     (case (nextOccurrence schedule today, upcomingOccurrences schedule today (sc_reminderDays schedule)) of
        (Some next, Some upcoming) \<Rightarrow> Some \<lparr>svw_schedule = schedule, svw_accountName = accountName,
           svw_nextDate = next, svw_dueSoon = list_ex oc_due upcoming\<rparr>
      | _ \<Rightarrow> None)"

text \<open>A map whose function throws on one element throws.\<close>

fun map_or_throw :: "('a \<Rightarrow> 'b option) \<Rightarrow> 'a list \<Rightarrow> 'b list option" where
  "map_or_throw f [] = Some []"
| "map_or_throw f (x # xs) = (case f x of None \<Rightarrow> None | Some y \<Rightarrow> map_option ((#) y) (map_or_throw f xs))"

definition schedule_list :: "ledgerEnv \<Rightarrow> accountState \<Rightarrow> scheduledTransaction buckets \<Rightarrow> string \<Rightarrow> bool
    \<Rightarrow> schedule_error + scheduleView list" where
  "schedule_list env accounts s u includeArchived =
     (let names = account_names accounts u
      in case map_or_throw (\<lambda>r. scheduleView_of (en_today env) (get_or names (sc_accountId r) ''Closed account'') r)
          (sched_list (en_localeCompare env) s u includeArchived) of
          None \<Rightarrow> Inl BrokenSchedule | Some views \<Rightarrow> Inr views)"

definition cadence_of :: "string \<Rightarrow> scheduleCadence option" where
  "cadence_of = map_of SCHEDULE_CADENCES"

definition newSchedule :: "ledgerEnv \<Rightarrow> scheduleInput \<Rightarrow> account \<Rightarrow> string \<Rightarrow> scheduledTransaction" where
  "newSchedule env input account categorySlug =
     \<lparr>sc_id = en_uuid env, sc_accountId = ac_id account, sc_name = trim (the (si_name input)),
      sc_amount = int_of_num (the (si_amount input)), sc_currency = ac_currency account,
      sc_categorySlug = categorySlug, sc_cadence = the (cadence_of (the (si_cadence input))),
      sc_startDate = the (si_startDate input), sc_endDate = Option.bind (si_endDate input) id,
      sc_reminderDays = (case si_reminderDays input of None \<Rightarrow> 3 | Some r \<Rightarrow> int_of_num r),
      sc_archivedAt = None\<rparr>"

definition viewed :: "ledgerEnv \<Rightarrow> string \<Rightarrow> scheduledTransaction \<Rightarrow> schedule_error + scheduleView" where
  "viewed env accountName schedule = (case scheduleView_of (en_today env) accountName schedule of
     None \<Rightarrow> Inl BrokenSchedule | Some view \<Rightarrow> Inr view)"

text \<open>The row is stored before the next date is computed, so it stays when that throws.\<close>

definition schedule_create :: "ledgerEnv \<Rightarrow> accountState \<Rightarrow> scheduledTransaction buckets \<Rightarrow> string \<Rightarrow> scheduleInput
    \<Rightarrow> (schedule_error + scheduleView) \<times> scheduledTransaction buckets" where
  "schedule_create env accounts s u input =
     (case acc_get accounts u (case si_accountId input of None \<Rightarrow> [] | Some i \<Rightarrow> i) of
        None \<Rightarrow> (Inl NoSuchAccount, s)
      | Some account \<Rightarrow>
          if validateSchedule input \<noteq> [] then (Inl (Rejected (validateSchedule input)), s)
          else let categorySlug = (case si_categorySlug input of None \<Rightarrow> ''unknown'' | Some c \<Rightarrow> c)
            in if \<not> isKnownCategory categorySlug then (Inl UnknownScheduleCategory, s)
               else let schedule = newSchedule env input account categorySlug
                 in (viewed env (ac_name account) schedule, sched_create s u schedule))"

definition merged_input :: "scheduledTransaction \<Rightarrow> scheduleInput \<Rightarrow> scheduleInput" where
  "merged_input existing patch =
     \<lparr>si_accountId = (case si_accountId patch of None \<Rightarrow> Some (sc_accountId existing) | x \<Rightarrow> x),
      si_name = (case si_name patch of None \<Rightarrow> Some (sc_name existing) | x \<Rightarrow> x),
      si_amount = (case si_amount patch of None \<Rightarrow> Some (Num (of_int (sc_amount existing))) | x \<Rightarrow> x),
      si_categorySlug = (case si_categorySlug patch of None \<Rightarrow> Some (sc_categorySlug existing) | x \<Rightarrow> x),
      si_cadence = (case si_cadence patch of
          None \<Rightarrow> map_option fst (find (\<lambda>c. snd c = sc_cadence existing) SCHEDULE_CADENCES) | x \<Rightarrow> x),
      si_startDate = (case si_startDate patch of None \<Rightarrow> Some (sc_startDate existing) | x \<Rightarrow> x),
      si_endDate = (case si_endDate patch of None \<Rightarrow> Some (sc_endDate existing) | x \<Rightarrow> x),
      si_reminderDays = (case si_reminderDays patch of
          None \<Rightarrow> Some (Num (of_int (sc_reminderDays existing))) | x \<Rightarrow> x)\<rparr>"

definition schedule_patch :: "scheduleInput \<Rightarrow> scheduledTransaction \<Rightarrow> scheduledTransaction" where
  "schedule_patch patch row = row\<lparr>
     sc_accountId := (case si_accountId patch of None \<Rightarrow> sc_accountId row | Some x \<Rightarrow> x),
     sc_name := (case si_name patch of None \<Rightarrow> sc_name row | Some x \<Rightarrow> x),
     sc_amount := (case si_amount patch of None \<Rightarrow> sc_amount row | Some x \<Rightarrow> int_of_num x),
     sc_categorySlug := (case si_categorySlug patch of None \<Rightarrow> sc_categorySlug row | Some x \<Rightarrow> x),
     sc_cadence := (case Option.bind (si_cadence patch) cadence_of of None \<Rightarrow> sc_cadence row | Some x \<Rightarrow> x),
     sc_startDate := (case si_startDate patch of None \<Rightarrow> sc_startDate row | Some x \<Rightarrow> x),
     sc_endDate := (case si_endDate patch of None \<Rightarrow> sc_endDate row | Some x \<Rightarrow> x),
     sc_reminderDays := (case si_reminderDays patch of None \<Rightarrow> sc_reminderDays row | Some x \<Rightarrow> int_of_num x)\<rparr>"

definition schedule_update :: "ledgerEnv \<Rightarrow> accountState \<Rightarrow> scheduledTransaction buckets \<Rightarrow> string \<Rightarrow> string
    \<Rightarrow> scheduleInput \<Rightarrow> (schedule_error + scheduleView) \<times> scheduledTransaction buckets" where
  "schedule_update env accounts s u i patch =
     (case sched_get s u i of
        None \<Rightarrow> (Inl NoSchedule, s)
      | Some existing \<Rightarrow>
          let problems = validateSchedule (merged_input existing patch)
          in if problems \<noteq> [] then (Inl (Rejected problems), s)
             else case sched_update s u i (\<lambda>r. (schedule_patch patch r)\<lparr>sc_currency := sc_currency existing\<rparr>) of
                 (None, s') \<Rightarrow> (Inl NoSchedule, s')
               | (Some updated, s') \<Rightarrow>
                   (viewed env (case find (\<lambda>a. ac_id a = sc_accountId updated) (acc_list accounts u) of
                        None \<Rightarrow> ''Closed account'' | Some a \<Rightarrow> ac_name a) updated, s'))"

definition schedule_archive :: "ledgerEnv \<Rightarrow> scheduledTransaction buckets \<Rightarrow> string \<Rightarrow> string
    \<Rightarrow> (schedule_error + unit) \<times> scheduledTransaction buckets" where
  "schedule_archive env s u i = (case sched_archive s u i (en_now env) of
     (archived, s') \<Rightarrow> (if archived then Inr () else Inl NoSchedule, s'))"

definition entries_of :: "(string, string) jsmap \<Rightarrow> string \<Rightarrow> int \<Rightarrow> scheduledTransaction \<Rightarrow> upcomingEntry list option" where
  "entries_of names today days schedule =
     map_option (map (\<lambda>occurrence. \<lparr>ue_occurrence = occurrence, ue_scheduleId = sc_id schedule,
        ue_name = sc_name schedule, ue_amount = sc_amount schedule, ue_currency = sc_currency schedule,
        ue_categorySlug = sc_categorySlug schedule, ue_accountId = sc_accountId schedule,
        ue_accountName = get_or names (sc_accountId schedule) ''Closed account''\<rparr>))
       (upcomingOccurrences schedule today days)"

definition schedule_upcoming :: "ledgerEnv \<Rightarrow> accountState \<Rightarrow> scheduledTransaction buckets \<Rightarrow> string \<Rightarrow> num
    \<Rightarrow> schedule_error + upcomingEntry list \<times> int \<times> int" where
  "schedule_upcoming env accounts s u days =
     (if \<not> isSafeInteger days \<or> int_of_num days < 1 \<or> int_of_num days > MAX_HORIZON_DAYS then Inl BadHorizon
      else let schedules = sched_list (en_localeCompare env) s u False; today = en_today env; n = int_of_num days
        in case (map_or_throw (entries_of (account_names accounts u) today n) schedules,
              committedOutflow schedules today n) of
            (Some entries, Some outflow) \<Rightarrow>
              Inr (js_sort (cmp_or (\<lambda>a b. en_localeCompare env (oc_date (ue_occurrence a)) (oc_date (ue_occurrence b)))
                     (\<lambda>a b. en_localeCompare env (ue_name a) (ue_name b))) (concat entries), outflow, n)
          | _ \<Rightarrow> Inl BrokenSchedule)"

end
