(* ===== verification/Months.thy ===== *)
theory Months
  imports Dates
begin

text \<open>
  Months as numbers, and what the date functions of \<open>domain/dates.ts\<close> do to ISO dates in terms of them:
  the facts that schedules, forecasts and card payments share.
\<close>

section \<open>Months in a row\<close>

text \<open>A month is a single number, twelve times the year plus the month from 0.\<close>

definition month_day :: "int \<Rightarrow> int \<Rightarrow> int" where
  "month_day k dt = make_day (k div 12) (k mod 12) (min dt (month_length (k div 12) (k mod 12)))"

definition month_first :: "int \<Rightarrow> int" where
  "month_first k = make_day (k div 12) (k mod 12) 1"

lemma month_split: "0 \<le> m \<Longrightarrow> m < 12 \<Longrightarrow> (12 * y + m) div 12 = y \<and> (12 * y + m) mod 12 = (m :: int)"
  by simp

lemma month_first_at: "0 \<le> m \<Longrightarrow> m < 12 \<Longrightarrow> month_first (12 * y + m) = day_from_year y + days_before (leap y) m"
  by (simp add: month_first_def make_day_def Let_def)

lemma month_first_step: "month_first (k + 1) = month_first k + month_length (k div 12) (k mod 12)"
proof -
  define y m where "y = k div 12" and "m = k mod 12"
  have m: "0 \<le> m" "m < 12" and k: "k = 12 * y + m" by (simp_all add: y_def m_def)
  show ?thesis
  proof (cases "m = 11")
    case True
    have "month_first (12 * (y + 1) + 0) = day_from_year y + days_before (leap y) 12"
      using month_first_at [of 0 "y + 1"] by (simp add: year_length days_before_def Let_def)
    then show ?thesis
      using month_first_at [OF m] month_split [OF m] True k by (simp add: month_length_def algebra_simps)
  next
    case False
    then have "month_first (12 * y + (m + 1)) = day_from_year y + days_before (leap y) (m + 1)"
      using m by (intro month_first_at) simp_all
    then show ?thesis
      using month_first_at [OF m] month_split [OF m] k by (simp add: month_length_def algebra_simps)
  qed
qed

lemma month_length_ok: "28 \<le> month_length y (k mod 12) \<and> month_length y (k mod 12) \<le> 31"
  using month_length_bounds [of "k mod 12" y] pos_mod_bound [of 12 k] by simp

lemma month_first_gap: "0 \<le> n \<Longrightarrow> month_first k + 28 * n \<le> month_first (k + n) \<and>
    month_first (k + n) \<le> month_first k + 31 * n"
proof (induction n rule: int_ge_induct)
  case (step n)
  then show ?case
    using month_first_step [of "k + n"] month_length_ok [of "(k + n) div 12" "k + n"] by (simp add: add.assoc)
qed simp

lemma month_day_eq: "month_day k dt = month_first k + min dt (month_length (k div 12) (k mod 12)) - 1"
  by (simp add: month_day_def month_first_def make_day_def Let_def)

lemma month_day_bounds:
  "1 \<le> dt \<Longrightarrow> month_first k \<le> month_day k dt \<and> month_day k dt < month_first (k + 1) \<and>
     month_day k dt < month_first k + 31"
  using month_length_ok [of "k div 12" k] unfolding month_day_eq month_first_step by auto

lemma month_day_less:
  assumes "1 \<le> dt" and "1 \<le> n"
  shows "month_day k dt < month_day (k + n) dt"
proof -
  have "month_first (k + 1) \<le> month_first (k + n)"
    using month_first_gap [of "n - 1" "k + 1"] assms(2) by simp
  with month_day_bounds [OF assms(1), of k] month_day_bounds [OF assms(1), of "k + n"] show ?thesis by linarith
qed

lemma month_day_year: "1 \<le> dt \<Longrightarrow> month_day (k + 12) dt \<le> month_day k dt + 366"
proof -
  assume dt: "1 \<le> dt"
  define y m where "y = k div 12" and "m = k mod 12"
  have m: "0 \<le> m" "m \<le> 11" using pos_mod_bound [of 12 k] by (simp_all add: m_def)
  have "(k + 12) div 12 = y + 1" "(k + 12) mod 12 = m" by (simp_all add: y_def m_def)
  then have "month_day (k + 12) dt = make_day (y + 1) m (min dt (month_length (y + 1) m))"
    and "month_day k dt = make_day y m (min dt (month_length y m))"
    by (simp_all add: month_day_def y_def m_def)
  then show ?thesis using month_cases [OF m]
    by (elim disjE) (auto simp: make_day_def month_length_def days_before_def year_length Let_def min_def)
qed

lemma month_day_quarter:
  "1 \<le> dt \<Longrightarrow> 0 \<le> n \<Longrightarrow> n \<le> 3 \<Longrightarrow> month_day (k + n) dt \<le> month_day k dt + 366"
  using month_first_gap [of n k] month_day_bounds [of dt k] month_day_bounds [of dt "k + n"] by linarith

lemma utc_valid: "valid_date (utc_year d) (utc_month d) (utc_date d)"
  using civil_valid [of d] by (simp add: utc_year_def utc_month_def utc_date_def)

lemma month_index: "valid_date y m dt \<Longrightarrow> (12 * y + m) div 12 = y \<and> (12 * y + m) mod 12 = m"
  by (simp add: valid_date_def)

lemma iso_range_days: "in_iso_range d \<longleftrightarrow> day_from_year 0 \<le> d \<and> d < day_from_year 10000"
proof -
  have y: "day_from_year (utc_year d) \<le> d" "d < day_from_year (utc_year d + 1)"
    using year_of_bounds [of d] by (simp_all add: utc_year_def civil_def Let_def)
  show ?thesis
    using y day_from_year_mono [of 0 "utc_year d"] day_from_year_mono [of "utc_year d + 1" 0]
      day_from_year_mono [of "utc_year d + 1" 10000] day_from_year_mono [of 10000 "utc_year d"]
    by (force simp: in_iso_range_def)
qed

lemma iso_range_between: "in_iso_range a \<Longrightarrow> in_iso_range b \<Longrightarrow> a \<le> x \<Longrightarrow> x \<le> b \<Longrightarrow> in_iso_range x"
  by (simp add: iso_range_days)

lemma toIsoDate_slices:
  assumes "civil d = (y, m, dt)" and "in_iso_range d"
  shows "slice 0 7 (toIsoDate d) = fixed_digits 4 (nat y) @ CHR ''-'' # fixed_digits 2 (nat (m + 1))"
    and "parse_nat (slice 0 4 (toIsoDate d)) = nat y" and "parse_nat (slice 5 7 (toIsoDate d)) = nat (m + 1)"
    and "parse_nat (slice 8 10 (toIsoDate d)) = nat dt"
  using toIsoDate_digits [OF assms]
  by (simp_all add: slice_def valid_date_def nat_less_iff)

section \<open>The month of a day\<close>

definition month_number :: "int \<Rightarrow> int" where
  "month_number n = 12 * utc_year n + utc_month n"

lemma utc_date_bounds: "1 \<le> utc_date n \<and> utc_date n \<le> 31"
  using utc_valid [of n] month_length_bounds [of "utc_month n" "utc_year n"] by (auto simp: valid_date_def)

lemma month_number_parts: "month_number n div 12 = utc_year n" "month_number n mod 12 = utc_month n"
  using month_index [OF utc_valid, of n] by (simp_all add: month_number_def)

lemma month_day_self: "month_day (month_number n) (utc_date n) = n"
  using utc_valid [of n] month_number_parts [of n] make_day_civil [of n]
  by (simp add: month_day_def valid_date_def min_absorb1)

lemma month_first_of: "month_first (month_number n) + utc_date n - 1 = n"
  using month_day_self [of n] utc_valid [of n] month_number_parts [of n]
  by (simp add: month_day_eq valid_date_def min_absorb1)

text \<open>The days on which everything stays readable: years 100 to 9997.\<close>

definition first_day :: int where "first_day = day_from_year 100"
definition last_day :: int where "last_day = day_from_year 9998"

lemma forecast_range:
  assumes "first_day \<le> n" and "n \<le> last_day + 366"
  shows "in_iso_range n" and "100 \<le> utc_year n"
proof -
  have y: "day_from_year (utc_year n) \<le> n" "n < day_from_year (utc_year n + 1)"
    using year_of_bounds [of n] by (simp_all add: utc_year_def civil_def Let_def)
  show "in_iso_range n"
    using assms day_from_year_mono [of 0 100] day_from_year_mono [of 9998 10000]
    by (simp add: iso_range_days first_day_def last_day_def)
  show "100 \<le> utc_year n"
    using y assms(1) day_from_year_mono [of "utc_year n + 1" 100] by (force simp: first_day_def)
qed

lemma addMonths_day_number:
  assumes "first_day \<le> n" and "n \<le> last_day" and "1 \<le> k" and "k \<le> 12"
    and "month_day (month_number n + k) (utc_date n) \<le> last_day + 366"
  shows "addMonths (toIsoDate n) k = Some (toIsoDate (month_day (month_number n + k) (utc_date n)))"
proof -
  let ?t = "month_day (month_number n + k) (utc_date n)"
  define ty tm where "ty = utc_year n + (utc_month n + k) div 12" and "tm = (utc_month n + k) mod 12"
  have parts: "(month_number n + k) div 12 = ty" "(month_number n + k) mod 12 = tm"
    by (simp_all add: month_number_def ty_def tm_def add.assoc)
  have r: "in_iso_range n" "100 \<le> utc_year n" using forecast_range [of n] assms(1,2) by simp_all
  have "n < ?t" using month_day_less [of "utc_date n" k "month_number n"] utc_date_bounds [of n] assms(3)
    by (simp add: month_day_self)
  then have t: "in_iso_range ?t" "100 \<le> utc_year ?t" using forecast_range [of ?t] assms(1,5) by simp_all
  have len: "28 \<le> month_length ty tm" using month_length_ok [of ty "utc_month n + k"] by (simp add: tm_def)
  have v: "valid_date ty tm (min (utc_date n) (month_length ty tm))"
    using utc_date_bounds [of n] len pos_mod_bound [of 12 "utc_month n + k"] by (auto simp: valid_date_def tm_def)
  have "utc_year ?t = ty" using civil_make_day [OF v] by (simp add: month_day_def parts utc_year_def)
  then have "100 \<le> ty" "ty \<le> 9999" using t by (simp_all add: in_iso_range_def)
  then show ?thesis
    using addMonths_target [OF utc_valid, of n ty k tm] r ty_def tm_def
    by (simp add: make_day_civil month_day_def parts in_iso_range_def)
qed

lemma iso_prefix:
  assumes "valid_date y m dt" and "0 \<le> y" and "y \<le> 9999"
  shows "slice 0 8 (toIsoDate (make_day y m dt)) = slice 0 8 (toIsoDate (make_day y m 1))"
    and "slice 0 8 (toIsoDate (make_day y m dt)) @ fixed_digits 2 (nat dt) = toIsoDate (make_day y m dt)"
proof -
  have v1: "valid_date y m 1" using assms(1) by (simp add: valid_date_def)
  have c: "civil (make_day y m dt) = (y, m, dt)" "civil (make_day y m 1) = (y, m, 1)"
    using civil_make_day assms(1) v1 by blast+
  then have r: "in_iso_range (make_day y m dt)" "in_iso_range (make_day y m 1)"
    using assms(2,3) by (simp_all add: in_iso_range_def utc_year_def)
  show "slice 0 8 (toIsoDate (make_day y m dt)) = slice 0 8 (toIsoDate (make_day y m 1))"
    "slice 0 8 (toIsoDate (make_day y m dt)) @ fixed_digits 2 (nat dt) = toIsoDate (make_day y m dt)"
    using toIsoDate_digits(1) [OF c(1) r(1)] toIsoDate_digits(1) [OF c(2) r(2)] by (simp_all add: slice_def)
qed

text \<open>The first day of a month, and any day of it.\<close>

lemma civil_month_day:
  assumes "1 \<le> dt"
  shows "civil (month_day k dt) = (k div 12, k mod 12, min dt (month_length (k div 12) (k mod 12)))"
proof -
  have "valid_date (k div 12) (k mod 12) (min dt (month_length (k div 12) (k mod 12)))"
    using assms month_length_ok [of "k div 12" k] pos_mod_bound [of 12 k] by (auto simp: valid_date_def)
  then show ?thesis by (simp add: month_day_def civil_make_day)
qed

lemma month_first_day: "month_first k = month_day k 1"
  using month_length_ok [of "k div 12" k] by (simp add: month_day_eq)

lemma month_day_parts:
  assumes "1 \<le> dt"
  shows "month_number (month_day k dt) = k" and "utc_year (month_day k dt) = k div 12"
    and "utc_month (month_day k dt) = k mod 12"
    and "utc_date (month_day k dt) = min dt (month_length (k div 12) (k mod 12))"
  using civil_month_day [OF assms, of k] by (simp_all add: month_number_def utc_year_def utc_month_def utc_date_def)

lemma month_number_mono:
  assumes "a \<le> b"
  shows "month_number a \<le> month_number b"
proof (rule ccontr)
  assume "\<not> month_number a \<le> month_number b"
  then have "month_first (month_number b + 1) \<le> month_first (month_number a)"
    using month_first_gap [of "month_number a - month_number b - 1" "month_number b + 1"] by simp
  moreover have "b < month_first (month_number b + 1)" "month_first (month_number a) \<le> a"
    using month_day_bounds [of "utc_date b" "month_number b"] utc_date_bounds [of b]
      month_day_bounds [of "utc_date a" "month_number a"] utc_date_bounds [of a] by (simp_all add: month_day_self)
  ultimately show False using assms by simp
qed

lemma month_first_range:
  assumes "first_day \<le> n"
  shows "first_day \<le> month_first (month_number n)" and "month_first (month_number n) \<le> n"
proof -
  have first: "month_first 1200 = first_day"
    using month_first_at [of 0 100] by (simp add: first_day_def days_before_def)
  have "month_number first_day = 1200" using month_day_parts(1) [of 1 1200] first by (simp add: month_first_day)
  then have "1200 \<le> month_number n" using month_number_mono [OF assms] by simp
  then show "first_day \<le> month_first (month_number n)"
    using month_first_gap [of "month_number n - 1200" 1200] first by simp
  show "month_first (month_number n) \<le> n"
    using month_day_bounds [of "utc_date n" "month_number n"] utc_date_bounds [of n] by (simp add: month_day_self)
qed

lemma addMonths_first:
  assumes "first_day \<le> n" and "n \<le> last_day" and "month_first (month_number n + 1) \<le> last_day + 366"
  shows "addMonths (toIsoDate (month_first (month_number n))) 1 = Some (toIsoDate (month_first (month_number n + 1)))"
  using addMonths_day_number [of "month_first (month_number n)" 1] month_first_range [OF assms(1)] assms
    month_day_parts [of 1 "month_number n"] month_length_ok [of "month_number n div 12" "month_number n"]
  by (simp add: month_first_day min_absorb1)

lemma startOfMonth_day:
  assumes "first_day \<le> n" and "n \<le> last_day + 366"
  shows "startOfMonth (toIsoDate n) = toIsoDate (month_first (month_number n))"
proof -
  have c: "civil n = (utc_year n, utc_month n, utc_date n)" by (simp add: utc_year_def utc_month_def utc_date_def)
  have f: "civil (month_first (month_number n)) = (utc_year n, utc_month n, 1)"
    using civil_month_day [of 1 "month_number n"] month_length_ok [of "utc_year n" "month_number n"]
    by (simp add: month_first_day month_number_parts min_absorb1)
  have r: "in_iso_range n" "in_iso_range (month_first (month_number n))"
    using forecast_range(1) [of n] forecast_range(1) [of "month_first (month_number n)"] month_first_range [OF assms(1)] assms
    by simp_all
  have "''-01'' = CHR ''-'' # fixed_digits 2 1" by code_simp
  then show ?thesis
    using toIsoDate_slices(1) [OF c r(1)] toIsoDate_digits(1) [OF f r(2)] by (simp add: startOfMonth_def)
qed

lemma toIsoDate_eq: "in_iso_range m \<Longrightarrow> in_iso_range n \<Longrightarrow> toIsoDate m = toIsoDate n \<longleftrightarrow> m = n"
  using toUtcDate_toIsoDate by (metis option.inject)

lemma iso_le: "first_day \<le> m \<Longrightarrow> m \<le> last_day + 366 \<Longrightarrow> first_day \<le> n \<Longrightarrow> n \<le> last_day + 366 \<Longrightarrow>
    toIsoDate m \<le> toIsoDate n \<longleftrightarrow> m \<le> n"
  by (simp add: toIsoDate_le_iff forecast_range)

lemma day_limits: "first_day = - 683003" "last_day = 2932167"
  by (simp_all add: first_day_def last_day_def day_from_year_def)

end
