(* ===== verification/ScheduledSafety.thy ===== *)
theory ScheduledSafety
  imports Scheduled Months
begin

text \<open>
  What the schedule promises: the dates an obligation falls on, and that the loop finds exactly
  those of the window.
\<close>

section \<open>The days of a schedule\<close>

definition occurrence_day :: "scheduleCadence \<Rightarrow> int \<Rightarrow> nat \<Rightarrow> int" where
  "occurrence_day cadence start i =
     (if DAYS_PER_CADENCE cadence > 0 then start + DAYS_PER_CADENCE cadence * int i
      else month_day (12 * utc_year start + utc_month start + MONTHS_PER_CADENCE cadence * int i) (utc_date start))"

lemma occurrence_day_0: "occurrence_day c d 0 = d"
  using month_index [OF utc_valid, of d] utc_valid [of d]
  by (simp add: occurrence_day_def month_day_def make_day_civil valid_date_def min_absorb1)

lemma occurrence_day_step:
  "occurrence_day c d i < occurrence_day c d (Suc i) \<and> occurrence_day c d (Suc i) \<le> occurrence_day c d i + 366"
proof -
  define k where "k = 12 * utc_year d + utc_month d"
  have dt: "1 \<le> utc_date d" "utc_date d \<le> 31"
    using utc_valid [of d] month_length_bounds [of "utc_month d" "utc_year d"] by (auto simp: valid_date_def)
  have less: "month_day (k + s * int i) (utc_date d) < month_day (k + s * int i + s) (utc_date d)" if "1 \<le> s" for s
    by (rule month_day_less [OF dt(1) that])
  have le: "month_day (k + s * int i + s) (utc_date d) \<le> month_day (k + s * int i) (utc_date d) + 366"
    if "s = 1 \<or> s = 3 \<or> s = 12" for s
    using that month_day_quarter [OF dt(1), of s "k + s * int i"] month_day_year [OF dt(1), of "k + s * int i"] by auto
  show ?thesis
    using less [of 1] less [of 3] less [of 12] le [of 1] le [of 3] le [of 12]
    by (cases c) (simp_all add: occurrence_day_def k_def algebra_simps)
qed

lemma occurrence_day_mono: "i < j \<Longrightarrow> occurrence_day c d i < occurrence_day c d j"
  using lift_Suc_mono_less [of "occurrence_day c d"] occurrence_day_step by blast

lemma occurrence_day_ge: "d \<le> occurrence_day c d i"
  using occurrence_day_mono [of 0 i c d] by (cases i) (simp_all add: occurrence_day_0)

lemma occurrenceAt_day:
  assumes start: "sc_startDate s = toIsoDate d" "100 \<le> utc_year d" "in_iso_range d"
    and range: "in_iso_range (occurrence_day (sc_cadence s) d i)"
  shows "occurrenceAt s i = Some (toIsoDate (occurrence_day (sc_cadence s) d i))"
proof (cases "i = 0 \<or> 0 < DAYS_PER_CADENCE (sc_cadence s)")
  case True
  show ?thesis
  proof (cases "i = 0")
    case False
    with True show ?thesis
      by (simp add: occurrenceAt_def start occurrence_day_def addDays_def toUtcDate_toIsoDate Let_def)
  qed (simp add: occurrenceAt_def start occurrence_day_0)
next
  case False
  define months where "months = MONTHS_PER_CADENCE (sc_cadence s) * int i"
  obtain y m dt where c: "civil d = (y, m, dt)" by (cases "civil d")
  note digits = toIsoDate_digits [OF c start(3)] and slices = toIsoDate_slices [OF c start(3)]
  define ty tm where "ty = y + (m + months) div 12" and "tm = (m + months) mod 12"
  have tm: "0 \<le> tm" "tm < 12" by (simp_all add: tm_def)
  define day where "day = min dt (month_length ty tm)"
  have target: "(12 * y + m + months) div 12 = ty" "(12 * y + m + months) mod 12 = tm"
    by (simp_all add: ty_def tm_def add.assoc)
  then have on: "occurrence_day (sc_cadence s) d i = make_day ty tm day"
    using False c by (simp add: occurrence_day_def month_day_def day_def months_def utc_year_def utc_month_def utc_date_def)
  have valid: "valid_date ty tm day" "valid_date ty tm 1" "valid_date y m 1"
    using digits(4) tm month_length_ok [of ty tm] by (auto simp: valid_date_def day_def)
  have "0 \<le> months" by (cases "sc_cadence s") (simp_all add: months_def)
  then have "y \<le> ty" using digits(4) by (simp add: ty_def valid_date_def pos_imp_zdiv_nonneg_iff)
  moreover have "utc_year (make_day ty tm day) = ty" using civil_make_day [OF valid(1)] by (simp add: utc_year_def)
  ultimately have ty: "100 \<le> ty" "ty \<le> 9999"
    using start(2) c range by (simp_all add: on utc_year_def in_iso_range_def)
  have cs: "civil (make_day y m 1) = (y, m, 1)" "civil (make_day ty tm 1) = (ty, tm, 1)"
    "civil (make_day ty tm day) = (ty, tm, day)" using civil_make_day valid by blast+
  have rs: "in_iso_range (make_day y m 1)" "in_iso_range (make_day ty tm 1)" "in_iso_range (make_day ty tm day)"
    using cs ty digits(2,3) by (simp_all add: in_iso_range_def utc_year_def)
  have "''-01'' = CHR ''-'' # fixed_digits 2 1" by code_simp
  then have "slice 0 7 (toIsoDate d) @ ''-01'' = toIsoDate (make_day y m 1)"
    using slices(1) toIsoDate_digits(1) [OF cs(1) rs(1)] by simp
  moreover have "addMonths (toIsoDate (make_day y m 1)) months = Some (toIsoDate (make_day ty tm 1))"
    using addMonths_target [OF valid(3) digits(2,3) ty_def tm_def ty] month_length_ok [of ty tm] tm
    by (simp add: min_absorb1)
  moreover have "slice 0 7 (toIsoDate (make_day ty tm 1)) @ CHR ''-'' # pad_number 2 day = toIsoDate (make_day ty tm day)"
    using toIsoDate_slices(1) [OF cs(2) rs(2)] toIsoDate_digits(1) [OF cs(3) rs(3)] valid(1)
      month_length_ok [of ty tm] tm digits(5) by (simp add: pad_number_digits valid_date_def)
  moreover have "min (int (nat dt)) (daysInMonth (int (nat ty)) (int (nat (tm + 1)))) = day"
    using digits(4) ty tm by (simp add: day_def daysInMonth_eq valid_date_def)
  ultimately show ?thesis
    using False toIsoDate_slices(2,3) [OF cs(2) rs(2)] slices(4)
    by (simp add: occurrenceAt_def start(1) on months_def Let_def)
qed

section \<open>The loop finds the window\<close>

definition occurrence_entry :: "scheduledTransaction \<Rightarrow> int \<Rightarrow> int \<Rightarrow> occurrence" where
  "occurrence_entry s today k =
     \<lparr>oc_date = toIsoDate k, oc_due = (k - today \<le> sc_reminderDays s), oc_daysUntil = k - today\<rparr>"

text \<open>The days of a schedule that lie in the window, among its first \<open>n\<close> occurrences from the \<open>i\<close>-th on.\<close>

definition days_in_window :: "scheduledTransaction \<Rightarrow> int \<Rightarrow> int \<Rightarrow> int \<Rightarrow> nat \<Rightarrow> nat \<Rightarrow> int list" where
  "days_in_window s start today horizon i n =
     filter (\<lambda>k. today \<le> k \<and> k \<le> horizon \<and> \<not> past_end s (toIsoDate k))
       (map (occurrence_day (sc_cadence s) start) [i..<i + n])"

lemma days_in_window_step:
  "days_in_window s start today horizon i (Suc n) =
     (let k = occurrence_day (sc_cadence s) start i in
      (if today \<le> k \<and> k \<le> horizon \<and> \<not> past_end s (toIsoDate k) then [k] else []) @
        days_in_window s start today horizon (Suc i) n)"
  by (simp add: days_in_window_def upt_conv_Cons Let_def del: upt_Suc)

lemma days_in_window_empty:
  assumes "\<And>j. i \<le> j \<Longrightarrow> \<not> (occurrence_day (sc_cadence s) start j \<le> horizon \<and>
    \<not> past_end s (toIsoDate (occurrence_day (sc_cadence s) start j)))"
  shows "days_in_window s start today horizon i n = []"
  using assms by (auto simp: days_in_window_def filter_empty_conv)

lemma occurrences_from_exact:
  assumes start: "sc_startDate s = toIsoDate d" "100 \<le> utc_year d" "in_iso_range d"
    and today: "in_iso_range today" "in_iso_range (horizon + 366)" "today \<le> horizon"
    and stop: "\<And>e. sc_endDate s = Some e \<Longrightarrow> \<exists>m. in_iso_range m \<and> e = toIsoDate m"
    and i: "occurrence_day (sc_cadence s) d i \<le> horizon + 366 \<or> i = 0 \<and> d > horizon"
  shows "occurrences_from s (toIsoDate today) (toIsoDate horizon) n i =
    Some (map (occurrence_entry s today) (days_in_window s d today horizon i n))"
  using i
proof (induction n arbitrary: i)
  case 0
  then show ?case by (simp add: days_in_window_def)
next
  case (Suc n)
  let ?k = "occurrence_day (sc_cadence s) d"
  have r: "in_iso_range (?k i)"
  proof (cases "i = 0 \<and> d > horizon")
    case False
    with Suc.prems iso_range_between [OF start(3) today(2) occurrence_day_ge] show ?thesis by blast
  qed (simp add: start occurrence_day_0)
  have h: "in_iso_range horizon" using iso_range_between [OF today(1,2)] today(3) by simp
  have at_i: "occurrenceAt s i = Some (toIsoDate (?k i))" using occurrenceAt_day [OF start r] .
  have later: "?k i \<le> ?k j" if "i \<le> j" for j
    using occurrence_day_mono [of i j "sc_cadence s" d] that by (cases "i = j") auto
  consider (horizon) "horizon < ?k i" | (ended) "?k i \<le> horizon" "past_end s (toIsoDate (?k i))"
    | (inside) "?k i \<le> horizon" "\<not> past_end s (toIsoDate (?k i))" by linarith
  then show ?case
  proof cases
    case horizon
    then have "days_in_window s d today horizon i (Suc n) = []"
      using later by (intro days_in_window_empty) force
    then show ?thesis using horizon at_i by (simp add: toIsoDate_less_iff r h)
  next
    case ended
    then obtain m where m: "in_iso_range m" "sc_endDate s = Some (toIsoDate m)" "m < ?k i"
      using stop r by (cases "sc_endDate s") (auto simp: past_end_def toIsoDate_less_iff)
    have "past_end s (toIsoDate (?k j))" if j: "i \<le> j" "?k j \<le> horizon" for j
    proof -
      have "in_iso_range (?k j)" using iso_range_between [OF r h later [OF j(1)] j(2)] .
      then show ?thesis
        using m later [OF j(1)] ended(2) by (simp add: past_end_def toIsoDate_less_iff)
    qed
    then have "days_in_window s d today horizon i (Suc n) = []" by (intro days_in_window_empty) blast
    then show ?thesis using ended at_i by (simp add: toIsoDate_less_iff r h)
  next
    case inside
    have "?k (Suc i) \<le> horizon + 366" using occurrence_day_step [of "sc_cadence s" d i] inside(1) by linarith
    note IH = Suc.IH [of "Suc i", OF disjI1, OF this]
    show ?thesis
    proof (cases "?k i < today")
      case True
      then show ?thesis using inside at_i IH
        by (simp add: days_in_window_step Let_def toIsoDate_less_iff r h today(1))
    next
      case False
      then have "occurrence_on s (toIsoDate today) (toIsoDate (?k i)) = Some (occurrence_entry s today (?k i))"
        by (simp add: occurrence_on_def toUtcDate_toIsoDate r today(1) occurrence_entry_def Let_def)
      then show ?thesis using False inside at_i IH
        by (simp add: days_in_window_step Let_def toIsoDate_less_iff r h today(1))
    qed
  qed
qed

lemma upcoming_in_window:
  assumes "sc_startDate s = toIsoDate d" and "100 \<le> utc_year d" and "in_iso_range d"
    and "in_iso_range today" and "in_iso_range (today + days + 366)" and "0 \<le> days"
    and "\<And>e. sc_endDate s = Some e \<Longrightarrow> \<exists>m. in_iso_range m \<and> e = toIsoDate m"
    and "sc_archivedAt s = None"
  shows "upcomingOccurrences s (toIsoDate today) days =
    Some (map (occurrence_entry s today) (days_in_window s d today (today + days) 0 1000))"
proof -
  have "occurrence_day (sc_cadence s) d 0 \<le> today + days + 366 \<or> 0 = (0 :: nat) \<and> d > today + days"
    by (auto simp: occurrence_day_0)
  from occurrences_from_exact [OF assms(1-5) _ assms(7) this] show ?thesis
    using assms(4,6,8) by (simp add: upcomingOccurrences_def addDays_def toUtcDate_toIsoDate maxIterations_def)
qed

text \<open>C20: The dates of an obligation are anchored to its first: a week or a fortnight apart, or in calendar
  months with the day of the first date, clamped to a short month and back again afterwards. The
  upcoming occurrences are exactly those dates, in order, from today to the horizon and not after
  the last day, among the first thousand.\<close>

theorem upcoming_is_exact:
  assumes "sc_startDate s = toIsoDate d" and "100 \<le> utc_year d" and "in_iso_range d"
    and "in_iso_range today" and "in_iso_range (today + days + 366)" and "0 \<le> days"
    and "\<And>e. sc_endDate s = Some e \<Longrightarrow> \<exists>m. in_iso_range m \<and> e = toIsoDate m"
    and "sc_archivedAt s = None"
  shows "upcomingOccurrences s (toIsoDate today) days =
    Some (map (occurrence_entry s today) (days_in_window s d today (today + days) 0 1000))"
  using upcoming_in_window [OF assms(1-7)] assms(8) by simp

definition rent_schedule :: scheduledTransaction where
  "rent_schedule = \<lparr>sc_id = ''s1'', sc_accountId = ''a1'', sc_name = ''Rent'', sc_amount = - 120000,
     sc_currency = ''USD'', sc_categorySlug = ''rent'', sc_cadence = EveryMonth, sc_startDate = ''2026-01-31'',
     sc_endDate = None, sc_reminderDays = 3, sc_archivedAt = None\<rparr>"

lemma rent_dates:
  "sc_startDate rent_schedule = toIsoDate 20484" "100 \<le> utc_year 20484" "in_iso_range 20484"
  "toIsoDate 20500 = ''2026-02-16''" "in_iso_range 20500" "in_iso_range 20930" "in_iso_range 21232"
  "20500 \<le> occurrence_day EveryMonth 20484 999"
  by code_simp+

lemma days_in_window_cut:
  assumes "horizon < occurrence_day (sc_cadence s) d i" and "i \<le> n"
  shows "days_in_window s d today horizon 0 n = days_in_window s d today horizon 0 i"
proof -
  have "[0..<n] = [0..<i] @ [i..<n]" using upt_add_eq_append [of 0 i "n - i"] assms(2) by simp
  moreover have "horizon < occurrence_day (sc_cadence s) d j" if "i \<le> j" for j
    using occurrence_day_mono [of i j "sc_cadence s" d] assms(1) that by (cases "i = j") auto
  then have "filter (\<lambda>k. today \<le> k \<and> k \<le> horizon \<and> \<not> past_end s (toIsoDate k))
      (map (occurrence_day (sc_cadence s) d) [i..<n]) = []" by (force simp: filter_empty_conv)
  ultimately show ?thesis by (simp add: days_in_window_def)
qed

lemma rent_window: "days_in_window rent_schedule 20484 20500 20564 0 1000 = [20512, 20543]"
proof -
  have "20564 < occurrence_day EveryMonth 20484 3" by code_simp
  moreover have "days_in_window rent_schedule 20484 20500 20564 0 3 = [20512, 20543]" by code_simp
  ultimately show ?thesis by (subst days_in_window_cut [of _ _ _ 3]) (simp_all add: rent_schedule_def)
qed

theorem upcoming_is_exact_witness:
  "upcomingOccurrences rent_schedule ''2026-02-16'' 64 = Some
    [\<lparr>oc_date = ''2026-02-28'', oc_due = False, oc_daysUntil = 12\<rparr>,
     \<lparr>oc_date = ''2026-03-31'', oc_due = False, oc_daysUntil = 43\<rparr>]"
proof -
  have "map (occurrence_entry rent_schedule 20500) [20512, 20543] =
      [\<lparr>oc_date = ''2026-02-28'', oc_due = False, oc_daysUntil = 12\<rparr>,
       \<lparr>oc_date = ''2026-03-31'', oc_due = False, oc_daysUntil = 43\<rparr>]" by code_simp
  then show ?thesis
    using upcoming_is_exact [of rent_schedule 20484 20500 64, OF rent_dates(1-3,5)] rent_dates(4,6) rent_window
    by (simp add: rent_schedule_def)
qed

lemma days_in_window_first:
  assumes "sc_endDate s = None" and "i < n" and "today \<le> occurrence_day (sc_cadence s) d i"
    and "occurrence_day (sc_cadence s) d i \<le> horizon" and "\<And>j. j < i \<Longrightarrow> occurrence_day (sc_cadence s) d j < today"
  shows "\<exists>ks. days_in_window s d today horizon 0 n = occurrence_day (sc_cadence s) d i # ks"
proof -
  have "[0..<n] = [0..<i] @ i # [Suc i..<n]"
    using upt_add_eq_append [of 0 i "n - i"] assms(2) by (simp add: upt_conv_Cons)
  moreover have "filter (\<lambda>k. today \<le> k \<and> k \<le> horizon) (map (occurrence_day (sc_cadence s) d) [0..<i]) = []"
    by (auto simp: filter_empty_conv not_le dest: assms(5))
  ultimately show ?thesis using assms(1,3,4) by (simp add: days_in_window_def past_end_def)
qed

text \<open>C21: An obligation without an end that has begun always has a next date while its age stays below a
  thousand periods: it is the first of its dates that is not before today, and it is at most a year
  away.\<close>

theorem next_date_exists:
  assumes "sc_startDate s = toIsoDate d" and "100 \<le> utc_year d" and "in_iso_range d"
    and "in_iso_range today" and "in_iso_range (today + 732)"
    and "sc_archivedAt s = None" and "sc_endDate s = None"
    and "d \<le> today" and "today \<le> occurrence_day (sc_cadence s) d 999"
  shows "\<exists>i. nextOccurrence s (toIsoDate today) = Some (Some (toIsoDate (occurrence_day (sc_cadence s) d i))) \<and>
    today \<le> occurrence_day (sc_cadence s) d i \<and> occurrence_day (sc_cadence s) d i \<le> today + 366 \<and>
    (i = 0 \<or> occurrence_day (sc_cadence s) d (i - 1) < today)"
proof -
  let ?k = "occurrence_day (sc_cadence s) d"
  define i where "i = (LEAST i. today \<le> ?k i)"
  have i: "today \<le> ?k i" unfolding i_def by (rule LeastI [of "\<lambda>i. today \<le> ?k i", OF assms(9)])
  have least: "?k j < today" if "j < i" for j
    using not_less_Least [of j "\<lambda>i. today \<le> ?k i"] that unfolding i_def by linarith
  have n: "i < 1000" using Least_le [of "\<lambda>i. today \<le> ?k i", OF assms(9)] by (simp add: i_def)
  have near: "?k i \<le> today + 366"
  proof (cases i)
    case 0
    then show ?thesis using assms(8) by (simp add: occurrence_day_0)
  next
    case (Suc j)
    then show ?thesis using least [of j] occurrence_day_step [of "sc_cadence s" d j] by auto
  qed
  have r: "in_iso_range (today + 366 + 366)" using assms(5) by (simp add: add.assoc)
  have up: "upcomingOccurrences s (toIsoDate today) 366 =
      Some (map (occurrence_entry s today) (days_in_window s d today (today + 366) 0 1000))"
    using assms(6,7) by (intro upcoming_in_window [OF assms(1-4) r]) simp_all
  obtain ks where "days_in_window s d today (today + 366) 0 1000 = ?k i # ks"
    using days_in_window_first [OF assms(7) n i near least] by blast
  then have "nextOccurrence s (toIsoDate today) = Some (Some (toIsoDate (?k i)))"
    using up by (simp add: nextOccurrence_def occurrence_entry_def)
  then show ?thesis using i near least [of "i - 1"] by (intro exI [of _ i]) (cases "i = 0", simp_all)
qed

theorem next_date_exists_witness:
  "\<exists>i. nextOccurrence rent_schedule ''2026-02-16'' = Some (Some (toIsoDate (occurrence_day EveryMonth 20484 i))) \<and>
    20500 \<le> occurrence_day EveryMonth 20484 i \<and> occurrence_day EveryMonth 20484 i \<le> 20866 \<and>
    (i = 0 \<or> occurrence_day EveryMonth 20484 (i - 1) < 20500)"
  using next_date_exists [of rent_schedule 20484 20500, OF rent_dates(1-3,5)] rent_dates(4,7,8)
  by (simp add: rent_schedule_def)

text \<open>Above that age nothing is left: a weekly obligation has no date after a thousand weeks.\<close>

lemma old_schedule_vanishes:
  assumes "sc_startDate s = toIsoDate d" and "100 \<le> utc_year d" and "in_iso_range d"
    and "in_iso_range today" and "in_iso_range (today + days + 366)" and "0 \<le> days"
    and "sc_archivedAt s = None" and "sc_endDate s = None" and "occurrence_day (sc_cadence s) d 999 < today"
  shows "upcomingOccurrences s (toIsoDate today) days = Some []"
proof -
  have "occurrence_day (sc_cadence s) d i < today" if "i < 1000" for i
    using occurrence_day_mono [of i 999 "sc_cadence s" d] assms(9) that by (cases "i = 999") auto
  then have "days_in_window s d today (today + days) 0 1000 = []"
    by (force simp: days_in_window_def filter_empty_conv)
  then show ?thesis using upcoming_in_window [OF assms(1-6)] assms(7,8) by simp
qed

section \<open>The service\<close>

lemma map_or_throw_Some: "map_or_throw f xs = Some ys \<longleftrightarrow> list_all2 (\<lambda>x y. f x = Some y) xs ys"
  by (induction xs arbitrary: ys) (auto simp: list_all2_Cons1 split: option.splits)

lemma map_or_throw_None: "x \<in> set xs \<Longrightarrow> f x = None \<Longrightarrow> map_or_throw f xs = None"
  by (induction xs) (auto split: option.splits)

lemma committed_sum:
  assumes "map_or_throw (entries_of names today days) schedules = Some rows"
  shows "committedOutflow schedules today days =
    Some (sum_list (map (\<lambda>e. if ue_amount e < 0 then - ue_amount e else 0) (concat rows)))"
proof -
  let ?cost = "\<lambda>e. if ue_amount e < 0 then - ue_amount e else 0"
  have one: "upcomingOccurrences s today days \<noteq> None \<and> sum_list (map ?cost r) =
      (if sc_amount s \<ge> 0 then 0 else \<bar>sc_amount s\<bar> * int (length (the (upcomingOccurrences s today days))))"
    if "entries_of names today days s = Some r" for s r
    using that by (auto simp: entries_of_def o_def sum_list_triv)
  have "foldl (\<lambda>total schedule. Option.bind total (\<lambda>t. if sc_amount schedule \<ge> 0 then Some t
      else map_option (\<lambda>upcoming. t + \<bar>sc_amount schedule\<bar> * int (length upcoming))
        (upcomingOccurrences schedule today days))) (Some t) schedules =
      Some (t + sum_list (map ?cost (concat rows)))" for t
    using assms
  proof (induction schedules arbitrary: t rows)
    case (Cons s schedules)
    then obtain r rs where "rows = r # rs" "entries_of names today days s = Some r"
      "map_or_throw (entries_of names today days) schedules = Some rs" by (auto split: option.splits)
    then show ?case using one [of s r] Cons.IH [of rs] by auto
  qed simp
  then show ?thesis by (simp add: committedOutflow_def)
qed

text \<open>The total of the upcoming view is the sum of what its entries take out, one entry for each date.\<close>

theorem upcoming_entries_add_up:
  "schedule_upcoming env accounts s u days = Inr (entries, outflow, horizon) \<Longrightarrow>
   outflow = sum_list (map (\<lambda>e. if ue_amount e < 0 then - ue_amount e else 0) entries)"
  by (auto simp: schedule_upcoming_def Let_def committed_sum sum_list_js_sort split: if_splits option.splits)

definition due_env :: ledgerEnv where
  "due_env = \<lparr>en_localeCompare = code_unit_compare, en_regex = (\<lambda>_ _. None), en_today = ''2026-02-16'',
     en_now = ''2026-02-16T09:00:00.000Z'', en_millis = 0, en_uuid = ''s2'', en_listAccounts = (\<lambda>_. []),
     en_fetch = (\<lambda>_. [])\<rparr>"

definition due_entries :: "upcomingEntry list" where
  "due_entries = map (\<lambda>k. \<lparr>ue_occurrence = occurrence_entry rent_schedule 20500 k, ue_scheduleId = ''s1'',
     ue_name = ''Rent'', ue_amount = - 120000, ue_currency = ''USD'', ue_categorySlug = ''rent'',
     ue_accountId = ''a1'', ue_accountName = ''Closed account''\<rparr>) [20512, 20543]"

theorem upcoming_entries_add_up_witness:
  "240000 = sum_list (map (\<lambda>e. if ue_amount e < 0 then - ue_amount e else 0) due_entries)"
proof (rule upcoming_entries_add_up)
  have up: "upcomingOccurrences rent_schedule ''2026-02-16'' 64 = Some (map (occurrence_entry rent_schedule 20500) [20512, 20543])"
    using upcoming_in_window [of rent_schedule 20484 20500 64, OF rent_dates(1-3,5)] rent_dates(4,6) rent_window
    by (simp add: rent_schedule_def)
  have rows: "sched_list code_unit_compare [(''u1'', [rent_schedule])] ''u1'' False = [rent_schedule]"
    and names: "account_names \<lparr>as_accounts = [], as_snapshots = []\<rparr> ''u1'' = []" by code_simp+
  have fields: "en_localeCompare due_env = code_unit_compare" "en_today due_env = ''2026-02-16''"
    "sc_id rent_schedule = ''s1''" "sc_accountId rent_schedule = ''a1''" "sc_name rent_schedule = ''Rent''"
    "sc_amount rent_schedule = - 120000" "sc_currency rent_schedule = ''USD''"
    "sc_categorySlug rent_schedule = ''rent''" by (simp_all add: due_env_def rent_schedule_def)
  have "code_unit_compare ''2026-02-28'' ''2026-03-31'' = - 1" "toIsoDate 20512 = ''2026-02-28''"
    "toIsoDate 20543 = ''2026-03-31''" "isSafeInteger (Num 64)" "int_of_num (Num 64) = 64" by code_simp+
  then show "schedule_upcoming due_env \<lparr>as_accounts = [], as_snapshots = []\<rparr> [(''u1'', [rent_schedule])] ''u1'' (Num 64) =
      Inr (due_entries, 240000, 64)"
    using up rows names fields by (simp add: schedule_upcoming_def entries_of_def committedOutflow_def
      due_entries_def cmp_or_def MAX_HORIZON_DAYS_def occurrence_entry_def Let_def)
qed

text \<open>One schedule whose start names no month makes the list of the user fail as a whole. The row is stored
  before the failure is noticed.\<close>

lemma maxIterations_Suc: "maxIterations = Suc 999"
  by (simp add: maxIterations_def)

lemma broken_start_blocks_list:
  assumes "r \<in> set (bucket s u)" and "sc_archivedAt r = None" and "toUtcDate (sc_startDate r) = None"
    and "\<not> past_end r (sc_startDate r)" and "en_today env \<le> sc_startDate r"
    and "addDays (en_today env) 366 = Some horizon" and "sc_startDate r \<le> horizon"
  shows "schedule_list env accounts s u archived = Inl BrokenSchedule"
proof -
  have "upcomingOccurrences r (en_today env) 366 = None"
    using assms(2-4,6) leD [OF assms(5)] leD [OF assms(7)] by (simp only: upcomingOccurrences_def maxIterations_Suc occurrences_from.simps)
      (auto simp: occurrenceAt_def occurrence_on_def dest: leD)
  then have "scheduleView_of (en_today env) name r = None" for name
    by (simp add: scheduleView_of_def nextOccurrence_def)
  moreover have "r \<in> set (sched_list (en_localeCompare env) s u archived)"
    using assms(1,2) by (simp add: sched_list_def)
  ultimately show ?thesis
    unfolding schedule_list_def Let_def by (subst map_or_throw_None [of r]) simp_all
qed

lemma broken_start_is_accepted:
  "validateSchedule \<lparr>si_accountId = Some ''a1'', si_name = Some ''Rent'', si_amount = Some (Num 1), si_categorySlug = None,
     si_cadence = Some ''monthly'', si_startDate = Some ''2026-13-01'', si_endDate = None, si_reminderDays = None\<rparr> = [] \<and>
   toUtcDate ''2026-13-01'' = None"
  by code_simp

end
