(* ===== verification/FxRates.thy ===== *)
theory FxRates
  imports LedgerService
begin

text \<open>
  Exchange rates: the choice of a rate, the conversion and the combined total
  (\<open>domain/fx/rates.ts\<close>), the store (\<open>InMemoryFxRateStore\<close>) and the service
  (\<open>modules/fx/fx.service.ts\<close>). A rate is a binary64 number, so products and quotients round with
  \<open>fl\<close>; amounts are whole minor units.
\<close>

section \<open>Rates\<close>

datatype rateSource = ManualRate | ProviderRate | StatementRate

definition RATE_SOURCES :: "(string \<times> rateSource) list" where
  "RATE_SOURCES = [(''manual'', ManualRate), (''provider'', ProviderRate), (''statement'', StatementRate)]"

record fxRate =
  fx_id :: string
  fx_base :: string
  fx_quote :: string
  fx_rate :: rat
  fx_asOf :: string
  fx_source :: rateSource
  fx_note :: "string option"
  fx_createdAt :: string

record recordRateInput =
  ri_base :: "string option"
  ri_quote :: "string option"
  ri_rate :: "num option"
  ri_asOf :: "string option"
  ri_source :: "string option"
  ri_note :: "string option"

definition is_currency :: "string \<Rightarrow> bool" where
  "is_currency s \<longleftrightarrow> length s = 3 \<and> list_all is_alpha s"

definition validateRate :: "recordRateInput \<Rightarrow> string list" where
  "validateRate input =
     (if \<not> truthy (ri_base input) \<or> \<not> is_currency (the (ri_base input))
      then [''base must be a three-letter currency code.''] else []) @
     (if \<not> truthy (ri_quote input) \<or> \<not> is_currency (the (ri_quote input))
      then [''quote must be a three-letter currency code.''] else []) @
     (if truthy (ri_base input) \<and> truthy (ri_quote input) \<and>
        toUpperCase (the (ri_base input)) = toUpperCase (the (ri_quote input))
      then [''base and quote must differ.''] else []) @
     (case ri_rate input of
        Some r \<Rightarrow> if \<not> isFinite r \<or> num_le r 0 then [''rate must be a positive number.''] else []
      | None \<Rightarrow> [''rate must be a positive number.'']) @
     (if \<not> truthy (ri_asOf input) \<or> \<not> is_iso_date (the (ri_asOf input))
      then [''asOf must be a calendar date (YYYY-MM-DD).''] else []) @
     (if \<not> truthy (ri_source input) \<or> the (ri_source input) \<notin> set (map fst RATE_SOURCES)
      then [''source must be one of: '' @ join '', '' (map fst RATE_SOURCES) @ ''.''] else [])"

section \<open>Choosing a rate\<close>

definition newer_rate :: "fxRate option \<Rightarrow> fxRate \<Rightarrow> fxRate option" where
  "newer_rate best candidate =
     (case best of None \<Rightarrow> Some candidate
      | Some b \<Rightarrow> if fx_asOf candidate > fx_asOf b then Some candidate else best)"

definition rate_step :: "string \<Rightarrow> string \<Rightarrow> string \<Rightarrow> fxRate option \<times> fxRate option \<Rightarrow> fxRate
    \<Rightarrow> fxRate option \<times> fxRate option" where
  "rate_step src dst asOf best candidate =
     (if fx_asOf candidate > asOf then best
      else let candidateBase = toUpperCase (fx_base candidate); candidateQuote = toUpperCase (fx_quote candidate)
        in if candidateBase = src \<and> candidateQuote = dst then (newer_rate (fst best) candidate, snd best)
           else if candidateBase = dst \<and> candidateQuote = src then (fst best, newer_rate (snd best) candidate)
           else best)"

text \<open>The rate, the row it comes from, and whether it was inverted.\<close>

definition findRate :: "fxRate list \<Rightarrow> string \<Rightarrow> string \<Rightarrow> string \<Rightarrow> (rat \<times> fxRate \<times> bool) option" where
  "findRate rates base quote asOf =
     (let src = toUpperCase base; dst = toUpperCase quote
      in if src = dst then None
         else case foldl (rate_step src dst asOf) (None, None) rates of
             (Some direct, _) \<Rightarrow> Some (fx_rate direct, direct, False)
           | (None, Some flipped) \<Rightarrow> Some (fl (1 / fx_rate flipped), flipped, True)
           | (None, None) \<Rightarrow> None)"

section \<open>Conversion\<close>

text \<open>\<open>cv_staleDays\<close> is None for NaN: a date that names no day.\<close>

record conversion =
  cv_amount :: int
  cv_rate :: rat
  cv_rateAsOf :: string
  cv_source :: rateSource
  cv_inverted :: bool
  cv_stale :: bool
  cv_staleDays :: "int option"

definition STALE_AFTER_DAYS :: int where "STALE_AFTER_DAYS = 7"

definition stale_days :: "string \<Rightarrow> string \<Rightarrow> int option" where
  "stale_days asOf rateAsOf = (case (toUtcDate asOf, toUtcDate rateAsOf) of
     (Some a, Some b) \<Rightarrow> Some (max 0 (a - b)) | _ \<Rightarrow> None)"

text \<open>None is the thrown \<open>NoRateAvailableError\<close>.\<close>

definition convert :: "int \<Rightarrow> string \<Rightarrow> string \<Rightarrow> string \<Rightarrow> fxRate list \<Rightarrow> conversion option" where
  "convert amountMinor base quote asOf rates =
     (let src = toUpperCase base; dst = toUpperCase quote
      in if src = dst
         then Some \<lparr>cv_amount = amountMinor, cv_rate = 1, cv_rateAsOf = asOf, cv_source = ManualRate,
           cv_inverted = False, cv_stale = False, cv_staleDays = Some 0\<rparr>
         else case findRate rates src dst asOf of
             None \<Rightarrow> None
           | Some (rate, used, inverted) \<Rightarrow>
               let staleDays = stale_days asOf (fx_asOf used)
               in Some \<lparr>cv_amount = js_round (fl (of_int amountMinor * rate)), cv_rate = rate,
                    cv_rateAsOf = fx_asOf used, cv_source = fx_source used, cv_inverted = inverted,
                    cv_stale = (case staleDays of None \<Rightarrow> False | Some d \<Rightarrow> d > STALE_AFTER_DAYS),
                    cv_staleDays = staleDays\<rparr>)"

section \<open>Combining totals\<close>

type_synonym currencyTotal = "string \<times> int"

record usedRate =
  ur_base :: string
  ur_quote :: string
  ur_rate :: rat
  ur_asOf :: string
  ur_source :: rateSource
  ur_stale :: bool

record combinedTotal =
  ct_currency :: string
  ct_amount :: int
  ct_ratesUsed :: "usedRate list"
  ct_missing :: "string list"
  ct_incomplete :: bool

definition add_total :: "string \<Rightarrow> string \<Rightarrow> fxRate list \<Rightarrow> int \<times> usedRate list \<times> string list \<Rightarrow> currencyTotal
    \<Rightarrow> int \<times> usedRate list \<times> string list" where
  "add_total dst asOf rates acc entry =
     (case acc of (amount, used, missing) \<Rightarrow>
        let src = toUpperCase (fst entry)
        in if src = dst then (amount + snd entry, used, missing)
           else case convert (snd entry) src dst asOf rates of
               None \<Rightarrow> (amount, used, missing @ [src])
             | Some c \<Rightarrow> (amount + cv_amount c,
                 used @ [\<lparr>ur_base = src, ur_quote = dst, ur_rate = cv_rate c, ur_asOf = cv_rateAsOf c,
                   ur_source = cv_source c, ur_stale = cv_stale c\<rparr>], missing))"

definition combineTotals :: "currencyTotal list \<Rightarrow> string \<Rightarrow> string \<Rightarrow> fxRate list \<Rightarrow> combinedTotal" where
  "combineTotals totals target asOf rates =
     (let dst = toUpperCase target
      in case foldl (add_total dst asOf rates) (0, [], []) totals of (amount, used, missing) \<Rightarrow>
           \<lparr>ct_currency = dst, ct_amount = amount, ct_ratesUsed = used, ct_missing = missing,
            ct_incomplete = (missing \<noteq> [])\<rparr>)"

section \<open>The store\<close>

definition fx_list :: "(string \<Rightarrow> string \<Rightarrow> int) \<Rightarrow> fxRate buckets \<Rightarrow> string \<Rightarrow> fxRate list" where
  "fx_list lc s u = js_sort (cmp_or (\<lambda>a b. lc (fx_asOf b) (fx_asOf a)) (\<lambda>a b. lc (fx_base a) (fx_base b))) (bucket s u)"

definition same_day_pair :: "fxRate \<Rightarrow> fxRate \<Rightarrow> bool" where
  "same_day_pair rate r \<longleftrightarrow> toUpperCase (fx_base r) = toUpperCase (fx_base rate) \<and>
     toUpperCase (fx_quote r) = toUpperCase (fx_quote rate) \<and> fx_asOf r = fx_asOf rate"

definition fx_upsert :: "fxRate buckets \<Rightarrow> string \<Rightarrow> fxRate \<Rightarrow> fxRate \<times> fxRate buckets" where
  "fx_upsert s u rate =
     (let stored = rate\<lparr>fx_base := toUpperCase (fx_base rate), fx_quote := toUpperCase (fx_quote rate)\<rparr>
      in case find (same_day_pair rate) (bucket s u) of
          Some existing \<Rightarrow> (stored\<lparr>fx_id := fx_id existing\<rparr>,
            map_set u (update_first (same_day_pair rate) (\<lambda>r. stored\<lparr>fx_id := fx_id r\<rparr>) (bucket s u)) s)
        | None \<Rightarrow> (stored, map_set u (bucket s u @ [stored]) s))"

definition fx_remove :: "fxRate buckets \<Rightarrow> string \<Rightarrow> string \<Rightarrow> bool \<times> fxRate buckets" where
  "fx_remove s u i = drop_row fx_id s u i"

section \<open>The service\<close>

datatype fx_error = RateRejected "string list" | FutureRate | NoSuchRate | BadCurrency

definition newRate :: "ledgerEnv \<Rightarrow> recordRateInput \<Rightarrow> rateSource \<Rightarrow> fxRate" where
  "newRate env input source =
     \<lparr>fx_id = en_uuid env, fx_base = toUpperCase (the (ri_base input)), fx_quote = toUpperCase (the (ri_quote input)),
      fx_rate = (case the (ri_rate input) of Num q \<Rightarrow> q | _ \<Rightarrow> 0), fx_asOf = the (ri_asOf input), fx_source = source,
      fx_note = (case ri_note input of None \<Rightarrow> None | Some n \<Rightarrow> if trim n = [] then None else Some (trim n)),
      fx_createdAt = en_now env\<rparr>"

definition fx_record :: "ledgerEnv \<Rightarrow> fxRate buckets \<Rightarrow> string \<Rightarrow> recordRateInput
    \<Rightarrow> (fx_error + fxRate) \<times> fxRate buckets" where
  "fx_record env s u input =
     (let source = (case ri_source input of None \<Rightarrow> ''manual'' | Some x \<Rightarrow> x);
          problems = validateRate (input\<lparr>ri_source := Some source\<rparr>)
      in if problems \<noteq> [] then (Inl (RateRejected problems), s)
         else if the (ri_asOf input) > en_today env then (Inl FutureRate, s)
         else case fx_upsert s u (newRate env input (the (map_of RATE_SOURCES source))) of
             (stored, s') \<Rightarrow> (Inr stored, s'))"

definition fx_removeRate :: "fxRate buckets \<Rightarrow> string \<Rightarrow> string \<Rightarrow> (fx_error + unit) \<times> fxRate buckets" where
  "fx_removeRate s u i = (case fx_remove s u i of (ok, s') \<Rightarrow> (if ok then Inr () else Inl NoSuchRate, s'))"

definition add_balance :: "(string, int) jsmap \<Rightarrow> account \<Rightarrow> (string, int) jsmap" where
  "add_balance totals a = (let currency = toUpperCase (ac_currency a)
     in map_set currency (get_or totals currency 0 + ac_balanceCurrent a) totals)"

definition fx_netWorth :: "ledgerEnv \<Rightarrow> accountState \<Rightarrow> fxRate buckets \<Rightarrow> string \<Rightarrow> string \<Rightarrow> string option
    \<Rightarrow> fx_error + combinedTotal \<times> string \<times> currencyTotal list" where
  "fx_netWorth env accounts s u target asOf =
     (if \<not> is_currency target then Inl BadCurrency
      else let date = (case asOf of None \<Rightarrow> en_today env | Some d \<Rightarrow> d);
               totals = foldl add_balance [] (acc_list accounts u)
        in Inr (combineTotals totals target date (fx_list (en_localeCompare env) s u), date, totals))"

end
