(* ===== verification/FxSafety.thy ===== *)
theory FxSafety
  imports FxRates Money
begin

text \<open>
  What a converted figure can be trusted for: the rate is the newest recorded on or before the day,
  every currency is counted or named as missing, and a rate of a later day changes nothing.
\<close>

section \<open>The choice of a rate\<close>

definition quotes :: "string \<Rightarrow> string \<Rightarrow> string \<Rightarrow> fxRate \<Rightarrow> bool" where
  "quotes src dst asOf r \<longleftrightarrow> fx_asOf r \<le> asOf \<and> toUpperCase (fx_base r) = src \<and> toUpperCase (fx_quote r) = dst"

definition newest :: "fxRate list \<Rightarrow> fxRate option" where
  "newest rates = foldl newer_rate None rates"

lemma newest_snoc: "newest (rates @ [r]) = newer_rate (newest rates) r"
  by (simp add: newest_def)

lemma newest_Nil [simp]: "newest [] = None"
  by (simp add: newest_def)

lemma newest_None [simp]: "newest rates = None \<longleftrightarrow> rates = []"
  by (induction rates rule: rev_induct)
    (auto simp: newest_snoc newer_rate_def split: option.splits)

lemma newest_Some:
  "newest rates = Some r \<Longrightarrow> r \<in> set rates \<and> (\<forall>x \<in> set rates. fx_asOf x \<le> fx_asOf r)"
proof (induction rates arbitrary: r rule: rev_induct)
  case (snoc x rates)
  show ?case
  proof (cases "newest rates")
    case (Some b)
    then show ?thesis using snoc
      by (auto simp: newest_snoc newer_rate_def split: if_splits)
  next
    case None
    then have "rates = []" by simp
    with snoc.prems newest_snoc [of "[]" x] show ?thesis by (simp add: newer_rate_def)
  qed
qed simp

lemma rate_steps:
  assumes "src \<noteq> dst"
  shows "foldl (rate_step src dst asOf) (None, None) rates =
    (newest (filter (quotes src dst asOf) rates), newest (filter (quotes dst src asOf) rates))"
proof (induction rates rule: rev_induct)
  case (snoc r rates)
  then show ?case using assms
    by (auto simp: newest_snoc rate_step_def quotes_def Let_def)
qed (simp add: newest_def)

lemma findRate_newest:
  "findRate rates base quote asOf =
     (if toUpperCase base = toUpperCase quote then None
      else case (newest (filter (quotes (toUpperCase base) (toUpperCase quote) asOf) rates),
          newest (filter (quotes (toUpperCase quote) (toUpperCase base) asOf) rates)) of
          (Some direct, _) \<Rightarrow> Some (fx_rate direct, direct, False)
        | (None, Some flipped) \<Rightarrow> Some (fl (1 / fx_rate flipped), flipped, True)
        | (None, None) \<Rightarrow> None)"
  by (simp add: findRate_def Let_def rate_steps)

text \<open>The rate used is the newest one recorded for the pair on or before the day, and only when there is
  none for the pair the newest one of the reverse pair, inverted. No rate of a later day is ever used.\<close>

theorem newest_past_rate_is_used:
  "findRate rates base quote asOf = Some (rate, used, inverted) \<Longrightarrow>
   (let src = toUpperCase base; dst = toUpperCase quote;
        own = filter (quotes src dst asOf) rates; reverse = filter (quotes dst src asOf) rates
    in used \<in> set (if inverted then reverse else own) \<and> (inverted \<longrightarrow> own = []) \<and>
       (\<forall>r \<in> set (if inverted then reverse else own). fx_asOf r \<le> fx_asOf used) \<and>
       rate = (if inverted then fl (1 / fx_rate used) else fx_rate used))"
  by (auto simp: findRate_newest Let_def dest: newest_Some split: if_splits option.splits)

section \<open>Conversion\<close>

lemma conversion_near_product:
  assumes "toUpperCase base \<noteq> toUpperCase quote"
    and "findRate rates (toUpperCase base) (toUpperCase quote) asOf = Some (rate, used, inverted)"
    and "convert amount base quote asOf rates = Some c"
    and "exact = of_int amount * (if inverted then 1 / fx_rate used else fx_rate used)"
  shows "\<bar>of_int (cv_amount c) - exact\<bar> \<le> 1 / 2 + 3 * \<bar>exact\<bar> / 2 ^ 53"
proof -
  have c: "cv_amount c = js_round (fl (of_int amount * rate))"
    using assms(1-3) by (auto simp: convert_def Let_def)
  have r: "rate = (if inverted then fl (1 / fx_rate used) else fx_rate used)"
    using assms(2) by (auto simp: findRate_newest split: if_splits option.splits)
  define factor where "factor = (if inverted then 1 / fx_rate used else fx_rate used)"
  define p where "p = of_int amount * rate"
  have "\<bar>rate - factor\<bar> \<le> \<bar>factor\<bar> / 2 ^ 53"
    using fl_error [of "1 / fx_rate used"] by (simp add: r factor_def)
  then have "\<bar>of_int amount\<bar> * \<bar>rate - factor\<bar> \<le> \<bar>of_int amount\<bar> * (\<bar>factor\<bar> / 2 ^ 53)"
    by (rule mult_left_mono) simp
  then have near: "\<bar>p - exact\<bar> \<le> \<bar>exact\<bar> / 2 ^ 53"
    by (simp add: p_def assms(4) factor_def [symmetric] right_diff_distrib abs_mult flip: abs_mult)
  moreover have "\<bar>fl p - p\<bar> \<le> \<bar>p\<bar> / 2 ^ 53" by (rule fl_error)
  moreover have "\<bar>of_int (cv_amount c) - fl p\<bar> \<le> 1 / 2" using js_round_error [of "fl p"] by (simp add: c p_def)
  moreover have "\<bar>p\<bar> \<le> 2 * \<bar>exact\<bar>"
  proof -
    have "\<bar>exact\<bar> / 2 ^ 53 \<le> \<bar>exact\<bar>" by simp
    with near abs_triangle_ineq2 [of p exact] show ?thesis by linarith
  qed
  moreover have "\<bar>of_int (cv_amount c) - exact\<bar> \<le> \<bar>of_int (cv_amount c) - fl p\<bar> + \<bar>fl p - p\<bar> + \<bar>p - exact\<bar>"
    using abs_triangle_ineq [of "of_int (cv_amount c) - fl p" "fl p - p"]
      abs_triangle_ineq [of "of_int (cv_amount c) - p" "p - exact"] by simp
  ultimately show ?thesis by (simp add: field_simps)
qed

text \<open>
  What a conversion should give: the rate is the price of one unit of the base in units of the quote, and the result is
  in minor units of the quote.
\<close>

definition exact_conversion :: "int \<Rightarrow> string \<Rightarrow> string \<Rightarrow> rat \<Rightarrow> rat" where
  "exact_conversion amount base quote rate = of_int amount / 10 ^ exponentOf base * rate * 10 ^ exponentOf quote"

text \<open>C22: Between currencies whose minor units are the same fraction of a unit, a converted amount is a whole number of
  minor units within a half of the exact conversion at the recorded rate (its inverse, for an inverted one), up to the
  three roundings of binary64. Between others it is off by the power of ten between them
  (\<open>conversion_is_off_by_the_exponents\<close>).\<close>

theorem conversion_is_near:
  assumes "exponentOf base = exponentOf quote" and "toUpperCase base \<noteq> toUpperCase quote"
    and "findRate rates (toUpperCase base) (toUpperCase quote) asOf = Some (rate, used, inverted)"
    and "convert amount base quote asOf rates = Some c"
    and "exact = exact_conversion amount base quote (if inverted then 1 / fx_rate used else fx_rate used)"
  shows "\<bar>of_int (cv_amount c) - exact\<bar> \<le> 1 / 2 + 3 * \<bar>exact\<bar> / 2 ^ 53"
proof (rule conversion_near_product [OF assms(2-4)])
  show "exact = of_int amount * (if inverted then 1 / fx_rate used else fx_rate used)"
    using assms(1,5) by (simp add: exact_conversion_def)
qed

section \<open>Combining totals\<close>

definition worth :: "string \<Rightarrow> string \<Rightarrow> fxRate list \<Rightarrow> currencyTotal \<Rightarrow> int" where
  "worth target asOf rates entry = (case convert (snd entry) (fst entry) target asOf rates of
     None \<Rightarrow> 0 | Some c \<Rightarrow> cv_amount c)"

lemma char_upper_idem: "concat (map char_upper (char_upper c)) = char_upper c"
  by (auto simp: char_upper_def is_lower_def in_range_def code_def)

lemma toUpperCase_idem [simp]: "toUpperCase (toUpperCase s) = toUpperCase s"
  by (induction s) (simp_all add: toUpperCase_def char_upper_idem)

lemma convert_upper: "convert a (toUpperCase base) (toUpperCase quote) asOf rates = convert a base quote asOf rates"
  by (simp add: convert_def Let_def)

lemma findRate_upper [simp]: "findRate rates (toUpperCase base) (toUpperCase quote) asOf = findRate rates base quote asOf"
  by (simp add: findRate_def Let_def)

lemma convert_None: "convert a base quote asOf rates = None \<longleftrightarrow>
    toUpperCase base \<noteq> toUpperCase quote \<and> findRate rates base quote asOf = None"
  by (auto simp: convert_def Let_def split: option.splits)

lemma convert_same: "toUpperCase base = toUpperCase quote \<Longrightarrow> \<exists>c. convert a base quote asOf rates = Some c \<and> cv_amount c = a"
  by (simp add: convert_def)

definition relied_on :: "string \<Rightarrow> string \<Rightarrow> fxRate list \<Rightarrow> currencyTotal \<Rightarrow> usedRate list" where
  "relied_on target asOf rates entry =
     (if toUpperCase (fst entry) = toUpperCase target then []
      else case convert (snd entry) (fst entry) target asOf rates of
          None \<Rightarrow> []
        | Some c \<Rightarrow> [\<lparr>ur_base = toUpperCase (fst entry), ur_quote = toUpperCase target, ur_rate = cv_rate c,
            ur_asOf = cv_rateAsOf c, ur_source = cv_source c, ur_stale = cv_stale c\<rparr>])"

definition unconvertible :: "string \<Rightarrow> string \<Rightarrow> fxRate list \<Rightarrow> currencyTotal \<Rightarrow> bool" where
  "unconvertible target asOf rates entry \<longleftrightarrow>
     toUpperCase (fst entry) \<noteq> toUpperCase target \<and> findRate rates (fst entry) target asOf = None"

lemma add_total_eq:
  "add_total (toUpperCase target) asOf rates (amount, used, missing) entry =
     (amount + worth target asOf rates entry, used @ relied_on target asOf rates entry,
      missing @ (if unconvertible target asOf rates entry then [toUpperCase (fst entry)] else []))"
  using convert_same [of "fst entry" target "snd entry" asOf rates]
    convert_None [of "snd entry" "fst entry" target asOf rates]
  by (auto simp: add_total_def Let_def worth_def relied_on_def unconvertible_def convert_upper
    split: option.splits)

lemma add_totals:
  "foldl (add_total (toUpperCase target) asOf rates) (amount, used, missing) totals =
     (amount + sum_list (map (worth target asOf rates) totals), used @ concat (map (relied_on target asOf rates) totals),
      missing @ map (\<lambda>t. toUpperCase (fst t)) (filter (unconvertible target asOf rates) totals))"
  by (induction totals arbitrary: amount used missing) (simp_all add: add_total_eq)

lemma combineTotals_eq:
  "combineTotals totals target asOf rates =
    \<lparr>ct_currency = toUpperCase target, ct_amount = sum_list (map (worth target asOf rates) totals),
     ct_ratesUsed = concat (map (relied_on target asOf rates) totals),
     ct_missing = map (\<lambda>t. toUpperCase (fst t)) (filter (unconvertible target asOf rates) totals),
     ct_incomplete = list_ex (unconvertible target asOf rates) totals\<rparr>"
  by (auto simp: combineTotals_def Let_def add_totals filter_empty_conv list_ex_iff)

text \<open>The combined figure leaves nothing out silently: it is the sum of every convertible entry, each
  foreign one with the rate it relied on, and the currencies without a rate are named, all of them and
  no others.\<close>

theorem nothing_left_out:
  "combineTotals totals target asOf rates =
    \<lparr>ct_currency = toUpperCase target, ct_amount = sum_list (map (worth target asOf rates) totals),
     ct_ratesUsed = concat (map (relied_on target asOf rates) totals),
     ct_missing = map (\<lambda>t. toUpperCase (fst t)) (filter (unconvertible target asOf rates) totals),
     ct_incomplete = list_ex (unconvertible target asOf rates) totals\<rparr>"
  by (rule combineTotals_eq)

section \<open>History stands still\<close>

definition day_pair :: "fxRate \<Rightarrow> string \<times> string \<times> string" where
  "day_pair r = (toUpperCase (fx_base r), toUpperCase (fx_quote r), fx_asOf r)"

definition one_per_day :: "fxRate buckets \<Rightarrow> bool" where
  "one_per_day s \<longleftrightarrow> (\<forall>u. distinct (map day_pair (bucket s u)))"

lemma newest_unique:
  assumes "distinct (map day_pair rates)" and "r \<in> set (filter (quotes a b d) rates)"
    and "\<And>x. x \<in> set (filter (quotes a b d) rates) \<Longrightarrow> fx_asOf x \<le> fx_asOf r"
  shows "newest (filter (quotes a b d) rates) = Some r"
proof -
  obtain q where q: "newest (filter (quotes a b d) rates) = Some q"
    using assms(2) by (cases "newest (filter (quotes a b d) rates)") (auto simp: filter_empty_conv)
  from newest_Some [OF this] assms(2,3) have "q \<in> set rates" "day_pair q = day_pair r"
    by (auto simp: quotes_def day_pair_def intro: antisym)
  with assms(1,2) q show ?thesis by (auto simp: distinct_map inj_on_def)
qed

lemma newest_same_set:
  assumes "distinct (map day_pair xs)" and "distinct (map day_pair ys)"
    and "set (filter (quotes a b d) xs) = set (filter (quotes a b d) ys)"
  shows "newest (filter (quotes a b d) xs) = newest (filter (quotes a b d) ys)"
proof (cases "newest (filter (quotes a b d) ys)")
  case None
  then have "set (filter (quotes a b d) xs) = {}" using assms(3) by simp
  with None show ?thesis by (metis newest_None set_empty)
next
  case (Some r)
  with newest_Some [OF Some] assms(3) show ?thesis using newest_unique [OF assms(1)] by metis
qed

lemma findRate_same_past:
  assumes "distinct (map day_pair xs)" and "distinct (map day_pair ys)"
    and "\<And>r. fx_asOf r \<le> d \<Longrightarrow> r \<in> set xs \<longleftrightarrow> r \<in> set ys"
  shows "findRate xs base quote d = findRate ys base quote d"
proof -
  have "newest (filter (quotes a b d) xs) = newest (filter (quotes a b d) ys)" for a b
    using assms by (intro newest_same_set) (auto simp: quotes_def)
  then show ?thesis by (simp add: findRate_newest)
qed

lemma combineTotals_same_past:
  assumes "\<And>base quote. findRate xs base quote d = findRate ys base quote d"
  shows "combineTotals totals target d xs = combineTotals totals target d ys"
proof -
  have c: "convert a base quote d xs = convert a base quote d ys" for a base quote
    by (simp add: convert_def Let_def assms)
  have "worth target d xs = worth target d ys" "relied_on target d xs = relied_on target d ys"
    "unconvertible target d xs = unconvertible target d ys"
    by (simp_all add: fun_eq_iff worth_def relied_on_def unconvertible_def assms c)
  then show ?thesis by (simp add: combineTotals_eq)
qed

inductive fx_reachable :: "fxRate buckets \<Rightarrow> bool" where
  empty: "fx_reachable []"
| recorded: "fx_reachable s \<Longrightarrow> fx_reachable (snd (fx_record env s u input))"
| removed: "fx_reachable s \<Longrightarrow> fx_reachable (snd (fx_removeRate s u i))"

lemma mem_update_first_frame:
  "(\<And>y. P y \<Longrightarrow> \<not> Q y \<and> \<not> Q (f y)) \<Longrightarrow> Q x \<Longrightarrow> x \<in> set (update_first P f xs) \<longleftrightarrow> x \<in> set xs"
  by (induction xs) auto

lemma same_day_pair_iff: "same_day_pair rate r \<longleftrightarrow> day_pair r = day_pair rate"
  by (auto simp: same_day_pair_def day_pair_def)

definition stored_rate :: "fxRate \<Rightarrow> fxRate" where
  "stored_rate rate = rate\<lparr>fx_base := toUpperCase (fx_base rate), fx_quote := toUpperCase (fx_quote rate)\<rparr>"

lemma day_pair_stored [simp]: "day_pair ((stored_rate r)\<lparr>fx_id := i\<rparr>) = day_pair r" "day_pair (stored_rate r) = day_pair r"
  by (simp_all add: day_pair_def stored_rate_def)

text \<open>A recorded rate replaces the one of its pair and day; the other rows stay.\<close>

lemma fx_upsert_rows:
  "fx_upsert s u rate = (r, s') \<Longrightarrow> one_per_day s \<Longrightarrow>
   one_per_day s' \<and> day_pair r = day_pair rate \<and>
   (\<forall>x. fx_asOf x \<noteq> fx_asOf rate \<longrightarrow> (x \<in> set (bucket s' v) \<longleftrightarrow> x \<in> set (bucket s v)))"
proof -
  assume up: "fx_upsert s u rate = (r, s')" and inv: "one_per_day s"
  let ?rows = "bucket s u" and ?P = "same_day_pair rate"
  have d: "distinct (map day_pair ?rows)" using inv by (simp add: one_per_day_def)
  have asOf: "day_pair x = day_pair rate \<Longrightarrow> fx_asOf x = fx_asOf rate" for x by (simp add: day_pair_def)
  show ?thesis
  proof (cases "find ?P ?rows")
    case None
    then have "\<forall>x \<in> set ?rows. day_pair x \<noteq> day_pair rate" by (auto simp: find_None_iff same_day_pair_iff)
    moreover from up None have "r = stored_rate rate" "s' = map_set u (?rows @ [stored_rate rate]) s"
      by (auto simp: fx_upsert_def Let_def stored_rate_def)
    moreover have "fx_asOf (stored_rate rate) = fx_asOf rate" by (simp add: stored_rate_def)
    ultimately show ?thesis using inv d by (auto simp: one_per_day_def)
  next
    case (Some e)
    have dp: "map day_pair (update_first ?P (\<lambda>r. (stored_rate rate)\<lparr>fx_id := fx_id r\<rparr>) ?rows) = map day_pair ?rows"
      by (rule map_update_first_frame) (simp add: same_day_pair_iff)
    have "x \<in> set (update_first ?P (\<lambda>r. (stored_rate rate)\<lparr>fx_id := fx_id r\<rparr>) ?rows) \<longleftrightarrow> x \<in> set ?rows"
      if "fx_asOf x \<noteq> fx_asOf rate" for x
      by (rule mem_update_first_frame [of _ "\<lambda>x. fx_asOf x \<noteq> fx_asOf rate", OF _ that])
        (auto simp: same_day_pair_iff stored_rate_def dest: asOf)
    with up Some inv dp d show ?thesis
      by (auto simp: fx_upsert_def Let_def stored_rate_def [symmetric] one_per_day_def split: if_splits)
  qed
qed

lemma fx_reachable_inv: "fx_reachable s \<Longrightarrow> one_per_day s"
proof (induction rule: fx_reachable.induct)
  case empty
  then show ?case by (simp add: one_per_day_def)
next
  case (recorded s env u input)
  then show ?case using fx_upsert_rows [of s u]
    by (auto simp: fx_record_def Let_def split: prod.splits)
next
  case (removed s u i)
  then show ?case
    by (auto simp: fx_removeRate_def fx_remove_def drop_row_def one_per_day_def Let_def distinct_remove_first
      split: prod.splits)
qed

text \<open>A rate recorded for a later day, also as a correction of one already there, leaves every total of an
  earlier day as it was: yesterday's figure does not change overnight.\<close>

theorem later_rate_keeps_history:
  assumes "fx_reachable s" and "fx_record env s u input = (Inr rate, s')" and "day < fx_asOf rate"
  shows "fx_netWorth env accounts s' v target (Some day) = fx_netWorth env accounts s v target (Some day)"
proof -
  have inv: "one_per_day s" by (rule fx_reachable_inv [OF assms(1)])
  obtain new where up: "fx_upsert s u new = (rate, s')" and new: "fx_asOf new = fx_asOf rate"
    using assms(2) fx_upsert_rows [OF _ inv, of u]
    by (auto simp: fx_record_def Let_def day_pair_def split: if_splits prod.splits)
  note rows = fx_upsert_rows [OF up inv, of v]
  have "combineTotals totals target day (fx_list lc s' v) = combineTotals totals target day (fx_list lc s v)" for totals lc
    using rows inv assms(3) new
    by (intro combineTotals_same_past findRate_same_past) (auto simp: fx_list_def one_per_day_def distinct_map_js_sort)
  then show ?thesis by (simp add: fx_netWorth_def Let_def)
qed

section \<open>Examples\<close>

definition euro_rate :: "string \<Rightarrow> rat \<Rightarrow> fxRate" where
  "euro_rate day r = \<lparr>fx_id = day, fx_base = ''EUR'', fx_quote = ''USD'', fx_rate = r, fx_asOf = day,
     fx_source = ManualRate, fx_note = None, fx_createdAt = day\<rparr>"

definition euro_rates :: "fxRate list" where
  "euro_rates = [euro_rate ''2026-03-01'' (5/4), euro_rate ''2026-03-09'' (3/2), euro_rate ''2026-04-01'' 2]"

theorem newest_past_rate_is_used_witness:
  "let used = euro_rate ''2026-03-09'' (3/2)
   in findRate euro_rates ''eur'' ''usd'' ''2026-03-10'' = Some (3/2, used, False) \<and>
      used \<in> set (filter (quotes ''EUR'' ''USD'' ''2026-03-10'') euro_rates)"
proof -
  have f: "findRate euro_rates ''eur'' ''usd'' ''2026-03-10'' = Some (3/2, euro_rate ''2026-03-09'' (3/2), False)" by code_simp
  have "toUpperCase ''eur'' = ''EUR''" "toUpperCase ''usd'' = ''USD''" by code_simp+
  with newest_past_rate_is_used [OF f] f show ?thesis by (simp add: Let_def)
qed

theorem conversion_is_near_witness:
  "\<exists>c. convert 1999 ''EUR'' ''USD'' ''2026-03-10'' [euro_rate ''2026-03-01'' (5/4)] = Some c \<and>
     \<bar>of_int (cv_amount c) - 9995 / 4\<bar> \<le> 1 / 2 + 3 * \<bar>9995 / 4 :: rat\<bar> / 2 ^ 53"
proof -
  let ?rates = "[euro_rate ''2026-03-01'' (5/4)]"
  have f: "findRate ?rates (toUpperCase ''EUR'') (toUpperCase ''USD'') ''2026-03-10'' =
      Some (5/4, euro_rate ''2026-03-01'' (5/4), False)" and u: "toUpperCase ''EUR'' \<noteq> toUpperCase ''USD''" by code_simp+
  then obtain c where c: "convert 1999 ''EUR'' ''USD'' ''2026-03-10'' ?rates = Some c"
    by (simp add: convert_def Let_def)
  have x: "exponentOf ''EUR'' = exponentOf ''USD''" by code_simp
  then have "9995 / 4 = exact_conversion 1999 ''EUR'' ''USD'' (if False then 1 / fx_rate (euro_rate ''2026-03-01'' (5/4))
      else fx_rate (euro_rate ''2026-03-01'' (5/4)))" by (simp add: euro_rate_def exact_conversion_def)
  from conversion_is_near [OF x u f c this] c show ?thesis by blast
qed

text \<open>The rate is the price of one unit, but it multiplies minor units: the result is that of the exact conversion times
  the power of ten between the minor units.\<close>

lemma conversion_is_off_by_the_exponents:
  assumes "toUpperCase base \<noteq> toUpperCase quote"
    and "findRate rates (toUpperCase base) (toUpperCase quote) asOf = Some (rate, used, inverted)"
    and "convert amount base quote asOf rates = Some c"
    and "exact = exact_conversion amount base quote (if inverted then 1 / fx_rate used else fx_rate used)
      * 10 ^ exponentOf base / 10 ^ exponentOf quote"
  shows "\<bar>of_int (cv_amount c) - exact\<bar> \<le> 1 / 2 + 3 * \<bar>exact\<bar> / 2 ^ 53"
proof (rule conversion_near_product [OF assms(1-3)])
  show "exact = of_int amount * (if inverted then 1 / fx_rate used else fx_rate used)"
    by (simp add: assms(4) exact_conversion_def)
qed

text \<open>A yen has no minor unit: a hundred dollars at 150 yen come out as 1 500 000 yen.\<close>

lemma minor_units_are_mixed:
  "map_option cv_amount (convert (majorToMinor 100 ''USD'') ''USD'' ''JPY'' ''2026-03-10''
     [(euro_rate ''2026-03-01'' 150)\<lparr>fx_base := ''USD'', fx_quote := ''JPY''\<rparr>]) = Some (majorToMinor 1500000 ''JPY'')"
  by code_simp

definition fx_env :: ledgerEnv where
  "fx_env = \<lparr>en_localeCompare = code_unit_compare, en_regex = \<lambda>_ _. None, en_today = ''2026-03-10'',
     en_now = ''2026-03-10T09:00:00.000Z'', en_millis = 0, en_uuid = ''r1'', en_listAccounts = \<lambda>_. [],
     en_fetch = \<lambda>_. []\<rparr>"

definition euro_input :: "string \<Rightarrow> rat \<Rightarrow> recordRateInput" where
  "euro_input day r = \<lparr>ri_base = Some ''eur'', ri_quote = Some ''usd'', ri_rate = Some (Num r), ri_asOf = Some day,
     ri_source = None, ri_note = None\<rparr>"

definition euro_accounts :: accountState where
  "euro_accounts = \<lparr>as_accounts = [(''u1'', [\<lparr>ac_id = ''a1'', ac_name = ''Giro'', ac_type = Checking, ac_mask = [],
     ac_currency = ''EUR'', ac_balanceCurrent = 1000, ac_source = None, ac_creditLimit = None,
     ac_statementDay = None, ac_paymentDueDay = None\<rparr>])], as_snapshots = []\<rparr>"

theorem later_rate_keeps_history_witness:
  "let s = snd (fx_record fx_env [] ''u1'' (euro_input ''2026-03-01'' (5/4)));
       s' = snd (fx_record fx_env s ''u1'' (euro_input ''2026-03-09'' (3/2)))
   in fx_netWorth fx_env euro_accounts s' ''u1'' ''USD'' (Some ''2026-03-08'') =
      fx_netWorth fx_env euro_accounts s ''u1'' ''USD'' (Some ''2026-03-08'')"
proof -
  let ?s = "snd (fx_record fx_env [] ''u1'' (euro_input ''2026-03-01'' (5/4)))"
  let ?r = "fx_record fx_env ?s ''u1'' (euro_input ''2026-03-09'' (3/2))"
  have "isl (fst ?r) = False" "fx_asOf (projr (fst ?r)) = ''2026-03-09''" by code_simp+
  then obtain rate where "?r = (Inr rate, snd ?r)" "fx_asOf rate = ''2026-03-09''"
    by (cases "fst ?r") (auto simp: prod_eq_iff)
  moreover have "fx_reachable ?s" by (intro fx_reachable.intros)
  moreover have "''2026-03-08'' < ''2026-03-09''" by code_simp
  ultimately show ?thesis
    using later_rate_keeps_history [of ?s fx_env "''u1''" _ rate "snd ?r" "''2026-03-08''"] by (simp add: Let_def)
qed

end
