(* ===== verification/Budgets.thy ===== *)
theory Budgets
  imports LedgerService Money
begin

text \<open>
  Budgets: spend, pace and alerts (\<open>domain/budgets/progress.ts\<close>) and the service
  (\<open>modules/budgets/budgets.service.ts\<close>) over the budget store of \<open>LedgerStore\<close>. A percentage is a
  binary64 value. A date that names no day makes the code throw: None.
\<close>

section \<open>Progress\<close>

definition THRESHOLDS :: "int list" where "THRESHOLDS = [50, 75, 90, 100]"

datatype budgetStatus = OnTrack | WarningStatus | CriticalStatus | Exceeded

record budgetProgress =
  bp_budgetId :: string
  bp_categorySlug :: string
  bp_currency :: string
  bp_limitAmount :: int
  bp_spentAmount :: int
  bp_remainingAmount :: int
  bp_percentUsed :: rat
  bp_thresholdCrossed :: "int option"
  bp_status :: budgetStatus
  bp_daysElapsed :: int
  bp_daysRemaining :: int
  bp_projectedSpend :: int
  bp_projectedToExceed :: bool

definition thresholdFor :: "rat \<Rightarrow> int option" where
  "thresholdFor percent = foldl (\<lambda>crossed t. if percent \<ge> of_int t then Some t else crossed) None THRESHOLDS"

definition statusFor :: "rat \<Rightarrow> budgetStatus" where
  "statusFor percent = (if percent \<ge> 100 then Exceeded else if percent \<ge> 90 then CriticalStatus
     else if percent \<ge> 75 then WarningStatus else OnTrack)"

definition counts_as_spend :: "string \<Rightarrow> dateRange \<Rightarrow> string option \<Rightarrow> transaction \<Rightarrow> bool" where
  "counts_as_spend categorySlug period currency txn \<longleftrightarrow>
     tx_excludedFromAnalytics txn \<noteq> Some True \<and> tx_categorySlug txn = categorySlug \<and>
     (truthy currency \<longrightarrow> tx_currency txn = the currency) \<and> isWithin (tx_postedAt txn) period \<and>
     isSpendingCategory (tx_categorySlug txn) \<and> \<not> tx_pending txn"

definition spendForCategory :: "transaction list \<Rightarrow> string \<Rightarrow> dateRange \<Rightarrow> string option \<Rightarrow> int" where
  "spendForCategory ts categorySlug period currency =
     (let net = foldl (\<lambda>net txn. if counts_as_spend categorySlug period currency txn then net + tx_amount txn else net) 0 ts
      in max 0 (- net))"

definition projected_spend :: "int \<Rightarrow> int \<Rightarrow> int \<Rightarrow> int" where
  "projected_spend spentAmount daysElapsed totalDays =
     (if daysElapsed > 0 then js_round (fl (fl (of_int spentAmount / of_int daysElapsed) * of_int totalDays)) else 0)"

definition computeBudgetProgress :: "budget \<Rightarrow> transaction list \<Rightarrow> dateRange \<Rightarrow> string \<Rightarrow> budgetProgress option" where
  "computeBudgetProgress budget ts period today =
     (let spentAmount = spendForCategory ts (bu_categorySlug budget) period (Some (bu_currency budget));
          percentUsed = percentOf (of_int spentAmount) (of_int (bu_limitAmount budget))
      in case (daysBetweenInclusive (dr_start period) (dr_end period),
               daysBetweenInclusive (dr_start period) (if today < dr_end period then today else dr_end period)) of
          (Some totalDays, Some rawElapsed) \<Rightarrow>
            let daysElapsed = min (max rawElapsed 0) totalDays;
                daysRemaining = max (totalDays - daysElapsed) 0;
                projectedSpend = projected_spend spentAmount daysElapsed totalDays
            in Some \<lparr>bp_budgetId = bu_id budget, bp_categorySlug = bu_categorySlug budget,
                 bp_currency = bu_currency budget, bp_limitAmount = bu_limitAmount budget,
                 bp_spentAmount = spentAmount, bp_remainingAmount = bu_limitAmount budget - spentAmount,
                 bp_percentUsed = percentUsed, bp_thresholdCrossed = thresholdFor percentUsed,
                 bp_status = statusFor percentUsed, bp_daysElapsed = daysElapsed, bp_daysRemaining = daysRemaining,
                 bp_projectedSpend = projectedSpend,
                 bp_projectedToExceed = (projectedSpend > bu_limitAmount budget \<and> spentAmount \<le> bu_limitAmount budget)\<rparr>
        | _ \<Rightarrow> None)"

section \<open>Alerts\<close>

datatype alertThreshold = AtPercent int | Projection

record budgetAlert =
  ba_budgetId :: string
  ba_categorySlug :: string
  ba_threshold :: alertThreshold
  ba_message :: string
  ba_severity :: severity

definition threshold_alert :: "budgetProgress \<Rightarrow> int \<Rightarrow> budgetAlert" where
  "threshold_alert p t =
     \<lparr>ba_budgetId = bp_budgetId p, ba_categorySlug = bp_categorySlug p, ba_threshold = AtPercent t,
      ba_message = (if t \<ge> 100 then ''You've gone over your '' @ bp_categorySlug p @ '' budget.''
        else ''You've used '' @ int_string t @ ''% of your '' @ bp_categorySlug p @ '' budget with '' @
          int_string (bp_daysRemaining p) @ '' days left.''),
      ba_severity = (if t \<ge> 100 then Critical else if t \<ge> 90 then Warning else Info)\<rparr>"

definition pace_alert :: "budgetProgress \<Rightarrow> budgetAlert" where
  "pace_alert p = \<lparr>ba_budgetId = bp_budgetId p, ba_categorySlug = bp_categorySlug p, ba_threshold = Projection,
     ba_message = ''At this pace you'll exceed your '' @ bp_categorySlug p @ '' budget before the period ends.'',
     ba_severity = Warning\<rparr>"

definition budgetAlerts :: "budgetProgress \<Rightarrow> int set \<Rightarrow> budgetAlert list" where
  "budgetAlerts p alreadyNotified =
     (case bp_thresholdCrossed p of
        Some t \<Rightarrow> if t \<notin> alreadyNotified then [threshold_alert p t] else []
      | None \<Rightarrow> []) @
     (if bp_projectedToExceed p \<and> bp_daysRemaining p > 2 \<and> - 1 \<notin> alreadyNotified then [pace_alert p] else [])"

section \<open>The service\<close>

datatype budget_error = UnknownBudgetCategory | NotSpending | Uncategorized | BadLimit

record createBudgetInput =
  cb_categorySlug :: string
  cb_limitAmount :: num
  cb_period :: "budgetPeriodType option"
  cb_currency :: "string option"
  cb_rollover :: "bool option"

definition newBudget :: "createBudgetInput \<Rightarrow> budget" where
  "newBudget input =
     \<lparr>bu_id = ''bud_'' @ cb_categorySlug input, bu_categorySlug = cb_categorySlug input,
      bu_limitAmount = int_of_num (cb_limitAmount input),
      bu_currency = toUpperCase (case cb_currency input of None \<Rightarrow> ''USD'' | Some c \<Rightarrow> c),
      bu_period = (case cb_period input of None \<Rightarrow> Monthly | Some p \<Rightarrow> p),
      bu_rollover = (cb_rollover input = Some True)\<rparr>"

definition budgets_create :: "budget buckets \<Rightarrow> string \<Rightarrow> createBudgetInput \<Rightarrow> (budget_error + budget) \<times> budget buckets" where
  "budgets_create s u input =
     (if \<not> isKnownCategory (cb_categorySlug input) then (Inl UnknownBudgetCategory, s)
      else if \<not> isSpendingCategory (cb_categorySlug input) then (Inl NotSpending, s)
      else if cb_categorySlug input = UNKNOWN_CATEGORY then (Inl Uncategorized, s)
      else if \<not> isInteger (cb_limitAmount input) \<or> num_le (cb_limitAmount input) 0 then (Inl BadLimit, s)
      else (Inr (newBudget input), budget_create s u (newBudget input)))"

definition budgets_remove :: "budget buckets \<Rightarrow> string \<Rightarrow> string \<Rightarrow> bool \<times> budget buckets" where
  "budgets_remove s u i = budget_remove s u i"

definition rangeFor :: "budgetPeriodType \<Rightarrow> string \<Rightarrow> dateRange option" where
  "rangeFor period today = (case period of
     Weekly \<Rightarrow> weekRange today | Yearly \<Rightarrow> Some (yearRange today) | Monthly \<Rightarrow> monthRange today)"

record budgetReport =
  br_progress :: budgetProgress
  br_period :: dateRange
  br_alerts :: "budgetAlert list"

definition report_of :: "transaction list \<Rightarrow> string \<Rightarrow> budget \<Rightarrow> budgetReport option" where
  "report_of ts today budget =
     Option.bind (rangeFor (bu_period budget) today) (\<lambda>period.
       map_option (\<lambda>p. \<lparr>br_progress = p, br_period = period, br_alerts = budgetAlerts p {}\<rparr>)
         (computeBudgetProgress budget ts period today))"

definition budgets_progress :: "ledgerEnv \<Rightarrow> budget buckets \<Rightarrow> transactionStore \<Rightarrow> string \<Rightarrow> string option \<Rightarrow> string option
    \<Rightarrow> budgetReport list option" where
  "budgets_progress env s store u asOf currency =
     (let today = (case asOf of None \<Rightarrow> en_today env | Some d \<Rightarrow> d);
          reports = map (report_of (list_all_of env store u) today)
            (filter (\<lambda>b. \<not> truthy currency \<or> bu_currency b = the currency) (bucket s u))
      in if None \<in> set reports then None else Some (map the reports))"

text \<open>The outer None is the thrown error, the inner one the absence of budgets.\<close>

definition adherenceRatio :: "ledgerEnv \<Rightarrow> budget buckets \<Rightarrow> transactionStore \<Rightarrow> string \<Rightarrow> string option \<Rightarrow> string option
    \<Rightarrow> rat option option" where
  "adherenceRatio env s store u asOf currency =
     map_option (\<lambda>rows. if rows = [] then None
       else Some (fl (of_nat (length (filter (\<lambda>r. bp_status (br_progress r) \<noteq> Exceeded) rows)) / of_nat (length rows))))
       (budgets_progress env s store u asOf currency)"

section \<open>Thresholds are exact\<close>

text \<open>
  The percentage is two roundings away from the quotient. For limits up to \<open>10 ^ 13\<close> minor units no
  rounding moves it across a threshold: the comparison is the one of whole numbers.
\<close>

lemma percent_at_least:
  assumes "0 \<le> spent" and "0 < limit" and t: "t \<in> set THRESHOLDS" and reached: "t * limit \<le> 100 * spent"
  shows "of_int t \<le> percentOf (of_int spent) (of_int limit)"
proof -
  have "of_int t / 100 \<le> (of_int spent / of_int limit :: rat)"
    using reached assms(2) by (simp add: field_simps flip: of_int_mult of_int_le_iff)
  then have "fl (of_int t / 100) \<le> fl (of_int spent / of_int limit)" by (rule fl_mono)
  then have "fl (fl (of_int t / 100) * 100) \<le> fl (fl (of_int spent / of_int limit) * 100)" by (intro fl_mono) simp
  moreover have "fl (fl (of_int t / 100) * 100) = of_int t"
  proof -
    have "list_all (\<lambda>t. fl (fl (of_int t / 100) * 100) = of_int t) THRESHOLDS" by code_simp
    with t show ?thesis by (simp add: list_all_iff)
  qed
  ultimately show ?thesis using assms(2) by (simp add: percentOf_def)
qed

lemma percent_below:
  assumes "0 \<le> spent" and "0 < limit" and "limit \<le> 10 ^ 13" and t: "t \<le> 100" and short: "100 * spent < t * limit"
  shows "percentOf (of_int spent) (of_int limit) < of_int t"
proof -
  define x :: rat where "x = of_int spent / of_int limit"
  have l: "0 < (of_int limit :: rat)" "(of_int limit :: rat) \<le> 10 ^ 13"
    using assms(2) of_int_le_iff [of limit "10 ^ 13", where 'a = rat] assms(3) by simp_all
  have "of_int (100 * spent + 1) \<le> (of_int (t * limit) :: rat)" using short by (simp only: of_int_le_iff)
  then have gap: "100 * x + 1 / of_int limit \<le> of_int t" using l(1) by (simp add: x_def field_simps)
  have inv: "1 / 10 ^ 13 \<le> (1 / of_int limit :: rat)" using l by (simp add: field_simps)
  have x: "0 \<le> x" using assms(1) l(1) by (simp add: x_def)
  have x1: "100 * x \<le> 100" using gap inv t by (simp add: order_trans [OF _ of_int_le_iff [THEN iffD2, OF t]])
  define y where "y = fl x"
  have "\<bar>y - x\<bar> \<le> \<bar>x\<bar> / 2 ^ 53" unfolding y_def by (rule fl_error)
  also have "\<dots> \<le> 1 / 2 ^ 53" using x x1 by (simp add: divide_right_mono)
  finally have "y - x \<le> 1 / 2 ^ 53" by (rule abs_le_D1)
  moreover have "0 \<le> y" using fl_mono [OF x] by (simp add: y_def)
  ultimately have y: "100 * y \<le> 100 * x + 100 / 2 ^ 53" "0 \<le> y * 100" "y * 100 \<le> 200" using x1 by simp_all
  have "\<bar>fl (y * 100) - y * 100\<bar> \<le> \<bar>y * 100\<bar> / 2 ^ 53" by (rule fl_error)
  also have "\<dots> \<le> 200 / 2 ^ 53" using y(2,3) by (simp add: divide_right_mono)
  finally have "fl (y * 100) - y * 100 \<le> 200 / 2 ^ 53" by (rule abs_le_D1)
  then have "fl (y * 100) \<le> 100 * x + 300 / 2 ^ 53" using y(1) by simp
  also have "\<dots> < of_int t" using gap inv by simp
  finally show ?thesis using l(1) by (simp add: percentOf_def y_def x_def)
qed

text \<open>What the thresholds mean, in whole numbers.\<close>

definition reached :: "int \<Rightarrow> int \<Rightarrow> int option \<times> budgetStatus" where
  "reached spent limit =
     (if 100 * limit \<le> 100 * spent then (Some 100, Exceeded)
      else if 90 * limit \<le> 100 * spent then (Some 90, CriticalStatus)
      else if 75 * limit \<le> 100 * spent then (Some 75, WarningStatus)
      else if 50 * limit \<le> 100 * spent then (Some 50, OnTrack) else (None, OnTrack))"

lemma percent_iff:
  "0 \<le> spent \<Longrightarrow> 0 < limit \<Longrightarrow> limit \<le> 10 ^ 13 \<Longrightarrow> t \<in> set THRESHOLDS \<Longrightarrow>
   of_int t \<le> percentOf (of_int spent) (of_int limit) \<longleftrightarrow> t * limit \<le> 100 * spent"
  using percent_at_least [of spent limit t] percent_below [of spent limit t]
  by (fastforce simp: THRESHOLDS_def not_le)

text \<open>The threshold and the status of a budget are those of exact arithmetic, boundary included: at 89.99...%
  of the limit nothing rounds up, and at exactly 90% the alert of 90% is due. It holds for limits up to
  ten to the thirteen minor units.\<close>

theorem thresholds_are_exact:
  assumes "computeBudgetProgress budget ts period today = Some p"
    and "0 < bu_limitAmount budget" and "bu_limitAmount budget \<le> 10 ^ 13"
  shows "(bp_thresholdCrossed p, bp_status p) = reached (bp_spentAmount p) (bp_limitAmount p)"
proof -
  let ?spent = "spendForCategory ts (bu_categorySlug budget) period (Some (bu_currency budget))"
  let ?percent = "percentOf (of_int ?spent) (of_int (bu_limitAmount budget))"
  have "0 \<le> ?spent" by (simp add: spendForCategory_def Let_def)
  from percent_iff [OF this assms(2,3)]
  have "t \<in> set THRESHOLDS \<Longrightarrow> of_int t \<le> ?percent \<longleftrightarrow> t * bu_limitAmount budget \<le> 100 * ?spent" for t .
  from this [of 50] this [of 75] this [of 90] this [of 100]
  have "(thresholdFor ?percent, statusFor ?percent) = reached ?spent (bu_limitAmount budget)"
    using assms(2) by (simp add: THRESHOLDS_def thresholdFor_def statusFor_def reached_def)
  then show ?thesis
    using assms(1) by (auto simp: computeBudgetProgress_def Let_def split: option.splits)
qed

section \<open>One budget for each category\<close>

inductive budgets_reachable :: "budget buckets \<Rightarrow> bool" where
  empty: "budgets_reachable []"
| created: "budgets_reachable s \<Longrightarrow> budgets_reachable (snd (budgets_create s u input))"
| removed: "budgets_reachable s \<Longrightarrow> budgets_reachable (snd (budgets_remove s u i))"

definition proper_budget :: "budget \<Rightarrow> bool" where
  "proper_budget b \<longleftrightarrow> bu_id b = ''bud_'' @ bu_categorySlug b \<and> 0 < bu_limitAmount b \<and>
     isSpendingCategory (bu_categorySlug b) \<and> bu_categorySlug b \<noteq> UNKNOWN_CATEGORY"

lemma put_row_all:
  "r \<in> set (bucket (put_row key s u x) v) \<Longrightarrow> P x \<Longrightarrow> (\<And>v r. r \<in> set (bucket s v) \<Longrightarrow> P r) \<Longrightarrow> P r"
  using set_update_first_subset [of "\<lambda>r. key r = key x" "\<lambda>_. x" "bucket s u"]
  by (auto simp: put_row_def Let_def split: if_splits)

lemma drop_row_all:
  "r \<in> set (bucket (snd (drop_row key s u i)) v) \<Longrightarrow> (\<And>v r. r \<in> set (bucket s v) \<Longrightarrow> P r) \<Longrightarrow> P r"
  using set_remove_first [of "\<lambda>r. key r = i" "bucket s u"]
  by (auto simp: drop_row_def Let_def split: if_splits)

lemma new_budget_proper: "budgets_create s u input = (Inr b, s') \<Longrightarrow> b = newBudget input \<and> proper_budget b \<and> s' = budget_create s u b"
  using positive_integer_iff [of "cb_limitAmount input"]
  by (auto simp: budgets_create_def proper_budget_def newBudget_def split: if_splits)

lemma budgets_reachable_inv:
  "budgets_reachable s \<Longrightarrow> rows_inv bu_id s \<and> (\<forall>u. \<forall>b \<in> set (bucket s u). proper_budget b)"
proof (induction rule: budgets_reachable.induct)
  case empty
  then show ?case by (simp add: rows_inv_def)
next
  case (created s u input)
  obtain r s' where c: "budgets_create s u input = (r, s')" by (cases "budgets_create s u input")
  show ?case
  proof (cases r)
    case (Inl e)
    then have "s' = s" using c by (auto simp: budgets_create_def split: if_splits)
    then show ?thesis using created c by simp
  next
    case (Inr b)
    from new_budget_proper [of s u input b s'] c Inr have b: "proper_budget b" "s' = budget_create s u b" by blast+
    then have "rows_inv bu_id s'" using created by (simp add: budget_create_def rows_inv_put)
    moreover have "\<forall>u. \<forall>b \<in> set (bucket s' u). proper_budget b"
      using created b by (auto simp: budget_create_def elim!: put_row_all)
    ultimately show ?thesis using c by simp
  qed
next
  case (removed s u i)
  then have "\<forall>v. \<forall>b \<in> set (bucket (snd (drop_row bu_id s u i)) v). proper_budget b" by (auto elim!: drop_row_all)
  then show ?case using removed drop_row_facts [of bu_id s u i]
    by (simp add: budgets_remove_def budget_remove_def)
qed

text \<open>Whatever is created, edited and removed, a user has at most one budget for a category; its limit is
  positive and its category one of spending.\<close>

theorem one_budget_per_category:
  "budgets_reachable s \<Longrightarrow> distinct (map bu_categorySlug (bucket s u)) \<and> list_all proper_budget (bucket s u)"
proof -
  assume "budgets_reachable s"
  from budgets_reachable_inv [OF this] have d: "distinct (map bu_id (bucket s u))"
    and p: "\<forall>b \<in> set (bucket s u). proper_budget b" by (simp_all add: rows_inv_def)
  then have "inj_on bu_categorySlug (set (bucket s u))"
    by (auto simp: inj_on_def distinct_map proper_budget_def)
  with d p show ?thesis by (simp add: distinct_map list_all_iff)
qed

definition food_budget :: createBudgetInput where
  "food_budget = \<lparr>cb_categorySlug = ''groceries'', cb_limitAmount = Num 1000, cb_period = None, cb_currency = None, cb_rollover = None\<rparr>"

theorem one_budget_per_category_witness:
  "let s = snd (budgets_create (snd (budgets_create [] ''u1'' food_budget)) ''u1'' (food_budget\<lparr>cb_limitAmount := Num 2000\<rparr>))
   in map bu_limitAmount (bucket s ''u1'') = [2000] \<and>
      distinct (map bu_categorySlug (bucket s ''u1'')) \<and> list_all proper_budget (bucket s ''u1'')"
proof -
  let ?s = "snd (budgets_create (snd (budgets_create [] ''u1'' food_budget)) ''u1'' (food_budget\<lparr>cb_limitAmount := Num 2000\<rparr>))"
  have "budgets_reachable ?s" by (intro budgets_reachable.intros)
  moreover have "map bu_limitAmount (bucket ?s ''u1'') = [2000]" by code_simp
  ultimately show ?thesis using one_budget_per_category [of ?s "''u1''"] by (simp add: Let_def)
qed

definition food_expense :: transaction where
  "food_expense = \<lparr>tx_id = ''t1'', tx_accountId = ''a1'', tx_providerTxnId = ''p1'', tx_postedAt = ''2026-03-05'',
     tx_amount = - 900, tx_currency = ''USD'', tx_rawDescriptor = ''SHOP'', tx_normalizedDescriptor = ''SHOP'',
     tx_merchant = None, tx_merchantOverride = None, tx_note = None, tx_excludedFromAnalytics = None,
     tx_categorySlug = ''groceries'', tx_categorySource = UserManual, tx_categoryConfidence = 1, tx_isRecurring = False,
     tx_recurringOverride = None, tx_duplicateReported = None, tx_pending = False, tx_tags = None, tx_importBatchId = None\<rparr>"

theorem thresholds_are_exact_witness:
  "\<exists>p. computeBudgetProgress (newBudget food_budget) [food_expense]
      \<lparr>dr_start = ''2026-03-01'', dr_end = ''2026-03-31''\<rparr> ''2026-03-10'' = Some p \<and>
    bp_spentAmount p = 900 \<and> (bp_thresholdCrossed p, bp_status p) = reached (bp_spentAmount p) (bp_limitAmount p)"
proof -
  let ?c = "computeBudgetProgress (newBudget food_budget) [food_expense]
    \<lparr>dr_start = ''2026-03-01'', dr_end = ''2026-03-31''\<rparr> ''2026-03-10''"
  have "toIsoDate 20513 = ''2026-03-01''" "toIsoDate 20543 = ''2026-03-31''" "toIsoDate 20522 = ''2026-03-10''"
    "in_iso_range 20513" "in_iso_range 20543" "in_iso_range 20522" by code_simp+
  then have d: "toUtcDate ''2026-03-01'' = Some 20513" "toUtcDate ''2026-03-31'' = Some 20543"
    "toUtcDate ''2026-03-10'' = Some 20522" using toUtcDate_toIsoDate by metis+
  have s: "spendForCategory [food_expense] ''groceries'' \<lparr>dr_start = ''2026-03-01'', dr_end = ''2026-03-31''\<rparr> (Some ''USD'') = 900"
    "bu_categorySlug (newBudget food_budget) = ''groceries''" "bu_currency (newBudget food_budget) = ''USD''" by code_simp+
  obtain p where p: "?c = Some p" "bp_spentAmount p = 900"
    using d s by (simp add: computeBudgetProgress_def daysBetweenInclusive_def Let_def)
  have "0 < bu_limitAmount (newBudget food_budget)" "bu_limitAmount (newBudget food_budget) \<le> 10 ^ 13" by code_simp+
  from thresholds_are_exact [OF p(1) this] p show ?thesis by blast
qed

end
