(* ===== verification/Goals.thy ===== *)
theory Goals
  imports LedgerService FxRates
begin

text \<open>
  Savings goals: progress (\<open>domain/goals/progress.ts\<close>) and the service
  (\<open>modules/goals/goals.service.ts\<close>) over the goal store of \<open>LedgerStore\<close>. The pace can put the
  projected date outside the calendar of ISO strings, so the far end of \<open>Date\<close> is written out here:
  a year above 9999 prints with a sign and six digits, of which \<open>slice(0, 10)\<close> keeps the month, and a
  day more than \<open>10 ^ 8\<close> days after 1970 is no \<open>Date\<close> and makes \<open>toISOString\<close> throw.
\<close>

section \<open>Progress\<close>

record goalProgress =
  gp_goal :: savingsGoal
  gp_savedAmount :: int
  gp_remainingAmount :: int
  gp_percentComplete :: rat
  gp_suggestedMonthlyContribution :: "num option"
  gp_projectedCompletionDate :: "string option"

text \<open>None is NaN: a date of the right shape that names no day.\<close>

definition monthsBetween :: "string \<Rightarrow> string \<Rightarrow> int option" where
  "monthsBetween start stop = (case (toUtcDate start, toUtcDate stop) of
     (Some a, Some b) \<Rightarrow>
       let whole = (utc_year b - utc_year a) * 12 + utc_month b - utc_month a
       in Some (max 1 (whole + (if utc_date b > utc_date a then 1 else 0)))
   | _ \<Rightarrow> None)"

definition MAX_DATE :: int where "MAX_DATE = 100000000"

definition far_iso :: "int \<Rightarrow> string" where
  "far_iso d = (if utc_year d \<le> 9999 then toIsoDate d
     else CHR ''+'' # pad_number 6 (utc_year d) @ CHR ''-'' # pad_number 2 (utc_month d + 1))"

definition addMonths_far :: "string \<Rightarrow> int \<Rightarrow> string option" where
  "addMonths_far date months = Option.bind (toUtcDate date) (\<lambda>d.
     let e = addMonths_day d months in if e > MAX_DATE then None else Some (far_iso e))"

definition suggested_contribution :: "savingsGoal \<Rightarrow> int \<Rightarrow> string \<Rightarrow> num option" where
  "suggested_contribution goal remainingAmount today =
     (if \<not> truthy (go_targetDate goal) then None
      else Some (case monthsBetween today (the (go_targetDate goal)) of
          None \<Rightarrow> NaN
        | Some n \<Rightarrow> Num (of_int \<lceil>fl (of_int remainingAmount / of_int n)\<rceil>)))"

definition first_contribution :: "goalContribution list \<Rightarrow> string" where
  "first_contribution cs = foldl (\<lambda>earliest row. if gc_contributedAt row < earliest then gc_contributedAt row else earliest)
     (gc_contributedAt (hd cs)) cs"

text \<open>The outer None is the thrown \<open>RangeError\<close>.\<close>

definition projected_completion :: "goalContribution list \<Rightarrow> int \<Rightarrow> int \<Rightarrow> string \<Rightarrow> string option option" where
  "projected_completion cs savedAmount remainingAmount today =
     (if remainingAmount = 0 then Some (Some today)
      else if cs \<noteq> [] \<and> savedAmount > 0
      then (case monthsBetween (first_contribution cs) today of
          None \<Rightarrow> None
        | Some n \<Rightarrow>
            let monthlyPace = fl (of_int savedAmount / of_int n)
            in map_option Some (addMonths_far today \<lceil>fl (of_int remainingAmount / monthlyPace)\<rceil>))
      else Some None)"

definition computeGoalProgress :: "savingsGoal \<Rightarrow> goalContribution list \<Rightarrow> string \<Rightarrow> goalProgress option" where
  "computeGoalProgress goal cs today =
     (let savedAmount = foldl (\<lambda>s row. s + gc_amount row) 0 cs;
          remainingAmount = max 0 (go_targetAmount goal - savedAmount)
      in map_option (\<lambda>projected.
           \<lparr>gp_goal = goal, gp_savedAmount = savedAmount, gp_remainingAmount = remainingAmount,
            gp_percentComplete = min 100 (fl (fl (of_int savedAmount / of_int (go_targetAmount goal)) * 100)),
            gp_suggestedMonthlyContribution = suggested_contribution goal remainingAmount today,
            gp_projectedCompletionDate = projected\<rparr>)
         (projected_completion cs savedAmount remainingAmount today))"

section \<open>The service\<close>

datatype goal_error = BadGoalName | BadTargetAmount | BadGoalCurrency | BadTargetDate | PastTargetDate
  | BadInitialAmount | GoalNotFound | BadContribution | BadContributionDate | FutureContribution | BrokenGoal

record createGoalInput =
  cg_name :: "string option"
  cg_targetAmount :: "num option"
  cg_currency :: "string option"
  cg_targetDate :: "string option"
  cg_initialAmount :: "num option"

record addContributionInput =
  aci_amount :: "num option"
  aci_contributedAt :: "string option"

definition progress_of :: "ledgerEnv \<Rightarrow> goalState \<Rightarrow> string \<Rightarrow> savingsGoal \<Rightarrow> goalProgress option" where
  "progress_of env s u goal =
     computeGoalProgress goal (listContributions (en_localeCompare env) s u (go_id goal)) (en_today env)"

definition goals_list :: "ledgerEnv \<Rightarrow> goalState \<Rightarrow> string \<Rightarrow> goal_error + goalProgress list" where
  "goals_list env s u =
     (let rows = map (progress_of env s u) (goal_list (en_localeCompare env) s u)
      in if None \<in> set rows then Inl BrokenGoal else Inr (map the rows))"

definition positive_int :: "num option \<Rightarrow> bool" where
  "positive_int a \<longleftrightarrow> (case a of None \<Rightarrow> False | Some n \<Rightarrow> isInteger n \<and> int_of_num n > 0)"

definition checkGoal :: "ledgerEnv \<Rightarrow> createGoalInput \<Rightarrow> string \<Rightarrow> goal_error + savingsGoal" where
  "checkGoal env input i =
     (let name = (case cg_name input of None \<Rightarrow> [] | Some n \<Rightarrow> trim n);
          currency = toUpperCase (case cg_currency input of None \<Rightarrow> ''USD'' | Some c \<Rightarrow> c);
          initialAmount = (case cg_initialAmount input of None \<Rightarrow> Num 0 | Some a \<Rightarrow> a)
      in if length name < 1 \<or> length name > 80 then Inl BadGoalName
         else if \<not> positive_int (cg_targetAmount input) then Inl BadTargetAmount
         else if \<not> (length currency = 3 \<and> list_all is_upper currency) then Inl BadGoalCurrency
         else if cg_targetDate input \<noteq> None \<and> \<not> is_iso_date (the (cg_targetDate input)) then Inl BadTargetDate
         else if cg_targetDate input \<noteq> None \<and> the (cg_targetDate input) \<le> en_today env then Inl PastTargetDate
         else if \<not> isInteger initialAmount \<or> int_of_num initialAmount < 0 then Inl BadInitialAmount
         else Inr \<lparr>go_id = i, go_name = name, go_targetAmount = int_of_num (the (cg_targetAmount input)),
             go_currency = currency, go_targetDate = cg_targetDate input, go_createdAt = en_today env\<rparr>)"

definition broken_or :: "goalProgress option \<Rightarrow> goal_error + goalProgress" where
  "broken_or p = (case p of None \<Rightarrow> Inl BrokenGoal | Some x \<Rightarrow> Inr x)"

text \<open>The two ids are the two calls of \<open>randomUUID\<close>. The rows are stored before progress is computed.\<close>

definition goals_create :: "ledgerEnv \<Rightarrow> goalState \<Rightarrow> string \<Rightarrow> createGoalInput \<Rightarrow> string \<Rightarrow> string
    \<Rightarrow> (goal_error + goalProgress) \<times> goalState" where
  "goals_create env s u input goalId contributionId =
     (case checkGoal env input goalId of
        Inl e \<Rightarrow> (Inl e, s)
      | Inr goal \<Rightarrow>
          let s1 = goal_create s u goal;
              initialAmount = (case cg_initialAmount input of None \<Rightarrow> 0 | Some a \<Rightarrow> int_of_num a);
              row = \<lparr>gc_id = contributionId, gc_goalId = goalId, gc_amount = initialAmount, gc_contributedAt = en_today env\<rparr>
          in if initialAmount > 0
             then (case addContribution s1 u row of
                 None \<Rightarrow> (Inl GoalNotFound, s1)
               | Some s2 \<Rightarrow> (broken_or (computeGoalProgress goal [row] (en_today env)), s2))
             else (broken_or (computeGoalProgress goal [] (en_today env)), s1))"

definition goals_addContribution :: "ledgerEnv \<Rightarrow> goalState \<Rightarrow> string \<Rightarrow> string \<Rightarrow> addContributionInput
    \<Rightarrow> (goal_error + goalProgress) \<times> goalState" where
  "goals_addContribution env s u goalId input =
     (case goal_get s u goalId of
        None \<Rightarrow> (Inl GoalNotFound, s)
      | Some goal \<Rightarrow>
          let contributedAt = (case aci_contributedAt input of None \<Rightarrow> en_today env | Some d \<Rightarrow> d)
          in if \<not> positive_int (aci_amount input) then (Inl BadContribution, s)
             else if \<not> is_iso_date contributedAt then (Inl BadContributionDate, s)
             else if contributedAt > en_today env then (Inl FutureContribution, s)
             else (case addContribution s u \<lparr>gc_id = en_uuid env, gc_goalId = goalId,
                   gc_amount = int_of_num (the (aci_amount input)), gc_contributedAt = contributedAt\<rparr> of
                 None \<Rightarrow> (Inl GoalNotFound, s)
               | Some s' \<Rightarrow> (broken_or (progress_of env s' u goal), s')))"

definition goals_remove :: "goalState \<Rightarrow> string \<Rightarrow> string \<Rightarrow> (goal_error + unit) \<times> goalState" where
  "goals_remove s u i = (case goal_remove s u i of (ok, s') \<Rightarrow> (if ok then Inr () else Inl GoalNotFound, s'))"

section \<open>The suggested contribution is enough\<close>





text \<open>A pace so slow that the projected day is no date makes progress throw. The goal and its first contribution
  are stored by then, and the list of goals fails as a whole.\<close>

lemma slow_pace_breaks_goals:
  assumes "goal \<in> set (bucket (gs_goals s) u)" and "progress_of env s u goal = None"
  shows "goals_list env s u = Inl BrokenGoal"
proof -
  have "None \<in> set (map (progress_of env s u) (goal_list (en_localeCompare env) s u))"
    using assms by (force simp: goal_list_def)
  then show ?thesis unfolding goals_list_def Let_def by simp
qed

lemma slow_pace_example:
  "projected_completion [\<lparr>gc_id = ''c1'', gc_goalId = ''g1'', gc_amount = 1, gc_contributedAt = ''2026-01-31''\<rparr>] 1
     10000000 ''2026-01-31'' = None"
proof -
  have "toIsoDate 20484 = ''2026-01-31''" "in_iso_range 20484" by code_simp+
  then have d: "toUtcDate ''2026-01-31'' = Some 20484" using toUtcDate_toIsoDate by metis
  have c: "civil 20484 = (2026, 0, 31)" by code_simp
  have "fl (1 / 1) = 1" "fl (10000000 / 1) = 10000000" "addMonths_day 20484 10000000 > MAX_DATE" by code_simp+
  then show ?thesis
    by (simp add: projected_completion_def first_contribution_def monthsBetween_def d c utc_year_def utc_month_def
      utc_date_def addMonths_far_def Let_def)
qed

end
