(* ===== verification/Transfers.thy ===== *)
theory Transfers
  imports Descriptors LedgerTypes JsNum
begin

text \<open>
  Rows that belong together: money moved between a user's own accounts
  (\<open>domain/transactions/internal-transfers.ts\<close>) and refunds with the purchase they undo
  (\<open>domain/transactions/refund-matching.ts\<close>).
\<close>

section \<open>Internal transfers\<close>

record internalTransferPair =
  ip_outflowId :: string
  ip_inflowId :: string
  ip_amount :: int
  ip_currency :: string
  ip_daysApart :: int

definition DEFAULT_WINDOW_DAYS :: int where "DEFAULT_WINDOW_DAYS = 3"

text \<open>None is NaN: every comparison with it is false.\<close>

definition daysBetween :: "string \<Rightarrow> string \<Rightarrow> int option" where
  "daysBetween a b = (case (toUtcDate a, toUtcDate b) of (Some x, Some y) \<Rightarrow> Some \<bar>x - y\<bar> | _ \<Rightarrow> None)"

definition byDateThenId :: "(string \<Rightarrow> string \<Rightarrow> int) \<Rightarrow> transaction \<Rightarrow> transaction \<Rightarrow> int" where
  "byDateThenId lc a b = (if tx_postedAt a = tx_postedAt b then lc (tx_id a) (tx_id b)
     else lc (tx_postedAt a) (tx_postedAt b))"

definition outflow_rows :: "transaction list \<Rightarrow> transaction list" where
  "outflow_rows ts = filter (\<lambda>t. \<not> tx_pending t \<and> tx_amount t < 0) ts"

definition inflow_rows :: "transaction list \<Rightarrow> transaction list" where
  "inflow_rows ts = filter (\<lambda>t. \<not> tx_pending t \<and> \<not> tx_amount t < 0 \<and> tx_amount t > 0) ts"

text \<open>The gap between the two sides where the inflow is eligible.\<close>

definition transfer_gap :: "string list \<Rightarrow> transaction \<Rightarrow> int \<Rightarrow> transaction \<Rightarrow> int option" where
  "transfer_gap claimed outflow windowDays inflow =
     (if tx_id inflow \<in> set claimed then None
      else if tx_amount inflow \<noteq> \<bar>tx_amount outflow\<bar> then None
      else if tx_currency inflow \<noteq> tx_currency outflow then None
      else if tx_accountId inflow = tx_accountId outflow then None
      else case daysBetween (tx_postedAt outflow) (tx_postedAt inflow) of
          None \<Rightarrow> None
        | Some gap \<Rightarrow> if gap > windowDays then None else Some gap)"

definition closer :: "(transaction \<times> int) option \<Rightarrow> transaction \<Rightarrow> int \<Rightarrow> (transaction \<times> int) option" where
  "closer best inflow gap = (case best of None \<Rightarrow> Some (inflow, gap)
     | Some (_, bestDays) \<Rightarrow> if gap < bestDays then Some (inflow, gap) else best)"

fun closest_inflow :: "string list \<Rightarrow> transaction \<Rightarrow> int \<Rightarrow> (transaction \<times> int) option \<Rightarrow> transaction list
    \<Rightarrow> (transaction \<times> int) option" where
  "closest_inflow claimed outflow windowDays best [] = best"
| "closest_inflow claimed outflow windowDays best (inflow # inflows) =
     (case transfer_gap claimed outflow windowDays inflow of
        None \<Rightarrow> closest_inflow claimed outflow windowDays best inflows
      | Some gap \<Rightarrow>
          let best' = closer best inflow gap
          in if map_option snd best' = Some 0 then best'
             else closest_inflow claimed outflow windowDays best' inflows)"

definition pair_outflow :: "transaction list \<Rightarrow> int \<Rightarrow> string list \<times> internalTransferPair list \<Rightarrow> transaction
    \<Rightarrow> string list \<times> internalTransferPair list" where
  "pair_outflow inflows windowDays acc outflow = (case acc of (claimed, pairs) \<Rightarrow>
     case closest_inflow claimed outflow windowDays None inflows of
       None \<Rightarrow> acc
     | Some (inflow, days) \<Rightarrow> (set_add (tx_id outflow) (set_add (tx_id inflow) claimed),
         pairs @ [\<lparr>ip_outflowId = tx_id outflow, ip_inflowId = tx_id inflow, ip_amount = \<bar>tx_amount outflow\<bar>,
           ip_currency = tx_currency outflow, ip_daysApart = days\<rparr>]))"

definition detectInternalTransfers :: "(string \<Rightarrow> string \<Rightarrow> int) \<Rightarrow> transaction list \<Rightarrow> int option
    \<Rightarrow> internalTransferPair list" where
  "detectInternalTransfers lc ts windowDays =
     (let window = (case windowDays of None \<Rightarrow> DEFAULT_WINDOW_DAYS | Some d \<Rightarrow> d);
          outflows = js_sort (byDateThenId lc) (outflow_rows ts);
          inflows = js_sort (byDateThenId lc) (inflow_rows ts)
      in snd (foldl (pair_outflow inflows window) ([], []) outflows))"

definition internalTransferIds :: "internalTransferPair list \<Rightarrow> string list" where
  "internalTransferIds pairs = foldl (\<lambda>ids p. set_add (ip_inflowId p) (set_add (ip_outflowId p) ids)) [] pairs"

definition isUserCategorised :: "transaction \<Rightarrow> bool" where
  "isUserCategorised txn \<longleftrightarrow> tx_categorySource txn = UserManual \<or> tx_categorySource txn = UserRule"

section \<open>Refunds\<close>

record refundMatch =
  rm_refundId :: string
  rm_purchaseId :: string
  rm_amount :: int
  rm_purchaseAmount :: int
  rm_currency :: string
  rm_merchant :: string
  rm_purchaseDate :: string
  rm_refundDate :: string
  rm_daysAfterPurchase :: int
  rm_confidence :: rat

definition MAX_REFUND_DAYS :: int where "MAX_REFUND_DAYS = 120"

definition jaccard :: "string list \<Rightarrow> string list \<Rightarrow> rat" where
  "jaccard left right =
     (if left = [] \<or> right = [] then 0
      else let intersection = length (filter (\<lambda>t. t \<in> set right) left); union = length (set_of (left @ right))
        in if union = 0 then 0 else fl (of_nat intersection / of_nat union))"

definition descriptorSimilarity :: "string \<Rightarrow> string \<Rightarrow> string option \<Rightarrow> string option \<Rightarrow> rat" where
  "descriptorSimilarity leftDescriptor rightDescriptor leftMerchant rightMerchant =
     (let tokens = (\<lambda>s. set_of (descriptorTokens s)); or_empty = (\<lambda>m. case m of None \<Rightarrow> [] | Some x \<Rightarrow> x)
      in max (jaccard (tokens leftDescriptor) (tokens rightDescriptor))
           (jaccard (tokens (or_empty leftMerchant)) (tokens (or_empty rightMerchant))))"

definition purchase_similarity :: "transaction \<Rightarrow> transaction \<Rightarrow> rat" where
  "purchase_similarity purchase refund = descriptorSimilarity (tx_normalizedDescriptor purchase)
     (tx_normalizedDescriptor refund) (tx_merchant purchase) (tx_merchant refund)"

definition days_after :: "transaction \<Rightarrow> transaction \<Rightarrow> int option" where
  "days_after purchase refund = map_option (\<lambda>d. d - 1) (daysBetweenInclusive (tx_postedAt purchase) (tx_postedAt refund))"

text \<open>Whether a purchase is a candidate; None is the error thrown for a date that names no day.\<close>

definition refundable :: "string list \<Rightarrow> transaction \<Rightarrow> transaction \<Rightarrow> bool option" where
  "refundable used refund purchase =
     (if tx_id purchase \<in> set used then Some False
      else if tx_accountId purchase \<noteq> tx_accountId refund \<or> tx_currency purchase \<noteq> tx_currency refund then Some False
      else if tx_postedAt purchase > tx_postedAt refund then Some False
      else map_option (\<lambda>d. if d > MAX_REFUND_DAYS then False
        else tx_amount refund \<le> \<bar>tx_amount purchase\<bar> \<and> purchase_similarity purchase refund > 0)
        (days_after purchase refund))"

record refundCandidate =
  rfc_purchase :: transaction
  rfc_daysAfter :: int
  rfc_score :: rat

definition scoreCandidate :: "transaction \<Rightarrow> transaction \<Rightarrow> refundCandidate" where
  "scoreCandidate refund purchase =
     (let daysAfter = the (days_after purchase refund);
          similarity = purchase_similarity purchase refund;
          amountRatio = fl (of_int (tx_amount refund) / of_int \<bar>tx_amount purchase\<bar>)
      in \<lparr>rfc_purchase = purchase, rfc_daysAfter = daysAfter,
          rfc_score = fl (fl (fl (similarity * 6) + fl (amountRatio * 3)) +
            fl (1 - fl (of_int daysAfter / of_int MAX_REFUND_DAYS)))\<rparr>)"

definition better_candidate :: "(string \<Rightarrow> string \<Rightarrow> int) \<Rightarrow> refundCandidate \<Rightarrow> refundCandidate \<Rightarrow> int" where
  "better_candidate lc = cmp_or (\<lambda>a b. if rfc_score b < rfc_score a then - 1 else if rfc_score b = rfc_score a then 0 else 1)
     (cmp_or (\<lambda>a b. rfc_daysAfter a - rfc_daysAfter b) (\<lambda>a b. lc (tx_id (rfc_purchase a)) (tx_id (rfc_purchase b))))"

definition refund_match :: "transaction \<Rightarrow> refundCandidate \<Rightarrow> refundMatch" where
  "refund_match refund best =
     \<lparr>rm_refundId = tx_id refund, rm_purchaseId = tx_id (rfc_purchase best), rm_amount = tx_amount refund,
      rm_purchaseAmount = \<bar>tx_amount (rfc_purchase best)\<bar>, rm_currency = tx_currency refund,
      rm_merchant = (case tx_merchant refund of None \<Rightarrow> tx_normalizedDescriptor refund | Some m \<Rightarrow> m),
      rm_purchaseDate = tx_postedAt (rfc_purchase best), rm_refundDate = tx_postedAt refund,
      rm_daysAfterPurchase = rfc_daysAfter best,
      rm_confidence = fl (of_int (js_round (fl (min (fl (99 / 100)) (fl (rfc_score best / 10)) * 100))) / 100)\<rparr>"

fun filter_or_throw :: "('a \<Rightarrow> bool option) \<Rightarrow> 'a list \<Rightarrow> 'a list option" where
  "filter_or_throw p [] = Some []"
| "filter_or_throw p (x # xs) = (case p x of None \<Rightarrow> None
     | Some keep \<Rightarrow> map_option (\<lambda>ys. if keep then x # ys else ys) (filter_or_throw p xs))"

fun match_refunds_from :: "(string \<Rightarrow> string \<Rightarrow> int) \<Rightarrow> transaction list \<Rightarrow> string list \<Rightarrow> transaction list
    \<Rightarrow> refundMatch list option" where
  "match_refunds_from lc purchases used [] = Some []"
| "match_refunds_from lc purchases used (refund # refunds) =
     (case filter_or_throw (refundable used refund) purchases of
        None \<Rightarrow> None
      | Some candidates \<Rightarrow>
          (case js_sort (better_candidate lc) (map (scoreCandidate refund) candidates) of
             [] \<Rightarrow> match_refunds_from lc purchases used refunds
           | best # _ \<Rightarrow> map_option ((#) (refund_match refund best))
               (match_refunds_from lc purchases (set_add (tx_id (rfc_purchase best)) used) refunds)))"

definition purchase_rows :: "transaction list \<Rightarrow> transaction list" where
  "purchase_rows ts = filter (\<lambda>t. \<not> tx_pending t \<and> tx_amount t < 0 \<and> isSpendingCategory (tx_categorySlug t)) ts"

definition refund_rows :: "transaction list \<Rightarrow> transaction list" where
  "refund_rows ts = filter (\<lambda>t. \<not> tx_pending t \<and> tx_categorySlug t = ''refunds'' \<and> tx_amount t > 0) ts"

definition matchRefunds :: "(string \<Rightarrow> string \<Rightarrow> int) \<Rightarrow> transaction list \<Rightarrow> refundMatch list option" where
  "matchRefunds lc ts = match_refunds_from lc (purchase_rows ts) []
     (js_sort (cmp_or (\<lambda>a b. lc (tx_postedAt a) (tx_postedAt b)) (\<lambda>a b. lc (tx_id a) (tx_id b))) (refund_rows ts))"

end
