(* ===== verification/TransferSafety.thy ===== *)
theory TransferSafety
  imports Transfers
begin

text \<open>
  What the pairing of rows may be trusted for: pairs are real movements, no row is used twice, the
  answer does not depend on the order of the ledger, and a refund never exceeds its purchase.
\<close>

section \<open>Pairs\<close>

definition both_sides :: "transaction list \<Rightarrow> int \<Rightarrow> internalTransferPair \<Rightarrow> transaction \<Rightarrow> transaction \<Rightarrow> bool" where
  "both_sides ts window p out inn \<longleftrightarrow> out \<in> set ts \<and> inn \<in> set ts \<and> \<not> tx_pending out \<and> \<not> tx_pending inn \<and>
     tx_id out = ip_outflowId p \<and> tx_id inn = ip_inflowId p \<and>
     tx_amount out = - ip_amount p \<and> tx_amount inn = ip_amount p \<and> 0 < ip_amount p \<and>
     tx_currency out = ip_currency p \<and> tx_currency inn = ip_currency p \<and>
     tx_accountId out \<noteq> tx_accountId inn \<and>
     daysBetween (tx_postedAt out) (tx_postedAt inn) = Some (ip_daysApart p) \<and> ip_daysApart p \<le> window"

definition pair_ids :: "internalTransferPair list \<Rightarrow> string list" where
  "pair_ids pairs = map ip_outflowId pairs @ map ip_inflowId pairs"

lemma closer_cases: "closer best i gap = best \<or> closer best i gap = Some (i, gap)"
  by (auto simp: closer_def split: option.splits)

lemma closest_inflow_eligible:
  "closest_inflow claimed out w best inflows = Some (i, days) \<Longrightarrow>
   best = Some (i, days) \<or> (i \<in> set inflows \<and> transfer_gap claimed out w i = Some days)"
proof (induction inflows arbitrary: best)
  case (Cons x xs)
  show ?case
  proof (cases "transfer_gap claimed out w x")
    case None
    with Cons show ?thesis by auto
  next
    case (Some gap)
    with Cons.prems have "closer best x gap = Some (i, days) \<or>
        closest_inflow claimed out w (closer best x gap) xs = Some (i, days)" by (auto simp: Let_def split: if_splits)
    with Cons.IH [of "closer best x gap"] closer_cases [of best x gap] Some show ?thesis by auto
  qed
qed simp

lemma transfer_gap_Some: "transfer_gap claimed out w i = Some d \<longleftrightarrow> tx_id i \<notin> set claimed \<and>
    tx_amount i = \<bar>tx_amount out\<bar> \<and> tx_currency i = tx_currency out \<and> tx_accountId i \<noteq> tx_accountId out \<and>
    daysBetween (tx_postedAt out) (tx_postedAt i) = Some d \<and> d \<le> w"
  by (auto simp: transfer_gap_def split: option.splits)

lemma pair_outflows:
  assumes "\<forall>p \<in> set pairs. \<exists>out inn. both_sides ts w p out inn" and "distinct (pair_ids pairs)"
    and "set (pair_ids pairs) \<subseteq> set claimed" and "set claimed \<subseteq> set (pair_ids pairs)"
    and "set outs \<subseteq> set (outflow_rows ts)" and "set inns = set (inflow_rows ts)"
    and "distinct (map tx_id ts)" and "distinct (map tx_id outs)" and "\<forall>out \<in> set outs. tx_id out \<notin> set (pair_ids pairs)"
  shows "(\<forall>p \<in> set (snd (foldl (pair_outflow inns w) (claimed, pairs) outs)). \<exists>out inn. both_sides ts w p out inn) \<and>
    distinct (pair_ids (snd (foldl (pair_outflow inns w) (claimed, pairs) outs)))"
  using assms
proof (induction outs arbitrary: claimed pairs)
  case (Cons out outs)
  have out: "out \<in> set ts" "\<not> tx_pending out" "tx_amount out < 0" using Cons.prems(5) by (auto simp: outflow_rows_def)
  show ?case
  proof (cases "closest_inflow claimed out w None inns")
    case None
    with Cons.prems Cons.IH [of pairs claimed] show ?thesis by (simp add: pair_outflow_def)
  next
    case (Some best)
    obtain i d where b: "best = (i, d)" by force
    from closest_inflow_eligible [OF Some [unfolded b]]
    have i: "i \<in> set inns" "transfer_gap claimed out w i = Some d" by auto
    then have inn: "i \<in> set ts" "\<not> tx_pending i" "tx_amount i > 0" using Cons.prems(6) by (auto simp: inflow_rows_def)
    note gap = i(2) [unfolded transfer_gap_Some]
    let ?p = "\<lparr>ip_outflowId = tx_id out, ip_inflowId = tx_id i, ip_amount = \<bar>tx_amount out\<bar>,
      ip_currency = tx_currency out, ip_daysApart = d\<rparr>"
    have "both_sides ts w ?p out i" using gap out inn by (auto simp: both_sides_def)
    moreover have "tx_id i \<noteq> tx_id out"
      using Cons.prems(7) inn out by (auto simp: distinct_map inj_on_def)
    moreover have "tx_id i \<notin> tx_id ` set outs"
    proof
      assume "tx_id i \<in> tx_id ` set outs"
      then obtain o' where "o' \<in> set outs" "tx_id o' = tx_id i" by auto
      then have "o' \<in> set ts" "tx_amount o' < 0" using Cons.prems(5) by (auto simp: outflow_rows_def)
      with \<open>tx_id o' = tx_id i\<close> inn Cons.prems(7) show False by (auto simp: distinct_map inj_on_def)
    qed
    moreover have "tx_id i \<notin> set (pair_ids pairs)" "tx_id out \<notin> set (pair_ids pairs)"
      using gap Cons.prems(3,9) by auto
    ultimately have step: "\<forall>p \<in> set (pairs @ [?p]). \<exists>out inn. both_sides ts w p out inn" "distinct (pair_ids (pairs @ [?p]))"
      "\<forall>o' \<in> set outs. tx_id o' \<notin> set (pair_ids (pairs @ [?p]))"
      using Cons.prems(1,2,8,9) by (auto simp: pair_ids_def image_iff)
    have cl: "set (set_add (tx_id out) (set_add (tx_id i) claimed)) = set (pair_ids (pairs @ [?p]))"
      using Cons.prems(3,4) by (auto simp: pair_ids_def)
    show ?thesis
      using Cons.IH [OF step(1,2) eq_refl [OF cl [symmetric]] eq_refl [OF cl] _ Cons.prems(6,7) _ step(3)] Cons.prems(5,8) b Some
      by (simp add: pair_outflow_def)
  qed
qed simp

lemma detected_pairs:
  assumes "distinct (map tx_id ts)"
  shows "(\<forall>p \<in> set (detectInternalTransfers lc ts w).
      \<exists>out inn. both_sides ts (case w of None \<Rightarrow> 3 | Some d \<Rightarrow> d) p out inn) \<and>
    distinct (pair_ids (detectInternalTransfers lc ts w))"
proof -
  have "distinct (map tx_id (outflow_rows ts))" using assms by (simp add: outflow_rows_def distinct_map_filter)
  then have d: "distinct (map tx_id (js_sort (byDateThenId lc) (outflow_rows ts)))" by (simp add: distinct_map_js_sort)
  show ?thesis
    using pair_outflows [of "[]" ts _ "[]" "js_sort (byDateThenId lc) (outflow_rows ts)"
        "js_sort (byDateThenId lc) (inflow_rows ts)"] assms d
    unfolding detectInternalTransfers_def Let_def DEFAULT_WINDOW_DAYS_def by (simp add: pair_ids_def)
qed

text \<open>C24: Every pair is one movement of money: two posted rows of the ledger in different accounts, equal and
  opposite amounts of one currency, no further apart than the window. No row is in two pairs.\<close>

theorem transfers_are_genuine:
  "distinct (map tx_id ts) \<Longrightarrow>
   list_all (\<lambda>p. \<exists>out inn. both_sides ts (case w of None \<Rightarrow> 3 | Some d \<Rightarrow> d) p out inn) (detectInternalTransfers lc ts w) \<and>
   distinct (pair_ids (detectInternalTransfers lc ts w))"
  using detected_pairs [of ts lc w] by (simp add: list_all_iff)

definition moved_row :: "string \<Rightarrow> string \<Rightarrow> string \<Rightarrow> int \<Rightarrow> string \<Rightarrow> transaction" where
  "moved_row i acc day amount category = \<lparr>tx_id = i, tx_accountId = acc, tx_providerTxnId = i, tx_postedAt = day,
     tx_amount = amount, tx_currency = ''USD'', tx_rawDescriptor = ''Corner shop'', tx_normalizedDescriptor = ''corner shop'',
     tx_merchant = None, tx_merchantOverride = None, tx_note = None, tx_excludedFromAnalytics = None,
     tx_categorySlug = category, tx_categorySource = Lexicon, tx_categoryConfidence = 1, tx_isRecurring = False,
     tx_recurringOverride = None, tx_duplicateReported = None, tx_pending = False, tx_tags = None, tx_importBatchId = None\<rparr>"

definition moved_rows :: "transaction list" where
  "moved_rows = [moved_row ''t3'' ''sav'' ''2026-03-04'' 500 ''unknown'', moved_row ''t1'' ''chk'' ''2026-03-02'' (- 500) ''unknown'',
     moved_row ''t2'' ''sav'' ''2026-03-03'' 500 ''unknown'', moved_row ''t4'' ''chk'' ''2026-03-05'' (- 70) ''groceries'']"

lemma moved_rows_pairs:
  "detectInternalTransfers code_unit_compare moved_rows None =
     [\<lparr>ip_outflowId = ''t1'', ip_inflowId = ''t2'', ip_amount = 500, ip_currency = ''USD'', ip_daysApart = 1\<rparr>]"
  and moved_rows_distinct: "distinct (map tx_id moved_rows)"
  by code_simp+

theorem transfers_are_genuine_witness:
  "detectInternalTransfers code_unit_compare moved_rows None =
     [\<lparr>ip_outflowId = ''t1'', ip_inflowId = ''t2'', ip_amount = 500, ip_currency = ''USD'', ip_daysApart = 1\<rparr>] \<and>
   list_all (\<lambda>p. \<exists>out inn. both_sides moved_rows 3 p out inn) (detectInternalTransfers code_unit_compare moved_rows None)"
  using transfers_are_genuine [OF moved_rows_distinct, of None code_unit_compare] moved_rows_pairs by simp

section \<open>Leaving transfers out\<close>

lemma set_internalTransferIds: "set (internalTransferIds pairs) = set (pair_ids pairs)"
proof -
  have "set (foldl (\<lambda>ids p. set_add (ip_inflowId p) (set_add (ip_outflowId p) ids)) ids pairs) =
      set ids \<union> set (pair_ids pairs)" for ids
    by (induction pairs arbitrary: ids) (auto simp: pair_ids_def)
  then show ?thesis by (simp add: internalTransferIds_def)
qed

definition net_of :: "string \<Rightarrow> transaction list \<Rightarrow> int" where
  "net_of currency ts = sum_list (map tx_amount (filter (\<lambda>t. tx_currency t = currency) ts))"

lemma net_of_cons: "net_of c (t # ts) = (if tx_currency t = c then tx_amount t else 0) + net_of c ts"
  by (simp add: net_of_def)

lemma net_without_one:
  "distinct (map tx_id ts) \<Longrightarrow> t \<in> set ts \<Longrightarrow>
   net_of c (filter (\<lambda>x. tx_id x \<noteq> tx_id t) ts) = net_of c ts - (if tx_currency t = c then tx_amount t else 0)"
proof (induction ts)
  case (Cons x ts)
  show ?case
  proof (cases "x = t")
    case True
    with Cons.prems have "filter (\<lambda>x. tx_id x \<noteq> tx_id t) ts = ts" by (auto simp: filter_id_conv image_iff)
    with True show ?thesis by (simp add: net_of_cons)
  next
    case False
    with Cons.prems have "tx_id x \<noteq> tx_id t" by auto
    with False Cons show ?thesis by (simp add: net_of_cons)
  qed
qed simp

lemma net_without_pairs:
  assumes "distinct (map tx_id ts)" and "distinct (pair_ids pairs)"
    and "\<forall>p \<in> set pairs. \<exists>out inn. both_sides ts w p out inn"
  shows "net_of c (filter (\<lambda>t. tx_id t \<notin> set (pair_ids pairs)) ts) = net_of c ts"
  using assms
proof (induction pairs arbitrary: ts)
  case (Cons p pairs)
  obtain out inn where p: "both_sides ts w p out inn" using Cons.prems(3) by auto
  define ts1 where "ts1 = filter (\<lambda>x. tx_id x \<noteq> tx_id out) ts"
  define ts2 where "ts2 = filter (\<lambda>x. tx_id x \<noteq> tx_id inn) ts1"
  have d: "distinct (map tx_id ts1)" "distinct (map tx_id ts2)"
    using Cons.prems(1) by (simp_all add: ts1_def ts2_def distinct_map_filter)
  have ids: "tx_id out = ip_outflowId p" "tx_id inn = ip_inflowId p" "ip_outflowId p \<noteq> ip_inflowId p"
    using p Cons.prems(2) by (auto simp: both_sides_def pair_ids_def)
  have keep: "\<forall>q \<in> set pairs. \<exists>out inn. both_sides ts2 w q out inn"
  proof
    fix q assume q: "q \<in> set pairs"
    then obtain o' i' where s: "both_sides ts w q o' i'" using Cons.prems(3) by auto
    have "ip_outflowId q \<noteq> ip_outflowId p" "ip_outflowId q \<noteq> ip_inflowId p" "ip_inflowId q \<noteq> ip_outflowId p"
      "ip_inflowId q \<noteq> ip_inflowId p" using q Cons.prems(2) by (auto simp: pair_ids_def image_iff)
    with s ids have "both_sides ts2 w q o' i'" by (simp add: both_sides_def ts1_def ts2_def)
    then show "\<exists>out inn. both_sides ts2 w q out inn" by blast
  qed
  have "net_of c ts2 = net_of c ts"
    using p ids net_without_one [OF Cons.prems(1), of out c] net_without_one [OF d(1), of inn c]
    by (auto simp: both_sides_def ts1_def ts2_def split: if_splits)
  moreover have "filter (\<lambda>t. tx_id t \<notin> set (pair_ids (p # pairs))) ts = filter (\<lambda>t. tx_id t \<notin> set (pair_ids pairs)) ts2"
    by (auto simp: ts1_def ts2_def ids pair_ids_def intro: filter_cong)
  ultimately show ?case using Cons.IH [OF d(2) _ keep] Cons.prems(2) by (simp add: pair_ids_def)
qed (simp add: pair_ids_def)

text \<open>Leaving the detected transfers out changes what is counted as income and spending, never the net: in
  each currency the rows that stay add up to what all rows add up to.\<close>

theorem excluding_transfers_keeps_net:
  "distinct (map tx_id ts) \<Longrightarrow>
   net_of c (filter (\<lambda>t. tx_id t \<notin> set (internalTransferIds (detectInternalTransfers lc ts w))) ts) = net_of c ts"
  using net_without_pairs detected_pairs by (metis set_internalTransferIds)

theorem excluding_transfers_keeps_net_witness:
  "net_of ''USD'' (filter (\<lambda>t. tx_id t \<notin> set (internalTransferIds
     (detectInternalTransfers code_unit_compare moved_rows None))) moved_rows) = net_of ''USD'' moved_rows"
  using excluding_transfers_keeps_net [OF moved_rows_distinct] .

section \<open>The order of the ledger does not matter\<close>

lemma sorted_unique:
  fixes cmp :: "'a \<Rightarrow> 'a \<Rightarrow> int"
  assumes "sorted_wrt (\<lambda>x y. cmp x y \<le> 0) xs" and "sorted_wrt (\<lambda>x y. cmp x y \<le> 0) ys" and "mset xs = mset ys"
    and "\<And>x y. x \<in> set xs \<Longrightarrow> y \<in> set xs \<Longrightarrow> cmp x y \<le> 0 \<Longrightarrow> cmp y x \<le> 0 \<Longrightarrow> x = y"
  shows "xs = ys"
  using assms
proof (induction xs arbitrary: ys)
  case (Cons x xs)
  then obtain y ys' where ys: "ys = y # ys'" by (cases ys) auto
  have s: "set (x # xs) = set ys" using Cons.prems(3) by (metis set_mset_mset)
  have "x = y"
  proof (rule ccontr)
    assume "x \<noteq> y"
    with s ys have "x \<in> set ys'" "y \<in> set xs" by auto
    with Cons.prems(1,2) ys have "cmp x y \<le> 0" "cmp y x \<le> 0" by auto
    with Cons.prems(4) \<open>y \<in> set xs\<close> \<open>x \<noteq> y\<close> show False by auto
  qed
  moreover have "xs = ys'" using Cons.prems ys \<open>x = y\<close> by (intro Cons.IH) auto
  ultimately show ?case using ys by simp
qed simp

lemma js_sort_order_free:
  assumes "preorder_cmp cmp" and "mset xs = mset ys"
    and "\<And>x y. x \<in> set xs \<Longrightarrow> y \<in> set xs \<Longrightarrow> cmp x y \<le> 0 \<Longrightarrow> cmp y x \<le> 0 \<Longrightarrow> x = y"
  shows "js_sort cmp xs = js_sort cmp ys"
  using assms by (intro sorted_unique [of cmp] sorted_wrt_js_sort) simp_all

definition faithful :: "(string \<Rightarrow> string \<Rightarrow> int) \<Rightarrow> bool" where
  "faithful lc \<longleftrightarrow> collation lc \<and> (\<forall>a b. lc a b \<le> 0 \<longrightarrow> lc b a \<le> 0 \<longrightarrow> a = b)"

lemma byDateThenId_preorder: "faithful lc \<Longrightarrow> preorder_cmp (byDateThenId lc)"
  unfolding preorder_cmp_def
proof (intro conjI allI impI)
  fix x y z :: transaction
  assume lc: "faithful lc"
  then show "byDateThenId lc x y \<le> 0 \<or> byDateThenId lc y x \<le> 0"
    by (auto simp: byDateThenId_def faithful_def collation_def preorder_cmp_def)
  assume "byDateThenId lc x y \<le> 0" "byDateThenId lc y z \<le> 0"
  with lc show "byDateThenId lc x z \<le> 0"
    unfolding byDateThenId_def faithful_def collation_def preorder_cmp_def by (smt (verit))
qed

text \<open>C25: The result is a function of the set of rows: two listings of the same rows in different orders are paired
  alike. Ids are distinct, and the collation tells different strings apart.\<close>

theorem pairing_ignores_order:
  assumes "faithful lc" and "distinct (map tx_id ts)" and "mset ts = mset ts'"
  shows "detectInternalTransfers lc ts w = detectInternalTransfers lc ts' w"
proof -
  have anti: "x = y" if "x \<in> set ts" "y \<in> set ts" "byDateThenId lc x y \<le> 0" "byDateThenId lc y x \<le> 0" for x y
  proof -
    have "tx_id x = tx_id y" using that(3,4) assms(1)
      by (auto simp: byDateThenId_def faithful_def split: if_splits)
    with that(1,2) assms(2) show ?thesis by (auto simp: distinct_map inj_on_def)
  qed
  have "js_sort (byDateThenId lc) (filter P ts) = js_sort (byDateThenId lc) (filter P ts')" for P
    using assms(3) anti by (intro js_sort_order_free byDateThenId_preorder assms(1)) (auto simp: mset_filter)
  then show ?thesis by (simp add: detectInternalTransfers_def outflow_rows_def inflow_rows_def)
qed

lemma faithful_code_unit: "faithful code_unit_compare"
  using collation_code_unit by (auto simp: faithful_def code_unit_compare_def split: if_splits)

theorem pairing_ignores_order_witness:
  "detectInternalTransfers code_unit_compare moved_rows None = detectInternalTransfers code_unit_compare (rev moved_rows) None"
  by (rule pairing_ignores_order [OF faithful_code_unit moved_rows_distinct]) simp

section \<open>Refunds\<close>

definition genuine_refund :: "transaction list \<Rightarrow> refundMatch \<Rightarrow> bool" where
  "genuine_refund ts m \<longleftrightarrow> (\<exists>r \<in> set ts. \<exists>p \<in> set ts. tx_id r = rm_refundId m \<and> tx_id p = rm_purchaseId m \<and>
     \<not> tx_pending r \<and> \<not> tx_pending p \<and> tx_accountId p = tx_accountId r \<and> tx_currency p = tx_currency r \<and>
     tx_postedAt p \<le> tx_postedAt r \<and> 0 < rm_amount m \<and> rm_amount m = tx_amount r \<and>
     rm_purchaseAmount m = - tx_amount p \<and> rm_amount m \<le> rm_purchaseAmount m \<and>
     rm_daysAfterPurchase m \<le> MAX_REFUND_DAYS)"

lemma filter_or_throw_set: "filter_or_throw p xs = Some ys \<Longrightarrow> y \<in> set ys \<Longrightarrow> y \<in> set xs \<and> p y = Some True"
  by (induction xs arbitrary: ys) (auto split: option.splits if_splits)

lemma refundable_True: "refundable used r p = Some True \<Longrightarrow> tx_id p \<notin> set used \<and> tx_accountId p = tx_accountId r \<and>
    tx_currency p = tx_currency r \<and> tx_postedAt p \<le> tx_postedAt r \<and> tx_amount r \<le> \<bar>tx_amount p\<bar> \<and>
    (\<exists>d. days_after p r = Some d \<and> d \<le> MAX_REFUND_DAYS)"
  by (auto simp: refundable_def split: if_splits)

lemma matched_refunds:
  assumes "match_refunds_from lc ps used rs = Some ms" and "set ps \<subseteq> set (purchase_rows ts)"
    and "set rs \<subseteq> set (refund_rows ts)" and "distinct (map tx_id rs)"
  shows "list_all (genuine_refund ts) ms \<and> distinct (map rm_purchaseId ms) \<and>
    set (map rm_purchaseId ms) \<inter> set used = {} \<and>
    distinct (map rm_refundId ms) \<and> set (map rm_refundId ms) \<subseteq> set (map tx_id rs)"
  using assms
proof (induction lc ps used rs arbitrary: ms rule: match_refunds_from.induct)
  case (2 lc ps used r rs)
  from 2(3) obtain cs where cs: "filter_or_throw (refundable used r) ps = Some cs" by (auto split: option.splits)
  show ?case
  proof (cases "js_sort (better_candidate lc) (map (scoreCandidate r) cs)")
    case Nil
    with 2 cs show ?thesis by auto
  next
    case (Cons best rest)
    then have "best \<in> set (map (scoreCandidate r) cs)" by (metis list.set_intros(1) set_js_sort)
    then obtain p where p: "p \<in> set cs" "best = scoreCandidate r p" by auto
    from filter_or_throw_set [OF cs p(1)] refundable_True
    have ok: "p \<in> set ps" "tx_id p \<notin> set used" "tx_accountId p = tx_accountId r" "tx_currency p = tx_currency r"
      "tx_postedAt p \<le> tx_postedAt r" "tx_amount r \<le> \<bar>tx_amount p\<bar>" "the (days_after p r) \<le> MAX_REFUND_DAYS" by force+
    then have "genuine_refund ts (refund_match r best)"
      using 2(4,5) p(2) unfolding genuine_refund_def
      by (intro bexI [of _ r] bexI [of _ p])
        (auto simp: refund_match_def scoreCandidate_def Let_def purchase_rows_def refund_rows_def)
    moreover from 2(3) cs Cons obtain ms' where
      "ms = refund_match r best # ms'" "match_refunds_from lc ps (set_add (tx_id (rfc_purchase best)) used) rs = Some ms'" by auto
    ultimately show ?thesis
      using 2(2) [OF cs Cons, of ms'] 2(4-6) ok p(2)
      by (auto simp: refund_match_def scoreCandidate_def Let_def)
  qed
qed simp

text \<open>A refund is matched with an earlier posted purchase of the same account and currency, never one smaller
  than itself, at most 120 days back. No purchase and no refund is used twice.\<close>

theorem refunds_match_purchases:
  assumes "matchRefunds lc ts = Some ms" and "distinct (map tx_id ts)"
  shows "list_all (genuine_refund ts) ms \<and> distinct (map rm_purchaseId ms) \<and> distinct (map rm_refundId ms)"
proof -
  let ?rs = "js_sort (cmp_or (\<lambda>a b. lc (tx_postedAt a) (tx_postedAt b)) (\<lambda>a b. lc (tx_id a) (tx_id b))) (refund_rows ts)"
  have "distinct (map tx_id ?rs)" using assms(2) by (simp add: distinct_map_js_sort refund_rows_def distinct_map_filter)
  then show ?thesis
    using matched_refunds [of lc "purchase_rows ts" "[]" ?rs ms ts] assms(1)
    by (auto simp: matchRefunds_def)
qed

theorem refunds_match_purchases_witness:
  "\<exists>m. matchRefunds code_unit_compare
      [moved_row ''r1'' ''chk'' ''2026-03-09'' 40 ''refunds'', moved_row ''p1'' ''chk'' ''2026-03-05'' (- 70) ''groceries''] = Some [m] \<and>
    rm_purchaseId m = ''p1'' \<and> list_all (genuine_refund
      [moved_row ''r1'' ''chk'' ''2026-03-09'' 40 ''refunds'', moved_row ''p1'' ''chk'' ''2026-03-05'' (- 70) ''groceries'']) [m]"
proof -
  let ?ts = "[moved_row ''r1'' ''chk'' ''2026-03-09'' 40 ''refunds'', moved_row ''p1'' ''chk'' ''2026-03-05'' (- 70) ''groceries'']"
  have "map_option (map rm_purchaseId) (matchRefunds code_unit_compare ?ts) = Some [''p1'']" by code_simp
  then obtain m where m: "matchRefunds code_unit_compare ?ts = Some [m]" "rm_purchaseId m = ''p1''" by auto
  have "distinct (map tx_id ?ts)" by code_simp
  with refunds_match_purchases [OF m(1)] m show ?thesis by blast
qed

end
