(* ===== verification/Analytics.thy ===== *)
theory Analytics
  imports Transfers
begin

text \<open>
  The analytics of a period, \<open>domain/insights/analytics.ts\<close>: totals by category, merchant and account,
  income, savings, pace, the trend series and the timeline. Money is whole minor units of one currency;
  a date that names no day makes the code throw (None).
\<close>

section \<open>Totals and events\<close>

record analyticsTotal =
  at_key :: string
  at_total :: int
  at_count :: nat

datatype eventKind = EIncome | ERefund | EExpense | EBill | ESubscription | ETransfer | EUnusual

record timelineEvent =
  te_id :: string
  te_date :: string
  te_label :: string
  te_kind :: eventKind
  te_amount :: int
  te_accountId :: string

definition addTotal :: "(string, int \<times> nat) jsmap \<Rightarrow> string \<Rightarrow> int \<Rightarrow> (string, int \<times> nat) jsmap" where
  "addTotal totals key amount = (case get_or totals key (0, 0) of (s, n) \<Rightarrow> map_set key (s + amount, n + 1) totals)"

definition sortedTotals :: "(string \<Rightarrow> string \<Rightarrow> int) \<Rightarrow> (string, int \<times> nat) jsmap \<Rightarrow> analyticsTotal list" where
  "sortedTotals lc totals =
     js_sort (cmp_or (\<lambda>a b. at_total b - at_total a) (\<lambda>a b. lc (at_key a) (at_key b)))
       (map (\<lambda>(key, s, n). \<lparr>at_key = key, at_total = s, at_count = n\<rparr>) totals)"

definition expenseAmount :: "transaction \<Rightarrow> int" where
  "expenseAmount t = max 0 (- tx_amount t)"

definition is_refund :: "transaction \<Rightarrow> bool" where
  "is_refund t \<longleftrightarrow> tx_categorySlug t = ''refunds'' \<and> tx_amount t > 0"

definition is_income :: "transaction \<Rightarrow> bool" where
  "is_income t \<longleftrightarrow> isIncomeCategory (tx_categorySlug t) \<and> tx_amount t > 0 \<and> tx_categorySlug t \<noteq> ''refunds''"

definition is_expense :: "transaction \<Rightarrow> bool" where
  "is_expense t \<longleftrightarrow> isSpendingCategory (tx_categorySlug t) \<and> tx_amount t < 0"

definition eventKind_of :: "transaction \<Rightarrow> eventKind" where
  "eventKind_of t =
     (if is_refund t then ERefund
      else if isIncomeCategory (tx_categorySlug t) \<and> tx_amount t > 0 then EIncome
      else if tx_categorySlug t \<in> {''transfer'', ''savings'', ''investments''} then ETransfer
      else if tx_isRecurring t
        then (if tx_categorySlug t \<in> {''subscriptions'', ''software''} then ESubscription else EBill)
      else if tx_categorySource t = UnknownSource then EUnusual else EExpense)"

definition label_of :: "transaction \<Rightarrow> string" where
  "label_of t = (case tx_merchant t of None \<Rightarrow> tx_normalizedDescriptor t | Some m \<Rightarrow> m)"

definition toEvent :: "transaction \<Rightarrow> timelineEvent" where
  "toEvent t = \<lparr>te_id = tx_id t, te_date = tx_postedAt t, te_label = label_of t, te_kind = eventKind_of t,
     te_amount = tx_amount t, te_accountId = tx_accountId t\<rparr>"

section \<open>The trend\<close>

datatype trendBucket = ByDay | ByWeek | ByMonth

record trendPoint =
  tp_date :: string
  tp_income :: int
  tp_expenses :: int
  tp_refunds :: int
  tp_net :: int

definition trendBucket_of :: "dateRange \<Rightarrow> trendBucket option" where
  "trendBucket_of period = map_option (\<lambda>days. if days \<le> 62 then ByDay else if days \<le> 370 then ByWeek else ByMonth)
     (daysBetweenInclusive (dr_start period) (dr_end period))"

definition trendBucketStart :: "string \<Rightarrow> trendBucket \<Rightarrow> string option" where
  "trendBucketStart date bucket = (case bucket of
     ByDay \<Rightarrow> Some date | ByWeek \<Rightarrow> map_option dr_start (weekRange date) | ByMonth \<Rightarrow> Some (startOfMonth date))"

definition nextTrendBucket :: "string \<Rightarrow> trendBucket \<Rightarrow> string option" where
  "nextTrendBucket date bucket = (case bucket of
     ByDay \<Rightarrow> addDays date 1 | ByWeek \<Rightarrow> addDays date 7 | ByMonth \<Rightarrow> addMonths date 1)"

definition emptyTrendPoint :: "string \<Rightarrow> trendPoint" where
  "emptyTrendPoint date = \<lparr>tp_date = date, tp_income = 0, tp_expenses = 0, tp_refunds = 0, tp_net = 0\<rparr>"

text \<open>
  The loop over the buckets, with a bound on its rounds. Each step moves at least a day on and the first
  bucket starts at most 30 days before the period, so the number of days and 32 rounds are enough.
\<close>

fun trend_dates :: "nat \<Rightarrow> trendBucket \<Rightarrow> string \<Rightarrow> string \<Rightarrow> string list option" where
  "trend_dates 0 bucket date stop = Some []"
| "trend_dates (Suc n) bucket date stop =
     (if date \<le> stop
      then (case nextTrendBucket date bucket of
          None \<Rightarrow> None | Some later \<Rightarrow> map_option ((#) date) (trend_dates n bucket later stop))
      else Some [])"

definition add_to_point :: "transaction \<Rightarrow> trendPoint \<Rightarrow> trendPoint" where
  "add_to_point t p0 =
     (let p = (if is_income t then p0\<lparr>tp_income := tp_income p0 + tx_amount t\<rparr>
        else if is_refund t then p0\<lparr>tp_refunds := tp_refunds p0 + tx_amount t\<rparr>
        else if is_expense t then p0\<lparr>tp_expenses := tp_expenses p0 + expenseAmount t\<rparr>
        else p0)
      in p\<lparr>tp_net := tp_income p + tp_refunds p - tp_expenses p\<rparr>)"

definition trend_step :: "trendBucket \<Rightarrow> (string, trendPoint) jsmap option \<Rightarrow> transaction \<Rightarrow> (string, trendPoint) jsmap option" where
  "trend_step bucket points t = Option.bind points (\<lambda>m.
     map_option (\<lambda>key. map_set key (add_to_point t (get_or m key (emptyTrendPoint key))) m)
       (trendBucketStart (tx_postedAt t) bucket))"

definition buildTrend :: "(string \<Rightarrow> string \<Rightarrow> int) \<Rightarrow> transaction list \<Rightarrow> dateRange \<Rightarrow> trendPoint list option" where
  "buildTrend lc rows period =
     Option.bind (trendBucket_of period) (\<lambda>bucket.
     Option.bind (trendBucketStart (dr_start period) bucket) (\<lambda>date.
     Option.bind (trendBucketStart (dr_end period) bucket) (\<lambda>stop.
     Option.bind (trend_dates (nat (the (daysBetweenInclusive (dr_start period) (dr_end period))) + 32) bucket date stop) (\<lambda>dates.
       map_option (\<lambda>points. js_sort (\<lambda>a b. lc (tp_date a) (tp_date b)) (map snd points))
         (foldl (trend_step bucket) (Some (foldl (\<lambda>m d. map_set d (emptyTrendPoint d) m) [] dates)) rows)))))"

section \<open>The report\<close>

record spendingVelocity =
  sv_currentPeriodSpend :: int
  sv_projectedPeriodSpend :: int
  sv_historicalAverageSpend :: "int option"
  sv_percentDelta :: "rat option"
  sv_enoughHistory :: bool

record analyticsReport =
  an_period :: dateRange
  an_currency :: string
  an_grossExpenses :: int
  an_refunds :: int
  an_refundMatches :: "refundMatch list"
  an_netExpenses :: int
  an_expenseCount :: nat
  an_averageExpense :: int
  an_medianExpense :: int
  an_largestExpense :: "timelineEvent option"
  an_spendingByCategory :: "analyticsTotal list"
  an_spendingByMerchant :: "analyticsTotal list"
  an_spendingByAccount :: "analyticsTotal list"
  an_recurringSpending :: int
  an_discretionarySpending :: int
  an_essentialSpending :: int
  an_totalIncome :: int
  an_recurringIncome :: int
  an_irregularIncome :: int
  an_incomeBySource :: "analyticsTotal list"
  an_savings :: int
  an_savingsRate :: rat
  an_averageMonthlySavings :: int
  an_velocity :: spendingVelocity
  an_trend :: "trendPoint list"
  an_timeline :: "timelineEvent list"

definition counted :: "string \<Rightarrow> dateRange \<Rightarrow> transaction \<Rightarrow> bool" where
  "counted currency period t \<longleftrightarrow> tx_currency t = currency \<and> \<not> tx_pending t \<and>
     tx_excludedFromAnalytics t \<noteq> Some True \<and> isWithin (tx_postedAt t) period"

definition total_by :: "(transaction \<Rightarrow> string) \<Rightarrow> (transaction \<Rightarrow> int) \<Rightarrow> transaction list \<Rightarrow> (string, int \<times> nat) jsmap" where
  "total_by key amount ts = foldl (\<lambda>m t. addTotal m (key t) (amount t)) [] ts"

definition amount_of :: "(transaction \<Rightarrow> bool) \<Rightarrow> (transaction \<Rightarrow> int) \<Rightarrow> transaction list \<Rightarrow> int" where
  "amount_of p amount ts = foldl (\<lambda>s t. if p t then s + amount t else s) 0 ts"

definition median_expense :: "int list \<Rightarrow> int" where
  "median_expense amounts =
     (let xs = js_sort (\<lambda>a b. a - b) amounts; n = length xs
      in if n = 0 then 0 else if n mod 2 = 1 then xs ! ((n - 1) div 2)
         else js_round (of_int (xs ! (n div 2 - 1) + xs ! (n div 2)) / 2))"

definition largest_expense :: "transaction list \<Rightarrow> transaction option" where
  "largest_expense ts = foldl (\<lambda>current t. case current of None \<Rightarrow> Some t
     | Some c \<Rightarrow> if expenseAmount t > expenseAmount c then Some t else current) None ts"

definition projected_gross :: "int \<Rightarrow> int \<Rightarrow> int \<Rightarrow> int" where
  "projected_gross gross elapsedDays periodDays =
     (if elapsedDays > 0 \<and> elapsedDays < periodDays
      then js_round (fl (fl (of_int gross / of_int elapsedDays) * of_int periodDays)) else gross)"

definition velocity_of :: "transaction list \<Rightarrow> int \<Rightarrow> int \<Rightarrow> int \<Rightarrow> spendingVelocity" where
  "velocity_of historyRows gross projected periodDays =
     (let historicalTotal = amount_of (\<lambda>_. True) expenseAmount historyRows;
          average = (if historyRows = [] then None
            else Some (js_round (fl (fl (of_int historicalTotal / 90) * of_int periodDays))))
      in \<lparr>sv_currentPeriodSpend = gross, sv_projectedPeriodSpend = projected, sv_historicalAverageSpend = average,
          sv_percentDelta = (case average of None \<Rightarrow> None | Some h \<Rightarrow> if h = 0 then None
            else Some (fl (of_int (js_round (fl (fl (of_int (projected - h) / of_int h) * 1000))) / 10))),
          sv_enoughHistory = (length historyRows \<ge> 3)\<rparr>)"

definition monthly_saving :: "transaction \<Rightarrow> int" where
  "monthly_saving t = (if is_income t then tx_amount t else 0) - (if is_expense t then expenseAmount t else 0) +
     (if is_refund t then tx_amount t else 0)"

definition average_monthly_savings :: "transaction list \<Rightarrow> int" where
  "average_monthly_savings rows =
     (let m = foldl (\<lambda>m t. let month = slice 0 7 (tx_postedAt t)
            in map_set month (get_or m month 0 + monthly_saving t) m) [] rows
      in if m = [] then 0 else js_round (fl (of_int (map_total m) / of_nat (length m))))"

definition computeAnalytics :: "(string \<Rightarrow> string \<Rightarrow> int) \<Rightarrow> transaction list \<Rightarrow> dateRange \<Rightarrow> string \<Rightarrow> string
    \<Rightarrow> analyticsReport option" where
  "computeAnalytics lc ts period currency asOf =
     (let rows = filter (counted currency period) ts;
          spending = filter is_expense rows;
          incomes = filter is_income rows;
          refundRows = filter is_refund rows;
          gross = sum_list (map expenseAmount spending);
          refunds = sum_list (map tx_amount refundRows);
          netExpenses = max 0 (gross - refunds);
          totalIncome = amount_of (\<lambda>_. True) tx_amount incomes;
          recurringIncome = amount_of tx_isRecurring tx_amount incomes;
          savings = totalIncome - netExpenses
      in Option.bind (matchRefunds lc ts) (\<lambda>matches.
         Option.bind (daysBetweenInclusive (dr_start period) (dr_end period)) (\<lambda>periodDays.
         Option.bind (if asOf < dr_start period then Some 0
             else daysBetweenInclusive (dr_start period) (if asOf < dr_end period then asOf else dr_end period)) (\<lambda>elapsedDays.
         Option.bind (addDays (dr_start period) (- 90)) (\<lambda>historyStart.
         Option.bind (addDays (dr_start period) (- 1)) (\<lambda>historyEnd.
         let historyRows = filter (\<lambda>t. counted currency \<lparr>dr_start = historyStart, dr_end = historyEnd\<rparr> t \<and> is_expense t) ts
         in map_option (\<lambda>trend.
           \<lparr>an_period = period, an_currency = currency, an_grossExpenses = gross, an_refunds = refunds,
            an_refundMatches = filter (\<lambda>m. rm_refundId m \<in> set (map tx_id refundRows)) matches,
            an_netExpenses = netExpenses, an_expenseCount = length spending,
            an_averageExpense = (if spending = [] then 0 else js_round (fl (of_int gross / of_nat (length spending)))),
            an_medianExpense = median_expense (map expenseAmount spending),
            an_largestExpense = map_option toEvent (largest_expense spending),
            an_spendingByCategory = sortedTotals lc (total_by tx_categorySlug expenseAmount spending),
            an_spendingByMerchant = sortedTotals lc (total_by label_of expenseAmount spending),
            an_spendingByAccount = sortedTotals lc (total_by tx_accountId expenseAmount spending),
            an_recurringSpending = amount_of tx_isRecurring expenseAmount spending,
            an_discretionarySpending = amount_of (\<lambda>t. \<not> isEssentialCategory (tx_categorySlug t)) expenseAmount spending,
            an_essentialSpending = amount_of (\<lambda>t. isEssentialCategory (tx_categorySlug t)) expenseAmount spending,
            an_totalIncome = totalIncome, an_recurringIncome = recurringIncome,
            an_irregularIncome = totalIncome - recurringIncome,
            an_incomeBySource = sortedTotals lc (total_by
              (\<lambda>t. case tx_merchant t of None \<Rightarrow> displayName (tx_categorySlug t) | Some m \<Rightarrow> m) tx_amount incomes),
            an_savings = savings,
            an_savingsRate = (if totalIncome > 0 then max 0 (fl (fl (of_int savings / of_int totalIncome) * 100)) else 0),
            an_averageMonthlySavings = average_monthly_savings rows,
            an_velocity = velocity_of historyRows gross (projected_gross gross elapsedDays periodDays) periodDays,
            an_trend = trend,
            an_timeline = take 200 (js_sort (cmp_or (\<lambda>a b. lc (te_date b) (te_date a)) (\<lambda>a b. lc (te_id b) (te_id a)))
              (map toEvent rows))\<rparr>) (buildTrend lc rows period)))))))"

end
