(* ===== verification/AnalyticsSafety.thy ===== *)
theory AnalyticsSafety
  imports Analytics TransferSafety
begin

text \<open>
  The figures of a report agree with each other: every breakdown and the trend series add up to the
  totals they break down.
\<close>

section \<open>Sums over the values of a map\<close>

lemma map_sum_set:
  fixes f :: "'v \<Rightarrow> int"
  assumes "distinct (map fst m)"
  shows "sum_list (map (\<lambda>p. f (snd p)) (map_set k v m)) =
    sum_list (map (\<lambda>p. f (snd p)) m) - (case map_of m k of None \<Rightarrow> 0 | Some w \<Rightarrow> f w) + f v"
  using assms
proof (induction m)
  case (Cons p m)
  show ?case
  proof (cases "fst p = k")
    case True
    then show ?thesis by (cases p) simp
  next
    case False
    with Cons show ?thesis by (cases p) simp
  qed
qed simp

lemma addTotal_facts:
  "distinct (map fst m) \<Longrightarrow> distinct (map fst (addTotal m k a)) \<and>
   sum_list (map (\<lambda>p. fst (snd p)) (addTotal m k a)) = sum_list (map (\<lambda>p. fst (snd p)) m) + a"
  using map_sum_set [of m fst k] by (auto simp: addTotal_def get_or_def distinct_map_set split: prod.splits option.splits)

lemma total_by_sum: "sum_list (map (\<lambda>p. fst (snd p)) (total_by key amount ts)) = sum_list (map amount ts)"
proof -
  have "distinct (map fst m) \<Longrightarrow>
      sum_list (map (\<lambda>p. fst (snd p)) (foldl (\<lambda>m t. addTotal m (key t) (amount t)) m ts)) =
      sum_list (map (\<lambda>p. fst (snd p)) m) + sum_list (map amount ts)" for m
    by (induction ts arbitrary: m) (simp_all add: addTotal_facts)
  then show ?thesis by (simp add: total_by_def)
qed

lemma sortedTotals_sum: "sum_list (map at_total (sortedTotals lc m)) = sum_list (map (\<lambda>p. fst (snd p)) m)"
  by (simp add: sortedTotals_def sum_list_js_sort o_def case_prod_unfold)

lemma amount_of_sum: "amount_of p amount ts = sum_list (map amount (filter p ts))"
proof -
  have "foldl (\<lambda>s t. if p t then s + amount t else s) a ts = a + sum_list (map amount (filter p ts))" for a
    by (induction ts arbitrary: a) auto
  then show ?thesis by (simp add: amount_of_def)
qed

lemma sum_split: "sum_list (map f (filter p ts)) + sum_list (map f (filter (\<lambda>t. \<not> p t) ts)) = sum_list (map f ts)"
  for f :: "'a \<Rightarrow> int"
  by (induction ts) auto

section \<open>Breakdowns\<close>

text \<open>Every breakdown of the spending of a period adds up to it: by category, by merchant, by account, and into
  essential and discretionary; income by source adds up to the income.\<close>

theorem breakdowns_add_up:
  assumes "computeAnalytics lc ts period currency asOf = Some r"
  shows "sum_list (map at_total (an_spendingByCategory r)) = an_grossExpenses r \<and>
    sum_list (map at_total (an_spendingByMerchant r)) = an_grossExpenses r \<and>
    sum_list (map at_total (an_spendingByAccount r)) = an_grossExpenses r \<and>
    an_essentialSpending r + an_discretionarySpending r = an_grossExpenses r \<and>
    sum_list (map at_total (an_incomeBySource r)) = an_totalIncome r"
  using assms by (auto simp: computeAnalytics_def Let_def bind_eq_Some_conv sortedTotals_sum total_by_sum amount_of_sum
    sum_split simp del: filter_filter)

section \<open>The trend\<close>

lemma trend_steps:
  fixes f :: "trendPoint \<Rightarrow> int"
  assumes "foldl (trend_step bucket) (Some m) rows = Some points" and "distinct (map fst m)"
    and empty: "\<And>d. f (emptyTrendPoint d) = 0" and step: "\<And>t p. f (add_to_point t p) = f p + g t"
  shows "distinct (map fst points) \<and>
    sum_list (map (\<lambda>p. f (snd p)) points) = sum_list (map (\<lambda>p. f (snd p)) m) + sum_list (map g rows)"
  using assms(1,2)
proof (induction rows arbitrary: m)
  case (Cons t rows)
  have none: "foldl (trend_step bucket) None rows = None" for rows
    by (induction rows) (simp_all add: trend_step_def)
  obtain key where key: "trendBucketStart (tx_postedAt t) bucket = Some key"
    using Cons.prems(1) none
    by (cases "trendBucketStart (tx_postedAt t) bucket") (simp_all add: trend_step_def [of bucket "Some m"])
  let ?m = "map_set key (add_to_point t (get_or m key (emptyTrendPoint key))) m"
  have "sum_list (map (\<lambda>p. f (snd p)) ?m) = sum_list (map (\<lambda>p. f (snd p)) m) + g t"
    using map_sum_set [OF Cons.prems(2), of f key] by (auto simp: step empty get_or_def split: option.splits)
  with Cons.IH [of ?m] Cons.prems key show ?case by (simp add: trend_step_def distinct_map_set)
qed simp

lemma empty_points:
  fixes f :: "trendPoint \<Rightarrow> int"
  assumes "\<And>d. f (emptyTrendPoint d) = 0"
  shows "distinct (map fst (foldl (\<lambda>m d. map_set d (emptyTrendPoint d) m) [] dates)) \<and>
    sum_list (map (\<lambda>p. f (snd p)) (foldl (\<lambda>m d. map_set d (emptyTrendPoint d) m) [] dates)) = 0"
proof (induction dates rule: rev_induct)
  case (snoc d dates)
  then have d: "distinct (map fst (foldl (\<lambda>m d. map_set d (emptyTrendPoint d) m) [] dates))" by blast
  have old: "w = emptyTrendPoint d" if "map_of (foldl (\<lambda>m d. map_set d (emptyTrendPoint d) m) [] dates) d = Some w" for w
    using that by (induction dates rule: rev_induct) (auto split: if_splits)
  have "(case map_of (foldl (\<lambda>m d. map_set d (emptyTrendPoint d) m) [] dates) d of None \<Rightarrow> 0 | Some w \<Rightarrow> f w) = 0"
    using old assms by (cases "map_of (foldl (\<lambda>m d. map_set d (emptyTrendPoint d) m) [] dates) d") force+
  then show ?case using snoc map_sum_set [OF d, of f d "emptyTrendPoint d"] by (simp add: distinct_map_set assms)
qed simp

lemma trend_sum:
  fixes f :: "trendPoint \<Rightarrow> int"
  assumes "buildTrend lc rows period = Some trend"
    and "\<And>d. f (emptyTrendPoint d) = 0" and "\<And>t p. f (add_to_point t p) = f p + g t"
  shows "sum_list (map f trend) = sum_list (map g rows)"
proof -
  from assms(1) obtain bucket dates points where
    p: "foldl (trend_step bucket) (Some (foldl (\<lambda>m d. map_set d (emptyTrendPoint d) m) [] dates)) rows = Some points"
    and t: "trend = js_sort (\<lambda>a b. lc (tp_date a) (tp_date b)) (map snd points)"
    by (auto simp: buildTrend_def bind_eq_Some_conv)
  from empty_points [of f dates] assms(2) trend_steps [OF p, of f g] assms(2,3)
  have "sum_list (map (\<lambda>p. f (snd p)) points) = sum_list (map g rows)" by simp
  then show ?thesis by (simp add: t sum_list_js_sort o_def)
qed

lemma bucket_starts:
  "trend_step bucket None t = None" "is_income t \<Longrightarrow> \<not> is_refund t" "is_income t \<Longrightarrow> \<not> is_expense t"
  "is_refund t \<Longrightarrow> \<not> is_expense t"
  by (auto simp: trend_step_def is_income_def is_refund_def is_expense_def)

lemma add_to_point_fields:
  "tp_income (add_to_point t p) = tp_income p + (if is_income t then tx_amount t else 0)"
  "tp_refunds (add_to_point t p) = tp_refunds p + (if is_refund t then tx_amount t else 0)"
  "tp_expenses (add_to_point t p) = tp_expenses p + (if is_expense t then expenseAmount t else 0)"
  "tp_net (add_to_point t p) = tp_income (add_to_point t p) + tp_refunds (add_to_point t p) - tp_expenses (add_to_point t p)"
  using bucket_starts(2-4) [of t] by (auto simp: add_to_point_def Let_def)

lemma sum_if: "sum_list (map (\<lambda>t. if p t then f t else 0) ts) = sum_list (map f (filter p ts))"
  for f :: "'a \<Rightarrow> int"
  by (induction ts) auto

text \<open>The chart and the report tell the same story: the income, expenses and refunds of the points of the trend
  add up to those of the report, whatever the width of its buckets.\<close>

theorem trend_adds_up:
  assumes "computeAnalytics lc ts period currency asOf = Some r"
  shows "(sum_list (map tp_income (an_trend r)), sum_list (map tp_expenses (an_trend r)),
      sum_list (map tp_refunds (an_trend r))) = (an_totalIncome r, an_grossExpenses r, an_refunds r)"
proof -
  let ?rows = "filter (counted currency period) ts"
  from assms have b: "buildTrend lc ?rows period = Some (an_trend r)"
    and t: "an_totalIncome r = sum_list (map tx_amount (filter is_income ?rows))"
      "an_grossExpenses r = sum_list (map expenseAmount (filter is_expense ?rows))"
      "an_refunds r = sum_list (map tx_amount (filter is_refund ?rows))"
    by (auto simp: computeAnalytics_def Let_def bind_eq_Some_conv amount_of_sum simp del: filter_filter)
  have e: "tp_income (emptyTrendPoint d) = 0" "tp_expenses (emptyTrendPoint d) = 0" "tp_refunds (emptyTrendPoint d) = 0" for d
    by (simp_all add: emptyTrendPoint_def)
  show ?thesis
    using trend_sum [OF b, of tp_income, OF e(1) add_to_point_fields(1)]
      trend_sum [OF b, of tp_expenses, OF e(2) add_to_point_fields(3)]
      trend_sum [OF b, of tp_refunds, OF e(3) add_to_point_fields(2)]
    by (simp add: t sum_if del: filter_filter)
qed

section \<open>An example\<close>

definition spent_rows :: "transaction list" where
  "spent_rows = [moved_row ''t3'' ''chk'' ''2026-03-03'' (- 700) ''groceries'', moved_row ''t2'' ''chk'' ''2026-03-03'' 5000 ''salary'',
     moved_row ''t1'' ''card'' ''2026-03-03'' (- 300) ''streaming'']"

definition one_day :: dateRange where "one_day = \<lparr>dr_start = ''2026-03-03'', dr_end = ''2026-03-03''\<rparr>"

lemma spent_report: "\<exists>r. computeAnalytics code_unit_compare spent_rows one_day ''USD'' ''2026-03-03'' = Some r \<and> an_grossExpenses r = 1000"
proof -
  have iso: "toIsoDate 20515 = ''2026-03-03''" "toIsoDate 20516 = ''2026-03-04''" "in_iso_range 20515" by code_simp+
  then have d: "toUtcDate ''2026-03-03'' = Some 20515" using toUtcDate_toIsoDate by metis
  have m: "matchRefunds code_unit_compare spent_rows = Some []" by code_simp
  have rows: "filter (counted ''USD'' one_day) spent_rows = spent_rows"
    and gross: "sum_list (map expenseAmount (filter is_expense spent_rows)) = 1000" by code_simp+
  have later: "\<not> ''2026-03-04'' \<le> ''2026-03-03''" by code_simp
  obtain dates where "trend_dates (nat 1 + 32) ByDay ''2026-03-03'' ''2026-03-03'' = Some dates"
    by (simp add: nextTrendBucket_def addDays_def d iso(2) eval_nat_numeral later)
  then obtain trend where "buildTrend code_unit_compare spent_rows one_day = Some trend"
    by (simp add: buildTrend_def trendBucket_of_def daysBetweenInclusive_def one_day_def d trendBucketStart_def
      spent_rows_def trend_step_def)
  then show ?thesis
    using d m rows gross by (simp add: computeAnalytics_def Let_def one_day_def daysBetweenInclusive_def addDays_def
      del: filter_filter)
qed

theorem breakdowns_add_up_witness:
  "\<exists>r. computeAnalytics code_unit_compare spent_rows one_day ''USD'' ''2026-03-03'' = Some r \<and> an_grossExpenses r = 1000 \<and>
    sum_list (map at_total (an_spendingByCategory r)) = 1000 \<and> an_essentialSpending r + an_discretionarySpending r = 1000"
proof -
  from spent_report obtain r where r: "computeAnalytics code_unit_compare spent_rows one_day ''USD'' ''2026-03-03'' = Some r"
    "an_grossExpenses r = 1000" by blast
  with breakdowns_add_up [OF r(1)] show ?thesis by auto
qed

theorem trend_adds_up_witness:
  "\<exists>r. computeAnalytics code_unit_compare spent_rows one_day ''USD'' ''2026-03-03'' = Some r \<and>
    sum_list (map tp_expenses (an_trend r)) = 1000"
proof -
  from spent_report obtain r where r: "computeAnalytics code_unit_compare spent_rows one_day ''USD'' ''2026-03-03'' = Some r"
    "an_grossExpenses r = 1000" by blast
  with trend_adds_up [OF r(1)] show ?thesis by auto
qed

end
