(* ===== verification/Forecast.thy ===== *)
theory Forecast
  imports Subscriptions
begin

text \<open>
  The cash-flow forecast, \<open>domain/insights/cash-flow-forecast.ts\<close>: income and bills with a repeatable
  history, projected day by day over the liquid balance. The loops step from date to date until a limit
  is passed; they are partial functions, whose None is a loop that does not end. A date that cannot be
  read is a thrown error, a value of its own.
\<close>

section \<open>Types and limits\<close>

record forecastEvent =
  fv_date :: string
  fv_amount :: int
  fv_merchant :: string
  fv_income :: bool
  fv_confidence :: rat
  fv_transactionIds :: "string list"

record forecastPoint =
  fp_date :: string
  fp_balance :: int

record cashFlowForecast =
  cf_asOf :: string
  cf_currency :: string
  cf_startingBalance :: int
  cf_points :: "forecastPoint list"
  cf_events :: "forecastEvent list"
  cf_lowBalanceDates :: "string list"

datatype incomeCadence = Recurring cadence | Biweekly | Semimonthly

record recurringIncome =
  ri_merchant :: string
  ri_amount :: int
  ri_cadence :: incomeCadence
  ri_intervalDays :: int
  ri_lastSeen :: string
  ri_confidence :: rat
  ri_transactionIds :: "string list"

definition INCOME_WINDOWS :: "(incomeCadence \<times> int \<times> int) list" where
  "INCOME_WINDOWS = [(Recurring CWeekly, 7, 2), (Biweekly, 14, 2), (Recurring CMonthly, 30, 5),
     (Recurring CQuarterly, 91, 10), (Recurring CYearly, 365, 20)]"

section \<open>Dates of a cadence\<close>

definition incomeCadenceFor :: "int \<Rightarrow> (incomeCadence \<times> rat) option" where
  "incomeCadenceFor intervalDays =
     (case find (\<lambda>(_, days, tolerance). \<bar>intervalDays - days\<bar> \<le> tolerance) INCOME_WINDOWS of
        None \<Rightarrow> None
      | Some (c, days, tolerance) \<Rightarrow>
          Some (c, fl (1 - fl (of_int \<bar>intervalDays - days\<bar> / of_int tolerance))))"

text \<open>\<open>Number(date.slice(8, 10))\<close> of a date that has been read before.\<close>

definition pay_day :: "string \<Rightarrow> int" where
  "pay_day date = int (parse_nat (slice 8 10 date))"

fun forecastNext :: "incomeCadence \<Rightarrow> int \<Rightarrow> string \<Rightarrow> string option" where
  "forecastNext (Recurring CWeekly) intervalDays lastSeen = addDays lastSeen intervalDays"
| "forecastNext Biweekly intervalDays lastSeen = addDays lastSeen intervalDays"
| "forecastNext Semimonthly intervalDays lastSeen =
     (if pay_day lastSeen \<le> 7 then Some (slice 0 8 lastSeen @ ''15'')
      else map_option (\<lambda>d. slice 0 8 d @ ''01'') (addMonths (slice 0 8 lastSeen @ ''01'') 1))"
| "forecastNext (Recurring CMonthly) intervalDays lastSeen = addMonths lastSeen 1"
| "forecastNext (Recurring CQuarterly) intervalDays lastSeen = addMonths lastSeen 3"
| "forecastNext (Recurring CYearly) intervalDays lastSeen = addMonths lastSeen 12"

section \<open>Recurring income\<close>

definition is_deposit :: "transaction \<Rightarrow> bool" where
  "is_deposit t \<longleftrightarrow> tx_excludedFromAnalytics t \<noteq> Some True \<and> \<not> tx_pending t \<and> tx_amount t > 0 \<and>
     isIncomeCategory (tx_categorySlug t)"

definition group_deposits :: "transaction list \<Rightarrow> (string, transaction list) jsmap" where
  "group_deposits ts =
     foldl (\<lambda>m t. if is_deposit t
       then map_set (tx_normalizedDescriptor t) (get_or m (tx_normalizedDescriptor t) [] @ [t]) m else m) [] ts"

definition looksSemimonthly :: "string list \<Rightarrow> bool" where
  "looksSemimonthly dates \<longleftrightarrow> list_all (\<lambda>d. \<bar>pay_day d - 1\<bar> \<le> 1 \<or> \<bar>pay_day d - 15\<bar> \<le> 1) dates"

definition income_confidence :: "rat \<Rightarrow> rat \<Rightarrow> rat \<Rightarrow> rat" where
  "income_confidence fit consistency reg =
     fl (fl (fl (fl (4 / 10) * fit) + fl (fl (3 / 10) * consistency)) + fl (fl (3 / 10) * reg))"

text \<open>One group of deposits: the outer None is a thrown error, the inner one a group passed over.\<close>

definition detect_income ::
    "(string \<Rightarrow> string \<Rightarrow> int) \<Rightarrow> string \<times> transaction list \<Rightarrow> recurringIncome option option" where
  "detect_income lc g = (case g of (descriptor, rows) \<Rightarrow>
     if length rows < 3 then Some None
     else let sorted = js_sort (\<lambda>a b. lc (tx_postedAt a) (tx_postedAt b)) rows;
            amounts = map tx_amount sorted;
            typicalAmount = median amounts
       in if typicalAmount \<le> 0 then Some None
          else let amountConsistency =
              fl (of_nat (length (filter (near_median typicalAmount) amounts)) / of_nat (length amounts))
            in if amountConsistency < fl (7 / 10) then Some None
               else case intervals_of (map tx_postedAt sorted) of
                   None \<Rightarrow> None
                 | Some intervals \<Rightarrow>
                     let intervalDays = median intervals
                     in case (if looksSemimonthly (map tx_postedAt sorted) then Some (Semimonthly, 1)
                              else incomeCadenceFor intervalDays) of
                          None \<Rightarrow> Some None
                        | Some (c, fit) \<Rightarrow>
                            let confidence = income_confidence fit amountConsistency (regularity intervals intervalDays)
                            in if confidence < fl (6 / 10) then Some None
                               else Some (Some
                                 \<lparr>ri_merchant = (case tx_merchant (last sorted) of None \<Rightarrow> descriptor | Some m \<Rightarrow> m),
                                  ri_amount = typicalAmount, ri_cadence = c, ri_intervalDays = intervalDays,
                                  ri_lastSeen = tx_postedAt (last sorted), ri_confidence = confidence,
                                  ri_transactionIds = map tx_id sorted\<rparr>))"

definition detectRecurringIncome :: "(string \<Rightarrow> string \<Rightarrow> int) \<Rightarrow> transaction list \<Rightarrow> recurringIncome list option" where
  "detectRecurringIncome lc ts =
     map_option (List.map_filter id) (those (map (detect_income lc) (group_deposits ts)))"

section \<open>The forecast\<close>

text \<open>The two loops: from a date to the first one after a limit, and the dates up to a limit.\<close>

partial_function (option) advance_past ::
    "(string \<Rightarrow> string option) \<Rightarrow> string \<Rightarrow> string \<Rightarrow> string option option" where
  "advance_past nxt limit date =
     (if date \<le> limit then (case nxt date of None \<Rightarrow> Some None | Some d \<Rightarrow> advance_past nxt limit d)
      else Some (Some date))"

partial_function (option) dates_until ::
    "(string \<Rightarrow> string option) \<Rightarrow> string \<Rightarrow> string \<Rightarrow> string list option option" where
  "dates_until nxt limit date =
     (if date \<le> limit
      then (case nxt date of
              None \<Rightarrow> Some None
            | Some d \<Rightarrow> Option.bind (dates_until nxt limit d) (\<lambda>r. Some (map_option ((#) date) r)))
      else Some (Some []))"

definition projected_dates ::
    "(string \<Rightarrow> string option) \<Rightarrow> string \<Rightarrow> string \<Rightarrow> string \<Rightarrow> string list option option" where
  "projected_dates nxt asOf end_date date = (case advance_past nxt asOf date of
     None \<Rightarrow> None
   | Some None \<Rightarrow> Some None
   | Some (Some d) \<Rightarrow> dates_until nxt end_date d)"

definition income_events :: "string \<Rightarrow> string \<Rightarrow> recurringIncome \<Rightarrow> forecastEvent list option option" where
  "income_events asOf end_date i =
     (let nxt = forecastNext (ri_cadence i) (ri_intervalDays i)
      in case nxt (ri_lastSeen i) of
           None \<Rightarrow> Some None
         | Some first \<Rightarrow> map_option (map_option (map (\<lambda>d.
             \<lparr>fv_date = d, fv_amount = ri_amount i, fv_merchant = ri_merchant i, fv_income = True,
              fv_confidence = ri_confidence i, fv_transactionIds = ri_transactionIds i\<rparr>)))
             (projected_dates nxt asOf end_date first))"

definition bill_events :: "string \<Rightarrow> string \<Rightarrow> detectedSubscription \<Rightarrow> forecastEvent list option option" where
  "bill_events asOf end_date b =
     map_option (map_option (map (\<lambda>d.
       \<lparr>fv_date = d, fv_amount = - ds_typicalAmount b, fv_merchant = ds_merchant b, fv_income = False,
        fv_confidence = ds_confidence b, fv_transactionIds = ds_transactionIds b\<rparr>)))
       (projected_dates (forecastNext (Recurring (ds_cadence b)) (ds_observedIntervalDays b)) asOf end_date
          (ds_nextExpected b))"

text \<open>A loop over sources of events: the first that does not end or throws decides.\<close>

fun all_events :: "('a \<Rightarrow> 'b list option option) \<Rightarrow> 'a list \<Rightarrow> 'b list option option" where
  "all_events f [] = Some (Some [])"
| "all_events f (x # xs) = (case f x of
     None \<Rightarrow> None
   | Some None \<Rightarrow> Some None
   | Some (Some es) \<Rightarrow> map_option (map_option ((@) es)) (all_events f xs))"

definition is_liquid :: "string \<Rightarrow> account \<Rightarrow> bool" where
  "is_liquid currency a \<longleftrightarrow> ac_currency a = currency \<and> (ac_type a = Checking \<or> ac_type a = Savings \<or> ac_type a = Cash)"

definition liquid_balance :: "string \<Rightarrow> account list \<Rightarrow> int" where
  "liquid_balance currency accounts = sum_list (map ac_balanceCurrent (filter (is_liquid currency) accounts))"

definition events_by_date :: "forecastEvent list \<Rightarrow> (string, int) jsmap" where
  "events_by_date es = foldl (\<lambda>m e. map_set (fv_date e) (get_or m (fv_date e) 0 + fv_amount e) m) [] es"

fun forecast_points :: "(string, int) jsmap \<Rightarrow> string \<Rightarrow> int \<Rightarrow> int list \<Rightarrow> forecastPoint list option" where
  "forecast_points eventsByDate asOf balance [] = Some []"
| "forecast_points eventsByDate asOf balance (offset # offsets) = (case addDays asOf offset of
     None \<Rightarrow> None
   | Some date \<Rightarrow> let balance' = balance + get_or eventsByDate date 0
       in map_option ((#) \<lparr>fp_date = date, fp_balance = balance'\<rparr>) (forecast_points eventsByDate asOf balance' offsets))"

datatype forecastError = DaysOutOfRange | UnreadableDate

definition forecast_order :: "(string \<Rightarrow> string \<Rightarrow> int) \<Rightarrow> forecastEvent list \<Rightarrow> forecastEvent list" where
  "forecast_order lc = js_sort (cmp_or (\<lambda>a b. lc (fv_date a) (fv_date b)) (\<lambda>a b. fv_amount b - fv_amount a))"

text \<open>The events of both kinds in the order in which the code finds them.\<close>

definition forecast_events ::
    "(string \<Rightarrow> string \<Rightarrow> int) \<Rightarrow> transaction list \<Rightarrow> string \<Rightarrow> string \<Rightarrow> forecastEvent list option option" where
  "forecast_events lc ts asOf end_date = (case detectRecurringIncome lc ts of
     None \<Rightarrow> Some None
   | Some incomes \<Rightarrow> (case all_events (income_events asOf end_date) incomes of
       None \<Rightarrow> None
     | Some None \<Rightarrow> Some None
     | Some (Some es) \<Rightarrow> (case detectSubscriptions lc ts of
         None \<Rightarrow> Some None
       | Some bills \<Rightarrow> map_option (map_option ((@) es)) (all_events (bill_events asOf end_date) bills))))"

definition forecastCashFlow ::
    "(string \<Rightarrow> string \<Rightarrow> int) \<Rightarrow> account list \<Rightarrow> transaction list \<Rightarrow> string \<Rightarrow> num \<Rightarrow> string \<Rightarrow>
      (forecastError + cashFlowForecast) option" where
  "forecastCashFlow lc accounts ts asOf days currency = (case days of
     Num q \<Rightarrow>
       (if of_int \<lfloor>q\<rfloor> \<noteq> q \<or> q < 1 \<or> q > 90 then Some (Inl DaysOutOfRange)
        else let n = \<lfloor>q\<rfloor>; starting = liquid_balance currency accounts
          in case addDays asOf n of
               None \<Rightarrow> Some (Inl UnreadableDate)
             | Some end_date \<Rightarrow> (case forecast_events lc ts asOf end_date of
                 None \<Rightarrow> None
               | Some None \<Rightarrow> Some (Inl UnreadableDate)
               | Some (Some found) \<Rightarrow>
                   let events = forecast_order lc found
                   in (case forecast_points (events_by_date events) asOf starting [1..n] of
                        None \<Rightarrow> Some (Inl UnreadableDate)
                      | Some points \<Rightarrow> Some (Inr
                          \<lparr>cf_asOf = asOf, cf_currency = currency, cf_startingBalance = starting,
                           cf_points = points, cf_events = events,
                           cf_lowBalanceDates = map fp_date (filter (\<lambda>p. fp_balance p < 0) points)\<rparr>))))
   | _ \<Rightarrow> Some (Inl DaysOutOfRange))"

end
