(* ===== verification/ForecastSafety.thy ===== *)
theory ForecastSafety
  imports Forecast Months
begin

text \<open>
  What the forecast promises: it always returns, every event lies in its window, and the balance of each
  day is the starting balance with the events up to that day. The last section is about salaries.
\<close>

section \<open>One step of a cadence, on days\<close>

fun next_day :: "incomeCadence \<Rightarrow> int \<Rightarrow> int \<Rightarrow> int" where
  "next_day (Recurring CWeekly) interval n = n + interval"
| "next_day Biweekly interval n = n + interval"
| "next_day Semimonthly interval n =
     (if utc_date n \<le> 7 then month_first (month_number n) + 14 else month_first (month_number n + 1))"
| "next_day (Recurring CMonthly) interval n = month_day (month_number n + 1) (utc_date n)"
| "next_day (Recurring CQuarterly) interval n = month_day (month_number n + 3) (utc_date n)"
| "next_day (Recurring CYearly) interval n = month_day (month_number n + 12) (utc_date n)"

definition day_step :: "incomeCadence \<Rightarrow> bool" where
  "day_step c \<longleftrightarrow> c = Recurring CWeekly \<or> c = Biweekly"

lemma next_day_bounds:
  assumes "day_step c \<longrightarrow> 1 \<le> interval \<and> interval \<le> 366"
  shows "n < next_day c interval n \<and> next_day c interval n \<le> n + 366"
proof -
  let ?k = "month_number n"
  note dt = utc_date_bounds [of n] and first = month_first_of [of n]
  note day = month_day_self [of n] month_day_less [of "utc_date n" _ ?k]
    month_day_quarter [of "utc_date n" _ ?k] month_day_year [of "utc_date n" ?k]
  have gap: "month_first ?k + 28 \<le> month_first (?k + 1)" "month_first (?k + 1) \<le> month_first ?k + 31"
    using month_first_gap [of 1 ?k] by simp_all
  have "n < month_first (?k + 1)"
    using month_day_bounds [of "utc_date n" ?k] dt day(1) by simp
  then show ?thesis
    using assms dt first gap day(1) day(2) [of 1] day(2) [of 3] day(2) [of 12] day(3) [of 1] day(3) [of 3] day(4)
    by (cases "(c, interval, n)" rule: next_day.cases) (auto simp: day_step_def)
qed

lemma forecastNext_day:
  assumes "first_day \<le> n" and "n \<le> last_day" and "day_step c \<longrightarrow> 1 \<le> interval \<and> interval \<le> 366"
  shows "forecastNext c interval (toIsoDate n) = Some (toIsoDate (next_day c interval n))"
proof -
  note r = forecast_range [of n] next_day_bounds [OF assms(3), of n]
  have range: "in_iso_range n" "next_day c interval n \<le> last_day + 366" using r assms(1,2) by simp_all
  define y m dt where "y = utc_year n" and "m = utc_month n" and "dt = utc_date n"
  have v: "valid_date y m dt" using utc_valid [of n] by (simp add: y_def m_def dt_def)
  then have v15: "valid_date y m 15" and v1: "valid_date y m 1"
    using month_length_bounds [of m y] by (auto simp: valid_date_def)
  have y: "0 \<le> y" "y \<le> 9999" using range(1) by (simp_all add: y_def in_iso_range_def)
  have n: "n = make_day y m dt" by (simp add: y_def m_def dt_def make_day_civil)
  have ones: "''15'' = fixed_digits 2 15" "''01'' = fixed_digits 2 1" by code_simp+
  show ?thesis
  proof (cases "c = Semimonthly")
    case False
    then show ?thesis
      using range addMonths_day_number [OF assms(1,2), of 1] addMonths_day_number [OF assms(1,2), of 3]
        addMonths_day_number [OF assms(1,2), of 12]
      by (cases "(c, interval, toIsoDate n)" rule: forecastNext.cases)
        (simp_all add: addDays_def toUtcDate_toIsoDate)
  next
    case semi: True
    have day: "pay_day (toIsoDate n) = dt"
      using toIsoDate_slices(4) [of n y m dt] range(1) v
      by (simp add: pay_day_def y_def m_def dt_def utc_year_def utc_month_def utc_date_def valid_date_def)
    have start: "slice 0 8 (toIsoDate n) @ ''01'' = toIsoDate (make_day y m 1)"
      using iso_prefix [OF v y] iso_prefix(2) [OF v1 y] by (simp add: n ones)
    show ?thesis
    proof (cases "dt \<le> 7")
      case True
      have "slice 0 8 (toIsoDate n) @ ''15'' = toIsoDate (make_day y m 15)"
        using iso_prefix(1) [OF v y] iso_prefix [OF v15 y] by (simp add: n ones)
      moreover have "make_day y m 15 = month_first (month_number n) + 14"
        by (simp add: month_first_def month_number_parts y_def m_def make_day_def Let_def)
      ultimately show ?thesis using True semi day by (simp add: dt_def)
    next
      case False
      define k where "k = month_number n"
      have "month_first (k + 1) \<le> last_day + 366" using range(2) semi False by (simp add: dt_def k_def)
      moreover have "make_day y m 1 = month_first k" by (simp add: month_first_def month_number_parts y_def m_def k_def)
      ultimately have step: "addMonths (toIsoDate (make_day y m 1)) 1 = Some (toIsoDate (month_first (k + 1)))"
        using addMonths_first [OF assms(1,2)] by (simp add: k_def)
      have vk: "valid_date ((k + 1) div 12) ((k + 1) mod 12) 1" by (rule valid_first)
      have "first_day \<le> month_first (k + 1)"
        using month_first_range(1) [OF assms(1)] month_first_gap [of 1 k] by (simp add: k_def)
      then have "0 \<le> (k + 1) div 12" "(k + 1) div 12 \<le> 9999"
        using forecast_range(1) [of "month_first (k + 1)"] range(2) semi False month_day_parts(2) [of 1 "k + 1"]
        by (simp_all add: month_first_day in_iso_range_def dt_def k_def)
      then have "slice 0 8 (toIsoDate (month_first (k + 1))) @ ''01'' = toIsoDate (month_first (k + 1))"
        using iso_prefix(2) [OF vk] by (simp add: month_first_def ones)
      then show ?thesis using False semi day step start by (simp add: dt_def k_def)
    qed
  qed
qed

section \<open>The loops end\<close>

definition steps_on :: "(string \<Rightarrow> string option) \<Rightarrow> (int \<Rightarrow> int) \<Rightarrow> bool" where
  "steps_on nxt f \<longleftrightarrow> (\<forall>n. first_day \<le> n \<longrightarrow> n \<le> last_day \<longrightarrow>
     nxt (toIsoDate n) = Some (toIsoDate (f n)) \<and> n < f n \<and> f n \<le> n + 366)"

lemma steps_onD:
  "steps_on nxt f \<Longrightarrow> first_day \<le> n \<Longrightarrow> n \<le> last_day \<Longrightarrow>
    nxt (toIsoDate n) = Some (toIsoDate (f n)) \<and> n < f n \<and> f n \<le> n + 366"
  by (simp add: steps_on_def)

lemma steps_on_forecastNext:
  "(day_step c \<longrightarrow> 1 \<le> interval \<and> interval \<le> 366) \<Longrightarrow> steps_on (forecastNext c interval) (next_day c interval)"
  by (simp add: steps_on_def forecastNext_day next_day_bounds)

lemma advance_past_days:
  assumes "steps_on nxt f" and "first_day \<le> l" and "l \<le> last_day"
    and "first_day \<le> n" and "n \<le> last_day + 366"
  shows "\<exists>m. advance_past nxt (toIsoDate l) (toIsoDate n) = Some (Some (toIsoDate m)) \<and>
    l < m \<and> m \<le> max n (l + 366)"
  using assms(4,5)
proof (induction "nat (l + 1 - n)" arbitrary: n rule: less_induct)
  case less
  show ?case
  proof (cases "n \<le> l")
    case True
    then have st: "nxt (toIsoDate n) = Some (toIsoDate (f n))" "n < f n" "f n \<le> n + 366"
      using steps_onD [OF assms(1), of n] less.prems assms(3) by auto
    then obtain m where "advance_past nxt (toIsoDate l) (toIsoDate (f n)) = Some (Some (toIsoDate m))"
      "l < m" "m \<le> max (f n) (l + 366)"
      using less.hyps [of "f n"] less.prems True assms(3) by auto
    then show ?thesis
      using True st less.prems assms by (auto simp: advance_past.simps [of _ _ "toIsoDate n"] iso_le)
  next
    case False
    then show ?thesis
      using less.prems assms by (auto simp: advance_past.simps [of _ _ "toIsoDate n"] iso_le)
  qed
qed

lemma dates_until_days:
  assumes "steps_on nxt f" and "first_day \<le> l" and "l \<le> last_day"
    and "first_day \<le> n" and "n \<le> last_day + 366"
  shows "\<exists>ms. dates_until nxt (toIsoDate l) (toIsoDate n) = Some (Some (map toIsoDate ms)) \<and>
    list_all (\<lambda>m. n \<le> m \<and> m \<le> l) ms"
  using assms(4,5)
proof (induction "nat (l + 1 - n)" arbitrary: n rule: less_induct)
  case less
  show ?case
  proof (cases "n \<le> l")
    case True
    then have st: "nxt (toIsoDate n) = Some (toIsoDate (f n))" "n < f n" "f n \<le> n + 366"
      using steps_onD [OF assms(1), of n] less.prems assms(3) by auto
    then obtain ms where "dates_until nxt (toIsoDate l) (toIsoDate (f n)) = Some (Some (map toIsoDate ms))"
      "list_all (\<lambda>m. f n \<le> m \<and> m \<le> l) ms"
      using less.hyps [of "f n"] less.prems True assms(3) by auto
    then show ?thesis
      using True st less.prems assms
      by (intro exI [of _ "n # ms"]) (auto simp: dates_until.simps [of _ _ "toIsoDate n"] iso_le list_all_iff)
  next
    case False
    then show ?thesis
      using less.prems assms
      by (intro exI [of _ "[]"]) (simp add: dates_until.simps [of _ _ "toIsoDate n"] iso_le)
  qed
qed

lemma projected_days:
  assumes "steps_on nxt f" and "first_day \<le> a" and "a \<le> b" and "b \<le> last_day"
    and "first_day \<le> n" and "n \<le> last_day + 366"
  shows "\<exists>ms. projected_dates nxt (toIsoDate a) (toIsoDate b) (toIsoDate n) = Some (Some (map toIsoDate ms)) \<and>
    list_all (\<lambda>m. a < m \<and> m \<le> b) ms"
proof -
  have "a \<le> last_day" using assms by simp
  then obtain m where m: "advance_past nxt (toIsoDate a) (toIsoDate n) = Some (Some (toIsoDate m))"
    "a < m" "m \<le> max n (a + 366)"
    using advance_past_days [OF assms(1,2) _ assms(5,6)] by blast
  have "first_day \<le> b" "first_day \<le> m" "m \<le> last_day + 366"
    using m assms by (simp_all add: max_def split: if_splits)
  then obtain ms where "dates_until nxt (toIsoDate b) (toIsoDate m) = Some (Some (map toIsoDate ms))"
    "list_all (\<lambda>m'. m \<le> m' \<and> m' \<le> b) ms"
    using dates_until_days [OF assms(1) _ assms(4), of m] by blast
  then show ?thesis
    using m by (intro exI [of _ ms]) (fastforce simp: projected_dates_def list_all_iff)
qed

section \<open>What detection hands over\<close>

definition readable_day :: "string \<Rightarrow> bool" where
  "readable_day s = (case toUtcDate s of
     None \<Rightarrow> False | Some n \<Rightarrow> toIsoDate n = s \<and> first_day \<le> n \<and> n + 366 \<le> last_day)"

lemma readable_dayD: "readable_day s \<Longrightarrow> \<exists>n. s = toIsoDate n \<and> toUtcDate s = Some n \<and> first_day \<le> n \<and> n + 366 \<le> last_day"
  by (auto simp: readable_day_def split: option.splits)

lemma intervals_of_readable: "list_all readable_day ds \<Longrightarrow> intervals_of ds \<noteq> None"
  by (induction ds rule: intervals_of.induct)
    (auto simp: daysBetweenInclusive_def dest!: readable_dayD)

lemma classified_interval: "classifyCadence i = Some (CWeekly, fit) \<Longrightarrow> 1 \<le> i \<and> i \<le> 366"
  by (auto simp: classifyCadence_def CADENCE_WINDOWS_def split: if_splits)

lemma income_interval: "incomeCadenceFor i = Some (c, fit) \<Longrightarrow> day_step c \<Longrightarrow> 1 \<le> i \<and> i \<le> 366"
  by (auto simp: incomeCadenceFor_def INCOME_WINDOWS_def day_step_def split: if_splits)

lemma next_charge_forecast: "next_charge c d i = forecastNext (Recurring c) i d"
  by (cases c) simp_all

lemma grouped_rows:
  "(k, rows) \<in> set (foldl (\<lambda>m t. if p t then map_set (key t) (get_or m (key t) [] @ [t]) m else m) [] ts) \<Longrightarrow>
    set rows \<subseteq> set ts"
proof (induction ts arbitrary: k rows rule: rev_induct)
  case (snoc t ts)
  let ?m = "foldl (\<lambda>m t. if p t then map_set (key t) (get_or m (key t) [] @ [t]) m else m) [] ts"
  have old: "set (get_or ?m k []) \<subseteq> set ts" for k
    using snoc.IH [OF map_of_SomeD, of k] by (cases "map_of ?m k") (simp_all add: get_or_def)
  show ?case
  proof (cases "(k, rows) \<in> set ?m")
    case True
    with snoc.IH show ?thesis by fastforce
  next
    case False
    with snoc.prems have "rows = get_or ?m (key t) [] @ [t]"
      by (auto split: if_splits dest: map_set_entry)
    with old show ?thesis by fastforce
  qed
qed simp

lemma sorted_readable:
  "list_all (\<lambda>t. readable_day (tx_postedAt t)) rows \<Longrightarrow>
    list_all readable_day (map tx_postedAt (js_sort c rows)) \<and>
    (rows \<noteq> [] \<longrightarrow> readable_day (tx_postedAt (last (js_sort c rows))))"
proof -
  have "set (js_sort c rows) = set rows" by simp
  then have "rows \<noteq> [] \<Longrightarrow> last (js_sort c rows) \<in> set rows"
    by (metis empty_set last_in_set set_empty)
  then show "list_all (\<lambda>t. readable_day (tx_postedAt t)) rows \<Longrightarrow> ?thesis" by (auto simp: list_all_iff)
qed

lemma detect_income_returns:
  "list_all (\<lambda>t. readable_day (tx_postedAt t)) rows \<Longrightarrow> detect_income lc (d, rows) \<noteq> None"
  using intervals_of_readable [of "map tx_postedAt (js_sort (\<lambda>a b. lc (tx_postedAt a) (tx_postedAt b)) rows)"]
    sorted_readable [of rows]
  by (auto simp: detect_income_def Let_def split: option.splits)

lemma detect_income_found:
  assumes "list_all (\<lambda>t. readable_day (tx_postedAt t)) rows" and "detect_income lc (d, rows) = Some (Some i)"
  shows "readable_day (ri_lastSeen i) \<and>
    (day_step (ri_cadence i) \<longrightarrow> 1 \<le> ri_intervalDays i \<and> ri_intervalDays i \<le> 366)"
proof -
  let ?sorted = "js_sort (\<lambda>a b. lc (tx_postedAt a) (tx_postedAt b)) rows"
  have "rows \<noteq> []" using assms(2) by (auto simp: detect_income_def split: if_splits)
  then have "readable_day (tx_postedAt (last ?sorted))" using sorted_readable [OF assms(1)] by blast
  moreover have "ri_lastSeen i = tx_postedAt (last ?sorted)"
    and "ri_cadence i = Semimonthly \<or> (\<exists>fit. incomeCadenceFor (ri_intervalDays i) = Some (ri_cadence i, fit))"
    using assms(2) by (auto simp: detect_income_def Let_def split: if_splits option.splits)
  ultimately show ?thesis using income_interval by (auto simp: day_step_def)
qed

lemma detect_group_returns:
  assumes "list_all (\<lambda>t. readable_day (tx_postedAt t)) rows"
  shows "detect_group lc rows \<noteq> None"
proof (cases "rows = []")
  case False
  let ?charges = "js_sort (\<lambda>a b. lc (tx_postedAt a) (tx_postedAt b)) rows"
  obtain n where n: "tx_postedAt (last ?charges) = toIsoDate n" "first_day \<le> n" "n + 366 \<le> last_day"
    using sorted_readable [OF assms] False readable_dayD by blast
  have charged: "classifyCadence i = Some (c, fit) \<Longrightarrow> next_charge c (tx_postedAt (last ?charges)) i = None \<Longrightarrow> P"
    for c i fit P
    using forecastNext_day [of n "Recurring c" i] n classified_interval [of i]
    by (cases c) (auto simp: next_charge_forecast day_step_def)
  obtain ns where ns: "intervals_of (map tx_postedAt ?charges) = Some ns"
    using intervals_of_readable sorted_readable [OF assms] by blast
  show ?thesis
    by (auto simp: detect_group_def Let_def ns split: option.splits elim: charged)
qed (simp add: detect_group_def MIN_OCCURRENCES_def)

lemma detect_group_found:
  assumes "list_all (\<lambda>t. readable_day (tx_postedAt t)) rows" and "detect_group lc rows = Some (Some b)"
  shows "(\<exists>n. ds_nextExpected b = toIsoDate n \<and> first_day \<le> n \<and> n \<le> last_day + 366) \<and>
    (day_step (Recurring (ds_cadence b)) \<longrightarrow> 1 \<le> ds_observedIntervalDays b \<and> ds_observedIntervalDays b \<le> 366)"
proof -
  let ?charges = "js_sort (\<lambda>a b. lc (tx_postedAt a) (tx_postedAt b)) rows"
  have "rows \<noteq> []" using assms(2) by (auto simp: detect_group_def MIN_OCCURRENCES_def split: if_splits)
  then obtain n where n: "tx_postedAt (last ?charges) = toIsoDate n" "first_day \<le> n" "n + 366 \<le> last_day"
    using sorted_readable [OF assms(1)] readable_dayD by blast
  have found: "\<exists>fit. classifyCadence (ds_observedIntervalDays b) = Some (ds_cadence b, fit)"
    "next_charge (ds_cadence b) (tx_postedAt (last ?charges)) (ds_observedIntervalDays b) = Some (ds_nextExpected b)"
    using assms(2) by (auto simp: detect_group_def Let_def split: if_splits option.splits)
  then have step: "day_step (Recurring (ds_cadence b)) \<longrightarrow> 1 \<le> ds_observedIntervalDays b \<and> ds_observedIntervalDays b \<le> 366"
    using classified_interval by (auto simp: day_step_def)
  let ?n = "next_day (Recurring (ds_cadence b)) (ds_observedIntervalDays b) n"
  have "ds_nextExpected b = toIsoDate ?n" "n < ?n" "?n \<le> n + 366"
    using found(2) n forecastNext_day [of n, OF _ _ step] next_day_bounds [OF step, of n]
    by (simp_all add: next_charge_forecast)
  then show ?thesis using step n by (intro conjI exI [of _ ?n]) simp_all
qed

lemma those_map_returns: "\<forall>x \<in> set xs. f x \<noteq> None \<Longrightarrow> those (map f xs) = Some (map (the \<circ> f) xs)"
  by (induction xs) auto

section \<open>The events\<close>

definition in_window :: "int \<Rightarrow> int \<Rightarrow> forecastEvent \<Rightarrow> bool" where
  "in_window a b e \<longleftrightarrow> (\<exists>m. a < m \<and> m \<le> b \<and> fv_date e = toIsoDate m)"

lemma all_events_returns:
  "\<forall>x \<in> set xs. \<exists>es. f x = Some (Some es) \<and> list_all P es \<Longrightarrow>
    \<exists>es. all_events f xs = Some (Some es) \<and> list_all P es"
proof (induction xs)
  case (Cons x xs)
  obtain es where es: "f x = Some (Some es)" "list_all P es" using Cons.prems by auto
  obtain es' where es': "all_events f xs = Some (Some es')" "list_all P es'" using Cons by auto
  show ?case using es es' by (intro exI [of _ "es @ es'"]) simp
qed simp

lemma income_events_returns:
  assumes "readable_day (ri_lastSeen i)"
    and "day_step (ri_cadence i) \<longrightarrow> 1 \<le> ri_intervalDays i \<and> ri_intervalDays i \<le> 366"
    and "first_day \<le> a" and "a \<le> b" and "b \<le> last_day"
  shows "\<exists>es. income_events (toIsoDate a) (toIsoDate b) i = Some (Some es) \<and> list_all (in_window a b) es"
proof -
  obtain n where n: "ri_lastSeen i = toIsoDate n" "first_day \<le> n" "n + 366 \<le> last_day"
    using readable_dayD [OF assms(1)] by blast
  let ?n = "next_day (ri_cadence i) (ri_intervalDays i) n"
  have first: "forecastNext (ri_cadence i) (ri_intervalDays i) (ri_lastSeen i) = Some (toIsoDate ?n)"
    "n < ?n" "?n \<le> n + 366"
    using forecastNext_day [of n, OF _ _ assms(2)] next_day_bounds [OF assms(2), of n] n by simp_all
  then obtain ms where "projected_dates (forecastNext (ri_cadence i) (ri_intervalDays i)) (toIsoDate a)
      (toIsoDate b) (toIsoDate ?n) = Some (Some (map toIsoDate ms))" "list_all (\<lambda>m. a < m \<and> m \<le> b) ms"
    using projected_days [OF steps_on_forecastNext [OF assms(2)] assms(3-5), of ?n] n by auto
  then show ?thesis
    using first by (simp add: income_events_def) (auto simp: list_all_iff in_window_def)
qed

lemma bill_events_returns:
  assumes "ds_nextExpected d = toIsoDate n" and "first_day \<le> n" and "n \<le> last_day + 366"
    and "day_step (Recurring (ds_cadence d)) \<longrightarrow> 1 \<le> ds_observedIntervalDays d \<and> ds_observedIntervalDays d \<le> 366"
    and "first_day \<le> a" and "a \<le> b" and "b \<le> last_day"
  shows "\<exists>es. bill_events (toIsoDate a) (toIsoDate b) d = Some (Some es) \<and> list_all (in_window a b) es"
proof -
  obtain ms where "projected_dates (forecastNext (Recurring (ds_cadence d)) (ds_observedIntervalDays d)) (toIsoDate a)
      (toIsoDate b) (toIsoDate n) = Some (Some (map toIsoDate ms))" "list_all (\<lambda>m. a < m \<and> m \<le> b) ms"
    using projected_days [OF steps_on_forecastNext [OF assms(4)] assms(5-7,2,3)] by blast
  then show ?thesis
    by (simp add: bill_events_def assms(1)) (auto simp: list_all_iff in_window_def)
qed

definition readable_ledger :: "transaction list \<Rightarrow> bool" where
  "readable_ledger ts \<longleftrightarrow> list_all (\<lambda>t. readable_day (tx_postedAt t)) ts"

lemma grouped_readable:
  assumes "readable_ledger ts"
  shows "\<forall>rows \<in> set (map snd (group_charges ts)). list_all (\<lambda>t. readable_day (tx_postedAt t)) rows"
    and "\<forall>g \<in> set (group_deposits ts). list_all (\<lambda>t. readable_day (tx_postedAt t)) (snd g)"
  using assms grouped_rows [of _ _ is_charge charge_key ts] grouped_rows [of _ _ is_deposit tx_normalizedDescriptor ts]
  by (fastforce simp: readable_ledger_def group_charges_def group_deposits_def list_all_iff)+

lemma found_in:
  "those (map f xs) = Some ys \<Longrightarrow> z \<in> set (List.map_filter id ys) \<Longrightarrow> \<exists>x \<in> set xs. f x = Some (Some z)"
  by (induction xs arbitrary: ys) (auto simp: map_filter_simps split: option.splits)

lemma forecast_events_return:
  assumes "readable_ledger ts" and "first_day \<le> a" and "a \<le> b" and "b \<le> last_day"
  shows "\<exists>es. forecast_events lc ts (toIsoDate a) (toIsoDate b) = Some (Some es) \<and> list_all (in_window a b) es"
proof -
  note groups = grouped_readable [OF assms(1)]
  have "\<forall>g \<in> set (group_deposits ts). detect_income lc g \<noteq> None"
    using groups(2) detect_income_returns by (metis prod.collapse)
  then obtain incomes where incomes: "those (map (detect_income lc) (group_deposits ts)) = Some incomes"
    by (simp add: those_map_returns)
  have "\<forall>i \<in> set (List.map_filter id incomes).
      \<exists>es. income_events (toIsoDate a) (toIsoDate b) i = Some (Some es) \<and> list_all (in_window a b) es"
  proof
    fix i assume "i \<in> set (List.map_filter id incomes)"
    then obtain g where "g \<in> set (group_deposits ts)" "detect_income lc g = Some (Some i)"
      using found_in [OF incomes] by blast
    then have "readable_day (ri_lastSeen i)"
      "day_step (ri_cadence i) \<longrightarrow> 1 \<le> ri_intervalDays i \<and> ri_intervalDays i \<le> 366"
      using groups(2) detect_income_found [of "snd g" lc "fst g" i] by auto
    then show "\<exists>es. income_events (toIsoDate a) (toIsoDate b) i = Some (Some es) \<and> list_all (in_window a b) es"
      by (rule income_events_returns [OF _ _ assms(2-4)])
  qed
  then obtain es where es: "all_events (income_events (toIsoDate a) (toIsoDate b)) (List.map_filter id incomes) = Some (Some es)"
    "list_all (in_window a b) es" using all_events_returns by blast
  have "\<forall>rows \<in> set (map snd (group_charges ts)). detect_group lc rows \<noteq> None"
    using groups(1) detect_group_returns by blast
  then obtain bills where bills: "those (map (detect_group lc) (map snd (group_charges ts))) = Some bills"
    by (simp add: those_map_returns del: map_map)
  have "\<forall>d \<in> set (js_sort (\<lambda>a b. ds_annualCost b - ds_annualCost a) (List.map_filter id bills)).
      \<exists>es. bill_events (toIsoDate a) (toIsoDate b) d = Some (Some es) \<and> list_all (in_window a b) es"
  proof
    fix d assume "d \<in> set (js_sort (\<lambda>a b. ds_annualCost b - ds_annualCost a) (List.map_filter id bills))"
    then have "d \<in> set (List.map_filter id bills)" by simp
    then obtain rows where "rows \<in> set (map snd (group_charges ts))" "detect_group lc rows = Some (Some d)"
      using found_in [OF bills] by blast
    then show "\<exists>es. bill_events (toIsoDate a) (toIsoDate b) d = Some (Some es) \<and> list_all (in_window a b) es"
      using groups(1) detect_group_found [of rows lc d] bill_events_returns [OF _ _ _ _ assms(2-4), of d] by metis
  qed
  then obtain es' where "all_events (bill_events (toIsoDate a) (toIsoDate b))
      (js_sort (\<lambda>a b. ds_annualCost b - ds_annualCost a) (List.map_filter id bills)) = Some (Some es')"
    "list_all (in_window a b) es'" using all_events_returns by blast
  then show ?thesis
    using incomes es bills
    by (intro exI [of _ "es @ es'"])
      (simp add: forecast_events_def detectRecurringIncome_def detectSubscriptions_def del: map_map)
qed

section \<open>The points\<close>

definition sum_on :: "string list \<Rightarrow> forecastEvent list \<Rightarrow> int" where
  "sum_on dates es = sum_list (map fv_amount (filter (\<lambda>e. fv_date e \<in> set dates) es))"

lemma events_by_date_sum: "get_or (events_by_date es) d 0 = sum_on [d] es"
  by (induction es rule: rev_induct) (auto simp: events_by_date_def sum_on_def)

lemma sum_on_snoc: "d \<notin> set ds \<Longrightarrow> sum_on (ds @ [d]) es = sum_on ds es + sum_on [d] es"
  by (induction es) (auto simp: sum_on_def)

lemma forecast_points_days:
  assumes "in_iso_range a" and "\<forall>k. i \<le> k \<and> k < i + int m \<longrightarrow> in_iso_range (a + k)"
  shows "forecast_points em (toIsoDate a) bal [i..i + int m - 1] =
    Some (map (\<lambda>j. \<lparr>fp_date = toIsoDate (a + j), fp_balance = bal +
      sum_list (map (\<lambda>k. get_or em (toIsoDate (a + k)) 0) [i..j])\<rparr>) [i..i + int m - 1])"
  using assms(2)
proof (induction m arbitrary: i bal)
  case (Suc m)
  have head: "[i..i + int (Suc m) - 1] = i # [i + 1..i + 1 + int m - 1]"
    by (subst upto.simps) simp
  have tail: "sum_list (map f [i..j]) = f i + sum_list (map f [i + 1..j])" if "i + 1 \<le> j" for j and f :: "int \<Rightarrow> int"
    using that by (subst upto.simps) simp
  have "forecast_points em (toIsoDate a) b [i + 1..i + 1 + int m - 1] =
    Some (map (\<lambda>j. \<lparr>fp_date = toIsoDate (a + j), fp_balance = b +
      sum_list (map (\<lambda>k. get_or em (toIsoDate (a + k)) 0) [i + 1..j])\<rparr>) [i + 1..i + 1 + int m - 1])" for b
    using Suc.prems by (intro Suc.IH) simp
  then show ?case
    unfolding head
    by (simp add: addDays_def toUtcDate_toIsoDate assms(1) tail Let_def add.assoc)
qed simp

lemma range_of_days: "first_day \<le> a \<Longrightarrow> a + n \<le> last_day \<Longrightarrow> 0 \<le> k \<Longrightarrow> k \<le> n \<Longrightarrow> in_iso_range (a + k)"
  using forecast_range(1) [of "a + k"] by simp

lemma sum_on_days:
  assumes "first_day \<le> a" and "a + j \<le> last_day" and "0 \<le> j"
  shows "sum_list (map (\<lambda>k. sum_on [toIsoDate (a + k)] es) [1..j]) = sum_on (map (\<lambda>k. toIsoDate (a + k)) [1..j]) es"
  using assms(2,3)
proof (induction "nat j" arbitrary: j)
  case (Suc m)
  have fresh: "toIsoDate (a + j) \<notin> set (map (\<lambda>k. toIsoDate (a + k)) [1..j - 1])"
  proof
    assume "toIsoDate (a + j) \<in> set (map (\<lambda>k. toIsoDate (a + k)) [1..j - 1])"
    then obtain k where k: "1 \<le> k" "k < j" "toIsoDate (a + j) = toIsoDate (a + k)" by auto
    then show False using range_of_days [OF assms(1) Suc.prems(1)] toIsoDate_eq [of "a + j" "a + k"] by simp
  qed
  have split: "[1..j] = [1..j - 1] @ [j]" using Suc.hyps(2) Suc.prems by (intro upto_rec2) simp
  have "sum_list (map (\<lambda>k. sum_on [toIsoDate (a + k)] es) [1..j - 1]) =
      sum_on (map (\<lambda>k. toIsoDate (a + k)) [1..j - 1]) es"
    using Suc by (intro Suc.hyps(1)) simp_all
  then show ?case unfolding split using sum_on_snoc [OF fresh, of es] by simp
qed (simp add: sum_on_def)

lemma forecast_of:
  assumes "first_day \<le> a" and "1 \<le> n" and "n \<le> 90" and "a + n \<le> last_day"
    and "forecast_events lc ts (toIsoDate a) (toIsoDate (a + n)) = Some (Some found)"
  shows "forecastCashFlow lc accounts ts (toIsoDate a) (Num (of_int n)) currency =
    (let points = map (\<lambda>j. \<lparr>fp_date = toIsoDate (a + j), fp_balance = liquid_balance currency accounts +
           sum_on (map (\<lambda>k. toIsoDate (a + k)) [1..j]) (forecast_order lc found)\<rparr>) [1..n]
     in Some (Inr \<lparr>cf_asOf = toIsoDate a, cf_currency = currency,
       cf_startingBalance = liquid_balance currency accounts, cf_points = points,
       cf_events = forecast_order lc found,
       cf_lowBalanceDates = map fp_date (filter (\<lambda>p. fp_balance p < 0) points)\<rparr>))"
proof -
  have a: "in_iso_range a" using range_of_days [of a n 0] assms by simp
  have "forecast_points (events_by_date es) (toIsoDate a) bal [1..n] =
      Some (map (\<lambda>j. \<lparr>fp_date = toIsoDate (a + j), fp_balance = bal +
        sum_on (map (\<lambda>k. toIsoDate (a + k)) [1..j]) es\<rparr>) [1..n])" for es bal
    using forecast_points_days [OF a, of 1 "nat n"] range_of_days [OF assms(1,4)] assms(1-4)
    by (simp add: events_by_date_sum sum_on_days)
  then show ?thesis
    using assms(2,3,5) a by (simp add: forecastCashFlow_def addDays_def toUtcDate_toIsoDate Let_def)
qed

section \<open>Properties\<close>

lemma forecast_some:
  assumes "readable_ledger ts" and "first_day \<le> a" and "a + n \<le> last_day" and "1 \<le> n" and "n \<le> 90"
  shows "\<exists>f. forecastCashFlow lc accounts ts (toIsoDate a) (Num (of_int n)) currency = Some (Inr f)"
  using forecast_events_return [OF assms(1,2), of "a + n" lc] assms forecast_of [of a n lc ts]
  by (fastforce simp: Let_def)

text \<open>C26: The forecast always comes back: over any ledger whose dates can be read, both kinds of loop end and a
  forecast is returned, whatever the cadences found.\<close>

theorem forecast_returns:
  assumes "readable_ledger ts" and "first_day \<le> a" and "a + n \<le> last_day" and "1 \<le> n" and "n \<le> 90"
  shows "\<exists>f. forecastCashFlow lc accounts ts (toIsoDate a) (Num (of_int n)) currency = Some (Inr f)"
  using assms by (rule forecast_some)

definition salary :: "string \<Rightarrow> string \<Rightarrow> transaction" where
  "salary i date = \<lparr>tx_id = i, tx_accountId = ''acc'', tx_providerTxnId = i, tx_postedAt = date, tx_amount = 300000,
     tx_currency = ''USD'', tx_rawDescriptor = ''ACME'', tx_normalizedDescriptor = ''acme'', tx_merchant = None,
     tx_merchantOverride = None, tx_note = None, tx_excludedFromAnalytics = None, tx_categorySlug = ''salary'',
     tx_categorySource = UserManual, tx_categoryConfidence = 1, tx_isRecurring = False, tx_recurringOverride = None,
     tx_duplicateReported = None, tx_pending = False, tx_tags = None, tx_importBatchId = None\<rparr>"

definition salaries :: "transaction list" where
  "salaries = [salary ''t1'' ''2026-01-01'', salary ''t2'' ''2026-02-01'', salary ''t3'' ''2026-03-01'']"

lemma salary_dates: "''2026-01-01'' = toIsoDate 20454" "''2026-02-01'' = toIsoDate 20485" "''2026-03-01'' = toIsoDate 20513"
  "''2026-03-10'' = toIsoDate 20522"
  by code_simp+

lemma readable_iso: "first_day \<le> n \<Longrightarrow> n + 366 \<le> last_day \<Longrightarrow> readable_day (toIsoDate n)"
  using forecast_range(1) [of n] by (simp add: readable_day_def toUtcDate_toIsoDate)

lemma salaries_readable: "readable_ledger salaries"
  by (simp add: readable_ledger_def salaries_def salary_def salary_dates readable_iso day_limits)

theorem forecast_returns_witness:
  "\<exists>f. forecastCashFlow code_unit_compare [] salaries ''2026-03-10'' (Num 60) ''USD'' = Some (Inr f)"
  using forecast_returns [OF salaries_readable, of 20522 60 code_unit_compare "[]" "''USD''"]
  by (simp add: day_limits salary_dates(4))

text \<open>C27: In a ledger of one currency there is one balance per day, and each is the starting balance with the events up
  to that day: no event is lost, counted twice or booked on another day. In a ledger of several currencies the amounts
  of all of them are added (\<open>events_of_every_currency\<close>).\<close>

theorem forecast_adds_up:
  assumes "list_all (\<lambda>t. tx_currency t = currency) ts" and "readable_ledger ts" and "first_day \<le> a" and "a + n \<le> last_day" and "1 \<le> n" and "n \<le> 90"
    and "forecastCashFlow lc accounts ts (toIsoDate a) (Num (of_int n)) currency = Some (Inr f)"
  shows "cf_points f = map (\<lambda>j. \<lparr>fp_date = toIsoDate (a + j), fp_balance = liquid_balance currency accounts +
    sum_list (map fv_amount (filter (\<lambda>e. fv_date e \<le> toIsoDate (a + j)) (cf_events f)))\<rparr>) [1..n]"
proof -
  obtain es where es: "forecast_events lc ts (toIsoDate a) (toIsoDate (a + n)) = Some (Some es)"
    "list_all (in_window a (a + n)) es"
    using forecast_events_return [OF assms(2,3), of "a + n" lc] assms by auto
  have events: "cf_events f = forecast_order lc es"
    and points: "cf_points f = map (\<lambda>j. \<lparr>fp_date = toIsoDate (a + j), fp_balance = liquid_balance currency accounts +
      sum_on (map (\<lambda>k. toIsoDate (a + k)) [1..j]) (forecast_order lc es)\<rparr>) [1..n]"
    using forecast_of [OF assms(3,5,6,4) es(1), of accounts currency] assms(7) by (auto simp: Let_def)
  have "fv_date e \<in> set (map (\<lambda>k. toIsoDate (a + k)) [1..j]) \<longleftrightarrow> fv_date e \<le> toIsoDate (a + j)"
    if e: "e \<in> set (forecast_order lc es)" and j: "1 \<le> j" "j \<le> n" for e j
  proof -
    have "in_window a (a + n) e" using e es(2) by (simp add: forecast_order_def list_all_iff)
    then obtain m where m: "a < m" "m \<le> a + n" "fv_date e = toIsoDate m" by (auto simp: in_window_def)
    have "toIsoDate m = toIsoDate (a + k) \<longleftrightarrow> m = a + k" if "k \<in> {1..j}" for k
      using range_of_days [OF assms(3,4), of "m - a"] range_of_days [OF assms(3,4), of k] m j that
      by (simp add: toIsoDate_eq)
    then have "fv_date e \<in> set (map (\<lambda>k. toIsoDate (a + k)) [1..j]) \<longleftrightarrow> (\<exists>k \<in> {1..j}. m = a + k)"
      by (auto simp: m(3) image_iff)
    also have "\<dots> \<longleftrightarrow> m \<le> a + j" using m by (auto intro: bexI [of _ "m - a"])
    finally show ?thesis using m j assms(3,4) by (simp add: iso_le)
  qed
  then have "sum_on (map (\<lambda>k. toIsoDate (a + k)) [1..j]) (forecast_order lc es) =
      sum_list (map fv_amount (filter (\<lambda>e. fv_date e \<le> toIsoDate (a + j)) (forecast_order lc es)))"
    if "1 \<le> j" and "j \<le> n" for j
    using that by (simp add: sum_on_def cong: filter_cong)
  then show ?thesis by (simp add: points events)
qed

theorem forecast_adds_up_witness:
  "\<exists>f. forecastCashFlow code_unit_compare [] salaries ''2026-03-10'' (Num 60) ''USD'' = Some (Inr f) \<and>
    cf_points f = map (\<lambda>j. \<lparr>fp_date = toIsoDate (20522 + j), fp_balance = liquid_balance ''USD'' [] +
      sum_list (map fv_amount (filter (\<lambda>e. fv_date e \<le> toIsoDate (20522 + j)) (cf_events f)))\<rparr>) [1..60]"
proof -
  obtain f where "forecastCashFlow code_unit_compare [] salaries (toIsoDate 20522) (Num (of_int 60)) ''USD'' = Some (Inr f)"
    using forecast_some [OF salaries_readable, of 20522 60 code_unit_compare "[]" "''USD''"] by (auto simp: day_limits)
  moreover have "list_all (\<lambda>t. tx_currency t = ''USD'') salaries" by (simp add: salaries_def salary_def)
  ultimately show ?thesis
    using forecast_adds_up [OF _ salaries_readable, of "''USD''" 20522 60 code_unit_compare "[]" f]
    by (simp add: day_limits salary_dates(4))
qed

text \<open>The events do not depend on the currency of the report: the salary of a ledger in dollars raises the balance in euro.\<close>

lemma events_of_every_currency:
  assumes "forecastCashFlow lc accounts ts asOf days c = Some (Inr f)" and "forecastCashFlow lc accounts ts asOf days d = Some (Inr g)"
  shows "cf_events f = cf_events g"
  using assms by (auto simp: forecastCashFlow_def Let_def split: num.splits if_splits option.splits)

section \<open>A salary paid on the first\<close>

text \<open>A salary that always arrives on the first of the month, once a month, is taken for two payrolls a month:
  the next one is expected on the fifteenth.\<close>

theorem monthly_salary_expected_twice:
  assumes "detect_income lc (d, rows) = Some (Some i)" and "list_all (\<lambda>t. pay_day (tx_postedAt t) = 1) rows"
  shows "forecastNext (ri_cadence i) (ri_intervalDays i) (ri_lastSeen i) = Some (slice 0 8 (ri_lastSeen i) @ ''15'')"
proof -
  let ?sorted = "js_sort (\<lambda>a b. lc (tx_postedAt a) (tx_postedAt b)) rows"
  have "rows \<noteq> []" using assms(1) by (auto simp: detect_income_def split: if_splits)
  moreover have set: "set ?sorted = set rows" by simp
  ultimately have "last ?sorted \<in> set rows" by (metis empty_set last_in_set set_empty)
  moreover have "looksSemimonthly (map tx_postedAt ?sorted)"
    using assms(2) set by (simp add: looksSemimonthly_def list_all_iff)
  then have "ri_cadence i = Semimonthly" and "ri_lastSeen i = tx_postedAt (last ?sorted)"
    using assms(1) by (auto simp: detect_income_def Let_def split: if_splits option.splits)
  ultimately show ?thesis using assms(2) by (simp add: list_all_iff)
qed

lemma salaries_found:
  "map_option (map_option ri_lastSeen) (detect_income code_unit_compare (''acme'', salaries)) = Some (Some ''2026-03-01'')"
proof -
  have "js_sort (\<lambda>a b. code_unit_compare (tx_postedAt a) (tx_postedAt b)) salaries = salaries"
    "median (map tx_amount salaries) = 300000" "length (filter (near_median 300000) (map tx_amount salaries)) = 3"
    "looksSemimonthly (map tx_postedAt salaries)" "median [31, 28] = 30" "fl (7 / 10) \<le> fl (3 / 3)"
    "fl (6 / 10) \<le> income_confidence 1 (fl (3 / 3)) (regularity [31, 28] 30)"
    "length salaries = 3" "tx_postedAt (last salaries) = ''2026-03-01''" "tx_merchant (last salaries) = None"
    by code_simp+
  moreover have "intervals_of (map tx_postedAt salaries) = Some [31, 28]"
    by (simp add: salaries_def salary_def salary_dates daysBetweenInclusive_def toUtcDate_toIsoDate
        forecast_range(1) day_limits)
  ultimately show ?thesis by (simp add: detect_income_def Let_def)
qed

theorem monthly_salary_expected_twice_witness:
  "\<exists>i. detect_income code_unit_compare (''acme'', salaries) = Some (Some i) \<and>
    forecastNext (ri_cadence i) (ri_intervalDays i) (ri_lastSeen i) = Some ''2026-03-15''"
proof -
  obtain i where i: "detect_income code_unit_compare (''acme'', salaries) = Some (Some i)" "ri_lastSeen i = ''2026-03-01''"
    using salaries_found by (auto simp: map_option_eq_Some)
  have "list_all (\<lambda>t. pay_day (tx_postedAt t) = 1) salaries" "slice 0 8 ''2026-03-01'' @ ''15'' = ''2026-03-15''"
    by code_simp+
  then show ?thesis using monthly_salary_expected_twice [OF i(1)] i by simp
qed

end
