(* ===== verification/Purchase.thy ===== *)
theory Purchase
  imports ForecastSafety
begin

text \<open>
  The purchase simulator, \<open>domain/insights/purchase-simulator.ts\<close>: one optional purchase against the
  forecast. As there, the outer None is a loop that does not end. \<open>NoPoint\<close> is the \<open>TypeError\<close> that reading
  the balance of a missing point throws.
\<close>

section \<open>The simulator\<close>

record purchaseScenario =
  ps_asOf :: string
  ps_currency :: string
  ps_amount :: int
  ps_date :: string
  ps_baseline :: cashFlowForecast
  ps_points :: "forecastPoint list"
  ps_balanceBeforePurchase :: int
  ps_balanceAfterPurchase :: int
  ps_endingBalance :: int
  ps_lowBalanceDates :: "string list"
  ps_warnings :: "string list"

datatype purchaseError = BadAmount | BadPurchaseDate | NoForecast forecastError | OutsideHorizon | NoPoint

definition charge_point :: "string \<Rightarrow> int \<Rightarrow> forecastPoint \<Rightarrow> forecastPoint" where
  "charge_point purchaseDate amount p =
     p\<lparr>fp_balance := (if fp_date p \<ge> purchaseDate then fp_balance p - amount else fp_balance p)\<rparr>"

definition purchase_warning :: "int \<Rightarrow> string list \<Rightarrow> string" where
  "purchase_warning balanceAfterPurchase lowBalanceDates =
     (if balanceAfterPurchase < 0 then ''This purchase creates a projected cash shortfall on its purchase date.''
      else if lowBalanceDates \<noteq> [] then ''This purchase creates a projected cash shortfall later in the selected horizon.''
      else ''Known recurring commitments remain covered in this conservative scenario.'')"

definition scenario_of :: "string \<Rightarrow> string \<Rightarrow> int \<Rightarrow> string \<Rightarrow> cashFlowForecast \<Rightarrow> purchaseError + purchaseScenario" where
  "scenario_of asOf currency amount purchaseDate baseline =
     (case addDays asOf 1 of
        None \<Rightarrow> Inl BadPurchaseDate
      | Some firstDate \<Rightarrow>
          if cf_points baseline = [] then Inl OutsideHorizon
          else if purchaseDate < firstDate \<or> purchaseDate > fp_date (last (cf_points baseline)) then Inl OutsideHorizon
          else case find (\<lambda>p. fp_date p = purchaseDate) (cf_points baseline) of
              None \<Rightarrow> Inl NoPoint
            | Some basePoint \<Rightarrow>
                let points = map (charge_point purchaseDate amount) (cf_points baseline);
                    after = fp_balance basePoint - amount;
                    lowBalanceDates = map fp_date (filter (\<lambda>p. fp_balance p < 0) points)
                in Inr \<lparr>ps_asOf = asOf, ps_currency = currency, ps_amount = amount, ps_date = purchaseDate,
                     ps_baseline = baseline, ps_points = points, ps_balanceBeforePurchase = fp_balance basePoint,
                     ps_balanceAfterPurchase = after, ps_endingBalance = fp_balance (last points),
                     ps_lowBalanceDates = lowBalanceDates,
                     ps_warnings = [purchase_warning after lowBalanceDates,
                       ''This scenario includes repeatable income and bills only; it does not predict everyday discretionary spending.'']\<rparr>)"

definition simulatePurchase ::
    "(string \<Rightarrow> string \<Rightarrow> int) \<Rightarrow> account list \<Rightarrow> transaction list \<Rightarrow> string \<Rightarrow> num \<Rightarrow> num \<Rightarrow> string \<Rightarrow> string \<Rightarrow>
      (purchaseError + purchaseScenario) option" where
  "simulatePurchase lc accounts ts asOf days amount purchaseDate currency =
     (if \<not> isSafeInteger amount \<or> num_le amount 0 then Some (Inl BadAmount)
      else if \<not> is_iso_date purchaseDate then Some (Inl BadPurchaseDate)
      else map_option (\<lambda>r. case r of
               Inl e \<Rightarrow> Inl (NoForecast e)
             | Inr baseline \<Rightarrow> scenario_of asOf currency (int_of_num amount) purchaseDate baseline)
             (forecastCashFlow lc accounts ts asOf days currency))"

section \<open>A purchase is one more event\<close>

definition purchase_event :: "int \<Rightarrow> string \<Rightarrow> forecastEvent" where
  "purchase_event amount date = \<lparr>fv_date = date, fv_amount = - amount, fv_merchant = [], fv_income = False,
     fv_confidence = 1, fv_transactionIds = []\<rparr>"

lemma forecast_points_of:
  assumes "readable_ledger ts" and "first_day \<le> a" and "a + n \<le> last_day" and "1 \<le> n" and "n \<le> 90"
    and "forecastCashFlow lc accounts ts (toIsoDate a) (Num (of_int n)) currency = Some (Inr f)"
  shows "cf_points f = map (\<lambda>j. \<lparr>fp_date = toIsoDate (a + j), fp_balance = liquid_balance currency accounts +
      sum_on (map (\<lambda>k. toIsoDate (a + k)) [1..j]) (cf_events f)\<rparr>) [1..n]"
    and "cf_startingBalance f = liquid_balance currency accounts"
proof -
  obtain es where "forecast_events lc ts (toIsoDate a) (toIsoDate (a + n)) = Some (Some es)"
    using forecast_events_return [OF assms(1,2), of "a + n" lc] assms by auto
  then show "cf_points f = map (\<lambda>j. \<lparr>fp_date = toIsoDate (a + j), fp_balance = liquid_balance currency accounts +
      sum_on (map (\<lambda>k. toIsoDate (a + k)) [1..j]) (cf_events f)\<rparr>) [1..n]"
    "cf_startingBalance f = liquid_balance currency accounts"
    using forecast_of [OF assms(2,4,5,3), of lc ts es accounts currency] assms(6) by (auto simp: Let_def)
qed

lemma points_with:
  assumes "first_day \<le> a" and "a + n \<le> last_day" and "1 \<le> n"
  shows "forecast_points (events_by_date es) (toIsoDate a) bal [1..n] =
      Some (map (\<lambda>j. \<lparr>fp_date = toIsoDate (a + j), fp_balance = bal +
        sum_on (map (\<lambda>k. toIsoDate (a + k)) [1..j]) es\<rparr>) [1..n])"
  using forecast_points_days [of a 1 "nat n"] range_of_days [OF assms(1,2)] range_of_days [OF assms(1,2), of 0] assms
  by (simp add: events_by_date_sum sum_on_days)

lemma sum_on_event: "sum_on ds (es @ [e]) = sum_on ds es + (if fv_date e \<in> set ds then fv_amount e else 0)"
  by (simp add: sum_on_def)

text \<open>C28: The simulated balances are those of the forecast with the purchase among its events: the simulator's
  shortcut, to shift the balances from the day of the purchase on, changes nothing.\<close>

theorem purchase_is_an_event:
  assumes "readable_ledger ts" and "first_day \<le> a" and "a + n \<le> last_day" and "1 \<le> n" and "n \<le> 90"
    and "forecastCashFlow lc accounts ts (toIsoDate a) (Num (of_int n)) currency = Some (Inr f)"
    and "scenario_of (toIsoDate a) currency amount date f = Inr s"
  shows "forecast_points (events_by_date (cf_events f @ [purchase_event amount date])) (toIsoDate a)
    (cf_startingBalance f) [1..n] = Some (ps_points s)"
proof -
  note f = forecast_points_of [OF assms(1-6)]
  have s: "ps_points s = map (charge_point date amount) (cf_points f)"
    and "\<exists>p \<in> set (cf_points f). fp_date p = date"
    using assms(7) by (auto simp: scenario_of_def Let_def find_Some_iff split: option.splits if_splits)
  then obtain i where i: "1 \<le> i" "i \<le> n" "date = toIsoDate (a + i)" by (auto simp: f(1))
  have "date \<in> set (map (\<lambda>k. toIsoDate (a + k)) [1..j]) \<longleftrightarrow> date \<le> toIsoDate (a + j)" if "1 \<le> j" and "j \<le> n" for j
  proof -
    have "toIsoDate (a + i) = toIsoDate (a + k) \<longleftrightarrow> i = k" if "k \<in> {1..j}" for k
      using range_of_days [OF assms(2,3), of i] range_of_days [OF assms(2,3), of k] i that \<open>j \<le> n\<close>
      by (simp add: toIsoDate_eq)
    then have "date \<in> set (map (\<lambda>k. toIsoDate (a + k)) [1..j]) \<longleftrightarrow> i \<in> {1..j}"
      by (auto simp: i(3) image_iff)
    then show ?thesis using i that assms(2,3) by (simp add: iso_le)
  qed
  then show ?thesis
    unfolding points_with [OF assms(2-4)] s f
    by (auto simp: charge_point_def sum_on_event purchase_event_def)
qed

text \<open>A date that the pattern lets pass and that no calendar has, such as the 30th of February, lies between
  the first and the last day of the forecast by the order of strings. No point carries it, and the
  simulator fails with a \<open>TypeError\<close> instead of its message.\<close>

theorem impossible_date_has_no_point:
  assumes "readable_ledger ts" and "first_day \<le> a" and "a + n \<le> last_day" and "1 \<le> n" and "n \<le> 90"
    and "isSafeInteger amount" and "\<not> num_le amount 0" and "is_iso_date date"
    and "toIsoDate (a + 1) \<le> date" and "date \<le> toIsoDate (a + n)"
    and "list_all (\<lambda>k. toIsoDate (a + k) \<noteq> date) [1..n]"
  shows "simulatePurchase lc accounts ts (toIsoDate a) (Num (of_int n)) amount date currency = Some (Inl NoPoint)"
proof -
  obtain f where f: "forecastCashFlow lc accounts ts (toIsoDate a) (Num (of_int n)) currency = Some (Inr f)"
    using forecast_some [OF assms(1-5)] by blast
  note points = forecast_points_of(1) [OF assms(1-5) f]
  have "find (\<lambda>p. fp_date p = date) (cf_points f) = None"
    using assms(11) by (auto simp: points find_None_iff list_all_iff)
  moreover have "cf_points f \<noteq> []" using assms(4) by (simp add: points)
  moreover have "fp_date (last (cf_points f)) = toIsoDate (a + n)"
    using assms(4) upto_rec2 [of 1 n] by (simp add: points)
  moreover have "addDays (toIsoDate a) 1 = Some (toIsoDate (a + 1))"
    using range_of_days [OF assms(2,3), of 0] assms(4) by (simp add: addDays_def toUtcDate_toIsoDate)
  ultimately show ?thesis
    using f assms(6-8) leD [OF assms(9)] leD [OF assms(10)] by (simp add: simulatePurchase_def scenario_of_def)
qed

theorem purchase_is_an_event_witness:
  "\<exists>f s. forecastCashFlow code_unit_compare [] salaries ''2026-03-10'' (Num 60) ''USD'' = Some (Inr f) \<and>
    scenario_of ''2026-03-10'' ''USD'' 5000 ''2026-03-11'' f = Inr s \<and>
    forecast_points (events_by_date (cf_events f @ [purchase_event 5000 ''2026-03-11''])) ''2026-03-10''
      (cf_startingBalance f) [1..60] = Some (ps_points s)"
proof -
  obtain f where f: "forecastCashFlow code_unit_compare [] salaries (toIsoDate 20522) (Num (of_int 60)) ''USD'' = Some (Inr f)"
    using forecast_some [OF salaries_readable, of 20522 60 code_unit_compare "[]" "''USD''"] by (auto simp: day_limits)
  have limits: "first_day \<le> 20522" "20522 + (60::int) \<le> last_day" "(1::int) \<le> 60" "(60::int) \<le> 90"
    by (simp_all add: day_limits)
  note points = forecast_points_of(1) [OF salaries_readable limits f]
  have split: "[1..60] = (1::int) # [2..60]" "[1..60] = [1..59] @ [60::int]" by code_simp+
  have head: "cf_points f = \<lparr>fp_date = toIsoDate 20523, fp_balance = fp_balance (hd (cf_points f))\<rparr> # tl (cf_points f)"
    unfolding points split(1) by simp
  have end_date: "fp_date (last (cf_points f)) = toIsoDate 20582" unfolding points split(2) by simp
  have dates: "''2026-03-11'' = toIsoDate 20523" "addDays (toIsoDate 20522) 1 = Some (toIsoDate 20523)"
    "\<not> toIsoDate 20582 < toIsoDate 20523"
    by code_simp+
  have "\<exists>s. scenario_of (toIsoDate 20522) ''USD'' 5000 (toIsoDate 20523) f = Inr s"
  proof -
    have "find (\<lambda>p. fp_date p = toIsoDate 20523) (cf_points f) \<noteq> None" by (subst head) simp
    moreover have "cf_points f \<noteq> []" using head by (metis list.distinct(1))
    ultimately show ?thesis using dates(2,3) by (auto simp: scenario_of_def end_date Let_def)
  qed
  then obtain s where "scenario_of (toIsoDate 20522) ''USD'' 5000 (toIsoDate 20523) f = Inr s" by blast
  then show ?thesis
    using purchase_is_an_event [OF salaries_readable limits f, of 5000 "toIsoDate 20523" s] f
    unfolding dates(1) salary_dates(4) by auto
qed

lemma around_february:
  "toIsoDate 20509 = ''2026-02-25''" "toIsoDate 20510 = ''2026-02-26''" "toIsoDate 20511 = ''2026-02-27''"
  "toIsoDate 20512 = ''2026-02-28''" "toIsoDate 20513 = ''2026-03-01''" "toIsoDate 20514 = ''2026-03-02''"
  "toIsoDate 20515 = ''2026-03-03''" "toIsoDate 20516 = ''2026-03-04''"
  by code_simp+

theorem impossible_date_has_no_point_witness:
  "simulatePurchase code_unit_compare [] [] ''2026-02-25'' (Num 7) (Num 5000) ''2026-02-30'' ''USD'' = Some (Inl NoPoint)"
proof -
  have seven: "[1..7] = [1, 2, 3, 4, 5, 6, 7::int]" by code_simp
  have dates: "''2026-02-26'' \<le> ''2026-02-30''" "''2026-02-30'' \<le> ''2026-03-04''" "is_iso_date ''2026-02-30''"
    "isSafeInteger (Num 5000)" "\<not> num_le (Num 5000) 0" "readable_ledger []"
    by code_simp+
  show ?thesis
    using impossible_date_has_no_point [OF dates(6), of 20509 7 "Num 5000" "''2026-02-30''" code_unit_compare "[]" "''USD''"]
      dates by (simp add: day_limits seven around_february)
qed

end
