(* ===== verification/CreditCards.thy ===== *)
theory CreditCards
  imports LedgerTypes Months
begin

text \<open>
  Credit-card payment guidance, \<open>domain/credit-cards/payment-plan.ts\<close>. Ratios are binary64; a date that
  cannot be read throws, which is None. The dash of one
  alert lies beyond the modelled code units and is a hyphen here.
\<close>

section \<open>Days of the month\<close>

definition dateForDay :: "string \<Rightarrow> int \<Rightarrow> string" where
  "dateForDay monthStart day =
     (let year = int (parse_nat (slice 0 4 monthStart)); month = int (parse_nat (slice 5 7 monthStart));
          clamped = min day (daysInMonth year month)
      in slice 0 8 monthStart @ pad_number 2 clamped)"

text \<open>The next occurrence, today included.\<close>

definition nextDayOfMonth :: "string \<Rightarrow> int \<Rightarrow> string option" where
  "nextDayOfMonth today day =
     (let thisMonth = dateForDay (startOfMonth today) day
      in if thisMonth \<ge> today then Some thisMonth
         else map_option (\<lambda>m. dateForDay m day) (addMonths (startOfMonth today) 1))"

definition daysUntil :: "string \<Rightarrow> string \<Rightarrow> int option" where
  "daysUntil today date = map_option (\<lambda>n. n - 1) (daysBetweenInclusive today date)"

section \<open>Plans\<close>

record creditCardPlan =
  cp_accountId :: string
  cp_accountName :: string
  cp_currency :: string
  cp_balanceOwed :: int
  cp_creditLimit :: int
  cp_utilization :: rat
  cp_payDownToThirtyPercent :: int
  cp_recommendedPayment :: int
  cp_nextStatementDate :: "string option"
  cp_paymentDueDate :: "string option"
  cp_daysUntilStatement :: "int option"
  cp_daysUntilDue :: "int option"
  cp_safePaymentWindow :: "dateRange option"
  cp_alerts :: "string list"

definition is_card :: "account \<Rightarrow> bool" where
  "is_card a \<longleftrightarrow> ac_type a = CreditCard \<and> (case ac_creditLimit a of None \<Rightarrow> 0 | Some l \<Rightarrow> l) > 0"

text \<open>A day of the month that is absent or 0 gives no date. The outer None is a thrown error.\<close>

definition configured_date :: "string \<Rightarrow> int option \<Rightarrow> string option option" where
  "configured_date today day = (case day of
     None \<Rightarrow> Some None
   | Some d \<Rightarrow> if d = 0 then Some None else map_option Some (nextDayOfMonth today d))"

definition days_to :: "string \<Rightarrow> string option \<Rightarrow> int option option" where
  "days_to today date = (case date of None \<Rightarrow> Some None | Some d \<Rightarrow> map_option Some (daysUntil today d))"

definition safe_window :: "string \<Rightarrow> string option \<Rightarrow> dateRange option option" where
  "safe_window today dueDate = (case dueDate of
     None \<Rightarrow> Some None
   | Some due \<Rightarrow> (case (addDays due (-3), addDays due (-7)) of
       (Some earlyEnd, Some earlyStart) \<Rightarrow>
         Some (if earlyEnd \<ge> today
               then Some \<lparr>dr_start = (if earlyStart > today then earlyStart else today), dr_end = earlyEnd\<rparr>
               else None)
     | _ \<Rightarrow> None))"

definition card_alerts :: "rat \<Rightarrow> int option \<Rightarrow> int option \<Rightarrow> string list" where
  "card_alerts utilization daysUntilStatement daysUntilDue =
     (if utilization \<ge> fl (9 / 10) then [''Critical utilization: pay down this card as soon as possible.'']
      else if utilization \<ge> fl (3 / 10) then [''Utilization is above the 30% target.''] else []) @
     (case daysUntilStatement of
        None \<Rightarrow> []
      | Some n \<Rightarrow> if n \<le> 7 then [''Statement closes in '' @ int_string n @ '' day'' @ (if n = 1 then '''' else ''s'') @ ''.''] else []) @
     (case daysUntilDue of
        None \<Rightarrow> []
      | Some n \<Rightarrow> if n \<le> 7
          then [if n = 0 then ''Payment is due today'' @ CHR ''-'' # ''take action immediately; do not wait for the end of day.''
                else ''Payment is due in '' @ int_string n @ '' day'' @ (if n = 1 then '''' else ''s'') @ ''.'']
          else [])"

definition card_plan :: "string \<Rightarrow> account \<Rightarrow> creditCardPlan option" where
  "card_plan today a =
     (let creditLimit = (case ac_creditLimit a of None \<Rightarrow> 0 | Some l \<Rightarrow> l);
          balanceOwed = max 0 (- ac_balanceCurrent a);
          utilization = fl (of_int balanceOwed / of_int creditLimit)
      in case (configured_date today (ac_statementDay a), configured_date today (ac_paymentDueDay a)) of
           (Some statement, Some due) \<Rightarrow>
             (case (days_to today statement, days_to today due, safe_window today due) of
                (Some untilStatement, Some untilDue, Some window) \<Rightarrow> Some
                  \<lparr>cp_accountId = ac_id a, cp_accountName = ac_name a, cp_currency = ac_currency a,
                   cp_balanceOwed = balanceOwed, cp_creditLimit = creditLimit, cp_utilization = utilization,
                   cp_payDownToThirtyPercent =
                     max 0 (balanceOwed - js_round (fl (of_int creditLimit * fl (3 / 10)))),
                   cp_recommendedPayment = balanceOwed, cp_nextStatementDate = statement,
                   cp_paymentDueDate = due, cp_daysUntilStatement = untilStatement, cp_daysUntilDue = untilDue,
                   cp_safePaymentWindow = window,
                   cp_alerts = card_alerts utilization untilStatement untilDue\<rparr>
              | _ \<Rightarrow> None)
         | _ \<Rightarrow> None)"

definition by_utilization :: "creditCardPlan \<Rightarrow> creditCardPlan \<Rightarrow> int" where
  "by_utilization a b = (if cp_utilization b > cp_utilization a then 1
     else if cp_utilization b < cp_utilization a then -1 else 0)"

definition buildCreditCardPlans :: "account list \<Rightarrow> string \<Rightarrow> creditCardPlan list option" where
  "buildCreditCardPlans accounts today =
     map_option (js_sort by_utilization) (those (map (card_plan today) (filter is_card accounts)))"

section \<open>The next date is the first one\<close>

text \<open>A day on which a card's day of the month falls: the last day of a shorter month stands in.\<close>

definition card_day :: "int \<Rightarrow> int \<Rightarrow> bool" where
  "card_day day d \<longleftrightarrow> utc_date d = min day (month_length (utc_year d) (utc_month d))"

lemma card_day_month: "1 \<le> day \<Longrightarrow> card_day day (month_day k day)"
  by (simp add: card_day_def month_day_parts)

lemma card_day_is: "card_day day d \<Longrightarrow> d = month_day (month_number d) day"
  using month_day_self [of d] month_number_parts [of d]
  by (simp add: card_day_def month_day_def min.left_idem min.right_idem)

lemma dateForDay_month:
  assumes "first_day \<le> month_first k" and "month_first (k + 1) \<le> last_day + 366" and "1 \<le> day"
  shows "dateForDay (toIsoDate (month_first k)) day = toIsoDate (month_day k day)"
proof -
  let ?y = "k div 12" and ?m = "k mod 12"
  let ?len = "month_length ?y ?m"
  have m: "0 \<le> ?m" "?m \<le> 11" using pos_mod_bound [of 12 k] by simp_all
  have le: "month_first k \<le> last_day + 366" using month_first_gap [of 1 k] assms(2) by simp
  have c: "civil (month_first k) = (?y, ?m, 1)"
    using civil_month_day [of 1 k] month_length_ok [of ?y k] by (simp add: month_first_day min_absorb1)
  note r = forecast_range [OF assms(1) le]
  have y: "100 \<le> ?y" "?y \<le> 9999" using r c by (simp_all add: in_iso_range_def utc_year_def)
  have v: "valid_date ?y ?m (min day ?len)" "valid_date ?y ?m 1"
    using assms(3) month_length_ok [of ?y k] m by (auto simp: valid_date_def)
  have len: "daysInMonth (int (nat ?y)) (int (nat (?m + 1))) = ?len"
    using y m daysInMonth_eq [of ?y "?m + 1"] by simp
  have "pad_number 2 (min day ?len) = fixed_digits 2 (nat (min day ?len))"
    using assms(3) month_length_ok [of ?y k] by (intro pad_number_digits) auto
  moreover have "slice 0 8 (toIsoDate (month_first k)) @ fixed_digits 2 (nat (min day ?len)) = toIsoDate (month_day k day)"
    using iso_prefix [OF v(1)] y by (simp add: month_first_def month_day_def)
  ultimately show ?thesis
    using toIsoDate_slices(2,3) [OF c r(1)] len by (simp add: dateForDay_def Let_def)
qed

lemma nextDayOfMonth_day:
  assumes "first_day \<le> t" and "t \<le> last_day" and "1 \<le> day"
  shows "nextDayOfMonth (toIsoDate t) day = Some (toIsoDate
    (if t \<le> month_day (month_number t) day then month_day (month_number t) day
     else month_day (month_number t + 1) day))"
proof -
  let ?k = "month_number t"
  have gaps: "month_first (?k + 1) \<le> month_first ?k + 31" "month_first (?k + 1 + 1) \<le> month_first (?k + 1) + 31"
    "month_first ?k \<le> month_first (?k + 1)"
    using month_first_gap [of 1 ?k] month_first_gap [of 1 "?k + 1"] by simp_all
  note first = month_first_range [OF assms(1)] month_day_bounds [OF assms(3)]
  have this_month: "dateForDay (startOfMonth (toIsoDate t)) day = toIsoDate (month_day ?k day)"
    using startOfMonth_day [of t] dateForDay_month [of ?k day] first gaps assms by simp
  have next_month: "map_option (\<lambda>m. dateForDay m day) (addMonths (startOfMonth (toIsoDate t)) 1) =
      Some (toIsoDate (month_day (?k + 1) day))"
    using startOfMonth_day [of t] addMonths_first [of t] dateForDay_month [of "?k + 1" day] first gaps assms by simp
  have "toIsoDate (month_day ?k day) \<ge> toIsoDate t \<longleftrightarrow> t \<le> month_day ?k day"
    using first(1,2) first(3) [of ?k] gaps assms by (intro iso_le) auto
  then show ?thesis by (simp add: nextDayOfMonth_def this_month next_month Let_def)
qed

text \<open>The date offered for a card is the first day, from today on, on which its day of the month falls, with
  the last day of the month standing in where the month is shorter.\<close>

theorem next_card_date_is_first:
  assumes "first_day \<le> t" and "t \<le> last_day" and "1 \<le> day"
  shows "\<exists>d. nextDayOfMonth (toIsoDate t) day = Some (toIsoDate d) \<and> t \<le> d \<and> card_day day d \<and>
    list_all (\<lambda>e. \<not> card_day day e) [t..d - 1]"
proof -
  let ?k = "month_number t"
  define d where "d = (if t \<le> month_day ?k day then month_day ?k day else month_day (?k + 1) day)"
  have "t < month_first (?k + 1)"
    using month_day_bounds [of "utc_date t" ?k] utc_date_bounds [of t] by (simp add: month_day_self)
  then have ge: "t \<le> d" using month_day_bounds [OF assms(3), of "?k + 1"] by (simp add: d_def)
  have "\<not> card_day day e" if "t \<le> e" and "e < d" for e
  proof
    assume "card_day day e"
    then have e: "e = month_day (month_number e) day" by (rule card_day_is)
    have k: "?k \<le> month_number e" using month_number_mono [OF that(1)] .
    show False
    proof (cases "month_number e = ?k")
      case True
      with e that show False by (simp add: d_def split: if_splits)
    next
      case False
      with k have "?k + 1 \<le> month_number e" by simp
      then have "month_day (?k + 1) day \<le> month_day (month_number e) day"
        using month_day_less [OF assms(3), of "month_number e - (?k + 1)" "?k + 1"] by (cases "month_number e = ?k + 1") simp_all
      moreover have "month_day ?k day < month_day (?k + 1) day" using month_day_less [OF assms(3), of 1 ?k] by simp
      ultimately show False using e that(2) by (simp add: d_def split: if_splits)
    qed
  qed
  then have "list_all (\<lambda>e. \<not> card_day day e) [t..d - 1]" by (simp add: list_all_iff)
  moreover have "nextDayOfMonth (toIsoDate t) day = Some (toIsoDate d)"
    unfolding d_def by (rule nextDayOfMonth_day [OF assms])
  moreover have "card_day day d" using card_day_month [OF assms(3)] by (simp add: d_def)
  ultimately show ?thesis using ge by blast
qed

theorem next_card_date_is_first_witness:
  "\<exists>d. nextDayOfMonth ''2026-03-31'' 30 = Some (toIsoDate d) \<and> 20543 \<le> d \<and> card_day 30 d \<and>
    list_all (\<lambda>e. \<not> card_day 30 e) [20543..d - 1]"
proof -
  have "toIsoDate 20543 = ''2026-03-31''" by code_simp
  then show ?thesis using next_card_date_is_first [of 20543 30] by (simp add: day_limits)
qed

end
