(* ===== verification/Insights.thy ===== *)
theory Insights
  imports Analytics Money
begin

text \<open>
  Observations about spending, \<open>domain/insights/insights.ts\<close>: the summary of a period, the comparison of
  two periods and the order of the insights. Percentages are binary64; the formatter of amounts is the
  parameter \<open>formatMoney\<close>. A period whose ends name no day throws (None).
\<close>

section \<open>The summary of a period\<close>

record categoryTotal =
  ct_categorySlug :: string
  ct_categoryName :: string
  ct_total :: int
  ct_transactionCount :: nat

record periodSummary =
  su_period :: dateRange
  su_currency :: string
  su_income :: int
  su_expenses :: int
  su_netCashFlow :: int
  su_savingsRate :: rat
  su_topCategories :: "categoryTotal list"
  su_topMerchant :: "(string \<times> int \<times> nat) option"
  su_largestTransaction :: "transaction option"
  su_mostExpensiveDay :: "(string \<times> int) option"
  su_averageDailySpend :: int
  su_transactionCount :: nat

definition settled :: "transaction list \<Rightarrow> dateRange \<Rightarrow> transaction list" where
  "settled ts period =
     filter (\<lambda>t. \<not> tx_pending t \<and> tx_excludedFromAnalytics t \<noteq> Some True \<and> isWithin (tx_postedAt t) period) ts"

text \<open>The variables of the loop.\<close>

record summaryTotals =
  st_income :: int
  st_expenses :: int
  st_byCategory :: "(string, int \<times> nat) jsmap"
  st_byMerchant :: "(string, int \<times> nat) jsmap"
  st_byDay :: "(string, int) jsmap"
  st_largest :: "transaction option"

definition summary_step :: "summaryTotals \<Rightarrow> transaction \<Rightarrow> summaryTotals" where
  "summary_step s t =
     (if isIncomeCategory (tx_categorySlug t) \<and> tx_amount t > 0 then s\<lparr>st_income := st_income s + tx_amount t\<rparr>
      else if \<not> isSpendingCategory (tx_categorySlug t) then s
      else let outflow = max 0 (- tx_amount t)
        in if outflow = 0 then s
           else s\<lparr>st_expenses := st_expenses s + outflow,
                  st_byCategory := addTotal (st_byCategory s) (tx_categorySlug t) outflow,
                  st_byMerchant := addTotal (st_byMerchant s)
                    (case tx_merchant t of None \<Rightarrow> tx_normalizedDescriptor t | Some m \<Rightarrow> m) outflow,
                  st_byDay := map_set (tx_postedAt t) (get_or (st_byDay s) (tx_postedAt t) 0 + outflow) (st_byDay s),
                  st_largest := (case st_largest s of
                      None \<Rightarrow> Some t
                    | Some l \<Rightarrow> if outflow > max 0 (- tx_amount l) then Some t else Some l)\<rparr>)"

definition no_totals :: summaryTotals where
  "no_totals = \<lparr>st_income = 0, st_expenses = 0, st_byCategory = [], st_byMerchant = [], st_byDay = [], st_largest = None\<rparr>"

definition first_of :: "'a list \<Rightarrow> 'a option" where
  "first_of xs = (case xs of [] \<Rightarrow> None | x # _ \<Rightarrow> Some x)"

definition top_categories :: "(string, int \<times> nat) jsmap \<Rightarrow> categoryTotal list" where
  "top_categories byCategory = js_sort (\<lambda>a b. ct_total b - ct_total a)
     (map (\<lambda>(slug, total, count). \<lparr>ct_categorySlug = slug, ct_categoryName = displayName slug, ct_total = total,
        ct_transactionCount = count\<rparr>) byCategory)"

definition summarizePeriod :: "transaction list \<Rightarrow> dateRange \<Rightarrow> string \<Rightarrow> periodSummary option" where
  "summarizePeriod ts period currency =
     (let rows = filter (\<lambda>t. tx_currency t = currency) (settled ts period);
          s = foldl summary_step no_totals rows;
          net = st_income s - st_expenses s
      in map_option (\<lambda>days.
           \<lparr>su_period = period, su_currency = currency, su_income = st_income s, su_expenses = st_expenses s,
            su_netCashFlow = net,
            su_savingsRate = (if st_income s > 0 then max 0 (percentOf (of_int net) (of_int (st_income s))) else 0),
            su_topCategories = top_categories (st_byCategory s),
            su_topMerchant = first_of (js_sort (\<lambda>a b. fst (snd b) - fst (snd a)) (st_byMerchant s)),
            su_largestTransaction = st_largest s,
            su_mostExpensiveDay = first_of (js_sort (\<lambda>a b. snd b - snd a) (st_byDay s)),
            su_averageDailySpend = (if days > 0 then js_round (fl (of_int (st_expenses s) / of_int days)) else 0),
            su_transactionCount = length rows\<rparr>)
         (daysBetweenInclusive (dr_start period) (dr_end period)))"

section \<open>Insights\<close>

datatype insightKind = CategoryIncrease | CategoryDecrease | NewRecurringCharge | PriceIncrease | Overspending
  | PositiveTrend

datatype insightSeverity = InfoSeverity | WarningSeverity | PositiveSeverity

datatype insightPriority = CriticalPriority | Important | Informational

record insight =
  in_kind :: insightKind
  in_severity :: insightSeverity
  in_priority :: "insightPriority option"
  in_priorityScore :: "int option"
  in_title :: string
  in_detail :: string
  in_categorySlug :: "string option"
  in_deltaAmount :: "int option"
  in_deltaPercent :: "rat option"
  in_evidenceTransactionIds :: "string list"

definition MATERIALITY_FLOOR :: int where "MATERIALITY_FLOOR = 2000"
definition SIGNIFICANT_CHANGE_PCT :: rat where "SIGNIFICANT_CHANGE_PCT = 15"

definition totals_by_slug :: "periodSummary \<Rightarrow> (string, int) jsmap" where
  "totals_by_slug s = foldl (\<lambda>m c. map_set (ct_categorySlug c) (ct_total c) m) [] (su_topCategories s)"

definition insight_evidence :: "transaction list \<Rightarrow> periodSummary \<Rightarrow> string \<Rightarrow> string list" where
  "insight_evidence ts current slug = map tx_id (filter (\<lambda>t. tx_currency t = su_currency current \<and>
     tx_categorySlug t = slug \<and> isWithin (tx_postedAt t) (su_period current) \<and> \<not> tx_pending t) ts)"

definition category_insight ::
    "(int \<Rightarrow> string \<Rightarrow> string) \<Rightarrow> periodSummary \<Rightarrow> periodSummary \<Rightarrow> transaction list \<Rightarrow> string \<Rightarrow> insight option" where
  "category_insight formatMoney current previous ts slug =
     (let now = get_or (totals_by_slug current) slug 0; old = get_or (totals_by_slug previous) slug 0;
          delta = now - old;
          pct = (if old = 0 then 100 else percentOf (of_int delta) (of_int old));
          name = displayName slug; magnitude = formatMoney \<bar>delta\<bar> (su_currency current);
          percent = int_string (js_round \<bar>pct\<bar>)
      in if \<bar>delta\<bar> < MATERIALITY_FLOOR then None
         else if \<bar>pct\<bar> < SIGNIFICANT_CHANGE_PCT then None
         else Some
           \<lparr>in_kind = (if delta > 0 then CategoryIncrease else CategoryDecrease),
            in_severity = (if delta > 0 then WarningSeverity else PositiveSeverity),
            in_priority = None, in_priorityScore = None,
            in_title = name @ '' spending is '' @ (if delta > 0 then ''up '' else ''down '') @ percent @ ''%'',
            in_detail = ''You spent '' @ magnitude @ (if delta > 0 then '' more on '' else '' less on '') @ name @ '' than last period.'',
            in_categorySlug = Some slug, in_deltaAmount = Some delta, in_deltaPercent = Some pct,
            in_evidenceTransactionIds = insight_evidence ts current slug\<rparr>)"

definition abs_delta :: "insight \<Rightarrow> int" where
  "abs_delta i = \<bar>case in_deltaAmount i of None \<Rightarrow> 0 | Some d \<Rightarrow> d\<bar>"

definition compareCategoryTotals ::
    "(int \<Rightarrow> string \<Rightarrow> string) \<Rightarrow> periodSummary \<Rightarrow> periodSummary \<Rightarrow> transaction list \<Rightarrow> insight list" where
  "compareCategoryTotals formatMoney current previous ts =
     js_sort (\<lambda>a b. abs_delta b - abs_delta a)
       (List.map_filter (category_insight formatMoney current previous ts)
         (set_of (map fst (totals_by_slug previous) @ map fst (totals_by_slug current))))"

definition cashFlowInsight :: "(int \<Rightarrow> string \<Rightarrow> string) \<Rightarrow> periodSummary \<Rightarrow> insight option" where
  "cashFlowInsight formatMoney s =
     (if su_netCashFlow s \<ge> 0 \<or> su_income s = 0 then None
      else let shortfall = \<bar>su_netCashFlow s\<bar>
        in if shortfall < MATERIALITY_FLOOR then None
           else Some
             \<lparr>in_kind = Overspending, in_severity = WarningSeverity, in_priority = None, in_priorityScore = None,
              in_title = ''You spent more than you earned'',
              in_detail = ''Expenses exceeded income by '' @ formatMoney shortfall (su_currency s) @ '' this period.'',
              in_categorySlug = None, in_deltaAmount = Some (- shortfall), in_deltaPercent = None,
              in_evidenceTransactionIds = []\<rparr>)"

section \<open>The order of insights\<close>

definition insightPriorityScore :: "insight \<Rightarrow> int" where
  "insightPriorityScore i =
     (let severity = (case in_severity i of WarningSeverity \<Rightarrow> 35 | PositiveSeverity \<Rightarrow> 15 | InfoSeverity \<Rightarrow> 10);
          impact = min 35 (js_round (fl (fl (of_int (abs_delta i) / of_int MATERIALITY_FLOOR) * 10)));
          abnormality = min 15 (js_round (fl (\<bar>case in_deltaPercent i of None \<Rightarrow> 0 | Some p \<Rightarrow> p\<bar> / 10)));
          evidence = min 10 (int (length (in_evidenceTransactionIds i)) * 2);
          urgency = (if in_kind i = Overspending then 20 else 0)
      in min 100 (severity + impact + abnormality + evidence + urgency))"

definition priority_of :: "int \<Rightarrow> insightPriority" where
  "priority_of score = (if score \<ge> 75 then CriticalPriority else if score \<ge> 45 then Important else Informational)"

definition rankInsights :: "insight list \<Rightarrow> insight list" where
  "rankInsights insights =
     map (\<lambda>(i, index, score). i\<lparr>in_priorityScore := Some score, in_priority := Some (priority_of score)\<rparr>)
       (js_sort (cmp_or (\<lambda>(_, _, a) (_, _, b). b - a) (\<lambda>(_, a, _) (_, b, _). a - b))
         (map (\<lambda>(index, i). (i, int index, insightPriorityScore i)) (enumerate 0 insights)))"

end
