(* ===== verification/InsightsSafety.thy ===== *)
theory InsightsSafety
  imports Insights AnalyticsSafety
begin

text \<open>
  What the monthly report says against what the analytics say: the same spending, an income that differs by
  the refunds, and the range of the priorities.
\<close>

section \<open>The report and the analytics\<close>

lemma settled_counted: "filter (\<lambda>t. tx_currency t = currency) (settled ts period) = filter (counted currency period) ts"
  by (induction ts) (auto simp: settled_def counted_def)

lemma kinds_differ: "isIncomeCategory slug \<Longrightarrow> \<not> isSpendingCategory slug"
  by (auto simp: isIncomeCategory_def isSpendingCategory_def)

lemma summary_expenses:
  "st_expenses (foldl summary_step s ts) = st_expenses s + sum_list (map expenseAmount (filter is_expense ts))"
proof (induction ts arbitrary: s)
  case (Cons t ts)
  have "st_expenses (summary_step s t) = st_expenses s + (if is_expense t then expenseAmount t else 0)"
    using kinds_differ by (auto simp: summary_step_def is_expense_def expenseAmount_def Let_def)
  with Cons show ?case by simp
qed simp

lemma summary_income:
  "st_income (foldl summary_step s ts) =
    st_income s + sum_list (map tx_amount (filter (\<lambda>t. isIncomeCategory (tx_categorySlug t) \<and> tx_amount t > 0) ts))"
proof (induction ts arbitrary: s)
  case (Cons t ts)
  have "st_income (summary_step s t) = st_income s +
      (if isIncomeCategory (tx_categorySlug t) \<and> tx_amount t > 0 then tx_amount t else 0)"
    by (simp add: summary_step_def Let_def)
  with Cons show ?case by simp
qed simp

text \<open>C29: The monthly report and the analytics of the same period and currency agree on what was spent.\<close>

theorem report_agrees_on_spending:
  assumes "summarizePeriod ts period currency = Some s" and "computeAnalytics lc ts period currency asOf = Some r"
  shows "su_expenses s = an_grossExpenses r"
proof -
  have "su_expenses s = sum_list (map expenseAmount (filter is_expense (filter (counted currency period) ts)))"
    using assms(1) by (auto simp: summarizePeriod_def Let_def settled_counted summary_expenses no_totals_def)
  moreover have "an_grossExpenses r = sum_list (map expenseAmount (filter is_expense (filter (counted currency period) ts)))"
    using assms(2) by (auto simp: computeAnalytics_def Let_def bind_eq_Some_conv simp del: filter_filter)
  ultimately show ?thesis by simp
qed

lemma refunds_are_income: "isIncomeCategory ''refunds''"
  by code_simp

lemma income_split:
  "sum_list (map tx_amount (filter (\<lambda>t. isIncomeCategory (tx_categorySlug t) \<and> tx_amount t > 0) ts)) =
    sum_list (map tx_amount (filter is_income ts)) + sum_list (map tx_amount (filter is_refund ts))"
  using refunds_are_income by (induction ts) (auto simp: is_income_def is_refund_def)

lemma amount_of_all: "amount_of (\<lambda>_. True) f ts = sum_list (map f ts)"
proof -
  have "foldl (\<lambda>s t. if True then s + f t else s) x ts = x + sum_list (map f ts)" for x
    by (induction ts arbitrary: x) (simp_all add: add.assoc)
  from this [of 0] show ?thesis by (simp add: amount_of_def)
qed

text \<open>They do not agree on income: the report counts refunds as income, the analytics do not.\<close>

theorem report_counts_refunds_as_income:
  assumes "summarizePeriod ts period currency = Some s" and "computeAnalytics lc ts period currency asOf = Some r"
  shows "su_income s = an_totalIncome r + an_refunds r"
proof -
  let ?rows = "filter (counted currency period) ts"
  have "su_income s = sum_list (map tx_amount (filter (\<lambda>t. isIncomeCategory (tx_categorySlug t) \<and> tx_amount t > 0) ?rows))"
    using assms(1) by (auto simp: summarizePeriod_def Let_def settled_counted summary_income no_totals_def simp del: filter_filter)
  moreover have "an_totalIncome r = sum_list (map tx_amount (filter is_income ?rows))"
    "an_refunds r = sum_list (map tx_amount (filter is_refund ?rows))"
    using assms(2) by (auto simp: computeAnalytics_def Let_def bind_eq_Some_conv amount_of_all simp del: filter_filter)
  ultimately show ?thesis using income_split by metis
qed

section \<open>The ranking\<close>

lemma score_range: "insightPriorityScore i \<in> {0..100}"
proof -
  have nonneg: "0 \<le> js_round (fl x)" if "0 \<le> x" for x
    using fl_mono [OF that] js_round_mono [of 0 "fl x"] by (simp add: js_round_of_int [of 0, simplified])
  have "0 \<le> fl (of_int (abs_delta i) / of_int MATERIALITY_FLOOR)"
    using fl_mono [of 0 "of_int (abs_delta i) / of_int MATERIALITY_FLOOR"] by (simp add: abs_delta_def MATERIALITY_FLOOR_def)
  then have "0 \<le> js_round (fl (fl (of_int (abs_delta i) / of_int MATERIALITY_FLOOR) * 10))" by (intro nonneg) simp
  moreover have "0 \<le> js_round (fl (\<bar>case in_deltaPercent i of None \<Rightarrow> 0 | Some p \<Rightarrow> p\<bar> / 10))" by (intro nonneg) simp
  ultimately show ?thesis by (auto simp: insightPriorityScore_def Let_def split: insightSeverity.split)
qed

section \<open>Witnesses\<close>

lemma spent_summary: "\<exists>s. summarizePeriod spent_rows one_day ''USD'' = Some s"
proof -
  have "toIsoDate 20515 = ''2026-03-03''" "in_iso_range 20515" by code_simp+
  then have "toUtcDate ''2026-03-03'' = Some 20515" using toUtcDate_toIsoDate by metis
  then show ?thesis by (simp add: summarizePeriod_def Let_def one_day_def daysBetweenInclusive_def)
qed

theorem report_agrees_on_spending_witness:
  "\<exists>s r. summarizePeriod spent_rows one_day ''USD'' = Some s \<and>
    computeAnalytics code_unit_compare spent_rows one_day ''USD'' ''2026-03-03'' = Some r \<and>
    su_expenses s = 1000 \<and> an_grossExpenses r = 1000"
  using spent_summary spent_report report_agrees_on_spending by metis

theorem report_counts_refunds_as_income_witness:
  "\<exists>s r. summarizePeriod spent_rows one_day ''USD'' = Some s \<and>
    computeAnalytics code_unit_compare spent_rows one_day ''USD'' ''2026-03-03'' = Some r \<and>
    su_income s = an_totalIncome r + an_refunds r"
  using spent_summary spent_report report_counts_refunds_as_income by metis

end
