(* ===== verification/JsFormat.thy ===== *)
theory JsFormat
  imports JsNum JsString
begin

text \<open>Numbers as the code prints them.\<close>

text \<open>\<open>x.toFixed(d)\<close> of a finite number below \<open>10 ^ 21\<close>, with the sign of a negative number even where it rounds to zero.\<close>

definition to_fixed_string :: "nat \<Rightarrow> rat \<Rightarrow> string" where
  "to_fixed_string d x =
     (let n = nat (js_round (\<bar>x\<bar> * 10 ^ d)); whole = nat_string (n div 10 ^ d)
      in (if x < 0 then ''-'' else '''') @ whole @
         (if d = 0 then '''' else CHR ''.'' # padStart d (CHR ''0'') (nat_string (n mod 10 ^ d))))"

lemma to_fixed_string_examples:
  "to_fixed_string 1 (25 / 2) = ''12.5''" "to_fixed_string 0 (5 / 2) = ''3''" "to_fixed_string 2 (- 1 / 20) = ''-0.05''"
  by code_simp+

end
