(* ===== verification/HealthScore.thy ===== *)
theory HealthScore
  imports Insights JsFormat
begin

text \<open>
  The financial health score from 0 to 1000, \<open>domain/health-score/score.ts\<close>: six components, each with its
  ratio, its points and an action. Ratios are binary64.
\<close>

section \<open>Types\<close>

datatype componentKey = SavingsRate | CreditUtilization | BudgetAdherence | EmergencyFund | PaymentHistory | CashFlow

datatype healthBand = CriticalBand | PoorBand | FairBand | GoodBand | ExcellentBand

record scoreComponent =
  sk_key :: componentKey
  sk_label :: string
  sk_points :: int
  sk_maxPoints :: int
  sk_ratio :: rat
  sk_action :: "string option"
  sk_detail :: string

record healthScore =
  hs_score :: int
  hs_band :: healthBand
  hs_components :: "scoreComponent list"
  hs_topActions :: "string list"

record healthScoreInput =
  hi_summary :: periodSummary
  hi_accounts :: "account list"
  hi_transactions :: "transaction list"
  hi_budgetAdherenceRatio :: "rat option"

fun WEIGHTS :: "componentKey \<Rightarrow> int" where
  "WEIGHTS SavingsRate = 250"
| "WEIGHTS CreditUtilization = 200"
| "WEIGHTS BudgetAdherence = 150"
| "WEIGHTS EmergencyFund = 150"
| "WEIGHTS CashFlow = 150"
| "WEIGHTS PaymentHistory = 100"

definition clamp01 :: "rat \<Rightarrow> rat" where
  "clamp01 n = min 1 (max 0 n)"

definition bandFor :: "int \<Rightarrow> healthBand" where
  "bandFor score =
     (if score \<ge> 850 then ExcellentBand else if score \<ge> 700 then GoodBand else if score \<ge> 550 then FairBand
      else if score \<ge> 400 then PoorBand else CriticalBand)"

section \<open>The components\<close>

definition component :: "componentKey \<Rightarrow> string \<Rightarrow> rat \<Rightarrow> string \<Rightarrow> string option \<Rightarrow> scoreComponent" where
  "component key label ratio detail action =
     \<lparr>sk_key = key, sk_label = label, sk_points = js_round (fl (ratio * of_int (WEIGHTS key))),
      sk_maxPoints = WEIGHTS key, sk_ratio = ratio, sk_action = action, sk_detail = detail\<rparr>"

definition savings_component :: "periodSummary \<Rightarrow> scoreComponent" where
  "savings_component s =
     (let ratio = clamp01 (fl (su_savingsRate s / 20))
      in component SavingsRate ''Savings rate'' ratio
           (''You'' @ CHR 0x27 # ''re saving '' @ to_fixed_string 1 (su_savingsRate s) @ ''% of income.'')
           (if ratio \<ge> 1 then None
            else Some (''Increase savings to 20% of income to max this out (currently '' @
              to_fixed_string 0 (su_savingsRate s) @ ''%).'')))"

definition limited_cards :: "account list \<Rightarrow> account list" where
  "limited_cards accounts =
     filter (\<lambda>a. ac_type a = CreditCard \<and> (case ac_creditLimit a of None \<Rightarrow> 0 | Some l \<Rightarrow> l) > 0) accounts"

definition utilization_component :: "periodSummary \<Rightarrow> account list \<Rightarrow> scoreComponent" where
  "utilization_component s accounts =
     (let cards = limited_cards accounts;
          totalLimit = sum_list (map (\<lambda>a. case ac_creditLimit a of None \<Rightarrow> 0 | Some l \<Rightarrow> l) cards);
          totalOwed = sum_list (map (\<lambda>a. max 0 (- ac_balanceCurrent a)) cards);
          utilization = (if totalLimit > 0 then fl (of_int totalOwed / of_int totalLimit) else 0);
          ratio = (if totalLimit = 0 then 1 else clamp01 (fl (fl (fl (9 / 10) - utilization) / fl (6 / 10))));
          payDownTarget = max 0 (fl (of_int totalOwed - fl (of_int totalLimit * fl (3 / 10))))
      in component CreditUtilization ''Credit utilization'' ratio
           (if totalLimit = 0 then ''No credit cards connected.''
            else ''Using '' @ to_fixed_string 0 (fl (utilization * 100)) @ ''% of your available credit.'')
           (if payDownTarget > 0
            then Some (''Pay down '' @ to_fixed_string 0 (fl (payDownTarget / 100)) @ CHR '' '' # su_currency s @
              '' to get under 30% utilization.'')
            else None))"

definition adherence_component :: "rat option \<Rightarrow> scoreComponent" where
  "adherence_component budgetAdherenceRatio =
     (let adherence = (case budgetAdherenceRatio of None \<Rightarrow> fl (7 / 10) | Some r \<Rightarrow> r)
      in component BudgetAdherence ''Budget adherence'' (clamp01 adherence)
           (if budgetAdherenceRatio = None then ''No budgets set yet.''
            else int_string (js_round (fl (adherence * 100))) @ ''% of your budgets are on track.'')
           (if budgetAdherenceRatio = None then Some ''Set a budget for your largest spending category.''
            else if adherence \<ge> 1 then None
            else Some ''Bring your over-budget categories back under their limits.''))"

definition liquid_savings :: "account list \<Rightarrow> int" where
  "liquid_savings accounts = sum_list (map (\<lambda>a. max 0 (ac_balanceCurrent a))
     (filter (\<lambda>a. ac_type a = Savings \<or> ac_type a = Checking \<or> ac_type a = Cash) accounts))"

definition emergency_component :: "periodSummary \<Rightarrow> account list \<Rightarrow> scoreComponent" where
  "emergency_component s accounts =
     (let liquid = liquid_savings accounts; monthlyExpenses = su_expenses s;
          monthsCovered = (if monthlyExpenses > 0 then fl (of_int liquid / of_int monthlyExpenses) else 0);
          ratio = clamp01 (fl (monthsCovered / 3))
      in component EmergencyFund ''Emergency fund'' ratio
           (if monthlyExpenses > 0 then ''You have '' @ to_fixed_string 1 monthsCovered @ '' months of expenses saved.''
            else ''Not enough spending history to estimate.'')
           (if ratio \<ge> 1 then None
            else Some (''Build toward 3 months of expenses ('' @
              to_fixed_string 0 (fl (of_int (monthlyExpenses * 3 - liquid) / 100)) @ CHR '' '' # su_currency s @ '' to go).'')))"

definition cash_flow_component :: "periodSummary \<Rightarrow> scoreComponent" where
  "cash_flow_component s =
     (let net = su_netCashFlow s;
          ratio = (if su_income s > 0 then clamp01 (fl (1 + fl (of_int (min 0 net) / of_int (su_income s))))
            else if net \<ge> 0 then 1 else 0)
      in component CashFlow ''Cash flow'' ratio
           (if net \<ge> 0 then ''You earned more than you spent this period.'' else ''You spent more than you earned this period.'')
           (if net \<ge> 0 then None else Some ''Reduce spending or increase income to get cash flow positive.''))"

definition is_fee :: "transaction \<Rightarrow> bool" where
  "is_fee t \<longleftrightarrow> tx_excludedFromAnalytics t \<noteq> Some True \<and> tx_categorySlug t = ''fees'' \<and>
     isSpendingCategory (tx_categorySlug t) \<and> tx_amount t < 0"

definition payment_component :: "transaction list \<Rightarrow> scoreComponent" where
  "payment_component ts =
     (let n = length (filter is_fee ts);
          ratio = (if n = 0 then 1 else clamp01 (1 - of_nat n * (1 / 4)))
      in component PaymentHistory ''Payment history'' ratio
           (if n = 0 then ''No late fees or interest charges found.'' else nat_string n @ '' fee or interest charge(s) found.'')
           (if n = 0 then None else Some ''Set up autopay for minimum payments to avoid late fees.''))"

section \<open>The score\<close>

definition health_components :: "healthScoreInput \<Rightarrow> scoreComponent list" where
  "health_components i =
     [savings_component (hi_summary i), utilization_component (hi_summary i) (hi_accounts i),
      adherence_component (hi_budgetAdherenceRatio i), emergency_component (hi_summary i) (hi_accounts i),
      cash_flow_component (hi_summary i), payment_component (hi_transactions i)]"

definition points_left :: "scoreComponent \<Rightarrow> int" where
  "points_left c = sk_maxPoints c - sk_points c"

definition computeHealthScore :: "healthScoreInput \<Rightarrow> healthScore" where
  "computeHealthScore i =
     (let components = health_components i; score = sum_list (map sk_points components)
      in \<lparr>hs_score = score, hs_band = bandFor score, hs_components = components,
          hs_topActions = map (\<lambda>c. the (sk_action c)) (take 3
            (js_sort (\<lambda>a b. points_left b - points_left a) (filter (\<lambda>c. sk_action c \<noteq> None) components)))\<rparr>)"

section \<open>Bounds\<close>

lemma clamp01_bounds: "0 \<le> clamp01 x \<and> clamp01 x \<le> 1"
  by (simp add: clamp01_def)

lemma component_points:
  assumes "0 \<le> ratio" and "ratio \<le> 1"
  shows "0 \<le> sk_points (component key label ratio detail action) \<and>
    sk_points (component key label ratio detail action) \<le> WEIGHTS key"
proof -
  have w: "0 \<le> WEIGHTS key" "\<bar>WEIGHTS key\<bar> < 2 ^ 53" by (cases key; simp)+
  have "ratio * of_int (WEIGHTS key) \<le> 1 * of_int (WEIGHTS key)"
    using assms w(1) by (intro mult_right_mono) simp_all
  then have "fl (ratio * of_int (WEIGHTS key)) \<le> of_int (WEIGHTS key)"
    using fl_mono fl_int [OF w(2)] by fastforce
  moreover have "fl 0 \<le> fl (ratio * of_int (WEIGHTS key))"
    using assms w(1) by (intro fl_mono) simp
  ultimately show ?thesis
    using js_round_bounds [of 0 _ "WEIGHTS key"] by (simp add: component_def)
qed

lemma ratio_in_range:
  "c \<in> set (health_components i) \<Longrightarrow>
    \<exists>key label ratio detail action. c = component key label ratio detail action \<and> 0 \<le> ratio \<and> ratio \<le> 1"
proof -
  have built: "\<exists>key label ratio detail action. component k l r d a = component key label ratio detail action \<and>
      0 \<le> ratio \<and> ratio \<le> 1" if "0 \<le> r \<and> r \<le> 1" for k l r d a
    using that by blast
  have "\<exists>key label ratio detail action. savings_component s = component key label ratio detail action \<and> 0 \<le> ratio \<and> ratio \<le> 1"
    "\<exists>key label ratio detail action. utilization_component s as = component key label ratio detail action \<and> 0 \<le> ratio \<and> ratio \<le> 1"
    "\<exists>key label ratio detail action. adherence_component b = component key label ratio detail action \<and> 0 \<le> ratio \<and> ratio \<le> 1"
    "\<exists>key label ratio detail action. emergency_component s as = component key label ratio detail action \<and> 0 \<le> ratio \<and> ratio \<le> 1"
    "\<exists>key label ratio detail action. cash_flow_component s = component key label ratio detail action \<and> 0 \<le> ratio \<and> ratio \<le> 1"
    "\<exists>key label ratio detail action. payment_component ts = component key label ratio detail action \<and> 0 \<le> ratio \<and> ratio \<le> 1"
    for s as b ts
    unfolding savings_component_def utilization_component_def adherence_component_def emergency_component_def
      cash_flow_component_def payment_component_def Let_def
    by (rule built, simp add: clamp01_bounds)+
  then show "c \<in> set (health_components i) \<Longrightarrow>
    \<exists>key label ratio detail action. c = component key label ratio detail action \<and> 0 \<le> ratio \<and> ratio \<le> 1"
    by (simp add: health_components_def) metis
qed

text \<open>The score lies between 0 and 1000, as the file says, for any account, transaction and budget data: the
  roundings of the six components never add up to more than the weights.\<close>

theorem health_score_in_range: "hs_score (computeHealthScore i) \<in> {0..1000}"
proof -
  have each: "0 \<le> sk_points c \<and> sk_points c \<le> sk_maxPoints c" if c: "c \<in> set (health_components i)" for c
  proof -
    obtain key label ratio detail action where
      "c = component key label ratio detail action" "0 \<le> ratio" "ratio \<le> 1"
      using ratio_in_range [OF c] by blast
    then show ?thesis using component_points [of ratio key label detail action] by (simp add: component_def)
  qed
  have "0 \<le> sum_list (map sk_points (health_components i))"
    by (rule sum_list_nonneg) (auto dest: each)
  moreover have "sum_list (map sk_points (health_components i)) \<le> sum_list (map sk_maxPoints (health_components i))"
    by (rule sum_list_mono) (simp add: each)
  moreover have "sum_list (map sk_maxPoints (health_components i)) = 1000"
    by (simp add: health_components_def savings_component_def utilization_component_def adherence_component_def
        emergency_component_def cash_flow_component_def payment_component_def Let_def component_def)
  ultimately show ?thesis by (simp add: computeHealthScore_def Let_def)
qed

end
