(* ===== verification/DataQuality.thy ===== *)
theory DataQuality
  imports LedgerTypes Dates JsRegex
begin

text \<open>
  The trust in the source data of a report, \<open>domain/insights/data-quality.ts\<close>. \<open>parse_time\<close> is the host's
  \<open>Date.parse\<close> of a time stamp, None where it gives NaN.
\<close>

section \<open>Types\<close>

datatype qualityStatus = Good | Attention | NoData

datatype qualitySeverity = QInfo | QWarning | QCritical

record qualityIssue =
  qi_code :: string
  qi_severity :: qualitySeverity
  qi_title :: string
  qi_message :: string
  qi_affectedCount :: nat

record qualityReport =
  qr_status :: qualityStatus
  qr_score :: int
  qr_checkedAt :: string
  qr_transactionCount :: nat
  qr_accountCoverage :: rat
  qr_issues :: "qualityIssue list"

record qualityLink =
  ql_status :: string
  ql_createdAt :: string
  ql_lastSyncedAt :: "string option"

record qualityInput =
  qu_accounts :: "account list"
  qu_transactions :: "transaction list"
  qu_bankLinks :: "qualityLink list"
  qu_checkedAt :: string
  qu_staleAfterHours :: "int option"

section \<open>Checks\<close>

definition isValidDateOnly :: "string \<Rightarrow> bool" where
  "isValidDateOnly v = (is_iso_date v \<and> (case toUtcDate v of None \<Rightarrow> False | Some d \<Rightarrow> startsWith (toIsoDate d) v))"

definition is_iso_currency :: "string \<Rightarrow> bool" where
  "is_iso_currency c \<longleftrightarrow> length c = 3 \<and> list_all is_upper c"

definition missing_account :: "qualityInput \<Rightarrow> transaction \<Rightarrow> bool" where
  "missing_account q t \<longleftrightarrow> tx_accountId t \<notin> set (map ac_id (qu_accounts q))"

definition provider_key :: "transaction \<Rightarrow> string" where
  "provider_key t = tx_accountId t @ CHR 0x00 # tx_providerTxnId t"

definition duplicate_keys :: "transaction list \<Rightarrow> string list" where
  "duplicate_keys ts = snd (foldl (\<lambda>(seen, dups) t. let key = provider_key t
     in (set_add key seen, if key \<in> set seen then set_add key dups else dups)) ([], []) ts)"

definition is_broken :: "qualityLink \<Rightarrow> bool" where
  "is_broken l \<longleftrightarrow> ql_status l = ''error'' \<or> ql_status l = ''needs_reauth''"

definition is_stale_link :: "(string \<Rightarrow> int option) \<Rightarrow> qualityInput \<Rightarrow> qualityLink \<Rightarrow> bool" where
  "is_stale_link parse_time q l =
     (if ql_status l = ''revoked'' \<or> is_broken l then False
      else let syncedAt = (if truthy (ql_lastSyncedAt l) then parse_time (the (ql_lastSyncedAt l)) else None);
             reference = (case syncedAt of None \<Rightarrow> parse_time (ql_createdAt l) | Some n \<Rightarrow> Some n);
             staleAfterMs = (case qu_staleAfterHours q of None \<Rightarrow> 36 | Some h \<Rightarrow> h) * 60 * 60 * 1000
        in case (reference, parse_time (qu_checkedAt q)) of
             (Some r, Some c) \<Rightarrow> c - r > staleAfterMs
           | _ \<Rightarrow> False)"

definition plural_s :: "nat \<Rightarrow> string" where
  "plural_s n = (if n = 1 then '''' else ''s'')"

definition issue :: "nat \<Rightarrow> string \<Rightarrow> qualitySeverity \<Rightarrow> string \<Rightarrow> string \<Rightarrow> qualityIssue list" where
  "issue n cd severity title message =
     (if n > 0 then [\<lparr>qi_code = cd, qi_severity = severity, qi_title = title, qi_message = message,
        qi_affectedCount = n\<rparr>] else [])"

definition count_if :: "('a \<Rightarrow> bool) \<Rightarrow> 'a list \<Rightarrow> nat" where
  "count_if p xs = length (filter p xs)"

definition quality_issues :: "(string \<Rightarrow> int option) \<Rightarrow> qualityInput \<Rightarrow> qualityIssue list" where
  "quality_issues parse_time q =
     (let ts = qu_transactions q;
          missing = count_if (missing_account q) ts;
          dates = count_if (\<lambda>t. \<not> isValidDateOnly (tx_postedAt t)) ts;
          currencies = count_if (\<lambda>t. \<not> is_iso_currency (tx_currency t)) ts;
          duplicates = length (duplicate_keys ts);
          broken = count_if is_broken (qu_bankLinks q);
          bare = (if qu_bankLinks q \<noteq> [] \<and> qu_accounts q = [] then length (qu_bankLinks q) else 0);
          stale = count_if (is_stale_link parse_time q) (qu_bankLinks q)
      in issue missing ''missing_account'' QCritical ''Transactions need an account link''
           (nat_string missing @ '' transaction'' @ plural_s missing @ '' reference'' @
             (if missing = 1 then ''s'' else '''') @ '' an account that is not available.'') @
         issue dates ''invalid_date'' QCritical ''Some transaction dates are invalid''
           (nat_string dates @ '' transaction'' @ plural_s dates @ '' cannot be placed on the financial timeline.'') @
         issue currencies ''invalid_currency'' QCritical ''Some transactions have invalid currencies''
           (nat_string currencies @ '' transaction'' @ plural_s currencies @ '' cannot be safely included in a currency total.'') @
         issue duplicates ''duplicate_transaction'' QCritical ''Duplicate transaction evidence detected''
           (nat_string duplicates @ '' provider transaction'' @ plural_s duplicates @ '' appear more than once.'') @
         issue broken ''provider_attention'' QCritical ''A bank connection needs attention''
           (nat_string broken @ '' bank connection'' @ plural_s broken @ '' cannot currently guarantee fresh balances.'') @
         issue bare ''incomplete_import'' QCritical ''A bank connection has no imported accounts''
           (nat_string bare @ '' bank connection'' @ plural_s bare @ '' has not produced an account yet.'') @
         issue stale ''stale_sync'' QWarning ''A bank connection may be stale''
           (nat_string stale @ '' active connection'' @ plural_s stale @ '' has not reported fresh data recently.''))"

fun penalty :: "qualitySeverity \<Rightarrow> int" where
  "penalty QCritical = 35"
| "penalty QWarning = 15"
| "penalty QInfo = 5"

definition scoreIssues :: "qualityIssue list \<Rightarrow> int" where
  "scoreIssues issues = max 0 (100 - sum_list (map (penalty \<circ> qi_severity) issues))"

definition roundRatio :: "nat \<Rightarrow> nat \<Rightarrow> rat" where
  "roundRatio numerator denominator =
     fl (of_int (js_round (fl (fl (of_nat numerator / of_nat denominator) * 1000))) / 1000)"

definition assessDataQuality :: "(string \<Rightarrow> int option) \<Rightarrow> qualityInput \<Rightarrow> qualityReport" where
  "assessDataQuality parse_time q =
     (let ts = qu_transactions q; issues = quality_issues parse_time q; score = scoreIssues issues
      in \<lparr>qr_status = (if qu_accounts q = [] \<and> qu_bankLinks q = [] \<and> ts = [] then NoData
            else if score \<ge> 85 \<and> issues = [] then Good else Attention),
          qr_score = score, qr_checkedAt = qu_checkedAt q, qr_transactionCount = length ts,
          qr_accountCoverage = (if ts = [] then 1
            else roundRatio (length ts - count_if (missing_account q) ts) (length ts)),
          qr_issues = issues\<rparr>)"

section \<open>What a good report means\<close>

definition trustworthy_row :: "qualityInput \<Rightarrow> transaction \<Rightarrow> bool" where
  "trustworthy_row q t \<longleftrightarrow> tx_accountId t \<in> set (map ac_id (qu_accounts q)) \<and> isValidDateOnly (tx_postedAt t) \<and>
     is_iso_currency (tx_currency t)"

definition trustworthy :: "(string \<Rightarrow> int option) \<Rightarrow> qualityInput \<Rightarrow> bool" where
  "trustworthy parse_time q \<longleftrightarrow>
     list_all (trustworthy_row q) (qu_transactions q) \<and> distinct (map provider_key (qu_transactions q)) \<and>
     list_all (\<lambda>l. \<not> is_broken l \<and> \<not> is_stale_link parse_time q l) (qu_bankLinks q) \<and>
     (qu_accounts q = [] \<longrightarrow> qu_bankLinks q = []) \<and>
     (qu_accounts q \<noteq> [] \<or> qu_bankLinks q \<noteq> [] \<or> qu_transactions q \<noteq> [])"

lemma duplicate_scan:
  "(case foldl (\<lambda>(seen, dups) t. let key = provider_key t
     in (set_add key seen, if key \<in> set seen then set_add key dups else dups)) (seen, dups) ts of (seen', dups') \<Rightarrow>
   dups' = [] \<longleftrightarrow> dups = [] \<and> distinct (map provider_key ts) \<and> set seen \<inter> set (map provider_key ts) = {})"
proof (induction ts arbitrary: seen dups)
  case (Cons t ts)
  have "set_add k ds \<noteq> []" for k and ds :: "string list" by (auto simp: set_add_def)
  with Cons [where seen = "set_add (provider_key t) seen"
      and dups = "if provider_key t \<in> set seen then set_add (provider_key t) dups else dups"]
  show ?case by (auto simp: Let_def split: prod.splits)
qed simp

lemma no_duplicates: "duplicate_keys ts = [] \<longleftrightarrow> distinct (map provider_key ts)"
  using duplicate_scan [where seen = "[]" and dups = "[]" and ts = ts] by (auto simp: duplicate_keys_def split: prod.splits)

lemma no_issues:
  "quality_issues parse_time q = [] \<longleftrightarrow>
     list_all (trustworthy_row q) (qu_transactions q) \<and> distinct (map provider_key (qu_transactions q)) \<and>
     list_all (\<lambda>l. \<not> is_broken l \<and> \<not> is_stale_link parse_time q l) (qu_bankLinks q) \<and>
     (qu_accounts q = [] \<longrightarrow> qu_bankLinks q = [])"
proof -
  have issue: "issue n c s t m = [] \<longleftrightarrow> n = 0" for n c s t m by (simp add: issue_def)
  have rows: "list_all (trustworthy_row q) ts \<longleftrightarrow> count_if (missing_account q) ts = 0 \<and>
      count_if (\<lambda>t. \<not> isValidDateOnly (tx_postedAt t)) ts = 0 \<and> count_if (\<lambda>t. \<not> is_iso_currency (tx_currency t)) ts = 0" for ts
    by (induction ts) (auto simp: count_if_def trustworthy_row_def missing_account_def)
  have links: "list_all (\<lambda>l. \<not> is_broken l \<and> \<not> is_stale_link parse_time q l) ls \<longleftrightarrow>
      count_if is_broken ls = 0 \<and> count_if (is_stale_link parse_time q) ls = 0" for ls
    by (induction ls) (auto simp: count_if_def)
  show ?thesis
    unfolding quality_issues_def Let_def append_is_Nil_conv issue rows links
    by (simp add: no_duplicates)
qed

text \<open>A report is called good exactly if there is data, every transaction belongs to a known account and has a day
  of the calendar and a currency code, no provider row appears twice, and every bank connection works, is
  fresh and has brought an account.\<close>

theorem good_means_trustworthy: "qr_status (assessDataQuality parse_time q) = Good \<longleftrightarrow> trustworthy parse_time q"
  using no_issues [of parse_time q]
  by (auto simp: assessDataQuality_def Let_def trustworthy_def scoreIssues_def)

end
