(* ===== verification/InsightsService.thy ===== *)
theory InsightsService
  imports LedgerService Insights HealthScore DataQuality CreditCards Purchase Budgets
begin

text \<open>
  The insights service, \<open>modules/insights/insights.service.ts\<close>: every report over the ledger's stores, and the
  cache of the analytics with its invalidation by the event bus. A thrown error is None, or \<open>Inl\<close> where the
  errors are told apart.
\<close>

section \<open>Reports\<close>

record insightsStores =
  im_transactions :: transactionStore
  im_accounts :: accountState
  im_budgets :: "budget buckets"
  im_bankLinks :: "qualityLink buckets"

definition today_or :: "ledgerEnv \<Rightarrow> string option \<Rightarrow> string" where
  "today_or env asOf = (case asOf of None \<Rightarrow> en_today env | Some d \<Rightarrow> d)"

record monthlyReport =
  mr_summary :: periodSummary
  mr_previous :: periodSummary
  mr_insights :: "insight list"

definition monthlyReportOf ::
    "(int \<Rightarrow> string \<Rightarrow> string) \<Rightarrow> ledgerEnv \<Rightarrow> insightsStores \<Rightarrow> string \<Rightarrow> string option \<Rightarrow> string \<Rightarrow> monthlyReport option" where
  "monthlyReportOf formatMoney env s u asOf currency =
     (let today = today_or env asOf; ts = list_all_of env (im_transactions s) u
      in Option.bind (summarizePeriod ts (monthToDateRange today) currency) (\<lambda>summary.
         Option.bind (comparablePreviousRange today) (\<lambda>period.
         Option.bind (summarizePeriod ts period currency) (\<lambda>previous.
           let insights = compareCategoryTotals formatMoney summary previous ts @
                 (case cashFlowInsight formatMoney summary of None \<Rightarrow> [] | Some i \<Rightarrow> [i])
           in Some \<lparr>mr_summary = summary, mr_previous = previous, mr_insights = rankInsights insights\<rparr>))))"

definition dataQuality ::
    "(string \<Rightarrow> int option) \<Rightarrow> ledgerEnv \<Rightarrow> insightsStores \<Rightarrow> string \<Rightarrow> string option \<Rightarrow> qualityReport" where
  "dataQuality parse_time env s u asOf =
     assessDataQuality parse_time
       \<lparr>qu_accounts = acc_list (im_accounts s) u, qu_transactions = list_all_of env (im_transactions s) u,
        qu_bankLinks = bucket (im_bankLinks s) u,
        qu_checkedAt = (if truthy asOf then the asOf @ ''T23:59:59.999Z'' else en_now env),
        qu_staleAfterHours = None\<rparr>"

record subscriptionsReport =
  sr_subscriptions :: "detectedSubscription list"
  sr_annualTotal :: int
  sr_monthlyTotal :: int
  sr_priceIncreases :: "detectedSubscription list"
  sr_possiblyCancelled :: "detectedSubscription list"

definition in_currency :: "string \<Rightarrow> transaction list \<Rightarrow> transaction list" where
  "in_currency currency ts = filter (\<lambda>t. tx_currency t = currency) ts"

definition subscriptions ::
    "ledgerEnv \<Rightarrow> insightsStores \<Rightarrow> string \<Rightarrow> string option \<Rightarrow> string \<Rightarrow> subscriptionsReport option" where
  "subscriptions env s u asOf currency =
     (let today = today_or env asOf
      in Option.bind (detectSubscriptions (en_localeCompare env)
             (in_currency currency (list_all_of env (im_transactions s) u))) (\<lambda>detected.
           let annualTotal = totalAnnualSubscriptionCost detected
           in map_option (\<lambda>stale.
                \<lparr>sr_subscriptions = detected, sr_annualTotal = annualTotal,
                 sr_monthlyTotal = js_round (fl (of_int annualTotal / 12)),
                 sr_priceIncreases = filter (\<lambda>d. ds_priceIncrease d \<noteq> None) detected,
                 sr_possiblyCancelled = stale\<rparr>)
              (staleSubscriptions detected today)))"

definition healthScoreOf ::
    "ledgerEnv \<Rightarrow> insightsStores \<Rightarrow> string \<Rightarrow> string option \<Rightarrow> string \<Rightarrow> healthScore option" where
  "healthScoreOf env s u asOf currency =
     (let today = today_or env asOf; ts = in_currency currency (list_all_of env (im_transactions s) u);
          accounts = filter (\<lambda>a. ac_currency a = currency) (acc_list (im_accounts s) u)
      in Option.bind (adherenceRatio env (im_budgets s) (im_transactions s) u (Some today) (Some currency)) (\<lambda>adherence.
         Option.bind (addDays today (- 29)) (\<lambda>start.
         map_option (\<lambda>summary. computeHealthScore
             \<lparr>hi_summary = summary, hi_accounts = accounts, hi_transactions = ts, hi_budgetAdherenceRatio = adherence\<rparr>)
           (summarizePeriod ts \<lparr>dr_start = start, dr_end = today\<rparr> currency))))"

definition cashFlowForecastOf ::
    "ledgerEnv \<Rightarrow> insightsStores \<Rightarrow> string \<Rightarrow> num \<Rightarrow> string option \<Rightarrow> string \<Rightarrow> (forecastError + cashFlowForecast) option" where
  "cashFlowForecastOf env s u days asOf currency =
     forecastCashFlow (en_localeCompare env) (acc_list (im_accounts s) u) (list_all_of env (im_transactions s) u)
       (today_or env asOf) days currency"

definition creditCardPlans :: "ledgerEnv \<Rightarrow> insightsStores \<Rightarrow> string \<Rightarrow> string option \<Rightarrow> creditCardPlan list option" where
  "creditCardPlans env s u asOf = buildCreditCardPlans (acc_list (im_accounts s) u) (today_or env asOf)"

definition purchaseScenarioOf ::
    "ledgerEnv \<Rightarrow> insightsStores \<Rightarrow> string \<Rightarrow> num \<Rightarrow> num \<Rightarrow> string \<Rightarrow> string option \<Rightarrow> string \<Rightarrow>
      (purchaseError + purchaseScenario) option" where
  "purchaseScenarioOf env s u days amount purchaseDate asOf currency =
     simulatePurchase (en_localeCompare env) (acc_list (im_accounts s) u) (list_all_of env (im_transactions s) u)
       (today_or env asOf) days amount purchaseDate currency"

record professionalReport =
  po_asOf :: string
  po_report :: monthlyReport
  po_budgets :: "budgetReport list"
  po_subscriptions :: subscriptionsReport
  po_health :: healthScore
  po_forecast :: cashFlowForecast
  po_creditCards :: "creditCardPlan list"

definition professionalMonthlyReport ::
    "(int \<Rightarrow> string \<Rightarrow> string) \<Rightarrow> ledgerEnv \<Rightarrow> insightsStores \<Rightarrow> string \<Rightarrow> string option \<Rightarrow> string \<Rightarrow> professionalReport option" where
  "professionalMonthlyReport formatMoney env s u asOf currency =
     (let today = today_or env asOf
      in Option.bind (monthlyReportOf formatMoney env s u (Some today) currency) (\<lambda>report.
         Option.bind (budgets_progress env (im_budgets s) (im_transactions s) u (Some today) (Some currency)) (\<lambda>budgets.
         Option.bind (subscriptions env s u (Some today) currency) (\<lambda>subs.
         Option.bind (healthScoreOf env s u (Some today) currency) (\<lambda>health.
         Option.bind (creditCardPlans env s u (Some today)) (\<lambda>cards.
         (case cashFlowForecastOf env s u (Num 30) (Some today) currency of
            Some (Inr forecast) \<Rightarrow> Some
              \<lparr>po_asOf = today, po_report = report, po_budgets = budgets, po_subscriptions = subs, po_health = health,
               po_forecast = forecast, po_creditCards = cards\<rparr>
          | _ \<Rightarrow> None)))))))"

section \<open>Analytics with a cache\<close>

datatype analyticsPeriod = PWeek | PMonth | P3m | P6m | PYear | PLifetime | PCustom

fun period_name :: "analyticsPeriod \<Rightarrow> string" where
  "period_name PWeek = ''week''"
| "period_name PMonth = ''month''"
| "period_name P3m = ''3m''"
| "period_name P6m = ''6m''"
| "period_name PYear = ''year''"
| "period_name PLifetime = ''lifetime''"
| "period_name PCustom = ''custom''"

datatype analyticsError = NoCustomRange | UnreadableRange

definition range_back :: "string \<Rightarrow> int \<Rightarrow> analyticsError + dateRange" where
  "range_back today days = (case addDays today (- days) of
     None \<Rightarrow> Inl UnreadableRange | Some d \<Rightarrow> Inr \<lparr>dr_start = d, dr_end = today\<rparr>)"

definition lifetimeRange :: "transaction list \<Rightarrow> string \<Rightarrow> dateRange" where
  "lifetimeRange ts today =
     (let dates = filter (\<lambda>d. d \<le> today) (map tx_postedAt ts)
      in \<lparr>dr_start = (case sort dates of [] \<Rightarrow> today | d # _ \<Rightarrow> d), dr_end = today\<rparr>)"

fun analyticsRange :: "analyticsPeriod \<Rightarrow> transaction list \<Rightarrow> string \<Rightarrow> analyticsError + dateRange" where
  "analyticsRange PWeek ts today = range_back today 6"
| "analyticsRange P3m ts today = range_back today 89"
| "analyticsRange P6m ts today = range_back today 179"
| "analyticsRange PYear ts today = range_back today 364"
| "analyticsRange PMonth ts today = Inr (monthToDateRange today)"
| "analyticsRange PLifetime ts today = Inr (lifetimeRange ts today)"
| "analyticsRange PCustom ts today = Inl NoCustomRange"

record analyticsRequest =
  rq_userId :: string
  rq_period :: analyticsPeriod
  rq_today :: string
  rq_customRange :: "dateRange option"
  rq_currency :: string

definition key_parts :: "analyticsRequest \<Rightarrow> string list" where
  "key_parts r = [rq_userId r, period_name (rq_period r), rq_today r,
     (case rq_customRange r of None \<Rightarrow> [] | Some c \<Rightarrow> dr_start c),
     (case rq_customRange r of None \<Rightarrow> [] | Some c \<Rightarrow> dr_end c), rq_currency r]"

definition analyticsCacheKey :: "analyticsRequest \<Rightarrow> string" where
  "analyticsCacheKey r = join '':'' (key_parts r)"

record cacheEntry =
  ce_report :: analyticsReport
  ce_expiresAt :: int

type_synonym analyticsCache = "(string, cacheEntry) jsmap"

definition analyticsCacheTtlMs :: int where "analyticsCacheTtlMs = 30000"
definition analyticsCacheMaxEntries :: nat where "analyticsCacheMaxEntries = 256"

definition storeAnalyticsCache :: "analyticsCache \<Rightarrow> string \<Rightarrow> analyticsReport \<Rightarrow> int \<Rightarrow> analyticsCache" where
  "storeAnalyticsCache cache key report now =
     (let kept = (if length cache \<ge> analyticsCacheMaxEntries
            then (case cache of [] \<Rightarrow> cache | (oldest, _) # _ \<Rightarrow> if oldest = [] then cache else map_delete oldest cache)
            else cache)
      in map_set key \<lparr>ce_report = report, ce_expiresAt = now + analyticsCacheTtlMs\<rparr> kept)"

text \<open>The report of the rows that were read, and of the rows of a store as it stands: no cache involved.\<close>

definition analytics_of :: "ledgerEnv \<Rightarrow> analyticsRequest \<Rightarrow> transaction list \<Rightarrow> analyticsError + analyticsReport" where
  "analytics_of env r ts =
     (case (case rq_customRange r of Some c \<Rightarrow> Inr c | None \<Rightarrow> analyticsRange (rq_period r) ts (rq_today r)) of
        Inl e \<Rightarrow> Inl e
      | Inr window \<Rightarrow> (case computeAnalytics (en_localeCompare env) ts window (rq_currency r) (rq_today r) of
            None \<Rightarrow> Inl UnreadableRange | Some report \<Rightarrow> Inr report))"

definition plain_analytics :: "ledgerEnv \<Rightarrow> transactionStore \<Rightarrow> analyticsRequest \<Rightarrow> analyticsError + analyticsReport" where
  "plain_analytics env store r = analytics_of env r (list_all_of env store (rq_userId r))"

text \<open>
  A request for the analytics is cut at its \<open>await\<close>. Up to it the entry is looked up, an expired one dropped and
  the rows asked for, which the store in memory reads at the call; the code after it works on those rows with the
  clock of the call, whatever happened meanwhile.
\<close>

definition analytics_begin ::
    "ledgerEnv \<Rightarrow> transactionStore \<Rightarrow> int \<Rightarrow> analyticsRequest \<Rightarrow> analyticsCache \<Rightarrow>
      (analyticsReport + transaction list) \<times> analyticsCache" where
  "analytics_begin env store now r cache =
     (let key = analyticsCacheKey r; fresh = (Inr (list_all_of env store (rq_userId r)), map_delete key cache)
      in case map_of cache key of
           Some cached \<Rightarrow> if ce_expiresAt cached > now then (Inl (ce_report cached), cache) else fresh
         | None \<Rightarrow> fresh)"

definition analytics_finish ::
    "ledgerEnv \<Rightarrow> int \<Rightarrow> analyticsRequest \<Rightarrow> transaction list \<Rightarrow> analyticsCache \<Rightarrow>
      (analyticsError + analyticsReport) \<times> analyticsCache" where
  "analytics_finish env now r ts cache =
     (case analytics_of env r ts of
        Inl e \<Rightarrow> (Inl e, cache)
      | Inr report \<Rightarrow> (Inr report, storeAnalyticsCache cache (analyticsCacheKey r) report now))"

text \<open>A request that nothing interrupts.\<close>

definition analytics ::
    "ledgerEnv \<Rightarrow> transactionStore \<Rightarrow> int \<Rightarrow> analyticsRequest \<Rightarrow> analyticsCache \<Rightarrow> (analyticsError + analyticsReport) \<times> analyticsCache" where
  "analytics env store now r cache =
     (case analytics_begin env store now r cache of
        (Inl report, kept) \<Rightarrow> (Inr report, kept)
      | (Inr ts, kept) \<Rightarrow> analytics_finish env now r ts kept)"

definition invalidating_events :: "financeEventType list" where
  "invalidating_events = [TransactionImported, TransactionUpdated, TransactionCategorized, BankSyncCompleted,
     AccountConnected, AccountUpdated, AccountDisconnected]"

definition invalidateForEvent :: "financeEvent \<Rightarrow> analyticsCache \<Rightarrow> analyticsCache" where
  "invalidateForEvent e cache =
     (if fe_type e \<notin> set invalidating_events then cache
      else filter (\<lambda>(key, _). \<not> startsWith key (fe_userId e @ '':'')) cache)"

end
