(* ===== verification/InsightsCache.thy ===== *)
theory InsightsCache
  imports InsightsService AnalyticsSafety
begin

text \<open>
  The cache of the analytics. Requests are cut at the \<open>await\<close> of the code, a write and its announcement are
  two steps, and all of these interleave in any order. The cache is transparent to a user whose writes are announced
  while no request of that user is in flight: the announcement drops exactly the entries that the write may have
  changed. Without these conditions an answer may be out of date, but it is always a report of rows that were read
  less than thirty seconds ago.
\<close>

section \<open>Keys\<close>

lemma split_char_append: "sep \<notin> set w \<Longrightarrow> split_char sep (w @ sep # s) = w # split_char sep s"
  by (induction w) auto

lemma split_char_single: "sep \<notin> set w \<Longrightarrow> split_char sep w = [w]"
  by (induction w) auto

lemma split_char_join:
  "xs \<noteq> [] \<Longrightarrow> list_all (\<lambda>x. sep \<notin> set x) xs \<Longrightarrow> split_char sep (join [sep] xs) = xs"
  by (induction "[sep]" xs rule: join.induct) (simp_all add: split_char_append split_char_single)

text \<open>Requests as the controller lets them through: no part holds the separator and a custom range has a start.\<close>

definition plain_part :: "string \<Rightarrow> bool" where
  "plain_part s \<longleftrightarrow> CHR '':'' \<notin> set s"

definition well_formed :: "analyticsRequest \<Rightarrow> bool" where
  "well_formed r \<longleftrightarrow> plain_part (rq_userId r) \<and> plain_part (rq_today r) \<and> plain_part (rq_currency r) \<and>
     (case rq_customRange r of None \<Rightarrow> True
      | Some c \<Rightarrow> plain_part (dr_start c) \<and> plain_part (dr_end c) \<and> dr_start c \<noteq> [])"

lemma period_name_plain [simp]: "plain_part (period_name p)"
  by (cases p) (simp_all add: plain_part_def)

lemma period_name_inj [simp]: "period_name p = period_name q \<longleftrightarrow> p = q"
  by (cases p; cases q) simp_all

lemma key_parts_plain: "well_formed r \<Longrightarrow> list_all (\<lambda>x. CHR '':'' \<notin> set x) (key_parts r)"
  using period_name_plain [of "rq_period r"]
  by (auto simp: well_formed_def key_parts_def plain_part_def split: option.splits)

lemma key_parts_inj: "well_formed r \<Longrightarrow> well_formed q \<Longrightarrow> key_parts r = key_parts q \<Longrightarrow> r = q"
  by (cases r; cases q)
    (auto simp: well_formed_def key_parts_def split: option.splits intro: dateRange.equality)

lemma analyticsCacheKey_inj:
  assumes "well_formed r" and "well_formed q" and "analyticsCacheKey r = analyticsCacheKey q"
  shows "r = q"
proof -
  have "key_parts r = split_char CHR '':'' (analyticsCacheKey r)" if "well_formed r" for r
    using split_char_join [OF _ key_parts_plain [OF that]] by (simp add: analyticsCacheKey_def key_parts_def)
  with assms have "key_parts r = key_parts q" by metis
  with assms(1,2) show ?thesis by (rule key_parts_inj)
qed

lemma key_of_user: "startsWith (analyticsCacheKey r) (rq_userId r @ '':'')"
  by (simp add: startsWith_prefix analyticsCacheKey_def key_parts_def)

section \<open>Interleaved requests and writes\<close>

record analyticsState =
  ax_store :: transactionStore
  ax_cache :: analyticsCache
  ax_flight :: "(int \<times> analyticsRequest \<times> transaction list) list"

datatype analyticsStep =
    Begin int analyticsRequest
  | Finish nat
  | Write string "transaction list"
  | Publish financeEvent

fun analytics_step :: "ledgerEnv \<Rightarrow> analyticsState \<Rightarrow> analyticsStep \<Rightarrow> analyticsState" where
  "analytics_step env s (Begin now r) = (case analytics_begin env (ax_store s) now r (ax_cache s) of
     (Inl report, kept) \<Rightarrow> s\<lparr>ax_cache := kept\<rparr>
   | (Inr ts, kept) \<Rightarrow> s\<lparr>ax_cache := kept, ax_flight := ax_flight s @ [(now, r, ts)]\<rparr>)"
| "analytics_step env s (Finish i) = (if i < length (ax_flight s) then
     (case ax_flight s ! i of (now, r, ts) \<Rightarrow>
        s\<lparr>ax_cache := snd (analytics_finish env now r ts (ax_cache s)),
          ax_flight := take i (ax_flight s) @ drop (Suc i) (ax_flight s)\<rparr>)
   else s)"
| "analytics_step env s (Write u rows) = s\<lparr>ax_store := map_set u rows (ax_store s)\<rparr>"
| "analytics_step env s (Publish e) = s\<lparr>ax_cache := invalidateForEvent e (ax_cache s)\<rparr>"

abbreviation analytics_run :: "ledgerEnv \<Rightarrow> analyticsState \<Rightarrow> analyticsStep list \<Rightarrow> analyticsState" where
  "analytics_run env \<equiv> foldl (analytics_step env)"

definition empty_cache :: "transactionStore \<Rightarrow> analyticsState" where
  "empty_cache store = \<lparr>ax_store = store, ax_cache = [], ax_flight = []\<rparr>"

definition well_formed_step :: "analyticsStep \<Rightarrow> bool" where
  "well_formed_step x = (case x of Begin now r \<Rightarrow> well_formed r | _ \<Rightarrow> True)"

text \<open>
  The users whose last write is not announced yet, and the histories in which no request of a user is in flight
  when a write of that user is announced.
\<close>

definition announces :: "financeEvent \<Rightarrow> bool" where
  "announces e \<longleftrightarrow> fe_type e \<in> set invalidating_events"

fun unannounced_step :: "analyticsStep \<Rightarrow> string list \<Rightarrow> string list" where
  "unannounced_step (Write u rows) us = u # us"
| "unannounced_step (Publish e) us = (if announces e then filter (\<lambda>u. u \<noteq> fe_userId e) us else us)"
| "unannounced_step _ us = us"

definition unannounced :: "analyticsStep list \<Rightarrow> string list" where
  "unannounced history = fold unannounced_step history []"

definition in_flight :: "analyticsState \<Rightarrow> string \<Rightarrow> bool" where
  "in_flight s u = list_ex (\<lambda>(now, r, ts). rq_userId r = u) (ax_flight s)"

fun undisturbed :: "ledgerEnv \<Rightarrow> analyticsState \<Rightarrow> analyticsStep list \<Rightarrow> bool" where
  "undisturbed env s [] = True"
| "undisturbed env s (x # xs) =
     ((case x of Publish e \<Rightarrow> \<not> in_flight s (fe_userId e) | _ \<Rightarrow> True) \<and> undisturbed env (analytics_step env s x) xs)"

section \<open>The entries of the cache\<close>

lemma set_map_delete: "set (map_delete k m) \<subseteq> set m"
  by (auto simp: AList.delete_eq)

text \<open>Every operation on the cache either drops entries or adds the one report that a request has computed.\<close>

lemma begin_keeps: "set (snd (analytics_begin env store now r cache)) \<subseteq> set cache"
  unfolding analytics_begin_def Let_def by (auto split: option.splits dest: subsetD [OF set_map_delete])

lemma begin_reads: "fst (analytics_begin env store now r cache) = Inr ts \<Longrightarrow> ts = list_all_of env store (rq_userId r)"
  unfolding analytics_begin_def Let_def by (auto split: option.splits if_splits)

lemma begin_hits:
  "fst (analytics_begin env store now r cache) = Inl report \<Longrightarrow>
   \<exists>e. (analyticsCacheKey r, e) \<in> set cache \<and> ce_report e = report \<and> now < ce_expiresAt e"
  unfolding analytics_begin_def Let_def by (auto split: option.splits if_splits dest: map_of_SomeD)

lemma invalidate_keeps: "set (invalidateForEvent e cache) \<subseteq> set cache"
  by (auto simp: invalidateForEvent_def)

lemma store_entries:
  assumes "x \<in> set (storeAnalyticsCache cache key report now)"
  shows "x \<in> set cache \<or> x = (key, \<lparr>ce_report = report, ce_expiresAt = now + analyticsCacheTtlMs\<rparr>)"
proof -
  define kept where "kept = (if length cache \<ge> analyticsCacheMaxEntries
    then (case cache of [] \<Rightarrow> cache | (oldest, _) # _ \<Rightarrow> if oldest = [] then cache else map_delete oldest cache)
    else cache)"
  have "set kept \<subseteq> set cache"
    unfolding kept_def by (auto split: list.splits if_splits dest: subsetD [OF set_map_delete])
  moreover obtain k e where "x = (k, e)" by (rule prod.exhaust)
  ultimately show ?thesis
    using assms map_set_entry by (fastforce simp: storeAnalyticsCache_def kept_def [symmetric])
qed

lemma finish_entries:
  assumes "x \<in> set (snd (analytics_finish env now r ts cache))"
  shows "x \<in> set cache \<or> (\<exists>report. analytics_of env r ts = Inr report \<and>
    x = (analyticsCacheKey r, \<lparr>ce_report = report, ce_expiresAt = now + analyticsCacheTtlMs\<rparr>))"
  using assms unfolding analytics_finish_def by (auto split: sum.splits dest: store_entries)

lemma plain_analytics_other:
  "rq_userId r \<noteq> u \<Longrightarrow> plain_analytics env (map_set u rows store) r = plain_analytics env store r"
  by (simp add: plain_analytics_def list_all_of_def txn_list_def)

lemma list_all_of_other: "v \<noteq> u \<Longrightarrow> list_all_of env (map_set u rows store) v = list_all_of env store v"
  by (simp add: list_all_of_def txn_list_def)

section \<open>Coherence\<close>

text \<open>What the cache and the requests in flight hold of a user, as long as that user's writes are announced.\<close>

definition entries_agree :: "ledgerEnv \<Rightarrow> string list \<Rightarrow> analyticsState \<Rightarrow> bool" where
  "entries_agree env us s \<longleftrightarrow> (\<forall>r e. well_formed r \<longrightarrow> rq_userId r \<notin> set us \<longrightarrow>
     (analyticsCacheKey r, e) \<in> set (ax_cache s) \<longrightarrow> plain_analytics env (ax_store s) r = Inr (ce_report e))"

definition flights_agree :: "ledgerEnv \<Rightarrow> string list \<Rightarrow> analyticsState \<Rightarrow> bool" where
  "flights_agree env us s \<longleftrightarrow> (\<forall>now r ts. (now, r, ts) \<in> set (ax_flight s) \<longrightarrow> well_formed r \<and>
     (rq_userId r \<notin> set us \<longrightarrow> ts = list_all_of env (ax_store s) (rq_userId r)))"

lemma agree_begin:
  assumes e: "entries_agree env us s" and f: "flights_agree env us s" and r: "well_formed r"
  shows "entries_agree env us (analytics_step env s (Begin now r)) \<and> flights_agree env us (analytics_step env s (Begin now r))"
proof -
  obtain a kept where b: "analytics_begin env (ax_store s) now r (ax_cache s) = (a, kept)" by (rule prod.exhaust)
  then have k: "set kept \<subseteq> set (ax_cache s)" using begin_keeps by (metis snd_conv)
  from e k have e': "entries_agree env us (s\<lparr>ax_cache := kept\<rparr>)" by (simp add: entries_agree_def) blast
  show ?thesis
  proof (cases a)
    case (Inl report)
    with b e' f show ?thesis by (simp add: flights_agree_def)
  next
    case (Inr ts)
    with b have "ts = list_all_of env (ax_store s) (rq_userId r)" using begin_reads by (metis fst_conv)
    with b e' f r Inr show ?thesis by (auto simp: flights_agree_def entries_agree_def)
  qed
qed

lemma agree_finish:
  assumes e: "entries_agree env us s" and f: "flights_agree env us s"
  shows "entries_agree env us (analytics_step env s (Finish i)) \<and> flights_agree env us (analytics_step env s (Finish i))"
proof (cases "i < length (ax_flight s)")
  case True
  obtain now r ts where x: "ax_flight s ! i = (now, r, ts)" by (metis prod_cases3)
  with True have "(now, r, ts) \<in> set (ax_flight s)" by (metis nth_mem)
  with f have r: "well_formed r" and ts: "rq_userId r \<notin> set us \<Longrightarrow> ts = list_all_of env (ax_store s) (rq_userId r)"
    unfolding flights_agree_def by blast+
  have "plain_analytics env (ax_store s) q = Inr (ce_report en)"
    if q: "well_formed q" "rq_userId q \<notin> set us" and
      i: "(analyticsCacheKey q, en) \<in> set (snd (analytics_finish env now r ts (ax_cache s)))" for q en
    using finish_entries [OF i]
  proof
    assume "(analyticsCacheKey q, en) \<in> set (ax_cache s)"
    with e q show ?thesis unfolding entries_agree_def by blast
  next
    assume "\<exists>report. analytics_of env r ts = Inr report \<and> (analyticsCacheKey q, en) =
      (analyticsCacheKey r, \<lparr>ce_report = report, ce_expiresAt = now + analyticsCacheTtlMs\<rparr>)"
    then obtain report where w: "analytics_of env r ts = Inr report" "analyticsCacheKey q = analyticsCacheKey r"
      "en = \<lparr>ce_report = report, ce_expiresAt = now + analyticsCacheTtlMs\<rparr>" by blast
    with analyticsCacheKey_inj [OF q(1) r] q(2) ts show ?thesis by (simp add: plain_analytics_def)
  qed
  moreover have "flights_agree env us (s\<lparr>ax_flight := take i (ax_flight s) @ drop (Suc i) (ax_flight s)\<rparr>)"
    using f by (auto simp: flights_agree_def dest: in_set_takeD in_set_dropD)
  ultimately show ?thesis using True x by (simp add: entries_agree_def flights_agree_def)
qed (use e f in simp)

lemma agree_write:
  assumes e: "entries_agree env us s" and f: "flights_agree env us s"
  shows "entries_agree env (u # us) (analytics_step env s (Write u rows)) \<and>
    flights_agree env (u # us) (analytics_step env s (Write u rows))"
  using e f unfolding entries_agree_def flights_agree_def
  by (simp add: plain_analytics_other list_all_of_other)

lemma agree_announce:
  assumes e: "entries_agree env us s" and f: "flights_agree env us s" and n: "\<not> in_flight s (fe_userId e')"
    and a: "announces e'"
  shows "entries_agree env (filter (\<lambda>u. u \<noteq> fe_userId e') us) (analytics_step env s (Publish e')) \<and>
    flights_agree env (filter (\<lambda>u. u \<noteq> fe_userId e') us) (analytics_step env s (Publish e'))"
proof
  have "plain_analytics env (ax_store s) r = Inr (ce_report en)"
    if "well_formed r" "rq_userId r \<notin> set (filter (\<lambda>u. u \<noteq> fe_userId e') us)"
      "(analyticsCacheKey r, en) \<in> set (invalidateForEvent e' (ax_cache s))" for r en
  proof -
    have i: "(analyticsCacheKey r, en) \<in> set (ax_cache s)" and "\<not> startsWith (analyticsCacheKey r) (fe_userId e' @ '':'')"
      using that(3) a by (auto simp: invalidateForEvent_def announces_def)
    with key_of_user [of r] have "rq_userId r \<noteq> fe_userId e'" by metis
    with that(2) have "rq_userId r \<notin> set us" by simp
    with that(1) i e show ?thesis unfolding entries_agree_def by blast
  qed
  then show "entries_agree env (filter (\<lambda>u. u \<noteq> fe_userId e') us) (analytics_step env s (Publish e'))"
    by (simp add: entries_agree_def)
  have "rq_userId r \<noteq> fe_userId e'" if "(now, r, ts) \<in> set (ax_flight s)" for now r ts
    using that n by (auto simp: in_flight_def list_ex_iff)
  with f show "flights_agree env (filter (\<lambda>u. u \<noteq> fe_userId e') us) (analytics_step env s (Publish e'))"
    unfolding flights_agree_def by simp
qed

lemma agree_other_announce:
  "entries_agree env us s \<Longrightarrow> flights_agree env us s \<Longrightarrow>
   entries_agree env us (analytics_step env s (Publish e)) \<and> flights_agree env us (analytics_step env s (Publish e))"
  using invalidate_keeps [of e "ax_cache s"] unfolding entries_agree_def flights_agree_def by (simp) blast

lemma agree_step:
  assumes "entries_agree env us s" and "flights_agree env us s" and "well_formed_step x"
    and "undisturbed env s (x # xs)"
  shows "entries_agree env (unannounced_step x us) (analytics_step env s x) \<and>
    flights_agree env (unannounced_step x us) (analytics_step env s x)"
proof (cases x)
  case (Begin now r)
  with assms agree_begin show ?thesis by (simp add: well_formed_step_def del: analytics_step.simps)
next
  case (Finish i)
  with assms agree_finish show ?thesis by (simp del: analytics_step.simps)
next
  case (Write u rows)
  with assms agree_write show ?thesis by (simp del: analytics_step.simps)
next
  case (Publish e)
  with assms agree_announce agree_other_announce show ?thesis by (simp del: analytics_step.simps)
qed

lemma agree_run:
  "entries_agree env us s \<Longrightarrow> flights_agree env us s \<Longrightarrow> list_all well_formed_step history \<Longrightarrow>
   undisturbed env s history \<Longrightarrow> entries_agree env (fold unannounced_step history us) (analytics_run env s history)"
proof (induction history arbitrary: us s)
  case (Cons x xs)
  have "entries_agree env (unannounced_step x us) (analytics_step env s x) \<and>
      flights_agree env (unannounced_step x us) (analytics_step env s x)"
    using agree_step [OF Cons.prems(1,2) _ Cons.prems(4)] Cons.prems(3) by simp
  with Cons show ?case by simp
qed simp

lemma analytics_agrees:
  assumes "entries_agree env us s" and "well_formed r" and "rq_userId r \<notin> set us"
  shows "fst (analytics env (ax_store s) now r (ax_cache s)) = plain_analytics env (ax_store s) r"
proof -
  obtain a kept where b: "analytics_begin env (ax_store s) now r (ax_cache s) = (a, kept)" by (rule prod.exhaust)
  show ?thesis
  proof (cases a)
    case (Inl report)
    with b have "fst (analytics_begin env (ax_store s) now r (ax_cache s)) = Inl report" by simp
    from begin_hits [OF this] assms have "plain_analytics env (ax_store s) r = Inr report"
      unfolding entries_agree_def by blast
    with b Inl show ?thesis by (simp add: analytics_def)
  next
    case (Inr ts)
    with b have "ts = list_all_of env (ax_store s) (rq_userId r)" using begin_reads by (metis fst_conv)
    with b Inr show ?thesis
      by (simp add: analytics_def analytics_finish_def plain_analytics_def split: sum.splits)
  qed
qed

text \<open>C30: 
  The cache is transparent while writes are announced in quiet: after any interleaving of requests, cut at their
  \<open>await\<close>, of writes and of announcements, at any times, in which no request of a user is in flight when a change
  of that user is announced, a user with no write left to announce is answered what is computed afresh from the rows.
\<close>

theorem cache_is_transparent:
  assumes "list_all well_formed_step history" and "undisturbed env (empty_cache store0) history" and "well_formed r"
    and "rq_userId r \<notin> set (unannounced history)" and "analytics_run env (empty_cache store0) history = s"
  shows "fst (analytics env (ax_store s) now r (ax_cache s)) = plain_analytics env (ax_store s) r"
proof (rule analytics_agrees)
  show "entries_agree env (unannounced history) s"
    using agree_run [of env "[]" "empty_cache store0" history] assms
    by (simp add: unannounced_def entries_agree_def flights_agree_def empty_cache_def)
qed (use assms in simp_all)

section \<open>Age of the answers\<close>

definition store_at :: "ledgerEnv \<Rightarrow> transactionStore \<Rightarrow> analyticsStep list \<Rightarrow> nat \<Rightarrow> transactionStore" where
  "store_at env store0 history i = ax_store (analytics_run env (empty_cache store0) (take i history))"

text \<open>Every entry and every request in flight stems from a request of the history and from the rows of that moment.\<close>

definition stems_from ::
    "ledgerEnv \<Rightarrow> transactionStore \<Rightarrow> analyticsStep list \<Rightarrow> int \<Rightarrow> analyticsRequest \<Rightarrow> transaction list \<Rightarrow> bool" where
  "stems_from env store0 history now r ts \<longleftrightarrow> (\<exists>i. i < length history \<and> history ! i = Begin now r \<and>
     ts = list_all_of env (store_at env store0 history i) (rq_userId r))"

definition traced :: "ledgerEnv \<Rightarrow> transactionStore \<Rightarrow> analyticsStep list \<Rightarrow> analyticsState \<Rightarrow> bool" where
  "traced env store0 history s \<longleftrightarrow>
     (\<forall>k e. (k, e) \<in> set (ax_cache s) \<longrightarrow> (\<exists>now r ts. k = analyticsCacheKey r \<and> well_formed r \<and>
        stems_from env store0 history now r ts \<and> analytics_of env r ts = Inr (ce_report e) \<and>
        ce_expiresAt e = now + analyticsCacheTtlMs)) \<and>
     (\<forall>now r ts. (now, r, ts) \<in> set (ax_flight s) \<longrightarrow> well_formed r \<and> stems_from env store0 history now r ts)"

lemma stems_later: "stems_from env store0 history now r ts \<Longrightarrow> stems_from env store0 (history @ [x]) now r ts"
  unfolding stems_from_def store_at_def by (metis butlast_snoc length_append_singleton less_SucI nth_append
      take_append take_all append_Nil2 less_or_eq_imp_le take_butlast)

lemma stems_now:
  "stems_from env store0 (history @ [Begin now r]) now r
     (list_all_of env (ax_store (analytics_run env (empty_cache store0) history)) (rq_userId r))"
  unfolding stems_from_def store_at_def by (rule exI [of _ "length history"]) simp

lemma traced_mono:
  assumes "traced env store0 history s" and "set (ax_cache t) \<subseteq> set (ax_cache s)" and "set (ax_flight t) \<subseteq> set (ax_flight s)"
  shows "traced env store0 (history @ [x]) t"
  unfolding traced_def
proof (intro conjI allI impI)
  fix k e assume "(k, e) \<in> set (ax_cache t)"
  with assms(2) have "(k, e) \<in> set (ax_cache s)" by blast
  with assms(1) show "\<exists>now r ts. k = analyticsCacheKey r \<and> well_formed r \<and> stems_from env store0 (history @ [x]) now r ts \<and>
      analytics_of env r ts = Inr (ce_report e) \<and> ce_expiresAt e = now + analyticsCacheTtlMs"
    unfolding traced_def using stems_later by metis
next
  fix now r ts assume "(now, r, ts) \<in> set (ax_flight t)"
  with assms(3) have "(now, r, ts) \<in> set (ax_flight s)" by blast
  with assms(1) have w: "well_formed r" "stems_from env store0 history now r ts" unfolding traced_def by blast+
  then show "well_formed r" by blast
  from w(2) show "stems_from env store0 (history @ [x]) now r ts" by (rule stems_later)
qed

lemma traced_begin:
  assumes t: "traced env store0 history s" and s: "s = analytics_run env (empty_cache store0) history" and r: "well_formed r"
  shows "traced env store0 (history @ [Begin now r]) (analytics_step env s (Begin now r))"
proof -
  obtain a kept where b: "analytics_begin env (ax_store s) now r (ax_cache s) = (a, kept)" by (rule prod.exhaust)
  then have k: "set kept \<subseteq> set (ax_cache s)" using begin_keeps by (metis snd_conv)
  from traced_mono [OF t, of "s\<lparr>ax_cache := kept\<rparr>"] k
  have t': "traced env store0 (history @ [Begin now r]) (s\<lparr>ax_cache := kept\<rparr>)" by simp
  show ?thesis
  proof (cases a)
    case (Inl report)
    with b t' show ?thesis by simp
  next
    case (Inr ts)
    with b have "ts = list_all_of env (ax_store s) (rq_userId r)" using begin_reads by (metis fst_conv)
    then have "stems_from env store0 (history @ [Begin now r]) now r ts" using s stems_now by simp
    with b t' r Inr show ?thesis unfolding traced_def by auto
  qed
qed

lemma traced_finish:
  assumes t: "traced env store0 history s"
  shows "traced env store0 (history @ [Finish i]) (analytics_step env s (Finish i))"
proof (cases "i < length (ax_flight s)")
  case True
  obtain now r ts where x: "ax_flight s ! i = (now, r, ts)" by (metis prod_cases3)
  with True have "(now, r, ts) \<in> set (ax_flight s)" by (metis nth_mem)
  with t have r: "well_formed r" and w: "stems_from env store0 history now r ts" unfolding traced_def by blast+
  let ?rest = "s\<lparr>ax_flight := take i (ax_flight s) @ drop (Suc i) (ax_flight s)\<rparr>"
  have t': "traced env store0 (history @ [Finish i]) ?rest"
    by (rule traced_mono [OF t]) (auto dest: in_set_takeD in_set_dropD)
  have "\<exists>now r ts. k = analyticsCacheKey r \<and> well_formed r \<and> stems_from env store0 (history @ [Finish i]) now r ts \<and>
      analytics_of env r ts = Inr (ce_report e) \<and> ce_expiresAt e = now + analyticsCacheTtlMs"
    if "(k, e) \<in> set (snd (analytics_finish env now r ts (ax_cache s)))" for k e
    using finish_entries [OF that]
  proof
    assume "(k, e) \<in> set (ax_cache s)"
    with t' show ?thesis unfolding traced_def by simp
  next
    assume "\<exists>report. analytics_of env r ts = Inr report \<and> (k, e) =
      (analyticsCacheKey r, \<lparr>ce_report = report, ce_expiresAt = now + analyticsCacheTtlMs\<rparr>)"
    with r stems_later [OF w, of "Finish i"] show ?thesis by (metis cacheEntry.select_convs prod.inject)
  qed
  with True x t' show ?thesis unfolding traced_def by simp
next
  case False
  with traced_mono [OF t, of s] show ?thesis by simp
qed

lemma traced_run:
  "list_all well_formed_step history \<Longrightarrow>
   traced env store0 history (analytics_run env (empty_cache store0) history)"
proof (induction history rule: rev_induct)
  case (snoc x xs)
  let ?s = "analytics_run env (empty_cache store0) xs"
  from snoc have t: "traced env store0 xs ?s" by simp
  have "traced env store0 (xs @ [x]) (analytics_step env ?s x)"
  proof (cases x)
    case (Begin now r)
    with snoc.prems traced_begin [OF t refl] show ?thesis by (simp add: well_formed_step_def del: analytics_step.simps)
  next
    case (Finish i)
    with traced_finish [OF t] show ?thesis by (simp del: analytics_step.simps)
  next
    case (Write u rows)
    with traced_mono [OF t] show ?thesis by simp
  next
    case (Publish e)
    with traced_mono [OF t] invalidate_keeps show ?thesis by simp
  qed
  then show ?case by simp
qed (simp add: traced_def empty_cache_def)

text \<open>C31: 
  An answer is at most thirty seconds behind: whatever requests, writes and announcements interleave, and whether
  writes are announced or not, the analytics answered are those of the rows as they stand, or those of the rows as
  they stood when a request with the same parameters was made, less than 30000 ms before.
\<close>

theorem answers_are_recent:
  assumes "list_all well_formed_step history" and "well_formed r" and "analytics_run env (empty_cache store0) history = s"
  shows "fst (analytics env (ax_store s) now r (ax_cache s)) = plain_analytics env (ax_store s) r \<or>
    (\<exists>i asked. i < length history \<and> history ! i = Begin asked r \<and> now < asked + 30000 \<and>
       fst (analytics env (ax_store s) now r (ax_cache s)) = plain_analytics env (store_at env store0 history i) r)"
proof -
  obtain a kept where b: "analytics_begin env (ax_store s) now r (ax_cache s) = (a, kept)" by (rule prod.exhaust)
  show ?thesis
  proof (cases a)
    case (Inl report)
    with b have "fst (analytics_begin env (ax_store s) now r (ax_cache s)) = Inl report" by simp
    from begin_hits [OF this] obtain e where e: "(analyticsCacheKey r, e) \<in> set (ax_cache s)" "ce_report e = report"
      "now < ce_expiresAt e" by blast
    from traced_run [OF assms(1), of env store0] assms(3) have "traced env store0 history s" by simp
    with e(1) obtain asked q ts where q: "analyticsCacheKey r = analyticsCacheKey q" "well_formed q"
      "stems_from env store0 history asked q ts" "analytics_of env q ts = Inr (ce_report e)"
      "ce_expiresAt e = asked + analyticsCacheTtlMs"
      unfolding traced_def by blast
    from analyticsCacheKey_inj [OF assms(2) q(2) q(1)] have "q = r" by simp
    with q(3) obtain i where "i < length history" "history ! i = Begin asked r"
      "ts = list_all_of env (store_at env store0 history i) (rq_userId r)" unfolding stems_from_def by blast
    moreover from this q(4) \<open>q = r\<close> e(2) b Inl
    have "fst (analytics env (ax_store s) now r (ax_cache s)) = plain_analytics env (store_at env store0 history i) r"
      by (simp add: analytics_def plain_analytics_def)
    ultimately show ?thesis using e(3) q(5) by (auto simp: analyticsCacheTtlMs_def)
  next
    case (Inr ts)
    with b have "ts = list_all_of env (ax_store s) (rq_userId r)" using begin_reads by (metis fst_conv)
    with b Inr show ?thesis
      by (simp add: analytics_def analytics_finish_def plain_analytics_def split: sum.splits)
  qed
qed

section \<open>Answers out of date\<close>

text \<open>
  A write that no event announces, as the undo of an import, is not seen before the entry expires: the report of
  the earlier rows is returned whatever the rows are now.
\<close>

theorem unannounced_change_is_not_seen:
  assumes "map_of cache (analyticsCacheKey r) = None" and "plain_analytics env store r = Inr report"
    and "later < now + analyticsCacheTtlMs"
  shows "fst (analytics env changed later r (snd (analytics env store now r cache))) = Inr report"
  using assms
  by (simp add: analytics_def analytics_begin_def analytics_finish_def plain_analytics_def storeAnalyticsCache_def Let_def)

text \<open>
  Nor is a write that is announced while a request is in flight: the entry stored after the announcement holds the
  rows from before the write.
\<close>

lemma change_in_flight_is_not_seen:
  assumes "plain_analytics env store r = Inr report" and "later < now + analyticsCacheTtlMs"
    and "analytics_run env (empty_cache store) [Begin now r, Write (rq_userId r) rows, Publish e, Finish 0] = s"
  shows "ax_store s = map_set (rq_userId r) rows store \<and> fst (analytics env (ax_store s) later r (ax_cache s)) = Inr report"
  using assms
  by (auto simp: analytics_def analytics_begin_def analytics_finish_def plain_analytics_def storeAnalyticsCache_def
      empty_cache_def invalidateForEvent_def Let_def)

section \<open>Witnesses\<close>

definition desk_env :: ledgerEnv where
  "desk_env = \<lparr>en_localeCompare = code_unit_compare, en_regex = \<lambda>_ _. None, en_today = ''2026-03-03'',
     en_now = ''2026-03-03T09:00:00.000Z'', en_millis = 0, en_uuid = ''x1'', en_listAccounts = \<lambda>_. [],
     en_fetch = \<lambda>_. []\<rparr>"

definition spent_request :: analyticsRequest where
  "spent_request = \<lparr>rq_userId = ''u1'', rq_period = PCustom, rq_today = ''2026-03-03'',
     rq_customRange = Some one_day, rq_currency = ''USD''\<rparr>"

definition spent_event :: financeEvent where
  "spent_event = \<lparr>fe_type = TransactionImported, fe_userId = ''u1'', fe_at = ''2026-03-03T09:00:00.000Z'',
     fe_linkId = None, fe_transactionIds = None, fe_inserted = Some 3, fe_updated = None, fe_removed = None,
     fe_fetched = None\<rparr>"

lemma spent_listed: "list_all_of desk_env [(''u1'', spent_rows)] ''u1'' = spent_rows"
  by code_simp

lemma unspent_listed: "list_all_of desk_env [(''u1'', [])] ''u1'' = []"
  by code_simp

lemma spent_plain: "\<exists>report. plain_analytics desk_env [(''u1'', spent_rows)] spent_request = Inr report \<and> an_grossExpenses report = 1000"
  using spent_report spent_listed by (auto simp: plain_analytics_def analytics_of_def spent_request_def desk_env_def)

lemma spent_well_formed: "well_formed spent_request"
  by (simp add: well_formed_def spent_request_def plain_part_def one_day_def)

lemma spent_announced: "announces spent_event"
  by (simp add: announces_def spent_event_def invalidating_events_def)

definition spent_run :: "analyticsStep list" where
  "spent_run = [Begin 0 spent_request, Finish 0, Write ''u1'' spent_rows, Publish spent_event]"

lemma spent_run_well_formed: "list_all well_formed_step spent_run"
  using spent_well_formed by (simp add: spent_run_def well_formed_step_def)

lemma spent_begin: "analytics_begin desk_env [(''u1'', [])] 0 spent_request [] = (Inr [], [])"
  using unspent_listed by (simp add: analytics_begin_def spent_request_def)

lemma spent_last: "ax_store (analytics_run desk_env (empty_cache [(''u1'', [])]) spent_run) = [(''u1'', spent_rows)]"
  by (simp add: spent_run_def empty_cache_def spent_begin)

lemma spent_quiet: "undisturbed desk_env (empty_cache [(''u1'', [])]) spent_run"
  by (simp add: spent_run_def empty_cache_def spent_begin in_flight_def)

theorem cache_is_transparent_witness:
  "let s = analytics_run desk_env (empty_cache [(''u1'', [])]) spent_run
   in \<exists>report. fst (analytics desk_env (ax_store s) 9 spent_request (ax_cache s)) = Inr report \<and> an_grossExpenses report = 1000"
proof -
  have "rq_userId spent_request \<notin> set (unannounced spent_run)"
    using spent_announced by (simp add: unannounced_def spent_run_def spent_request_def spent_event_def)
  from cache_is_transparent [OF spent_run_well_formed spent_quiet spent_well_formed this refl, of 9] spent_plain spent_last
  show ?thesis by (simp add: Let_def)
qed

text \<open>An answer that is behind: the same request before and after a write that is not announced.\<close>

definition hidden_run :: "analyticsStep list" where
  "hidden_run = [Begin 0 spent_request, Finish 0, Write ''u1'' []]"

theorem answers_are_recent_witness:
  "let s = analytics_run desk_env (empty_cache [(''u1'', spent_rows)]) hidden_run;
       answer = fst (analytics desk_env (ax_store s) 29999 spent_request (ax_cache s))
   in ax_store s = [(''u1'', [])] \<and> (answer = plain_analytics desk_env [(''u1'', [])] spent_request \<or>
        answer = plain_analytics desk_env [(''u1'', spent_rows)] spent_request)"
proof -
  let ?s = "analytics_run desk_env (empty_cache [(''u1'', spent_rows)]) hidden_run"
  have w: "list_all well_formed_step hidden_run"
    using spent_well_formed by (simp add: hidden_run_def well_formed_step_def)
  have b: "analytics_begin desk_env [(''u1'', spent_rows)] 0 spent_request [] = (Inr spent_rows, [])"
    using spent_listed by (simp add: analytics_begin_def spent_request_def)
  have s: "ax_store ?s = [(''u1'', [])]" by (simp add: hidden_run_def empty_cache_def b)
  have "store_at desk_env [(''u1'', spent_rows)] hidden_run i = [(''u1'', spent_rows)]"
    if "i < length hidden_run" "hidden_run ! i = Begin asked spent_request" for i asked
    using that by (auto simp: hidden_run_def store_at_def empty_cache_def less_Suc_eq)
  with answers_are_recent [OF w spent_well_formed refl, of desk_env "[(''u1'', spent_rows)]" 29999] s
  show ?thesis by (auto simp: Let_def)
qed

theorem unannounced_change_is_not_seen_witness:
  "\<exists>report. fst (analytics desk_env [] 29999 spent_request
     (snd (analytics desk_env [(''u1'', spent_rows)] 0 spent_request []))) = Inr report \<and> an_grossExpenses report = 1000"
proof -
  obtain report where r: "plain_analytics desk_env [(''u1'', spent_rows)] spent_request = Inr report"
    "an_grossExpenses report = 1000"
    using spent_plain by blast
  have "fst (analytics desk_env [] 29999 spent_request
     (snd (analytics desk_env [(''u1'', spent_rows)] 0 spent_request []))) = Inr report"
    by (rule unannounced_change_is_not_seen [OF _ r(1)]) (simp_all add: analyticsCacheTtlMs_def)
  with r(2) show ?thesis by blast
qed

end
