(* ===== verification/SavedViews.thy ===== *)
theory SavedViews
  imports LedgerService Descriptors Insights JsFormat
begin

text \<open>
  Saved views: named filters over the transaction list (\<open>domain/transactions/saved-view.ts\<close>), their store
  (\<open>InMemorySavedViewStore\<close>), the service \<open>modules/ledger/saved-views.service.ts\<close> and the report over a view,
  \<open>view-report.service.ts\<close>. Amounts and kinds are what a client sends, a number and a text.
\<close>

section \<open>Filters\<close>

record savedViewFilter =
  vf_search :: "string option"
  vf_categorySlug :: "string option"
  vf_categoryKind :: "string option"
  vf_accountId :: "string option"
  vf_tag :: "string option"
  vf_dateFrom :: "string option"
  vf_dateTo :: "string option"
  vf_amountMin :: "num option"
  vf_amountMax :: "num option"
  vf_pending :: "bool option"
  vf_recurring :: "bool option"

record savedView =
  vw_id :: string
  vw_name :: string
  vw_filter :: savedViewFilter
  vw_createdAt :: string

definition no_filter :: savedViewFilter where
  "no_filter = \<lparr>vf_search = None, vf_categorySlug = None, vf_categoryKind = None, vf_accountId = None, vf_tag = None,
     vf_dateFrom = None, vf_dateTo = None, vf_amountMin = None, vf_amountMax = None, vf_pending = None,
     vf_recurring = None\<rparr>"

definition MAX_VIEW_NAME_LENGTH :: nat where "MAX_VIEW_NAME_LENGTH = 60"

fun kind_name :: "categoryKind \<Rightarrow> string" where
  "kind_name Expense = ''expense''"
| "kind_name Income = ''income''"
| "kind_name Transfer = ''transfer''"
| "kind_name Special = ''special''"

definition CATEGORY_KINDS :: "categoryKind list" where
  "CATEGORY_KINDS = [Expense, Income, Transfer, Special]"

definition kind_of_name :: "string \<Rightarrow> categoryKind option" where
  "kind_of_name s = find (\<lambda>k. kind_name k = s) CATEGORY_KINDS"

definition normalizeViewName :: "string \<Rightarrow> string" where
  "normalizeViewName name = replace_all (Many1 Space) '' '' (trim name)"

definition date_problem :: "string \<Rightarrow> string option \<Rightarrow> string list" where
  "date_problem field v = (case v of None \<Rightarrow> []
     | Some d \<Rightarrow> if is_iso_date d then [] else [field @ '' must be a calendar date (YYYY-MM-DD).''])"

definition amount_problem :: "string \<Rightarrow> num option \<Rightarrow> string list" where
  "amount_problem field v = (case v of None \<Rightarrow> []
     | Some n \<Rightarrow> if \<not> isSafeInteger n \<or> int_of_num n < 0
         then [field @ '' must be a whole, non-negative number of minor units.''] else [])"

fun num_gt :: "num \<Rightarrow> num \<Rightarrow> bool" where
  "num_gt (Num a) (Num b) = (a > b)"
| "num_gt (Infinity pos) (Num b) = pos"
| "num_gt (Num a) (Infinity pos) = (\<not> pos)"
| "num_gt (Infinity a) (Infinity b) = (a \<and> \<not> b)"
| "num_gt _ _ = False"

definition validateFilter :: "savedViewFilter \<Rightarrow> string list" where
  "validateFilter f =
     date_problem ''dateFrom'' (vf_dateFrom f) @ date_problem ''dateTo'' (vf_dateTo f) @
     (if truthy (vf_dateFrom f) \<and> truthy (vf_dateTo f) \<and> the (vf_dateFrom f) > the (vf_dateTo f)
      then [''dateFrom must not be after dateTo.''] else []) @
     amount_problem ''amountMin'' (vf_amountMin f) @ amount_problem ''amountMax'' (vf_amountMax f) @
     (case (vf_amountMin f, vf_amountMax f) of
        (Some a, Some b) \<Rightarrow> if num_gt a b then [''amountMin must not be above amountMax.''] else []
      | _ \<Rightarrow> []) @
     (case vf_categoryKind f of None \<Rightarrow> []
      | Some k \<Rightarrow> if kind_of_name k = None
          then [''categoryKind must be one of: '' @ join '', '' (map kind_name CATEGORY_KINDS) @ ''.''] else [])"

definition validateName :: "string \<Rightarrow> string list" where
  "validateName name = (let normalized = normalizeViewName name
     in (if normalized = [] then [''Give the view a name.''] else []) @
        (if length normalized > MAX_VIEW_NAME_LENGTH
         then [''Use '' @ nat_string MAX_VIEW_NAME_LENGTH @ '' characters or fewer.''] else []))"

definition text_value :: "string option \<Rightarrow> string option" where
  "text_value v = (if truthy v then v else None)"

definition viewRange :: "savedViewFilter \<Rightarrow> dateRange option" where
  "viewRange f = (if truthy (vf_dateFrom f) \<or> truthy (vf_dateTo f)
     then Some \<lparr>dr_start = (case vf_dateFrom f of None \<Rightarrow> ''0001-01-01'' | Some d \<Rightarrow> d),
                dr_end = (case vf_dateTo f of None \<Rightarrow> ''9999-12-31'' | Some d \<Rightarrow> d)\<rparr>
     else None)"

definition toTransactionQuery :: "savedViewFilter \<Rightarrow> nat option \<Rightarrow> transactionQuery" where
  "toTransactionQuery f limit =
     \<lparr>tq_accountId = text_value (vf_accountId f), tq_categorySlug = text_value (vf_categorySlug f),
      tq_categoryKind = Option.bind (vf_categoryKind f) kind_of_name, tq_range = viewRange f,
      tq_search = text_value (vf_search f), tq_pending = vf_pending f, tq_recurring = vf_recurring f,
      tq_amountMin = map_option int_of_num (vf_amountMin f), tq_amountMax = map_option int_of_num (vf_amountMax f),
      tq_tag = text_value (vf_tag f), tq_before = None, tq_limit = limit\<rparr>"

definition blank :: "string option \<Rightarrow> bool" where
  "blank v \<longleftrightarrow> \<not> truthy v"

definition isEmptyFilter :: "savedViewFilter \<Rightarrow> bool" where
  "isEmptyFilter f \<longleftrightarrow> list_all blank [vf_search f, vf_categorySlug f, vf_categoryKind f, vf_accountId f, vf_tag f,
       vf_dateFrom f, vf_dateTo f] \<and>
     vf_amountMin f = None \<and> vf_amountMax f = None \<and> vf_pending f = None \<and> vf_recurring f = None"

section \<open>The store\<close>

type_synonym viewStore = "savedView buckets"

definition view_list :: "(string \<Rightarrow> string \<Rightarrow> int) \<Rightarrow> viewStore \<Rightarrow> string \<Rightarrow> savedView list" where
  "view_list lc s u = js_sort (\<lambda>a b. lc (vw_name a) (vw_name b)) (bucket s u)"

definition view_get :: "viewStore \<Rightarrow> string \<Rightarrow> string \<Rightarrow> savedView option" where
  "view_get s u i = find_row vw_id s u i"

definition name_key :: "string \<Rightarrow> string" where
  "name_key name = toLowerCase (normalizeViewName name)"

text \<open>None is the thrown \<open>DuplicateViewNameError\<close>.\<close>

definition view_create :: "viewStore \<Rightarrow> string \<Rightarrow> savedView \<Rightarrow> viewStore option" where
  "view_create s u v = (let rows = bucket s u
     in if \<exists>r \<in> set rows. name_key (vw_name r) = name_key (vw_name v) then None
        else Some (map_set u (rows @ [v]) s))"

definition view_remove :: "viewStore \<Rightarrow> string \<Rightarrow> string \<Rightarrow> bool \<times> viewStore" where
  "view_remove s u i = drop_row vw_id s u i"

section \<open>The service\<close>

datatype viewError = ViewRejected "string list" | EmptyView | DuplicateViewName string | NoSuchView | UnreadablePeriod

record createSavedViewInput =
  vi_name :: "string option"
  vi_filter :: "savedViewFilter option"

definition views_create :: "ledgerEnv \<Rightarrow> viewStore \<Rightarrow> string \<Rightarrow> createSavedViewInput \<Rightarrow> (viewError + savedView) \<times> viewStore" where
  "views_create env s u input =
     (let f = (case vi_filter input of None \<Rightarrow> no_filter | Some f \<Rightarrow> f);
          name = (case vi_name input of None \<Rightarrow> [] | Some n \<Rightarrow> n);
          problems = validateName name @ validateFilter f
      in if problems \<noteq> [] then (Inl (ViewRejected problems), s)
         else if isEmptyFilter f then (Inl EmptyView, s)
         else let v = \<lparr>vw_id = en_uuid env, vw_name = normalizeViewName name, vw_filter = f, vw_createdAt = en_now env\<rparr>
           in (case view_create s u v of
                 None \<Rightarrow> (Inl (DuplicateViewName (vw_name v)), s)
               | Some s' \<Rightarrow> (Inr v, s')))"

definition views_remove :: "viewStore \<Rightarrow> string \<Rightarrow> string \<Rightarrow> (viewError + unit) \<times> viewStore" where
  "views_remove s u i = (case view_remove s u i of (removed, s') \<Rightarrow> if removed then (Inr (), s') else (Inl NoSuchView, s'))"

definition views_apply ::
    "ledgerEnv \<Rightarrow> viewStore \<Rightarrow> transactionStore \<Rightarrow> string \<Rightarrow> string \<Rightarrow> nat \<Rightarrow> viewError + savedView \<times> transaction list" where
  "views_apply env s ts u i limit = (case view_get s u i of
     None \<Rightarrow> Inl NoSuchView
   | Some v \<Rightarrow> Inr (v, txn_list (en_localeCompare env) ts u (toTransactionQuery (vw_filter v) (Some limit))))"

section \<open>The report over a view\<close>

record chartPoint =
  cp_label :: string
  cp_value :: int
  cp_percent :: rat

record reportRow =
  rr_category :: string
  rr_amount :: string
  rr_percent :: string
  rr_transactions :: nat

record viewReport =
  vr_view :: savedView
  vr_period :: dateRange
  vr_summary :: periodSummary
  vr_byCategory :: "chartPoint list"
  vr_table :: "reportRow list"
  vr_spokenSummary :: string
  vr_transactionCount :: nat

definition toChart :: "periodSummary \<Rightarrow> chartPoint list" where
  "toChart summary = (let total = su_expenses summary
     in map (\<lambda>c. \<lparr>cp_label = ct_categoryName c, cp_value = ct_total c,
          cp_percent = (if total = 0 then 0 else percentOf (of_int (ct_total c)) (of_int total))\<rparr>) (su_topCategories summary))"

definition report_row :: "(int \<Rightarrow> string \<Rightarrow> string) \<Rightarrow> periodSummary \<Rightarrow> string \<Rightarrow> chartPoint \<Rightarrow> reportRow" where
  "report_row formatMoney summary currency p =
     \<lparr>rr_category = cp_label p, rr_amount = formatMoney (cp_value p) currency,
      rr_percent = to_fixed_string 1 (cp_percent p) @ ''%'',
      rr_transactions = (case find (\<lambda>c. ct_categoryName c = cp_label p) (su_topCategories summary) of
          None \<Rightarrow> 0 | Some c \<Rightarrow> ct_transactionCount c)\<rparr>"

definition speak :: "(int \<Rightarrow> string \<Rightarrow> string) \<Rightarrow> savedView \<Rightarrow> periodSummary \<Rightarrow> chartPoint list \<Rightarrow> string \<Rightarrow> string" where
  "speak formatMoney v summary points currency =
     (if su_transactionCount summary = 0 then vw_name v @ '': no transactions matched in this period.''
      else let spent = formatMoney (su_expenses summary) currency; n = nat_string (su_transactionCount summary)
        in (case points of
              [] \<Rightarrow> vw_name v @ '': '' @ n @ '' transactions, '' @ spent @ '' spent.''
            | largest # _ \<Rightarrow> vw_name v @ '': '' @ spent @ '' across '' @ n @ '' transactions. '' @
                ''Largest category '' @ cp_label largest @ '' at '' @ formatMoney (cp_value largest) currency @ '', '' @
                to_fixed_string 0 (cp_percent largest) @ '' percent of the total.''))"

definition report_period :: "ledgerEnv \<Rightarrow> savedViewFilter \<Rightarrow> dateRange" where
  "report_period env f = (case viewRange f of None \<Rightarrow> monthToDateRange (en_today env) | Some r \<Rightarrow> r)"

definition byView ::
    "(int \<Rightarrow> string \<Rightarrow> string) \<Rightarrow> ledgerEnv \<Rightarrow> viewStore \<Rightarrow> transactionStore \<Rightarrow> string \<Rightarrow> string \<Rightarrow> string \<Rightarrow> viewError + viewReport" where
  "byView formatMoney env s store u i currency = (case view_get s u i of
     None \<Rightarrow> Inl NoSuchView
   | Some v \<Rightarrow>
       (let ts = txn_list (en_localeCompare env) store u (toTransactionQuery (vw_filter v) None);
            period = report_period env (vw_filter v)
        in case summarizePeriod ts period currency of
             None \<Rightarrow> Inl UnreadablePeriod
           | Some summary \<Rightarrow> (let points = toChart summary in Inr
               \<lparr>vr_view = v, vr_period = period, vr_summary = summary, vr_byCategory = points,
                vr_table = map (report_row formatMoney summary currency) points,
                vr_spokenSummary = speak formatMoney v summary points currency,
                vr_transactionCount = length ts\<rparr>)))"

definition categoryBreakdown :: "transaction list \<Rightarrow> (string, int) jsmap" where
  "categoryBreakdown ts = foldl (\<lambda>totals t. let outflow = max 0 (- tx_amount t)
     in if outflow = 0 then totals
        else let name = displayName (tx_categorySlug t) in map_set name (get_or totals name 0 + outflow) totals) [] ts"

end
