(* ===== verification/SavedViewSafety.thy ===== *)
theory SavedViewSafety
  imports SavedViews AnalyticsSafety
begin

text \<open>
  What saved views guarantee: the store holds valid views with different names only, applying a view lists
  the rows that its fields describe, and what the report over a view with an open end makes of its average.
\<close>

section \<open>Valid views only\<close>

datatype viewRequest = CreateView string createSavedViewInput | RemoveView string string

fun view_step :: "viewStore \<Rightarrow> ledgerEnv \<times> viewRequest \<Rightarrow> viewStore" where
  "view_step s (env, CreateView u input) = snd (views_create env s u input)"
| "view_step s (env, RemoveView u i) = snd (views_remove s u i)"

definition valid_view :: "savedView \<Rightarrow> bool" where
  "valid_view v \<longleftrightarrow> validateFilter (vw_filter v) = [] \<and> \<not> isEmptyFilter (vw_filter v) \<and> vw_name v \<noteq> [] \<and>
     length (vw_name v) \<le> MAX_VIEW_NAME_LENGTH"

definition views_ok :: "savedView list \<Rightarrow> bool" where
  "views_ok rows \<longleftrightarrow> distinct (map (name_key \<circ> vw_name) rows) \<and> list_all valid_view rows"

lemma views_ok_create:
  assumes "\<forall>u. views_ok (bucket s u)"
  shows "views_ok (bucket (snd (views_create env s w input)) u)"
proof -
  have "valid_view \<lparr>vw_id = i, vw_name = normalizeViewName n, vw_filter = f, vw_createdAt = t\<rparr>"
    if "validateName n @ validateFilter f = []" "\<not> isEmptyFilter f" for i n f t
    using that by (auto simp: valid_view_def validateName_def Let_def split: if_splits)
  then show ?thesis
    using assms unfolding views_create_def Let_def
    by (auto simp: views_ok_def view_create_def Let_def split: option.splits if_splits)
qed

lemma views_ok_remove: "views_ok rows \<Longrightarrow> views_ok (remove_first p rows)"
  using set_remove_first [of p rows] distinct_remove_first [of "name_key \<circ> vw_name" rows p]
  by (auto simp: views_ok_def list_all_iff)

lemma views_ok_step:
  assumes "\<forall>u. views_ok (bucket s u)"
  shows "\<forall>u. views_ok (bucket (view_step s r) u)"
proof -
  obtain env q where r: "r = (env, q)" by force
  show ?thesis
  proof (cases q)
    case (CreateView w input)
    then show ?thesis using views_ok_create [OF assms] by (simp add: r)
  next
    case (RemoveView w i)
    then show ?thesis
      using assms views_ok_remove
      by (auto simp: r views_remove_def view_remove_def drop_row_def Let_def split: if_splits)
  qed
qed

text \<open>C32: After any requests of any users the views of a user have different names, letter case and spacing ignored,
  and each is one that the validation accepts.\<close>

theorem stored_views_are_valid: "views_ok (bucket (foldl view_step [] requests) u)"
proof -
  have "\<forall>u. views_ok (bucket (foldl view_step s requests) u)" if "\<forall>u. views_ok (bucket s u)" for s
    using that by (induction requests arbitrary: s) (auto dest: views_ok_step)
  then show ?thesis by (simp add: views_ok_def)
qed

section \<open>Applying a view\<close>

text \<open>The rows a filter describes, field by field; an absent field does not constrain.\<close>

definition described :: "savedViewFilter \<Rightarrow> transaction \<Rightarrow> bool" where
  "described f t \<longleftrightarrow>
     if_text (vf_accountId f) (\<lambda>a. tx_accountId t = a) \<and> if_text (vf_categorySlug f) (\<lambda>c. tx_categorySlug t = c) \<and>
     if_given (vf_categoryKind f) (\<lambda>k. map_option (kind_name \<circ> cd_kind) (getCategory (tx_categorySlug t)) = Some k) \<and>
     if_given (vf_dateFrom f) (\<lambda>d. d \<le> tx_postedAt t) \<and> if_given (vf_dateTo f) (\<lambda>d. tx_postedAt t \<le> d) \<and>
     if_given (vf_amountMin f) (\<lambda>n. \<not> num_gt n (Num (of_int \<bar>tx_amount t\<bar>))) \<and>
     if_given (vf_amountMax f) (\<lambda>n. \<not> num_gt (Num (of_int \<bar>tx_amount t\<bar>)) n) \<and>
     if_given (vf_pending f) (\<lambda>b. tx_pending t = b) \<and> if_given (vf_recurring f) (\<lambda>b. tx_isRecurring t = b) \<and>
     if_text (vf_search f) (\<lambda>s. list_ex (\<lambda>field. has_text (toLowerCase s) field)
       [Some (tx_rawDescriptor t), tx_merchant t, tx_merchantOverride t, tx_note t] \<or>
       contains (tx_normalizedDescriptor t) (toLowerCase s)) \<and>
     if_text (vf_tag f) (\<lambda>tag. toLowerCase (trim tag) \<in> set (case tx_tags t of None \<Rightarrow> [] | Some ts \<Rightarrow> ts))"

lemma kind_name_inj [simp]: "kind_name k = kind_name l \<longleftrightarrow> k = l"
  by (cases k; cases l) simp_all

lemma kind_of_kind_name: "kind_of_name s = Some k \<longleftrightarrow> kind_name k = s"
  by (cases k) (auto simp: kind_of_name_def CATEGORY_KINDS_def split: if_splits)

lemma valid_kind: "validateFilter f = [] \<Longrightarrow> vf_categoryKind f = Some s \<Longrightarrow> \<exists>k. s = kind_name k \<and> kind_of_name s = Some k"
  by (auto simp: validateFilter_def kind_of_kind_name split: if_splits)

lemma valid_amount: "amount_problem field v = [] \<Longrightarrow> v = Some n \<Longrightarrow> n = Num (of_int (int_of_num n))"
  by (auto simp: amount_problem_def isSafeInteger_def int_of_num_integer split: if_splits)

lemma amount_bounds:
  assumes "amount_problem field v = []"
  shows "if_given (map_option int_of_num v) (\<lambda>a. a \<le> k) = if_given v (\<lambda>n. \<not> num_gt n (Num (of_int k)))"
    and "if_given (map_option int_of_num v) (\<lambda>a. k \<le> a) = if_given v (\<lambda>n. \<not> num_gt (Num (of_int k)) n)"
  using valid_amount [OF assms] by (cases v; auto simp: if_given_def not_less; metis num_gt.simps(1) not_less of_int_le_iff)+

lemma iso_date_nonempty: "is_iso_date d \<Longrightarrow> d \<noteq> []"
  by (auto simp: is_iso_date_def)

lemma valid_dates: "validateFilter f = [] \<Longrightarrow> vf_dateFrom f \<noteq> Some [] \<and> vf_dateTo f \<noteq> Some []"
  by (auto simp: validateFilter_def date_problem_def iso_date_nonempty split: option.splits if_splits)

lemma if_text_value: "if_text (text_value v) p = if_text v p"
  by (simp add: if_text_def text_value_def)

lemma matches_described:
  assumes v: "validateFilter f = []" and d: "''0001-01-01'' \<le> tx_postedAt t" "tx_postedAt t \<le> ''9999-12-31''"
  shows "matches (toTransactionQuery f limit) t = described f t"
proof -
  have kind: "if_given (Option.bind (vf_categoryKind f) kind_of_name) (\<lambda>k. map_option cd_kind c = Some k) =
      if_given (vf_categoryKind f) (\<lambda>k. map_option (kind_name \<circ> cd_kind) c = Some k)" for c
    using valid_kind [OF v] by (cases "vf_categoryKind f"; cases c) (auto simp: if_given_def)
  have a: "amount_problem ''amountMin'' (vf_amountMin f) = []" "amount_problem ''amountMax'' (vf_amountMax f) = []"
    using v by (simp_all add: validateFilter_def)
  have mn: "if_given (map_option int_of_num (vf_amountMin f)) (\<lambda>a. a \<le> \<bar>tx_amount t\<bar>) =
      if_given (vf_amountMin f) (\<lambda>n. \<not> num_gt n (Num (of_int \<bar>tx_amount t\<bar>)))"
    and mx: "if_given (map_option int_of_num (vf_amountMax f)) (\<lambda>a. \<bar>tx_amount t\<bar> \<le> a) =
      if_given (vf_amountMax f) (\<lambda>n. \<not> num_gt (Num (of_int \<bar>tx_amount t\<bar>)) n)"
    by (rule amount_bounds(1) [OF a(1)], rule amount_bounds(2) [OF a(2)])
  have dates: "if_given (viewRange f) (\<lambda>r. isWithin (tx_postedAt t) r) =
      (if_given (vf_dateFrom f) (\<lambda>d. d \<le> tx_postedAt t) \<and> if_given (vf_dateTo f) (\<lambda>d. tx_postedAt t \<le> d))"
    using valid_dates [OF v] d
    by (cases "vf_dateFrom f"; cases "vf_dateTo f") (auto simp: if_given_def viewRange_def isWithin_def)
  have search: "(contains (tx_normalizedDescriptor t) n \<or> contains (toLowerCase (tx_rawDescriptor t)) n \<or>
      has_text n (tx_merchant t) \<or> has_text n (tx_merchantOverride t) \<or> has_text n (tx_note t)) =
      (list_ex (has_text n) [Some (tx_rawDescriptor t), tx_merchant t, tx_merchantOverride t, tx_note t] \<or>
       contains (tx_normalizedDescriptor t) n)" for n
    by (simp add: has_text_def [of n "Some _"]) blast
  have tag: "(case ts of None \<Rightarrow> False | Some xs \<Rightarrow> w \<in> set xs) = (w \<in> set (case ts of None \<Rightarrow> [] | Some xs \<Rightarrow> xs))" for w ts
    by (cases ts) simp_all
  show ?thesis
    unfolding matches_def described_def toTransactionQuery_def Let_def transactionQuery.simps
      kind mn mx dates if_text_value search tag
    by (simp only: conj_ac)
qed

text \<open>C33: 
  A stored view lists exactly the rows its fields describe, the newest first, up to the limit. A date bound on one side
  leaves the other side open.
\<close>

theorem view_lists_what_it_describes:
  assumes "view_get s u i = Some v" and "validateFilter (vw_filter v) = []" and "0 < limit"
    and "list_all (\<lambda>t. ''0001-01-01'' \<le> tx_postedAt t \<and> tx_postedAt t \<le> ''9999-12-31'') (bucket ts u)"
  shows "views_apply env s ts u i limit = Inr (v,
    take limit (js_sort (newest_first (en_localeCompare env)) (filter (described (vw_filter v)) (bucket ts u))))"
proof -
  have "filter (\<lambda>t. matches (toTransactionQuery (vw_filter v) (Some limit)) t \<and> before_cursor None t) (bucket ts u) =
      filter (described (vw_filter v)) (bucket ts u)"
    using assms(4) matches_described [OF assms(2)]
    by (auto simp: before_cursor_def if_given_def list_all_iff intro: filter_cong)
  then show ?thesis using assms(1,3) by (simp add: views_apply_def txn_list_def toTransactionQuery_def)
qed

section \<open>The report of an open end\<close>

lemma far_end: "toUtcDate ''9999-12-31'' = Some 2932896"
  by code_simp

lemma average_of_summary:
  "summarizePeriod ts p currency = Some s \<Longrightarrow> daysBetweenInclusive (dr_start p) (dr_end p) = Some days \<Longrightarrow> 0 < days \<Longrightarrow>
   su_averageDailySpend s = js_round (fl (of_int (su_expenses s) / of_int days))"
  by (auto simp: summarizePeriod_def Let_def)

lemma expenses_of_summary: "summarizePeriod ts p currency = Some s \<Longrightarrow> 0 \<le> su_expenses s"
proof -
  have "0 \<le> st_expenses (foldl summary_step t rows)" if "0 \<le> st_expenses t" for t rows
    using that by (induction rows arbitrary: t) (auto simp: summary_step_def Let_def)
  from this [of no_totals] show "summarizePeriod ts p currency = Some s \<Longrightarrow> ?thesis"
    by (auto simp: summarizePeriod_def Let_def no_totals_def)
qed

text \<open>
  The report over a view that has a first day and no last day divides what was spent by the days up to the year 9999:
  for anything below fourteen thousand units of a currency with cents the average daily spend is zero.
\<close>

theorem open_view_has_no_daily_spend:
  assumes "view_get s u i = Some v" and "vf_dateFrom (vw_filter v) = Some d" and "vf_dateTo (vw_filter v) = None"
    and "toUtcDate d = Some a" and "a \<le> 47482"
    and "byView formatMoney env s ts u i currency = Inr r" and "su_expenses (vr_summary r) < 1400000"
  shows "su_averageDailySpend (vr_summary r) = 0"
proof -
  have d: "truthy (Some d)" using assms(4) by (cases d) (simp_all add: toUtcDate_def is_iso_date_def)
  obtain rows where s: "summarizePeriod rows \<lparr>dr_start = d, dr_end = ''9999-12-31''\<rparr> currency = Some (vr_summary r)"
    using assms(1,2,3,6) d by (auto simp: byView_def report_period_def viewRange_def Let_def split: option.splits)
  from s assms(4) have avg: "su_averageDailySpend (vr_summary r) = js_round (fl (of_int (su_expenses (vr_summary r)) /
      of_int (2932896 - a + 1)))" and e: "0 \<le> su_expenses (vr_summary r)"
    using average_of_summary [OF s] expenses_of_summary [OF s] assms(5) by (simp_all add: daysBetweenInclusive_def far_end)
  let ?x = "rat_of_int (su_expenses (vr_summary r)) / of_int (2932896 - a + 1)"
  have "?x \<le> 1400000 / 2885415"
    using e assms(5,7) by (intro frac_le) simp_all
  then have "?x \<le> 49 / 100" by simp
  moreover have "0 \<le> ?x" using e assms(5) by simp
  ultimately have "js_round (fl 0) \<le> js_round (fl ?x)" "js_round (fl ?x) \<le> js_round (fl (49 / 100))"
    by (intro js_round_mono fl_mono; simp)+
  moreover have "js_round (fl 0) = 0" "js_round (fl (49 / 100)) = 0" by code_simp+
  ultimately show ?thesis using avg by simp
qed

text \<open>The validation looks at the shape of a date only: a view with a date that no calendar has is stored, and its report fails.\<close>

definition view_env :: ledgerEnv where
  "view_env = \<lparr>en_localeCompare = code_unit_compare, en_regex = \<lambda>_ _. None, en_today = ''2026-03-10'',
     en_now = ''2026-03-10T09:00:00.000Z'', en_millis = 0, en_uuid = ''v1'', en_listAccounts = \<lambda>_. [],
     en_fetch = \<lambda>_. []\<rparr>"

definition dated_view :: "string \<Rightarrow> viewStore" where
  "dated_view d = snd (views_create view_env [] ''u1''
     \<lparr>vi_name = Some ''Since then'', vi_filter = Some (no_filter\<lparr>vf_dateFrom := Some d\<rparr>)\<rparr>)"

lemma impossible_view_date: "byView (\<lambda>_ _. []) view_env (dated_view ''2026-19-99'') [] ''u1'' ''v1'' ''USD'' = Inl UnreadablePeriod"
  by code_simp

section \<open>Witnesses\<close>

lemma march_view:
  "view_get (dated_view ''2026-03-01'') ''u1'' ''v1'' = Some \<lparr>vw_id = ''v1'', vw_name = ''Since then'',
     vw_filter = no_filter\<lparr>vf_dateFrom := Some ''2026-03-01''\<rparr>, vw_createdAt = ''2026-03-10T09:00:00.000Z''\<rparr>"
  "validateFilter (no_filter\<lparr>vf_dateFrom := Some ''2026-03-01''\<rparr>) = []"
  by code_simp+

theorem view_lists_what_it_describes_witness:
  "\<exists>v. views_apply view_env (dated_view ''2026-03-01'') [(''u1'', spent_rows)] ''u1'' ''v1'' 2 = Inr (v,
     take 2 (js_sort (newest_first code_unit_compare) (filter (described (vw_filter v)) spent_rows)))"
proof -
  have "list_all (\<lambda>t. ''0001-01-01'' \<le> tx_postedAt t \<and> tx_postedAt t \<le> ''9999-12-31'') (bucket [(''u1'', spent_rows)] ''u1'')"
    by code_simp
  with view_lists_what_it_describes [OF march_view(1), of 2 "[(''u1'', spent_rows)]" view_env] march_view(2)
  show ?thesis by (simp add: bucket_def get_or_def view_env_def)
qed

theorem open_view_has_no_daily_spend_witness:
  "\<exists>r. byView (\<lambda>_ _. []) view_env (dated_view ''2026-03-01'') [(''u1'', spent_rows)] ''u1'' ''v1'' ''USD'' = Inr r \<and>
     su_expenses (vr_summary r) = 1000 \<and> su_averageDailySpend (vr_summary r) = 0"
proof -
  let ?report = "byView (\<lambda>_ _. []) view_env (dated_view ''2026-03-01'') [(''u1'', spent_rows)] ''u1'' ''v1'' ''USD''"
  have "(case ?report of Inl e \<Rightarrow> None | Inr r \<Rightarrow> Some (su_expenses (vr_summary r))) = Some 1000" by code_simp
  then obtain r where r: "?report = Inr r" "su_expenses (vr_summary r) = 1000" by (auto split: sum.splits)
  moreover have "toUtcDate ''2026-03-01'' = Some 20513" by code_simp
  ultimately show ?thesis
    using open_view_has_no_daily_spend [OF march_view(1) _ _ _ _ r(1)] by (simp add: no_filter_def)
qed

end
