(* ===== verification/FinancialAlerts.thy ===== *)
theory FinancialAlerts
  imports Subscriptions Money Descriptors
begin

text \<open>
  Alerts derived from the ledger, \<open>domain/notifications/financial-alerts.ts\<close>: price increases and coming charges of
  recurring series, possible duplicates, outliers of a category. The formatter of amounts is the parameter \<open>fm\<close>; None
  is the error thrown for a date that cannot be read.
\<close>

record alertDraft =
  al_kind :: notificationKind
  al_title :: string
  al_message :: string
  al_severity :: severity
  al_dedupeKey :: string

definition BILL_LOOKAHEAD_DAYS :: int where "BILL_LOOKAHEAD_DAYS = 7"
definition RECENT_UNUSUAL_DAYS :: int where "RECENT_UNUSUAL_DAYS = 14"
definition BASELINE_DAYS :: int where "BASELINE_DAYS = 180"
definition MIN_BASELINE_TRANSACTIONS :: nat where "MIN_BASELINE_TRANSACTIONS = 6"
definition OUTLIER_MULTIPLIER :: int where "OUTLIER_MULTIPLIER = 3"
definition MIN_OUTLIER_MAJOR_UNITS :: rat where "MIN_OUTLIER_MAJOR_UNITS = 100"
definition DUPLICATE_WINDOW_DAYS :: int where "DUPLICATE_WINDOW_DAYS = 2"

section \<open>Recurring series\<close>

definition price_alert :: "(int \<Rightarrow> string \<Rightarrow> string) \<Rightarrow> detectedSubscription \<Rightarrow> alertDraft list" where
  "price_alert fm s = (case ds_priceIncrease s of
     None \<Rightarrow> []
   | Some i \<Rightarrow> [\<lparr>al_kind = NSubscription, al_title = ''Subscription price increase'',
       al_message = ds_merchant s @ '' increased from '' @ fm (pi_from i) (ds_currency s) @ '' to '' @
         fm (pi_to i) (ds_currency s) @ '' ('' @ int_string (js_round (pi_percent i)) @ ''% higher).'',
       al_severity = Warning,
       al_dedupeKey = ''subscription-price:'' @ ds_normalizedDescriptor s @ '':'' @ int_string (pi_from i) @ '':'' @
         int_string (pi_to i)\<rparr>])"

definition when_text :: "int \<Rightarrow> string" where
  "when_text daysUntil = (if daysUntil = 0 then ''today'' else if daysUntil = 1 then ''tomorrow''
     else ''in '' @ int_string daysUntil @ '' days'')"

definition bill_alert :: "(int \<Rightarrow> string \<Rightarrow> string) \<Rightarrow> string \<Rightarrow> detectedSubscription \<Rightarrow> alertDraft list option" where
  "bill_alert fm today s =
     (if ds_nextExpected s < today then Some []
      else Option.bind (addDays today BILL_LOOKAHEAD_DAYS) (\<lambda>horizon.
        if ds_nextExpected s > horizon then Some []
        else map_option (\<lambda>days. [\<lparr>al_kind = NBill, al_title = ''Upcoming recurring charge'',
            al_message = ds_merchant s @ '' is expected '' @ when_text (days - 1) @ '' for about '' @
              fm (ds_typicalAmount s) (ds_currency s) @ ''. Check the date and amount before it posts.'',
            al_severity = Info,
            al_dedupeKey = ''bill:'' @ (case rev (ds_transactionIds s) of [] \<Rightarrow> ''undefined'' | i # _ \<Rightarrow> i) @ '':'' @
              ds_nextExpected s\<rparr>])
          (daysBetweenInclusive today (ds_nextExpected s))))"

definition deriveSubscriptionAlerts ::
    "(string \<Rightarrow> string \<Rightarrow> int) \<Rightarrow> (int \<Rightarrow> string \<Rightarrow> string) \<Rightarrow> transaction list \<Rightarrow> string \<Rightarrow> alertDraft list option" where
  "deriveSubscriptionAlerts lc fm ts today =
     Option.bind (detectSubscriptions lc ts) (\<lambda>found.
       map_option concat (those (map (\<lambda>s. map_option ((@) (price_alert fm s)) (bill_alert fm today s)) found)))"

section \<open>Unusual transactions\<close>

definition similarDescriptor :: "string \<Rightarrow> string \<Rightarrow> bool" where
  "similarDescriptor left right =
     (let l = set_of (descriptorTokens left); r = set_of (descriptorTokens right)
      in if length l < 2 \<or> length r < 2 then False
         else fl (of_nat (length (filter (\<lambda>token. token \<in> set r) l)) / of_nat (length (set_of (l @ r)))) \<ge> 3 / 4)"

definition reviewable :: "string \<Rightarrow> string \<Rightarrow> transaction \<Rightarrow> bool" where
  "reviewable historyStart today t \<longleftrightarrow> \<not> tx_pending t \<and> tx_excludedFromAnalytics t \<noteq> Some True \<and> tx_amount t < 0 \<and>
     historyStart \<le> tx_postedAt t \<and> tx_postedAt t \<le> today \<and> isSpendingCategory (tx_categorySlug t)"

definition oldest_first :: "(string \<Rightarrow> string \<Rightarrow> int) \<Rightarrow> transaction \<Rightarrow> transaction \<Rightarrow> int" where
  "oldest_first lc = cmp_or (\<lambda>a b. lc (tx_postedAt a) (tx_postedAt b)) (\<lambda>a b. lc (tx_id a) (tx_id b))"

definition exactKey :: "transaction \<Rightarrow> string option" where
  "exactKey t = (if trim (tx_normalizedDescriptor t) = [] then None
     else Some (join ''|'' [tx_normalizedDescriptor t, tx_currency t, int_string \<bar>tx_amount t\<bar>]))"

definition categoryKey :: "transaction \<Rightarrow> string" where
  "categoryKey t = tx_categorySlug t @ ''|'' @ tx_currency t"

text \<open>The variables of the loop.\<close>

record reviewState =
  re_latestExact :: "(string, transaction) jsmap"
  re_prior :: "transaction list"
  re_category :: "(string, transaction list) jsmap"
  re_alerts :: "alertDraft list"

definition shown_merchant :: "transaction \<Rightarrow> string \<Rightarrow> string" where
  "shown_merchant t other = (case tx_merchant t of None \<Rightarrow> other | Some m \<Rightarrow> m)"

definition apart_text :: "int \<Rightarrow> string" where
  "apart_text separation = (if separation = 0 then ''the same day''
     else int_string separation @ '' day'' @ (if separation = 1 then '''' else ''s''))"

definition duplicate_alert :: "string \<Rightarrow> transaction \<Rightarrow> transaction \<Rightarrow> alertDraft" where
  "duplicate_alert message prior t = \<lparr>al_kind = NUnusualTransaction, al_title = ''Possible duplicate charge'',
     al_message = message, al_severity = Warning,
     al_dedupeKey = ''possible-duplicate:'' @ tx_id prior @ '':'' @ tx_id t\<rparr>"

definition exact_duplicate :: "(int \<Rightarrow> string \<Rightarrow> string) \<Rightarrow> reviewState \<Rightarrow> transaction \<Rightarrow> alertDraft option option" where
  "exact_duplicate fm s t = (case Option.bind (exactKey t) (map_of (re_latestExact s)) of
     None \<Rightarrow> Some None
   | Some prior \<Rightarrow> map_option (\<lambda>days.
       if days - 1 \<le> DUPLICATE_WINDOW_DAYS then Some (duplicate_alert
         (''Two '' @ shown_merchant t (tx_normalizedDescriptor t) @ '' charges for '' @ fm \<bar>tx_amount t\<bar> (tx_currency t) @
          '' posted within '' @ apart_text (days - 1) @ ''. Review both transactions before disputing either charge.'') prior t)
       else None) (daysBetweenInclusive (tx_postedAt prior) (tx_postedAt t)))"

definition near_duplicate_of :: "transaction \<Rightarrow> transaction \<Rightarrow> bool option" where
  "near_duplicate_of t prior =
     (if tx_currency prior \<noteq> tx_currency t \<or> tx_categorySlug prior \<noteq> tx_categorySlug t then Some False
      else map_option (\<lambda>days.
        if days - 1 > DUPLICATE_WINDOW_DAYS then False
        else let amountDifference = \<bar>\<bar>tx_amount prior\<bar> - \<bar>tx_amount t\<bar>\<bar>;
                 amountTolerance = max 100 (js_round (fl (of_int \<bar>tx_amount t\<bar> * fl (1 / 100))))
          in amountDifference \<le> amountTolerance \<and>
             similarDescriptor (tx_normalizedDescriptor prior) (tx_normalizedDescriptor t))
        (daysBetweenInclusive (tx_postedAt prior) (tx_postedAt t)))"

text \<open>\<open>find\<close> with a test that may throw.\<close>

fun find_opt :: "('a \<Rightarrow> bool option) \<Rightarrow> 'a list \<Rightarrow> 'a option option" where
  "find_opt p [] = Some None"
| "find_opt p (x # xs) = (case p x of None \<Rightarrow> None | Some b \<Rightarrow> if b then Some (Some x) else find_opt p xs)"

definition near_duplicate :: "reviewState \<Rightarrow> transaction \<Rightarrow> alertDraft option option" where
  "near_duplicate s t = Option.bind (find_opt (near_duplicate_of t) (rev (re_prior s))) (\<lambda>match. case match of
     None \<Rightarrow> Some None
   | Some prior \<Rightarrow> map_option (\<lambda>days. Some (duplicate_alert
       (''Two '' @ shown_merchant t (tx_normalizedDescriptor t) @ '' charges have similar merchant details and amounts within '' @
        apart_text (days - 1) @ ''. Review both transactions before disputing either charge.'') prior t))
       (daysBetweenInclusive (tx_postedAt prior) (tx_postedAt t)))"

definition outlier :: "(int \<Rightarrow> string \<Rightarrow> string) \<Rightarrow> transaction list \<Rightarrow> transaction \<Rightarrow> alertDraft option" where
  "outlier fm baseline t =
     (if length baseline < MIN_BASELINE_TRANSACTIONS then None
      else let medianAmount = median (map (\<lambda>row. \<bar>tx_amount row\<bar>) baseline); candidateAmount = \<bar>tx_amount t\<bar>
        in if medianAmount > 0 \<and> candidateAmount \<ge> medianAmount * OUTLIER_MULTIPLIER \<and>
              candidateAmount - medianAmount \<ge> majorToMinor MIN_OUTLIER_MAJOR_UNITS (tx_currency t)
           then Some \<lparr>al_kind = NUnusualTransaction, al_title = ''Unusually large transaction'',
             al_message = shown_merchant t (displayName (tx_categorySlug t)) @ '' posted for '' @
               fm candidateAmount (tx_currency t) @ '', compared with a recent '' @
               toLowerCase (displayName (tx_categorySlug t)) @ '' median of '' @ fm medianAmount (tx_currency t) @
               ''. Review the transaction if you do not recognize it.'',
             al_severity = Warning, al_dedupeKey = ''category-outlier:'' @ tx_id t\<rparr>
           else None)"

text \<open>The alert of a candidate: the first of the three checks that fires.\<close>

definition review_alert :: "(int \<Rightarrow> string \<Rightarrow> string) \<Rightarrow> reviewState \<Rightarrow> transaction list \<Rightarrow> transaction \<Rightarrow> alertDraft option option" where
  "review_alert fm s baseline t =
     Option.bind (exact_duplicate fm s t) (\<lambda>e. if e \<noteq> None then Some e
       else Option.bind (near_duplicate s t) (\<lambda>n. if n \<noteq> None then Some n else Some (outlier fm baseline t)))"

definition review_step :: "(int \<Rightarrow> string \<Rightarrow> string) \<Rightarrow> string \<Rightarrow> reviewState \<Rightarrow> transaction \<Rightarrow> reviewState option" where
  "review_step fm candidateStart s t =
     Option.bind (addDays (tx_postedAt t) (- BASELINE_DAYS)) (\<lambda>rollingStart.
       let baseline = filter (\<lambda>row. rollingStart \<le> tx_postedAt row) (get_or (re_category s) (categoryKey t) [])
       in map_option (\<lambda>alert.
            \<lparr>re_latestExact = (case exactKey t of None \<Rightarrow> re_latestExact s | Some k \<Rightarrow> map_set k t (re_latestExact s)),
             re_prior = re_prior s @ [t],
             re_category = map_set (categoryKey t) (baseline @ [t]) (re_category s),
             re_alerts = re_alerts s @ (case alert of None \<Rightarrow> [] | Some a \<Rightarrow> [a])\<rparr>)
          (if candidateStart \<le> tx_postedAt t then review_alert fm s baseline t else Some None))"

fun review_all :: "(int \<Rightarrow> string \<Rightarrow> string) \<Rightarrow> string \<Rightarrow> reviewState \<Rightarrow> transaction list \<Rightarrow> reviewState option" where
  "review_all fm candidateStart s [] = Some s"
| "review_all fm candidateStart s (t # ts) =
     Option.bind (review_step fm candidateStart s t) (\<lambda>s'. review_all fm candidateStart s' ts)"

definition deriveUnusualTransactionAlerts ::
    "(string \<Rightarrow> string \<Rightarrow> int) \<Rightarrow> (int \<Rightarrow> string \<Rightarrow> string) \<Rightarrow> transaction list \<Rightarrow> string \<Rightarrow> alertDraft list option" where
  "deriveUnusualTransactionAlerts lc fm ts today =
     Option.bind (addDays today (- RECENT_UNUSUAL_DAYS)) (\<lambda>candidateStart.
       Option.bind (addDays candidateStart (- BASELINE_DAYS)) (\<lambda>historyStart.
         map_option re_alerts (review_all fm candidateStart
           \<lparr>re_latestExact = [], re_prior = [], re_category = [], re_alerts = []\<rparr>
           (js_sort (oldest_first lc) (filter (reviewable historyStart today) ts)))))"

section \<open>What is reported\<close>

text \<open>The key of a possible duplicate names two reviewed rows whose days are at most two apart, that of an outlier one.\<close>

definition names_rows :: "transaction list \<Rightarrow> string \<Rightarrow> alertDraft \<Rightarrow> bool" where
  "names_rows rows candidateStart a \<longleftrightarrow> (\<exists>t \<in> set rows. candidateStart \<le> tx_postedAt t \<and>
     (al_dedupeKey a = ''category-outlier:'' @ tx_id t \<or>
      (\<exists>prior \<in> set rows. al_dedupeKey a = ''possible-duplicate:'' @ tx_id prior @ '':'' @ tx_id t \<and>
         (\<exists>days. daysBetweenInclusive (tx_postedAt prior) (tx_postedAt t) = Some days \<and> days - 1 \<le> DUPLICATE_WINDOW_DAYS))))"

definition review_inv :: "transaction list \<Rightarrow> string \<Rightarrow> reviewState \<Rightarrow> bool" where
  "review_inv rows candidateStart s \<longleftrightarrow> set (map snd (re_latestExact s)) \<subseteq> set rows \<and> set (re_prior s) \<subseteq> set rows \<and>
     list_all (names_rows rows candidateStart) (re_alerts s)"

lemma find_opt_Some: "find_opt p xs = Some (Some x) \<Longrightarrow> x \<in> set xs \<and> p x = Some True"
  by (induction xs) (auto split: option.splits if_splits)

lemma names_exact:
  assumes "review_inv rows start s" and "t \<in> set rows" and "start \<le> tx_postedAt t" and "exact_duplicate fm s t = Some (Some a)"
  shows "names_rows rows start a"
proof -
  from assms(4) obtain prior days where p: "Option.bind (exactKey t) (map_of (re_latestExact s)) = Some prior"
    and d: "daysBetweenInclusive (tx_postedAt prior) (tx_postedAt t) = Some days" "days - 1 \<le> DUPLICATE_WINDOW_DAYS"
    and key: "al_dedupeKey a = ''possible-duplicate:'' @ tx_id prior @ '':'' @ tx_id t"
    by (auto simp: exact_duplicate_def duplicate_alert_def split: option.splits if_splits)
  from p have "prior \<in> set (map snd (re_latestExact s))" by (force simp: bind_eq_Some_conv dest: map_of_SomeD)
  with assms(1) have "prior \<in> set rows" by (auto simp: review_inv_def)
  with assms(2,3) d key show ?thesis unfolding names_rows_def by blast
qed

lemma names_near:
  assumes "review_inv rows start s" and "t \<in> set rows" and "start \<le> tx_postedAt t" and "near_duplicate s t = Some (Some a)"
  shows "names_rows rows start a"
proof -
  from assms(4) obtain prior where p: "find_opt (near_duplicate_of t) (rev (re_prior s)) = Some (Some prior)"
    and key: "al_dedupeKey a = ''possible-duplicate:'' @ tx_id prior @ '':'' @ tx_id t"
    by (auto simp: near_duplicate_def bind_eq_Some_conv duplicate_alert_def split: option.splits)
  from find_opt_Some [OF p] have r: "prior \<in> set (re_prior s)" "near_duplicate_of t prior = Some True" by simp_all
  from r(2) obtain days where "daysBetweenInclusive (tx_postedAt prior) (tx_postedAt t) = Some days" "days - 1 \<le> DUPLICATE_WINDOW_DAYS"
    by (auto simp: near_duplicate_of_def Let_def split: if_splits)
  moreover have "prior \<in> set rows" using r(1) assms(1) by (auto simp: review_inv_def)
  ultimately show ?thesis using assms(2,3) key unfolding names_rows_def by blast
qed

lemma names_outlier:
  "t \<in> set rows \<Longrightarrow> start \<le> tx_postedAt t \<Longrightarrow> outlier fm baseline t = Some a \<Longrightarrow> names_rows rows start a"
  by (auto simp: names_rows_def outlier_def Let_def split: if_splits)

lemma names_alert:
  "review_inv rows start s \<Longrightarrow> t \<in> set rows \<Longrightarrow> start \<le> tx_postedAt t \<Longrightarrow> review_alert fm s baseline t = Some (Some a) \<Longrightarrow>
   names_rows rows start a"
  unfolding review_alert_def by (auto simp: bind_eq_Some_conv split: if_splits intro: names_exact names_near names_outlier)

lemma review_step_inv:
  assumes "review_inv rows start s" and "t \<in> set rows" and "review_step fm start s t = Some s'"
  shows "review_inv rows start s'"
proof -
  from assms(3) obtain baseline alert where a: "(if start \<le> tx_postedAt t then review_alert fm s baseline t else Some None) = Some alert"
    and s': "re_latestExact s' = (case exactKey t of None \<Rightarrow> re_latestExact s | Some k \<Rightarrow> map_set k t (re_latestExact s))"
      "re_prior s' = re_prior s @ [t]" "re_alerts s' = re_alerts s @ (case alert of None \<Rightarrow> [] | Some a \<Rightarrow> [a])"
    by (auto simp: review_step_def bind_eq_Some_conv Let_def)
  have "set (map snd (re_latestExact s')) \<subseteq> insert t (set (map snd (re_latestExact s)))"
    unfolding s' by (auto split: option.split dest: map_set_entry)
  moreover have "names_rows rows start x" if "alert = Some x" for x
    using names_alert [OF assms(1,2)] a that by (auto split: if_splits)
  ultimately show ?thesis
    using assms(1,2) by (auto simp: review_inv_def s'(2,3) split: option.split)
qed

lemma review_all_inv:
  "review_inv rows start s \<Longrightarrow> set ts \<subseteq> set rows \<Longrightarrow> review_all fm start s ts = Some s' \<Longrightarrow> review_inv rows start s'"
proof (induction ts arbitrary: s)
  case (Cons t ts)
  then obtain s1 where "review_step fm start s t = Some s1" "review_all fm start s1 ts = Some s'"
    by (auto simp: bind_eq_Some_conv)
  with Cons show ?case using review_step_inv [of rows start s t fm s1] by simp
qed simp

text \<open>C36: 
  Every alert about an unusual transaction is about a row of the last fourteen days that is settled, counted and spent, and
  a possible duplicate pairs it with another such row at most two days before.
\<close>

theorem unusual_alerts_are_grounded:
  assumes "deriveUnusualTransactionAlerts lc fm ts today = Some alerts"
    and "addDays today (- 14) = Some start" and "addDays start (- 180) = Some historyStart"
  shows "list_all (names_rows (filter (reviewable historyStart today) ts) start) alerts"
proof -
  from assms obtain s where s: "review_all fm start
      \<lparr>re_latestExact = [], re_prior = [], re_category = [], re_alerts = []\<rparr>
      (js_sort (oldest_first lc) (filter (reviewable historyStart today) ts)) = Some s" "alerts = re_alerts s"
    by (auto simp: deriveUnusualTransactionAlerts_def bind_eq_Some_conv RECENT_UNUSUAL_DAYS_def BASELINE_DAYS_def)
  have "review_inv (filter (reviewable historyStart today) ts) start s"
    by (rule review_all_inv [OF _ _ s(1)]) (simp_all add: review_inv_def)
  with s(2) show ?thesis by (simp add: review_inv_def)
qed

definition twice_charged :: "string \<Rightarrow> string \<Rightarrow> transaction" where
  "twice_charged i day = \<lparr>tx_id = i, tx_accountId = ''a1'', tx_providerTxnId = i, tx_postedAt = day,
     tx_amount = - 4500, tx_currency = ''USD'', tx_rawDescriptor = ''Corner shop'', tx_normalizedDescriptor = ''corner shop'',
     tx_merchant = None, tx_merchantOverride = None, tx_note = None, tx_excludedFromAnalytics = None,
     tx_categorySlug = ''groceries'', tx_categorySource = Lexicon, tx_categoryConfidence = 1, tx_isRecurring = False,
     tx_recurringOverride = None, tx_duplicateReported = None, tx_pending = False, tx_tags = None, tx_importBatchId = None\<rparr>"

definition charged_twice :: "transaction list" where
  "charged_twice = [twice_charged ''t1'' ''2026-03-08'', twice_charged ''t2'' ''2026-03-09'']"

lemma charged_days:
  "addDays ''2026-03-10'' (- 14) = Some ''2026-02-24''" "addDays ''2026-02-24'' (- 180) = Some ''2025-08-28''"
  "\<exists>d. addDays ''2026-03-08'' (- 180) = Some d" "\<exists>d. addDays ''2026-03-09'' (- 180) = Some d"
  "daysBetweenInclusive ''2026-03-08'' ''2026-03-09'' = Some 2"
proof -
  have "toUtcDate ''2026-03-10'' = Some 20522" "toIsoDate 20508 = ''2026-02-24''" "toUtcDate ''2026-02-24'' = Some 20508"
    "toIsoDate 20328 = ''2025-08-28''" "toUtcDate ''2026-03-08'' = Some 20520" "toUtcDate ''2026-03-09'' = Some 20521"
    by code_simp+
  then show "addDays ''2026-03-10'' (- 14) = Some ''2026-02-24''" "addDays ''2026-02-24'' (- 180) = Some ''2025-08-28''"
    "\<exists>d. addDays ''2026-03-08'' (- 180) = Some d" "\<exists>d. addDays ''2026-03-09'' (- 180) = Some d"
    "daysBetweenInclusive ''2026-03-08'' ''2026-03-09'' = Some 2"
    by (simp_all add: addDays_def daysBetweenInclusive_def)
qed

lemma charged_rows:
  "js_sort (oldest_first code_unit_compare) (filter (reviewable ''2025-08-28'' ''2026-03-10'') charged_twice) = charged_twice"
  "''2026-02-24'' \<le> ''2026-03-08''" "''2026-02-24'' \<le> ''2026-03-09''"
  "exactKey (twice_charged i d) = Some ''corner shop|USD|4500''"
  by code_simp+

lemma charged_alerts:
  "\<exists>a. deriveUnusualTransactionAlerts code_unit_compare fm charged_twice ''2026-03-10'' = Some [a] \<and>
     al_dedupeKey a = ''possible-duplicate:t1:t2''"
proof -
  obtain d1 d2 where d: "addDays ''2026-03-08'' (- 180) = Some d1" "addDays ''2026-03-09'' (- 180) = Some d2"
    using charged_days(3,4) by blast
  define row where "row i day = twice_charged i day" for i day
  have r: "tx_postedAt (row i day) = day" "tx_id (row i day) = i" "exactKey (row i day) = Some ''corner shop|USD|4500''" for i day
    using charged_rows(4) by (simp_all add: row_def twice_charged_def)
  have "js_sort (oldest_first code_unit_compare) (filter (reviewable ''2025-08-28'' ''2026-03-10'') charged_twice) =
      [row ''t1'' ''2026-03-08'', row ''t2'' ''2026-03-09'']"
    unfolding charged_rows(1) by (simp add: charged_twice_def row_def)
  then show ?thesis
    by (simp add: deriveUnusualTransactionAlerts_def RECENT_UNUSUAL_DAYS_def BASELINE_DAYS_def charged_days(1,2,5) d r
      charged_rows(2,3) review_step_def review_alert_def exact_duplicate_def near_duplicate_def outlier_def
      MIN_BASELINE_TRANSACTIONS_def DUPLICATE_WINDOW_DAYS_def duplicate_alert_def get_or_def Let_def)
qed

theorem unusual_alerts_are_grounded_witness:
  "\<exists>alerts. deriveUnusualTransactionAlerts code_unit_compare (\<lambda>_ _. ''45.00'') charged_twice ''2026-03-10'' = Some alerts \<and>
     map al_dedupeKey alerts = [''possible-duplicate:t1:t2''] \<and>
     list_all (names_rows (filter (reviewable ''2025-08-28'' ''2026-03-10'') charged_twice) ''2026-02-24'') alerts"
proof -
  obtain a where "deriveUnusualTransactionAlerts code_unit_compare (\<lambda>_ _. ''45.00'') charged_twice ''2026-03-10'' = Some [a]"
    "al_dedupeKey a = ''possible-duplicate:t1:t2''"
    using charged_alerts by blast
  moreover from this(1) have "list_all (names_rows (filter (reviewable ''2025-08-28'' ''2026-03-10'') charged_twice) ''2026-02-24'') [a]"
    by (rule unusual_alerts_are_grounded [OF _ charged_days(1,2)])
  ultimately show ?thesis by (intro exI [of _ "[a]"]) simp
qed

end
