(* ===== verification/Notifications.thy ===== *)
theory Notifications
  imports FinancialAlerts LedgerService Budgets
begin

text \<open>
  The notification centre, \<open>modules/notifications/notifications.service.ts\<close>, with the delivery of pushes
  (\<open>modules/push/push.service.ts\<close>) over the in-memory token store (\<open>infra/push/push-token-stores.ts\<close>). Random
  identifiers are the values of \<open>uuid\<close> in the order they are drawn; the provider is a function of the token.
\<close>

section \<open>Pushes\<close>

datatype pushPlatform = Android | Ios | Web

type_synonym pushTokens = "(string, (string, pushPlatform) jsmap) jsmap"

definition push_register :: "pushTokens \<Rightarrow> string \<Rightarrow> string \<Rightarrow> pushPlatform \<Rightarrow> pushTokens" where
  "push_register s u token platform = map_set u (map_set token platform (get_or s u [])) s"

definition push_list :: "pushTokens \<Rightarrow> string \<Rightarrow> string list" where
  "push_list s u = map fst (get_or s u [])"

definition push_unregister :: "pushTokens \<Rightarrow> string \<Rightarrow> string \<Rightarrow> bool \<times> pushTokens" where
  "push_unregister s u token = (let targets = get_or s u []
     in (token \<in> set (map fst targets), map_set u (map_delete token targets) s))"

definition push_purgeUser :: "pushTokens \<Rightarrow> string \<Rightarrow> pushTokens" where
  "push_purgeUser s u = map_delete u s"

datatype sendOutcome = Sent | NoLongerValid | SendFailed

record pushProvider =
  pp_configured :: bool
  pp_send :: "string \<Rightarrow> sendOutcome"

record delivery =
  dl_attempted :: nat
  dl_delivered :: nat
  dl_removed :: nat
  dl_failed :: nat

definition deliver_one :: "pushProvider \<Rightarrow> string \<Rightarrow> delivery \<times> pushTokens \<Rightarrow> string \<Rightarrow> delivery \<times> pushTokens" where
  "deliver_one p u acc token = (case acc of (d, s) \<Rightarrow> (case pp_send p token of
       Sent \<Rightarrow> (d\<lparr>dl_delivered := dl_delivered d + 1\<rparr>, s)
     | NoLongerValid \<Rightarrow> (case push_unregister s u token of
           (removed, s') \<Rightarrow> (if removed then d\<lparr>dl_removed := dl_removed d + 1\<rparr> else d, s'))
     | SendFailed \<Rightarrow> (d\<lparr>dl_failed := dl_failed d + 1\<rparr>, s)))"

definition push_deliver :: "pushProvider \<Rightarrow> pushTokens \<Rightarrow> string \<Rightarrow> delivery \<times> pushTokens" where
  "push_deliver p s u =
     (if \<not> pp_configured p then (\<lparr>dl_attempted = 0, dl_delivered = 0, dl_removed = 0, dl_failed = 0\<rparr>, s)
      else let targets = push_list s u
        in foldl (deliver_one p u)
             (\<lparr>dl_attempted = length targets, dl_delivered = 0, dl_removed = 0, dl_failed = 0\<rparr>, s) targets)"

section \<open>The service\<close>

text \<open>The state: the stored notifications, the deliveries started, in order, and the number of identifiers drawn.\<close>

record centre =
  nc_store :: notificationState
  nc_pushed :: "(string \<times> string) list"
  nc_drawn :: nat

definition create_notification :: "string \<Rightarrow> userNotification \<Rightarrow> centre \<Rightarrow> bool \<times> centre" where
  "create_notification u n s = (case notif_upsert (nc_store s) u n of (inserted, store) \<Rightarrow>
     if \<not> inserted then (False, s\<lparr>nc_store := store\<rparr>)
     else (True, s\<lparr>nc_store := store, nc_pushed := nc_pushed s @ [(u, no_id n)]\<rparr>))"

definition create_draft :: "(nat \<Rightarrow> string) \<Rightarrow> string \<Rightarrow> string \<Rightarrow> centre \<Rightarrow> alertDraft \<Rightarrow> centre" where
  "create_draft uuid now u s a = snd (create_notification u
     \<lparr>no_id = uuid (nc_drawn s), no_kind = al_kind a, no_title = al_title a, no_message = al_message a,
      no_severity = al_severity a, no_dedupeKey = al_dedupeKey a, no_readAt = None, no_createdAt = now\<rparr>
     (s\<lparr>nc_drawn := nc_drawn s + 1\<rparr>))"

text \<open>What the alerts are computed from.\<close>

record alertSources =
  al_budgets :: "budget buckets"
  al_transactions :: transactionStore
  al_accounts :: accountState

definition alertEnabled :: "notificationPreferences \<Rightarrow> alertDraft \<Rightarrow> bool" where
  "alertEnabled p a = (case al_kind a of NBill \<Rightarrow> np_bills p | NSubscription \<Rightarrow> np_subscriptions p
     | NUnusualTransaction \<Rightarrow> np_unusualTransactions p | _ \<Rightarrow> False)"

definition derived_drafts ::
    "(int \<Rightarrow> string \<Rightarrow> string) \<Rightarrow> ledgerEnv \<Rightarrow> alertSources \<Rightarrow> notificationPreferences \<Rightarrow> string \<Rightarrow> alertDraft list option" where
  "derived_drafts fm env src p u =
     (if np_bills p \<or> np_subscriptions p \<or> np_unusualTransactions p
      then let ts = list_all_of env (al_transactions src) u; lc = en_localeCompare env; today = en_today env
        in Option.bind (deriveSubscriptionAlerts lc fm ts today) (\<lambda>recurring.
             map_option (\<lambda>unusual. filter (alertEnabled p) (recurring @ unusual))
               (deriveUnusualTransactionAlerts lc fm ts today))
      else Some [])"

definition budget_draft :: "budgetReport \<Rightarrow> budgetAlert \<Rightarrow> alertDraft" where
  "budget_draft r a = \<lparr>al_kind = NBudget,
     al_title = map (\<lambda>c. if c = CHR ''_'' then CHR '' '' else c) (bp_categorySlug (br_progress r)) @ '' budget'',
     al_message = ba_message a, al_severity = ba_severity a,
     al_dedupeKey = ''budget:'' @ bp_budgetId (br_progress r) @ '':'' @ dr_start (br_period r) @ '':'' @
       (case ba_threshold a of AtPercent n \<Rightarrow> int_string n | Projection \<Rightarrow> ''projection'')\<rparr>"

definition budget_drafts :: "ledgerEnv \<Rightarrow> alertSources \<Rightarrow> notificationPreferences \<Rightarrow> string \<Rightarrow> alertDraft list option" where
  "budget_drafts env src p u =
     (if np_budget p
      then map_option (\<lambda>reports. concat (map (\<lambda>r. map (budget_draft r) (br_alerts r)) reports))
        (budgets_progress env (al_budgets src) (al_transactions src) u (Some (en_today env)) None)
      else Some [])"

definition credit_draft :: "string \<Rightarrow> account \<Rightarrow> alertDraft list" where
  "credit_draft today a = (case ac_creditLimit a of
     None \<Rightarrow> []
   | Some limit \<Rightarrow> if ac_type a \<noteq> CreditCard \<or> limit = 0 then []
       else let utilization = fl (of_int (max 0 (- ac_balanceCurrent a)) / of_int limit)
         in if utilization < fl (3 / 10) then []
            else [\<lparr>al_kind = NCreditUtilization, al_title = ''Credit utilization alert'',
              al_message = ac_name a @ '' is at '' @ int_string (js_round (fl (utilization * 100))) @
                ''% utilization. Consider paying before the statement closes.'',
              al_severity = (if utilization \<ge> fl (8 / 10) then Critical else Warning),
              al_dedupeKey = ''credit:'' @ ac_id a @ '':'' @ slice 0 7 today @ '':'' @
                (if utilization \<ge> fl (8 / 10) then ''80'' else ''30'')\<rparr>])"

definition low_draft :: "(int \<Rightarrow> string \<Rightarrow> string) \<Rightarrow> string \<Rightarrow> account \<Rightarrow> alertDraft list" where
  "low_draft fm today a =
     (if ac_type a \<notin> {Checking, Savings} \<or> ac_balanceCurrent a \<ge> 20000 then []
      else [\<lparr>al_kind = NLowBalance, al_title = ''Low balance'',
        al_message = ac_name a @ '' has fallen below the configured '' @ fm 20000 (ac_currency a) @
          '' early-warning threshold.'',
        al_severity = (if ac_balanceCurrent a < 0 then Critical else Warning),
        al_dedupeKey = ''low-balance:'' @ ac_id a @ '':'' @ slice 0 7 today\<rparr>])"

definition account_drafts ::
    "(int \<Rightarrow> string \<Rightarrow> string) \<Rightarrow> ledgerEnv \<Rightarrow> alertSources \<Rightarrow> notificationPreferences \<Rightarrow> string \<Rightarrow> alertDraft list" where
  "account_drafts fm env src p u = (let accounts = acc_list (al_accounts src) u; today = en_today env
     in (if np_creditUtilization p then concat (map (credit_draft today) accounts) else []) @
        (if np_lowBalance p then concat (map (low_draft fm today) accounts) else []))"

text \<open>Each block creates its alerts before the next one is computed; an error ends the request and keeps what was created.\<close>

fun run_blocks :: "(nat \<Rightarrow> string) \<Rightarrow> string \<Rightarrow> string \<Rightarrow> alertDraft list option list \<Rightarrow> centre \<Rightarrow> bool \<times> centre" where
  "run_blocks uuid now u [] s = (True, s)"
| "run_blocks uuid now u (b # bs) s = (case b of
     None \<Rightarrow> (False, s) | Some drafts \<Rightarrow> run_blocks uuid now u bs (foldl (create_draft uuid now u) s drafts))"

definition refresh_blocks ::
    "(int \<Rightarrow> string \<Rightarrow> string) \<Rightarrow> ledgerEnv \<Rightarrow> alertSources \<Rightarrow> notificationPreferences \<Rightarrow> string \<Rightarrow> alertDraft list option list" where
  "refresh_blocks fm env src p u =
     [derived_drafts fm env src p u, budget_drafts env src p u, Some (account_drafts fm env src p u)]"

definition refreshDerived ::
    "(int \<Rightarrow> string \<Rightarrow> string) \<Rightarrow> (nat \<Rightarrow> string) \<Rightarrow> ledgerEnv \<Rightarrow> alertSources \<Rightarrow> string \<Rightarrow> centre \<Rightarrow> bool \<times> centre" where
  "refreshDerived fm uuid env src u s =
     run_blocks uuid (en_now env) u (refresh_blocks fm env src (getPreferences (nc_store s) u) u) s"

definition notifications_list ::
    "(int \<Rightarrow> string \<Rightarrow> string) \<Rightarrow> (nat \<Rightarrow> string) \<Rightarrow> ledgerEnv \<Rightarrow> alertSources \<Rightarrow> string \<Rightarrow> centre
      \<Rightarrow> userNotification list option \<times> centre" where
  "notifications_list fm uuid env src u s = (case refreshDerived fm uuid env src u s of (ok, s') \<Rightarrow>
     (if ok then Some (notif_list (en_localeCompare env) (nc_store s') u) else None, s'))"

record preferencesPatch =
  pt_budget :: "bool option"
  pt_bills :: "bool option"
  pt_creditUtilization :: "bool option"
  pt_subscriptions :: "bool option"
  pt_lowBalance :: "bool option"
  pt_unusualTransactions :: "bool option"
  pt_bankSync :: "bool option"
  pt_security :: "bool option"

definition patched :: "bool option \<Rightarrow> bool \<Rightarrow> bool" where
  "patched v old = (case v of None \<Rightarrow> old | Some b \<Rightarrow> b)"

definition notifications_updatePreferences :: "string \<Rightarrow> preferencesPatch \<Rightarrow> centre \<Rightarrow> centre" where
  "notifications_updatePreferences u q s = (let p = getPreferences (nc_store s) u
     in s\<lparr>nc_store := updatePreferences (nc_store s) u
       \<lparr>np_budget = patched (pt_budget q) (np_budget p), np_bills = patched (pt_bills q) (np_bills p),
        np_creditUtilization = patched (pt_creditUtilization q) (np_creditUtilization p),
        np_subscriptions = patched (pt_subscriptions q) (np_subscriptions p),
        np_lowBalance = patched (pt_lowBalance q) (np_lowBalance p),
        np_unusualTransactions = patched (pt_unusualTransactions q) (np_unusualTransactions p),
        np_bankSync = patched (pt_bankSync q) (np_bankSync p), np_security = patched (pt_security q) (np_security p)\<rparr>\<rparr>)"

text \<open>False is the \<open>NotFoundException\<close>.\<close>

definition notifications_markRead :: "string \<Rightarrow> string \<Rightarrow> string \<Rightarrow> centre \<Rightarrow> bool \<times> centre" where
  "notifications_markRead now u i s = (case notif_markRead (nc_store s) u i now of (found, store) \<Rightarrow> (found, s\<lparr>nc_store := store\<rparr>))"

definition notifications_markAllRead :: "(string \<Rightarrow> string \<Rightarrow> int) \<Rightarrow> string \<Rightarrow> string \<Rightarrow> centre \<Rightarrow> centre" where
  "notifications_markAllRead lc now u s =
     foldl (\<lambda>s n. snd (notifications_markRead now u (no_id n) s)) s
       (filter (\<lambda>n. no_readAt n = None) (notif_list lc (nc_store s) u))"

end
