(* ===== verification/NotificationsSafety.thy ===== *)
theory NotificationsSafety
  imports Notifications
begin

text \<open>
  What the notification centre guarantees: looking twice alerts once, every stored alert was pushed exactly once, and a
  delivery drops exactly the targets the provider disowned.
\<close>

section \<open>Looking twice\<close>

abbreviation centre_rows :: "centre \<Rightarrow> string \<Rightarrow> userNotification list" where
  "centre_rows s u \<equiv> bucket (ns_rows (nc_store s)) u"

definition alerted :: "centre \<Rightarrow> string \<Rightarrow> string \<Rightarrow> bool" where
  "alerted s u key \<longleftrightarrow> key \<in> set (map no_dedupeKey (centre_rows s u))"

lemma alerted_create: "alerted (create_draft uuid now u s a) u (al_dedupeKey a)"
  by (force simp: alerted_def create_draft_def create_notification_def notif_upsert_def)

lemma alerted_stays: "alerted s v key \<Longrightarrow> alerted (create_draft uuid now u s a) v key"
  by (auto simp: alerted_def create_draft_def create_notification_def notif_upsert_def)

lemma alerted_fold:
  "key \<in> set (map al_dedupeKey drafts) \<or> alerted s u key \<Longrightarrow> alerted (foldl (create_draft uuid now u) s drafts) u key"
  by (induction drafts arbitrary: s) (auto simp: alerted_create alerted_stays)

lemma alerted_blocks:
  "run_blocks uuid now u bs s = (True, s') \<Longrightarrow>
   alerted s u key \<or> (\<exists>drafts. Some drafts \<in> set bs \<and> key \<in> set (map al_dedupeKey drafts)) \<Longrightarrow> alerted s' u key"
proof (induction uuid now u bs s rule: run_blocks.induct)
  case (2 uuid now u b bs s)
  then show ?case using alerted_fold by (cases b) fastforce+
qed auto

lemma preferences_create: "getPreferences (nc_store (create_draft uuid now u s a)) v = getPreferences (nc_store s) v"
  by (simp add: create_draft_def create_notification_def notif_upsert_def getPreferences_def)

lemma preferences_blocks: "getPreferences (nc_store (snd (run_blocks uuid now u bs s))) v = getPreferences (nc_store s) v"
proof (induction uuid now u bs s rule: run_blocks.induct)
  case (2 uuid now u b bs s)
  have "getPreferences (nc_store (foldl (create_draft uuid now u) s drafts)) v = getPreferences (nc_store s) v" for drafts s
    by (induction drafts arbitrary: s) (simp_all add: preferences_create)
  with 2 show ?case by (simp split: option.split)
qed simp

text \<open>Two states of the centre that only differ in the identifiers drawn.\<close>

definition same_centre :: "centre \<Rightarrow> centre \<Rightarrow> bool" where
  "same_centre s s' \<longleftrightarrow> nc_store s' = nc_store s \<and> nc_pushed s' = nc_pushed s"

lemma known_alert: "alerted s u (al_dedupeKey a) \<Longrightarrow> same_centre s (create_draft uuid now u s a)"
  by (auto simp: alerted_def same_centre_def create_draft_def create_notification_def notif_upsert_def)

lemma same_alerted: "same_centre s s' \<Longrightarrow> alerted s' u key = alerted s u key"
  by (simp add: same_centre_def alerted_def)

lemma known_alerts:
  "\<forall>a \<in> set drafts. alerted s u (al_dedupeKey a) \<Longrightarrow> same_centre s (foldl (create_draft uuid now u) s drafts)"
proof (induction drafts arbitrary: s)
  case (Cons a drafts)
  then have one: "same_centre s (create_draft uuid now u s a)" by (simp add: known_alert)
  with Cons have "same_centre (create_draft uuid now u s a) (foldl (create_draft uuid now u) (create_draft uuid now u s a) drafts)"
    by (simp add: same_alerted)
  with one show ?case by (simp add: same_centre_def)
qed (simp add: same_centre_def)

lemma known_blocks:
  "\<forall>drafts. Some drafts \<in> set bs \<longrightarrow> (\<forall>a \<in> set drafts. alerted s u (al_dedupeKey a)) \<Longrightarrow>
   same_centre s (snd (run_blocks uuid now u bs s))"
proof (induction uuid now u bs s rule: run_blocks.induct)
  case (2 uuid now u b bs s)
  show ?case
  proof (cases b)
    case (Some drafts)
    with 2 have one: "same_centre s (foldl (create_draft uuid now u) s drafts)" by (auto intro: known_alerts)
    with 2 Some have "same_centre (foldl (create_draft uuid now u) s drafts)
        (snd (run_blocks uuid now u bs (foldl (create_draft uuid now u) s drafts)))"
      by (simp add: same_alerted)
    with one Some show ?thesis by (simp add: same_centre_def)
  qed (simp add: same_centre_def)
qed (simp add: same_centre_def)

lemma refresh_blocks_now: "refresh_blocks fm (env\<lparr>en_now := now\<rparr>) src p u = refresh_blocks fm env src p u"
  by (simp add: refresh_blocks_def derived_drafts_def budget_drafts_def account_drafts_def budgets_progress_def
    list_all_of_def Let_def)

text \<open>C34: 
  Looking again on the same day, with the ledger unchanged, stores no notification and sends no push.
\<close>

theorem looking_twice_alerts_once:
  assumes "refreshDerived fm uuid env src u s = (True, s')"
  shows "same_centre s' (snd (refreshDerived fm uuid (env\<lparr>en_now := later\<rparr>) src u s'))"
proof -
  let ?bs = "refresh_blocks fm env src (getPreferences (nc_store s) u) u"
  have r: "run_blocks uuid (en_now env) u ?bs s = (True, s')" using assms by (simp add: refreshDerived_def)
  have "getPreferences (nc_store s') u = getPreferences (nc_store s) u"
    using preferences_blocks [of uuid "en_now env" u ?bs s] r by simp
  moreover have "alerted s' u (al_dedupeKey a)" if "Some drafts \<in> set ?bs" "a \<in> set drafts" for drafts a
    using alerted_blocks [OF r] that by auto
  ultimately show ?thesis by (simp add: refreshDerived_def refresh_blocks_now known_blocks)
qed

definition quiet_env :: ledgerEnv where
  "quiet_env = \<lparr>en_localeCompare = code_unit_compare, en_regex = \<lambda>_ _. None, en_today = ''2026-03-10'',
     en_now = ''2026-03-10T09:00:00.000Z'', en_millis = 0, en_uuid = ''v1'', en_listAccounts = \<lambda>_. [],
     en_fetch = \<lambda>_. []\<rparr>"

definition low_sources :: alertSources where
  "low_sources = \<lparr>al_budgets = [], al_transactions = [], al_accounts = \<lparr>as_accounts = [(''u1'', [\<lparr>ac_id = ''a1'',
     ac_name = ''Giro'', ac_type = Checking, ac_mask = [], ac_currency = ''EUR'', ac_balanceCurrent = 1000, ac_source = None,
     ac_creditLimit = None, ac_statementDay = None, ac_paymentDueDay = None\<rparr>])], as_snapshots = []\<rparr>\<rparr>"

definition empty_centre :: centre where
  "empty_centre = \<lparr>nc_store = \<lparr>ns_rows = [], ns_preferences = []\<rparr>, nc_pushed = [], nc_drawn = 0\<rparr>"

lemma empty_ledger: "list_all_of env [] u = []"
  by (simp add: list_all_of_def txn_list_def split: option.split)

lemma no_recurring: "deriveSubscriptionAlerts lc fm [] today = Some []"
  by (simp add: deriveSubscriptionAlerts_def detectSubscriptions_def group_charges_def)

lemma no_unusual: "deriveUnusualTransactionAlerts lc fm [] ''2026-03-10'' = Some []"
proof -
  have "toUtcDate ''2026-03-10'' = Some 20522" "toIsoDate 20508 = ''2026-02-24''" "toUtcDate ''2026-02-24'' = Some 20508"
    by code_simp+
  then show ?thesis by (simp add: addDays_def deriveUnusualTransactionAlerts_def RECENT_UNUSUAL_DAYS_def BASELINE_DAYS_def)
qed

lemma quiet_drafts:
  "derived_drafts fm quiet_env low_sources p ''u1'' = Some []" "budget_drafts quiet_env low_sources p ''u1'' = Some []"
  by (simp_all add: derived_drafts_def low_sources_def empty_ledger no_recurring no_unusual quiet_env_def Let_def
    budget_drafts_def budgets_progress_def)

definition low_draft_giro :: alertDraft where
  "low_draft_giro = \<lparr>al_kind = NLowBalance, al_title = ''Low balance'',
     al_message = ''Giro has fallen below the configured 20 early-warning threshold.'', al_severity = Warning,
     al_dedupeKey = ''low-balance:a1:2026-03''\<rparr>"

lemma low_account: "account_drafts (\<lambda>_ _. ''20'') quiet_env low_sources DEFAULT_NOTIFICATION_PREFERENCES ''u1'' = [low_draft_giro]"
  by code_simp

theorem looking_twice_alerts_once_witness:
  "let (ok, s) = refreshDerived (\<lambda>_ _. ''20'') (\<lambda>n. replicate n CHR ''x'') quiet_env low_sources ''u1'' empty_centre
   in ok \<and> nc_pushed s = [(''u1'', [])] \<and>
      same_centre s (snd (refreshDerived (\<lambda>_ _. ''20'') (\<lambda>n. replicate n CHR ''x'') (quiet_env\<lparr>en_now := ''2026-03-10T10:00:00.000Z''\<rparr>)
        low_sources ''u1'' s))"
proof -
  let ?r = "refreshDerived (\<lambda>_ _. ''20'') (\<lambda>n. replicate n CHR ''x'') quiet_env low_sources ''u1'' empty_centre"
  have f: "fst ?r = True" "nc_pushed (snd ?r) = [(''u1'', [])]"
    by (simp_all add: refreshDerived_def refresh_blocks_def quiet_drafts low_account getPreferences_def empty_centre_def
      create_draft_def create_notification_def notif_upsert_def get_or_def)
  obtain ok s where r: "?r = (ok, s)" by (rule prod.exhaust)
  with f have s: "?r = (True, s)" "nc_pushed s = [(''u1'', [])]" by (simp_all only: fst_conv snd_conv)
  from s(2) looking_twice_alerts_once [OF s(1)] show ?thesis by (simp add: s(1) del: replicate.simps replicate_Suc)
qed

section \<open>One push for every alert\<close>

datatype centreRequest =
    Look "int \<Rightarrow> string \<Rightarrow> string" ledgerEnv alertSources
  | Announce userNotification
  | ReadOne string string
  | ReadAll "string \<Rightarrow> string \<Rightarrow> int" string
  | Prefer preferencesPatch

fun centre_step :: "(nat \<Rightarrow> string) \<Rightarrow> centre \<Rightarrow> string \<times> centreRequest \<Rightarrow> centre" where
  "centre_step uuid s (u, Look fm env src) = snd (notifications_list fm uuid env src u s)"
| "centre_step uuid s (u, Announce n) = snd (create_notification u n s)"
| "centre_step uuid s (u, ReadOne now i) = snd (notifications_markRead now u i s)"
| "centre_step uuid s (u, ReadAll lc now) = notifications_markAllRead lc now u s"
| "centre_step uuid s (u, Prefer q) = notifications_updatePreferences u q s"

definition pushes_of :: "centre \<Rightarrow> string \<Rightarrow> string list" where
  "pushes_of s u = map snd (filter (\<lambda>p. fst p = u) (nc_pushed s))"

definition pushed_once :: "centre \<Rightarrow> bool" where
  "pushed_once s \<longleftrightarrow> (\<forall>u. distinct (map no_dedupeKey (centre_rows s u)) \<and> pushes_of s u = map no_id (centre_rows s u))"

lemma pushed_once_create: "pushed_once s \<Longrightarrow> pushed_once (snd (create_notification u n s))"
  by (auto simp: pushed_once_def pushes_of_def create_notification_def notif_upsert_def)

lemma pushed_once_drawn [simp]: "pushed_once (s\<lparr>nc_drawn := k\<rparr>) = pushed_once s"
  by (simp add: pushed_once_def pushes_of_def)

lemma pushed_once_drafts: "pushed_once s \<Longrightarrow> pushed_once (foldl (create_draft uuid now u) s drafts)"
proof (induction drafts arbitrary: s)
  case (Cons a drafts)
  have "pushed_once (create_draft uuid now u s a)"
    unfolding create_draft_def by (rule pushed_once_create) (simp add: Cons.prems)
  then show ?case by (simp add: Cons.IH)
qed simp

lemma pushed_once_blocks: "pushed_once s \<Longrightarrow> pushed_once (snd (run_blocks uuid now u bs s))"
  by (induction uuid now u bs s rule: run_blocks.induct) (auto simp: pushed_once_drafts split: option.splits)

lemma read_frame:
  "map no_id (update_first p (\<lambda>row. if no_readAt row = None then row\<lparr>no_readAt := Some now\<rparr> else row) rows) = map no_id rows"
  "map no_dedupeKey (update_first p (\<lambda>row. if no_readAt row = None then row\<lparr>no_readAt := Some now\<rparr> else row) rows) =
    map no_dedupeKey rows"
  by (rule map_update_first_frame; simp)+

lemma pushed_once_read: "pushed_once s \<Longrightarrow> pushed_once (snd (notifications_markRead now u i s))"
  unfolding pushed_once_def pushes_of_def notifications_markRead_def notif_markRead_def
  by (simp add: read_frame)

lemma pushed_once_step: "pushed_once s \<Longrightarrow> pushed_once (centre_step uuid s r)"
proof -
  assume p: "pushed_once s"
  obtain u q where r: "r = (u, q)" by force
  have reads: "pushed_once (foldl (\<lambda>s n. snd (notifications_markRead now u (no_id n) s)) t ns)" if "pushed_once t" for now t ns
    using that by (induction ns arbitrary: t) (simp_all add: pushed_once_read)
  show ?thesis
  proof (cases q)
    case (Look fm env src)
    have "centre_step uuid s r = snd (run_blocks uuid (en_now env) u (refresh_blocks fm env src (getPreferences (nc_store s) u) u) s)"
      by (simp add: r Look notifications_list_def refreshDerived_def case_prod_beta)
    then show ?thesis using pushed_once_blocks [OF p] by simp
  next
    case (Prefer patch)
    then show ?thesis
      using p by (simp add: r notifications_updatePreferences_def updatePreferences_def pushed_once_def pushes_of_def Let_def)
  qed (simp_all add: r p pushed_once_create pushed_once_read reads notifications_markAllRead_def)
qed

text \<open>C35: 
  After any requests of any users, no two notifications of a user have the same key, and the pushes started for the user
  are those of the stored notifications, each once and in the order they were stored.
\<close>

theorem every_alert_is_pushed_once:
  "pushed_once (foldl (centre_step uuid) empty_centre requests)"
proof -
  have "pushed_once (foldl (centre_step uuid) s requests)" if "pushed_once s" for s
    using that by (induction requests arbitrary: s) (simp_all add: pushed_once_step)
  then show ?thesis by (simp add: pushed_once_def pushes_of_def empty_centre_def)
qed

section \<open>Deliveries\<close>

lemma deliver_targets:
  assumes "distinct tokens" and "set tokens \<subseteq> set (map fst (get_or s u []))"
    and "foldl (deliver_one p u) (d, s) tokens = (d', s')"
  shows "dl_delivered d' + dl_removed d' + dl_failed d' = dl_delivered d + dl_removed d + dl_failed d + length tokens \<and>
    dl_attempted d' = dl_attempted d \<and>
    get_or s' u [] = filter (\<lambda>(token, _). \<not> (token \<in> set tokens \<and> pp_send p token = NoLongerValid)) (get_or s u [])"
  using assms
proof (induction tokens arbitrary: d s)
  case Nil
  then show ?case by (simp add: case_prod_beta)
next
  case (Cons token tokens)
  obtain d1 s1 where one: "deliver_one p u (d, s) token = (d1, s1)" by force
  have t: "token \<in> set (map fst (get_or s u []))" using Cons.prems by simp
  have d1: "dl_delivered d1 + dl_removed d1 + dl_failed d1 = dl_delivered d + dl_removed d + dl_failed d + 1"
    "dl_attempted d1 = dl_attempted d"
    and s1: "get_or s1 u [] = filter (\<lambda>(k, _). \<not> (k = token \<and> pp_send p k = NoLongerValid)) (get_or s u [])"
    using one t by (auto simp: deliver_one_def push_unregister_def Let_def AList.delete_eq case_prod_beta
      filter_id_conv split: sendOutcome.splits intro!: filter_cong)
  have "set tokens \<subseteq> set (map fst (get_or s1 u []))"
  proof
    fix k assume k: "k \<in> set tokens"
    with Cons.prems(1) have "k \<noteq> token" by auto
    with k Cons.prems(2) show "k \<in> set (map fst (get_or s1 u []))" unfolding s1 by force
  qed
  with Cons.IH [of s1 d1] Cons.prems one d1 s1 show ?case by (auto intro!: filter_cong)
qed

text \<open>
  A delivery accounts for every target, and removes exactly the registrations that the provider says are gone: a failure
  of any other kind loses none.
\<close>

theorem delivery_drops_dead_targets:
  assumes "pp_configured p" and "distinct (map fst (get_or s u []))" and "push_deliver p s u = (d, s')"
  shows "dl_attempted d = dl_delivered d + dl_removed d + dl_failed d \<and>
    get_or s' u [] = filter (\<lambda>(token, _). pp_send p token \<noteq> NoLongerValid) (get_or s u [])"
proof -
  let ?zero = "\<lparr>dl_attempted = length (push_list s u), dl_delivered = 0, dl_removed = 0, dl_failed = 0\<rparr>"
  have run: "foldl (deliver_one p u) (?zero, s) (push_list s u) = (d, s')"
    using assms(1,3) by (simp add: push_deliver_def Let_def)
  have cong: "filter (\<lambda>(token, _). \<not> (token \<in> set (push_list s u) \<and> pp_send p token = NoLongerValid)) (get_or s u []) =
      filter (\<lambda>(token, _). pp_send p token \<noteq> NoLongerValid) (get_or s u [])"
    by (rule filter_cong) (force simp: push_list_def)+
  have "distinct (push_list s u)" "set (push_list s u) \<subseteq> set (map fst (get_or s u []))"
    using assms(2) by (simp_all add: push_list_def)
  from deliver_targets [OF this run] show ?thesis unfolding cong by simp
qed

theorem delivery_drops_dead_targets_witness:
  "push_deliver \<lparr>pp_configured = True, pp_send = (\<lambda>t. if t = ''t1'' then NoLongerValid else if t = ''t2'' then SendFailed else Sent)\<rparr>
     [(''u1'', [(''t1'', Android), (''t2'', Ios), (''t3'', Web)])] ''u1'' =
     (\<lparr>dl_attempted = 3, dl_delivered = 1, dl_removed = 1, dl_failed = 1\<rparr>, [(''u1'', [(''t2'', Ios), (''t3'', Web)])]) \<and>
   (let (d, s) = push_deliver \<lparr>pp_configured = True, pp_send = (\<lambda>t. if t = ''t1'' then NoLongerValid else if t = ''t2'' then SendFailed else Sent)\<rparr>
       [(''u1'', [(''t1'', Android), (''t2'', Ios), (''t3'', Web)])] ''u1''
    in dl_attempted d = dl_delivered d + dl_removed d + dl_failed d)"
proof -
  let ?p = "\<lparr>pp_configured = True, pp_send = (\<lambda>t. if t = ''t1'' then NoLongerValid else if t = ''t2'' then SendFailed else Sent)\<rparr>"
  let ?s = "[(''u1'', [(''t1'', Android), (''t2'', Ios), (''t3'', Web)])]"
  have "push_deliver ?p ?s ''u1'' =
     (\<lparr>dl_attempted = 3, dl_delivered = 1, dl_removed = 1, dl_failed = 1\<rparr>, [(''u1'', [(''t2'', Ios), (''t3'', Web)])])"
    by code_simp
  with delivery_drops_dead_targets [of ?p ?s "''u1''"] show ?thesis by (simp add: get_or_def)
qed

end
