(* ===== verification/BankLinks.thy ===== *)
theory BankLinks
  imports RowStore
begin

text \<open>
  The connections to banks (\<open>ports/banking.ts\<close>) and their in-memory stores, \<open>infra/banking/bank-link-stores.ts\<close>: the
  links with the lease of a running synchronization, and the queue of webhook jobs. Times are milliseconds.
\<close>

section \<open>Links\<close>

datatype bankLinkStatus = Healthy | Syncing | NeedsReauth | LinkError | Revoked

record bankLink =
  bl_id :: string
  bl_providerItemId :: string
  bl_institutionId :: "string option"
  bl_institutionName :: string
  bl_encryptedAccessToken :: string
  bl_cursor :: "string option"
  bl_status :: bankLinkStatus
  bl_errorCode :: "string option"
  bl_lastSyncedAt :: "string option"
  bl_createdAt :: string

text \<open>The key of the lease map is \<open>user:link\<close> in the code; a pair cannot collide.\<close>

record linkStore =
  ls_rows :: "bankLink buckets"
  ls_startedAt :: "(string \<times> string, int) jsmap"

definition link_list :: "linkStore \<Rightarrow> string \<Rightarrow> bankLink list" where
  "link_list s u = bucket (ls_rows s) u"

definition link_get :: "linkStore \<Rightarrow> string \<Rightarrow> string \<Rightarrow> bankLink option" where
  "link_get s u i = find_row bl_id (ls_rows s) u i"

definition getByProviderItemId :: "linkStore \<Rightarrow> string \<Rightarrow> (string \<times> bankLink) option" where
  "getByProviderItemId s item = (case List.map_filter (\<lambda>(u, rows).
       map_option (Pair u) (find (\<lambda>l. bl_providerItemId l = item) rows)) (ls_rows s) of [] \<Rightarrow> None | x # _ \<Rightarrow> Some x)"

definition link_create :: "linkStore \<Rightarrow> string \<Rightarrow> bankLink \<Rightarrow> linkStore" where
  "link_create s u l = s\<lparr>ls_rows := map_set u (bucket (ls_rows s) u @ [l]) (ls_rows s)\<rparr>"

text \<open>A patch is a function on the row that leaves the identifier; it ends the lease unless it sets \<open>syncing\<close>.\<close>

definition link_update :: "linkStore \<Rightarrow> string \<Rightarrow> string \<Rightarrow> bool \<Rightarrow> (bankLink \<Rightarrow> bankLink) \<Rightarrow> bankLink option \<times> linkStore" where
  "link_update s u i syncing patch = (let f = (\<lambda>l. (patch l)\<lparr>bl_id := i\<rparr>)
     in case find_row bl_id (ls_rows s) u i of
          None \<Rightarrow> (None, s)
        | Some l \<Rightarrow> (Some (f l), s\<lparr>ls_rows := map_set u (update_first (\<lambda>l. bl_id l = i) f (bucket (ls_rows s) u)) (ls_rows s),
            ls_startedAt := (if syncing then ls_startedAt s else map_delete (u, i) (ls_startedAt s))\<rparr>))"

definition SYNC_LEASE_MS :: int where "SYNC_LEASE_MS = 5 * 60000"

definition startSync :: "int \<Rightarrow> linkStore \<Rightarrow> string \<Rightarrow> string \<Rightarrow> bankLink option \<times> linkStore" where
  "startSync now s u i = (case link_get s u i of
     None \<Rightarrow> (None, s)
   | Some l \<Rightarrow>
       if bl_status l = Syncing \<and> (case map_of (ls_startedAt s) (u, i) of None \<Rightarrow> False | Some began \<Rightarrow> now - began < SYNC_LEASE_MS)
       then (None, s)
       else link_update (s\<lparr>ls_startedAt := map_set (u, i) now (ls_startedAt s)\<rparr>) u i True
              (\<lambda>l. l\<lparr>bl_status := Syncing, bl_errorCode := None\<rparr>))"

definition link_remove :: "linkStore \<Rightarrow> string \<Rightarrow> string \<Rightarrow> bool \<times> linkStore" where
  "link_remove s u i = (case drop_row bl_id (ls_rows s) u i of (removed, rows) \<Rightarrow>
     if removed then (True, s\<lparr>ls_rows := rows, ls_startedAt := map_delete (u, i) (ls_startedAt s)\<rparr>) else (False, s))"

definition link_purgeUser :: "linkStore \<Rightarrow> string \<Rightarrow> linkStore" where
  "link_purgeUser s u = s\<lparr>ls_rows := map_delete u (ls_rows s),
     ls_startedAt := filter (\<lambda>((v, _), _). v \<noteq> u) (ls_startedAt s)\<rparr>"

section \<open>Webhook jobs\<close>

datatype jobStatus = Pending | Processing | Completed | Failed

record webhookJob =
  wj_id :: string
  wj_userId :: string
  wj_linkId :: string
  wj_bodyHash :: string
  wj_attempts :: nat
  wj_availableAt :: int
  wj_status :: jobStatus
  wj_updatedAt :: int
  wj_createdAt :: int

type_synonym jobStore = "(string, webhookJob) jsmap"

definition DEDUPE_MS :: int where "DEDUPE_MS = 60 * 60000"
definition STALE_JOB_MS :: int where "STALE_JOB_MS = 5 * 60000"

definition enqueue :: "int \<Rightarrow> jobStore \<Rightarrow> webhookJob \<Rightarrow> bool \<times> jobStore" where
  "enqueue now s j =
     (if \<exists>existing \<in> set (map snd s). wj_bodyHash existing = wj_bodyHash j \<and> now - wj_createdAt existing < DEDUPE_MS
      then (False, s)
      else (True, map_set (wj_id j) (j\<lparr>wj_status := Pending, wj_updatedAt := now, wj_createdAt := now\<rparr>) s))"

definition claimable :: "int \<Rightarrow> webhookJob \<Rightarrow> bool" where
  "claimable now j \<longleftrightarrow> wj_status j = Pending \<and> wj_availableAt j \<le> now \<or>
     wj_status j = Processing \<and> wj_updatedAt j < now - STALE_JOB_MS"

definition claimed :: "int \<Rightarrow> webhookJob \<Rightarrow> webhookJob" where
  "claimed now j = j\<lparr>wj_status := Processing, wj_attempts := wj_attempts j + 1, wj_updatedAt := now\<rparr>"

definition claim_jobs :: "int \<Rightarrow> nat \<Rightarrow> jobStore \<Rightarrow> webhookJob list \<times> jobStore" where
  "claim_jobs now limit s =
     (let jobs = map (claimed now) (take (max 1 (min limit 100))
            (js_sort (\<lambda>a b. wj_availableAt a - wj_availableAt b) (filter (claimable now) (map snd s))))
      in (jobs, foldl (\<lambda>m j. map_set (wj_id j) j m) s jobs))"

definition job_patch :: "jobStore \<Rightarrow> string \<Rightarrow> string \<Rightarrow> (webhookJob \<Rightarrow> webhookJob) \<Rightarrow> jobStore" where
  "job_patch s u i f = (case map_of s i of None \<Rightarrow> s | Some j \<Rightarrow> if wj_userId j = u then map_set i (f j) s else s)"

definition complete_job :: "jobStore \<Rightarrow> string \<Rightarrow> string \<Rightarrow> jobStore" where
  "complete_job s u i = job_patch s u i (\<lambda>j. j\<lparr>wj_status := Completed\<rparr>)"

definition retry_job :: "int \<Rightarrow> jobStore \<Rightarrow> string \<Rightarrow> string \<Rightarrow> int \<Rightarrow> bool \<Rightarrow> jobStore" where
  "retry_job now s u i availableAt terminal = job_patch s u i (\<lambda>j. j\<lparr>
     wj_status := (if terminal then Failed else Pending), wj_availableAt := availableAt, wj_updatedAt := now\<rparr>)"

definition purgeLink :: "jobStore \<Rightarrow> string \<Rightarrow> string \<Rightarrow> jobStore" where
  "purgeLink s u link = filter (\<lambda>(_, j). \<not> (wj_userId j = u \<and> wj_linkId j = link)) s"

definition job_purgeUser :: "jobStore \<Rightarrow> string \<Rightarrow> jobStore" where
  "job_purgeUser s u = filter (\<lambda>(_, j). wj_userId j \<noteq> u) s"

section \<open>Facts about the links\<close>

lemma link_get_update:
  assumes "link_get s u i = Some l"
  shows "link_get (snd (link_update s u i b f)) u i = Some ((f l)\<lparr>bl_id := i\<rparr>)"
proof -
  have "find (\<lambda>r. bl_id r = i) (update_first (\<lambda>r. bl_id r = i) (\<lambda>r. (f r)\<lparr>bl_id := i\<rparr>) rows) =
      map_option (\<lambda>r. (f r)\<lparr>bl_id := i\<rparr>) (find (\<lambda>r. bl_id r = i) rows)" for rows
    by (induction rows) auto
  with assms show ?thesis by (simp add: link_get_def link_update_def find_row_def Let_def)
qed

lemma link_get_update_other:
  assumes "v \<noteq> u \<or> j \<noteq> i"
  shows "link_get (snd (link_update s u i b f)) v j = link_get s v j"
proof -
  have "find (\<lambda>r. bl_id r = j) (update_first (\<lambda>r. bl_id r = i) (\<lambda>r. (f r)\<lparr>bl_id := i\<rparr>) rows) = find (\<lambda>r. bl_id r = j) rows"
    if "j \<noteq> i" for rows
    using that by (intro find_update_first_other) auto
  with assms show ?thesis
    by (auto simp: link_get_def link_update_def find_row_def Let_def split: option.split)
qed

lemma link_update_absent: "link_get s u i = None \<Longrightarrow> link_update s u i b f = (None, s)"
  by (simp add: link_get_def link_update_def Let_def)

lemma startSync_get:
  "fst (startSync now s u i) = Some l \<Longrightarrow> \<exists>old. link_get s u i = Some old \<and> l = old\<lparr>bl_status := Syncing, bl_errorCode := None, bl_id := i\<rparr>"
  by (auto simp: startSync_def link_update_def link_get_def find_row_def Let_def split: option.splits if_splits)

end
