(* ===== verification/BankSync.thy ===== *)
theory BankSync
  imports BankLinks Notifications Transfers BillingService
begin

text \<open>
  Banking, \<open>modules/banking/banking.service.ts\<close>, with the revocation before an account is deleted
  (\<open>infra/banking/account-revoker.ts\<close>). The provider is a record of functions; as it may answer the same request
  differently each time, \<open>bk_sync\<close> is given the number of the request within the synchronization. An error is the
  code the service reads off it (\<open>plaidErrorCode\<close>), for a token exchange with its message; a function that throws
  without a result answers None.
\<close>

section \<open>Provider and state\<close>

record bankPage =
  pg_accounts :: "account list"
  pg_added :: "rawTransaction list"
  pg_modified :: "rawTransaction list"
  pg_removedProviderTxnIds :: "string list"
  pg_nextCursor :: string
  pg_hasMore :: bool

record bankProvider =
  bk_configured :: bool
  bk_exchange :: "string \<Rightarrow> (string \<times> string) + string \<times> string"
  bk_listAccounts :: "(string \<Rightarrow> account list option) option"
  bk_sync :: "nat \<Rightarrow> string \<Rightarrow> string option \<Rightarrow> string + bankPage"
  bk_verify :: "string \<Rightarrow> string \<Rightarrow> bool"
  bk_removeItem :: "string \<Rightarrow> string option"
  bk_encrypt :: "string \<Rightarrow> string"
  bk_decrypt :: "string \<Rightarrow> string option"

record bankState =
  bs_links :: linkStore
  bs_jobs :: jobStore
  bs_ledger :: ledgerState
  bs_centre :: centre

definition PROVIDER_ERROR :: string where "PROVIDER_ERROR = ''PROVIDER_ERROR''"

section \<open>Rows of the provider\<close>

definition mapTransaction :: "regex_engine \<Rightarrow> categorizeOptions \<Rightarrow> rawTransaction \<Rightarrow> transaction" where
  "mapTransaction engine options raw = toTransaction raw (categorizeDescriptor engine (rt_descriptor raw) options)"

record syncCounts =
  sc_fetched :: nat
  sc_inserted :: nat
  sc_updated :: nat
  sc_removed :: nat
  sc_categorized :: nat

definition no_counts :: syncCounts where
  "no_counts = \<lparr>sc_fetched = 0, sc_inserted = 0, sc_updated = 0, sc_removed = 0, sc_categorized = 0\<rparr>"

text \<open>One page: accounts, rows added and modified, rows removed.\<close>

definition store_page ::
    "regex_engine \<Rightarrow> categorizeOptions \<Rightarrow> string \<Rightarrow> bankPage \<Rightarrow> syncCounts \<Rightarrow> ledgerState \<Rightarrow> syncCounts \<times> ledgerState" where
  "store_page engine options u page c s =
     (let raw = pg_added page @ pg_modified page;
          mapped = map (mapTransaction engine options) raw
      in case txn_upsertMany (ld_transactions s) u mapped of ((inserted, updated), store) \<Rightarrow>
           (case txn_removeByProviderIds store u (pg_removedProviderTxnIds page) of (removed, store') \<Rightarrow>
             (\<lparr>sc_fetched = sc_fetched c + length raw, sc_inserted = sc_inserted c + inserted,
               sc_updated = sc_updated c + updated, sc_removed = sc_removed c + removed,
               sc_categorized = sc_categorized c + length (filter (\<lambda>t. tx_categorySlug t \<noteq> ''unknown'') mapped)\<rparr>,
              s\<lparr>ld_accounts := acc_upsertMany (ld_accounts s) u (pg_accounts page), ld_transactions := store'\<rparr>)))"

definition MAX_MUTATION_RETRIES :: nat where "MAX_MUTATION_RETRIES = 3"
definition MAX_PAGES :: nat where "MAX_PAGES = 100"
definition MUTATED :: string where "MUTATED = ''TRANSACTIONS_SYNC_MUTATION_DURING_PAGINATION''"

text \<open>
  The loop over the pages; \<open>k\<close> numbers the requests. When the provider changed its data during the pagination the
  cycle starts again from the first cursor, at most three times.
\<close>

record pulled =
  pu_cursor :: "string option"
  pu_counts :: syncCounts
  pu_requests :: nat

function pull ::
    "regex_engine \<Rightarrow> categorizeOptions \<Rightarrow> bankProvider \<Rightarrow> string \<Rightarrow> string \<Rightarrow> string option \<Rightarrow> nat \<Rightarrow> nat \<Rightarrow> nat \<Rightarrow>
      string option \<Rightarrow> syncCounts \<Rightarrow> ledgerState \<Rightarrow> (string + pulled) \<times> ledgerState" where
  "pull engine options p u token startingCursor k retries page cursor c s =
     (if page \<ge> MAX_PAGES then (Inr \<lparr>pu_cursor = cursor, pu_counts = c, pu_requests = k\<rparr>, s)
      else case bk_sync p k token cursor of
        Inl err \<Rightarrow>
          if err = MUTATED \<and> retries < MAX_MUTATION_RETRIES
          then pull engine options p u token startingCursor (k + 1) (retries + 1) 0 startingCursor no_counts s
          else (Inl err, s)
      | Inr answer \<Rightarrow> (case store_page engine options u answer c s of (c', s') \<Rightarrow>
          if \<not> pg_hasMore answer then (Inr \<lparr>pu_cursor = Some (pg_nextCursor answer), pu_counts = c', pu_requests = k + 1\<rparr>, s')
          else if page + 1 = MAX_PAGES then (Inl PROVIDER_ERROR, s')
          else pull engine options p u token startingCursor (k + 1) retries (page + 1) (Some (pg_nextCursor answer)) c' s'))"
  by pat_completeness auto
termination
  by (relation "measures [\<lambda>(_, _, _, _, _, _, _, retries, _). MAX_MUTATION_RETRIES - retries,
    \<lambda>(_, _, _, _, _, _, _, _, page, _). MAX_PAGES - page]") auto

declare pull.simps [simp del]

section \<open>Derived state\<close>

definition RECONCILE_DAYS :: int where "RECONCILE_DAYS = 45"

definition pair_transfer :: "string \<Rightarrow> transaction list \<Rightarrow> nat \<times> transactionStore \<Rightarrow> string \<Rightarrow> nat \<times> transactionStore" where
  "pair_transfer u recent acc i = (case acc of (updated, store) \<Rightarrow>
     (case find (\<lambda>t. tx_id t = i) (rev recent) of
        None \<Rightarrow> acc
      | Some t \<Rightarrow>
          if isUserCategorised t \<or> tx_categorySlug t = ''transfer'' then acc
          else (updated + 1, snd (txn_update store u i (\<lambda>t. t\<lparr>tx_categorySlug := ''transfer'',
             tx_categorySource := TransferPairing, tx_categoryConfidence := fl (95 / 100)\<rparr>)))))"

definition reconcileInternalTransfers :: "ledgerEnv \<Rightarrow> string \<Rightarrow> transactionStore \<Rightarrow> (nat \<times> transactionStore) option" where
  "reconcileInternalTransfers env u store =
     map_option (\<lambda>since.
       let recent = txn_list (en_localeCompare env) store u
             (allTransactions\<lparr>tq_range := Some \<lparr>dr_start = since, dr_end = en_today env\<rparr>\<rparr>);
           pairs = detectInternalTransfers (en_localeCompare env) recent None
       in if pairs = [] then (0, store) else foldl (pair_transfer u recent) (0, store) (internalTransferIds pairs))
     (addDays (en_today env) (- RECONCILE_DAYS))"

definition flag_recurring :: "string \<Rightarrow> string list \<Rightarrow> nat \<times> transactionStore \<Rightarrow> transaction \<Rightarrow> nat \<times> transactionStore" where
  "flag_recurring u recurringIds acc t = (case acc of (updated, store) \<Rightarrow>
     let shouldBeRecurring = (tx_id t \<in> set recurringIds)
     in if tx_recurringOverride t \<noteq> None \<or> tx_isRecurring t = shouldBeRecurring then acc
        else (updated + 1, snd (txn_update store u (tx_id t) (\<lambda>t. t\<lparr>tx_isRecurring := shouldBeRecurring\<rparr>))))"

definition reconcileRecurring :: "ledgerEnv \<Rightarrow> string \<Rightarrow> transactionStore \<Rightarrow> (nat \<times> transactionStore) option" where
  "reconcileRecurring env u store = (let rows = list_all_of env store u
     in map_option (\<lambda>subs. foldl (flag_recurring u (concat (map ds_transactionIds subs))) (0, store) rows)
          (detectSubscriptions (en_localeCompare env) rows))"

section \<open>A synchronization\<close>

datatype bankError = NotConfigured | NoConnection | InvalidPublicToken | PlanUpgradeRequired int | SyncInProgress
  | SyncFailed string | ProviderFailed string | BadSignature | BadJson | RevokeFailed string | TokenUnreadable

record bankSyncResult =
  br_fetched :: nat
  br_inserted :: nat
  br_updated :: nat
  br_removed :: nat
  br_transfersDetected :: nat
  br_recurringDetected :: nat
  br_coverage :: rat

definition notifySyncFailure :: "(nat \<Rightarrow> string) \<Rightarrow> ledgerEnv \<Rightarrow> string \<Rightarrow> bankLink \<Rightarrow> string \<Rightarrow> centre \<Rightarrow> centre" where
  "notifySyncFailure uuid env u link err s =
     (if \<not> np_bankSync (getPreferences (nc_store s) u) then s
      else let reauth = (err = ''ITEM_LOGIN_REQUIRED'')
        in snd (create_notification u
          \<lparr>no_id = uuid (nc_drawn s), no_kind = NBankSync,
           no_title = (if reauth then ''Reconnect your bank'' else ''Bank sync needs attention''),
           no_message = bl_institutionName link @ (if reauth
             then '' needs you to sign in again before transactions can update.''
             else '' could not update. FINVERSE will retry automatically.''),
           no_severity = (if reauth then Critical else Warning),
           no_dedupeKey = ''bank-sync:'' @ bl_id link @ '':'' @ en_today env @ '':'' @ err,
           no_readAt = None, no_createdAt = en_now env\<rparr> (s\<lparr>nc_drawn := nc_drawn s + 1\<rparr>)))"

definition bank_events :: "ledgerEnv \<Rightarrow> string \<Rightarrow> string \<Rightarrow> bankSyncResult \<Rightarrow> financeEvent list" where
  "bank_events env u linkId r =
     [(newEvent BankSyncCompleted u (en_now env))\<lparr>fe_linkId := Some linkId, fe_fetched := Some (br_fetched r),
        fe_inserted := Some (br_inserted r), fe_updated := Some (br_updated r), fe_removed := Some (br_removed r)\<rparr>] @
     (if br_inserted r > 0
      then [(newEvent TransactionImported u (en_now env))\<lparr>fe_linkId := Some linkId, fe_inserted := Some (br_inserted r)\<rparr>]
      else []) @
     (if br_updated r > 0 \<or> br_removed r > 0
      then [(newEvent TransactionUpdated u (en_now env))\<lparr>fe_linkId := Some linkId, fe_updated := Some (br_updated r),
              fe_removed := Some (br_removed r)\<rparr>] else [])"

definition set_ledger :: "ledgerState \<Rightarrow> bankState \<Rightarrow> bankState" where
  "set_ledger l s = s\<lparr>bs_ledger := l\<rparr>"

definition set_transactions :: "transactionStore \<Rightarrow> bankState \<Rightarrow> bankState" where
  "set_transactions t s = s\<lparr>bs_ledger := (bs_ledger s)\<lparr>ld_transactions := t\<rparr>\<rparr>"

text \<open>What runs once every page is stored. None is a thrown date error; what was stored before it stays.\<close>

definition finish_sync ::
    "ledgerEnv \<Rightarrow> string \<Rightarrow> string \<Rightarrow> pulled \<Rightarrow> bankState \<Rightarrow> bankSyncResult option \<times> bankState" where
  "finish_sync env u linkId got s =
     (let s1 = s\<lparr>bs_links := snd (link_update (bs_links s) u linkId False (\<lambda>l. l\<lparr>bl_cursor := pu_cursor got,
            bl_status := Healthy, bl_errorCode := None, bl_lastSyncedAt := Some (en_now env)\<rparr>))\<rparr>;
          c = pu_counts got
      in case reconcileInternalTransfers env u (ld_transactions (bs_ledger s1)) of
           None \<Rightarrow> (None, s1)
         | Some (transfers, store) \<Rightarrow> (let s2 = set_transactions store s1
             in case reconcileRecurring env u store of
                  None \<Rightarrow> (None, s2)
                | Some (recurring, store') \<Rightarrow> (let l = bs_ledger s2;
                    result = \<lparr>br_fetched = sc_fetched c, br_inserted = sc_inserted c, br_updated = sc_updated c,
                      br_removed = sc_removed c, br_transfersDetected = transfers, br_recurringDetected = recurring,
                      br_coverage = (if sc_fetched c = 0 then 1 else fl (of_nat (sc_categorized c) / of_nat (sc_fetched c)))\<rparr>
                    in (Some result, s2\<lparr>bs_ledger := l\<lparr>ld_transactions := store',
                          ld_accounts := snd (recordNetWorthSnapshot (en_localeCompare env) (ld_accounts l) u (en_today env)),
                          ld_events := ld_events l @ bank_events env u linkId result\<rparr>\<rparr>))))"

definition sync_failed :: "(nat \<Rightarrow> string) \<Rightarrow> ledgerEnv \<Rightarrow> string \<Rightarrow> bankLink \<Rightarrow> string \<Rightarrow> bankState \<Rightarrow> bankState" where
  "sync_failed uuid env u link err s =
     s\<lparr>bs_links := snd (link_update (bs_links s) u (bl_id link) False (\<lambda>l. l\<lparr>
         bl_status := (if err = ''ITEM_LOGIN_REQUIRED'' then NeedsReauth else LinkError), bl_errorCode := Some err\<rparr>)),
       bs_centre := notifySyncFailure uuid env u link err (bs_centre s)\<rparr>"

definition refresh_accounts :: "bankProvider \<Rightarrow> string \<Rightarrow> string \<Rightarrow> ledgerState \<Rightarrow> ledgerState" where
  "refresh_accounts p u token l = (case bk_listAccounts p of
     None \<Rightarrow> l
   | Some f \<Rightarrow> (case f token of None \<Rightarrow> l | Some accounts \<Rightarrow> l\<lparr>ld_accounts := acc_upsertMany (ld_accounts l) u accounts\<rparr>))"

definition bank_sync ::
    "(nat \<Rightarrow> string) \<Rightarrow> ledgerEnv \<Rightarrow> int \<Rightarrow> bankProvider \<Rightarrow> string \<Rightarrow> string \<Rightarrow> bankState \<Rightarrow> (bankError + bankSyncResult) \<times> bankState" where
  "bank_sync uuid env now p u linkId s =
     (if \<not> bk_configured p then (Inl NotConfigured, s)
      else case link_get (bs_links s) u linkId of
        None \<Rightarrow> (Inl NoConnection, s)
      | Some _ \<Rightarrow> (case startSync now (bs_links s) u linkId of
          (None, links) \<Rightarrow> (Inl SyncInProgress, s\<lparr>bs_links := links\<rparr>)
        | (Some link, links) \<Rightarrow>
            let s1 = s\<lparr>bs_links := links\<rparr>
            in case bk_decrypt p (bl_encryptedAccessToken link) of
                 None \<Rightarrow> (Inl (SyncFailed PROVIDER_ERROR), sync_failed uuid env u link PROVIDER_ERROR s1)
               | Some token \<Rightarrow>
                   let s2 = set_ledger (refresh_accounts p u token (bs_ledger s1)) s1;
                       options = sync_options env (bs_ledger s2) u
                   in case pull (en_regex env) options p u token (bl_cursor link) 0 0 0 (bl_cursor link) no_counts (bs_ledger s2) of
                        (Inl err, l) \<Rightarrow> (Inl (SyncFailed err), sync_failed uuid env u link err (set_ledger l s2))
                      | (Inr got, l) \<Rightarrow> (case finish_sync env u linkId got (set_ledger l s2) of
                            (None, s3) \<Rightarrow> (Inl (SyncFailed PROVIDER_ERROR), sync_failed uuid env u link PROVIDER_ERROR s3)
                          | (Some result, s3) \<Rightarrow> (Inr result, s3))))"

end
