(* ===== verification/Banking.thy ===== *)
theory Banking
  imports BankSync
begin

text \<open>
  The requests of the banking service around a synchronization: connecting, disconnecting, webhooks and their queue,
  and the revocation of every connection before an account is deleted (\<open>infra/banking/account-revoker.ts\<close>).
\<close>

section \<open>Connecting\<close>

definition connected_links :: "linkStore \<Rightarrow> string \<Rightarrow> bankLink list" where
  "connected_links s u = filter (\<lambda>l. bl_status l \<noteq> Revoked) (link_list s u)"

text \<open>An error is its code and its message; the wording of the answer is left out.\<close>

definition provider_failure :: "string \<times> string \<Rightarrow> bankError" where
  "provider_failure = (\<lambda>(err, message).
     if err = ''INVALID_FIELD'' \<or> startsWith message ''PLAID_IOS_REDIRECT_URI'' then ProviderFailed ''PLAID_CONFIGURATION''
      else if err = ''INVALID_PUBLIC_TOKEN'' then InvalidPublicToken else ProviderFailed err)"

text \<open>The token an update of a connection is started with; a revoked connection starts afresh.\<close>

definition link_token ::
    "bankProvider \<Rightarrow> (string option \<Rightarrow> (string \<times> string) + string) \<Rightarrow> linkStore \<Rightarrow> string \<Rightarrow> string option \<Rightarrow> bankError + string" where
  "link_token p createLinkToken s u linkId =
     (if \<not> bk_configured p then Inl NotConfigured
      else let fresh = (\<lambda>accessToken. case createLinkToken accessToken of Inl err \<Rightarrow> Inl (provider_failure err) | Inr t \<Rightarrow> Inr t)
        in if \<not> truthy linkId then fresh None
           else case link_get s u (the linkId) of
             None \<Rightarrow> Inl NoConnection
           | Some l \<Rightarrow>
               if bl_status l = Revoked then fresh None
               else (case bk_decrypt p (bl_encryptedAccessToken l) of None \<Rightarrow> Inl TokenUnreadable | Some t \<Rightarrow> fresh (Some t)))"

definition new_link :: "bankProvider \<Rightarrow> ledgerEnv \<Rightarrow> string \<Rightarrow> string \<Rightarrow> string \<Rightarrow> string \<Rightarrow> string option \<Rightarrow> bankLink" where
  "new_link p env i itemId accessToken institutionName institutionId =
     \<lparr>bl_id = i, bl_providerItemId = itemId, bl_institutionId = institutionId,
      bl_institutionName = (let name = take 160 (trim institutionName) in if name = [] then ''Connected institution'' else name),
      bl_encryptedAccessToken = bk_encrypt p accessToken, bl_cursor = None, bl_status = Healthy, bl_errorCode = None,
      bl_lastSyncedAt = None, bl_createdAt = en_now env\<rparr>"

text \<open>\<open>remaining\<close> is what the plan of the user still allows (\<open>BillingService.remainingBankLinks\<close>).\<close>

definition exchange ::
    "(nat \<Rightarrow> string) \<Rightarrow> ledgerEnv \<Rightarrow> int \<Rightarrow> bankProvider \<Rightarrow> (int \<Rightarrow> int) \<Rightarrow> string \<Rightarrow> string \<Rightarrow> string \<Rightarrow> string option \<Rightarrow>
      string \<Rightarrow> bankState \<Rightarrow> (bankError + bankLink option) \<times> bankState" where
  "exchange uuid env now p remaining u publicToken institutionName institutionId linkId s =
     (if \<not> bk_configured p then (Inl NotConfigured, s)
      else if publicToken = [] \<or> length publicToken > 500 then (Inl InvalidPublicToken, s)
      else let connected = int (length (connected_links (bs_links s) u))
        in if remaining connected \<le> 0 then (Inl (PlanUpgradeRequired connected), s)
           else case bk_exchange p publicToken of
             Inl err \<Rightarrow> (Inl (provider_failure err), s)
           | Inr (accessToken, itemId) \<Rightarrow>
               let link = new_link p env linkId itemId accessToken institutionName institutionId;
                   s1 = s\<lparr>bs_links := link_create (bs_links s) u link\<rparr>;
                   s2 = snd (bank_sync uuid env now p u linkId s1);
                   s3 = s2\<lparr>bs_ledger := emit ((newEvent AccountConnected u (en_now env))\<lparr>fe_linkId := Some linkId\<rparr>) (bs_ledger s2)\<rparr>
               in (Inr (link_get (bs_links s3) u linkId), s3))"

definition disconnect :: "ledgerEnv \<Rightarrow> bankProvider \<Rightarrow> string \<Rightarrow> string \<Rightarrow> bankState \<Rightarrow> (bankError + unit) \<times> bankState" where
  "disconnect env p u linkId s =
     (if \<not> bk_configured p then (Inl NotConfigured, s)
      else case link_get (bs_links s) u linkId of
        None \<Rightarrow> (Inl NoConnection, s)
      | Some l \<Rightarrow>
          let failure = (case bk_decrypt p (bl_encryptedAccessToken l) of
                None \<Rightarrow> Some PROVIDER_ERROR | Some token \<Rightarrow> bk_removeItem p token)
          in (case failure of
                Some err \<Rightarrow> if err \<noteq> ''ITEM_NOT_FOUND'' then (Inl (RevokeFailed err), s) else
                  (Inr (), s\<lparr>bs_jobs := purgeLink (bs_jobs s) u linkId, bs_links := snd (link_remove (bs_links s) u linkId),
                     bs_ledger := emit ((newEvent AccountDisconnected u (en_now env))\<lparr>fe_linkId := Some linkId\<rparr>) (bs_ledger s)\<rparr>)
              | None \<Rightarrow>
                  (Inr (), s\<lparr>bs_jobs := purgeLink (bs_jobs s) u linkId, bs_links := snd (link_remove (bs_links s) u linkId),
                     bs_ledger := emit ((newEvent AccountDisconnected u (en_now env))\<lparr>fe_linkId := Some linkId\<rparr>) (bs_ledger s)\<rparr>)))"

section \<open>Webhooks\<close>

text \<open>
  The three fields read from the body, each None when it is not a string; \<open>parse\<close> is \<open>JSON.parse\<close> and None a body
  that is not JSON. A body that is the JSON value null, on which the code throws, is left out.
\<close>

record webhookMessage =
  wm_itemId :: "string option"
  wm_type :: "string option"
  wm_code :: "string option"

definition acceptWebhook ::
    "(string \<Rightarrow> webhookMessage option) \<Rightarrow> (string \<Rightarrow> string) \<Rightarrow> int \<Rightarrow> string \<Rightarrow> bankProvider \<Rightarrow> string \<Rightarrow> string \<Rightarrow> bankState \<Rightarrow>
      (bankError + bool) \<times> bankState" where
  "acceptWebhook parse digest now jobId p rawBody signature s =
     (if \<not> bk_configured p then (Inl NotConfigured, s)
      else if \<not> bk_verify p rawBody signature then (Inl BadSignature, s)
      else case parse rawBody of
        None \<Rightarrow> (Inl BadJson, s)
      | Some m \<Rightarrow>
          if \<not> truthy (wm_itemId m) \<or> wm_type m \<noteq> Some ''TRANSACTIONS'' \<or> wm_code m \<noteq> Some ''SYNC_UPDATES_AVAILABLE''
          then (Inr False, s)
          else (case getByProviderItemId (bs_links s) (the (wm_itemId m)) of
              None \<Rightarrow> (Inr False, s)
            | Some (owner, link) \<Rightarrow>
                (case enqueue now (bs_jobs s) \<lparr>wj_id = jobId, wj_userId = owner, wj_linkId = bl_id link,
                     wj_bodyHash = digest rawBody, wj_attempts = 0, wj_availableAt = now, wj_status = Pending,
                     wj_updatedAt = now, wj_createdAt = now\<rparr> of
                   (queued, jobs) \<Rightarrow> (Inr queued, s\<lparr>bs_jobs := jobs\<rparr>))))"

definition MAX_ATTEMPTS :: nat where "MAX_ATTEMPTS = 5"

definition retry_delay :: "nat \<Rightarrow> int" where
  "retry_delay attempts = min (60 * 60000) (30000 * 2 ^ (attempts - 1))"

definition drain_job :: "(nat \<Rightarrow> string) \<Rightarrow> ledgerEnv \<Rightarrow> int \<Rightarrow> bankProvider \<Rightarrow> bankState \<Rightarrow> webhookJob \<Rightarrow> bankState" where
  "drain_job uuid env now p s job =
     (case bank_sync uuid env now p (wj_userId job) (wj_linkId job) s of
        (Inr _, s') \<Rightarrow> s'\<lparr>bs_jobs := complete_job (bs_jobs s') (wj_userId job) (wj_id job)\<rparr>
      | (Inl _, s') \<Rightarrow> s'\<lparr>bs_jobs := retry_job now (bs_jobs s') (wj_userId job) (wj_id job)
          (now + retry_delay (wj_attempts job)) (wj_attempts job \<ge> MAX_ATTEMPTS)\<rparr>)"

text \<open>
  One run of the queue. The flag \<open>drainingWebhooks\<close> keeps two runs from overlapping, so runs are steps one after
  the other; the run a full batch schedules is another step.
\<close>

definition drainWebhookQueue :: "(nat \<Rightarrow> string) \<Rightarrow> ledgerEnv \<Rightarrow> int \<Rightarrow> bankProvider \<Rightarrow> bankState \<Rightarrow> bankState" where
  "drainWebhookQueue uuid env now p s =
     (if \<not> bk_configured p then s
      else case claim_jobs now 10 (bs_jobs s) of (jobs, store) \<Rightarrow>
        foldl (drain_job uuid env now p) (s\<lparr>bs_jobs := store\<rparr>) jobs)"

section \<open>Revocation\<close>

datatype revocationError = ProviderUnavailable | UnreadableConnection | NotRevoked

fun revoke_links :: "bankProvider \<Rightarrow> string \<Rightarrow> bankLink list \<Rightarrow> nat \<Rightarrow> linkStore \<times> jobStore \<Rightarrow> (revocationError + nat) \<times> linkStore \<times> jobStore" where
  "revoke_links p u [] revoked st = (Inr revoked, st)"
| "revoke_links p u (l # ls) revoked (links, jobs) = (case bk_decrypt p (bl_encryptedAccessToken l) of
     None \<Rightarrow> (Inl UnreadableConnection, (links, jobs))
   | Some token \<Rightarrow>
       (case bk_removeItem p token of
          Some err \<Rightarrow> if err \<noteq> ''ITEM_NOT_FOUND'' then (Inl NotRevoked, (links, jobs)) else
            revoke_links p u ls (revoked + 1) (snd (link_update links u (bl_id l) False (\<lambda>l. l\<lparr>bl_status := Revoked,
              bl_errorCode := None, bl_cursor := None\<rparr>)), purgeLink jobs u (bl_id l))
        | None \<Rightarrow>
            revoke_links p u ls (revoked + 1) (snd (link_update links u (bl_id l) False (\<lambda>l. l\<lparr>bl_status := Revoked,
              bl_errorCode := None, bl_cursor := None\<rparr>)), purgeLink jobs u (bl_id l))))"

definition revokeAll :: "bankProvider \<Rightarrow> string \<Rightarrow> linkStore \<times> jobStore \<Rightarrow> (revocationError + nat) \<times> linkStore \<times> jobStore" where
  "revokeAll p u st = (let active = connected_links (fst st) u
     in if active = [] then (Inr 0, st)
        else if \<not> bk_configured p then (Inl ProviderUnavailable, st)
        else revoke_links p u active 0 st)"

end
