(* ===== verification/BankingSafety.thy ===== *)
theory BankingSafety
  imports Banking LedgerSafety
begin

text \<open>
  What the synchronization with a bank guarantees: it ends after a bounded number of requests, it leaves the categories
  chosen by hand alone, and what becomes of a backlog that is too long for one run.
\<close>

section \<open>The loop over the pages ends\<close>

lemma pull_requests:
  "page \<le> MAX_PAGES \<Longrightarrow> retries \<le> MAX_MUTATION_RETRIES \<Longrightarrow>
   pull engine options p u token first k retries page cursor c s = (Inr got, s') \<Longrightarrow>
   pu_requests got \<le> k + (MAX_MUTATION_RETRIES - retries) * MAX_PAGES + (MAX_PAGES - page)"
proof (induction engine options p u token first k retries page cursor c s rule: pull.induct)
  case (1 engine options p u token first k retries page cursor c s)
  consider (over) "page \<ge> MAX_PAGES"
    | (again) "page < MAX_PAGES" "bk_sync p k token cursor = Inl MUTATED" "retries < MAX_MUTATION_RETRIES"
    | (failed) err where "page < MAX_PAGES" "bk_sync p k token cursor = Inl err" "\<not> (err = MUTATED \<and> retries < MAX_MUTATION_RETRIES)"
    | (stored) answer c' t where "page < MAX_PAGES" "bk_sync p k token cursor = Inr answer"
        "store_page engine options u answer c s = (c', t)"
    by (metis not_le sumE surj_pair)
  then show ?case
  proof cases
    case again
    with 1 have "pu_requests got \<le> (k + 1) + (MAX_MUTATION_RETRIES - (retries + 1)) * MAX_PAGES + (MAX_PAGES - 0)"
      by (simp add: pull.simps [of _ _ _ _ _ _ k])
    moreover have "(MAX_MUTATION_RETRIES - retries) * MAX_PAGES = (MAX_MUTATION_RETRIES - (retries + 1)) * MAX_PAGES + MAX_PAGES"
    proof -
      have "MAX_MUTATION_RETRIES - retries = Suc (MAX_MUTATION_RETRIES - (retries + 1))" using again(3) by simp
      then show ?thesis by simp
    qed
    ultimately show ?thesis using again(1) by linarith
  next
    case stored
    show ?thesis
    proof (cases "pg_hasMore answer")
      case True
      with stored 1 have "pu_requests got \<le> (k + 1) + (MAX_MUTATION_RETRIES - retries) * MAX_PAGES + (MAX_PAGES - (page + 1))"
        by (simp add: pull.simps [of _ _ _ _ _ _ k] split: if_splits)
      with stored(1) show ?thesis by linarith
    next
      case False
      with stored 1 show ?thesis by (auto simp: pull.simps [of _ _ _ _ _ _ k])
    qed
  qed (use 1 in \<open>auto simp: pull.simps [of _ _ _ _ _ _ k]\<close>)
qed

text \<open>
  A synchronization asks the provider for at most four hundred pages, however often the data change under it.
\<close>

lemma sync_is_bounded:
  assumes "pull engine options p u token cursor 0 0 0 cursor no_counts s = (Inr got, s')"
  shows "pu_requests got \<le> 400"
  using pull_requests [OF _ _ assms] by (simp add: MAX_PAGES_def MAX_MUTATION_RETRIES_def)

section \<open>A connection to look at\<close>

text \<open>One connection of one user, with a row the user categorized; the bank sends that row again, with a new amount.\<close>

definition bank_env :: ledgerEnv where
  "bank_env = \<lparr>en_localeCompare = code_unit_compare, en_regex = \<lambda>_ _. None, en_today = ''2026-03-10'',
     en_now = ''2026-03-10T00:00:00.000Z'', en_millis = 1000, en_uuid = ''a1'',
     en_listAccounts = \<lambda>_. [], en_fetch = \<lambda>_. []\<rparr>"

definition bank_page :: bankPage where
  "bank_page = \<lparr>pg_accounts = [], pg_added = [], pg_modified = [\<lparr>rt_providerTxnId = ''p1'', rt_accountId = ''a1'',
     rt_postedAt = ''2026-03-02'', rt_amount = -700, rt_currency = ''USD'', rt_descriptor = ''CAFE'', rt_pending = False\<rparr>],
     pg_removedProviderTxnIds = [], pg_nextCursor = ''c1'', pg_hasMore = False\<rparr>"

definition bank_provider :: bankProvider where
  "bank_provider = \<lparr>bk_configured = True, bk_exchange = \<lambda>_. Inr (''token'', ''item''), bk_listAccounts = None,
     bk_sync = \<lambda>_ _ _. Inr bank_page, bk_verify = \<lambda>_ _. True, bk_removeItem = \<lambda>_. None,
     bk_encrypt = \<lambda>t. t, bk_decrypt = Some\<rparr>"

definition bank_link :: bankLink where
  "bank_link = \<lparr>bl_id = ''l1'', bl_providerItemId = ''item'', bl_institutionId = None, bl_institutionName = ''Bank'',
     bl_encryptedAccessToken = ''token'', bl_cursor = Some ''c0'', bl_status = Healthy, bl_errorCode = None,
     bl_lastSyncedAt = None, bl_createdAt = ''2026-03-01T00:00:00.000Z''\<rparr>"

definition bank_start :: bankState where
  "bank_start = \<lparr>bs_links = \<lparr>ls_rows = [(''u'', [bank_link])], ls_startedAt = []\<rparr>, bs_jobs = [],
     bs_ledger = \<lparr>ld_accounts = \<lparr>as_accounts = [], as_snapshots = []\<rparr>, ld_transactions = [(''u'', [demo_row])],
       ld_rules = [], ld_events = []\<rparr>,
     bs_centre = \<lparr>nc_store = \<lparr>ns_rows = [], ns_preferences = []\<rparr>, nc_pushed = [], nc_drawn = 0\<rparr>\<rparr>"

abbreviation "bank_uuid n \<equiv> replicate n CHR ''n''"

section \<open>A backlog of more than a hundred pages\<close>

definition endless :: "bankProvider \<Rightarrow> string \<Rightarrow> bool" where
  "endless p token \<longleftrightarrow> (\<forall>k < MAX_PAGES. \<forall>c. case bk_sync p k token c of Inl _ \<Rightarrow> False | Inr answer \<Rightarrow> pg_hasMore answer)"

lemma pull_endless:
  "endless p token \<Longrightarrow> k < MAX_PAGES \<Longrightarrow>
   fst (pull engine options p u token first k retries k cursor c s) = Inl PROVIDER_ERROR"
proof (induction "MAX_PAGES - k" arbitrary: k cursor c s)
  case (Suc n)
  have "case bk_sync p k token cursor of Inl _ \<Rightarrow> False | Inr answer \<Rightarrow> pg_hasMore answer"
    using Suc.prems by (simp add: endless_def)
  then obtain answer where a: "bk_sync p k token cursor = Inr answer" "pg_hasMore answer"
    by (cases "bk_sync p k token cursor") auto
  obtain c' t where st: "store_page engine options u answer c s = (c', t)" by force
  show ?case
  proof (cases "k + 1 = MAX_PAGES")
    case True
    with a st show ?thesis by (simp add: pull.simps [of _ _ _ _ _ _ k])
  next
    case False
    with Suc.prems have "k + 1 < MAX_PAGES" by simp
    with Suc.hyps(1) [of "k + 1"] Suc.hyps(2) Suc.prems a st False show ?thesis
      by (simp add: pull.simps [of _ _ _ _ _ _ k])
  qed
qed simp

lemma cursor_kept:
  assumes "link_get links u i = Some l" and "bl_cursor (f l) = bl_cursor l"
  shows "map_option bl_cursor (link_get (snd (link_update links u i b f)) u i) = Some (bl_cursor l)"
  using assms by (simp add: link_get_update)

lemma link_get_id: "link_get s u i = Some l \<Longrightarrow> bl_id l = i"
  by (auto simp: link_get_def find_row_def find_Some_iff)

lemma startSync_links:
  assumes "startSync now s u i = (Some l, s')"
  shows "link_get s' u i = Some l" and "\<exists>old. link_get s u i = Some old \<and> bl_cursor l = bl_cursor old \<and>
    bl_encryptedAccessToken l = bl_encryptedAccessToken old \<and> bl_id l = i"
proof -
  from assms obtain old where old: "link_get s u i = Some old"
    and e: "link_update (s\<lparr>ls_startedAt := map_set (u, i) now (ls_startedAt s)\<rparr>) u i True
      (\<lambda>l. l\<lparr>bl_status := Syncing, bl_errorCode := None\<rparr>) = (Some l, s')"
    by (auto simp: startSync_def split: option.splits if_splits)
  let ?s = "s\<lparr>ls_startedAt := map_set (u, i) now (ls_startedAt s)\<rparr>"
  have g: "link_get ?s u i = Some old" using old by (simp add: link_get_def)
  with e have l: "l = old\<lparr>bl_status := Syncing, bl_errorCode := None, bl_id := i\<rparr>"
    by (auto simp: link_update_def link_get_def Let_def)
  with e link_get_update [OF g, of True "\<lambda>l. l\<lparr>bl_status := Syncing, bl_errorCode := None\<rparr>"]
  show "link_get s' u i = Some l" by simp
  show "\<exists>old. link_get s u i = Some old \<and> bl_cursor l = bl_cursor old \<and>
    bl_encryptedAccessToken l = bl_encryptedAccessToken old \<and> bl_id l = i" using old l by auto
qed

text \<open>C40: 
  A connection whose backlog is longer than a hundred pages makes no progress: the synchronization fails and the cursor
  is the one it started from, so the next attempt meets the same hundred pages.
\<close>

theorem long_backlog_makes_no_progress:
  assumes "bk_configured p" and "link_get (bs_links s) u i = Some l"
    and "bk_decrypt p (bl_encryptedAccessToken l) = Some token" and "endless p token"
    and "bank_sync uuid env now p u i s = (outcome, s')"
  shows "(\<exists>e. outcome = Inl e) \<and> map_option bl_cursor (link_get (bs_links s') u i) = Some (bl_cursor l)"
proof (cases "startSync now (bs_links s) u i")
  case (Pair started links)
  show ?thesis
  proof (cases started)
    case None
    then have "links = bs_links s"
      using Pair assms(2) by (auto simp: startSync_def link_update_def link_get_def Let_def split: if_splits option.splits)
    with None Pair assms show ?thesis by (auto simp: bank_sync_def)
  next
    case (Some link)
    from startSync_links [OF Pair [unfolded Some]] assms(2)
    have link: "link_get links u i = Some link" "bl_cursor link = bl_cursor l"
      "bl_encryptedAccessToken link = bl_encryptedAccessToken l" "bl_id link = i" by auto
    let ?s2 = "set_ledger (refresh_accounts p u token (bs_ledger s)) (s\<lparr>bs_links := links\<rparr>)"
    obtain l' where "pull (en_regex env) (sync_options env (bs_ledger ?s2) u) p u token (bl_cursor link) 0 0 0
        (bl_cursor link) no_counts (bs_ledger ?s2) = (Inl PROVIDER_ERROR, l')"
      using pull_endless [OF assms(4), of 0 "en_regex env" "sync_options env (bs_ledger ?s2) u" u "bl_cursor link" 0 "bl_cursor link" no_counts "bs_ledger ?s2"]
      by (metis MAX_PAGES_def prod.collapse zero_less_numeral)
    with assms Pair Some link have "outcome = Inl (SyncFailed PROVIDER_ERROR)"
      "s' = sync_failed uuid env u link PROVIDER_ERROR (set_ledger l' ?s2)"
      by (simp_all add: bank_sync_def Let_def)
    then show ?thesis
      using cursor_kept [OF link(1), of "\<lambda>l. l\<lparr>bl_status := (if PROVIDER_ERROR = ''ITEM_LOGIN_REQUIRED'' then NeedsReauth else LinkError),
        bl_errorCode := Some PROVIDER_ERROR\<rparr>" False] link(2,4)
      by (simp add: sync_failed_def set_ledger_def)
  qed
qed

definition backlog :: bankProvider where
  "backlog = bank_provider\<lparr>bk_sync := \<lambda>_ _ _. Inr (bank_page\<lparr>pg_hasMore := True\<rparr>)\<rparr>"

theorem long_backlog_makes_no_progress_witness:
  "let (outcome, s) = bank_sync (\<lambda>n. bank_uuid n) bank_env 0 backlog ''u'' ''l1'' bank_start
   in (\<exists>e. outcome = Inl e) \<and> map_option bl_cursor (link_get (bs_links s) ''u'' ''l1'') = Some (Some ''c0'')"
proof -
  let ?r = "bank_sync (\<lambda>n. bank_uuid n) bank_env 0 backlog ''u'' ''l1'' bank_start"
  obtain outcome s where r: "?r = (outcome, s)" by (rule prod.exhaust)
  have "bk_configured backlog" "link_get (bs_links bank_start) ''u'' ''l1'' = Some bank_link"
    "bk_decrypt backlog (bl_encryptedAccessToken bank_link) = Some ''token''"
    by (simp_all add: backlog_def bank_provider_def bank_start_def bank_link_def link_get_def find_row_def bucket_def get_or_def)
  moreover have "endless backlog ''token''" by (simp add: endless_def backlog_def)
  ultimately have "(\<exists>e. outcome = Inl e) \<and> map_option bl_cursor (link_get (bs_links s) ''u'' ''l1'') = Some (bl_cursor bank_link)"
    using r by (rule long_backlog_makes_no_progress)
  then show ?thesis by (simp only: r) (simp add: bank_link_def)
qed

section \<open>Choices made by hand\<close>

text \<open>The row of an identifier is there, and it is the one the user categorized.\<close>

definition chosen :: "string \<times> string \<Rightarrow> string \<Rightarrow> string \<Rightarrow> transaction list \<Rightarrow> bool" where
  "chosen k i slug rows \<longleftrightarrow> (\<exists>r \<in> set rows. tx_id r = i) \<and> (\<forall>r \<in> set rows. tx_id r = i \<longrightarrow>
     tx_key r = k \<and> tx_categorySource r = UserManual \<and> tx_categorySlug r = slug)"

text \<open>The provider neither removes the row nor sends another one that would get its identifier.\<close>

definition spares :: "string \<times> string \<Rightarrow> string \<Rightarrow> bankProvider \<Rightarrow> bool" where
  "spares k i p \<longleftrightarrow> (\<forall>n token c answer. bk_sync p n token c = Inr answer \<longrightarrow> snd k \<notin> set (pg_removedProviderTxnIds answer) \<and>
     (\<forall>raw \<in> set (pg_added answer @ pg_modified answer).
        ''txn_'' @ rt_accountId raw @ ''_'' @ rt_providerTxnId raw = i \<longrightarrow> (rt_accountId raw, rt_providerTxnId raw) = k))"

lemma update_first_all: "r \<in> set (update_first P f xs) \<Longrightarrow> r \<in> set xs \<or> (\<exists>x \<in> set xs. P x \<and> r = f x)"
  by (induction xs) (auto split: if_splits)

lemma update_first_id:
  assumes "r0 \<in> set rows" and "tx_id r0 = i" and "\<And>r. P r \<Longrightarrow> tx_id (f r) = tx_id r"
  shows "\<exists>r \<in> set (update_first P f rows). tx_id r = i"
proof -
  consider "r0 \<in> set (update_first P f rows)" | "P r0" "f r0 \<in> set (update_first P f rows)"
    using update_first_mem [OF assms(1), of P f] by blast
  then show ?thesis
  proof cases
    case 2
    have "tx_id (f r0) = i" using assms(3) [OF 2(1)] assms(2) by (rule trans)
    with 2(2) show ?thesis by blast
  qed (use assms(2) in blast)
qed

lemma chosen_upsert_row:
  assumes c: "chosen k i slug rows" and t: "tx_id t = i \<Longrightarrow> tx_key t = k"
  shows "chosen k i slug (upsert_row rows t)"
proof -
  from c obtain r0 where r0: "r0 \<in> set rows" "tx_id r0 = i" "tx_key r0 = k" unfolding chosen_def by blast
  show ?thesis
  proof (cases "\<exists>r \<in> set rows. tx_key r = tx_key t")
    case True
    have id: "tx_id (resync r t) = tx_id r" for r by (simp add: resync_def Let_def)
    have kept: "tx_categorySource (resync r t) = UserManual \<and> tx_categorySlug (resync r t) = tx_categorySlug r"
      if "tx_categorySource r = UserManual" for r
      using that by (simp add: resync_def Let_def keeps_user_category_def)
    let ?rows = "update_first (\<lambda>r. tx_key r = tx_key t) (\<lambda>r. resync r t) rows"
    have "\<exists>r \<in> set ?rows. tx_id r = i" by (rule update_first_id [OF r0(1,2)]) (simp add: id)
    moreover have "tx_key r = k \<and> tx_categorySource r = UserManual \<and> tx_categorySlug r = slug"
      if "r \<in> set ?rows" "tx_id r = i" for r
    proof -
      have old: "tx_key x = k \<and> tx_categorySource x = UserManual \<and> tx_categorySlug x = slug"
        if "x \<in> set rows" "tx_id x = i" for x
        using c that unfolding chosen_def by blast
      from update_first_all [OF that(1)]
      consider "r \<in> set rows" | x where "x \<in> set rows" "tx_key x = tx_key t" "r = resync x t" by blast
      then show ?thesis
      proof cases
        case 2
        with that(2) id have "tx_id x = i" by simp
        from old [OF 2(1) this] 2(2,3) kept show ?thesis by simp
      qed (use old that(2) in blast)
    qed
    moreover have "upsert_row rows t = ?rows" using True by (simp only: upsert_row_def if_True)
    ultimately show ?thesis unfolding chosen_def by metis
  next
    case False
    with r0 t have "tx_id t \<noteq> i" by auto
    with False c show ?thesis by (auto simp: chosen_def upsert_row_def)
  qed
qed

lemma chosen_upsertMany:
  assumes "chosen k i slug (bucket st u)" and "\<forall>t \<in> set ts. tx_id t = i \<longrightarrow> tx_key t = k"
  shows "chosen k i slug (bucket (snd (txn_upsertMany st u ts)) u)"
proof -
  have "chosen k i slug (foldl upsert_row rows ts)" if "chosen k i slug rows" for rows
    using that assms(2) by (induction ts arbitrary: rows) (auto intro: chosen_upsert_row)
  with assms(1) show ?thesis by (simp add: txn_upsertMany_eq)
qed

lemma chosen_removed:
  "chosen k i slug (bucket st u) \<Longrightarrow> snd k \<notin> set ids \<Longrightarrow> chosen k i slug (bucket (snd (txn_removeByProviderIds st u ids)) u)"
proof -
  assume c: "chosen k i slug (bucket st u)" and k: "snd k \<notin> set ids"
  then obtain r0 where "r0 \<in> set (bucket st u)" "tx_id r0 = i" "tx_providerTxnId r0 = snd k"
    unfolding chosen_def tx_key_def by auto
  with c k show ?thesis
    by (auto simp: chosen_def txn_removeByProviderIds_def remove_where_def Let_def)
qed

lemma chosen_update:
  assumes "chosen k i slug (bucket st u)" and "j \<noteq> i \<or> keeps_choice f"
  shows "chosen k i slug (bucket (snd (txn_update st u j f)) u)"
proof -
  from assms(1) obtain r0 where r0: "r0 \<in> set (bucket st u)" "tx_id r0 = i" unfolding chosen_def by blast
  let ?f = "\<lambda>t. (f t)\<lparr>tx_id := j\<rparr>"
  let ?rows = "update_first (\<lambda>t. tx_id t = j) ?f (bucket st u)"
  have "\<exists>r \<in> set ?rows. tx_id r = i" by (rule update_first_id [OF r0]) simp
  moreover have "tx_key r = k \<and> tx_categorySource r = UserManual \<and> tx_categorySlug r = slug"
    if "r \<in> set ?rows" "tx_id r = i" for r
    using update_first_all [OF that(1)] that(2) assms by (auto simp: chosen_def keeps_choice_def tx_key_def)
  moreover have "bucket (snd (txn_update st u j f)) u = ?rows" by (simp add: bucket_txn_update)
  ultimately show ?thesis unfolding chosen_def by metis
qed

lemma chosen_page:
  assumes "chosen k i slug (bucket (ld_transactions s) u)" and "spares k i p" and "bk_sync p n token c0 = Inr answer"
    and "store_page engine options u answer c s = (c', s')"
  shows "chosen k i slug (bucket (ld_transactions s') u)"
proof -
  let ?ts = "map (mapTransaction engine options) (pg_added answer @ pg_modified answer)"
  have raw: "\<forall>raw \<in> set (pg_added answer @ pg_modified answer).
      ''txn_'' @ rt_accountId raw @ ''_'' @ rt_providerTxnId raw = i \<longrightarrow> (rt_accountId raw, rt_providerTxnId raw) = k"
    and gone: "snd k \<notin> set (pg_removedProviderTxnIds answer)"
    using assms(2,3) unfolding spares_def by blast+
  have "\<forall>t \<in> set ?ts. tx_id t = i \<longrightarrow> tx_key t = k"
    using raw by (auto simp: mapTransaction_def toTransaction_def tx_key_def)
  from chosen_removed [OF chosen_upsertMany [OF assms(1) this] gone] assms(4) show ?thesis
    by (auto simp: store_page_def Let_def split: prod.splits)
qed

lemma chosen_pull:
  "chosen k i slug (bucket (ld_transactions s) u) \<Longrightarrow> spares k i p \<Longrightarrow>
   chosen k i slug (bucket (ld_transactions (snd (pull engine options p u token first n retries page cursor c s))) u)"
proof (induction engine options p u token first n retries page cursor c s rule: pull.induct)
  case (1 engine options p u token first n retries page cursor c s)
  show ?case
  proof (cases "page \<ge> MAX_PAGES")
    case False
    show ?thesis
    proof (cases "bk_sync p n token cursor")
      case (Inl err)
      with False 1 show ?thesis by (simp add: pull.simps [of _ _ _ _ _ _ n])
    next
      case (Inr answer)
      obtain c' t where st: "store_page engine options u answer c s = (c', t)" by force
      have "chosen k i slug (bucket (ld_transactions t) u)" by (rule chosen_page [OF 1(3,4) Inr st])
      with False Inr st 1 show ?thesis by (simp add: pull.simps [of _ _ _ _ _ _ n])
    qed
  qed (use 1 in \<open>simp add: pull.simps [of _ _ _ _ _ _ n]\<close>)
qed

lemma chosen_pairs:
  assumes "chosen k i slug (bucket st u)" and "set recent \<subseteq> set (bucket st0 u)" and "chosen k i slug (bucket st0 u)"
  shows "chosen k i slug (bucket (snd (foldl (pair_transfer u recent) (n, st) ids)) u)"
  using assms(1)
proof (induction ids arbitrary: n st)
  case (Cons j ids)
  have "chosen k i slug (bucket (snd (pair_transfer u recent (n, st) j)) u)"
  proof (cases "find (\<lambda>t. tx_id t = j) (rev recent)")
    case (Some t)
    then have "t \<in> set (rev recent)" "tx_id t = j" by (metis (mono_tags, lifting) find_Some_iff nth_mem)+
    with assms(2) have t: "t \<in> set (bucket st0 u)" "tx_id t = j" by auto
    show ?thesis
    proof (cases "isUserCategorised t \<or> tx_categorySlug t = ''transfer''")
      case False
      with t assms(3) have "j \<noteq> i" by (auto simp: chosen_def isUserCategorised_def)
      with False Some Cons.prems show ?thesis by (simp add: pair_transfer_def chosen_update)
    qed (use Some Cons.prems in \<open>simp add: pair_transfer_def\<close>)
  qed (use Cons.prems in \<open>simp add: pair_transfer_def\<close>)
  then show ?case using Cons.IH [of "snd (pair_transfer u recent (n, st) j)" "fst (pair_transfer u recent (n, st) j)"] by simp
qed simp

lemma chosen_flags:
  "chosen k i slug (bucket st u) \<Longrightarrow> chosen k i slug (bucket (snd (foldl (flag_recurring u ids) (n, st) ts)) u)"
proof (induction ts arbitrary: n st)
  case (Cons t ts)
  have "keeps_choice (\<lambda>t. t\<lparr>tx_isRecurring := b\<rparr>)" for b by (simp add: keeps_choice_def tx_key_def)
  then have "chosen k i slug (bucket (snd (flag_recurring u ids (n, st) t)) u)"
    using Cons.prems by (simp add: flag_recurring_def Let_def chosen_update)
  then show ?case
    using Cons.IH [of "snd (flag_recurring u ids (n, st) t)" "fst (flag_recurring u ids (n, st) t)"] by simp
qed simp

lemma chosen_reconciled:
  assumes "chosen k i slug (bucket st u)"
  shows "reconcileInternalTransfers env u st = Some (n, st') \<Longrightarrow> chosen k i slug (bucket st' u)"
    and "reconcileRecurring env u st = Some (n, st') \<Longrightarrow> chosen k i slug (bucket st' u)"
proof -
  have listed: "set (txn_list lc st u q) \<subseteq> set (bucket st u)" for lc q
    by (auto simp: txn_list_def Let_def split: option.splits if_splits dest: in_set_takeD)
  assume "reconcileInternalTransfers env u st = Some (n, st')"
  then show "chosen k i slug (bucket st' u)"
    using chosen_pairs [OF assms listed assms] assms
    by (auto simp: reconcileInternalTransfers_def Let_def split: if_splits) (metis snd_conv)
next
  assume "reconcileRecurring env u st = Some (n, st')"
  then show "chosen k i slug (bucket st' u)"
    using chosen_flags [OF assms] by (auto simp: reconcileRecurring_def Let_def) (metis snd_conv)
qed

lemma chosen_finish:
  assumes "finish_sync env u linkId got s = (result, t)" and c: "chosen k i slug (bucket (ld_transactions (bs_ledger s)) u)"
  shows "chosen k i slug (bucket (ld_transactions (bs_ledger t)) u)"
proof (cases "reconcileInternalTransfers env u (ld_transactions (bs_ledger s))")
  case None
  with assms show ?thesis by (auto simp: finish_sync_def Let_def)
next
  case (Some x)
  obtain n st where x: "x = (n, st)" by force
  have p: "chosen k i slug (bucket st u)" by (rule chosen_reconciled(1) [OF c Some [unfolded x]])
  show ?thesis
  proof (cases "reconcileRecurring env u st")
    case None
    with assms(1) Some x p show ?thesis by (auto simp: finish_sync_def Let_def set_transactions_def)
  next
    case (Some y)
    obtain m st' where y: "y = (m, st')" by force
    have "chosen k i slug (bucket st' u)" by (rule chosen_reconciled(2) [OF p Some [unfolded y]])
    with assms(1) \<open>reconcileInternalTransfers env u (ld_transactions (bs_ledger s)) = Some x\<close> Some x y show ?thesis
      by (auto simp: finish_sync_def Let_def set_transactions_def)
  qed
qed

text \<open>C37: 
  A category chosen by hand survives every synchronization with a bank, complete or failed, as long as the bank does not
  withdraw the row: neither a row sent again nor the pairing of transfers touches it.
\<close>

theorem choice_survives_bank_sync:
  assumes "chosen k i slug (bucket (ld_transactions (bs_ledger s)) u)" and "spares k i p"
  shows "chosen k i slug (bucket (ld_transactions (bs_ledger (snd (bank_sync uuid env now p u linkId s)))) u)"
proof -
  have refreshed: "ld_transactions (refresh_accounts p u token l) = ld_transactions l" for token l
    by (simp add: refresh_accounts_def split: option.split)
  have failed: "bs_ledger (sync_failed uuid env u link err t) = bs_ledger t" for link err t
    by (simp add: sync_failed_def)
  have pulled: "chosen k i slug (bucket (ld_transactions l) u)"
    if "pull (en_regex env) options p u token c 0 0 0 c no_counts (refresh_accounts p u token (bs_ledger s)) = (got, l)"
    for options token c got l
    using chosen_pull [of k i slug "refresh_accounts p u token (bs_ledger s)" u p "en_regex env" options token c 0 0 0 c no_counts]
      that assms by (simp add: refreshed)
  show ?thesis
    using assms(1)
    by (auto simp: bank_sync_def Let_def set_ledger_def failed split: option.splits prod.splits sum.splits
      dest!: chosen_finish pulled)
qed

theorem choice_survives_bank_sync_witness:
  "chosen (''a1'', ''p1'') ''t1'' ''food''
     (bucket (ld_transactions (bs_ledger (snd (bank_sync (\<lambda>n. bank_uuid n) bank_env 0 bank_provider ''u'' ''l1'' bank_start)))) ''u'')"
proof -
  have "chosen (''a1'', ''p1'') ''t1'' ''food'' (bucket (ld_transactions (bs_ledger bank_start)) ''u'')"
    by (simp add: chosen_def bank_start_def bucket_def get_or_def demo_row_def demo_resent_def tx_key_def)
  moreover have "spares (''a1'', ''p1'') ''t1'' bank_provider"
    by (simp add: spares_def bank_provider_def bank_page_def)
  ultimately show ?thesis by (rule choice_survives_bank_sync)
qed

section \<open>A failed synchronization\<close>

lemma failed_sync_state:
  assumes p: "bk_configured p" and l: "link_get (bs_links s) u i = Some l" "bl_status l \<noteq> Syncing"
    and t: "bk_decrypt p (bl_encryptedAccessToken l) = Some token" and e: "bk_sync p 0 token (bl_cursor l) = Inl err" "err \<noteq> MUTATED"
  shows "map_option bl_status (link_get (bs_links (snd (bank_sync uuid env now p u i s))) u i) =
    Some (if err = ''ITEM_LOGIN_REQUIRED'' then NeedsReauth else LinkError)"
proof -
  let ?links = "(bs_links s)\<lparr>ls_startedAt := map_set (u, i) now (ls_startedAt (bs_links s))\<rparr>"
  have g: "link_get ?links u i = Some l" using l(1) by (simp add: link_get_def)
  obtain link links where st: "startSync now (bs_links s) u i = (Some link, links)"
    using l g by (auto simp: startSync_def link_update_def link_get_def Let_def)
  from startSync_links [OF st] l(1) have link: "link_get links u i = Some link" "bl_cursor link = bl_cursor l"
    "bl_encryptedAccessToken link = bl_encryptedAccessToken l" "bl_id link = i" by auto
  have "pull engine options p u token (bl_cursor l) 0 0 0 (bl_cursor l) no_counts ld = (Inl err, ld)" for engine options ld
    using e by (simp add: pull.simps [of _ _ _ _ _ _ 0] MAX_PAGES_def)
  then have "bs_links (snd (bank_sync uuid env now p u i s)) = bs_links (sync_failed uuid env u link err (s\<lparr>bs_links := links\<rparr>))"
    using p l(1) st t link(2,3) by (simp add: bank_sync_def Let_def sync_failed_def set_ledger_def)
  with link_get_update [OF link(1)] link(4) show ?thesis by (simp add: sync_failed_def)
qed

text \<open>A revoked connection is synchronized like any other; when the provider refuses, it counts as connected again.\<close>

lemma revoked_link_counts_again:
  assumes "bk_configured p" and "link_get (bs_links s) u i = Some l" and "bl_status l = Revoked"
    and "bk_decrypt p (bl_encryptedAccessToken l) = Some token" and "bk_sync p 0 token (bl_cursor l) = Inl ''ITEM_NOT_FOUND''"
  shows "map_option bl_status (link_get (bs_links (snd (bank_sync uuid env now p u i s))) u i) = Some LinkError"
  using failed_sync_state [of p s u i l token "''ITEM_NOT_FOUND''"] assms by (simp add: MUTATED_def)

section \<open>Webhooks\<close>

text \<open>
  A notice is dropped when one with the same body came in the hour before it, also if that one has long been worked off:
  what it announces is not fetched.
\<close>

lemma repeated_notice_is_dropped:
  assumes "bk_configured p" and "bk_verify p body signature" and "parse body \<noteq> None"
    and "j \<in> set (map snd (bs_jobs s))" and "wj_bodyHash j = digest body" and "now - wj_createdAt j < DEDUPE_MS"
  shows "acceptWebhook parse digest now jobId p body signature s = (Inr False, s)"
  using assms by (auto simp: acceptWebhook_def enqueue_def split: option.splits)

section \<open>The queue gives up\<close>

text \<open>The requests that reach the queue; the environment, the clock and the provider may differ from one to the next.\<close>

datatype bankRequest =
    Notice string string string
  | DrainQueue
  | SyncNow string string
  | Disconnect string string

fun bank_step ::
    "(string \<Rightarrow> webhookMessage option) \<Rightarrow> (string \<Rightarrow> string) \<Rightarrow> (nat \<Rightarrow> string) \<Rightarrow> bankState \<Rightarrow>
      ledgerEnv \<times> int \<times> bankProvider \<times> bankRequest \<Rightarrow> bankState" where
  "bank_step parse digest uuid s (env, now, p, Notice i body signature) = snd (acceptWebhook parse digest now i p body signature s)"
| "bank_step parse digest uuid s (env, now, p, DrainQueue) = drainWebhookQueue uuid env now p s"
| "bank_step parse digest uuid s (env, now, p, SyncNow u i) = snd (bank_sync uuid env now p u i s)"
| "bank_step parse digest uuid s (env, now, p, Disconnect u i) = snd (disconnect env p u i s)"

text \<open>Jobs in work are those of \<open>todo\<close>; a pending job has an attempt left.\<close>

definition job_ok :: "string set \<Rightarrow> string \<Rightarrow> webhookJob \<Rightarrow> bool" where
  "job_ok todo i j \<longleftrightarrow> wj_id j = i \<and> wj_attempts j \<le> MAX_ATTEMPTS \<and> (wj_status j = Pending \<longrightarrow> wj_attempts j < MAX_ATTEMPTS) \<and>
     (wj_status j = Processing \<longrightarrow> i \<in> todo)"

definition jobs_ok :: "string set \<Rightarrow> jobStore \<Rightarrow> bool" where
  "jobs_ok todo m \<longleftrightarrow> distinct (map fst m) \<and> (\<forall>i j. map_of m i = Some j \<longrightarrow> job_ok todo i j)"

lemma jobs_ok_set: "jobs_ok todo m \<Longrightarrow> job_ok todo i j \<Longrightarrow> jobs_ok todo (map_set i j m)"
  by (auto simp: jobs_ok_def distinct_map_set)

lemma jobs_ok_filter: "jobs_ok todo m \<Longrightarrow> jobs_ok todo (filter q m)"
  by (auto simp: jobs_ok_def distinct_map_filter map_of_eq_Some_iff)

lemma job_ok_mono: "job_ok todo i j \<Longrightarrow> todo \<subseteq> todo' \<Longrightarrow> job_ok todo' i j"
  by (auto simp: job_ok_def)

lemma jobs_ok_member: "jobs_ok todo m \<Longrightarrow> j \<in> set (map snd m) \<Longrightarrow> map_of m (wj_id j) = Some j \<and> job_ok todo (wj_id j) j"
  by (force simp: jobs_ok_def job_ok_def)

lemma jobs_of_bank_sync: "bs_jobs (snd (bank_sync uuid env now p u i s)) = bs_jobs s"
  by (auto simp: bank_sync_def Let_def set_ledger_def sync_failed_def finish_sync_def set_transactions_def
    split: option.splits prod.splits sum.splits)

lemma jobs_set_all:
  assumes "jobs_ok todo m" and "\<forall>j \<in> set js. job_ok todo' (wj_id j) j" and "todo \<subseteq> todo'"
  shows "jobs_ok todo' (foldl (\<lambda>m j. map_set (wj_id j) j m) m js)"
proof -
  have "jobs_ok todo' m" using assms(1) job_ok_mono [OF _ assms(3)] unfolding jobs_ok_def by blast
  then show ?thesis using assms(2) by (induction js arbitrary: m) (auto intro: jobs_ok_set)
qed

lemma jobs_set_lookup:
  "distinct (map wj_id js) \<Longrightarrow> j \<in> set js \<Longrightarrow> map_of (foldl (\<lambda>m j. map_set (wj_id j) j m) m js) (wj_id j) = Some j"
proof (induction js arbitrary: m rule: rev_induct)
  case (snoc x js)
  show ?case
  proof (cases "j = x")
    case False
    with snoc.prems have j: "j \<in> set js" by simp
    from imageI [OF this, of wj_id] snoc.prems(1) have "wj_id j \<noteq> wj_id x" by auto
    with snoc j show ?thesis by simp
  qed simp
qed simp

lemma job_ids_distinct:
  assumes "jobs_ok todo m"
  shows "distinct (map wj_id (map (claimed now) (take k (js_sort cmp (filter q (map snd m))))))"
proof -
  let ?js = "filter q (map snd m)"
  have d: "distinct (map fst m)" using assms unfolding jobs_ok_def by (rule conjunct1)
  have "map (\<lambda>e. wj_id (snd e)) m = map fst m"
  proof (rule map_cong [OF refl])
    fix e assume "e \<in> set m"
    then have "map_of m (fst e) = Some (snd e)" using d by (simp add: map_of_eq_Some_iff)
    with assms show "wj_id (snd e) = fst e" unfolding jobs_ok_def job_ok_def by blast
  qed
  then have "map wj_id (map snd m) = map fst m" by (simp add: comp_def)
  from subst [where P = distinct, OF this [symmetric] d] have "distinct (map wj_id (map snd m))" .
  then have "distinct (map wj_id ?js)" by (rule distinct_map_filter)
  moreover have "mset (map wj_id (js_sort cmp ?js)) = mset (map wj_id ?js)" by (simp only: mset_map mset_js_sort)
  ultimately have "distinct (map wj_id (js_sort cmp ?js))" using mset_eq_imp_distinct_iff by blast
  then have "distinct (map wj_id (take k (js_sort cmp ?js)))" by (simp add: take_map [symmetric])
  then show ?thesis by (simp add: claimed_def comp_def)
qed

lemma claim_ok:
  assumes "jobs_ok {} m" and "claim_jobs now k m = (jobs, m')"
  shows "jobs_ok (set (map wj_id jobs)) m' \<and> distinct (map wj_id jobs) \<and> (\<forall>j \<in> set jobs. map_of m' (wj_id j) = Some j)"
proof -
  let ?taken = "take (max 1 (min k 100)) (js_sort (\<lambda>a b. wj_availableAt a - wj_availableAt b) (filter (claimable now) (map snd m)))"
  have jobs: "jobs = map (claimed now) ?taken" and m': "m' = foldl (\<lambda>m j. map_set (wj_id j) j m) m jobs"
    using assms(2) by (auto simp: claim_jobs_def Let_def)
  have "job_ok (set (map wj_id jobs)) (wj_id j) j" if "j \<in> set jobs" for j
  proof -
    from that obtain j0 where j0: "j = claimed now j0" "j0 \<in> set ?taken" by (auto simp: jobs)
    from in_set_takeD [OF j0(2)] have "j0 \<in> set (map snd m)" "claimable now j0"
      by (simp_all add: set_js_sort)
    with jobs_ok_member [OF assms(1)] have "wj_status j0 = Pending" "wj_attempts j0 < MAX_ATTEMPTS"
      by (auto simp: claimable_def job_ok_def)
    moreover have "wj_id j \<in> set (map wj_id jobs)" using imageI [OF that, of wj_id] by simp
    ultimately show ?thesis by (simp add: job_ok_def) (simp add: j0(1) claimed_def)
  qed
  then have "jobs_ok (set (map wj_id jobs)) m'" unfolding m' by (intro jobs_set_all [OF assms(1)]) auto
  moreover have "distinct (map wj_id jobs)" unfolding jobs by (rule job_ids_distinct [OF assms(1)])
  ultimately show ?thesis using jobs_set_lookup [of jobs _ m] by (simp add: m')
qed

lemma drain_job_ok:
  assumes "jobs_ok (insert (wj_id job) todo) (bs_jobs s)" and "map_of (bs_jobs s) (wj_id job) = Some job"
  shows "jobs_ok todo (bs_jobs (drain_job uuid env now p s job)) \<and>
    (\<forall>i. i \<noteq> wj_id job \<longrightarrow> map_of (bs_jobs (drain_job uuid env now p s job)) i = map_of (bs_jobs s) i)"
proof -
  have patch: "jobs_ok todo (job_patch (bs_jobs s) (wj_userId job) (wj_id job) f)"
    if f: "wj_id (f job) = wj_id job" "wj_attempts (f job) = wj_attempts job" "wj_status (f job) \<noteq> Processing"
      "wj_status (f job) = Pending \<longrightarrow> wj_attempts job < MAX_ATTEMPTS" for f
  proof -
    have old: "job_ok (insert (wj_id job) todo) i j" if "map_of (bs_jobs s) i = Some j" for i j
      using assms(1) that unfolding jobs_ok_def by blast
    have "wj_attempts job \<le> MAX_ATTEMPTS" using old [OF assms(2)] by (simp add: job_ok_def)
    with f have new: "job_ok todo (wj_id job) (f job)" by (simp add: job_ok_def)
    have "job_ok todo i j" if "map_of (map_set (wj_id job) (f job) (bs_jobs s)) i = Some j" for i j
    proof (cases "i = wj_id job")
      case True
      with that new show ?thesis by simp
    next
      case False
      with that have "map_of (bs_jobs s) i = Some j" by simp
      from old [OF this] False show ?thesis by (simp add: job_ok_def)
    qed
    moreover have "distinct (map fst (map_set (wj_id job) (f job) (bs_jobs s)))"
      using assms(1) unfolding jobs_ok_def by (intro distinct_map_set) (rule conjunct1)
    ultimately show ?thesis by (simp add: job_patch_def assms(2) jobs_ok_def)
  qed
  obtain outcome s' where b: "bank_sync uuid env now p (wj_userId job) (wj_linkId job) s = (outcome, s')" by force
  then have jobs: "bs_jobs s' = bs_jobs s" using jobs_of_bank_sync [of uuid env now p "wj_userId job" "wj_linkId job" s] by simp
  have other: "map_of (job_patch (bs_jobs s) (wj_userId job) (wj_id job) f) i = map_of (bs_jobs s) i" if "i \<noteq> wj_id job" for f i
    using that by (simp add: job_patch_def assms(2))
  obtain f where f: "wj_id (f job) = wj_id job" "wj_attempts (f job) = wj_attempts job" "wj_status (f job) \<noteq> Processing"
      "wj_status (f job) = Pending \<longrightarrow> wj_attempts job < MAX_ATTEMPTS"
    and "bs_jobs (drain_job uuid env now p s job) = job_patch (bs_jobs s) (wj_userId job) (wj_id job) f"
  proof (cases outcome)
    case (Inl err)
    show ?thesis
      by (rule that [of "\<lambda>j. j\<lparr>wj_status := (if MAX_ATTEMPTS \<le> wj_attempts job then Failed else Pending),
          wj_availableAt := now + retry_delay (wj_attempts job), wj_updatedAt := now\<rparr>"])
        (simp_all add: drain_job_def retry_job_def b Inl jobs)
  next
    case (Inr result)
    show ?thesis
      by (rule that [of "\<lambda>j. j\<lparr>wj_status := Completed\<rparr>"]) (simp_all add: drain_job_def complete_job_def b Inr jobs)
  qed
  with patch [of f, OF f] other show ?thesis by simp
qed

lemma drain_ok:
  "jobs_ok (set (map wj_id jobs)) (bs_jobs s) \<Longrightarrow> distinct (map wj_id jobs) \<Longrightarrow>
   \<forall>j \<in> set jobs. map_of (bs_jobs s) (wj_id j) = Some j \<Longrightarrow> jobs_ok {} (bs_jobs (foldl (drain_job uuid env now p) s jobs))"
proof (induction jobs arbitrary: s)
  case (Cons job jobs)
  let ?s = "drain_job uuid env now p s job"
  from drain_job_ok [of job "set (map wj_id jobs)" s uuid env now p] Cons.prems
  have "jobs_ok (set (map wj_id jobs)) (bs_jobs ?s)" "\<forall>i. i \<noteq> wj_id job \<longrightarrow> map_of (bs_jobs ?s) i = map_of (bs_jobs s) i"
    by simp_all
  moreover have "wj_id j \<noteq> wj_id job" if "j \<in> set jobs" for j using Cons.prems(2) that by (metis distinct.simps(2) imageI list.simps(9) set_map)
  ultimately show ?case using Cons by simp
qed simp

lemma jobs_ok_step: "jobs_ok {} (bs_jobs s) \<Longrightarrow> jobs_ok {} (bs_jobs (bank_step parse digest uuid s r))"
proof -
  assume ok: "jobs_ok {} (bs_jobs s)"
  obtain env now p q where r: "r = (env, now, p, q)" by (cases r) auto
  show ?thesis
  proof (cases q)
    case (Notice i body signature)
    then show ?thesis using ok
      by (auto simp: r acceptWebhook_def enqueue_def job_ok_def MAX_ATTEMPTS_def intro!: jobs_ok_set split: option.splits)
  next
    case DrainQueue
    obtain jobs store where c: "claim_jobs now 10 (bs_jobs s) = (jobs, store)" by force
    from claim_ok [OF ok c] drain_ok [of jobs "s\<lparr>bs_jobs := store\<rparr>" uuid env now p] DrainQueue ok show ?thesis
      by (simp add: r drainWebhookQueue_def c)
  next
    case (SyncNow u i)
    with ok show ?thesis by (simp add: r jobs_of_bank_sync)
  next
    case (Disconnect u i)
    with ok show ?thesis
      by (auto simp: r disconnect_def Let_def purgeLink_def jobs_ok_filter split: option.splits)
  qed
qed

text \<open>C38: 
  Over every sequence of webhooks, synchronizations, removals and completed runs of the queue, no job is tried more
  than five times, a job that waits has an attempt left, and none is left in work: the queue cannot become a retry
  storm.
\<close>

theorem attempts_are_bounded:
  assumes "bs_jobs s = []" and "j \<in> set (map snd (bs_jobs (foldl (bank_step parse digest uuid) s requests)))"
  shows "wj_attempts j \<le> 5 \<and> (wj_status j = Pending \<longrightarrow> wj_attempts j < 5) \<and> wj_status j \<noteq> Processing"
proof -
  have "jobs_ok {} (bs_jobs (foldl (bank_step parse digest uuid) s requests))" if "jobs_ok {} (bs_jobs s)" for s
    using that by (induction requests arbitrary: s) (simp_all add: jobs_ok_step)
  from this [of s] have "jobs_ok {} (bs_jobs (foldl (bank_step parse digest uuid) s requests))"
    by (simp only: assms(1) jobs_ok_def) simp
  from jobs_ok_member [OF this assms(2)] show ?thesis by (auto simp: job_ok_def MAX_ATTEMPTS_def)
qed

definition locked_out :: bankProvider where
  "locked_out = bank_provider\<lparr>bk_decrypt := \<lambda>_. None\<rparr>"

definition bank_notice :: "string \<Rightarrow> webhookMessage option" where
  "bank_notice body = Some \<lparr>wm_itemId = Some ''item'', wm_type = Some ''TRANSACTIONS'', wm_code = Some ''SYNC_UPDATES_AVAILABLE''\<rparr>"

abbreviation "failing_run \<equiv> foldl (bank_step bank_notice (\<lambda>b. b) (\<lambda>n. bank_uuid n)) bank_start
  [(bank_env, 0, locked_out, Notice ''j1'' ''body'' []), (bank_env, 1000, locked_out, DrainQueue)]"

theorem attempts_are_bounded_witness:
  "map (\<lambda>(_, j). (wj_attempts j, wj_availableAt j, wj_status j)) (bs_jobs failing_run) = [(1, 31000, Pending)] \<and>
   list_all (\<lambda>j. wj_attempts j \<le> 5) (map snd (bs_jobs failing_run))"
proof -
  have "map (\<lambda>(_, j). (wj_attempts j, wj_availableAt j, wj_status j)) (bs_jobs failing_run) = [(1, 31000, Pending)]"
    by code_simp
  moreover have "bs_jobs bank_start = []" by (simp add: bank_start_def)
  from attempts_are_bounded [OF this] have "list_all (\<lambda>j. wj_attempts j \<le> 5) (map snd (bs_jobs failing_run))"
    by (simp only: list_all_iff) blast
  ultimately show ?thesis by blast
qed

section \<open>Revocation\<close>

definition links_distinct :: "linkStore \<Rightarrow> string \<Rightarrow> bool" where
  "links_distinct s u \<longleftrightarrow> distinct (map bl_id (link_list s u))"

definition job_of :: "string \<Rightarrow> string \<Rightarrow> webhookJob \<Rightarrow> bool" where
  "job_of u i j \<longleftrightarrow> wj_userId j = u \<and> wj_linkId j = i"

definition mark_revoked :: "bankLink \<Rightarrow> bankLink" where
  "mark_revoked l = l\<lparr>bl_status := Revoked, bl_errorCode := None, bl_cursor := None\<rparr>"

lemma revoke_one:
  assumes "links_distinct s u"
  shows "link_list (snd (link_update s u i False mark_revoked)) u =
    map (\<lambda>l. if bl_id l = i then mark_revoked l else l) (link_list s u)"
proof -
  have "update_first (\<lambda>l. bl_id l = i) (\<lambda>l. (mark_revoked l)\<lparr>bl_id := i\<rparr>) rows =
      map (\<lambda>l. if bl_id l = i then mark_revoked l else l) rows" if "distinct (map bl_id rows)" for rows
    using that
  proof (induction rows)
    case (Cons a rows)
    show ?case
    proof (cases "bl_id a = i")
      case True
      from Cons.prems have "bl_id a \<notin> set (map bl_id rows)" by simp
      with True have "bl_id x \<noteq> i" if "x \<in> set rows" for x using imageI [OF that, of bl_id] by (simp, metis)
      then have "map (\<lambda>l. if bl_id l = i then mark_revoked l else l) rows = rows" by (intro map_idI) simp
      with True show ?thesis by (simp add: mark_revoked_def)
    qed (use Cons in simp)
  qed simp
  moreover have "map (\<lambda>l. if bl_id l = i then mark_revoked l else l) rows = rows" if "find (\<lambda>l. bl_id l = i) rows = None" for rows
    using that by (auto simp: find_None_iff intro!: map_idI)
  ultimately show ?thesis
    using assms by (auto simp: links_distinct_def link_list_def link_update_def find_row_def Let_def split: option.split)
qed

lemma mark_revoked_fields [simp]: "bl_id (mark_revoked l) = bl_id l" "bl_status (mark_revoked l) = Revoked" "bl_cursor (mark_revoked l) = None"
  by (simp_all add: mark_revoked_def)

lemma revoke_step:
  "fst (revoke_links p u (l # ls) n (links, jobs)) = Inr m \<Longrightarrow>
   revoke_links p u (l # ls) n (links, jobs) =
     revoke_links p u ls (n + 1) (snd (link_update links u (bl_id l) False mark_revoked), purgeLink jobs u (bl_id l))"
  by (auto simp: mark_revoked_def [abs_def] split: option.splits if_splits)

lemma revoke_links_all:
  assumes "links_distinct links u" and "revoke_links p u ls n (links, jobs) = (Inr m, links', jobs')"
    and "\<forall>l \<in> set (link_list links u). bl_status l = Revoked \<or> bl_id l \<in> set (map bl_id ls)"
    and "\<forall>(_, j) \<in> set jobs. \<not> (wj_userId j = u \<and> wj_linkId j \<in> gone)"
  shows "list_all (\<lambda>l. bl_status l = Revoked) (link_list links' u) \<and>
    (\<forall>(_, j) \<in> set jobs'. \<not> (wj_userId j = u \<and> wj_linkId j \<in> gone \<union> set (map bl_id ls)))"
  using assms
proof (induction ls arbitrary: n links jobs gone)
  case (Cons l ls)
  let ?links = "snd (link_update links u (bl_id l) False mark_revoked)" and ?jobs = "purgeLink jobs u (bl_id l)"
  have next_step: "revoke_links p u ls (n + 1) (?links, ?jobs) = (Inr m, links', jobs')"
    using revoke_step [of p u l ls n links jobs m] Cons.prems(2) by simp
  have ids: "map bl_id (link_list ?links u) = map bl_id (link_list links u)"
    by (simp add: revoke_one [OF Cons.prems(1)] comp_def if_distrib cong: if_cong)
  then have d: "links_distinct ?links u" using Cons.prems(1) by (simp add: links_distinct_def)
  have r: "\<forall>l \<in> set (link_list ?links u). bl_status l = Revoked \<or> bl_id l \<in> set (map bl_id ls)"
    using Cons.prems(3) by (auto simp: revoke_one [OF Cons.prems(1)])
  have j: "\<forall>(_, j) \<in> set ?jobs. \<not> (wj_userId j = u \<and> wj_linkId j \<in> insert (bl_id l) gone)"
    using Cons.prems(4) by (auto simp: purgeLink_def)
  from Cons.IH [OF d next_step r j] show ?case by simp
qed (auto simp: list_all_iff)

text \<open>C39: 
  When the revocation before a deletion succeeds, no connection of the user is left that is not revoked, and no webhook
  of a connection it revoked is left in the queue.
\<close>

theorem revocation_is_complete:
  assumes "links_distinct links u" and "revokeAll p u (links, jobs) = (Inr n, links', jobs')"
  shows "list_all (\<lambda>l. bl_status l = Revoked) (link_list links' u) \<and>
    list_all (\<lambda>l. list_all (\<lambda>(_, j). \<not> job_of u (bl_id l) j) jobs') (connected_links links u)"
proof (cases "connected_links links u = []")
  case True
  then have "list_all (\<lambda>l. bl_status l = Revoked) (link_list links u)"
    by (simp add: connected_links_def filter_empty_conv list_all_iff)
  with True assms(2) show ?thesis by (simp add: revokeAll_def)
next
  case False
  with assms(2) have r: "revoke_links p u (connected_links links u) 0 (links, jobs) = (Inr n, links', jobs')"
    by (auto simp: revokeAll_def Let_def split: if_splits)
  have "\<forall>l \<in> set (link_list links u). bl_status l = Revoked \<or> bl_id l \<in> set (map bl_id (connected_links links u))"
    by (auto simp: connected_links_def)
  from revoke_links_all [OF assms(1) r this, of "{}"] show ?thesis
    by (auto simp: list_all_iff job_of_def)
qed

definition bank_job :: webhookJob where
  "bank_job = \<lparr>wj_id = ''j1'', wj_userId = ''u'', wj_linkId = ''l1'', wj_bodyHash = ''h'', wj_attempts = 0,
     wj_availableAt = 0, wj_status = Pending, wj_updatedAt = 0, wj_createdAt = 0\<rparr>"

theorem revocation_is_complete_witness:
  "let (outcome, links, jobs) = revokeAll bank_provider ''u'' (bs_links bank_start, [(''j1'', bank_job), (''j2'', bank_job\<lparr>wj_id := ''j2'', wj_userId := ''w''\<rparr>)])
   in outcome = Inr 1 \<and> map fst jobs = [''j2''] \<and> list_all (\<lambda>l. bl_status l = Revoked) (link_list links ''u'')"
proof -
  let ?jobs = "[(''j1'', bank_job), (''j2'', bank_job\<lparr>wj_id := ''j2'', wj_userId := ''w''\<rparr>)]"
  let ?r = "revokeAll bank_provider ''u'' (bs_links bank_start, ?jobs)"
  obtain links jobs where r: "?r = (Inr 1, links, jobs)" and j: "map fst jobs = [''j2'']"
    by (simp add: revokeAll_def bank_provider_def bank_start_def bank_link_def bank_job_def connected_links_def
      link_list_def bucket_def get_or_def purgeLink_def link_update_def find_row_def)
  have "links_distinct (bs_links bank_start) ''u''"
    by (simp add: links_distinct_def bank_start_def link_list_def bucket_def get_or_def)
  from revocation_is_complete [OF this r] show ?thesis by (simp add: r j)
qed

end
