(* ===== verification/Spec2Isabelle.thy ===== *)
theory Spec2Isabelle
  imports SplitService AuthRace Dates BillingSafety Money Csv LedgerQueries LedgerSafety ImportAmounts ImportUndo
    ReconciliationSafety ScheduledSafety FxSafety Budgets Goals TransferSafety AnalyticsSafety
    Purchase CreditCards InsightsSafety HealthScore DataQuality InsightsCache SavedViewSafety NotificationsSafety BankingSafety
begin

text \<open>
  The API server of FinVerse (\<open>src/apps/api/src\<close>, TypeScript), a personal-finance service: users sign
  in, connect bank accounts or import their statements, categorize and correct their transactions,
  share expenses in groups, and read budgets, schedules, exchange rates, goals and reports computed
  from the ledger. Paths below are relative to that directory.

  \<^bold>\<open>How the program is built.\<close> Pure rules live in \<open>domain/\<close>, the interfaces they are reached through in
  \<open>ports/\<close>, the stores and adapters in \<open>infra/\<close> (each store once in memory and once over Postgres), and
  one service per feature in \<open>modules/\<close>, which reads stores, calls the rules and writes stores back. The
  development follows that layering: a theory of rules, a theory of stores, a theory of the service,
  and a theory of what the composition guarantees.

  \<^bold>\<open>Shared ground.\<close>
  \<^item> \<open>Prelude\<close>: the lemma collections, JavaScript's \<open>Map\<close> as an association list in insertion order,
    stable sorting, loops that may throw. \<open>JsNum\<close>: numbers (\<open>Math.round\<close>, binary64 rounding as \<open>fl\<close>, what a
    client may send as a number). \<open>JsString\<close>: strings of code units. \<open>JsRegex\<close>: the regular expressions
    the code writes as literals, with ECMAScript's order of preference and backtracking; a repetition
    runs at most as often as the subject has characters left, plus one, which is enough since a step
    that consumes nothing ends it. \<open>Dates\<close> (\<open>domain/dates.ts\<close>): days, ISO dates, months.
  \<^item> \<open>Money\<close> (\<open>domain/money.ts\<close>), \<open>LedgerTypes\<close> (\<open>domain/types.ts\<close>, \<open>domain/categories.ts\<close>),
    \<open>RowStore\<close>: what the per-user stores of \<open>infra/in-memory-store.ts\<close> have in common.

  \<^bold>\<open>Shared expenses\<close> (\<open>domain/split/\<close>, \<open>modules/split/split.service.ts\<close>). \<open>SplitMath\<close>: equal shares to the
  last unit, balances that add up to zero, suggested payments that settle a group. Sums and products of amounts are
  those of binary64 (\<open>nadd\<close>, \<open>nmul\<close>), since a settlement may be any whole number; what is said of balances holds
  while the amounts of a group add up to less than \<open>2 ^ 53\<close>, and fails beyond. \<open>SplitStore\<close>: the
  in-memory store; \<open>SplitPort\<close>: the port as a locale, interpreted on it; \<open>SplitService\<close>: the service, with
  membership by consent and the reconciliation of every page as invariants of runs of its requests. The deletion of an
  account (\<open>purgeUser\<close>) is modelled but is not one of them: it leaves balances that do not add up.

  \<^bold>\<open>Identity\<close> (\<open>domain/auth/\<close>, \<open>infra/auth/\<close>, \<open>modules/auth/auth.service.ts\<close>). \<open>AuthPolicy\<close>: lockout, refresh
  decision, password rules. \<open>AuthStores\<close>, \<open>AuthSessions\<close>: the stores and the session port as a locale.
  \<open>AuthService\<close>: every method of the service. \<open>AuthSafety\<close>: the service as a state machine over requests
  (one live session per family, the end of a reused family). \<open>AuthLogin\<close>: lockout and second factor.
  \<open>AuthRace\<close>: concurrent refreshes cut into their awaits; a lemma relates the steps of a request that runs
  alone to the method of the service.

  \<^bold>\<open>Subscriptions to the product\<close> (\<open>domain/billing/\<close>, \<open>infra/billing/\<close>, \<open>modules/billing/billing.service.ts\<close>).
  \<open>BillingPlans\<close>, \<open>BillingService\<close>, \<open>BillingSafety\<close>: webhooks in any order converge to what the provider
  says, and a paid plan was bought.

  \<^bold>\<open>The ledger.\<close> \<open>LedgerStore\<close> (\<open>infra/in-memory-store.ts\<close>) and \<open>LedgerService\<close>
  (\<open>modules/ledger/ledger.service.ts\<close>), with the categorizer in \<open>Descriptors\<close> and \<open>Categorize\<close>
  (\<open>domain/categorization/\<close>), the event bus, and bulk recategorization with its undo in \<open>RuleApply\<close>.
  \<open>LedgerSync\<close>: synchronisation refines a map from provider keys to rows. \<open>LedgerQueries\<close>: pages, for hosts whose collation
  agrees with the code units on the rows, and the row that is skipped where it does not.
  \<open>LedgerSafety\<close>: the choice a user made by hand survives any run. \<open>LedgerLearning\<close>: what a correction
  teaches. \<open>TxnUpdates\<close>, \<open>RuleUndo\<close>: runs of single-row updates, and the undo that restores the ledger.
  \<open>Csv\<close>: the export (\<open>domain/exports/transactions-csv.ts\<close>) is read back by the reader of the imports
  (\<open>domain/imports/csv-parse.ts\<close>).

  \<^bold>\<open>Banking\<close> (\<open>ports/banking.ts\<close>, \<open>infra/banking/\<close>, \<open>modules/banking/banking.service.ts\<close>). \<open>BankLinks\<close>: connections with
  the lease of a running synchronization, and the queue of webhook jobs. \<open>BankSync\<close>: a synchronization; the loop over
  the provider's pages is one function that ends by the retries left, then the pages left. \<open>Banking\<close>: connecting,
  disconnecting, webhooks, the queue, and the revocation before an account is deleted. The provider with its token
  cipher is a record of functions that may answer every request differently. \<open>BankingSafety\<close>: at most 400 requests
  per synchronization, a category chosen by hand survives it, the queue gives up after five attempts, a revocation
  leaves nothing behind, and a backlog of a hundred pages makes no progress.

  \<^bold>\<open>Imports of bank exports\<close> (\<open>domain/imports/\<close>, \<open>modules/imports/imports.service.ts\<close>). \<open>ImportMapping\<close>:
  columns, dates, amounts. \<open>ImportReview\<close>: what becomes of each row of a file. \<open>ImportService\<close>: preview, commit, undo.
  \<open>ImportAmounts\<close>, \<open>ImportUndo\<close>: printed amounts are read back, the commit writes what the preview showed, the undo
  restores the ledger, a second import of a file is refused.

  \<^bold>\<open>Figures from the ledger.\<close>
  \<^item> \<open>Reconciliation\<close>, \<open>ReconciliationSafety\<close> (\<open>domain/reconciliation/\<close>, \<open>modules/reconciliation/\<close>): the
    balance of a past day, and the audit trail of statements.
  \<^item> \<open>Scheduled\<close>, \<open>ScheduledSafety\<close> (\<open>domain/scheduled/\<close>, \<open>modules/scheduled/\<close>): the days a bill falls due.
    The loop of \<open>occurrencesBetween\<close> keeps the bound of 1000 rounds the code has; for schedules older than that
    the model returns what the code returns, the empty list.
  \<^item> \<open>FxRates\<close>, \<open>FxSafety\<close> (\<open>domain/fx/\<close>, \<open>modules/fx/\<close>): which rate is used and how far a conversion is off,
    by rounding between currencies of equal exponents, by a power of ten between others.
  \<^item> \<open>Budgets\<close>, \<open>Goals\<close> (\<open>domain/budgets/\<close>, \<open>domain/goals/\<close> and their services).
  \<^item> \<open>Subscriptions\<close> (\<open>domain/insights/subscriptions.ts\<close>): recurring charges.
  \<^item> \<open>Transfers\<close>, \<open>TransferSafety\<close> (\<open>domain/transactions/internal-transfers.ts\<close>, \<open>refund-matching.ts\<close>).
  \<^item> \<open>Analytics\<close>, \<open>AnalyticsSafety\<close> (\<open>domain/insights/analytics.ts\<close>): breakdowns and the trend series. The
    series is built by fuel, one unit per day of the period and 32 more, which is enough since every bucket
    starts at least one day after the one before it.

  \<^bold>\<open>Looking ahead and reports.\<close>
  \<^item> \<open>Months\<close>: what stepping by months does to a date, shared by the theories below and by \<open>ScheduledSafety\<close>.
  \<^item> \<open>Forecast\<close>, \<open>ForecastSafety\<close> (\<open>domain/insights/cash-flow-forecast.ts\<close>): the loops that step a date until it
    passes a limit are \<open>partial_function\<close>s, and proved to end; the daily balances of a ledger of one currency add up. \<open>Purchase\<close>
    (\<open>purchase-simulator.ts\<close>): a purchase is one more event of the forecast.
  \<^item> \<open>CreditCards\<close> (\<open>domain/credit-cards/\<close>), \<open>HealthScore\<close> (\<open>domain/health-score/\<close>), \<open>DataQuality\<close>
    (\<open>domain/insights/data-quality.ts\<close>), with the printing of decimals in \<open>JsFormat\<close>.
  \<^item> \<open>Insights\<close>, \<open>InsightsSafety\<close> (\<open>domain/insights/insights.ts\<close>): the summary of a period, and how it agrees with
    the analytics. \<open>InsightsService\<close>, \<open>InsightsCache\<close> (\<open>modules/insights/insights.service.ts\<close>): the reports and the
    cache of the analytics. A request is cut at its \<open>await\<close> and interleaves with writes and their announcements; the
    cache refines the uncached service while no request is in flight at an announcement, and no answer is ever more
    than thirty seconds behind.
  \<^item> \<open>SavedViews\<close>, \<open>SavedViewSafety\<close> (\<open>domain/transactions/saved-view.ts\<close>, \<open>modules/ledger/saved-views.service.ts\<close>,
    \<open>view-report.service.ts\<close>): named filters; only valid ones are stored, and a view lists what its fields say.
  \<^item> \<open>FinancialAlerts\<close> (\<open>domain/notifications/financial-alerts.ts\<close>), \<open>Notifications\<close>, \<open>NotificationsSafety\<close>
    (\<open>modules/notifications/\<close>, \<open>modules/push/\<close>): alerts derived from the ledger; looking twice alerts once, and every
    stored alert is pushed exactly once.

  \<^bold>\<open>Conventions.\<close> Amounts of minor units, time stamps and counts are \<open>int\<close>: amounts of the ledger are far below
  \<open>2 ^ 53\<close>, where JavaScript's arithmetic is exact; the split theories, which take any amount, round their sums. Numbers a client sends are \<open>num\<close> values (integer, fraction, NaN or
  infinite), quotients and percentages are rationals rounded by \<open>fl\<close>. Strings are lists of code units below 256.
  Errors are values of a sum type, \<open>None\<close> where the code throws a \<open>RangeError\<close> from a date. A method that awaits a
  store runs without interruption, as it does over the in-memory stores; interleavings at the awaits
  are the subject of \<open>AuthRace\<close> for the refresh request and of \<open>InsightsCache\<close> for the analytics. The interfaces between a service and its stores are locales with
  the laws the service relies on, each interpreted on the in-memory store.

  \<^bold>\<open>Parameters.\<close> Clocks, random identifiers and tokens, \<open>localeCompare\<close>, the digest of a file, the engine that runs
  patterns typed by users, the formatter of amounts, the reader of time stamps, the bank aggregator and the payment provider are
  arguments of the definitions; what a property needs of them is a hypothesis, and its witness
  instantiates it.

  \<^bold>\<open>Not modelled.\<close> The Postgres stores, their migrations and rows (\<open>infra/postgres/\<close>), whose statements are SQL; the
  HTTP layer (controllers, DTO validation, guards, modules, \<open>main.ts\<close>, \<open>config.ts\<close>), which is declarations for
  the framework; the adapters to remote services (Stripe's SDK, Plaid, mail, push, OCR) and
  cryptography; the demo seed and the mobile client.
\<close>

end
